(* ===== verification/Prelude.thy ===== *)
theory Prelude
  imports Main "HOL-Library.Word" "HOL-Library.Monad_Syntax"
begin

text \<open>
  Shared vocabulary of the development: the C integer types as words, C strings as byte
  lists, bit fields of registers, the byte order of \<^verbatim>\<open>subwords32_t\<close> and
  \<^verbatim>\<open>subwords64_t\<close> (little endian), and the lemmas about them that every component uses.
  On RISC-V \<^verbatim>\<open>char\<close> is unsigned, so a \<^verbatim>\<open>char\<close> and a \<^verbatim>\<open>uint8_t\<close> are the
  same type here.
\<close>

unbundle bit_operations_syntax

type_synonym u8 = "8 word"
type_synonym u16 = "16 word"
type_synonym u32 = "32 word"
type_synonym u64 = "64 word"

named_theorems driver_simps \<open>unfolding rules of straight-line driver code\<close>
named_theorems field_simps_reg \<open>bit-field extraction from assembled register values\<close>

section \<open>C strings\<close>

text \<open>A C string is the list of its bytes before the terminating NUL.\<close>

definition str :: "string \<Rightarrow> u8 list" where
  "str s = map of_char s"

section \<open>Bit fields\<close>

text \<open>\<open>field lsb n r\<close> is \<^verbatim>\<open>(r >> lsb) & ((1 << n) - 1)\<close>.\<close>

definition field :: "nat \<Rightarrow> nat \<Rightarrow> u32 \<Rightarrow> u32" where
  "field lsb n r = take_bit n (drop_bit lsb r)"

lemma bit_field [simp]: "bit (field lsb n r) i \<longleftrightarrow> i < n \<and> bit r (lsb + i)"
  by (auto simp: field_def bit_simps)

section \<open>Little-endian subwords\<close>

definition byte32 :: "u32 \<Rightarrow> nat \<Rightarrow> u8" where
  "byte32 w i = ucast (drop_bit (8 * i) w)"

definition join32 :: "u8 \<Rightarrow> u8 \<Rightarrow> u8 \<Rightarrow> u8 \<Rightarrow> u32" where
  "join32 b0 b1 b2 b3 =
     ucast b0 OR push_bit 8 (ucast b1) OR push_bit 16 (ucast b2) OR push_bit 24 (ucast b3)"

definition bytes32 :: "u32 \<Rightarrow> u8 list" where
  "bytes32 w = map (byte32 w) [0..<4]"

definition lo32 :: "u64 \<Rightarrow> u32" where
  "lo32 w = ucast w"

definition hi32 :: "u64 \<Rightarrow> u32" where
  "hi32 w = ucast (drop_bit 32 w)"

definition join64 :: "u32 \<Rightarrow> u32 \<Rightarrow> u64" where
  "join64 lo hi = ucast lo OR push_bit 32 (ucast hi)"

lemma bit_byte32: "bit (byte32 w i) n \<longleftrightarrow> n < 8 \<and> bit w (8 * i + n)"
  by (simp add: byte32_def bit_simps)

lemma bytes32_eq: "bytes32 w = [byte32 w 0, byte32 w 1, byte32 w 2, byte32 w 3]"
  by (simp add: bytes32_def upt_rec numeral_2_eq_2 numeral_3_eq_3)

lemma length_bytes32 [simp]: "length (bytes32 w) = 4"
  by (simp add: bytes32_def)

lemma join32_byte32 [simp]: "join32 (byte32 w 0) (byte32 w 1) (byte32 w 2) (byte32 w 3) = w"
proof (rule bit_word_eqI)
  fix n assume n: "n < LENGTH(32)"
  then consider "n < 8" | "8 \<le> n" "n < 16" | "16 \<le> n" "n < 24" | "24 \<le> n" "n < 32"
    by fastforce
  then show "bit (join32 (byte32 w 0) (byte32 w 1) (byte32 w 2) (byte32 w 3)) n = bit w n"
    by cases (auto simp: join32_def bit_simps bit_byte32 dest: bit_imp_le_length)
qed

lemma byte32_join32 [simp]:
  "byte32 (join32 a b c d) 0 = a" "byte32 (join32 a b c d) (Suc 0) = b"
  "byte32 (join32 a b c d) 2 = c" "byte32 (join32 a b c d) 3 = d"
  by (rule bit_word_eqI; auto simp: join32_def bit_simps bit_byte32 dest: bit_imp_le_length)+

lemma join64_lo_hi [simp]: "join64 (lo32 w) (hi32 w) = w"
proof (rule bit_word_eqI)
  fix n assume n: "n < LENGTH(64)"
  then consider "n < 32" | "32 \<le> n" "n < 64" by fastforce
  then show "bit (join64 (lo32 w) (hi32 w)) n = bit w n"
    by cases (auto simp: join64_def lo32_def hi32_def bit_simps dest: bit_imp_le_length)
qed

lemma lo32_join64 [simp]: "lo32 (join64 l h) = l"
  by (rule bit_word_eqI; auto simp: join64_def lo32_def bit_simps dest: bit_imp_le_length)

lemma hi32_join64 [simp]: "hi32 (join64 l h) = h"
  by (rule bit_word_eqI; auto simp: join64_def hi32_def bit_simps dest: bit_imp_le_length)

section \<open>Words as numbers\<close>

text \<open>
  A word is \<open>of_nat\<close> of a small number; sums, products and non-negative differences
  commute with \<open>of_nat\<close>, quotients and remainders do so below the word size.
\<close>

lemma unat_of_nat_small: "a < 2 ^ LENGTH('a) \<Longrightarrow> unat (of_nat a :: 'a::len word) = a"
  by (simp add: unat_of_nat take_bit_eq_mod)

lemma div_of_nat_word:
  assumes "a < 2 ^ LENGTH('a)" "b < 2 ^ LENGTH('a)"
  shows "(of_nat a :: 'a::len word) div of_nat b = of_nat (a div b)"
proof -
  have "a div b < 2 ^ LENGTH('a)" using assms(1) by (rule order.strict_trans1 [OF div_le_dividend])
  with assms show ?thesis by (simp add: word_unat_eq_iff unat_div_distrib unat_of_nat_small)
qed

lemma mod_of_nat_word:
  assumes "a < 2 ^ LENGTH('a)" "b < 2 ^ LENGTH('a)"
  shows "(of_nat a :: 'a::len word) mod of_nat b = of_nat (a mod b)"
proof -
  have "a mod b < 2 ^ LENGTH('a)" using assms(1) by (rule order.strict_trans1 [OF mod_less_eq_dividend])
  with assms show ?thesis by (simp add: word_unat_eq_iff unat_mod_distrib unat_of_nat_small)
qed

lemma div_numeral_word:
  "a < 2 ^ LENGTH('a) \<Longrightarrow> numeral k < (2::nat) ^ LENGTH('a) \<Longrightarrow>
   (of_nat a :: 'a::len word) div numeral k = of_nat (a div numeral k)"
  using div_of_nat_word [of a "numeral k"] by simp

lemma mod_numeral_word:
  "a < 2 ^ LENGTH('a) \<Longrightarrow> numeral k < (2::nat) ^ LENGTH('a) \<Longrightarrow>
   (of_nat a :: 'a::len word) mod numeral k = of_nat (a mod numeral k)"
  using mod_of_nat_word [of a "numeral k"] by simp

lemma ucast_of_nat_small:
  "a < 2 ^ LENGTH('a) \<Longrightarrow> (ucast (of_nat a :: 'a::len word) :: 'b::len word) = of_nat a"
  by (metis of_nat_unat unat_of_nat_small)

lemma ucast_ucast_u8 [simp]: "ucast (ucast (c :: u8) :: u32) = c"
  by (rule bit_word_eqI) (auto simp: bit_simps)

lemma unat_drop_bit_less:
  assumes "x \<noteq> 0" "0 < k"
  shows "unat (drop_bit k x) < unat (x :: 'a::len word)"
proof -
  have "1 < (2 :: nat) ^ k" using assms(2) by (intro one_less_power) simp_all
  moreover have "0 < unat x" using assms(1) by (simp add: unat_gt_0)
  ultimately have "unat x div 2 ^ k < unat x" by (rule div_less_dividend)
  then show ?thesis by (simp add: unat_drop_bit_eq drop_bit_nat_def)
qed

text \<open>
  Unsigned division as the RV32 M extension computes it: a zero divisor gives all ones.  In C
  the case is undefined.
\<close>

definition divu :: "u32 \<Rightarrow> u32 \<Rightarrow> u32" where
  "divu a b = (if b = 0 then - 1 else a div b)"

text \<open>\<^verbatim>\<open>x << n\<close> and \<^verbatim>\<open>x >> n\<close> with a run-time amount: the instructions use its low five bits.\<close>

definition shl32 :: "u32 \<Rightarrow> u32 \<Rightarrow> u32" where
  "shl32 x n = push_bit (unat (n AND 31)) x"

definition shr32 :: "u32 \<Rightarrow> u32 \<Rightarrow> u32" where
  "shr32 x n = drop_bit (unat (n AND 31)) x"

lemma and_31_take_bit: "x AND 31 = take_bit 5 (x :: u32)"
  by (simp add: take_bit_eq_mask mask_eq_exp_minus_1)

lemma unat_and_31 [simp]: "unat (x AND 31 :: u32) < 32"
proof -
  have "unat (take_bit 5 x) = unat x mod 32" 
    by (simp only: take_bit_eq_mod unat_mod_distrib) simp
  then show ?thesis by (simp add: and_31_take_bit)
qed

lemma bit_shl32_1 [simp]: "bit (shl32 1 n) i \<longleftrightarrow> i = unat (n AND 31)"
  using unat_and_31 [of n] by (auto simp: shl32_def bit_simps simp del: unat_and_31)

text \<open>The subwords of a 64-bit value as numbers.\<close>

lemma join64_of_nat: "join64 l h = of_nat (unat l + 2 ^ 32 * unat h)"
proof -
  have "ucast l AND push_bit 32 (ucast h :: u64) = (0 :: u64)"
    by (rule bit_word_eqI) (auto simp: bit_simps dest: bit_imp_le_length)
  then have "join64 l h = ucast l + push_bit 32 (ucast h)"
    by (simp add: join64_def disjunctive_add_eq_or)
  then show ?thesis by (simp add: push_bit_eq_mult mult.commute)
qed

lemma unat_join64: "unat (join64 l h) = unat l + 2 ^ 32 * unat h"
proof -
  have "unat l < 2 ^ 32" "unat h < 2 ^ 32" using unsigned_less [of l] unsigned_less [of h] by simp_all
  then show ?thesis unfolding join64_of_nat by (intro unat_of_nat_small) simp
qed

lemma unat_lo32: "unat (lo32 w) = unat w mod 2 ^ 32"
  and unat_hi32: "unat (hi32 w) = unat w div 2 ^ 32"
proof -
  have w: "unat w = unat (lo32 w) + 2 ^ 32 * unat (hi32 w)"
    using unat_join64 [of "lo32 w" "hi32 w"] by simp
  have "unat (lo32 w) < 2 ^ 32" using unsigned_less [of "lo32 w"] by simp
  with w show "unat (lo32 w) = unat w mod 2 ^ 32" "unat (hi32 w) = unat w div 2 ^ 32" by simp_all
qed

end
