(* ===== verification/Neo_Date.thy ===== *)
theory Neo_Date
  imports Prelude
begin

text \<open>
  Calendar conversion of \<^verbatim>\<open>sw/lib/source/neorv32_aux.c\<close>: the two functions on their C
  integer types, an independent description of the civil calendar (leap years, month
  lengths, days since 1970-01-01), and the proof that the code computes it and that the two
  functions are inverse to each other for every date from 1970 to 2105.  The year 2105 is the
  last whole year before the 32-bit accumulator of \<^verbatim>\<open>neorv32_aux_date2unixtime\<close> wraps.
\<close>

section \<open>The code\<close>

record date_t =
  year :: u16
  month :: u8
  day :: u8
  weekday :: u8
  hours :: u8
  minutes :: u8
  seconds :: u8

definition neorv32_aux_date2unixtime :: "date_t \<Rightarrow> u64" where
  "neorv32_aux_date2unixtime date =
     (let y = (if year date < 1970 then 1970 else ucast (year date)) :: u32;
          m = (if month date < 1 \<or> month date > 12 then 1 else ucast (month date)) :: u32;
          d = (if day date < 1 \<or> day date > 31 then 1 else ucast (day date)) :: u32;
          (m, y) = (if m \<le> 2 then (m + 12, y - 1) else (m, y));
          t = (365 * y) + (y div 4) - (y div 100) + (y div 400);
          t = t + ((30 * m) + (3 * (m + 1) div 5) + d);
          t = t - 719561;
          t = t * 86400;
          t = t + ((3600 * (ucast (hours date) mod 24)) + (60 * (ucast (minutes date) mod 60))
                   + (ucast (seconds date) mod 60))
      in ucast t)"

definition neorv32_aux_unixtime2date :: "u64 \<Rightarrow> date_t" where
  "neorv32_aux_unixtime2date unixtime =
     (let unixtime = (if unixtime < 1 then 0 else unixtime);
          sec = unixtime mod 60;
          unixtime = unixtime div 60;
          mnt = unixtime mod 60;
          unixtime = unixtime div 60;
          hrs = unixtime mod 24;
          unixtime = unixtime div 24;
          a = (ucast ((4 * unixtime + 102032) div 146097 + 15)) :: u32;
          b = (ucast (unixtime + 2442113 + ucast a - ucast (a div 4))) :: u32;
          c = (20 * b - 2442) div 7305;
          d = b - 365 * c - (c div 4);
          e = d * 1000 div 30601;
          f = d - e * 30 - e * 601 div 1000;
          (c, e) = (if e \<le> 13 then (c - 4716, e - 1) else (c - 4715, e - 13));
          y = c; mo = e;
          (c, e) = (if e \<le> 2 then (c - 1, e + 12) else (c, e));
          j = c div 100;
          k = c mod 100;
          h = f + (26 * (e + 1) div 10) + k + (k div 4) + (5 * j) + (j div 4)
      in \<lparr>year = ucast y, month = ucast mo, day = ucast f, weekday = ucast (((h + 5) mod 7) + 1),
          hours = ucast hrs, minutes = ucast mnt, seconds = ucast sec\<rparr>)"

section \<open>The civil calendar\<close>

definition leap :: "nat \<Rightarrow> bool" where
  "leap y \<longleftrightarrow> y mod 4 = 0 \<and> (y mod 100 \<noteq> 0 \<or> y mod 400 = 0)"

definition year_len :: "nat \<Rightarrow> nat" where
  "year_len y = (if leap y then 366 else 365)"

definition month_len :: "nat \<Rightarrow> nat \<Rightarrow> nat" where
  "month_len y m = (if m = 2 then (if leap y then 29 else 28)
                    else if m \<in> {4, 6, 9, 11} then 30 else 31)"

text \<open>Days from 1970-01-01 to the given date.\<close>

definition civil_days :: "nat \<Rightarrow> nat \<Rightarrow> nat \<Rightarrow> nat" where
  "civil_days y m d = (\<Sum>k = 1970..<y. year_len k) + (\<Sum>k = 1..<m. month_len y k) + (d - 1)"

definition valid_civil :: "nat \<Rightarrow> nat \<Rightarrow> nat \<Rightarrow> bool" where
  "valid_civil y m d \<longleftrightarrow> 1970 \<le> y \<and> y \<le> 2105 \<and> 1 \<le> m \<and> m \<le> 12 \<and> 1 \<le> d \<and> d \<le> month_len y m"

text \<open>The code counts from March: January and February are months 13 and 14 of the year before.\<close>

definition shift_y :: "nat \<Rightarrow> nat \<Rightarrow> nat" where
  "shift_y y m = (if m \<le> 2 then y - 1 else y)"

definition shift_m :: "nat \<Rightarrow> nat" where
  "shift_m m = (if m \<le> 2 then m + 12 else m)"

definition year_days :: "nat \<Rightarrow> nat" where
  "year_days y = 365 * y + y div 4 - y div 100 + y div 400"

definition month_days :: "nat \<Rightarrow> nat" where
  "month_days m = 30 * m + 3 * (m + 1) div 5"

lemma year_centuries:
  fixes y :: nat
  assumes "1969 \<le> y" "y \<le> 2105"
  shows "y div 100 = (if y < 2000 then 19 else if y < 2100 then 20 else 21)"
    and "y div 400 = (if y < 2000 then 4 else 5)"
  using assms by auto

lemma leap_range:
  assumes "1969 \<le> y" "y \<le> 2105"
  shows "leap y \<longleftrightarrow> y mod 4 = 0 \<and> y \<noteq> 2100"
proof -
  have "y mod 100 = y - 100 * (y div 100)" "y mod 400 = y - 400 * (y div 400)"
    by (simp_all add: minus_mult_div_eq_mod)
  then show ?thesis
    using assms year_centuries [OF assms] by (auto simp: leap_def)
qed

lemma months_cases:
  fixes m :: nat
  assumes "1 \<le> m" "m \<le> 12"
  shows "m \<in> {1, 2, 3, 4, 5, 6, 7, 8, 9, 10, 11, 12}"
  using assms by (simp only: insert_iff empty_iff) arith

lemma year_days_Suc:
  assumes "1969 \<le> y" "y < 2105"
  shows "year_days (Suc y) = year_days y + (if leap (Suc y) then 366 else 365)"
proof -
  have q: "Suc y div 4 = (if Suc y mod 4 = 0 then Suc (y div 4) else y div 4)" by (rule div_Suc)
  have l: "leap (Suc y) \<longleftrightarrow> Suc y mod 4 = 0 \<and> Suc y \<noteq> 2100"
    using assms by (intro leap_range) simp_all
  have m: "y = 2099 \<Longrightarrow> Suc y mod 4 = 0" "y = 1999 \<Longrightarrow> Suc y mod 4 = 0" by simp_all
  define k where "k = y div 4"
  have k: "492 \<le> k" using assms by (simp add: k_def)
  define z where "z \<longleftrightarrow> Suc y mod 4 = 0"
  consider "y < 1999" | "y = 1999" | "2000 \<le> y" "y < 2099" | "y = 2099" | "2100 \<le> y" by linarith
  then show ?thesis
    using year_centuries [of y] year_centuries [of "Suc y"] assms k m
    unfolding year_days_def q l k_def [symmetric] z_def [symmetric]
    by cases auto
qed

lemma sum_year_len:
  "1970 \<le> y \<Longrightarrow> y \<le> 2105 \<Longrightarrow>
   (\<Sum>k = 1970..<y. year_len k) + 719468 + (if leap y then 60 else 59) = year_days y"
proof (induction y rule: dec_induct)
  case base
  then show ?case by (simp add: year_days_def leap_def)
next
  case (step y)
  then show ?case using year_days_Suc [of y] by (simp add: year_len_def split: if_splits)
qed

lemma month_days_Suc:
  assumes "3 \<le> m" "m < 12"
  shows "month_days (Suc m) = month_days m + month_len y m"
  using months_cases [of m] assms by (auto simp: month_days_def month_len_def)

lemma sum_month_len_ge3:
  "3 \<le> m \<Longrightarrow> m \<le> 12 \<Longrightarrow>
   (\<Sum>k = 1..<m. month_len y k) + 92 = month_days m + (if leap y then 60 else 59)"
proof (induction m rule: dec_induct)
  case base
  have "{1..<3} = {1, 2::nat}" by (rule set_eqI) (simp, arith)
  then show ?case by (simp add: month_len_def month_days_def)
next
  case (step m)
  then show ?case using month_days_Suc [of m y] by (simp split: if_splits)
qed

lemma sum_month_len_le2:
  assumes "1 \<le> m" "m \<le> 2"
  shows "(\<Sum>k = 1..<m. month_len y k) = 31 * (m - 1)"
proof (cases "m = 1")
  case False
  with assms have m: "m = Suc 1" by arith
  show ?thesis unfolding m by (simp only: sum.op_ivl_Suc) (simp add: month_len_def)
qed simp

text \<open>The sums of the calendar in closed form, as the code computes them.\<close>

lemma civil_days_closed:
  assumes "valid_civil y m d"
  shows "civil_days y m d + 719561 = year_days (shift_y y m) + month_days (shift_m m) + d"
proof -
  have y: "1970 \<le> y" "y \<le> 2105" and m: "1 \<le> m" "m \<le> 12" and d: "1 \<le> d"
    using assms by (auto simp: valid_civil_def)
  have prev: "year_days y = year_days (y - 1) + (if leap y then 366 else 365)"
    using year_days_Suc [of "y - 1"] y by (simp split: if_splits)
  show ?thesis
  proof (cases "m \<le> 2")
    case True
    then have "m = 1 \<or> m = 2" using m by auto
    with True sum_month_len_le2 [OF m(1) True, of y] sum_year_len [OF y] d prev show ?thesis
      by (auto simp: civil_days_def shift_y_def shift_m_def month_days_def split: if_splits)
  next
    case False
    with sum_month_len_ge3 [of m y] m sum_year_len [OF y] d show ?thesis
      by (auto simp: civil_days_def shift_y_def shift_m_def split: if_splits)
  qed
qed

section \<open>Inverting the day count\<close>

lemma shifted_date:
  assumes "valid_civil y m d"
  shows "1969 \<le> shift_y y m" "shift_y y m \<le> 2105" "3 \<le> shift_m m" "shift_m m \<le> 14"
    and "93 \<le> month_days (shift_m m) + d" "month_days (shift_m m) + d \<le> 458"
    and "month_days (shift_m m) + d = 458 \<Longrightarrow> leap (Suc (shift_y y m))"
    and "1 \<le> d"
proof -
  have y: "1970 \<le> y" "y \<le> 2105" and m: "1 \<le> m" "m \<le> 12" and d: "1 \<le> d" "d \<le> month_len y m"
    using assms by (auto simp: valid_civil_def)
  show "1969 \<le> shift_y y m" "shift_y y m \<le> 2105" "3 \<le> shift_m m" "shift_m m \<le> 14"
    using y m by (auto simp: shift_y_def shift_m_def)
  show "1 \<le> d" by (rule d)
  have md: "month_days (shift_m m) = 92 \<or> 122 \<le> month_days (shift_m m)"
    "month_days (shift_m m) \<le> (if m = 2 then 429 else if m = 1 then 398 else 367)"
    using months_cases [OF m] by (auto simp: shift_m_def month_days_def)
  have dd: "d \<le> (if m = 2 then (if leap y then 29 else 28) else 31)"
    using d(2) by (auto simp: month_len_def split: if_splits)
  show "93 \<le> month_days (shift_m m) + d" "month_days (shift_m m) + d \<le> 458"
    using md d(1) dd by (auto split: if_splits)
  show "leap (Suc (shift_y y m))" if "month_days (shift_m m) + d = 458"
    using that md(2) dd y by (auto simp: shift_y_def split: if_splits)
qed

text \<open>The century correction: \<open>a\<close> is 15 before 2000-03-01, 17 from 2100-03-01, 16 in between.\<close>

lemma century_correction:
  assumes v: "valid_civil y m d" and N: "N = civil_days y m d"
    and a: "a = (4 * N + 102032) div 146097 + 15"
  shows "N + 2442113 + a - a div 4 =
    365 * (shift_y y m + 4716) + (shift_y y m + 4716) div 4 + month_days (shift_m m) + d + 30"
proof -
  define Y where "Y = shift_y y m"
  define P where "P = month_days (shift_m m) + d"
  have Y: "1969 \<le> Y" "Y \<le> 2105" and P: "93 \<le> P" "P \<le> 458" and feb: "P = 458 \<Longrightarrow> leap (Suc Y)"
    using shifted_date [OF v] by (simp_all add: Y_def P_def)
  have N': "N + 719561 = year_days Y + P"
    using civil_days_closed [OF v] by (simp add: N Y_def P_def)
  have Y4: "(Y + 4716) div 4 = Y div 4 + 1179" by simp
  have P2099: "P \<le> 457" if "Y = 2099"
    using feb that P by (fastforce simp: leap_def)
  consider "Y < 2000" | "2000 \<le> Y" "Y < 2100" | "2100 \<le> Y" by linarith
  then have "N + 2442113 + a - a div 4 = 365 * (Y + 4716) + (Y + 4716) div 4 + P + 30"
  proof cases
    case 1
    then have "N \<le> 11016" using N' P year_centuries [OF Y] by (simp add: year_days_def)
    then have "a = 15" by (simp add: a)
    then show ?thesis using 1 N' Y4 year_centuries [OF Y] Y by (simp add: year_days_def)
  next
    case 2
    then have "N + 719561 = 365 * Y + Y div 4 - 15 + P"
      using N' year_centuries [OF Y] by (simp add: year_days_def)
    moreover have "Y \<le> 2098 \<or> P \<le> 457" using 2 P2099 by linarith
    moreover have "Y div 4 \<le> 524" "500 \<le> Y div 4" using 2 by simp_all
    ultimately have "11017 \<le> N" "N \<le> 47540" using 2 P by linarith+
    then have "146097 \<le> 4 * N + 102032" "4 * N + 102032 < 2 * 146097" by simp_all
    then have "(4 * N + 102032) div 146097 = 1" by (simp add: div_nat_eqI)
    then have "a = 16" by (simp add: a)
    then show ?thesis using 2 N' Y4 year_centuries [OF Y] Y by (simp add: year_days_def)
  next
    case 3
    then have "N + 719561 = 365 * Y + Y div 4 - 16 + P"
      using N' year_centuries [OF Y] by (simp add: year_days_def)
    moreover have "525 \<le> Y div 4" "Y div 4 \<le> 526" using 3 Y by simp_all
    ultimately have "47541 \<le> N" "N \<le> 49999" using 3 Y P by linarith+
    then have "2 * 146097 \<le> 4 * N + 102032" "4 * N + 102032 < 3 * 146097" by simp_all
    then have "(4 * N + 102032) div 146097 = 2" by (simp add: div_nat_eqI)
    then have "a = 17" by (simp add: a)
    then show ?thesis using 3 N' Y4 year_centuries [OF Y] Y by (simp add: year_days_def)
  qed
  then show ?thesis by (simp add: Y_def P_def)
qed

text \<open>The year: 7305 days are 20 years of 365.25 days.\<close>

lemma year_from_days:
  assumes v: "valid_civil y m d" and C: "C = shift_y y m + 4716"
    and b: "b = 365 * C + C div 4 + month_days (shift_m m) + d + 30"
  shows "(20 * b - 2442) div 7305 = C"
proof -
  define P where "P = month_days (shift_m m) + d"
  have P: "93 \<le> P" "P \<le> 458" and feb: "P = 458 \<Longrightarrow> leap (Suc (shift_y y m))"
    using shifted_date [OF v] by (simp_all add: P_def)
  obtain q r where C4: "C = 4 * q + r" "r < 4" "C div 4 = q"
    using div_mult_mod_eq [of C 4] mod_less_divisor [of 4 C]
    by (metis mult.commute zero_less_numeral)
  have "r = 3" if "P = 458"
  proof -
    have "Suc (shift_y y m) mod 4 = 0" using feb [OF that] by (simp add: leap_def)
    then have "(shift_y y m + 4716) mod 4 = 3" by presburger
    then show ?thesis using C4 C by simp
  qed
  then have "P \<le> 457 \<or> r = 3" using P by fastforce
  moreover have "b = 365 * C + q + (P + 30)" by (simp add: b C4 P_def)
  ultimately have "7305 * C \<le> 20 * b - 2442" "20 * b - 2442 < 7305 * Suc C"
    using C4 P by (simp_all, linarith+)
  then show ?thesis by (intro div_nat_eqI) simp_all
qed

text \<open>Month and day: 30601 thousandths of a day per thousand months.\<close>

lemma month_from_days:
  assumes v: "valid_civil y m d" and D: "D = month_days (shift_m m) + d + 30"
  shows "D * 1000 div 30601 = shift_m m + 1"
    and "D - (shift_m m + 1) * 30 - (shift_m m + 1) * 601 div 1000 = d"
proof -
  have "m \<in> {1, 2, 3, 4, 5, 6, 7, 8, 9, 10, 11, 12}" and d: "1 \<le> d" "d \<le> month_len y m"
    using v months_cases by (simp_all add: valid_civil_def)
  then show "D * 1000 div 30601 = shift_m m + 1"
    "D - (shift_m m + 1) * 30 - (shift_m m + 1) * 601 div 1000 = d"
    by (elim insertE;
        auto intro!: div_nat_eqI simp: D shift_m_def month_days_def month_len_def split: if_splits)+
qed

section \<open>The word-level code computes the calendar\<close>

definition date_civil :: "date_t \<Rightarrow> nat \<times> nat \<times> nat" where
  "date_civil d = (unat (year d), unat (month d), unat (day d))"

definition time_of_day :: "date_t \<Rightarrow> nat" where
  "time_of_day d = 3600 * unat (hours d) + 60 * unat (minutes d) + unat (seconds d)"

definition valid_date :: "date_t \<Rightarrow> bool" where
  "valid_date d \<longleftrightarrow> (case date_civil d of (y, m, dd) \<Rightarrow> valid_civil y m dd)
     \<and> hours d < 24 \<and> minutes d < 60 \<and> seconds d < 60"

definition civil_seconds :: "date_t \<Rightarrow> nat" where
  "civil_seconds d = (case date_civil d of (y, m, dd) \<Rightarrow> 86400 * civil_days y m dd) + time_of_day d"

lemma civil_days_bound:
  assumes "valid_civil y m d"
  shows "civil_days y m d \<le> 49672"
proof -
  have m: "1 \<le> m" "m \<le> 12" and y: "1970 \<le> y" "y \<le> 2105" using assms by (auto simp: valid_civil_def)
  from months_cases [OF m] assms
  have "month_days (shift_m m) + d + (if m \<le> 2 then 306 else 366) \<le> 764"
    by (elim insertE) (auto simp: valid_civil_def month_days_def shift_m_def month_len_def split: if_splits)
  moreover have "(shift_y y m) div 4 \<le> 526" "shift_y y m \<le> 2105" "m \<le> 2 \<Longrightarrow> shift_y y m \<le> 2104"
    using y by (auto simp: shift_y_def)
  moreover have "year_days (shift_y y m) + (if shift_y y m < 2100 then 15 else 16)
      = 365 * shift_y y m + shift_y y m div 4"
    using year_centuries [of "shift_y y m"] shifted_date(1,2) [OF assms] by (auto simp: year_days_def)
  ultimately show ?thesis using civil_days_closed [OF assms]
    by (auto split: if_splits)
qed

lemma year_days_word:
  assumes "1969 \<le> Y" "Y \<le> 2105"
  shows "365 * of_nat Y + of_nat Y div 4 - of_nat Y div 100 + of_nat Y div 400
    = (of_nat (year_days Y) :: u32)"
proof -
  have "Y div 100 \<le> 365 * Y + Y div 4" by simp
  with assms show ?thesis by (simp add: year_days_def div_numeral_word of_nat_diff)
qed

lemma month_days_word:
  assumes "M \<le> 14"
  shows "30 * of_nat M + 3 * (of_nat M + 1) div 5 = (of_nat (month_days M) :: u32)"
proof -
  have "of_nat (3 * (M + 1)) div 5 = (of_nat (3 * (M + 1) div 5) :: u32)"
    using assms by (intro div_numeral_word) simp_all
  then have "3 * (of_nat M + 1) div 5 = (of_nat (3 * (M + 1) div 5) :: u32)"
    by (simp only: of_nat_mult of_nat_add of_nat_1 of_nat_numeral)
  then show ?thesis by (simp only: month_days_def of_nat_mult of_nat_add of_nat_numeral)
qed

text \<open>Below the wrap-around, the code returns the Unix time of the calendar date.\<close>

lemma date2unixtime_valid:
  assumes "valid_date d"
  shows "unat (neorv32_aux_date2unixtime d) = civil_seconds d"
proof -
  define y where "y = unat (year d)"
  define m where "m = unat (month d)"
  define dd where "dd = unat (day d)"
  define N where "N = civil_days y m dd"
  have v: "valid_civil y m dd" and h: "hours d < 24" "minutes d < 60" "seconds d < 60"
    using assms by (simp_all add: valid_date_def date_civil_def y_def m_def dd_def)
  have w: "year d = of_nat y" "month d = of_nat m" "day d = of_nat dd"
    by (simp_all add: y_def m_def dd_def)
  have r: "1970 \<le> y" "y \<le> 2105" "1 \<le> m" "m \<le> 12" "1 \<le> dd" "dd \<le> 31"
    using v by (auto simp: valid_civil_def month_len_def split: if_splits)
  have uy: "(if year d < 1970 then 1970 else ucast (year d)) = (of_nat y :: u32)"
    using r by (simp add: w word_less_nat_alt unat_of_nat_small ucast_of_nat_small)
  have um: "(if month d < 1 \<or> month d > 12 then 1 else ucast (month d)) = (of_nat m :: u32)"
    using r by (simp add: w word_less_nat_alt unat_of_nat_small ucast_of_nat_small)
  have ud: "(if day d < 1 \<or> day d > 31 then 1 else ucast (day d)) = (of_nat dd :: u32)"
    using r by (simp add: w word_less_nat_alt unat_of_nat_small ucast_of_nat_small)
  have sh: "(if (of_nat m :: u32) \<le> 2 then (of_nat m + 12, of_nat y - 1) else (of_nat m, of_nat y))
     = (of_nat (shift_m m) :: u32, of_nat (shift_y y m) :: u32)"
    using r by (auto simp: word_le_nat_alt unat_of_nat_small shift_m_def shift_y_def of_nat_diff)
  note sd = shifted_date [OF v]
  have days: "(of_nat (year_days (shift_y y m)) + (of_nat (month_days (shift_m m)) + of_nat dd)
      - 719561 :: u32) = of_nat N"
  proof -
    have "of_nat (N + 719561) = (of_nat (year_days (shift_y y m) + month_days (shift_m m) + dd) :: u32)"
      using civil_days_closed [OF v] by (simp only: N_def)
    then show ?thesis by (simp add: algebra_simps)
  qed
  define T where "T = time_of_day d"
  have tod: "(3600 * (ucast (hours d) mod 24) + 60 * (ucast (minutes d) mod 60)
      + ucast (seconds d) mod 60 :: u32) = of_nat T" and T: "T < 86400"
  proof -
    have "unat (hours d) < 24" "unat (minutes d) < 60" "unat (seconds d) < 60"
      using h by (simp_all add: word_less_nat_alt)
    then show "T < 86400" by (simp add: T_def time_of_day_def)
    have "(ucast (hours d) mod 24 :: u32) = ucast (hours d)"
      "(ucast (minutes d) mod 60 :: u32) = ucast (minutes d)"
      "(ucast (seconds d) mod 60 :: u32) = ucast (seconds d)"
      using h mod_numeral_word [of "unat (hours d)", where 'a = 32]
        mod_numeral_word [of "unat (minutes d)", where 'a = 32]
        mod_numeral_word [of "unat (seconds d)", where 'a = 32]
        unsigned_less [of "hours d"] unsigned_less [of "minutes d"] unsigned_less [of "seconds d"]
      by (simp_all add: word_less_nat_alt)
    then show "(3600 * (ucast (hours d) mod 24) + 60 * (ucast (minutes d) mod 60)
      + ucast (seconds d) mod 60 :: u32) = of_nat T"
      by (simp add: T_def time_of_day_def)
  qed
  have N: "N \<le> 49672" using civil_days_bound [OF v] by (simp add: N_def)
  have "neorv32_aux_date2unixtime d = ucast (of_nat N * 86400 + of_nat T :: u32)"
    unfolding neorv32_aux_date2unixtime_def Let_def uy um ud sh
    by (simp only: case_prod_conv year_days_word [OF sd(1,2)] month_days_word [OF sd(4)] days tod)
  also have "\<dots> = of_nat (N * 86400 + T)"
    using ucast_of_nat_small [of "N * 86400 + T", where 'a = 32 and 'b = 64] N T by simp
  finally show ?thesis
    using N T by (simp add: unat_of_nat_small civil_seconds_def date_civil_def N_def T_def y_def m_def dd_def
        mult.commute flip: of_nat_mult of_nat_add)
qed

section \<open>The inverse conversion\<close>

lemma div_mod_step:
  fixes q :: nat
  assumes "r < k"
  shows "(k * q + r) div k = q" "(k * q + r) mod k = r"
  using assms by simp_all

lemma split_seconds:
  fixes h mi se :: nat
  assumes "h < 24" "mi < 60" "se < 60" and n: "n = 86400 * N + (3600 * h + 60 * mi + se)"
  shows "n mod 60 = se" "n div 60 mod 60 = mi" "n div 60 div 60 mod 24 = h"
    "n div 60 div 60 div 24 = N"
proof -
  have "n = 60 * (60 * (24 * N + h) + mi) + se" by (simp add: n)
  then show "n mod 60 = se" "n div 60 mod 60 = mi" "n div 60 div 60 mod 24 = h"
    "n div 60 div 60 div 24 = N"
    by (simp_all only: div_mod_step assms)
qed

text \<open>Zeller's congruence agrees with counting weekdays from Thursday, 1970-01-01.\<close>

lemma zeller:
  assumes v: "valid_civil y m d"
  defines "C \<equiv> shift_y y m" and "e \<equiv> shift_m m"
  shows "(d + 26 * (e + 1) div 10 + C mod 100 + C mod 100 div 4 + 5 * (C div 100)
      + C div 100 div 4 + 5) mod 7 = (civil_days y m d + 3) mod 7"
proof -
  have C: "1969 \<le> C" "C \<le> 2105" and e: "3 \<le> e" "e \<le> 14"
    using shifted_date [OF v] by (simp_all add: C_def e_def)
  define j where "j = C div 100"
  define k where "k = C mod 100"
  have Cjk: "C = 100 * j + k" by (simp add: j_def k_def)
  have j: "j = 19 \<or> j = 20 \<or> j = 21" using year_centuries [OF C] by (auto simp: j_def)
  have C4: "C div 4 = 25 * j + k div 4" unfolding Cjk by simp
  have C400: "C div 400 = j div 4" by (simp add: j_def flip: div_mult2_eq)
  have z: "26 * (e + 1) div 10 = 2 * (e + 1) + 3 * (e + 1) div 5"
    using months_cases [of "e - 2"] e by auto
  have "civil_days y m d + 719561 = 365 * C + C div 4 - C div 100 + C div 400
      + (30 * e + 3 * (e + 1) div 5) + d"
    using civil_days_closed [OF v] by (simp add: year_days_def month_days_def C_def e_def)
  then have N: "civil_days y m d + 719561 + j = 365 * C + C div 4 + j div 4
      + (30 * e + 3 * (e + 1) div 5) + d"
    using C j by (auto simp: C400 simp flip: j_def)
  have "civil_days y m d + 3 + 7 * 102795
      = (d + 26 * (e + 1) div 10 + k + k div 4 + 5 * j + j div 4 + 5) + 7 * (5217 * j + 52 * k + 4 * e)"
  proof -
    define t where "t = 3 * (e + 1) div 5"
    define q where "q = k div 4"
    define p where "p = j div 4"
    show ?thesis
      using N z unfolding C4 unfolding Cjk by (simp flip: t_def q_def p_def)
  qed
  then have "(d + 26 * (e + 1) div 10 + k + k div 4 + 5 * j + j div 4 + 5) mod 7
      = (civil_days y m d + 3) mod 7"
    by (metis mod_mult_self2)
  then show ?thesis by (simp add: j_def k_def)
qed

text \<open>Dates with the weekday the calendar gives them.\<close>

definition civil_weekday :: "date_t \<Rightarrow> nat" where
  "civil_weekday d = (case date_civil d of (y, m, dd) \<Rightarrow> (civil_days y m dd + 3) mod 7 + 1)"

lemma unixtime2date_of_nat:
  assumes v: "valid_civil y m d" and t: "h < 24" "mi < 60" "se < 60"
    and n: "n = 86400 * civil_days y m d + (3600 * h + 60 * mi + se)"
  shows "neorv32_aux_unixtime2date (of_nat n) =
    \<lparr>year = of_nat y, month = of_nat m, day = of_nat d,
     weekday = of_nat ((civil_days y m d + 3) mod 7 + 1),
     hours = of_nat h, minutes = of_nat mi, seconds = of_nat se\<rparr>"
proof -
  define N where "N = civil_days y m d"
  define C where "C = shift_y y m"
  define M where "M = shift_m m"
  have N: "N \<le> 49672" using civil_days_bound [OF v] by (simp add: N_def)
  have nb: "n < 4291747200" using N t by (simp add: n flip: N_def)
  note sd = shifted_date [OF v, folded C_def M_def]
  note sp = split_seconds [OF t n [folded N_def]]
  have s1: "(if (of_nat n :: u64) < 1 then 0 else of_nat n) = (of_nat n :: u64)"
    by (simp add: word_less_nat_alt unat_eq_0)
  have s2: "(of_nat n :: u64) mod 60 = of_nat se" "(of_nat n :: u64) div 60 mod 60 = of_nat mi"
    "(of_nat n :: u64) div 60 div 60 mod 24 = of_nat h" "(of_nat n :: u64) div 60 div 60 div 24 = of_nat N"
    using nb sp by (simp_all add: mod_numeral_word div_numeral_word order.strict_trans1 [OF div_le_dividend])
  define a where "a = (4 * N + 102032) div 146097 + 15"
  have a: "a \<le> 17" using N by (simp add: a_def)
  have s3: "(ucast ((4 * of_nat N + 102032 :: u64) div 146097 + 15)) = (of_nat a :: u32)"
  proof -
    have "(of_nat (4 * N + 102032) :: u64) div 146097 = of_nat ((4 * N + 102032) div 146097)"
      using N by (intro div_numeral_word) simp_all
    then have "(4 * of_nat N + 102032 :: u64) div 146097 + 15 = of_nat a" by (simp add: a_def)
    then show ?thesis using a by (simp add: ucast_of_nat_small)
  qed
  define b where "b = N + 2442113 + a - a div 4"
  have b: "b \<le> 2500000" using N a by (simp add: b_def)
  have s4: "ucast (of_nat N + 2442113 + ucast (of_nat a :: u32) - ucast ((of_nat a :: u32) div 4) :: u64)
      = (of_nat b :: u32)"
  proof -
    have "a div 4 \<le> N + 2442113 + a" by simp
    then have "(of_nat N + 2442113 + ucast (of_nat a :: u32) - ucast ((of_nat a :: u32) div 4) :: u64) = of_nat b"
      using a by (simp add: b_def div_numeral_word ucast_of_nat_small of_nat_diff)
    then show ?thesis using b by (simp add: ucast_of_nat_small)
  qed
  have b_eq: "b = 365 * (C + 4716) + (C + 4716) div 4 + month_days M + d + 30"
    using century_correction [OF v N_def a_def] by (simp add: b_def C_def M_def)
  define C' where "C' = C + 4716"
  have C': "C' \<le> 6821" using sd(2) by (simp add: C'_def)
  have s5: "(20 * of_nat b - 2442) div 7305 = (of_nat C' :: u32)"
  proof -
    have "2442 \<le> 20 * b" using b_eq by simp
    then have "(20 * of_nat b - 2442 :: u32) = of_nat (20 * b - 2442)" by (simp add: of_nat_diff)
    moreover have "(20 * b - 2442) div 7305 = C'"
      using year_from_days [OF v C'_def [unfolded C_def], of b] b_eq by (simp add: C'_def C_def M_def)
    ultimately show ?thesis using b by (simp add: div_numeral_word)
  qed
  define D where "D = month_days M + d + 30"
  have D: "D \<le> 488" using sd(6) by (simp add: D_def)
  have s6: "of_nat b - 365 * of_nat C' - of_nat C' div 4 = (of_nat D :: u32)"
  proof -
    have "b = 365 * C' + C' div 4 + D" by (simp add: b_eq C'_def D_def)
    then show ?thesis using C' by (simp add: div_numeral_word)
  qed
  have mfd: "D * 1000 div 30601 = M + 1" "D - (M + 1) * 30 - (M + 1) * 601 div 1000 = d"
    using month_from_days [OF v, of D] by (simp_all add: D_def M_def)
  have s7: "of_nat D * 1000 div 30601 = (of_nat (M + 1) :: u32)"
    using div_numeral_word [of "D * 1000", where 'a = 32] D mfd(1) by simp
  have s8: "of_nat D - of_nat (M + 1) * 30 - of_nat (M + 1) * 601 div 1000 = (of_nat d :: u32)"
  proof -
    define A where "A = (M + 1) * 30"
    define B where "B = (M + 1) * 601 div 1000"
    have "of_nat ((M + 1) * 601) div 1000 = (of_nat B :: u32)"
      unfolding B_def using sd(4) by (intro div_numeral_word) simp_all
    moreover have "of_nat (M + 1) * 30 = (of_nat A :: u32)" by (simp add: A_def)
    moreover have "D = A + B + d" using mfd(2) sd(8) by (simp add: A_def B_def)
    ultimately show ?thesis by (simp only: of_nat_mult of_nat_numeral of_nat_add) simp
  qed
  have y: "1970 \<le> y" "y \<le> 2105" and m: "1 \<le> m" "m \<le> 12" and dd: "d \<le> 31"
    using v by (auto simp: valid_civil_def month_len_def split: if_splits)
  have s9: "(if (of_nat (M + 1) :: u32) \<le> 13 then (of_nat C' - 4716, of_nat (M + 1) - 1)
      else (of_nat C' - 4715, of_nat (M + 1) - 13)) = (of_nat y :: u32, of_nat m :: u32)"
  proof -
    have "(of_nat (M + 1) :: u32) \<le> 13 \<longleftrightarrow> M \<le> 12"
      using sd(4) by (simp add: word_le_nat_alt unat_of_nat_small del: of_nat_Suc of_nat_add)
    moreover have "M \<le> 12 \<longleftrightarrow> 2 < m" using m by (auto simp: M_def shift_m_def)
    ultimately show ?thesis
      using y m by (auto simp: M_def shift_m_def C'_def C_def shift_y_def of_nat_diff)
  qed
  have s10: "(if (of_nat m :: u32) \<le> 2 then (of_nat y - 1, of_nat m + 12) else (of_nat y, of_nat m))
      = (of_nat C :: u32, of_nat M :: u32)"
    using y m by (auto simp: word_le_nat_alt unat_of_nat_small M_def shift_m_def C_def shift_y_def of_nat_diff)
  define Z where "Z = d + 26 * (M + 1) div 10 + C mod 100 + C mod 100 div 4 + 5 * (C div 100)
      + C div 100 div 4"
  have s11: "of_nat d + 26 * (of_nat M + 1) div 10 + of_nat C mod 100 + of_nat C mod 100 div 4
      + 5 * (of_nat C div 100) + of_nat C div 100 div 4 = (of_nat Z :: u32)"
  proof -
    have "of_nat (26 * (M + 1)) div 10 = (of_nat (26 * (M + 1) div 10) :: u32)"
      using sd(4) by (intro div_numeral_word) simp_all
    then have "26 * (of_nat M + 1) div 10 = (of_nat (26 * (M + 1) div 10) :: u32)"
      by (simp only: of_nat_mult of_nat_add of_nat_1 of_nat_numeral)
    moreover have "of_nat C mod 100 = (of_nat (C mod 100) :: u32)" "of_nat C div 100 = (of_nat (C div 100) :: u32)"
      using sd(2) by (simp_all add: mod_numeral_word div_numeral_word)
    moreover have "of_nat (C mod 100) div 4 = (of_nat (C mod 100 div 4) :: u32)"
      "of_nat (C div 100) div 4 = (of_nat (C div 100 div 4) :: u32)"
    proof -
      have "C mod 100 < 100" "C div 100 < 100" using sd(2) by simp_all
      then show "of_nat (C mod 100) div 4 = (of_nat (C mod 100 div 4) :: u32)"
        "of_nat (C div 100) div 4 = (of_nat (C div 100 div 4) :: u32)"
        by (intro div_numeral_word; simp)+
    qed
    ultimately show ?thesis by (simp only: Z_def of_nat_add of_nat_mult of_nat_numeral)
  qed
  have Z: "Z < 1000"
  proof -
    have "26 * (M + 1) div 10 \<le> 39" "C mod 100 < 100" "C div 100 \<le> 21" using sd(2,4) by auto
    then show ?thesis using dd unfolding Z_def by linarith
  qed
  have s12: "ucast ((of_nat Z + 5 :: u32) mod 7 + 1) = (of_nat ((N + 3) mod 7 + 1) :: u8)"
  proof -
    have "(Z + 5) mod 7 = (N + 3) mod 7"
      using zeller [OF v] by (simp add: Z_def M_def C_def N_def)
    moreover have "of_nat (Z + 5) mod 7 = (of_nat ((Z + 5) mod 7) :: u32)"
      using Z by (intro mod_numeral_word) simp_all
    ultimately have "(of_nat Z + 5 :: u32) mod 7 + 1 = of_nat ((N + 3) mod 7 + 1)" by simp
    moreover have "(N + 3) mod 7 < 7" by simp
    then have "(N + 3) mod 7 + 1 < 2 ^ LENGTH(32)" by simp
    ultimately show ?thesis by (simp only: ucast_of_nat_small)
  qed
  show ?thesis
    unfolding neorv32_aux_unixtime2date_def Let_def s1 s2 s3 s4 s5 s6 s7 s8 s9 s10 case_prod_conv s11 s12
    using N y m dd t by (simp add: ucast_of_nat_small N_def)
qed

section \<open>Round trips\<close>

text \<open>Every date: converting to Unix time and back gives the date, with the right weekday.\<close>

lemma date_roundtrip:
  assumes "valid_date d"
  shows "neorv32_aux_unixtime2date (neorv32_aux_date2unixtime d) =
    d\<lparr>weekday := of_nat (civil_weekday d)\<rparr>"
proof -
  have v: "valid_civil (unat (year d)) (unat (month d)) (unat (day d))"
    and t: "unat (hours d) < 24" "unat (minutes d) < 60" "unat (seconds d) < 60"
    using assms by (simp_all add: valid_date_def date_civil_def word_less_nat_alt)
  have "neorv32_aux_date2unixtime d = of_nat (civil_seconds d)"
    using date2unixtime_valid [OF assms] by (metis of_nat_unat ucast_id)
  with unixtime2date_of_nat [OF v t refl] show ?thesis
    by (simp add: civil_seconds_def date_civil_def time_of_day_def civil_weekday_def)
qed

text \<open>Every day count below 2106 is the count of some valid date.\<close>

lemma civil_days_surj:
  "N \<le> 49672 \<Longrightarrow> \<exists>y m d. valid_civil y m d \<and> civil_days y m d = N"
proof (induction N)
  case 0
  have "valid_civil 1970 1 1 \<and> civil_days 1970 1 1 = 0"
    by (simp add: valid_civil_def month_len_def civil_days_def)
  then show ?case by blast
next
  case (Suc N)
  then obtain y m d where v: "valid_civil y m d" and N: "civil_days y m d = N" by auto
  consider "d < month_len y m" | "d = month_len y m" "m < 12" | "d = month_len y m" "m = 12" "y < 2105"
    | "d = month_len y m" "m = 12" "y = 2105"
    using v by (fastforce simp: valid_civil_def)
  then show ?case
  proof cases
    case 1
    with v N have "valid_civil y m (Suc d)" "civil_days y m (Suc d) = Suc N"
      by (auto simp: valid_civil_def civil_days_def)
    then show ?thesis by blast
  next
    case 2
    with v N have "valid_civil y (Suc m) 1" "civil_days y (Suc m) 1 = Suc N"
      by (auto simp: valid_civil_def civil_days_def month_len_def)
    then show ?thesis by blast
  next
    case 3
    then have v': "valid_civil (Suc y) 1 1" and "d = 31"
      using v by (auto simp: valid_civil_def month_len_def)
    have "civil_days (Suc y) 1 1 = Suc N"
      using civil_days_closed [OF v] civil_days_closed [OF v'] N \<open>m = 12\<close> \<open>d = 31\<close>
      by (simp add: shift_y_def shift_m_def month_days_def)
    with v' show ?thesis by blast
  next
    case 4
    then have "civil_days y m d = 49672"
      using civil_days_closed [OF v] by (simp add: shift_y_def shift_m_def month_days_def year_days_def month_len_def)
    then show ?thesis using N Suc.prems by simp
  qed
qed

text \<open>Every time stamp below 2106-01-01: converting to a date and back gives the time stamp.\<close>

lemma unixtime_roundtrip:
  assumes "t < 4291747200"
  shows "neorv32_aux_date2unixtime (neorv32_aux_unixtime2date t) = t"
proof -
  define n where "n = unat t"
  have n: "n < 4291747200" and tn: "t = of_nat n"
    using assms by (simp_all add: n_def word_less_nat_alt)
  obtain y m d where v: "valid_civil y m d" and N: "civil_days y m d = n div 86400"
    using civil_days_surj [of "n div 86400"] less_mult_imp_div_less [of n 49673 86400] n by auto
  define h where "h = n mod 86400 div 3600"
  define mi where "mi = n mod 3600 div 60"
  define se where "se = n mod 60"
  have hms: "h < 24" "mi < 60" "se < 60"
    by (simp_all add: h_def mi_def se_def less_mult_imp_div_less)
  have n_eq: "n = 86400 * civil_days y m d + (3600 * h + 60 * mi + se)"
  proof -
    have "n = 86400 * (n div 86400) + n mod 86400" "n mod 86400 = 3600 * h + n mod 86400 mod 3600"
      "n mod 3600 = 60 * mi + n mod 3600 mod 60"
      by (simp_all add: h_def mi_def)
    moreover have "n mod 86400 mod 3600 = n mod 3600" "n mod 3600 mod 60 = se"
      by (simp_all add: mod_mod_cancel se_def)
    ultimately show ?thesis unfolding N by linarith
  qed
  define D where "D = neorv32_aux_unixtime2date t"
  have D: "D = \<lparr>year = of_nat y, month = of_nat m, day = of_nat d,
     weekday = of_nat ((civil_days y m d + 3) mod 7 + 1),
     hours = of_nat h, minutes = of_nat mi, seconds = of_nat se\<rparr>"
    unfolding D_def tn by (rule unixtime2date_of_nat [OF v hms n_eq])
  have b: "y \<le> 2105" "m \<le> 12" "d \<le> 31"
    using v by (auto simp: valid_civil_def month_len_def split: if_splits)
  have u: "unat (year D) = y" "unat (month D) = m" "unat (day D) = d"
    "unat (hours D) = h" "unat (minutes D) = mi" "unat (seconds D) = se"
    using b hms by (simp_all add: D unat_of_nat_small)
  then have "valid_date D" "civil_seconds D = n"
    using v hms n_eq
    by (simp_all add: valid_date_def date_civil_def civil_seconds_def time_of_day_def word_less_nat_alt)
  then have "unat (neorv32_aux_date2unixtime D) = unat t"
    using date2unixtime_valid [of D] by (simp add: n_def)
  then show ?thesis by (simp add: D_def word_unat_eq_iff)
qed

end
