(* ===== verification/Machine.thy ===== *)
theory Machine
  imports Prelude
begin

text \<open>
  The CPU as the firmware sees it.  Every access to a device register, to memory or to a CSR
  and every ordering instruction is an event; the log is the list of events so far, newest
  first.  What a read returns is decided by the hardware from the whole log, so \<open>hw\<close> is an
  arbitrary function of it: a theorem about all \<open>hw\<close> is a theorem about every device
  behaviour.  Whether the bus answers an access to memory with an error is decided the same
  way, at the pseudo-location \<open>BusErr write width address\<close>.  Side effects of reads (popping a FIFO, clearing a flag) need nothing special,
  since the read is in the log.  The operations are those of
  \<^verbatim>\<open>sw/lib/include/neorv32_cpu.h\<close> and the \<^verbatim>\<open>__MMREG\<close> macros of
  \<^verbatim>\<open>neorv32.h\<close>.  A blocking operation returns \<open>None\<close> where the C loop never ends.
\<close>

section \<open>Locations, events, state\<close>

datatype width = W8 | W16 | W32

type_synonym csr_id = "12 word"

datatype loc = Mem width u32 | Csr csr_id | BusErr bool width u32

datatype event =
    Rd loc u32
  | Wr loc u32
  | CsrSet csr_id u32
  | CsrClr csr_id u32
  | Fence
  | FenceI
  | Wfi
  | Nop

record mach =
  hw :: "event list \<Rightarrow> loc \<Rightarrow> u32"
  log :: "event list"

text \<open>The bytes an access touches; an access that is not aligned never reaches the bus.\<close>

fun bytes_of :: "width \<Rightarrow> u32 \<Rightarrow> u32 set" where
  "bytes_of W8 a = {a}"
| "bytes_of W16 a = {a, a + 1}"
| "bytes_of W32 a = {a, a + 1, a + 2, a + 3}"

fun aligned :: "width \<Rightarrow> u32 \<Rightarrow> bool" where
  "aligned W8 a = True"
| "aligned W16 a = (a AND 1 = 0)"
| "aligned W32 a = (a AND 3 = 0)"

definition tick :: "event \<Rightarrow> mach \<Rightarrow> mach" where
  "tick e m = m\<lparr>log := e # log m\<rparr>"

definition rd_val :: "loc \<Rightarrow> mach \<Rightarrow> u32" where
  "rd_val l m = hw m (log m) l"

definition rd :: "loc \<Rightarrow> mach \<Rightarrow> u32 \<times> mach" where
  "rd l m = (rd_val l m, tick (Rd l (rd_val l m)) m)"

definition wr :: "loc \<Rightarrow> u32 \<Rightarrow> mach \<Rightarrow> mach" where
  "wr l v m = tick (Wr l v) m"

lemma hw_tick [simp]: "hw (tick e m) = hw m"
  by (simp add: tick_def)

lemma log_tick [simp]: "log (tick e m) = e # log m"
  by (simp add: tick_def)

lemma hw_wr [simp]: "hw (wr l v m) = hw m"
  by (simp add: wr_def)

lemma hw_rd [simp]: "hw (snd (rd l m)) = hw m"
  by (simp add: rd_def)

text \<open>
  A load or store traps if it is not aligned or the bus answers with an error.  The operations
  below are for accesses that do not; code that accesses an address it was given from outside
  asks \<open>access_traps\<close> first.
\<close>

definition access_traps :: "bool \<Rightarrow> width \<Rightarrow> u32 \<Rightarrow> mach \<Rightarrow> bool" where
  "access_traps write w a m \<longleftrightarrow> \<not> aligned w a \<or> rd_val (BusErr write w a) m \<noteq> 0"

text \<open>Stores that touch the word at \<open>a\<close>.\<close>

fun overwrites :: "u32 \<Rightarrow> event \<Rightarrow> bool" where
  "overwrites a (Wr (Mem w x) v) \<longleftrightarrow> bytes_of w x \<inter> bytes_of W32 a \<noteq> {}"
| "overwrites a _ \<longleftrightarrow> False"

lemma aligned_mod: "aligned W32 a \<longleftrightarrow> unat a mod 4 = 0"
proof -
  have "a AND 3 = take_bit 2 a" by (simp add: take_bit_eq_mask mask_eq_exp_minus_1)
  also have "take_bit 2 a = a mod 4" by (simp add: take_bit_eq_mod)
  finally have "aligned W32 a \<longleftrightarrow> a mod 4 = 0" by simp
  also have "\<dots> \<longleftrightarrow> unat (a mod 4) = unat (0 :: u32)" by (simp only: unsigned_word_eqI flip: word_unat_eq_iff)
  finally show ?thesis by (simp add: unat_mod)
qed

lemma aligned_div:
  assumes "aligned W32 a" "b \<in> bytes_of W32 a"
  shows "unat b div 4 = unat a div 4"
proof -
  from assms(2) obtain k where k: "b = a + of_nat k" "k < 4"
    by (auto intro: that [of 0] that [of 1] that [of 2] that [of 3])
  have m: "unat a mod 4 = 0" using assms(1) by (simp only: aligned_mod)
  moreover have "unat a < 2 ^ 32" using unsigned_less [of a] by simp
  ultimately have "unat a + k < 2 ^ 32"
    using k(2) by (simp del: unsigned_less) presburger
  moreover have "unat (of_nat k :: u32) = k" using k(2) by (intro unat_of_nat_small) simp
  ultimately have "unat b = unat a + k" unfolding k(1) by (simp add: unat_word_ariths)
  then show ?thesis using m k(2) by presburger
qed

lemma aligned_words_apart:
  assumes "aligned W32 a" "aligned W32 b" "a \<noteq> b"
  shows "bytes_of W32 a \<inter> bytes_of W32 b = {}"
proof (rule ccontr)
  assume "bytes_of W32 a \<inter> bytes_of W32 b \<noteq> {}"
  then obtain x where "x \<in> bytes_of W32 a" "x \<in> bytes_of W32 b" by blast
  then have "unat a div 4 = unat b div 4" using aligned_div assms(1,2) by metis
  moreover have "unat a mod 4 = unat b mod 4" using assms(1,2) by (simp only: aligned_mod)
  ultimately have "unat a = unat b" by (metis div_mult_mod_eq)
  then show False using assms(3) by (simp add: word_unat_eq_iff)
qed

section \<open>Instructions of neorv32_cpu.h\<close>

definition neorv32_cpu_store_unsigned_word :: "u32 \<Rightarrow> u32 \<Rightarrow> mach \<Rightarrow> mach" where
  "neorv32_cpu_store_unsigned_word addr wdata m = wr (Mem W32 addr) wdata m"

definition neorv32_cpu_store_unsigned_half :: "u32 \<Rightarrow> u16 \<Rightarrow> mach \<Rightarrow> mach" where
  "neorv32_cpu_store_unsigned_half addr wdata m = wr (Mem W16 addr) (ucast wdata) m"

definition neorv32_cpu_store_unsigned_byte :: "u32 \<Rightarrow> u8 \<Rightarrow> mach \<Rightarrow> mach" where
  "neorv32_cpu_store_unsigned_byte addr wdata m = wr (Mem W8 addr) (ucast wdata) m"

definition neorv32_cpu_load_unsigned_word :: "u32 \<Rightarrow> mach \<Rightarrow> u32 \<times> mach" where
  "neorv32_cpu_load_unsigned_word addr m = rd (Mem W32 addr) m"

definition neorv32_cpu_load_unsigned_half :: "u32 \<Rightarrow> mach \<Rightarrow> u16 \<times> mach" where
  "neorv32_cpu_load_unsigned_half addr m = (let (v, m) = rd (Mem W16 addr) m in (ucast v, m))"

definition neorv32_cpu_load_unsigned_byte :: "u32 \<Rightarrow> mach \<Rightarrow> u8 \<times> mach" where
  "neorv32_cpu_load_unsigned_byte addr m = (let (v, m) = rd (Mem W8 addr) m in (ucast v, m))"

definition neorv32_cpu_csr_read :: "csr_id \<Rightarrow> mach \<Rightarrow> u32 \<times> mach" where
  "neorv32_cpu_csr_read c m = rd (Csr c) m"

definition neorv32_cpu_csr_write :: "csr_id \<Rightarrow> u32 \<Rightarrow> mach \<Rightarrow> mach" where
  "neorv32_cpu_csr_write c data m = wr (Csr c) data m"

definition neorv32_cpu_csr_set :: "csr_id \<Rightarrow> u32 \<Rightarrow> mach \<Rightarrow> mach" where
  "neorv32_cpu_csr_set c msk m = tick (CsrSet c msk) m"

definition neorv32_cpu_csr_clr :: "csr_id \<Rightarrow> u32 \<Rightarrow> mach \<Rightarrow> mach" where
  "neorv32_cpu_csr_clr c msk m = tick (CsrClr c msk) m"

definition neorv32_cpu_csr_swap :: "csr_id \<Rightarrow> u32 \<Rightarrow> mach \<Rightarrow> u32 \<times> mach" where
  "neorv32_cpu_csr_swap c wdata m = (let (v, m) = rd (Csr c) m in (v, wr (Csr c) wdata m))"

definition neorv32_cpu_sleep :: "mach \<Rightarrow> mach" where
  "neorv32_cpu_sleep m = tick Wfi m"

section \<open>Read-modify-write macros of neorv32.h (without the A extension)\<close>

definition MMREG32_BSET :: "loc \<Rightarrow> u32 \<Rightarrow> mach \<Rightarrow> mach" where
  "MMREG32_BSET r msk m = (let (v, m) = rd r m in wr r (v OR msk) m)"

definition MMREG32_BCLR :: "loc \<Rightarrow> u32 \<Rightarrow> mach \<Rightarrow> mach" where
  "MMREG32_BCLR r msk m = (let (v, m) = rd r m in wr r (v AND NOT msk) m)"

definition MMREG32_BINV :: "loc \<Rightarrow> u32 \<Rightarrow> mach \<Rightarrow> mach" where
  "MMREG32_BINV r msk m = (let (v, m) = rd r m in wr r (v XOR msk) m)"

text \<open>16-bit accesses, for registers in half-words.\<close>

definition MMREG16_BSET :: "loc \<Rightarrow> u16 \<Rightarrow> mach \<Rightarrow> mach" where
  "MMREG16_BSET r msk m = (let (v, m) = rd r m in wr r (ucast ((ucast v :: u16) OR msk)) m)"

definition MMREG16_BCLR :: "loc \<Rightarrow> u16 \<Rightarrow> mach \<Rightarrow> mach" where
  "MMREG16_BCLR r msk m = (let (v, m) = rd r m in wr r (ucast ((ucast v :: u16) AND NOT msk)) m)"

text \<open>\<open>BIT n\<close> is \<^verbatim>\<open>1 << n\<close>.\<close>

definition BIT :: "nat \<Rightarrow> u32" where
  "BIT n = push_bit n 1"

lemma bit_BIT [simp]: "bit (BIT n) i \<longleftrightarrow> i = n \<and> n < 32"
  by (auto simp: BIT_def bit_simps)

lemma and_BIT_eq_0 [simp]: "v AND BIT n = 0 \<longleftrightarrow> \<not> bit v n" for v :: u32
proof
  assume "v AND BIT n = 0"
  then have "\<not> bit (v AND BIT n) n" by simp
  then show "\<not> bit v n" using bit_imp_le_length [of v n] by (auto simp: bit_simps)
next
  assume "\<not> bit v n"
  then show "v AND BIT n = 0" by (intro bit_word_eqI) (auto simp: bit_simps)
qed

text \<open>
  The two accesses most status functions are made of: \<^verbatim>\<open>(int)(REG & (1 << n))\<close> and
  \<^verbatim>\<open>1 << ((REG >> lsb) & 0xf)\<close>.
\<close>

definition reg_test :: "loc \<Rightarrow> nat \<Rightarrow> mach \<Rightarrow> u32 \<times> mach" where
  "reg_test r n m = (let (v, m) = rd r m in (v AND BIT n, m))"

definition reg_pow2 :: "loc \<Rightarrow> nat \<Rightarrow> mach \<Rightarrow> u32 \<times> mach" where
  "reg_pow2 r lsb m = (let (v, m) = rd r m in (shl32 1 (drop_bit lsb v AND 0xf), m))"

lemma reg_test_simps [simp]:
  "snd (reg_test r n m) = snd (rd r m)"
  "fst (reg_test r n m) = rd_val r m AND BIT n"
  by (simp_all add: reg_test_def rd_def)

section \<open>Values written to a location\<close>

fun written_in :: "loc \<Rightarrow> event list \<Rightarrow> u32 list" where
  "written_in l [] = []"
| "written_in l (Wr l' v # h) = written_in l h @ (if l' = l then [v] else [])"
| "written_in l (_ # h) = written_in l h"

definition written :: "loc \<Rightarrow> mach \<Rightarrow> u32 list" where
  "written l m = written_in l (log m)"

lemma written_tick [simp]:
  "written l (tick (Wr l' v) m) = written l m @ (if l' = l then [v] else [])"
  "written l (tick (Rd l' v) m) = written l m"
  "written l (tick (CsrSet c v) m) = written l m"
  "written l (tick (CsrClr c v) m) = written l m"
  "written l (tick Fence m) = written l m"
  "written l (tick FenceI m) = written l m"
  "written l (tick Wfi m) = written l m"
  "written l (tick Nop m) = written l m"
  by (simp_all add: written_def)

lemma written_wr [simp]: "written l (wr l' v m) = written l m @ (if l' = l then [v] else [])"
  by (simp add: wr_def)

lemma written_rd [simp]: "written l (snd (rd l' m)) = written l m"
  by (simp add: rd_def)

section \<open>Values read from a location\<close>

fun read_in :: "loc \<Rightarrow> event list \<Rightarrow> u32 list" where
  "read_in l [] = []"
| "read_in l (Rd l' v # h) = read_in l h @ (if l' = l then [v] else [])"
| "read_in l (_ # h) = read_in l h"

definition read_from :: "loc \<Rightarrow> mach \<Rightarrow> u32 list" where
  "read_from l m = read_in l (log m)"

lemma read_from_tick [simp]:
  "read_from l (tick (Rd l' v) m) = read_from l m @ (if l' = l then [v] else [])"
  "read_from l (tick (Wr l' v) m) = read_from l m"
  "read_from l (tick (CsrSet c v) m) = read_from l m"
  "read_from l (tick (CsrClr c v) m) = read_from l m"
  "read_from l (tick Fence m) = read_from l m"
  "read_from l (tick FenceI m) = read_from l m"
  "read_from l (tick Wfi m) = read_from l m"
  "read_from l (tick Nop m) = read_from l m"
  by (simp_all add: read_from_def)

lemma read_from_wr [simp]: "read_from l (wr l' v m) = read_from l m"
  by (simp add: wr_def)

lemma read_from_rd [simp]:
  "read_from l (snd (rd l' m)) = read_from l m @ (if l' = l then [rd_val l m] else [])"
  by (simp add: rd_def)

section \<open>Polling loops\<close>

text \<open>
  \<^verbatim>\<open>while (REG & mask);\<close> and its kin: read the register until the value is no longer
  busy.
\<close>

partial_function (option) poll :: "(u32 \<Rightarrow> bool) \<Rightarrow> loc \<Rightarrow> mach \<Rightarrow> mach option" where
  "poll busy l m =
     (let (v, m') = rd l m in if busy v then poll busy l m' else Some m')"

text \<open>The machine after \<open>n\<close> reads of one location and nothing else.\<close>

primrec rds :: "loc \<Rightarrow> nat \<Rightarrow> mach \<Rightarrow> mach" where
  rds_0: "rds l 0 m = m"
| rds_Suc: "rds l (Suc n) m = rds l n (snd (rd l m))"

lemma rds_snoc: "rds l (Suc n) m = snd (rd l (rds l n m))"
  by (induction n arbitrary: m) (simp_all add: rds_Suc)

lemma rds_add: "rds l k (rds l n m) = rds l (n + k) m"
  by (induction k) (simp_all add: rds_snoc del: rds_Suc)

lemma length_log_rds [simp]: "List.length (log (rds l n m)) = List.length (log m) + n"
  by (induction n arbitrary: m) (simp_all add: rds_Suc rd_def)

lemma hw_rds [simp]: "hw (rds l n m) = hw m"
  by (induction n arbitrary: m) (simp_all add: rds_Suc)

lemma written_rds [simp]: "written l' (rds l n m) = written l' m"
  by (induction n arbitrary: m) (simp_all add: rds_Suc)

lemma read_from_rds [simp]: "l \<noteq> l' \<Longrightarrow> read_from l' (rds l n m) = read_from l' m"
  by (induction n arbitrary: m) (simp_all add: rds_Suc)

text \<open>A poll that returns has read the location until the first idle value, and nothing else.\<close>

lemma poll_Some_D:
  assumes "poll busy l m = Some m'"
  shows "\<exists>n. m' = rds l (Suc n) m \<and> \<not> busy (rd_val l (rds l n m))
           \<and> (\<forall>i<n. busy (rd_val l (rds l i m)))"
proof (rule poll.raw_induct [where P = "\<lambda>busy l m m'. \<exists>n. m' = rds l (Suc n) m
      \<and> \<not> busy (rd_val l (rds l n m)) \<and> (\<forall>i<n. busy (rd_val l (rds l i m)))", OF _ assms])
  fix f busy l m m'
  assume IH: "\<And>busy l m m'. f busy l m = Some m' \<Longrightarrow> \<exists>n. m' = rds l (Suc n) m
      \<and> \<not> busy (rd_val l (rds l n m)) \<and> (\<forall>i<n. busy (rd_val l (rds l i m)))"
    and eq: "(let (v, m') = rd l m in if busy v then f busy l m' else Some m') = Some m'"
  show "\<exists>n. m' = rds l (Suc n) m \<and> \<not> busy (rd_val l (rds l n m))
           \<and> (\<forall>i<n. busy (rd_val l (rds l i m)))"
  proof (cases "busy (rd_val l m)")
    case True
    with eq have "f busy l (snd (rd l m)) = Some m'" by (simp add: rd_def)
    from IH [OF this] obtain n where n: "m' = rds l (Suc n) (snd (rd l m))"
      "\<not> busy (rd_val l (rds l n (snd (rd l m))))"
      "\<forall>i<n. busy (rd_val l (rds l i (snd (rd l m))))" by blast
    have "\<forall>i<Suc n. busy (rd_val l (rds l i m))"
      using True n(3) by (auto simp: less_Suc_eq_0_disj rds_Suc)
    with n show ?thesis by (intro exI [of _ "Suc n"]) (simp add: rds_Suc)
  next
    case False
    with eq show ?thesis by (intro exI [of _ 0]) (auto simp: rd_def rds_Suc)
  qed
qed

lemma poll_frame:
  assumes "poll busy l m = Some m'"
  shows "hw m' = hw m" "written l' m' = written l' m"
    and "l' \<noteq> l \<Longrightarrow> read_from l' m' = read_from l' m"
  using poll_Some_D [OF assms] by auto

lemma poll_ready:
  "\<not> busy (rd_val l (rds l n m)) \<Longrightarrow> \<exists>m'. poll busy l m = Some m'"
proof (induction n arbitrary: m)
  case 0
  then show ?case by (simp add: poll.simps rd_def)
next
  case (Suc n)
  then obtain m' where "poll busy l (snd (rd l m)) = Some m'"
    by (auto simp: rds_Suc)
  then show ?case
    by (cases "busy (rd_val l m)") (simp_all add: poll.simps [of busy l m] rd_def)
qed

section \<open>The interface of a device that becomes ready\<close>

text \<open>
  What a polling driver relies on: in the states \<open>ok\<close> (the device enabled, its hardware the
  one at hand), which reading the status location keeps, reading it often enough shows the
  device ready.
\<close>

locale ready_device =
  fixes ok :: "mach \<Rightarrow> bool" and status :: loc and busy :: "u32 \<Rightarrow> bool"
  assumes ok_poll: "ok m \<Longrightarrow> ok (snd (rd status m))"
    and becomes_ready: "ok m \<Longrightarrow> \<exists>n. \<not> busy (rd_val status (rds status n m))"
begin

lemma ok_rds: "ok m \<Longrightarrow> ok (rds status n m)"
  by (induction n arbitrary: m) (simp_all add: rds_Suc ok_poll)

lemma poll_returns:
  assumes "ok m"
  obtains m' n where "poll busy status m = Some m'" "ok m'" "m' = rds status (Suc n) m"
    "\<not> busy (rd_val status (rds status n m))"
proof -
  from becomes_ready [OF assms] obtain n where "\<not> busy (rd_val status (rds status n m))" by blast
  from poll_ready [where busy = busy and l = status and n = n and m = m, OF this]
  obtain m' where m': "poll busy status m = Some m'" by blast
  from poll_Some_D [OF m'] obtain k where "m' = rds status (Suc k) m"
    "\<not> busy (rd_val status (rds status k m))" by blast
  with m' ok_rds [OF assms, of "Suc k"] show ?thesis using that by simp
qed

end

lemmas mach_ops = rd_def wr_def MMREG32_BSET_def MMREG32_BCLR_def MMREG32_BINV_def
  MMREG16_BSET_def MMREG16_BCLR_def
  neorv32_cpu_store_unsigned_word_def neorv32_cpu_load_unsigned_word_def
  neorv32_cpu_csr_read_def neorv32_cpu_csr_write_def neorv32_cpu_csr_set_def
  neorv32_cpu_csr_clr_def

end
