(* ===== verification/Sysinfo.thy ===== *)
theory Sysinfo
  imports Machine
begin

text \<open>
  The IO address map of \<^verbatim>\<open>sw/lib/include/neorv32.h\<close> and the system information memory of
  \<^verbatim>\<open>neorv32_sysinfo.h\<close>: its register bits and its accessors.  A driver's
  \<^verbatim>\<open>available\<close> function tests one bit of the \<^verbatim>\<open>SOC\<close> register.
\<close>

section \<open>IO address map\<close>

definition NEORV32_BOOTROM_BASE :: u32 where
  "NEORV32_BOOTROM_BASE = 0xFFE00000"

definition NEORV32_TWD_BASE :: u32 where
  "NEORV32_TWD_BASE = 0xFFEA0000"

definition NEORV32_CFS_BASE :: u32 where
  "NEORV32_CFS_BASE = 0xFFEB0000"

definition NEORV32_SLINK_BASE :: u32 where
  "NEORV32_SLINK_BASE = 0xFFEC0000"

definition NEORV32_DMA_BASE :: u32 where
  "NEORV32_DMA_BASE = 0xFFED0000"

definition NEORV32_PWM_BASE :: u32 where
  "NEORV32_PWM_BASE = 0xFFF00000"

definition NEORV32_GPTMR_BASE :: u32 where
  "NEORV32_GPTMR_BASE = 0xFFF10000"

definition NEORV32_ONEWIRE_BASE :: u32 where
  "NEORV32_ONEWIRE_BASE = 0xFFF20000"

definition NEORV32_TRACER_BASE :: u32 where
  "NEORV32_TRACER_BASE = 0xFFF30000"

definition NEORV32_CLINT_BASE :: u32 where
  "NEORV32_CLINT_BASE = 0xFFF40000"

definition NEORV32_UART0_BASE :: u32 where
  "NEORV32_UART0_BASE = 0xFFF50000"

definition NEORV32_UART1_BASE :: u32 where
  "NEORV32_UART1_BASE = 0xFFF60000"

definition NEORV32_SDI_BASE :: u32 where
  "NEORV32_SDI_BASE = 0xFFF70000"

definition NEORV32_SPI_BASE :: u32 where
  "NEORV32_SPI_BASE = 0xFFF80000"

definition NEORV32_TWI_BASE :: u32 where
  "NEORV32_TWI_BASE = 0xFFF90000"

definition NEORV32_TRNG_BASE :: u32 where
  "NEORV32_TRNG_BASE = 0xFFFA0000"

definition NEORV32_WDT_BASE :: u32 where
  "NEORV32_WDT_BASE = 0xFFFB0000"

definition NEORV32_GPIO_BASE :: u32 where
  "NEORV32_GPIO_BASE = 0xFFFC0000"

definition NEORV32_NEOLED_BASE :: u32 where
  "NEORV32_NEOLED_BASE = 0xFFFD0000"

definition NEORV32_SYSINFO_BASE :: u32 where
  "NEORV32_SYSINFO_BASE = 0xFFFE0000"

definition NEORV32_DM_BASE :: u32 where
  "NEORV32_DM_BASE = 0xFFFF0000"

lemmas base_defs =
  NEORV32_BOOTROM_BASE_def NEORV32_TWD_BASE_def NEORV32_CFS_BASE_def NEORV32_SLINK_BASE_def NEORV32_DMA_BASE_def NEORV32_PWM_BASE_def NEORV32_GPTMR_BASE_def NEORV32_ONEWIRE_BASE_def NEORV32_TRACER_BASE_def NEORV32_CLINT_BASE_def NEORV32_UART0_BASE_def NEORV32_UART1_BASE_def NEORV32_SDI_BASE_def NEORV32_SPI_BASE_def NEORV32_TWI_BASE_def NEORV32_TRNG_BASE_def NEORV32_WDT_BASE_def NEORV32_GPIO_BASE_def NEORV32_NEOLED_BASE_def NEORV32_SYSINFO_BASE_def NEORV32_DM_BASE_def

section \<open>Registers\<close>

definition SYSINFO_CLK :: loc where
  "SYSINFO_CLK = Mem W32 (NEORV32_SYSINFO_BASE + 0)"

definition SYSINFO_MISC :: loc where
  "SYSINFO_MISC = Mem W32 (NEORV32_SYSINFO_BASE + 4)"

definition SYSINFO_SOC :: loc where
  "SYSINFO_SOC = Mem W32 (NEORV32_SYSINFO_BASE + 8)"

definition SYSINFO_CACHE :: loc where
  "SYSINFO_CACHE = Mem W32 (NEORV32_SYSINFO_BASE + 12)"

datatype sysinfo_misc_bit =
    SYSINFO_MISC_IMEM_LSB
  | SYSINFO_MISC_IMEM_MBS
  | SYSINFO_MISC_DMEM_LSB
  | SYSINFO_MISC_DMEM_MSB
  | SYSINFO_MISC_HART_LSB
  | SYSINFO_MISC_HART_MSB
  | SYSINFO_MISC_BOOT_LSB
  | SYSINFO_MISC_BOOT_MSB
  | SYSINFO_MISC_ITMO_LSB
  | SYSINFO_MISC_ITMO_MSB
  | SYSINFO_MISC_ETMO_LSB
  | SYSINFO_MISC_ETMO_MSB

primrec sysinfo_misc :: "sysinfo_misc_bit \<Rightarrow> nat" where
    "sysinfo_misc SYSINFO_MISC_IMEM_LSB = 0"
  | "sysinfo_misc SYSINFO_MISC_IMEM_MBS = 7"
  | "sysinfo_misc SYSINFO_MISC_DMEM_LSB = 8"
  | "sysinfo_misc SYSINFO_MISC_DMEM_MSB = 15"
  | "sysinfo_misc SYSINFO_MISC_HART_LSB = 16"
  | "sysinfo_misc SYSINFO_MISC_HART_MSB = 19"
  | "sysinfo_misc SYSINFO_MISC_BOOT_LSB = 20"
  | "sysinfo_misc SYSINFO_MISC_BOOT_MSB = 21"
  | "sysinfo_misc SYSINFO_MISC_ITMO_LSB = 22"
  | "sysinfo_misc SYSINFO_MISC_ITMO_MSB = 26"
  | "sysinfo_misc SYSINFO_MISC_ETMO_LSB = 27"
  | "sysinfo_misc SYSINFO_MISC_ETMO_MSB = 31"

datatype sysinfo_soc_bit =
    SYSINFO_SOC_BOOTLOADER
  | SYSINFO_SOC_XBUS
  | SYSINFO_SOC_IMEM
  | SYSINFO_SOC_DMEM
  | SYSINFO_SOC_OCD
  | SYSINFO_SOC_ICACHE
  | SYSINFO_SOC_DCACHE
  | SYSINFO_SOC_OCD_AUTH
  | SYSINFO_SOC_IMEM_ROM
  | SYSINFO_SOC_IO_TWD
  | SYSINFO_SOC_IO_DMA
  | SYSINFO_SOC_IO_GPIO
  | SYSINFO_SOC_IO_CLINT
  | SYSINFO_SOC_IO_UART0
  | SYSINFO_SOC_IO_SPI
  | SYSINFO_SOC_IO_TWI
  | SYSINFO_SOC_IO_PWM
  | SYSINFO_SOC_IO_WDT
  | SYSINFO_SOC_IO_CFS
  | SYSINFO_SOC_IO_TRNG
  | SYSINFO_SOC_IO_SDI
  | SYSINFO_SOC_IO_UART1
  | SYSINFO_SOC_IO_NEOLED
  | SYSINFO_SOC_IO_TRACER
  | SYSINFO_SOC_IO_GPTMR
  | SYSINFO_SOC_IO_SLINK
  | SYSINFO_SOC_IO_ONEWIRE
  | SYSINFO_SOC_SIM

primrec sysinfo_soc :: "sysinfo_soc_bit \<Rightarrow> nat" where
    "sysinfo_soc SYSINFO_SOC_BOOTLOADER = 0"
  | "sysinfo_soc SYSINFO_SOC_XBUS = 1"
  | "sysinfo_soc SYSINFO_SOC_IMEM = 2"
  | "sysinfo_soc SYSINFO_SOC_DMEM = 3"
  | "sysinfo_soc SYSINFO_SOC_OCD = 4"
  | "sysinfo_soc SYSINFO_SOC_ICACHE = 5"
  | "sysinfo_soc SYSINFO_SOC_DCACHE = 6"
  | "sysinfo_soc SYSINFO_SOC_OCD_AUTH = 11"
  | "sysinfo_soc SYSINFO_SOC_IMEM_ROM = 12"
  | "sysinfo_soc SYSINFO_SOC_IO_TWD = 13"
  | "sysinfo_soc SYSINFO_SOC_IO_DMA = 14"
  | "sysinfo_soc SYSINFO_SOC_IO_GPIO = 15"
  | "sysinfo_soc SYSINFO_SOC_IO_CLINT = 16"
  | "sysinfo_soc SYSINFO_SOC_IO_UART0 = 17"
  | "sysinfo_soc SYSINFO_SOC_IO_SPI = 18"
  | "sysinfo_soc SYSINFO_SOC_IO_TWI = 19"
  | "sysinfo_soc SYSINFO_SOC_IO_PWM = 20"
  | "sysinfo_soc SYSINFO_SOC_IO_WDT = 21"
  | "sysinfo_soc SYSINFO_SOC_IO_CFS = 22"
  | "sysinfo_soc SYSINFO_SOC_IO_TRNG = 23"
  | "sysinfo_soc SYSINFO_SOC_IO_SDI = 24"
  | "sysinfo_soc SYSINFO_SOC_IO_UART1 = 25"
  | "sysinfo_soc SYSINFO_SOC_IO_NEOLED = 26"
  | "sysinfo_soc SYSINFO_SOC_IO_TRACER = 27"
  | "sysinfo_soc SYSINFO_SOC_IO_GPTMR = 28"
  | "sysinfo_soc SYSINFO_SOC_IO_SLINK = 29"
  | "sysinfo_soc SYSINFO_SOC_IO_ONEWIRE = 30"
  | "sysinfo_soc SYSINFO_SOC_SIM = 31"

datatype sysinfo_cache_bit =
    SYSINFO_CACHE_INST_BLOCK_SIZE_0
  | SYSINFO_CACHE_INST_BLOCK_SIZE_3
  | SYSINFO_CACHE_INST_NUM_BLOCKS_0
  | SYSINFO_CACHE_INST_NUM_BLOCKS_3
  | SYSINFO_CACHE_DATA_BLOCK_SIZE_0
  | SYSINFO_CACHE_DATA_BLOCK_SIZE_3
  | SYSINFO_CACHE_DATA_NUM_BLOCKS_0
  | SYSINFO_CACHE_DATA_NUM_BLOCKS_3
  | SYSINFO_CACHE_INST_BURSTS_EN
  | SYSINFO_CACHE_DATA_BURSTS_EN

primrec sysinfo_cache :: "sysinfo_cache_bit \<Rightarrow> nat" where
    "sysinfo_cache SYSINFO_CACHE_INST_BLOCK_SIZE_0 = 0"
  | "sysinfo_cache SYSINFO_CACHE_INST_BLOCK_SIZE_3 = 3"
  | "sysinfo_cache SYSINFO_CACHE_INST_NUM_BLOCKS_0 = 4"
  | "sysinfo_cache SYSINFO_CACHE_INST_NUM_BLOCKS_3 = 7"
  | "sysinfo_cache SYSINFO_CACHE_DATA_BLOCK_SIZE_0 = 8"
  | "sysinfo_cache SYSINFO_CACHE_DATA_BLOCK_SIZE_3 = 11"
  | "sysinfo_cache SYSINFO_CACHE_DATA_NUM_BLOCKS_0 = 12"
  | "sysinfo_cache SYSINFO_CACHE_DATA_NUM_BLOCKS_3 = 15"
  | "sysinfo_cache SYSINFO_CACHE_INST_BURSTS_EN = 16"
  | "sysinfo_cache SYSINFO_CACHE_DATA_BURSTS_EN = 24"

section \<open>Accessors\<close>

definition neorv32_sysinfo_is_sim :: "mach \<Rightarrow> u32 \<times> mach" where
  "neorv32_sysinfo_is_sim m =
     (let (v, m) = rd SYSINFO_SOC m in (drop_bit (sysinfo_soc SYSINFO_SOC_SIM) v, m))"

definition neorv32_sysinfo_get_numcores :: "mach \<Rightarrow> u32 \<times> mach" where
  "neorv32_sysinfo_get_numcores m =
     (let (v, m) = rd SYSINFO_MISC m
      in (drop_bit (sysinfo_misc SYSINFO_MISC_HART_LSB) v AND 0x0f, m))"

definition neorv32_sysinfo_get_imemsize :: "mach \<Rightarrow> u32 \<times> mach" where
  "neorv32_sysinfo_get_imemsize m =
     (let (v, m) = rd SYSINFO_MISC m;
          tmp = drop_bit (sysinfo_misc SYSINFO_MISC_IMEM_LSB) v AND 0xff
      in (if tmp \<noteq> 0 then shl32 1 tmp else 0, m))"

definition neorv32_sysinfo_get_dmemsize :: "mach \<Rightarrow> u32 \<times> mach" where
  "neorv32_sysinfo_get_dmemsize m =
     (let (v, m) = rd SYSINFO_MISC m;
          tmp = drop_bit (sysinfo_misc SYSINFO_MISC_DMEM_LSB) v AND 0xff
      in (if tmp \<noteq> 0 then shl32 1 tmp else 0, m))"

definition neorv32_sysinfo_get_bootmode :: "mach \<Rightarrow> u32 \<times> mach" where
  "neorv32_sysinfo_get_bootmode m =
     (let (v, m) = rd SYSINFO_MISC m
      in (drop_bit (sysinfo_misc SYSINFO_MISC_BOOT_LSB) v AND 0x03, m))"

definition neorv32_sysinfo_get_intbustimeout :: "mach \<Rightarrow> u32 \<times> mach" where
  "neorv32_sysinfo_get_intbustimeout m =
     (let (v, m) = rd SYSINFO_MISC m;
          tmp = drop_bit (sysinfo_misc SYSINFO_MISC_ITMO_LSB) v AND 0x1f
      in (if tmp \<noteq> 0 then shl32 1 tmp else 0, m))"

definition neorv32_sysinfo_get_extbustimeout :: "mach \<Rightarrow> u32 \<times> mach" where
  "neorv32_sysinfo_get_extbustimeout m =
     (let (v, m) = rd SYSINFO_MISC m;
          tmp = drop_bit (sysinfo_misc SYSINFO_MISC_ETMO_LSB) v AND 0x1f
      in (if tmp \<noteq> 0 then shl32 1 tmp else 0, m))"

definition neorv32_sysinfo_get_clk :: "mach \<Rightarrow> u32 \<times> mach" where
  "neorv32_sysinfo_get_clk m = rd SYSINFO_CLK m"

definition neorv32_sysinfo_set_clk :: "u32 \<Rightarrow> mach \<Rightarrow> mach" where
  "neorv32_sysinfo_set_clk clock m = wr SYSINFO_CLK clock m"

text \<open>\<^verbatim>\<open>(int)(NEORV32_SYSINFO->SOC & (1 << bit))\<close>, the body of every driver's \<^verbatim>\<open>available\<close>.\<close>

definition soc_test :: "sysinfo_soc_bit \<Rightarrow> mach \<Rightarrow> u32 \<times> mach" where
  "soc_test b m = (let (v, m) = rd SYSINFO_SOC m in (v AND BIT (sysinfo_soc b), m))"

section \<open>Facts\<close>

lemma hw_soc_test [simp]: "hw (snd (soc_test b m)) = hw m"
  by (simp add: soc_test_def rd_def)

lemma written_soc_test [simp]: "written l (snd (soc_test b m)) = written l m"
  by (simp add: soc_test_def rd_def)

lemma soc_test_available:
  "fst (soc_test b m) \<noteq> 0 \<longleftrightarrow> bit (rd_val SYSINFO_SOC m) (sysinfo_soc b)"
  by (simp add: soc_test_def rd_def)

lemma hw_get_clk [simp]: "hw (snd (neorv32_sysinfo_get_clk m)) = hw m"
  by (simp add: neorv32_sysinfo_get_clk_def)

lemma written_get_clk [simp]: "written l (snd (neorv32_sysinfo_get_clk m)) = written l m"
  by (simp add: neorv32_sysinfo_get_clk_def)

end
