(* ===== verification/Neo_Aux.thy ===== *)
theory Neo_Aux
  imports Machine
begin

text \<open>
  The conversion and pseudo-random helpers of \<^verbatim>\<open>sw/lib/source/neorv32_aux.c\<close>: number to
  string (\<^verbatim>\<open>neorv32_aux_itoa\<close>, with its scratch array and its write pointer), hexadecimal
  string to number, the xorshift generator and the busy-wait delay.  The specification of the
  digit routines is positional notation, \<open>dig\<close>.
\<close>

section \<open>Busy-wait delay\<close>

definition delay_iterations :: "u32 \<Rightarrow> u32 \<Rightarrow> u32" where
  "delay_iterations clock_hz time_ms =
     (let ms_ticks = drop_bit 10 clock_hz;
          wait_cycles = (ucast ms_ticks :: u64) * ucast time_ms
      in ucast (drop_bit 4 wait_cycles))"

text \<open>One turn of the assembler loop (16 cycles) is one \<open>Nop\<close> event.\<close>

definition neorv32_aux_delay_ms :: "u32 \<Rightarrow> u32 \<Rightarrow> mach \<Rightarrow> mach" where
  "neorv32_aux_delay_ms clock_hz time_ms m =
     (tick Nop ^^ unat (delay_iterations clock_hz time_ms)) m"

lemma hw_delay [simp]: "hw (neorv32_aux_delay_ms c t m) = hw m"
proof -
  have "hw ((tick Nop ^^ n) m) = hw m" for n by (induction n) simp_all
  then show ?thesis by (simp add: neorv32_aux_delay_ms_def)
qed

lemma written_delay [simp]: "written l (neorv32_aux_delay_ms c t m) = written l m"
proof -
  have "written l ((tick Nop ^^ n) m) = written l m" for n by (induction n) simp_all
  then show ?thesis by (simp add: neorv32_aux_delay_ms_def)
qed

section \<open>Hexadecimal string to number\<close>

definition hex_digit :: "u8 \<Rightarrow> u32" where
  "hex_digit c =
     (if c \<ge> 0x30 \<and> c \<le> 0x39 then ucast c - 0x30
      else if c \<ge> 0x61 \<and> c \<le> 0x66 then (ucast c - 0x61) + 10
      else if c \<ge> 0x41 \<and> c \<le> 0x46 then (ucast c - 0x41) + 10
      else 0)"

text \<open>\<open>None\<close>: the loop reads past the end of the buffer.\<close>

fun hexstr_loop :: "u8 list \<Rightarrow> nat \<Rightarrow> u64 \<Rightarrow> u64 option" where
  "hexstr_loop buffer 0 res = Some res"
| "hexstr_loop [] (Suc n) res = None"
| "hexstr_loop (c # buffer) (Suc n) res =
     (if c = 0 then Some res
      else hexstr_loop buffer n (push_bit 4 res + ucast (hex_digit c)))"

definition neorv32_aux_hexstr2uint64 :: "u8 list \<Rightarrow> u32 \<Rightarrow> u64 option" where
  "neorv32_aux_hexstr2uint64 buffer len =
     (let len = (if len > 16 then 16 else len) in hexstr_loop buffer (unat len) 0)"

section \<open>Number to string\<close>

definition digits :: "u8 list" where
  "digits = [0x30, 0x31, 0x32, 0x33, 0x34, 0x35, 0x36, 0x37, 0x38, 0x39,
             0x61, 0x62, 0x63, 0x64, 0x65, 0x66]"

text \<open>\<open>None\<close>: the write pointer would leave the scratch array.\<close>

fun itoa_loop :: "u32 \<Rightarrow> u32 \<Rightarrow> u8 list \<Rightarrow> nat \<Rightarrow> u8 list option" where
  "itoa_loop num base tmp 0 = None"
| "itoa_loop num base tmp (Suc p) =
     (let tmp = tmp[p := digits ! unat (num mod base)];
          num = num div base
      in if num \<noteq> 0 then itoa_loop num base tmp p else Some tmp)"

text \<open>The result is the string left in \<^verbatim>\<open>buffer\<close>, without its terminator.\<close>

definition neorv32_aux_itoa :: "u32 \<Rightarrow> u32 \<Rightarrow> u8 list option" where
  "neorv32_aux_itoa num base =
     (if base < 2 \<or> base > 16 then Some []
      else map_option (filter (\<lambda>c. c \<noteq> 0)) (itoa_loop num base (replicate 36 0) 35))"

section \<open>Pseudo-random numbers\<close>

definition neorv32_aux_xorshift32 :: "u32 \<Rightarrow> u32" where
  "neorv32_aux_xorshift32 x32 =
     (let x32 = x32 XOR push_bit 13 x32;
          x32 = x32 XOR drop_bit 17 x32
      in x32 XOR push_bit 5 x32)"

definition xorshift32_seed :: u32 where
  "xorshift32_seed = 314159265"

section \<open>Positional notation\<close>

fun dig :: "nat \<Rightarrow> nat \<Rightarrow> nat list" where
  "dig b n = (if b < 2 \<or> n < b then [n] else dig b (n div b) @ [n mod b])"

declare dig.simps [simp del]

definition dig_value :: "nat \<Rightarrow> nat list \<Rightarrow> nat" where
  "dig_value b ds = foldl (\<lambda>a d. a * b + d) 0 ds"

lemma dig_value_dig: "dig_value b (dig b n) = n"
proof (induction b n rule: dig.induct)
  case (1 b n)
  show ?case
  proof (cases "b < 2 \<or> n < b")
    case True
    then show ?thesis by (simp add: dig.simps [of b n] dig_value_def)
  next
    case False
    with "1" show ?thesis by (simp add: dig.simps [of b n] dig_value_def)
  qed
qed

lemma dig_less: "2 \<le> b \<Longrightarrow> d \<in> set (dig b n) \<Longrightarrow> d < b"
proof (induction b n rule: dig.induct)
  case (1 b n)
  then show ?case by (cases "n < b") (auto simp: dig.simps [of b n])
qed

lemma length_dig: "2 \<le> b \<Longrightarrow> n < b ^ k \<Longrightarrow> 0 < k \<Longrightarrow> length (dig b n) \<le> k"
proof (induction b n arbitrary: k rule: dig.induct)
  case (1 b n)
  show ?case
  proof (cases "n < b")
    case True
    with "1.prems" show ?thesis by (simp add: dig.simps [of b n])
  next
    case False
    with "1.prems" obtain k' where k: "k = Suc k'" "0 < k'"
      by (metis gr0_conv_Suc neq0_conv power_one_right One_nat_def)
    with "1.prems" have "n div b < b ^ k'" by (simp add: less_mult_imp_div_less mult.commute)
    with "1.IH" False k "1.prems" show ?thesis by (simp add: dig.simps [of b n])
  qed
qed

lemma hd_dig: "2 \<le> b \<Longrightarrow> 0 < n \<Longrightarrow> hd (dig b n) \<noteq> 0"
proof (induction b n rule: dig.induct)
  case (1 b n)
  show ?case
  proof (cases "n < b")
    case True
    with "1.prems" show ?thesis by (simp add: dig.simps [of b n])
  next
    case False
    moreover have "dig b (n div b) \<noteq> []" by (subst dig.simps) simp
    moreover have "0 < n div b" using False "1.prems" by (simp add: div_greater_zero_iff)
    ultimately show ?thesis using "1" by (simp add: dig.simps [of b n])
  qed
qed

definition digit_chars :: "nat list \<Rightarrow> u8 list" where
  "digit_chars ds = map (\<lambda>d. digits ! d) ds"

lemma digits_nth: "d < 16 \<Longrightarrow> digits ! d = (if d < 10 then of_nat (48 + d) else of_nat (87 + d))"
proof -
  assume "d < 16"
  then have "d \<in> {0, 1, 2, 3, 4, 5, 6, 7, 8, 9, 10, 11, 12, 13, 14, 15}"
    by (simp only: insert_iff empty_iff) arith
  then show ?thesis by (elim insertE) (simp_all add: digits_def)
qed

section \<open>itoa prints positional notation\<close>

lemma itoa_loop_dig:
  assumes "2 \<le> unat base" "length (dig (unat base) (unat num)) \<le> p"
  shows "itoa_loop num base (replicate p 0 @ suf) p =
    Some (replicate (p - length (dig (unat base) (unat num))) 0
          @ digit_chars (dig (unat base) (unat num)) @ suf)"
  using assms
proof (induction p arbitrary: num suf)
  case 0
  have "dig (unat base) (unat num) \<noteq> []" by (subst dig.simps) simp
  with 0 show ?case by simp
next
  case (Suc p)
  let ?b = "unat base" and ?n = "unat num"
  let ?c = "digits ! (?n mod ?b)"
  have upd: "(replicate (Suc p) 0 @ suf)[p := ?c] = replicate p 0 @ ?c # suf"
    by (simp add: replicate_append_same [symmetric] list_update_append)
  have nd: "unat (num div base) = ?n div ?b" "unat (num mod base) = ?n mod ?b"
    by (simp_all add: unat_div_distrib unat_mod_distrib)
  show ?case
  proof (cases "?n < ?b")
    case True
    then have "num div base = 0" by (simp add: word_unat_eq_iff nd)
    then show ?thesis using True upd
      by (simp add: nd dig.simps [of ?b ?n] digit_chars_def del: replicate_Suc)
  next
    case False
    then have d: "dig ?b ?n = dig ?b (?n div ?b) @ [?n mod ?b]"
      using Suc.prems by (subst dig.simps) simp
    have "num div base \<noteq> 0" using False Suc.prems by (simp add: word_unat_eq_iff nd div_eq_0_iff)
    moreover have "length (dig ?b (unat (num div base))) \<le> p" using Suc.prems d by (simp add: nd)
    ultimately show ?thesis
      using Suc.IH [of "num div base" "?c # suf"] Suc.prems d
      by (simp add: upd nd digit_chars_def del: replicate_Suc)
  qed
qed

lemma itoa_dig:
  assumes "2 \<le> base" "base \<le> 16"
  shows "neorv32_aux_itoa num base = Some (digit_chars (dig (unat base) (unat num)))"
    and "length (dig (unat base) (unat num)) \<le> 32"
proof -
  let ?ds = "dig (unat base) (unat num)"
  have b: "2 \<le> unat base" "unat base \<le> 16" using assms by (simp_all add: word_le_nat_alt)
  have "(2::nat) ^ 32 \<le> unat base ^ 32" using b by (intro power_mono) simp_all
  moreover have "unat num < 2 ^ 32" using unsigned_less [of num] by simp
  ultimately show len: "length ?ds \<le> 32" using b by (intro length_dig) simp_all
  have "replicate 36 0 = replicate 35 (0::u8) @ [0]"
    using replicate_append_same [of 35 "0::u8"] by (simp add: eval_nat_numeral)
  then have "itoa_loop num base (replicate 36 0) 35 = Some (replicate (35 - length ?ds) 0
      @ digit_chars ?ds @ [0])"
    using itoa_loop_dig [of base num 35 "[0]"] b len by simp
  moreover have "c \<noteq> 0" if "c \<in> set (digit_chars ?ds)" for c
  proof -
    from that obtain d where d: "d \<in> set ?ds" "c = digits ! d" by (auto simp: digit_chars_def)
    then have "d < 16" using dig_less [OF b(1) d(1)] b by simp
    then have "unat c \<noteq> 0" by (simp add: d digits_nth unat_of_nat_small del: of_nat_add)
    then show ?thesis by auto
  qed
  then have "filter (\<lambda>c. c \<noteq> 0) (digit_chars ?ds) = digit_chars ?ds" by (auto intro: filter_True)
  ultimately show "neorv32_aux_itoa num base = Some (digit_chars ?ds)"
    using assms leD [of 2 base] leD [of base 16] by (simp add: neorv32_aux_itoa_def)
qed

lemma digit_chars_nonzero:
  assumes "2 \<le> b" "b \<le> 16" "c \<in> set (digit_chars (dig b n))"
  shows "c \<noteq> 0"
proof -
  from assms(3) obtain d where d: "d \<in> set (dig b n)" "c = digits ! d" by (auto simp: digit_chars_def)
  then have "d < 16" using dig_less [OF assms(1) d(1)] assms(2) by simp
  then have "unat c \<noteq> 0" by (simp add: d digits_nth unat_of_nat_small del: of_nat_add)
  then show ?thesis by auto
qed

section \<open>Hexadecimal round trip\<close>

lemma hex_digit_digits:
  assumes "d < 16"
  shows "hex_digit (digits ! d) = of_nat d" "digits ! d \<noteq> 0"
proof -
  from assms have "d \<in> {0, 1, 2, 3, 4, 5, 6, 7, 8, 9, 10, 11, 12, 13, 14, 15}"
    by (simp only: insert_iff empty_iff) arith
  then show "hex_digit (digits ! d) = of_nat d" "digits ! d \<noteq> 0"
    by (elim insertE; simp add: digits_def hex_digit_def)+
qed

lemma hexstr_loop_digits:
  assumes "\<forall>d \<in> set ds. d < 16" "length ds \<le> k"
  shows "hexstr_loop (digit_chars ds @ 0 # rest) k (of_nat v)
    = Some (of_nat (foldl (\<lambda>a d. a * 16 + d) v ds))"
  using assms
proof (induction ds arbitrary: v k)
  case Nil
  then show ?case by (cases k) (simp_all add: digit_chars_def)
next
  case (Cons d ds)
  then obtain k' where k: "k = Suc k'" by (cases k) auto
  have d: "d < 16" using Cons.prems by simp
  have "push_bit 4 (of_nat v) + ucast (hex_digit (digits ! d)) = (of_nat (v * 16 + d) :: u64)"
    using d by (simp add: hex_digit_digits ucast_of_nat_small push_bit_eq_mult mult.commute)
  with Cons.IH [of k' "v * 16 + d"] Cons.prems k d show ?case
    by (simp add: digit_chars_def hex_digit_digits)
qed

lemma hexstr_itoa:
  assumes "8 \<le> len"
  shows "\<exists>s. neorv32_aux_itoa n 16 = Some s
    \<and> neorv32_aux_hexstr2uint64 (s @ 0 # rest) len = Some (ucast n)"
proof -
  let ?ds = "dig 16 (unat n)"
  have "unat n < 16 ^ 8" using unsigned_less [of n] by simp
  then have "length ?ds \<le> 8" by (intro length_dig) simp_all
  moreover have "8 \<le> unat (if len > 16 then 16 else len)"
    using assms by (simp add: word_le_nat_alt)
  ultimately have "hexstr_loop (digit_chars ?ds @ 0 # rest) (unat (if len > 16 then 16 else len)) (of_nat 0)
      = Some (of_nat (dig_value 16 ?ds))"
    unfolding dig_value_def by (intro hexstr_loop_digits) (auto dest: dig_less [rotated])
  then have "neorv32_aux_hexstr2uint64 (digit_chars ?ds @ 0 # rest) len = Some (ucast n)"
    by (simp add: neorv32_aux_hexstr2uint64_def Let_def dig_value_dig)
  with itoa_dig(1) [of 16 n] show ?thesis by simp
qed

section \<open>The generator is a permutation\<close>

lemma xor_push_bit_zero:
  assumes "x XOR push_bit k x = 0" "0 < k"
  shows "x = (0 :: 'a::len word)"
proof (rule bit_word_eqI)
  fix n assume "n < LENGTH('a)"
  then show "bit x n = bit 0 n"
  proof (induction n rule: less_induct)
    case (less n)
    have "bit (x XOR push_bit k x) n = bit 0 n" using assms(1) by simp
    then have "bit x n \<longleftrightarrow> k \<le> n \<and> bit x (n - k)"
      using less.prems by (simp add: bit_xor_iff bit_push_bit_iff)
    then show ?case using less.IH [of "n - k"] less.prems assms(2) by auto
  qed
qed

lemma xor_drop_bit_zero:
  assumes "x XOR drop_bit k x = 0" "0 < k"
  shows "x = (0 :: 'a::len word)"
proof (rule bit_word_eqI)
  fix n assume "n < LENGTH('a)"
  then show "bit x n = bit 0 n"
  proof (induction "LENGTH('a) - n" arbitrary: n rule: less_induct)
    case less
    have "bit (x XOR drop_bit k x) n = bit 0 n" using assms(1) by simp
    then have "bit x n \<longleftrightarrow> bit x (k + n)" by (simp add: bit_xor_iff bit_drop_bit_eq)
    then show ?case
      using less.hyps [of "k + n"] less.prems assms(2) bit_imp_le_length [of x "k + n"]
      by (cases "k + n < LENGTH('a)") auto
  qed
qed

lemma xor_shift_inj:
  assumes "\<And>x y :: u32. f (x XOR y) = f x XOR f y" "\<And>x. x XOR f x = 0 \<Longrightarrow> x = 0"
  shows "inj (\<lambda>x :: u32. x XOR f x)"
proof (rule injI)
  fix x y :: u32
  assume eq: "x XOR f x = y XOR f y"
  have "(x XOR y) XOR f (x XOR y) = (x XOR f x) XOR (y XOR f y)"
    by (simp add: assms(1) ac_simps)
  then have "(x XOR y) XOR f (x XOR y) = 0" by (simp add: eq)
  then have "x XOR y = 0" by (rule assms(2))
  moreover have "x = (x XOR y) XOR y" by (simp add: xor.assoc)
  ultimately show "x = y" by simp
qed

lemma inj_xorshift32: "inj neorv32_aux_xorshift32"
proof -
  have eq: "neorv32_aux_xorshift32 =
      (\<lambda>x. x XOR push_bit 5 x) \<circ> (\<lambda>x. x XOR drop_bit 17 x) \<circ> (\<lambda>x. x XOR push_bit 13 x)"
    by (simp add: fun_eq_iff neorv32_aux_xorshift32_def)
  have "inj (\<lambda>x :: u32. x XOR push_bit k x)" if "0 < k" for k
    using that by (intro xor_shift_inj) (auto intro: xor_push_bit_zero)
  moreover have "inj (\<lambda>x :: u32. x XOR drop_bit 17 x)"
    by (intro xor_shift_inj) (auto intro: xor_drop_bit_zero)
  ultimately show ?thesis unfolding eq by (intro inj_compose) simp_all
qed

lemma xorshift32_zero [simp]: "neorv32_aux_xorshift32 0 = 0"
  by (simp add: neorv32_aux_xorshift32_def)

lemma xorshift32_eq_0 [simp]: "neorv32_aux_xorshift32 x = 0 \<longleftrightarrow> x = 0"
  using inj_xorshift32 by (metis injD xorshift32_zero)

end
