(* ===== verification/Uart.thy ===== *)
theory Uart
  imports Sysinfo Neo_Aux
begin

text \<open>
  The UART driver, \<^verbatim>\<open>sw/lib/source/neorv32_uart.c\<close>: setup with its prescaler search (in
  both builds, division and repeated subtraction), character and string output, the small
  \<^verbatim>\<open>printf\<close> and the line reader.  A handle is the base address of the register block.  The
  output routines are specified by the characters they put into the \<^verbatim>\<open>DATA\<close> register:
  \<open>crlf\<close> for \<^verbatim>\<open>puts\<close>, \<open>fmt_out\<close> for \<^verbatim>\<open>vprintf\<close>; the line reader by the editor
  \<open>line_edit\<close> on the characters received.  The locale \<open>uart_device\<close> is what the driver
  needs of the hardware to return.
\<close>

section \<open>Registers\<close>

definition UART_CTRL :: "u32 \<Rightarrow> loc" where
  "UART_CTRL UARTx = Mem W32 UARTx"

definition UART_DATA :: "u32 \<Rightarrow> loc" where
  "UART_DATA UARTx = Mem W32 (UARTx + 4)"

lemma UART_regs_distinct [simp]:
  "UART_CTRL U \<noteq> UART_DATA U" "UART_DATA U \<noteq> UART_CTRL U"
  by (simp_all add: UART_CTRL_def UART_DATA_def)

datatype uart_ctrl_bit =
    UART_CTRL_EN
  | UART_CTRL_SIM_MODE
  | UART_CTRL_HWFC_EN
  | UART_CTRL_PRSC_LSB
  | UART_CTRL_PRSC_MSB
  | UART_CTRL_BAUD_LSB
  | UART_CTRL_BAUD_MSB
  | UART_CTRL_RX_NEMPTY
  | UART_CTRL_RX_FULL
  | UART_CTRL_TX_EMPTY
  | UART_CTRL_TX_NFULL
  | UART_CTRL_IRQ_RX_NEMPTY
  | UART_CTRL_IRQ_RX_FULL
  | UART_CTRL_IRQ_TX_EMPTY
  | UART_CTRL_IRQ_TX_NFULL
  | UART_CTRL_RX_OVER
  | UART_CTRL_TX_BUSY

primrec uart_ctrl :: "uart_ctrl_bit \<Rightarrow> nat" where
    "uart_ctrl UART_CTRL_EN = 0"
  | "uart_ctrl UART_CTRL_SIM_MODE = 1"
  | "uart_ctrl UART_CTRL_HWFC_EN = 2"
  | "uart_ctrl UART_CTRL_PRSC_LSB = 3"
  | "uart_ctrl UART_CTRL_PRSC_MSB = 5"
  | "uart_ctrl UART_CTRL_BAUD_LSB = 6"
  | "uart_ctrl UART_CTRL_BAUD_MSB = 15"
  | "uart_ctrl UART_CTRL_RX_NEMPTY = 16"
  | "uart_ctrl UART_CTRL_RX_FULL = 17"
  | "uart_ctrl UART_CTRL_TX_EMPTY = 18"
  | "uart_ctrl UART_CTRL_TX_NFULL = 19"
  | "uart_ctrl UART_CTRL_IRQ_RX_NEMPTY = 20"
  | "uart_ctrl UART_CTRL_IRQ_RX_FULL = 21"
  | "uart_ctrl UART_CTRL_IRQ_TX_EMPTY = 22"
  | "uart_ctrl UART_CTRL_IRQ_TX_NFULL = 23"
  | "uart_ctrl UART_CTRL_RX_OVER = 30"
  | "uart_ctrl UART_CTRL_TX_BUSY = 31"

datatype uart_data_bit =
    UART_DATA_RTX_LSB
  | UART_DATA_RTX_MSB
  | UART_DATA_RX_FIFO_SIZE_LSB
  | UART_DATA_RX_FIFO_SIZE_MSB
  | UART_DATA_TX_FIFO_SIZE_LSB
  | UART_DATA_TX_FIFO_SIZE_MSB

primrec uart_data :: "uart_data_bit \<Rightarrow> nat" where
    "uart_data UART_DATA_RTX_LSB = 0"
  | "uart_data UART_DATA_RTX_MSB = 7"
  | "uart_data UART_DATA_RX_FIFO_SIZE_LSB = 8"
  | "uart_data UART_DATA_RX_FIFO_SIZE_MSB = 11"
  | "uart_data UART_DATA_TX_FIFO_SIZE_LSB = 12"
  | "uart_data UART_DATA_TX_FIFO_SIZE_MSB = 15"

section \<open>Setup\<close>

definition neorv32_uart_available :: "u32 \<Rightarrow> mach \<Rightarrow> u32 \<times> mach" where
  "neorv32_uart_available UARTx m =
     (if UARTx = NEORV32_UART0_BASE then soc_test SYSINFO_SOC_IO_UART0 m
      else if UARTx = NEORV32_UART1_BASE then soc_test SYSINFO_SOC_IO_UART1 m
      else (0, m))"

text \<open>\<^verbatim>\<open>while (baud_div >= 0x3ffU)\<close>\<close>

function baud_prsc :: "u32 \<Rightarrow> u32 \<Rightarrow> u32 \<times> u32" where
  "baud_prsc baud_div prsc_sel =
     (if baud_div \<ge> 0x3ff
      then baud_prsc (if prsc_sel = 2 \<or> prsc_sel = 4 then drop_bit 3 baud_div
                      else drop_bit 1 baud_div) (prsc_sel + 1)
      else (baud_div, prsc_sel))"
  by pat_completeness auto

termination
proof (relation "measure (\<lambda>(d, _). unat d)", goal_cases)
  case (2 d p)
  then have "d \<noteq> 0" by auto
  then show ?case by (auto intro: unat_drop_bit_less)
qed simp

declare baud_prsc.simps [simp del]

definition uart_ctrl_word :: "u32 \<Rightarrow> u32 \<Rightarrow> u32 \<Rightarrow> u32" where
  "uart_ctrl_word prsc_sel baud_div irq_mask =
     BIT (uart_ctrl UART_CTRL_EN)
     OR push_bit (uart_ctrl UART_CTRL_PRSC_LSB) (prsc_sel AND 3)
     OR push_bit (uart_ctrl UART_CTRL_BAUD_LSB) ((baud_div - 1) AND 0x3ff)
     OR (irq_mask AND push_bit (uart_ctrl UART_CTRL_IRQ_RX_NEMPTY) 0xf)"

definition neorv32_uart_setup :: "u32 \<Rightarrow> u32 \<Rightarrow> u32 \<Rightarrow> mach \<Rightarrow> mach" where
  "neorv32_uart_setup UARTx baudrate irq_mask m =
     (let m = wr (UART_CTRL UARTx) 0 m;
          (clock, m) = neorv32_sysinfo_get_clk m;
          (baud_div, prsc_sel) = baud_prsc (divu clock (2 * baudrate)) 0
      in wr (UART_CTRL UARTx) (uart_ctrl_word prsc_sel baud_div irq_mask) m)"

text \<open>The build for the bootloader divides by repeated subtraction; it hangs on a zero divisor.\<close>

partial_function (option) sub_div :: "u32 \<Rightarrow> u32 \<Rightarrow> u32 \<Rightarrow> u32 option" where
  "sub_div clock d baud_div =
     (if clock \<ge> d then sub_div (clock - d) d (baud_div + 1) else Some baud_div)"

definition neorv32_uart_setup_bootloader :: "u32 \<Rightarrow> u32 \<Rightarrow> u32 \<Rightarrow> mach \<Rightarrow> mach option" where
  "neorv32_uart_setup_bootloader UARTx baudrate irq_mask m =
     do {
       let m = wr (UART_CTRL UARTx) 0 m;
       let (clock, m) = neorv32_sysinfo_get_clk m;
       d \<leftarrow> sub_div clock (2 * baudrate) 0;
       let (baud_div, prsc_sel) = baud_prsc d 0;
       Some (wr (UART_CTRL UARTx) (uart_ctrl_word prsc_sel baud_div irq_mask) m)
     }"

section \<open>Control and status\<close>

definition neorv32_uart_get_rx_fifo_depth :: "u32 \<Rightarrow> mach \<Rightarrow> u32 \<times> mach" where
  "neorv32_uart_get_rx_fifo_depth UARTx m =
     (let (v, m) = rd (UART_DATA UARTx) m;
          tmp = drop_bit (uart_data UART_DATA_RX_FIFO_SIZE_LSB) v AND 0x0f
      in (shl32 1 tmp, m))"

definition neorv32_uart_get_tx_fifo_depth :: "u32 \<Rightarrow> mach \<Rightarrow> u32 \<times> mach" where
  "neorv32_uart_get_tx_fifo_depth UARTx m =
     (let (v, m) = rd (UART_DATA UARTx) m;
          tmp = drop_bit (uart_data UART_DATA_TX_FIFO_SIZE_LSB) v AND 0x0f
      in (shl32 1 tmp, m))"

definition neorv32_uart_enable :: "u32 \<Rightarrow> mach \<Rightarrow> mach" where
  "neorv32_uart_enable UARTx m = MMREG32_BSET (UART_CTRL UARTx) (BIT (uart_ctrl UART_CTRL_EN)) m"

definition neorv32_uart_disable :: "u32 \<Rightarrow> mach \<Rightarrow> mach" where
  "neorv32_uart_disable UARTx m = MMREG32_BCLR (UART_CTRL UARTx) (BIT (uart_ctrl UART_CTRL_EN)) m"

definition neorv32_uart_rtscts_enable :: "u32 \<Rightarrow> mach \<Rightarrow> mach" where
  "neorv32_uart_rtscts_enable UARTx m =
     MMREG32_BSET (UART_CTRL UARTx) (BIT (uart_ctrl UART_CTRL_HWFC_EN)) m"

definition neorv32_uart_rtscts_disable :: "u32 \<Rightarrow> mach \<Rightarrow> mach" where
  "neorv32_uart_rtscts_disable UARTx m =
     MMREG32_BCLR (UART_CTRL UARTx) (BIT (uart_ctrl UART_CTRL_HWFC_EN)) m"

definition neorv32_uart_tx_busy :: "u32 \<Rightarrow> mach \<Rightarrow> u32 \<times> mach" where
  "neorv32_uart_tx_busy UARTx m =
     (let (v, m) = rd (UART_CTRL UARTx) m in (v AND BIT (uart_ctrl UART_CTRL_TX_BUSY), m))"

definition neorv32_uart_tx_free :: "u32 \<Rightarrow> mach \<Rightarrow> u32 \<times> mach" where
  "neorv32_uart_tx_free UARTx m =
     (let (v, m) = rd (UART_CTRL UARTx) m in (v AND BIT (uart_ctrl UART_CTRL_TX_NFULL), m))"

section \<open>Characters and strings\<close>

definition neorv32_uart_tx_put :: "u32 \<Rightarrow> u8 \<Rightarrow> mach \<Rightarrow> mach" where
  "neorv32_uart_tx_put UARTx c m =
     wr (UART_DATA UARTx) (push_bit (uart_data UART_DATA_RTX_LSB) (ucast c)) m"

definition tx_full :: "u32 \<Rightarrow> bool" where
  "tx_full v \<longleftrightarrow> v AND BIT (uart_ctrl UART_CTRL_TX_NFULL) = 0"

definition neorv32_uart_putc :: "u32 \<Rightarrow> u8 \<Rightarrow> mach \<Rightarrow> mach option" where
  "neorv32_uart_putc UARTx c m =
     do { m \<leftarrow> poll tx_full (UART_CTRL UARTx) m; Some (neorv32_uart_tx_put UARTx c m) }"

definition neorv32_uart_char_received :: "u32 \<Rightarrow> mach \<Rightarrow> u32 \<times> mach" where
  "neorv32_uart_char_received UARTx m =
     (let (v, m) = rd (UART_CTRL UARTx) m in (v AND BIT (uart_ctrl UART_CTRL_RX_NEMPTY), m))"

definition neorv32_uart_char_received_get :: "u32 \<Rightarrow> mach \<Rightarrow> u8 \<times> mach" where
  "neorv32_uart_char_received_get UARTx m =
     (let (v, m) = rd (UART_DATA UARTx) m in (ucast (drop_bit (uart_data UART_DATA_RTX_LSB) v), m))"

definition rx_empty :: "u32 \<Rightarrow> bool" where
  "rx_empty v \<longleftrightarrow> v AND BIT (uart_ctrl UART_CTRL_RX_NEMPTY) = 0"

definition neorv32_uart_getc :: "u32 \<Rightarrow> mach \<Rightarrow> (u8 \<times> mach) option" where
  "neorv32_uart_getc UARTx m =
     do { m \<leftarrow> poll rx_empty (UART_CTRL UARTx) m; Some (neorv32_uart_char_received_get UARTx m) }"

fun neorv32_uart_puts :: "u32 \<Rightarrow> u8 list \<Rightarrow> mach \<Rightarrow> mach option" where
  "neorv32_uart_puts UARTx [] m = Some m"
| "neorv32_uart_puts UARTx (c # s) m =
     (if c = 0 then Some m
      else do {
        m \<leftarrow> (if c = 10 then neorv32_uart_putc UARTx 13 m else Some m);
        m \<leftarrow> neorv32_uart_putc UARTx c m;
        neorv32_uart_puts UARTx s m
      })"

section \<open>Formatted output\<close>

text \<open>The variable arguments: 32-bit integers and strings.  Fetching one as the other is undefined.\<close>

datatype arg = AInt u32 | AStr "u8 list"

fun va_int :: "arg list \<Rightarrow> (u32 \<times> arg list) option" where
  "va_int (AInt n # args) = Some (n, args)"
| "va_int _ = None"

fun va_str :: "arg list \<Rightarrow> (u8 list \<times> arg list) option" where
  "va_str (AStr s # args) = Some (s, args)"
| "va_str _ = None"

definition to_lower :: "u8 \<Rightarrow> u8" where
  "to_lower c = (if 0x41 \<le> c \<and> c \<le> 0x5a then c + 0x20 else c)"

fun put_zeros :: "u32 \<Rightarrow> nat \<Rightarrow> mach \<Rightarrow> mach option" where
  "put_zeros UARTx 0 m = Some m"
| "put_zeros UARTx (Suc i) m = do { m \<leftarrow> neorv32_uart_putc UARTx 0x30 m; put_zeros UARTx i m }"

definition fmt_step :: "u32 \<Rightarrow> u8 \<Rightarrow> arg list \<Rightarrow> mach \<Rightarrow> (arg list \<times> mach) option" where
  "fmt_step UARTx c args m =
     (if c = 0x73 then do { \<comment> \<open>s\<close>
        (s, args) \<leftarrow> va_str args;
        m \<leftarrow> neorv32_uart_puts UARTx s m;
        Some (args, m)
      } else if c = 0x63 then do { \<comment> \<open>c\<close>
        (n, args) \<leftarrow> va_int args;
        m \<leftarrow> neorv32_uart_putc UARTx (ucast n) m;
        Some (args, m)
      } else if c = 0x69 \<or> c = 0x64 then do { \<comment> \<open>i, d\<close>
        (n, args) \<leftarrow> va_int args;
        (n, m) \<leftarrow> (if n <s 0 then do { m \<leftarrow> neorv32_uart_putc UARTx 0x2d m; Some (- n, m) }
                  else Some (n, m));
        buf \<leftarrow> neorv32_aux_itoa n 10;
        m \<leftarrow> neorv32_uart_puts UARTx buf m;
        Some (args, m)
      } else if c = 0x75 then do { \<comment> \<open>u\<close>
        (n, args) \<leftarrow> va_int args;
        buf \<leftarrow> neorv32_aux_itoa n 10;
        m \<leftarrow> neorv32_uart_puts UARTx buf m;
        Some (args, m)
      } else if c = 0x78 \<or> c = 0x70 then do { \<comment> \<open>x, p\<close>
        (n, args) \<leftarrow> va_int args;
        buf \<leftarrow> neorv32_aux_itoa n 16;
        m \<leftarrow> put_zeros UARTx (unat (8 - of_nat (List.length buf) :: u32)) m;
        m \<leftarrow> neorv32_uart_puts UARTx buf m;
        Some (args, m)
      } else if c = 0x25 then do {
        m \<leftarrow> neorv32_uart_putc UARTx c m;
        Some (args, m)
      } else do {
        m \<leftarrow> neorv32_uart_putc UARTx 0x25 m;
        m \<leftarrow> neorv32_uart_putc UARTx c m;
        Some (args, m)
      })"

text \<open>\<open>None\<close> after a final percent sign: the loop would go on behind the terminator.\<close>

fun neorv32_uart_vprintf :: "u32 \<Rightarrow> u8 list \<Rightarrow> arg list \<Rightarrow> mach \<Rightarrow> mach option" where
  "neorv32_uart_vprintf UARTx [] args m = Some m"
| "neorv32_uart_vprintf UARTx (c # format) args m =
     (if c = 0 then Some m
      else if c = 0x25 then
        (case format of
           [] \<Rightarrow> None
         | c # format \<Rightarrow>
             if c = 0 then None
             else do {
               (args, m) \<leftarrow> fmt_step UARTx (to_lower c) args m;
               neorv32_uart_vprintf UARTx format args m
             })
      else do {
        m \<leftarrow> (if c = 10 then neorv32_uart_putc UARTx 13 m else Some m);
        m \<leftarrow> neorv32_uart_putc UARTx c m;
        neorv32_uart_vprintf UARTx format args m
      })"

definition neorv32_uart_printf :: "u32 \<Rightarrow> u8 list \<Rightarrow> arg list \<Rightarrow> mach \<Rightarrow> mach option" where
  "neorv32_uart_printf UARTx format args m = neorv32_uart_vprintf UARTx format args m"

section \<open>Line input\<close>

text \<open>
  The array and the number of characters stored so far; \<^verbatim>\<open>buffer\<close> points behind them.
  \<open>None\<close> also where the code writes outside the array.
\<close>

definition store_at :: "nat \<Rightarrow> u8 \<Rightarrow> u8 list \<Rightarrow> u8 list option" where
  "store_at i c buf = (if i < List.length buf then Some (buf[i := c]) else None)"

partial_function (option) scan_loop ::
  "u32 \<Rightarrow> int \<Rightarrow> bool \<Rightarrow> u8 list \<Rightarrow> nat \<Rightarrow> mach \<Rightarrow> (nat \<times> u8 list \<times> mach) option"
where
  "scan_loop UARTx max_size echo buf len m =
     do {
       (c, m) \<leftarrow> neorv32_uart_getc UARTx m;
       if c = 8 then
         if len \<noteq> 0 then do {
           m \<leftarrow> (if echo then neorv32_uart_puts UARTx [8, 0x20, 8] m else Some m);
           scan_loop UARTx max_size echo buf (len - 1) m
         } else scan_loop UARTx max_size echo buf len m
       else if c = 13 \<or> c = 10 then do {
         buf \<leftarrow> store_at len 0 buf;
         Some (len, buf, m)
       }
       else if 0x20 \<le> c \<and> c \<le> 0x7e \<and> int len < max_size - 1 then do {
         m \<leftarrow> (if echo then neorv32_uart_putc UARTx c m else Some m);
         buf \<leftarrow> store_at len c buf;
         scan_loop UARTx max_size echo buf (len + 1) m
       }
       else scan_loop UARTx max_size echo buf len m
     }"

definition neorv32_uart_scan ::
  "u32 \<Rightarrow> u8 list \<Rightarrow> int \<Rightarrow> bool \<Rightarrow> mach \<Rightarrow> (nat \<times> u8 list \<times> mach) option" where
  "neorv32_uart_scan UARTx buffer max_size echo m = scan_loop UARTx max_size echo buffer 0 m"

section \<open>The prescaler search\<close>

text \<open>Selecting prescaler \<open>p\<close> divides the clock by \<open>2 ^ baud_shift p\<close> (before the fixed factor two).\<close>

primrec baud_shift :: "nat \<Rightarrow> nat" where
  "baud_shift 0 = 0"
| "baud_shift (Suc p) = baud_shift p + (if p = 2 \<or> p = 4 then 3 else 1)"

lemma baud_shift_ge: "p \<le> baud_shift p"
  by (induction p) auto

lemma baud_prsc_general:
  assumes "baud_prsc d p = (r, s)" "d = drop_bit (baud_shift (unat p)) d0"
    and "\<forall>q < unat p. drop_bit (baud_shift q) d0 \<ge> 0x3ff"
  shows "r = drop_bit (baud_shift (unat s)) d0 \<and> r < 0x3ff
    \<and> (\<forall>q < unat s. drop_bit (baud_shift q) d0 \<ge> 0x3ff)"
  using assms
proof (induction d p rule: baud_prsc.induct)
  case (1 d p)
  show ?case
  proof (cases "d \<ge> 0x3ff")
    case True
    have "unat p < 32"
    proof (rule ccontr)
      assume "\<not> unat p < 32"
      then have "32 \<le> baud_shift (unat p)" using baud_shift_ge [of "unat p"] by linarith
      then have "d = 0" unfolding "1.prems"(2)
        by (intro bit_word_eqI) (auto simp: bit_simps dest: bit_imp_le_length)
      with True show False by simp
    qed
    then have p: "unat (p + 1) = Suc (unat p)" "unat (1 + p) = Suc (unat p)"
      by (simp_all add: unat_word_ariths)
    have eq: "(p = 2) = (unat p = 2)" "(p = 4) = (unat p = 4)"
      by (simp_all add: word_unat_eq_iff)
    let ?d = "if p = 2 \<or> p = 4 then drop_bit 3 d else drop_bit 1 d"
    have d: "?d = drop_bit (baud_shift (unat (p + 1))) d0"
      using "1.prems"(2) by (auto simp: p eq add.commute)
    moreover have "\<forall>q < unat (p + 1). drop_bit (baud_shift q) d0 \<ge> 0x3ff"
      using True "1.prems"(2,3) by (auto simp: p less_Suc_eq)
    moreover have "baud_prsc ?d (p + 1) = (r, s)"
      using "1.prems"(1) True by (simp add: baud_prsc.simps [of d p])
    ultimately show ?thesis using "1.IH" True by blast
  next
    case False
    then have "r = d" "s = p" using "1.prems"(1) by (simp_all add: baud_prsc.simps [of d p])
    with False "1.prems"(2,3) show ?thesis by (auto simp: not_le)
  qed
qed

lemma baud_prsc_spec:
  assumes "baud_prsc d 0 = (r, s)"
  shows "r = drop_bit (baud_shift (unat s)) d" "r < 0x3ff"
    and "q < unat s \<Longrightarrow> drop_bit (baud_shift q) d \<ge> 0x3ff"
  using baud_prsc_general [OF assms, of d] by auto

lemma sub_div_eq:
  assumes "d \<noteq> 0"
  shows "sub_div c d b = Some (b + c div d)"
proof (induction "unat c" arbitrary: c b rule: less_induct)
  case less
  show ?case
  proof (cases "c \<ge> d")
    case True
    have d0: "0 < unat d" using assms by (simp add: unat_gt_0)
    have u: "unat (c - d) = unat c - unat d" using True by (simp add: unat_sub)
    then have "unat (c - d) < unat c" using d0 True by (simp add: word_le_nat_alt)
    then have IH: "sub_div (c - d) d (b + 1) = Some (b + 1 + (c - d) div d)"
      by (rule less)
    have "unat c div unat d = Suc (unat (c - d) div unat d)"
      using True d0 by (simp add: u word_le_nat_alt le_div_geq)
    then have "c div d = 1 + (c - d) div d"
      by (metis of_nat_Suc of_nat_unat unat_div_distrib word_arith_nat_div)
    with IH True show ?thesis by (subst sub_div.simps) (simp add: add.assoc)
  next
    case False
    then have "c div d = 0" by (simp add: word_unat_eq_iff unat_div_distrib word_le_nat_alt)
    with False show ?thesis by (subst sub_div.simps) simp
  qed
qed

lemma sub_div_zero: "sub_div c 0 b = None"
proof (rule ccontr)
  assume "sub_div c 0 b \<noteq> None"
  then obtain r where r: "sub_div c 0 b = Some r" by auto
  have "d = 0 \<longrightarrow> False" if "sub_div c d b = Some r" for c d b r
    using that
  proof (rule sub_div.raw_induct [where P = "\<lambda>c d b r. d = 0 \<longrightarrow> False", rotated])
    fix f c d b r
    assume IH: "\<And>c d b r. f c d b = Some r \<Longrightarrow> d = (0 :: u32) \<longrightarrow> False"
      and eq: "(if (c :: u32) \<ge> d then f (c - d) d (b + 1) else Some b) = Some r"
    show "d = 0 \<longrightarrow> False"
    proof
      assume "d = 0"
      with eq have "f (c - d) d (b + 1) = Some r" by simp
      from IH [OF this] \<open>d = 0\<close> show False by blast
    qed
  qed
  with r show False by blast
qed

lemma setup_bootloader_eq:
  assumes "2 * baudrate \<noteq> 0"
  shows "neorv32_uart_setup_bootloader U baudrate irq m = Some (neorv32_uart_setup U baudrate irq m)"
  using assms
  by (simp add: neorv32_uart_setup_bootloader_def neorv32_uart_setup_def sub_div_eq divu_def
      Let_def split: prod.split)

section \<open>The characters sent\<close>

primrec putcs :: "u32 \<Rightarrow> u8 list \<Rightarrow> mach \<Rightarrow> mach option" where
  "putcs UARTx [] m = Some m"
| "putcs UARTx (c # cs) m = do { m \<leftarrow> neorv32_uart_putc UARTx c m; putcs UARTx cs m }"

lemma putcs_append:
  "putcs U (xs @ ys) m = do { m \<leftarrow> putcs U xs m; putcs U ys m }"
  by (induction xs arbitrary: m) (auto split: Option.bind_splits)

text \<open>A string as \<^verbatim>\<open>puts\<close> sends it: up to the terminator, a carriage return before each line feed.\<close>

fun crlf :: "u8 list \<Rightarrow> u8 list" where
  "crlf [] = []"
| "crlf (c # s) = (if c = 0 then [] else (if c = 10 then [13, 10] else [c]) @ crlf s)"

lemma puts_putcs: "neorv32_uart_puts U s m = putcs U (crlf s) m"
  by (induction s arbitrary: m) (auto split: Option.bind_splits)

lemma crlf_id: "(\<And>c. c \<in> set s \<Longrightarrow> c \<noteq> 0 \<and> c \<noteq> 10) \<Longrightarrow> crlf s = s"
  by (induction s) auto

lemma put_zeros_putcs: "put_zeros U n m = putcs U (replicate n 0x30) m"
  by (induction n arbitrary: m) (auto split: Option.bind_splits)

text \<open>Numbers in decimal and in hexadecimal.\<close>

definition decimal :: "nat \<Rightarrow> u8 list" where
  "decimal n = digit_chars (dig 10 n)"

definition hex8 :: "nat \<Rightarrow> u8 list" where
  "hex8 n = replicate (8 - List.length (dig 16 n)) 0x30 @ digit_chars (dig 16 n)"

text \<open>What one format character sends, and the arguments left.\<close>

definition fmt_one :: "u8 \<Rightarrow> arg list \<Rightarrow> (u8 list \<times> arg list) option" where
  "fmt_one c args =
     (if c = 0x73 then map_option (\<lambda>(s, args). (crlf s, args)) (va_str args)
      else if c = 0x63 then map_option (\<lambda>(n, args). ([ucast n], args)) (va_int args)
      else if c = 0x69 \<or> c = 0x64 then
        map_option (\<lambda>(n, args).
          (if sint n < 0 then 0x2d # decimal (nat (- sint n)) else decimal (nat (sint n)), args))
          (va_int args)
      else if c = 0x75 then map_option (\<lambda>(n, args). (decimal (unat n), args)) (va_int args)
      else if c = 0x78 \<or> c = 0x70 then map_option (\<lambda>(n, args). (hex8 (unat n), args)) (va_int args)
      else if c = 0x25 then Some ([c], args)
      else Some ([0x25, c], args))"

fun fmt_out :: "u8 list \<Rightarrow> arg list \<Rightarrow> u8 list option" where
  "fmt_out [] args = Some []"
| "fmt_out [c] args =
     (if c = 0 then Some [] else if c = 0x25 then None else Some (crlf [c]))"
| "fmt_out (c # d # format) args =
     (if c = 0 then Some []
      else if c = 0x25 then
        if d = 0 then None
        else do { (out, args) \<leftarrow> fmt_one (to_lower d) args;
                  rest \<leftarrow> fmt_out format args;
                  Some (out @ rest) }
      else do { rest \<leftarrow> fmt_out (d # format) args; Some (crlf [c] @ rest) })"

lemma digit_chars_plain:
  assumes "2 \<le> b" "b \<le> 16" "c \<in> set (digit_chars (dig b n))"
  shows "c \<noteq> 0 \<and> c \<noteq> 10"
proof -
  from assms(3) obtain d where d: "d \<in> set (dig b n)" "c = digits ! d" by (auto simp: digit_chars_def)
  then have "d < 16" using dig_less [OF assms(1) d(1)] assms(2) by simp
  then have "unat c \<noteq> 0 \<and> unat c \<noteq> 10"
    by (simp add: d digits_nth unat_of_nat_small del: of_nat_add)
  then show ?thesis by auto
qed

lemma crlf_digits [simp]: "2 \<le> b \<Longrightarrow> b \<le> 16 \<Longrightarrow> crlf (digit_chars (dig b n)) = digit_chars (dig b n)"
  by (rule crlf_id) (rule digit_chars_plain)

lemma itoa_10: "neorv32_aux_itoa n 10 = Some (decimal (unat n))"
  using itoa_dig(1) [of 10 n] by (simp add: decimal_def)

lemma itoa_16: "neorv32_aux_itoa n 16 = Some (digit_chars (dig 16 (unat n)))"
  using itoa_dig(1) [of 16 n] by simp

lemma crlf_decimal [simp]: "crlf (decimal n) = decimal n"
  by (simp add: decimal_def)

lemma hex_pad:
  "unat (8 - of_nat (List.length (digit_chars (dig 16 (unat n)))) :: u32) =
   8 - List.length (dig 16 (unat (n :: u32)))"
proof -
  have "unat n < 16 ^ 8" using unsigned_less [of n] by simp
  then have le: "List.length (dig 16 (unat n)) \<le> 8" by (intro length_dig) simp_all
  then have "(8 - of_nat (List.length (dig 16 (unat n))) :: u32) = of_nat (8 - List.length (dig 16 (unat n)))"
    by simp
  with le show ?thesis by (simp add: digit_chars_def unat_of_nat_small del: of_nat_diff)
qed

lemma signed_abs:
  fixes n :: u32
  shows "n <s 0 \<longleftrightarrow> sint n < 0"
    and "sint n < 0 \<Longrightarrow> unat (- n) = nat (- sint n)"
    and "\<not> sint n < 0 \<Longrightarrow> unat n = nat (sint n)"
proof -
  show "n <s 0 \<longleftrightarrow> sint n < 0" by (simp add: word_sless_alt)
  have r: "- (2 ^ 31) \<le> sint n" "sint n < 2 ^ 31"
    using sint_ge [of n] sint_lt [of n] by simp_all
  have n: "n = word_of_int (sint n)" by simp
  show "unat (- n) = nat (- sint n)" if "sint n < 0"
  proof -
    have "- n = word_of_int (- sint n)" by (subst n) simp
    then have "uint (- n) = uint (word_of_int (- sint n) :: u32)" by simp
    also have "\<dots> = - sint n mod 2 ^ 32" by (simp only: uint_word_of_int len_num1 len_bit0 len_bit1, simp)
    also have "\<dots> = - sint n" using r that by (intro mod_pos_pos_trivial) simp_all
    finally show ?thesis by (simp add: unat_eq_nat_uint)
  qed
  show "unat n = nat (sint n)" if "\<not> sint n < 0"
  proof -
    have "uint n = sint n mod 2 ^ 32" by (subst n) (simp only: uint_word_of_int, simp)
    also have "\<dots> = sint n" using r that by (intro mod_pos_pos_trivial) simp_all
    finally show ?thesis by (simp add: unat_eq_nat_uint)
  qed
qed

section \<open>The routines against their output\<close>

lemma fmt_step_eq:
  "fmt_step U c args m =
     do { (out, args) \<leftarrow> fmt_one c args; m \<leftarrow> putcs U out m; Some (args, m) }"
proof -
  consider "c = 0x73" | "c = 0x63" | "c = 0x69 \<or> c = 0x64" | "c = 0x75" | "c = 0x78 \<or> c = 0x70"
    | "c \<noteq> 0x73" "c \<noteq> 0x63" "c \<noteq> 0x69" "c \<noteq> 0x64" "c \<noteq> 0x75" "c \<noteq> 0x78" "c \<noteq> 0x70" by blast
  then show ?thesis
  proof cases
    case 1
    then show ?thesis
      by (cases "va_str args") (auto simp: fmt_step_def fmt_one_def puts_putcs)
  next
    case 2
    then show ?thesis
      by (cases "va_int args") (auto simp: fmt_step_def fmt_one_def split: Option.bind_splits)
  next
    case 3
    then show ?thesis
      by (cases "va_int args")
        (auto simp: fmt_step_def fmt_one_def puts_putcs itoa_10 signed_abs
          split: Option.bind_splits)
  next
    case 4
    then show ?thesis
      by (cases "va_int args") (auto simp: fmt_step_def fmt_one_def puts_putcs itoa_10)
  next
    case 5
    then show ?thesis
      by (cases "va_int args")
        (auto simp: fmt_step_def fmt_one_def puts_putcs itoa_16 put_zeros_putcs hex_pad hex8_def
          putcs_append split: Option.bind_splits)
  next
    case 6
    then show ?thesis by (auto simp: fmt_step_def fmt_one_def split: Option.bind_splits)
  qed
qed

text \<open>\<^verbatim>\<open>vprintf\<close> sends exactly the specified characters.\<close>

lemma vprintf_putcs:
  "neorv32_uart_vprintf U format args m = do { out \<leftarrow> fmt_out format args; putcs U out m }"
proof (induction format args arbitrary: m rule: fmt_out.induct)
  case (1 args)
  then show ?case by simp
next
  case (2 c args)
  then show ?case by (auto split: Option.bind_splits)
next
  case (3 c d format args)
  consider "c = 0 \<or> c = 0x25 \<and> d = 0" | "c = 0x25" "d \<noteq> 0" | "c \<noteq> 0" "c \<noteq> 0x25" by blast
  then show ?case
  proof cases
    case 1
    then show ?thesis by auto
  next
    case 2
    show ?thesis
    proof (cases "fmt_one (to_lower d) args")
      case None
      with 2 show ?thesis by (simp add: fmt_step_eq)
    next
      case (Some p)
      then obtain out args' where p: "fmt_one (to_lower d) args = Some (out, args')" by (cases p) auto
      have IH: "neorv32_uart_vprintf U format args' m =
          do { out \<leftarrow> fmt_out format args'; putcs U out m }" for m
        using 2 p by (intro "3.IH"(1)) auto
      show ?thesis
        by (cases "putcs U out m"; cases "fmt_out format args'")
          (simp_all add: 2 p IH fmt_step_eq putcs_append)
    qed
  next
    case 3
    from "3.IH"(2) 3 have IH: "neorv32_uart_vprintf U (d # format) args m =
        do { out \<leftarrow> fmt_out (d # format) args; putcs U out m }" for m by blast
    have s: "neorv32_uart_vprintf U (c # d # format) args m =
        do { m \<leftarrow> putcs U (crlf [c]) m; neorv32_uart_vprintf U (d # format) args m }"
      using 3 by (simp del: neorv32_uart_vprintf.simps add: neorv32_uart_vprintf.simps(2) [of U c])
    show ?thesis unfolding s using 3
      by (cases "putcs U (crlf [c]) m"; cases "fmt_out (d # format) args")
        (simp_all del: neorv32_uart_vprintf.simps fmt_out.simps
          add: IH fmt_out.simps(3) [of c] putcs_append)
  qed
qed

lemma putc_written:
  assumes "neorv32_uart_putc U c m = Some m'"
  shows "hw m' = hw m"
    and "written l m' = written l m @ (if l = UART_DATA U then [ucast c] else [])"
    and "l \<noteq> UART_CTRL U \<Longrightarrow> read_from l m' = read_from l m"
proof -
  from assms obtain m1 where p: "poll tx_full (UART_CTRL U) m = Some m1"
    and m': "m' = neorv32_uart_tx_put U c m1"
    by (auto simp: neorv32_uart_putc_def split: Option.bind_splits)
  show "hw m' = hw m" by (simp add: m' neorv32_uart_tx_put_def poll_frame [OF p])
  show "written l m' = written l m @ (if l = UART_DATA U then [ucast c] else [])"
    by (simp add: m' neorv32_uart_tx_put_def poll_frame [OF p])
  show "l \<noteq> UART_CTRL U \<Longrightarrow> read_from l m' = read_from l m"
    by (simp add: m' neorv32_uart_tx_put_def poll_frame [OF p])
qed

lemma putcs_written:
  assumes "putcs U cs m = Some m'"
  shows "hw m' = hw m
    \<and> written l m' = written l m @ (if l = UART_DATA U then map ucast cs else [])
    \<and> (l \<noteq> UART_CTRL U \<longrightarrow> read_from l m' = read_from l m)"
  using assms
proof (induction cs arbitrary: m)
  case (Cons c cs)
  then obtain m1 where m1: "neorv32_uart_putc U c m = Some m1" "putcs U cs m1 = Some m'"
    by (auto split: Option.bind_splits)
  from Cons.IH [OF m1(2)] putc_written [OF m1(1)] show ?case by simp
qed simp

section \<open>The device the driver needs\<close>

text \<open>
  In the states \<open>ok\<close> the device is enabled and keeps transmitting; nothing but a write to its
  control register ends that.
\<close>

locale uart_device =
  fixes ok :: "mach \<Rightarrow> bool" and U :: u32
  assumes ok_tick: "ok m \<Longrightarrow> (\<And>v. e \<noteq> Wr (UART_CTRL U) v) \<Longrightarrow> ok (tick e m)"
    and tx_ready: "ok m \<Longrightarrow> \<exists>n. \<not> tx_full (rd_val (UART_CTRL U) (rds (UART_CTRL U) n m))"

sublocale uart_device \<subseteq> ready_device ok "UART_CTRL U" tx_full
  by unfold_locales (auto simp: rd_def intro: ok_tick tx_ready)

context uart_device
begin

lemma putc_returns:
  assumes "ok m"
  obtains m' where "neorv32_uart_putc U c m = Some m'" "ok m'"
proof -
  from poll_returns [OF assms] obtain m' n where "poll tx_full (UART_CTRL U) m = Some m'" "ok m'"
    by metis
  moreover from this have "ok (neorv32_uart_tx_put U c m')"
    by (auto simp: neorv32_uart_tx_put_def wr_def intro: ok_tick)
  ultimately show ?thesis
    by (intro that [of "neorv32_uart_tx_put U c m'"]) (simp_all add: neorv32_uart_putc_def)
qed

lemma putcs_returns:
  assumes "ok m"
  shows "\<exists>m'. putcs U cs m = Some m' \<and> ok m'
    \<and> written (UART_DATA U) m' = written (UART_DATA U) m @ map ucast cs"
proof -
  have "\<exists>m'. putcs U cs m = Some m' \<and> ok m'" using assms
  proof (induction cs arbitrary: m)
    case (Cons c cs)
    from putc_returns [OF Cons.prems] obtain m1 where "neorv32_uart_putc U c m = Some m1" "ok m1" .
    with Cons.IH [of m1] show ?case by auto
  qed simp
  then show ?thesis using putcs_written by fastforce
qed

lemma vprintf_returns:
  assumes "ok m" "fmt_out format args = Some out"
  shows "\<exists>m'. neorv32_uart_vprintf U format args m = Some m' \<and> ok m'
    \<and> written (UART_DATA U) m' = written (UART_DATA U) m @ map ucast out"
  using putcs_returns [OF assms(1)] by (simp add: vprintf_putcs assms(2))

end

section \<open>The line editor\<close>

text \<open>
  What the characters received up to the first line end leave in the buffer, and what is
  echoed on the way: a printable character is kept while there is room, a backspace removes
  the last one, anything else is ignored.
\<close>

definition ed_step :: "int \<Rightarrow> u8 list \<Rightarrow> u8 \<Rightarrow> u8 list \<times> u8 list" where
  "ed_step max_size acc c =
     (if c = 8 then (butlast acc, if acc = [] then [] else [8, 0x20, 8])
      else if 0x20 \<le> c \<and> c \<le> 0x7e \<and> int (List.length acc) < max_size - 1
      then (acc @ [c], [c])
      else (acc, []))"

fun line_edit :: "int \<Rightarrow> u8 list \<Rightarrow> u8 list \<Rightarrow> (u8 list \<times> u8 list) option" where
  "line_edit max_size acc [] = None"
| "line_edit max_size acc (c # cs) =
     (if c = 13 \<or> c = 10 then Some (acc, [])
      else map_option (\<lambda>(s, out). (s, snd (ed_step max_size acc c) @ out))
        (line_edit max_size (fst (ed_step max_size acc c)) cs))"

text \<open>One turn of the loop on the array is one step of the editor on the text stored so far.\<close>

lemma scan_loop_step:
  assumes "neorv32_uart_getc U m = Some (c, m1)" "c \<noteq> 13" "c \<noteq> 10"
    and "ed_step max_size (take len buf) c = (acc', e)" "len \<le> List.length buf" "int len < max_size"
    and "(if echo then putcs U e m1 else Some m1) = Some m2" "max_size \<le> int (List.length buf)"
  shows "\<exists>buf'. scan_loop U max_size echo buf len m
        = scan_loop U max_size echo buf' (List.length acc') m2
    \<and> take (List.length acc') buf' = acc' \<and> int (List.length acc') < max_size
    \<and> List.length buf' = List.length buf"
proof -
  consider (bs) "c = 8" "len \<noteq> 0" | (bs0) "c = 8" "len = 0"
    | (char) "c \<noteq> 8" "0x20 \<le> c \<and> c \<le> 0x7e \<and> int len < max_size - 1"
    | (skip) "c \<noteq> 8" "\<not> (0x20 \<le> c \<and> c \<le> 0x7e \<and> int len < max_size - 1)" by blast
  then show ?thesis
  proof cases
    case bs
    have "buf \<noteq> []" using bs assms(5) by auto
    moreover have "crlf [8, 0x20, 8] = [8, 0x20, 8]" by simp
    ultimately have p: "(if echo then neorv32_uart_puts U [8, 0x20, 8] m1 else Some m1) = Some m2"
      using assms(4,5,7) bs by (auto simp: ed_step_def puts_putcs simp del: putcs.simps)
    have acc': "acc' = take (len - 1) buf"
      using assms(4,5) bs by (auto simp: ed_step_def butlast_take)
    have "scan_loop U max_size echo buf len m = scan_loop U max_size echo buf (len - 1) m2"
      using bs p by (subst scan_loop.simps) (simp add: assms(1) del: neorv32_uart_puts.simps)
    then show ?thesis using assms(5,6) by (intro exI [of _ buf]) (simp add: acc')
  next
    case bs0
    then have "scan_loop U max_size echo buf len m = scan_loop U max_size echo buf len m2"
      using assms(4,7) by (subst scan_loop.simps) (auto simp: assms(1) ed_step_def split: if_splits)
    then show ?thesis using assms(4-6) bs0 by (intro exI [of _ buf]) (auto simp: ed_step_def)
  next
    case char
    have l: "len < List.length buf" using assms(6,8) by linarith
    have p: "(if echo then neorv32_uart_putc U c m1 else Some m1) = Some m2"
      using assms(4,5,7) char by (auto simp: ed_step_def)
    have acc': "acc' = take len buf @ [c]" using assms(4,5) char by (auto simp: ed_step_def)
    have "scan_loop U max_size echo buf len m
        = scan_loop U max_size echo (buf[len := c]) (len + 1) m2"
      using char l p assms(2,3) by (subst scan_loop.simps) (simp add: assms(1) store_at_def)
    then show ?thesis using char l
      by (intro exI [of _ "buf[len := c]"]) (simp add: acc' take_Suc_conv_app_nth)
  next
    case skip
    then have e: "acc' = take len buf" "e = []" using assms(4,5) by (auto simp: ed_step_def)
    then have "scan_loop U max_size echo buf len m = scan_loop U max_size echo buf len m2"
      using assms(2,3,7) skip by (subst scan_loop.simps) (auto simp: assms(1) split: if_splits)
    then show ?thesis using assms(5,6) by (intro exI [of _ buf]) (simp add: e)
  qed
qed

text \<open>
  A receiver on which the characters \<open>input\<close> arrive; \<open>pos\<close> is the number of them the
  software has taken.
\<close>

locale uart_line = uart_device ok U for ok :: "mach \<Rightarrow> bool" and U :: u32 +
  fixes input :: "u8 list" and pos :: "mach \<Rightarrow> nat"
  assumes pos_tick:
      "ok m \<Longrightarrow> (\<And>v. e \<noteq> Rd (UART_DATA U) v) \<Longrightarrow> (\<And>v. e \<noteq> Wr (UART_CTRL U) v)
       \<Longrightarrow> pos (tick e m) = pos m"
    and rx_ready: "ok m \<Longrightarrow> pos m < List.length input
       \<Longrightarrow> \<exists>n. \<not> rx_empty (rd_val (UART_CTRL U) (rds (UART_CTRL U) n m))"
    and rx_data: "ok m \<Longrightarrow> \<not> rx_empty (rd_val (UART_CTRL U) m) \<Longrightarrow> m1 = snd (rd (UART_CTRL U) m)
       \<Longrightarrow> ucast (rd_val (UART_DATA U) m1) = input ! pos m
           \<and> pos (snd (rd (UART_DATA U) m1)) = Suc (pos m)"
begin

lemma pos_rds: "ok m \<Longrightarrow> pos (rds (UART_CTRL U) n m) = pos m"
proof (induction n arbitrary: m)
  case (Suc n)
  have "pos (snd (rd (UART_CTRL U) m)) = pos m"
    using Suc.prems by (auto simp: rd_def intro: pos_tick)
  with Suc.IH [OF ok_poll [OF Suc.prems]] show ?case by (simp add: rds_Suc)
qed simp

lemma getc_returns:
  assumes "ok m" "pos m < List.length input"
  obtains m' where "neorv32_uart_getc U m = Some (input ! pos m, m')" "ok m'"
    "pos m' = Suc (pos m)" "\<And>l. written l m' = written l m"
proof -
  from rx_ready [OF assms] obtain k where "\<not> rx_empty (rd_val (UART_CTRL U) (rds (UART_CTRL U) k m))"
    by blast
  from poll_ready [where busy = rx_empty, OF this]
  obtain m1 where p: "poll rx_empty (UART_CTRL U) m = Some m1" by blast
  from poll_Some_D [OF p] obtain n where n: "m1 = rds (UART_CTRL U) (Suc n) m"
    "\<not> rx_empty (rd_val (UART_CTRL U) (rds (UART_CTRL U) n m))" by blast
  let ?m0 = "rds (UART_CTRL U) n m"
  have ok0: "ok ?m0" using assms(1) by (rule ok_rds)
  have m1: "m1 = snd (rd (UART_CTRL U) ?m0)" by (simp only: n(1) rds_snoc)
  from rx_data [OF ok0 n(2) m1] pos_rds [OF assms(1)]
  have d: "ucast (rd_val (UART_DATA U) m1) = input ! pos m"
    "pos (snd (rd (UART_DATA U) m1)) = Suc (pos m)" by simp_all
  have "ok m1" unfolding m1 using ok0 by (rule ok_poll)
  then have "ok (snd (rd (UART_DATA U) m1))" by (auto simp: rd_def intro: ok_tick)
  moreover have "neorv32_uart_getc U m = Some (input ! pos m, snd (rd (UART_DATA U) m1))"
    using d(1) by (simp add: neorv32_uart_getc_def p neorv32_uart_char_received_get_def rd_def)
  moreover have "written l (snd (rd (UART_DATA U) m1)) = written l m" for l
    by (simp add: poll_frame [OF p])
  ultimately show ?thesis using d(2) by (intro that)
qed

lemma pos_putcs:
  "ok m \<Longrightarrow> putcs U cs m = Some m' \<Longrightarrow> ok m' \<and> pos m' = pos m"
proof (induction cs arbitrary: m)
  case (Cons c cs)
  from putc_returns [OF Cons.prems(1), of c] obtain m1 where
    m1: "neorv32_uart_putc U c m = Some m1" "ok m1" .
  then obtain m0 where m0: "poll tx_full (UART_CTRL U) m = Some m0"
    "m1 = neorv32_uart_tx_put U c m0"
    by (auto simp: neorv32_uart_putc_def split: Option.bind_splits)
  from poll_Some_D [OF m0(1)] obtain n where n: "m0 = rds (UART_CTRL U) (Suc n) m" by blast
  have "pos m1 = pos m0" unfolding m0(2) neorv32_uart_tx_put_def wr_def
    using ok_rds [OF Cons.prems(1), of "Suc n"] n by (intro pos_tick) auto
  also have "\<dots> = pos m" unfolding n by (rule pos_rds [OF Cons.prems(1)])
  finally show ?case using Cons.IH [OF m1(2)] Cons.prems(2) m1(1) by simp
qed simp

end

context uart_line
begin

lemma scan_loop_returns:
  assumes "ok m" "line_edit max_size (take len buf) (drop (pos m) input) = Some (s, out)"
    and "len \<le> List.length buf" "int len < max_size" "max_size \<le> int (List.length buf)"
  shows "\<exists>buf' m'. scan_loop U max_size echo buf len m = Some (List.length s, buf', m') \<and> ok m'
    \<and> take (List.length s) buf' = s \<and> buf' ! List.length s = 0
    \<and> int (List.length s) < max_size \<and> List.length buf' = List.length buf
    \<and> written (UART_DATA U) m'
        = written (UART_DATA U) m @ map ucast (if echo then out else [])"
  using assms
proof (induction "List.length input - pos m" arbitrary: m buf len out)
  case 0
  then have "drop (pos m) input = []" by simp
  with "0.prems"(2) show ?case by simp
next
  case (Suc k)
  then have pl: "pos m < List.length input" by simp
  let ?c = "input ! pos m"
  obtain m1 where g: "neorv32_uart_getc U m = Some (?c, m1)" and ok1: "ok m1"
    and pos1: "pos m1 = Suc (pos m)" and w1: "\<And>l. written l m1 = written l m"
    using getc_returns [OF Suc.prems(1) pl] by metis
  have d: "drop (pos m) input = ?c # drop (Suc (pos m)) input"
    using pl by (rule Cons_nth_drop_Suc [symmetric])
  have l: "len < List.length buf" using Suc.prems(4,5) by linarith
  show ?case
  proof (cases "?c = 13 \<or> ?c = 10")
    case True
    then have "s = take len buf" "out = []" using Suc.prems(2) by (auto simp: d)
    moreover have "scan_loop U max_size echo buf len m = Some (len, buf[len := 0], m1)"
      using True l by (subst scan_loop.simps) (auto simp: g store_at_def)
    ultimately show ?thesis using Suc.prems(3,4) ok1 w1 l by auto
  next
    case False
    obtain acc' e where st: "ed_step max_size (take len buf) ?c = (acc', e)" by fastforce
    obtain out' where out': "line_edit max_size acc' (drop (Suc (pos m)) input) = Some (s, out')"
      "out = e @ out'" using Suc.prems(2) False st by (auto simp: d)
    obtain m2 where m2: "(if echo then putcs U e m1 else Some m1) = Some m2" "ok m2"
      "pos m2 = Suc (pos m)" "written (UART_DATA U) m2
        = written (UART_DATA U) m @ map ucast (if echo then e else [])"
      using putcs_returns [OF ok1, of e] pos_putcs [OF ok1, of e] ok1 pos1 w1 by (cases echo) auto
    from scan_loop_step [OF g _ _ st Suc.prems(3,4) m2(1) Suc.prems(5)] False
    obtain buf' where b: "scan_loop U max_size echo buf len m
        = scan_loop U max_size echo buf' (List.length acc') m2"
      "take (List.length acc') buf' = acc'" "int (List.length acc') < max_size"
      "List.length buf' = List.length buf" by auto
    have "List.length acc' \<le> List.length buf'" using b(3,4) Suc.prems(5) by linarith
    moreover have "k = List.length input - pos m2" using Suc.hyps(2) m2(3) by simp
    ultimately show ?thesis
      using Suc.hyps(1) [of m2 "List.length acc'" buf' out'] m2 out' b Suc.prems(5)
      by (cases echo) auto
  qed
qed

end

section \<open>The prescaler field\<close>

text \<open>The setup masks the prescaler to two bits although the field has three: at 100 MHz and
300 baud the search selects prescaler 5 with divisor 325, and the word written selects prescaler 1.\<close>

lemma setup_truncates_prescaler:
  "baud_prsc (100000000 div (2 * 300)) 0 = (325, 5)
   \<and> field (uart_ctrl UART_CTRL_PRSC_LSB) 3 (uart_ctrl_word 5 325 0) = 1"
  by (simp add: baud_prsc.simps uart_ctrl_word_def field_def BIT_def)

end
