(* ===== verification/Uart_Rtl.thy ===== *)
theory Uart_Rtl
  imports Uart
begin

text \<open>
  The UART the driver talks to, after \<^verbatim>\<open>rtl/core/neorv32_uart.vhd\<close>: the control register,
  the two FIFOs (cleared while the unit is disabled), the flow monitor and the bus interface.
  The device state is a function of the event log.  The bit timing of the serial engines is
  abstracted to the period with which a frame ends: every \<open>Suc (fst p)\<close> bus events the
  transmitter has sent the character it had started, and the receiver has taken the next one of
  the line.  With hardware flow control the transmitter starts a character only while the other
  side allows it (\<open>snd p n\<close>: CTS is active at the \<open>n\<close>-th event), and the other side does not
  send while the RX FIFO is full.
  The device satisfies what the driver's contracts \<open>uart_device\<close> and \<open>uart_line\<close> ask for.
\<close>

section \<open>State and steps\<close>

record uart_hw =
  u_ctrl :: u32
  u_tx :: "u8 list"
  u_txd :: bool
  u_rx :: "u8 list"
  u_over :: bool
  u_sent :: "u8 list"
  u_line :: "u8 list"
  u_taken :: nat

definition uart_rw_bits :: u32 where
  "uart_rw_bits = 0x00f0fffd"

definition u_en :: "uart_hw \<Rightarrow> bool" where
  "u_en d \<longleftrightarrow> bit (u_ctrl d) (uart_ctrl UART_CTRL_EN)"

definition u_hwfc :: "uart_hw \<Rightarrow> bool" where
  "u_hwfc d \<longleftrightarrow> bit (u_ctrl d) (uart_ctrl UART_CTRL_HWFC_EN)"

definition uart_init :: "u8 list \<Rightarrow> uart_hw" where
  "uart_init line = \<lparr>u_ctrl = 0, u_tx = [], u_txd = False, u_rx = [], u_over = False, u_sent = [],
     u_line = line, u_taken = 0\<rparr>"

text \<open>The bus access of one event.\<close>

definition uart_bus :: "u32 \<Rightarrow> nat \<Rightarrow> event \<Rightarrow> uart_hw \<Rightarrow> uart_hw" where
  "uart_bus U txd e d =
     (case e of
        Wr l v \<Rightarrow>
          if l = UART_CTRL U then d\<lparr>u_ctrl := v AND uart_rw_bits\<rparr>
          else if l = UART_DATA U \<and> u_en d \<and> List.length (u_tx d) < 2 ^ txd
          then d\<lparr>u_tx := u_tx d @ [ucast v]\<rparr>
          else d
      | Rd l v \<Rightarrow>
          if l = UART_DATA U \<and> u_rx d \<noteq> [] then d\<lparr>u_rx := tl (u_rx d), u_taken := Suc (u_taken d)\<rparr>
          else d
      | _ \<Rightarrow> d)"

text \<open>
  The serial engines: the start of a frame, which the CTS line of the other side gates under
  flow control, and the end of a frame in each direction.  \<open>u_txd\<close> says that a frame is on its way.
\<close>

type_synonym uart_time = "nat \<times> (nat \<Rightarrow> bool)"

definition uart_tx_start :: "bool \<Rightarrow> uart_hw \<Rightarrow> uart_hw" where
  "uart_tx_start cts d =
     (if \<not> u_txd d \<and> u_tx d \<noteq> [] \<and> (cts \<or> \<not> u_hwfc d) then d\<lparr>u_txd := True\<rparr> else d)"

definition uart_tx_frame :: "uart_hw \<Rightarrow> uart_hw" where
  "uart_tx_frame d =
     (if u_txd d
      then (case u_tx d of [] \<Rightarrow> d | c # cs \<Rightarrow> d\<lparr>u_txd := False, u_tx := cs, u_sent := u_sent d @ [c]\<rparr>)
      else d)"

definition uart_rx_frame :: "nat \<Rightarrow> uart_hw \<Rightarrow> uart_hw" where
  "uart_rx_frame rxd d =
     (case u_line d of
        [] \<Rightarrow> d
      | c # cs \<Rightarrow>
          if List.length (u_rx d) < 2 ^ rxd then d\<lparr>u_rx := u_rx d @ [c], u_line := cs\<rparr>
          else if u_hwfc d then d
          else d\<lparr>u_over := True, u_line := cs\<rparr>)"

definition uart_cycle :: "uart_time \<Rightarrow> nat \<Rightarrow> nat \<Rightarrow> uart_hw \<Rightarrow> uart_hw" where
  "uart_cycle p rxd n d =
     (if \<not> u_en d then d\<lparr>u_tx := [], u_txd := False, u_rx := [], u_over := False\<rparr>
      else uart_tx_start (snd p n)
        (if n mod Suc (fst p) = 0 then uart_rx_frame rxd (uart_tx_frame d) else d))"

fun uart_state :: "u32 \<Rightarrow> uart_time \<Rightarrow> nat \<Rightarrow> nat \<Rightarrow> u8 list \<Rightarrow> event list \<Rightarrow> uart_hw" where
  "uart_state U p txd rxd line [] = uart_init line"
| "uart_state U p txd rxd line (e # h) =
     uart_cycle p rxd (List.length h) (uart_bus U txd e (uart_state U p txd rxd line h))"

text \<open>A frame every eight events on a line that is always clear to send.\<close>

abbreviation (input) clear_line :: uart_time where
  "clear_line \<equiv> (7, \<lambda>_. True)"

text \<open>Reading the registers; other locations belong to the rest of the system.\<close>

definition flag :: "bool \<Rightarrow> nat \<Rightarrow> u32" where
  "flag b n = (if b then BIT n else 0)"

definition uart_ctrl_read :: "nat \<Rightarrow> nat \<Rightarrow> uart_hw \<Rightarrow> u32" where
  "uart_ctrl_read txd rxd d =
     u_ctrl d
     OR flag (u_rx d \<noteq> []) (uart_ctrl UART_CTRL_RX_NEMPTY)
     OR flag (List.length (u_rx d) \<ge> 2 ^ rxd) (uart_ctrl UART_CTRL_RX_FULL)
     OR flag (u_tx d = []) (uart_ctrl UART_CTRL_TX_EMPTY)
     OR flag (List.length (u_tx d) < 2 ^ txd) (uart_ctrl UART_CTRL_TX_NFULL)
     OR flag (u_over d) (uart_ctrl UART_CTRL_RX_OVER)
     OR flag (u_tx d \<noteq> []) (uart_ctrl UART_CTRL_TX_BUSY)"

definition uart_data_read :: "nat \<Rightarrow> nat \<Rightarrow> uart_hw \<Rightarrow> u32" where
  "uart_data_read txd rxd d =
     ucast (case u_rx d of [] \<Rightarrow> 0 | c # _ \<Rightarrow> c)
     OR push_bit (uart_data UART_DATA_RX_FIFO_SIZE_LSB) (of_nat rxd AND 0xf)
     OR push_bit (uart_data UART_DATA_TX_FIFO_SIZE_LSB) (of_nat txd AND 0xf)"

definition uart_rtl :: "u32 \<Rightarrow> uart_time \<Rightarrow> nat \<Rightarrow> nat \<Rightarrow> u8 list \<Rightarrow> (event list \<Rightarrow> loc \<Rightarrow> u32)
    \<Rightarrow> event list \<Rightarrow> loc \<Rightarrow> u32" where
  "uart_rtl U p txd rxd line rest h l =
     (let d = uart_state U p txd rxd line h
      in if l = UART_CTRL U then uart_ctrl_read txd rxd d
         else if l = UART_DATA U then uart_data_read txd rxd d
         else rest h l)"

section \<open>Facts of one step\<close>

lemma bit_flag [simp]: "bit (flag b n) i \<longleftrightarrow> b \<and> i = n \<and> n < 32"
  by (simp add: flag_def)

lemma u_ctrl_bits: "bit (u_ctrl d AND uart_rw_bits) 16 = False" "bit (u_ctrl d AND uart_rw_bits) 19 = False"
  by (simp_all add: bit_and_iff uart_rw_bits_def)

lemma uart_cycle_ctrl [simp]: "u_ctrl (uart_cycle p rxd n d) = u_ctrl d"
  by (simp add: uart_cycle_def uart_rx_frame_def uart_tx_frame_def uart_tx_start_def split: list.split)

lemma uart_bus_ctrl:
  "(\<And>v. e \<noteq> Wr (UART_CTRL U) v) \<Longrightarrow> u_ctrl (uart_bus U txd e d) = u_ctrl d"
  by (auto simp: uart_bus_def split: event.split)

text \<open>Only the writable bits of the control register are ever stored.\<close>

lemma uart_state_ctrl: "u_ctrl (uart_state U p txd rxd line h) AND uart_rw_bits
    = u_ctrl (uart_state U p txd rxd line h)"
proof (induction h)
  case Nil
  show ?case by (simp add: uart_init_def)
next
  case (Cons e h)
  then show ?case by (cases e) (auto simp: uart_bus_def and.assoc)
qed

lemma uart_state_status_bits:
  "\<not> bit (u_ctrl (uart_state U p txd rxd line h)) 16"
  "\<not> bit (u_ctrl (uart_state U p txd rxd line h)) 19"
  using u_ctrl_bits [of "uart_state U p txd rxd line h"] by (simp_all add: uart_state_ctrl)

section \<open>The contract\<close>

text \<open>
  Enabled, and no character is lost: what the software has taken, the RX FIFO and the line make
  up the input, and either flow control is on or the FIFO has room for all that still comes.  Under
  flow control the other side allows sending again and again.
\<close>

definition u_lossless :: "nat \<Rightarrow> uart_hw \<Rightarrow> bool" where
  "u_lossless rxd d \<longleftrightarrow> u_hwfc d \<or> List.length (u_rx d) + List.length (u_line d) \<le> 2 ^ rxd"

definition uart_ok :: "uart_time \<Rightarrow> nat \<Rightarrow> nat \<Rightarrow> (event list \<Rightarrow> loc \<Rightarrow> u32) \<Rightarrow> u32 \<Rightarrow> u8 list \<Rightarrow> mach \<Rightarrow> bool" where
  "uart_ok p txd rxd rest U input m \<longleftrightarrow>
     hw m = uart_rtl U p txd rxd input rest
     \<and> (let d = uart_state U p txd rxd input (log m)
        in u_en d \<and> (u_hwfc d \<longrightarrow> (\<forall>n. \<exists>k\<ge>n. snd p k)) \<and> u_lossless rxd d \<and> u_rx d @ u_line d = drop (u_taken d) input
           \<and> u_taken d \<le> List.length input)"

definition uart_pos :: "uart_time \<Rightarrow> nat \<Rightarrow> nat \<Rightarrow> u32 \<Rightarrow> u8 list \<Rightarrow> mach \<Rightarrow> nat" where
  "uart_pos p txd rxd U input m = u_taken (uart_state U p txd rxd input (log m))"

lemma uart_cycle_en:
  assumes "u_en d"
  shows "uart_cycle p rxd n d = uart_tx_start (snd p n)
    (if n mod Suc (fst p) = 0 then uart_rx_frame rxd (uart_tx_frame d) else d)"
  using assms by (simp add: uart_cycle_def)

lemma uart_rx_frame_stream:
  assumes "u_lossless rxd d"
  shows "u_rx (uart_rx_frame rxd d) @ u_line (uart_rx_frame rxd d) = u_rx d @ u_line d"
    and "u_taken (uart_rx_frame rxd d) = u_taken d"
    and "u_rx d \<noteq> [] \<Longrightarrow> hd (u_rx (uart_rx_frame rxd d)) = hd (u_rx d)"
    and "u_rx d \<noteq> [] \<Longrightarrow> u_rx (uart_rx_frame rxd d) \<noteq> []"
    and "u_line d \<noteq> [] \<Longrightarrow> u_rx (uart_rx_frame rxd d) \<noteq> []"
    and "u_lossless rxd (uart_rx_frame rxd d)"
  using assms by (auto simp: uart_rx_frame_def u_lossless_def u_hwfc_def split: list.split)

lemma uart_tx_frame_rx [simp]:
  "u_rx (uart_tx_frame d) = u_rx d" "u_line (uart_tx_frame d) = u_line d"
  "u_taken (uart_tx_frame d) = u_taken d" "u_hwfc (uart_tx_frame d) = u_hwfc d"
  "u_en (uart_tx_frame d) = u_en d"
  by (simp_all add: uart_tx_frame_def u_hwfc_def u_en_def split: list.split)

lemma uart_tx_start_same [simp]:
  "u_rx (uart_tx_start c d) = u_rx d" "u_line (uart_tx_start c d) = u_line d"
  "u_taken (uart_tx_start c d) = u_taken d" "u_hwfc (uart_tx_start c d) = u_hwfc d"
  "u_tx (uart_tx_start c d) = u_tx d" "u_sent (uart_tx_start c d) = u_sent d"
  by (simp_all add: uart_tx_start_def u_hwfc_def)

lemma u_lossless_tx [simp]:
  "u_lossless rxd (uart_tx_frame d) = u_lossless rxd d" "u_lossless rxd (uart_tx_start c d) = u_lossless rxd d"
  by (simp_all add: u_lossless_def)

lemma uart_cycle_stream:
  assumes "u_en d" "u_lossless rxd d"
  shows "u_rx (uart_cycle p rxd n d) @ u_line (uart_cycle p rxd n d) = u_rx d @ u_line d"
    and "u_taken (uart_cycle p rxd n d) = u_taken d"
    and "u_rx d \<noteq> [] \<Longrightarrow> hd (u_rx (uart_cycle p rxd n d)) = hd (u_rx d)"
    and "u_rx d \<noteq> [] \<Longrightarrow> u_rx (uart_cycle p rxd n d) \<noteq> []"
    and "u_line d \<noteq> [] \<Longrightarrow> n mod Suc (fst p) = 0 \<Longrightarrow> u_rx (uart_cycle p rxd n d) \<noteq> []"
    and "u_lossless rxd (uart_cycle p rxd n d)"
  using assms uart_rx_frame_stream [of rxd "uart_tx_frame d"] by (simp_all add: uart_cycle_en)

lemma uart_bus_en:
  assumes "\<And>v. e \<noteq> Wr (UART_CTRL U) v"
  shows "u_en (uart_bus U txd e d) = u_en d"
    and "u_lossless rxd d \<Longrightarrow> u_lossless rxd (uart_bus U txd e d)"
proof -
  show "u_en (uart_bus U txd e d) = u_en d" using uart_bus_ctrl [OF assms] by (simp add: u_en_def)
  have "List.length (u_rx (uart_bus U txd e d)) \<le> List.length (u_rx d)"
    "u_line (uart_bus U txd e d) = u_line d" by (simp_all add: uart_bus_def split: event.split)
  then show "u_lossless rxd d \<Longrightarrow> u_lossless rxd (uart_bus U txd e d)"
    using uart_bus_ctrl [OF assms] by (auto simp: u_lossless_def u_hwfc_def)
qed

lemma uart_bus_stream:
  assumes "\<And>v. e \<noteq> Wr (UART_CTRL U) v" "u_rx d @ u_line d = drop (u_taken d) input"
    and "u_taken d \<le> List.length input"
  shows "u_rx (uart_bus U txd e d) @ u_line (uart_bus U txd e d)
      = drop (u_taken (uart_bus U txd e d)) input"
    and "u_taken (uart_bus U txd e d) \<le> List.length input"
proof -
  have "tl (u_rx d) @ u_line d = drop (Suc (u_taken d)) input" "Suc (u_taken d) \<le> List.length input"
    if "u_rx d \<noteq> []"
  proof -
    show "tl (u_rx d) @ u_line d = drop (Suc (u_taken d)) input"
      using assms(2) that by (metis drop_Suc tl_append2 tl_drop)
    have "drop (u_taken d) input \<noteq> []" using that by (simp add: assms(2) [symmetric])
    then show "Suc (u_taken d) \<le> List.length input" by simp
  qed
  then show "u_rx (uart_bus U txd e d) @ u_line (uart_bus U txd e d)
      = drop (u_taken (uart_bus U txd e d)) input"
    and "u_taken (uart_bus U txd e d) \<le> List.length input"
    using assms by (auto simp: uart_bus_def split: event.split)
qed

section \<open>The device meets the driver's contracts\<close>

lemma uart_ctrl_read_flags:
  assumes "d = uart_state U p txd rxd line h"
  shows "rx_empty (uart_ctrl_read txd rxd d) \<longleftrightarrow> u_rx d = []"
    and "tx_full (uart_ctrl_read txd rxd d) \<longleftrightarrow> 2 ^ txd \<le> List.length (u_tx d)"
  using uart_state_status_bits [of U p txd rxd line h]
  by (simp_all add: assms rx_empty_def tx_full_def uart_ctrl_read_def bit_or_iff not_less)

lemma uart_data_read_byte:
  "u_rx d \<noteq> [] \<Longrightarrow> ucast (uart_data_read txd rxd d) = hd (u_rx d)"
  by (rule bit_word_eqI)
    (auto simp: uart_data_read_def bit_simps split: list.split dest: bit_imp_le_length)

abbreviation (input) st :: "uart_time \<Rightarrow> nat \<Rightarrow> nat \<Rightarrow> u32 \<Rightarrow> u8 list \<Rightarrow> mach \<Rightarrow> uart_hw" where
  "st p txd rxd U input m \<equiv> uart_state U p txd rxd input (log m)"

lemma ok_rd_val:
  assumes "uart_ok p txd rxd rest U input m"
  shows "rx_empty (rd_val (UART_CTRL U) m) \<longleftrightarrow> u_rx (st p txd rxd U input m) = []"
    and "tx_full (rd_val (UART_CTRL U) m) \<longleftrightarrow> 2 ^ txd \<le> List.length (u_tx (st p txd rxd U input m))"
    and "u_rx (st p txd rxd U input m) \<noteq> [] \<Longrightarrow> ucast (rd_val (UART_DATA U) m) = hd (u_rx (st p txd rxd U input m))"
  using assms uart_ctrl_read_flags [OF refl, of txd rxd U p input "log m"]
  by (simp_all add: uart_ok_def rd_val_def uart_rtl_def Let_def uart_data_read_byte)

lemma ok_tick_rtl:
  assumes "uart_ok p txd rxd rest U input m" "\<And>v. e \<noteq> Wr (UART_CTRL U) v"
  shows "uart_ok p txd rxd rest U input (tick e m)"
proof -
  let ?d = "uart_bus U txd e (st p txd rxd U input m)"
  have d: "u_en ?d" "u_lossless rxd ?d" "u_rx ?d @ u_line ?d = drop (u_taken ?d) input"
    "u_taken ?d \<le> List.length input"
    using assms(1) uart_bus_en [OF assms(2)] uart_bus_stream [OF assms(2), of "st p txd rxd U input m" input]
    by (simp_all add: uart_ok_def Let_def)
  have "u_en (uart_cycle p rxd n ?d) = u_en ?d" "u_hwfc (uart_cycle p rxd n ?d) = u_hwfc ?d" for n
    by (simp_all add: u_en_def u_hwfc_def)
  moreover have "u_hwfc ?d = u_hwfc (st p txd rxd U input m)"
    using uart_bus_ctrl [OF assms(2)] by (simp add: u_hwfc_def)
  ultimately show ?thesis using d uart_cycle_stream [OF d(1,2)] assms(1)
    by (simp add: uart_ok_def Let_def)
qed

lemma st_rd_ctrl: "st p txd rxd U input (snd (rd (UART_CTRL U) m)) = uart_cycle p rxd (List.length (log m)) (st p txd rxd U input m)"
  by (simp add: rd_def uart_bus_def)

lemma ok_rds_rtl:
  assumes "uart_ok p txd rxd rest U input m"
  shows "uart_ok p txd rxd rest U input (rds (UART_CTRL U) n m)"
proof (induction n)
  case (Suc n)
  then show ?case unfolding rds_snoc by (auto simp: rd_def intro: ok_tick_rtl)
qed (simp add: assms)

lemma slot_again: "\<exists>i\<ge>k. (l + i) mod Suc p = 0"
proof (intro exI conjI)
  have "l + (p * (l + k) + k) = Suc p * (l + k)" by simp
  then show "(l + (p * (l + k) + k)) mod Suc p = 0" by (simp only: mod_mult_self1_is_0)
qed simp

text \<open>A frame under way stays so until its end, and a character waiting is started in the end.\<close>

lemma uart_cycle_tx:
  assumes "u_en d" "u_tx d \<noteq> []"
  shows "List.length (u_tx (uart_cycle p rxd n d)) < List.length (u_tx d)
      \<or> u_tx (uart_cycle p rxd n d) = u_tx d \<and> (u_txd d \<longrightarrow> u_txd (uart_cycle p rxd n d))"
    and "u_txd d \<Longrightarrow> n mod Suc (fst p) = 0 \<Longrightarrow> List.length (u_tx (uart_cycle p rxd n d)) < List.length (u_tx d)"
    and "snd p n \<or> \<not> u_hwfc d \<Longrightarrow> List.length (u_tx (uart_cycle p rxd n d)) < List.length (u_tx d)
      \<or> u_txd (uart_cycle p rxd n d)"
  using assms
  by (auto simp: uart_cycle_en uart_rx_frame_def uart_tx_frame_def uart_tx_start_def u_hwfc_def split: list.split)

lemma tx_fifo_shrinks:
  assumes ok: "uart_ok p txd rxd rest U input m" and ne: "u_tx (st p txd rxd U input m) \<noteq> []"
  shows "\<exists>n. List.length (u_tx (st p txd rxd U input (rds (UART_CTRL U) n m)))
    < List.length (u_tx (st p txd rxd U input m))"
proof (rule ccontr)
  let ?d = "\<lambda>i. st p txd rxd U input (rds (UART_CTRL U) i m)" and ?l = "List.length (log m)"
  assume "\<not> ?thesis"
  then have n: "\<not> List.length (u_tx (?d i)) < List.length (u_tx (st p txd rxd U input m))" for i by blast
  have suc: "?d (Suc i) = uart_cycle p rxd (?l + i) (?d i)" for i
    by (simp only: rds_snoc st_rd_ctrl length_log_rds)
  have en: "u_en (?d i)" "u_hwfc (?d i) \<longrightarrow> (\<forall>n. \<exists>k\<ge>n. snd p k)" for i
    using ok_rds_rtl [OF ok, of i] by (simp_all add: uart_ok_def Let_def)
  have same: "u_tx (?d i) = u_tx (st p txd rxd U input m)" for i
  proof (induction i)
    case (Suc i)
    then show ?case using uart_cycle_tx(1) [OF en(1) [of i], of p rxd "?l + i"] n [of "Suc i"] ne
      unfolding suc by simp
  qed simp
  then have ne': "u_tx (?d i) \<noteq> []" for i using ne by simp
  obtain k where k: "snd p (?l + k) \<or> \<not> u_hwfc (?d k)"
  proof (cases "\<exists>k. \<not> u_hwfc (?d k)")
    case False
    then obtain j where "j \<ge> ?l" "snd p j" using en(2) [of 0] by blast
    then show thesis using that [of "j - ?l"] by simp
  qed (blast intro: that)
  have keep: "u_txd (?d i) \<Longrightarrow> u_txd (?d (Suc i))" for i
    using uart_cycle_tx(1) [OF en(1) [of i] ne' [of i], of p rxd "?l + i"] n [of "Suc i"] same [of i]
    unfolding suc by simp
  have busy: "u_txd (?d (Suc k + i))" for i
  proof (induction i)
    case 0
    show ?case using uart_cycle_tx(3) [OF en(1) ne' k, of rxd] n [of "Suc k"] same [of k]
      by (simp only: suc add_0_right) simp
  next
    case (Suc i)
    show ?case unfolding add_Suc_right by (rule keep [OF Suc.IH])
  qed
  obtain s where s: "Suc k \<le> s" "(?l + s) mod Suc (fst p) = 0" using slot_again [of "Suc k" ?l "fst p"] by (elim exE conjE)
  have "u_txd (?d s)" using busy [of "s - Suc k"] s(1) by simp
  from uart_cycle_tx(2) [OF en(1) ne' this s(2), of rxd] show False
    using n [of "Suc s"] same [of s] by (simp only: suc) simp
qed

lemma tx_ready_rtl:
  assumes "uart_ok p txd rxd rest U input m"
  shows "\<exists>n. \<not> tx_full (rd_val (UART_CTRL U) (rds (UART_CTRL U) n m))"
  using assms
proof (induction "List.length (u_tx (st p txd rxd U input m))" arbitrary: m rule: less_induct)
  case less
  have okr: "uart_ok p txd rxd rest U input (rds (UART_CTRL U) n m)" for n
    using less.prems by (rule ok_rds_rtl)
  show ?case
  proof (cases "u_tx (st p txd rxd U input m) = []")
    case True
    then have "\<not> tx_full (rd_val (UART_CTRL U) (rds (UART_CTRL U) 0 m))"
      using ok_rd_val(2) [OF less.prems] by simp
    then show ?thesis by blast
  next
    case False
    from tx_fifo_shrinks [OF less.prems this] obtain n where
      "List.length (u_tx (st p txd rxd U input (rds (UART_CTRL U) n m))) < List.length (u_tx (st p txd rxd U input m))" ..
    from less.hyps [OF this okr] obtain k
      where "\<not> tx_full (rd_val (UART_CTRL U) (rds (UART_CTRL U) k (rds (UART_CTRL U) n m)))" by blast
    moreover have "rds l k (rds l n m) = rds l (n + k) m" for l
      by (simp add: rds_add)
    ultimately show ?thesis by metis
  qed
qed

lemma rx_ready_rtl:
  assumes "uart_ok p txd rxd rest U input m" "uart_pos p txd rxd U input m < List.length input"
  shows "\<exists>n. \<not> rx_empty (rd_val (UART_CTRL U) (rds (UART_CTRL U) n m))"
proof -
  let ?d = "\<lambda>i. st p txd rxd U input (rds (UART_CTRL U) i m)" and ?l = "List.length (log m)"
  have okr: "uart_ok p txd rxd rest U input (rds (UART_CTRL U) n m)" for n
    using assms(1) by (rule ok_rds_rtl)
  have suc: "?d (Suc i) = uart_cycle p rxd (?l + i) (?d i)" for i
    by (simp only: rds_snoc st_rd_ctrl length_log_rds)
  have ok: "u_en (?d i)" "u_lossless rxd (?d i)" "u_rx (?d i) @ u_line (?d i) = drop (u_taken (?d i)) input" for i
    using okr [of i] by (simp_all add: uart_ok_def Let_def)
  have "u_taken (?d i) = u_taken (?d 0)" for i
  proof (induction i)
    case (Suc i)
    then show ?case unfolding suc using uart_cycle_stream(2) [OF ok(1,2)] by simp
  qed simp
  then have ne: "u_rx (?d i) @ u_line (?d i) \<noteq> []" for i
    using assms(2) ok(3) [of i] by (simp add: uart_pos_def)
  obtain k where k: "(?l + k) mod Suc (fst p) = 0" using slot_again [of 0 ?l "fst p"] by (elim exE conjE)
  have "u_rx (?d (Suc k)) \<noteq> []"
    unfolding suc using uart_cycle_stream(4,5) [OF ok(1,2)] ne [of k] k by (cases "u_rx (?d k) = []") simp_all
  with ok_rd_val(1) [OF okr] show ?thesis by blast
qed

lemma rx_data_rtl:
  assumes "uart_ok p txd rxd rest U input m" "\<not> rx_empty (rd_val (UART_CTRL U) m)" "m1 = snd (rd (UART_CTRL U) m)"
  shows "ucast (rd_val (UART_DATA U) m1) = input ! uart_pos p txd rxd U input m
    \<and> uart_pos p txd rxd U input (snd (rd (UART_DATA U) m1)) = Suc (uart_pos p txd rxd U input m)"
proof -
  from assms(2) ok_rd_val(1) [OF assms(1)] have rx: "u_rx (st p txd rxd U input m) \<noteq> []" by simp
  have s: "u_en (st p txd rxd U input m)" "u_lossless rxd (st p txd rxd U input m)" "u_rx (st p txd rxd U input m) @ u_line (st p txd rxd U input m) = drop (u_taken (st p txd rxd U input m)) input"
    using assms(1) by (simp_all add: uart_ok_def Let_def)
  have ok1: "uart_ok p txd rxd rest U input m1" using assms(1) by (auto simp: assms(3) rd_def intro: ok_tick_rtl)
  have st1: "st p txd rxd U input m1 = uart_cycle p rxd (List.length (log m)) (st p txd rxd U input m)"
    by (simp only: assms(3) st_rd_ctrl)
  note c = uart_cycle_stream(1-4) [OF s(1,2), of p "List.length (log m)"]
  have h: "hd (u_rx (st p txd rxd U input m)) = input ! u_taken (st p txd rxd U input m)"
    using s(3) rx by (metis append_is_Nil_conv drop_eq_Nil2 hd_append2 hd_drop_conv_nth not_le)
  have "ucast (rd_val (UART_DATA U) m1) = input ! u_taken (st p txd rxd U input m)"
    using ok_rd_val(3) [OF ok1] c(3,4) rx h by (simp add: st1)
  moreover have "u_taken (st p txd rxd U input (snd (rd (UART_DATA U) m1))) = Suc (u_taken (st p txd rxd U input m))"
  proof -
    let ?d = "uart_bus U txd (Rd (UART_DATA U) (rd_val (UART_DATA U) m1)) (st p txd rxd U input m1)"
    have "u_taken ?d = Suc (u_taken (st p txd rxd U input m))"
      using c(2,4) rx by (simp add: uart_bus_def st1)
    moreover have "u_en ?d" "u_lossless rxd ?d"
      using ok1 uart_bus_en [of "Rd (UART_DATA U) (rd_val (UART_DATA U) m1)" U] by (simp_all add: uart_ok_def Let_def)
    ultimately show ?thesis by (simp add: rd_def uart_cycle_stream(2))
  qed
  ultimately show ?thesis by (simp add: uart_pos_def)
qed

lemma pos_tick_rtl:
  assumes "uart_ok p txd rxd rest U input m" "\<And>v. e \<noteq> Rd (UART_DATA U) v" "\<And>v. e \<noteq> Wr (UART_CTRL U) v"
  shows "uart_pos p txd rxd U input (tick e m) = uart_pos p txd rxd U input m"
proof -
  let ?d = "uart_bus U txd e (st p txd rxd U input m)"
  have "u_en ?d" "u_lossless rxd ?d" using assms(1) uart_bus_en [OF assms(3)]
    by (simp_all add: uart_ok_def Let_def)
  moreover have "u_taken ?d = u_taken (st p txd rxd U input m)"
    using assms(2) by (auto simp: uart_bus_def split: event.split)
  ultimately show ?thesis by (simp add: uart_pos_def uart_cycle_stream(2))
qed

interpretation uart_tx_hw: uart_device "uart_ok p txd rxd rest U input" U
  by unfold_locales (auto intro: ok_tick_rtl tx_ready_rtl)

interpretation uart_rx_hw: uart_line "uart_ok p txd rxd rest U input" U input
    "uart_pos p txd rxd U input"
proof unfold_locales
  fix m m1
  assume "uart_ok p txd rxd rest U input m" "\<not> rx_empty (rd_val (UART_CTRL U) m)"
    "m1 = snd (rd (UART_CTRL U) m)"
  then show "ucast (rd_val (UART_DATA U) m1) = input ! uart_pos p txd rxd U input m
    \<and> uart_pos p txd rxd U input (snd (rd (UART_DATA U) m1)) = Suc (uart_pos p txd rxd U input m)"
    by (rule rx_data_rtl)
qed (auto intro: pos_tick_rtl rx_ready_rtl)

section \<open>No character sent is lost\<close>

text \<open>The characters handed to the unit: those on the line and those still in the FIFO.\<close>

definition uart_out :: "uart_hw \<Rightarrow> u8 list" where
  "uart_out d = u_sent d @ u_tx d"

lemma uart_cycle_out:
  assumes "u_en d"
  shows "uart_out (uart_cycle p rxd n d) = uart_out d"
    and "List.length (u_tx (uart_cycle p rxd n d)) \<le> List.length (u_tx d)"
  using assms
  by (simp_all add: uart_cycle_en uart_out_def uart_rx_frame_def uart_tx_frame_def uart_tx_start_def split: list.split)

lemma uart_bus_out:
  "(\<And>v. e \<noteq> Wr (UART_DATA U) v) \<Longrightarrow> uart_out (uart_bus U txd e d) = uart_out d"
  by (auto simp: uart_bus_def uart_out_def split: event.split)

lemma uart_out_tick:
  assumes "uart_ok p txd rxd rest U input m" "\<And>v. e \<noteq> Wr (UART_CTRL U) v"
    "\<And>v. e \<noteq> Wr (UART_DATA U) v"
  shows "uart_out (st p txd rxd U input (tick e m)) = uart_out (st p txd rxd U input m)"
  using assms uart_bus_en(1) [OF assms(2)] uart_bus_out [OF assms(3)]
  by (simp add: uart_ok_def Let_def uart_cycle_out)

lemma uart_out_rds:
  assumes "uart_ok p txd rxd rest U input m"
  shows "uart_out (st p txd rxd U input (rds (UART_CTRL U) n m)) = uart_out (st p txd rxd U input m)"
proof (induction n)
  case (Suc n)
  have "uart_out (st p txd rxd U input (snd (rd (UART_CTRL U) (rds (UART_CTRL U) n m))))
      = uart_out (st p txd rxd U input (rds (UART_CTRL U) n m))"
    using uart_out_tick [OF ok_rds_rtl [OF assms]] by (simp add: rd_def)
  with Suc.IH show ?case by (simp only: rds_snoc)
qed simp

lemma putc_out:
  assumes "uart_ok p txd rxd rest U input m" "neorv32_uart_putc U c m = Some m'"
  shows "uart_ok p txd rxd rest U input m'
    \<and> uart_out (st p txd rxd U input m') = uart_out (st p txd rxd U input m) @ [c]"
proof -
  from assms(2) obtain m1 where m1: "poll tx_full (UART_CTRL U) m = Some m1"
    "m' = neorv32_uart_tx_put U c m1"
    by (auto simp: neorv32_uart_putc_def split: Option.bind_splits)
  from poll_Some_D [OF m1(1)] obtain n where n: "m1 = rds (UART_CTRL U) (Suc n) m"
    "\<not> tx_full (rd_val (UART_CTRL U) (rds (UART_CTRL U) n m))" by blast
  let ?m0 = "rds (UART_CTRL U) n m" and ?d = "st p txd rxd U input m1"
  have ok0: "uart_ok p txd rxd rest U input ?m0" using assms(1) by (rule ok_rds_rtl)
  have ok1: "uart_ok p txd rxd rest U input m1" unfolding n(1) using assms(1) by (rule ok_rds_rtl)
  have "u_en (st p txd rxd U input ?m0)" using ok0 by (simp add: uart_ok_def Let_def)
  moreover have "?d = uart_cycle p rxd (List.length (log ?m0)) (st p txd rxd U input ?m0)"
    by (simp only: n(1) rds_snoc st_rd_ctrl)
  ultimately have "List.length (u_tx ?d) < 2 ^ txd"
    using uart_cycle_out(2) [of "st p txd rxd U input ?m0" p rxd "List.length (log ?m0)"]
      ok_rd_val(2) [OF ok0] n(2) by simp
  moreover have "u_en ?d" using ok1 by (simp add: uart_ok_def Let_def)
  moreover have "uart_ok p txd rxd rest U input m'"
    unfolding m1(2) neorv32_uart_tx_put_def wr_def using ok1 by (rule ok_tick_rtl) simp
  moreover have out: "uart_out ?d = uart_out (st p txd rxd U input m)"
    unfolding n(1) by (rule uart_out_rds [OF assms(1)])
  let ?e = "uart_bus U txd (Wr (UART_DATA U) (ucast c)) ?d"
  have e: "u_en ?e" "uart_out ?e = uart_out ?d @ [c]"
    using \<open>List.length (u_tx ?d) < 2 ^ txd\<close> \<open>u_en ?d\<close>
    by (simp_all add: uart_bus_def uart_out_def u_en_def)
  have "st p txd rxd U input m' = uart_cycle p rxd (List.length (log m1)) ?e"
    by (simp add: m1(2) neorv32_uart_tx_put_def wr_def)
  then have "uart_out (st p txd rxd U input m') = uart_out (st p txd rxd U input m) @ [c]"
    using uart_cycle_out(1) [OF e(1)] e(2) out by simp
  ultimately show ?thesis by blast
qed

lemma putcs_out:
  "uart_ok p txd rxd rest U input m \<Longrightarrow> putcs U cs m = Some m' \<Longrightarrow>
   uart_ok p txd rxd rest U input m'
   \<and> uart_out (st p txd rxd U input m') = uart_out (st p txd rxd U input m) @ cs"
proof (induction cs arbitrary: m)
  case (Cons c cs)
  then obtain m1 where "neorv32_uart_putc U c m = Some m1" "putcs U cs m1 = Some m'"
    by (auto split: Option.bind_splits)
  with putc_out [OF Cons.prems(1)] Cons.IH [of m1] show ?case by auto
qed simp

end
