(* ===== verification/Gpio.thy ===== *)
theory Gpio
  imports Sysinfo
begin

text \<open>
  The GPIO driver, \<^verbatim>\<open>sw/lib/source/neorv32_gpio.c\<close>, and the interrupt-pending register of
  \<^verbatim>\<open>rtl/core/neorv32_gpio.vhd\<close>, against which acknowledging an interrupt is checked: the
  driver reads the register, clears the acknowledged bits and writes the rest back, and the
  hardware drops every bit written as zero.
\<close>

section \<open>Registers\<close>

definition GPIO_PORT_IN :: loc where "GPIO_PORT_IN = Mem W32 NEORV32_GPIO_BASE"
definition GPIO_PORT_OUT :: loc where "GPIO_PORT_OUT = Mem W32 (NEORV32_GPIO_BASE + 4)"
definition GPIO_PORT_DIR :: loc where "GPIO_PORT_DIR = Mem W32 (NEORV32_GPIO_BASE + 8)"
definition GPIO_IRQ_TYPE :: loc where "GPIO_IRQ_TYPE = Mem W32 (NEORV32_GPIO_BASE + 16)"
definition GPIO_IRQ_POLARITY :: loc where "GPIO_IRQ_POLARITY = Mem W32 (NEORV32_GPIO_BASE + 20)"
definition GPIO_IRQ_ENABLE :: loc where "GPIO_IRQ_ENABLE = Mem W32 (NEORV32_GPIO_BASE + 24)"
definition GPIO_IRQ_PENDING :: loc where "GPIO_IRQ_PENDING = Mem W32 (NEORV32_GPIO_BASE + 28)"

lemmas gpio_regs = GPIO_PORT_IN_def GPIO_PORT_OUT_def GPIO_PORT_DIR_def GPIO_IRQ_TYPE_def
  GPIO_IRQ_POLARITY_def GPIO_IRQ_ENABLE_def GPIO_IRQ_PENDING_def NEORV32_GPIO_BASE_def

datatype gpio_trigger =
    GPIO_TRIG_LEVEL_LOW
  | GPIO_TRIG_LEVEL_HIGH
  | GPIO_TRIG_EDGE_FALLING
  | GPIO_TRIG_EDGE_RISING

section \<open>Driver\<close>

definition neorv32_gpio_available :: "mach \<Rightarrow> u32 \<times> mach" where
  "neorv32_gpio_available m = soc_test SYSINFO_SOC_IO_GPIO m"

definition neorv32_gpio_pin_set :: "u32 \<Rightarrow> u32 \<Rightarrow> mach \<Rightarrow> mach" where
  "neorv32_gpio_pin_set pin value m =
     (let mask = shl32 1 pin
      in if value \<noteq> 0 then MMREG32_BSET GPIO_PORT_OUT mask m
         else MMREG32_BCLR GPIO_PORT_OUT mask m)"

definition neorv32_gpio_pin_toggle :: "u32 \<Rightarrow> mach \<Rightarrow> mach" where
  "neorv32_gpio_pin_toggle pin m = MMREG32_BINV GPIO_PORT_OUT (shl32 1 pin) m"

definition neorv32_gpio_pin_get :: "u32 \<Rightarrow> mach \<Rightarrow> u32 \<times> mach" where
  "neorv32_gpio_pin_get pin m = (let (v, m) = rd GPIO_PORT_IN m in (v AND shl32 1 pin, m))"

definition neorv32_gpio_port_set :: "u32 \<Rightarrow> mach \<Rightarrow> mach" where
  "neorv32_gpio_port_set pin_mask m = wr GPIO_PORT_OUT pin_mask m"

definition neorv32_gpio_port_toggle :: "u32 \<Rightarrow> mach \<Rightarrow> mach" where
  "neorv32_gpio_port_toggle pin_mask m = MMREG32_BINV GPIO_PORT_OUT pin_mask m"

definition neorv32_gpio_port_get :: "mach \<Rightarrow> u32 \<times> mach" where
  "neorv32_gpio_port_get m = rd GPIO_PORT_IN m"

definition neorv32_gpio_dir_set :: "u32 \<Rightarrow> mach \<Rightarrow> mach" where
  "neorv32_gpio_dir_set pin_mask m = wr GPIO_PORT_DIR pin_mask m"

definition neorv32_gpio_dir_get :: "mach \<Rightarrow> u32 \<times> mach" where
  "neorv32_gpio_dir_get m = rd GPIO_PORT_DIR m"

definition neorv32_gpio_irq_setup :: "u32 \<Rightarrow> gpio_trigger \<Rightarrow> mach \<Rightarrow> mach" where
  "neorv32_gpio_irq_setup pin trigger m =
     (let mask = shl32 1 pin;
          m = (if trigger = GPIO_TRIG_EDGE_FALLING \<or> trigger = GPIO_TRIG_EDGE_RISING
               then MMREG32_BSET GPIO_IRQ_TYPE mask m
               else MMREG32_BCLR GPIO_IRQ_TYPE mask m)
      in if trigger = GPIO_TRIG_EDGE_RISING \<or> trigger = GPIO_TRIG_LEVEL_HIGH
         then MMREG32_BSET GPIO_IRQ_POLARITY mask m
         else MMREG32_BCLR GPIO_IRQ_POLARITY mask m)"

definition neorv32_gpio_irq_enable :: "u32 \<Rightarrow> mach \<Rightarrow> mach" where
  "neorv32_gpio_irq_enable pin_mask m = MMREG32_BSET GPIO_IRQ_ENABLE pin_mask m"

definition neorv32_gpio_irq_disable :: "u32 \<Rightarrow> mach \<Rightarrow> mach" where
  "neorv32_gpio_irq_disable pin_mask m = MMREG32_BCLR GPIO_IRQ_ENABLE pin_mask m"

definition neorv32_gpio_irq_get :: "mach \<Rightarrow> u32 \<times> mach" where
  "neorv32_gpio_irq_get m = rd GPIO_IRQ_PENDING m"

definition neorv32_gpio_irq_clr :: "u32 \<Rightarrow> mach \<Rightarrow> mach" where
  "neorv32_gpio_irq_clr clr_mask m = MMREG32_BCLR GPIO_IRQ_PENDING clr_mask m"

section \<open>The output port\<close>

text \<open>\<^verbatim>\<open>pin_set\<close> writes the port back with one pin changed.\<close>

lemma pin_set_written:
  "\<exists>w. written GPIO_PORT_OUT (neorv32_gpio_pin_set pin value m) = written GPIO_PORT_OUT m @ [w]
    \<and> (\<forall>i. bit w i \<longleftrightarrow> (if i = unat (pin AND 31) then value \<noteq> 0 else bit (rd_val GPIO_PORT_OUT m) i))"
proof (cases "value \<noteq> 0")
  case True
  then show ?thesis
    by (auto simp: neorv32_gpio_pin_set_def MMREG32_BSET_def rd_def bit_or_iff bit_shl32_1)
next
  case False
  then show ?thesis
    by (auto simp: neorv32_gpio_pin_set_def MMREG32_BCLR_def rd_def bit_and_iff bit_not_iff
        bit_shl32_1 dest: bit_imp_le_length)
qed

section \<open>The trigger configuration\<close>

text \<open>
  The four triggers get the four combinations of the pin's type and polarity bit, as the
  enumeration numbers them: polarity in bit 0, type in bit 1.
\<close>

definition gpio_trigger_code :: "gpio_trigger \<Rightarrow> nat" where
  "gpio_trigger_code t =
     (case t of GPIO_TRIG_LEVEL_LOW \<Rightarrow> 0 | GPIO_TRIG_LEVEL_HIGH \<Rightarrow> 1
      | GPIO_TRIG_EDGE_FALLING \<Rightarrow> 2 | GPIO_TRIG_EDGE_RISING \<Rightarrow> 3)"

lemma irq_setup_written:
  "\<exists>ty pol. written GPIO_IRQ_TYPE (neorv32_gpio_irq_setup pin t m) = written GPIO_IRQ_TYPE m @ [ty]
    \<and> written GPIO_IRQ_POLARITY (neorv32_gpio_irq_setup pin t m) = written GPIO_IRQ_POLARITY m @ [pol]
    \<and> (bit ty (unat (pin AND 31)) \<longleftrightarrow> bit (gpio_trigger_code t) 1)
    \<and> (bit pol (unat (pin AND 31)) \<longleftrightarrow> bit (gpio_trigger_code t) 0)"
proof -
  have "unat (pin AND 31) < 32" by (rule unat_and_31)
  then show ?thesis
    by (cases t)
      (simp_all add: neorv32_gpio_irq_setup_def Let_def MMREG32_BSET_def MMREG32_BCLR_def rd_def
        gpio_trigger_code_def bit_or_iff bit_and_iff bit_not_iff bit_shl32_1 gpio_regs bit_simps)
qed

section \<open>Acknowledging an interrupt\<close>

text \<open>
  The pending register of the hardware: in every cycle a pending bit stays unless it is written
  as zero, and a triggering pin sets its bit.  The trigger of the cycle belongs to the
  environment.
\<close>

definition gpio_pend_step :: "u32 \<Rightarrow> event \<Rightarrow> u32 \<Rightarrow> u32 \<Rightarrow> u32" where
  "gpio_pend_step en e trig pend =
     en AND ((pend AND (case e of Wr l v \<Rightarrow> if l = GPIO_IRQ_PENDING then v else - 1 | _ \<Rightarrow> - 1))
             OR trig)"

fun gpio_pend :: "u32 \<Rightarrow> (nat \<Rightarrow> u32) \<Rightarrow> event list \<Rightarrow> u32" where
  "gpio_pend en trig [] = 0"
| "gpio_pend en trig (e # h) = gpio_pend_step en e (trig (List.length h)) (gpio_pend en trig h)"

definition gpio_hw :: "u32 \<Rightarrow> (nat \<Rightarrow> u32) \<Rightarrow> (event list \<Rightarrow> loc \<Rightarrow> u32) \<Rightarrow> event list \<Rightarrow> loc \<Rightarrow> u32" where
  "gpio_hw en trig rest h l = (if l = GPIO_IRQ_PENDING then gpio_pend en trig h else rest h l)"

lemma irq_clr_pend:
  assumes "hw m = gpio_hw en trig rest"
  shows "gpio_pend en trig (log (neorv32_gpio_irq_clr msk m)) =
    en AND ((gpio_pend en trig (log m) AND NOT msk) OR trig (Suc (List.length (log m))))"
  by (rule bit_word_eqI)
    (auto simp: neorv32_gpio_irq_clr_def MMREG32_BCLR_def rd_def wr_def tick_def rd_val_def assms
      gpio_hw_def gpio_pend_step_def bit_simps)

text \<open>Acknowledging is not atomic: a pin that triggers in the cycle in which the driver reads the
pending register loses its interrupt, though it is not among the acknowledged pins.\<close>

lemma irq_clr_loses_edge:
  "let m = \<lparr>hw = gpio_hw (- 1) (\<lambda>n. if n = 0 then 2 else 0) (\<lambda>_ _. 0), log = []\<rparr>
   in bit (gpio_pend (- 1) (\<lambda>n. if n = 0 then 2 else 0) (log (snd (neorv32_gpio_irq_get m)))) 1
      \<and> \<not> bit (gpio_pend (- 1) (\<lambda>n. if n = 0 then 2 else 0) (log (neorv32_gpio_irq_clr 1 m))) 1"
  by (simp add: Let_def irq_clr_pend neorv32_gpio_irq_get_def rd_def gpio_pend_step_def)

end
