(* ===== verification/Csr.thy ===== *)
theory Csr
  imports Machine
begin

text \<open>
  The CPU's control and status registers, \<^verbatim>\<open>sw/lib/include/neorv32_csr.h\<close>: their
  addresses, the bits of those the library uses, and the trap codes.
\<close>

section \<open>Addresses\<close>

definition CSR_FFLAGS :: csr_id where "CSR_FFLAGS = 0x001"
definition CSR_FRM :: csr_id where "CSR_FRM = 0x002"
definition CSR_FCSR :: csr_id where "CSR_FCSR = 0x003"
definition CSR_MSTATUS :: csr_id where "CSR_MSTATUS = 0x300"
definition CSR_MISA :: csr_id where "CSR_MISA = 0x301"
definition CSR_MIE :: csr_id where "CSR_MIE = 0x304"
definition CSR_MTVEC :: csr_id where "CSR_MTVEC = 0x305"
definition CSR_MCOUNTEREN :: csr_id where "CSR_MCOUNTEREN = 0x306"
definition CSR_MSTATUSH :: csr_id where "CSR_MSTATUSH = 0x310"
definition CSR_MCOUNTINHIBIT :: csr_id where "CSR_MCOUNTINHIBIT = 0x320"
definition CSR_MCYCLECFG :: csr_id where "CSR_MCYCLECFG = 0x321"
definition CSR_MINSTRETCFG :: csr_id where "CSR_MINSTRETCFG = 0x322"
definition CSR_MENVCFG :: csr_id where "CSR_MENVCFG = 0x30a"
definition CSR_MENVCFGH :: csr_id where "CSR_MENVCFGH = 0x31a"
definition CSR_MHPMEVENT3 :: csr_id where "CSR_MHPMEVENT3 = 0x323"
definition CSR_MHPMEVENT4 :: csr_id where "CSR_MHPMEVENT4 = 0x324"
definition CSR_MHPMEVENT5 :: csr_id where "CSR_MHPMEVENT5 = 0x325"
definition CSR_MHPMEVENT6 :: csr_id where "CSR_MHPMEVENT6 = 0x326"
definition CSR_MHPMEVENT7 :: csr_id where "CSR_MHPMEVENT7 = 0x327"
definition CSR_MHPMEVENT8 :: csr_id where "CSR_MHPMEVENT8 = 0x328"
definition CSR_MHPMEVENT9 :: csr_id where "CSR_MHPMEVENT9 = 0x329"
definition CSR_MHPMEVENT10 :: csr_id where "CSR_MHPMEVENT10 = 0x32a"
definition CSR_MHPMEVENT11 :: csr_id where "CSR_MHPMEVENT11 = 0x32b"
definition CSR_MHPMEVENT12 :: csr_id where "CSR_MHPMEVENT12 = 0x32c"
definition CSR_MHPMEVENT13 :: csr_id where "CSR_MHPMEVENT13 = 0x32d"
definition CSR_MHPMEVENT14 :: csr_id where "CSR_MHPMEVENT14 = 0x32e"
definition CSR_MHPMEVENT15 :: csr_id where "CSR_MHPMEVENT15 = 0x32f"
definition CSR_MSCRATCH :: csr_id where "CSR_MSCRATCH = 0x340"
definition CSR_MEPC :: csr_id where "CSR_MEPC = 0x341"
definition CSR_MCAUSE :: csr_id where "CSR_MCAUSE = 0x342"
definition CSR_MTVAL :: csr_id where "CSR_MTVAL = 0x343"
definition CSR_MIP :: csr_id where "CSR_MIP = 0x344"
definition CSR_MTINST :: csr_id where "CSR_MTINST = 0x34a"
definition CSR_PMPCFG0 :: csr_id where "CSR_PMPCFG0 = 0x3a0"
definition CSR_PMPCFG1 :: csr_id where "CSR_PMPCFG1 = 0x3a1"
definition CSR_PMPCFG2 :: csr_id where "CSR_PMPCFG2 = 0x3a2"
definition CSR_PMPCFG3 :: csr_id where "CSR_PMPCFG3 = 0x3a3"
definition CSR_PMPADDR0 :: csr_id where "CSR_PMPADDR0 = 0x3b0"
definition CSR_PMPADDR1 :: csr_id where "CSR_PMPADDR1 = 0x3b1"
definition CSR_PMPADDR2 :: csr_id where "CSR_PMPADDR2 = 0x3b2"
definition CSR_PMPADDR3 :: csr_id where "CSR_PMPADDR3 = 0x3b3"
definition CSR_PMPADDR4 :: csr_id where "CSR_PMPADDR4 = 0x3b4"
definition CSR_PMPADDR5 :: csr_id where "CSR_PMPADDR5 = 0x3b5"
definition CSR_PMPADDR6 :: csr_id where "CSR_PMPADDR6 = 0x3b6"
definition CSR_PMPADDR7 :: csr_id where "CSR_PMPADDR7 = 0x3b7"
definition CSR_PMPADDR8 :: csr_id where "CSR_PMPADDR8 = 0x3b8"
definition CSR_PMPADDR9 :: csr_id where "CSR_PMPADDR9 = 0x3b9"
definition CSR_PMPADDR10 :: csr_id where "CSR_PMPADDR10 = 0x3ba"
definition CSR_PMPADDR11 :: csr_id where "CSR_PMPADDR11 = 0x3bb"
definition CSR_PMPADDR12 :: csr_id where "CSR_PMPADDR12 = 0x3bc"
definition CSR_PMPADDR13 :: csr_id where "CSR_PMPADDR13 = 0x3bd"
definition CSR_PMPADDR14 :: csr_id where "CSR_PMPADDR14 = 0x3be"
definition CSR_PMPADDR15 :: csr_id where "CSR_PMPADDR15 = 0x3bf"
definition CSR_MCYCLECFGH :: csr_id where "CSR_MCYCLECFGH = 0x721"
definition CSR_MINSTRETCFGH :: csr_id where "CSR_MINSTRETCFGH = 0x722"
definition CSR_TSELECT :: csr_id where "CSR_TSELECT = 0x7a0"
definition CSR_TDATA1 :: csr_id where "CSR_TDATA1 = 0x7a1"
definition CSR_TDATA2 :: csr_id where "CSR_TDATA2 = 0x7a2"
definition CSR_TINFO :: csr_id where "CSR_TINFO = 0x7a4"
definition CSR_DCSR :: csr_id where "CSR_DCSR = 0x7b0"
definition CSR_DPC :: csr_id where "CSR_DPC = 0x7b1"
definition CSR_DSCRATCH0 :: csr_id where "CSR_DSCRATCH0 = 0x7b2"
definition CSR_MCYCLE :: csr_id where "CSR_MCYCLE = 0xb00"
definition CSR_MINSTRET :: csr_id where "CSR_MINSTRET = 0xb02"
definition CSR_MHPMCOUNTER3 :: csr_id where "CSR_MHPMCOUNTER3 = 0xb03"
definition CSR_MHPMCOUNTER4 :: csr_id where "CSR_MHPMCOUNTER4 = 0xb04"
definition CSR_MHPMCOUNTER5 :: csr_id where "CSR_MHPMCOUNTER5 = 0xb05"
definition CSR_MHPMCOUNTER6 :: csr_id where "CSR_MHPMCOUNTER6 = 0xb06"
definition CSR_MHPMCOUNTER7 :: csr_id where "CSR_MHPMCOUNTER7 = 0xb07"
definition CSR_MHPMCOUNTER8 :: csr_id where "CSR_MHPMCOUNTER8 = 0xb08"
definition CSR_MHPMCOUNTER9 :: csr_id where "CSR_MHPMCOUNTER9 = 0xb09"
definition CSR_MHPMCOUNTER10 :: csr_id where "CSR_MHPMCOUNTER10 = 0xb0a"
definition CSR_MHPMCOUNTER11 :: csr_id where "CSR_MHPMCOUNTER11 = 0xb0b"
definition CSR_MHPMCOUNTER12 :: csr_id where "CSR_MHPMCOUNTER12 = 0xb0c"
definition CSR_MHPMCOUNTER13 :: csr_id where "CSR_MHPMCOUNTER13 = 0xb0d"
definition CSR_MHPMCOUNTER14 :: csr_id where "CSR_MHPMCOUNTER14 = 0xb0e"
definition CSR_MHPMCOUNTER15 :: csr_id where "CSR_MHPMCOUNTER15 = 0xb0f"
definition CSR_MCYCLEH :: csr_id where "CSR_MCYCLEH = 0xb80"
definition CSR_MINSTRETH :: csr_id where "CSR_MINSTRETH = 0xb82"
definition CSR_MHPMCOUNTER3H :: csr_id where "CSR_MHPMCOUNTER3H = 0xb83"
definition CSR_MHPMCOUNTER4H :: csr_id where "CSR_MHPMCOUNTER4H = 0xb84"
definition CSR_MHPMCOUNTER5H :: csr_id where "CSR_MHPMCOUNTER5H = 0xb85"
definition CSR_MHPMCOUNTER6H :: csr_id where "CSR_MHPMCOUNTER6H = 0xb86"
definition CSR_MHPMCOUNTER7H :: csr_id where "CSR_MHPMCOUNTER7H = 0xb87"
definition CSR_MHPMCOUNTER8H :: csr_id where "CSR_MHPMCOUNTER8H = 0xb88"
definition CSR_MHPMCOUNTER9H :: csr_id where "CSR_MHPMCOUNTER9H = 0xb89"
definition CSR_MHPMCOUNTER10H :: csr_id where "CSR_MHPMCOUNTER10H = 0xb8a"
definition CSR_MHPMCOUNTER11H :: csr_id where "CSR_MHPMCOUNTER11H = 0xb8b"
definition CSR_MHPMCOUNTER12H :: csr_id where "CSR_MHPMCOUNTER12H = 0xb8c"
definition CSR_MHPMCOUNTER13H :: csr_id where "CSR_MHPMCOUNTER13H = 0xb8d"
definition CSR_MHPMCOUNTER14H :: csr_id where "CSR_MHPMCOUNTER14H = 0xb8e"
definition CSR_MHPMCOUNTER15H :: csr_id where "CSR_MHPMCOUNTER15H = 0xb8f"
definition CSR_CYCLE :: csr_id where "CSR_CYCLE = 0xc00"
definition CSR_INSTRET :: csr_id where "CSR_INSTRET = 0xc02"
definition CSR_CYCLEH :: csr_id where "CSR_CYCLEH = 0xc80"
definition CSR_INSTRETH :: csr_id where "CSR_INSTRETH = 0xc82"
definition CSR_MVENDORID :: csr_id where "CSR_MVENDORID = 0xf11"
definition CSR_MARCHID :: csr_id where "CSR_MARCHID = 0xf12"
definition CSR_MIMPID :: csr_id where "CSR_MIMPID = 0xf13"
definition CSR_MHARTID :: csr_id where "CSR_MHARTID = 0xf14"
definition CSR_MCONFIGPTR :: csr_id where "CSR_MCONFIGPTR = 0xf15"
definition CSR_MXISA :: csr_id where "CSR_MXISA = 0xfc0"
definition CSR_MXISAH :: csr_id where "CSR_MXISAH = 0xfc1"

lemmas csr_defs =
  CSR_FFLAGS_def CSR_FRM_def CSR_FCSR_def CSR_MSTATUS_def CSR_MISA_def
  CSR_MIE_def CSR_MTVEC_def CSR_MCOUNTEREN_def CSR_MSTATUSH_def CSR_MCOUNTINHIBIT_def
  CSR_MCYCLECFG_def CSR_MINSTRETCFG_def CSR_MENVCFG_def CSR_MENVCFGH_def CSR_MHPMEVENT3_def
  CSR_MHPMEVENT4_def CSR_MHPMEVENT5_def CSR_MHPMEVENT6_def CSR_MHPMEVENT7_def CSR_MHPMEVENT8_def
  CSR_MHPMEVENT9_def CSR_MHPMEVENT10_def CSR_MHPMEVENT11_def CSR_MHPMEVENT12_def CSR_MHPMEVENT13_def
  CSR_MHPMEVENT14_def CSR_MHPMEVENT15_def CSR_MSCRATCH_def CSR_MEPC_def CSR_MCAUSE_def
  CSR_MTVAL_def CSR_MIP_def CSR_MTINST_def CSR_PMPCFG0_def CSR_PMPCFG1_def
  CSR_PMPCFG2_def CSR_PMPCFG3_def CSR_PMPADDR0_def CSR_PMPADDR1_def CSR_PMPADDR2_def
  CSR_PMPADDR3_def CSR_PMPADDR4_def CSR_PMPADDR5_def CSR_PMPADDR6_def CSR_PMPADDR7_def
  CSR_PMPADDR8_def CSR_PMPADDR9_def CSR_PMPADDR10_def CSR_PMPADDR11_def CSR_PMPADDR12_def
  CSR_PMPADDR13_def CSR_PMPADDR14_def CSR_PMPADDR15_def CSR_MCYCLECFGH_def CSR_MINSTRETCFGH_def
  CSR_TSELECT_def CSR_TDATA1_def CSR_TDATA2_def CSR_TINFO_def CSR_DCSR_def
  CSR_DPC_def CSR_DSCRATCH0_def CSR_MCYCLE_def CSR_MINSTRET_def CSR_MHPMCOUNTER3_def
  CSR_MHPMCOUNTER4_def CSR_MHPMCOUNTER5_def CSR_MHPMCOUNTER6_def CSR_MHPMCOUNTER7_def CSR_MHPMCOUNTER8_def
  CSR_MHPMCOUNTER9_def CSR_MHPMCOUNTER10_def CSR_MHPMCOUNTER11_def CSR_MHPMCOUNTER12_def CSR_MHPMCOUNTER13_def
  CSR_MHPMCOUNTER14_def CSR_MHPMCOUNTER15_def CSR_MCYCLEH_def CSR_MINSTRETH_def CSR_MHPMCOUNTER3H_def
  CSR_MHPMCOUNTER4H_def CSR_MHPMCOUNTER5H_def CSR_MHPMCOUNTER6H_def CSR_MHPMCOUNTER7H_def CSR_MHPMCOUNTER8H_def
  CSR_MHPMCOUNTER9H_def CSR_MHPMCOUNTER10H_def CSR_MHPMCOUNTER11H_def CSR_MHPMCOUNTER12H_def CSR_MHPMCOUNTER13H_def
  CSR_MHPMCOUNTER14H_def CSR_MHPMCOUNTER15H_def CSR_CYCLE_def CSR_INSTRET_def CSR_CYCLEH_def
  CSR_INSTRETH_def CSR_MVENDORID_def CSR_MARCHID_def CSR_MIMPID_def CSR_MHARTID_def
  CSR_MCONFIGPTR_def CSR_MXISA_def CSR_MXISAH_def

section \<open>Bits\<close>

datatype mstatus_bit =
    CSR_MSTATUS_MIE
  | CSR_MSTATUS_MPIE
  | CSR_MSTATUS_MPP_L
  | CSR_MSTATUS_MPP_H
  | CSR_MSTATUS_MPRV
  | CSR_MSTATUS_TW

primrec csr_mstatus :: "mstatus_bit \<Rightarrow> nat" where
    "csr_mstatus CSR_MSTATUS_MIE = 3"
  | "csr_mstatus CSR_MSTATUS_MPIE = 7"
  | "csr_mstatus CSR_MSTATUS_MPP_L = 11"
  | "csr_mstatus CSR_MSTATUS_MPP_H = 12"
  | "csr_mstatus CSR_MSTATUS_MPRV = 17"
  | "csr_mstatus CSR_MSTATUS_TW = 21"

datatype mcountinhibit_bit =
    CSR_MCOUNTINHIBIT_CY
  | CSR_MCOUNTINHIBIT_IR
  | CSR_MCOUNTINHIBIT_HPM3
  | CSR_MCOUNTINHIBIT_HPM4
  | CSR_MCOUNTINHIBIT_HPM5
  | CSR_MCOUNTINHIBIT_HPM6
  | CSR_MCOUNTINHIBIT_HPM7
  | CSR_MCOUNTINHIBIT_HPM8
  | CSR_MCOUNTINHIBIT_HPM9
  | CSR_MCOUNTINHIBIT_HPM10
  | CSR_MCOUNTINHIBIT_HPM11
  | CSR_MCOUNTINHIBIT_HPM12
  | CSR_MCOUNTINHIBIT_HPM13
  | CSR_MCOUNTINHIBIT_HPM14
  | CSR_MCOUNTINHIBIT_HPM15
  | CSR_MCOUNTINHIBIT_HPM16
  | CSR_MCOUNTINHIBIT_HPM17
  | CSR_MCOUNTINHIBIT_HPM18
  | CSR_MCOUNTINHIBIT_HPM19
  | CSR_MCOUNTINHIBIT_HPM20
  | CSR_MCOUNTINHIBIT_HPM21
  | CSR_MCOUNTINHIBIT_HPM22
  | CSR_MCOUNTINHIBIT_HPM23
  | CSR_MCOUNTINHIBIT_HPM24
  | CSR_MCOUNTINHIBIT_HPM25
  | CSR_MCOUNTINHIBIT_HPM26
  | CSR_MCOUNTINHIBIT_HPM27
  | CSR_MCOUNTINHIBIT_HPM28
  | CSR_MCOUNTINHIBIT_HPM29
  | CSR_MCOUNTINHIBIT_HPM30
  | CSR_MCOUNTINHIBIT_HPM31

primrec csr_mcountinhibit :: "mcountinhibit_bit \<Rightarrow> nat" where
    "csr_mcountinhibit CSR_MCOUNTINHIBIT_CY = 0"
  | "csr_mcountinhibit CSR_MCOUNTINHIBIT_IR = 2"
  | "csr_mcountinhibit CSR_MCOUNTINHIBIT_HPM3 = 3"
  | "csr_mcountinhibit CSR_MCOUNTINHIBIT_HPM4 = 4"
  | "csr_mcountinhibit CSR_MCOUNTINHIBIT_HPM5 = 5"
  | "csr_mcountinhibit CSR_MCOUNTINHIBIT_HPM6 = 6"
  | "csr_mcountinhibit CSR_MCOUNTINHIBIT_HPM7 = 7"
  | "csr_mcountinhibit CSR_MCOUNTINHIBIT_HPM8 = 8"
  | "csr_mcountinhibit CSR_MCOUNTINHIBIT_HPM9 = 9"
  | "csr_mcountinhibit CSR_MCOUNTINHIBIT_HPM10 = 10"
  | "csr_mcountinhibit CSR_MCOUNTINHIBIT_HPM11 = 11"
  | "csr_mcountinhibit CSR_MCOUNTINHIBIT_HPM12 = 12"
  | "csr_mcountinhibit CSR_MCOUNTINHIBIT_HPM13 = 13"
  | "csr_mcountinhibit CSR_MCOUNTINHIBIT_HPM14 = 14"
  | "csr_mcountinhibit CSR_MCOUNTINHIBIT_HPM15 = 15"
  | "csr_mcountinhibit CSR_MCOUNTINHIBIT_HPM16 = 16"
  | "csr_mcountinhibit CSR_MCOUNTINHIBIT_HPM17 = 17"
  | "csr_mcountinhibit CSR_MCOUNTINHIBIT_HPM18 = 18"
  | "csr_mcountinhibit CSR_MCOUNTINHIBIT_HPM19 = 19"
  | "csr_mcountinhibit CSR_MCOUNTINHIBIT_HPM20 = 20"
  | "csr_mcountinhibit CSR_MCOUNTINHIBIT_HPM21 = 21"
  | "csr_mcountinhibit CSR_MCOUNTINHIBIT_HPM22 = 22"
  | "csr_mcountinhibit CSR_MCOUNTINHIBIT_HPM23 = 23"
  | "csr_mcountinhibit CSR_MCOUNTINHIBIT_HPM24 = 24"
  | "csr_mcountinhibit CSR_MCOUNTINHIBIT_HPM25 = 25"
  | "csr_mcountinhibit CSR_MCOUNTINHIBIT_HPM26 = 26"
  | "csr_mcountinhibit CSR_MCOUNTINHIBIT_HPM27 = 27"
  | "csr_mcountinhibit CSR_MCOUNTINHIBIT_HPM28 = 28"
  | "csr_mcountinhibit CSR_MCOUNTINHIBIT_HPM29 = 29"
  | "csr_mcountinhibit CSR_MCOUNTINHIBIT_HPM30 = 30"
  | "csr_mcountinhibit CSR_MCOUNTINHIBIT_HPM31 = 31"

datatype mie_bit =
    CSR_MIE_MSIE
  | CSR_MIE_MTIE
  | CSR_MIE_MEIE
  | CSR_MIE_FIRQ0E
  | CSR_MIE_FIRQ1E
  | CSR_MIE_FIRQ2E
  | CSR_MIE_FIRQ3E
  | CSR_MIE_FIRQ4E
  | CSR_MIE_FIRQ5E
  | CSR_MIE_FIRQ6E
  | CSR_MIE_FIRQ7E
  | CSR_MIE_FIRQ8E
  | CSR_MIE_FIRQ9E
  | CSR_MIE_FIRQ10E
  | CSR_MIE_FIRQ11E
  | CSR_MIE_FIRQ12E
  | CSR_MIE_FIRQ13E
  | CSR_MIE_FIRQ14E
  | CSR_MIE_FIRQ15E

primrec csr_mie :: "mie_bit \<Rightarrow> nat" where
    "csr_mie CSR_MIE_MSIE = 3"
  | "csr_mie CSR_MIE_MTIE = 7"
  | "csr_mie CSR_MIE_MEIE = 11"
  | "csr_mie CSR_MIE_FIRQ0E = 16"
  | "csr_mie CSR_MIE_FIRQ1E = 17"
  | "csr_mie CSR_MIE_FIRQ2E = 18"
  | "csr_mie CSR_MIE_FIRQ3E = 19"
  | "csr_mie CSR_MIE_FIRQ4E = 20"
  | "csr_mie CSR_MIE_FIRQ5E = 21"
  | "csr_mie CSR_MIE_FIRQ6E = 22"
  | "csr_mie CSR_MIE_FIRQ7E = 23"
  | "csr_mie CSR_MIE_FIRQ8E = 24"
  | "csr_mie CSR_MIE_FIRQ9E = 25"
  | "csr_mie CSR_MIE_FIRQ10E = 26"
  | "csr_mie CSR_MIE_FIRQ11E = 27"
  | "csr_mie CSR_MIE_FIRQ12E = 28"
  | "csr_mie CSR_MIE_FIRQ13E = 29"
  | "csr_mie CSR_MIE_FIRQ14E = 30"
  | "csr_mie CSR_MIE_FIRQ15E = 31"

datatype mip_bit =
    CSR_MIP_MSIP
  | CSR_MIP_MTIP
  | CSR_MIP_MEIP
  | CSR_MIP_FIRQ0P
  | CSR_MIP_FIRQ1P
  | CSR_MIP_FIRQ2P
  | CSR_MIP_FIRQ3P
  | CSR_MIP_FIRQ4P
  | CSR_MIP_FIRQ5P
  | CSR_MIP_FIRQ6P
  | CSR_MIP_FIRQ7P
  | CSR_MIP_FIRQ8P
  | CSR_MIP_FIRQ9P
  | CSR_MIP_FIRQ10P
  | CSR_MIP_FIRQ11P
  | CSR_MIP_FIRQ12P
  | CSR_MIP_FIRQ13P
  | CSR_MIP_FIRQ14P
  | CSR_MIP_FIRQ15P

primrec csr_mip :: "mip_bit \<Rightarrow> nat" where
    "csr_mip CSR_MIP_MSIP = 3"
  | "csr_mip CSR_MIP_MTIP = 7"
  | "csr_mip CSR_MIP_MEIP = 11"
  | "csr_mip CSR_MIP_FIRQ0P = 16"
  | "csr_mip CSR_MIP_FIRQ1P = 17"
  | "csr_mip CSR_MIP_FIRQ2P = 18"
  | "csr_mip CSR_MIP_FIRQ3P = 19"
  | "csr_mip CSR_MIP_FIRQ4P = 20"
  | "csr_mip CSR_MIP_FIRQ5P = 21"
  | "csr_mip CSR_MIP_FIRQ6P = 22"
  | "csr_mip CSR_MIP_FIRQ7P = 23"
  | "csr_mip CSR_MIP_FIRQ8P = 24"
  | "csr_mip CSR_MIP_FIRQ9P = 25"
  | "csr_mip CSR_MIP_FIRQ10P = 26"
  | "csr_mip CSR_MIP_FIRQ11P = 27"
  | "csr_mip CSR_MIP_FIRQ12P = 28"
  | "csr_mip CSR_MIP_FIRQ13P = 29"
  | "csr_mip CSR_MIP_FIRQ14P = 30"
  | "csr_mip CSR_MIP_FIRQ15P = 31"

datatype misa_bit =
    CSR_MISA_A
  | CSR_MISA_B
  | CSR_MISA_C
  | CSR_MISA_E
  | CSR_MISA_I
  | CSR_MISA_M
  | CSR_MISA_U
  | CSR_MISA_X
  | CSR_MISA_MXL_LO
  | CSR_MISA_MXL_HI

primrec csr_misa :: "misa_bit \<Rightarrow> nat" where
    "csr_misa CSR_MISA_A = 0"
  | "csr_misa CSR_MISA_B = 1"
  | "csr_misa CSR_MISA_C = 2"
  | "csr_misa CSR_MISA_E = 4"
  | "csr_misa CSR_MISA_I = 8"
  | "csr_misa CSR_MISA_M = 12"
  | "csr_misa CSR_MISA_U = 20"
  | "csr_misa CSR_MISA_X = 23"
  | "csr_misa CSR_MISA_MXL_LO = 30"
  | "csr_misa CSR_MISA_MXL_HI = 31"

datatype mxisa_bit =
    CSR_MXISA_ZICSR
  | CSR_MXISA_ZIFENCEI
  | CSR_MXISA_ZMMUL
  | CSR_MXISA_XCFU
  | CSR_MXISA_ZKT
  | CSR_MXISA_ZFINX
  | CSR_MXISA_ZICOND
  | CSR_MXISA_ZICNTR
  | CSR_MXISA_SMPMP
  | CSR_MXISA_ZIHPM
  | CSR_MXISA_SDEXT
  | CSR_MXISA_SDTRIG
  | CSR_MXISA_ZBKX
  | CSR_MXISA_ZKND
  | CSR_MXISA_ZKNE
  | CSR_MXISA_ZKNH
  | CSR_MXISA_ZBKB
  | CSR_MXISA_ZBKC
  | CSR_MXISA_ZKN
  | CSR_MXISA_ZKSH
  | CSR_MXISA_ZKSED
  | CSR_MXISA_ZKS
  | CSR_MXISA_ZBA
  | CSR_MXISA_ZBB
  | CSR_MXISA_ZBS
  | CSR_MXISA_ZAAMO
  | CSR_MXISA_ZALRSC
  | CSR_MXISA_ZCB
  | CSR_MXISA_ZCA
  | CSR_MXISA_ZIBI
  | CSR_MXISA_ZIMOP
  | CSR_MXISA_SMCNTRPMF

primrec csr_mxisa :: "mxisa_bit \<Rightarrow> nat" where
    "csr_mxisa CSR_MXISA_ZICSR = 0"
  | "csr_mxisa CSR_MXISA_ZIFENCEI = 1"
  | "csr_mxisa CSR_MXISA_ZMMUL = 2"
  | "csr_mxisa CSR_MXISA_XCFU = 3"
  | "csr_mxisa CSR_MXISA_ZKT = 4"
  | "csr_mxisa CSR_MXISA_ZFINX = 5"
  | "csr_mxisa CSR_MXISA_ZICOND = 6"
  | "csr_mxisa CSR_MXISA_ZICNTR = 7"
  | "csr_mxisa CSR_MXISA_SMPMP = 8"
  | "csr_mxisa CSR_MXISA_ZIHPM = 9"
  | "csr_mxisa CSR_MXISA_SDEXT = 10"
  | "csr_mxisa CSR_MXISA_SDTRIG = 11"
  | "csr_mxisa CSR_MXISA_ZBKX = 12"
  | "csr_mxisa CSR_MXISA_ZKND = 13"
  | "csr_mxisa CSR_MXISA_ZKNE = 14"
  | "csr_mxisa CSR_MXISA_ZKNH = 15"
  | "csr_mxisa CSR_MXISA_ZBKB = 16"
  | "csr_mxisa CSR_MXISA_ZBKC = 17"
  | "csr_mxisa CSR_MXISA_ZKN = 18"
  | "csr_mxisa CSR_MXISA_ZKSH = 19"
  | "csr_mxisa CSR_MXISA_ZKSED = 20"
  | "csr_mxisa CSR_MXISA_ZKS = 21"
  | "csr_mxisa CSR_MXISA_ZBA = 22"
  | "csr_mxisa CSR_MXISA_ZBB = 23"
  | "csr_mxisa CSR_MXISA_ZBS = 24"
  | "csr_mxisa CSR_MXISA_ZAAMO = 25"
  | "csr_mxisa CSR_MXISA_ZALRSC = 26"
  | "csr_mxisa CSR_MXISA_ZCB = 27"
  | "csr_mxisa CSR_MXISA_ZCA = 28"
  | "csr_mxisa CSR_MXISA_ZIBI = 29"
  | "csr_mxisa CSR_MXISA_ZIMOP = 30"
  | "csr_mxisa CSR_MXISA_SMCNTRPMF = 31"

datatype pmpcfg_bit =
    PMPCFG_R
  | PMPCFG_W
  | PMPCFG_X
  | PMPCFG_A_LSB
  | PMPCFG_A_MSB
  | PMPCFG_L

primrec pmpcfg :: "pmpcfg_bit \<Rightarrow> nat" where
    "pmpcfg PMPCFG_R = 0"
  | "pmpcfg PMPCFG_W = 1"
  | "pmpcfg PMPCFG_X = 2"
  | "pmpcfg PMPCFG_A_LSB = 3"
  | "pmpcfg PMPCFG_A_MSB = 4"
  | "pmpcfg PMPCFG_L = 7"

datatype pmp_mode =
    PMP_OFF
  | PMP_TOR
  | PMP_NA4
  | PMP_NAPOT

primrec pmp_mode_code :: "pmp_mode \<Rightarrow> nat" where
    "pmp_mode_code PMP_OFF = 0"
  | "pmp_mode_code PMP_TOR = 1"
  | "pmp_mode_code PMP_NA4 = 2"
  | "pmp_mode_code PMP_NAPOT = 3"

section \<open>Trap codes\<close>

datatype trap_code =
    TRAP_CODE_I_MISALIGNED
  | TRAP_CODE_I_ACCESS
  | TRAP_CODE_I_ILLEGAL
  | TRAP_CODE_BREAKPOINT
  | TRAP_CODE_L_MISALIGNED
  | TRAP_CODE_L_ACCESS
  | TRAP_CODE_S_MISALIGNED
  | TRAP_CODE_S_ACCESS
  | TRAP_CODE_UENV_CALL
  | TRAP_CODE_MENV_CALL
  | TRAP_CODE_MSI
  | TRAP_CODE_MTI
  | TRAP_CODE_MEI
  | TRAP_CODE_FIRQ_0
  | TRAP_CODE_FIRQ_1
  | TRAP_CODE_FIRQ_2
  | TRAP_CODE_FIRQ_3
  | TRAP_CODE_FIRQ_4
  | TRAP_CODE_FIRQ_5
  | TRAP_CODE_FIRQ_6
  | TRAP_CODE_FIRQ_7
  | TRAP_CODE_FIRQ_8
  | TRAP_CODE_FIRQ_9
  | TRAP_CODE_FIRQ_10
  | TRAP_CODE_FIRQ_11
  | TRAP_CODE_FIRQ_12
  | TRAP_CODE_FIRQ_13
  | TRAP_CODE_FIRQ_14
  | TRAP_CODE_FIRQ_15

primrec trap_code_of :: "trap_code \<Rightarrow> u32" where
    "trap_code_of TRAP_CODE_I_MISALIGNED = 0"
  | "trap_code_of TRAP_CODE_I_ACCESS = 1"
  | "trap_code_of TRAP_CODE_I_ILLEGAL = 2"
  | "trap_code_of TRAP_CODE_BREAKPOINT = 3"
  | "trap_code_of TRAP_CODE_L_MISALIGNED = 4"
  | "trap_code_of TRAP_CODE_L_ACCESS = 5"
  | "trap_code_of TRAP_CODE_S_MISALIGNED = 6"
  | "trap_code_of TRAP_CODE_S_ACCESS = 7"
  | "trap_code_of TRAP_CODE_UENV_CALL = 8"
  | "trap_code_of TRAP_CODE_MENV_CALL = 0xb"
  | "trap_code_of TRAP_CODE_MSI = 0x80000003"
  | "trap_code_of TRAP_CODE_MTI = 0x80000007"
  | "trap_code_of TRAP_CODE_MEI = 0x8000000b"
  | "trap_code_of TRAP_CODE_FIRQ_0 = 0x80000010"
  | "trap_code_of TRAP_CODE_FIRQ_1 = 0x80000011"
  | "trap_code_of TRAP_CODE_FIRQ_2 = 0x80000012"
  | "trap_code_of TRAP_CODE_FIRQ_3 = 0x80000013"
  | "trap_code_of TRAP_CODE_FIRQ_4 = 0x80000014"
  | "trap_code_of TRAP_CODE_FIRQ_5 = 0x80000015"
  | "trap_code_of TRAP_CODE_FIRQ_6 = 0x80000016"
  | "trap_code_of TRAP_CODE_FIRQ_7 = 0x80000017"
  | "trap_code_of TRAP_CODE_FIRQ_8 = 0x80000018"
  | "trap_code_of TRAP_CODE_FIRQ_9 = 0x80000019"
  | "trap_code_of TRAP_CODE_FIRQ_10 = 0x8000001a"
  | "trap_code_of TRAP_CODE_FIRQ_11 = 0x8000001b"
  | "trap_code_of TRAP_CODE_FIRQ_12 = 0x8000001c"
  | "trap_code_of TRAP_CODE_FIRQ_13 = 0x8000001d"
  | "trap_code_of TRAP_CODE_FIRQ_14 = 0x8000001e"
  | "trap_code_of TRAP_CODE_FIRQ_15 = 0x8000001f"

end
