(* ===== verification/Counter64.thy ===== *)
theory Counter64
  imports Machine
begin

text \<open>
  Reading a 64-bit counter through two 32-bit locations.  \<open>hilo_read\<close> is the loop that
  \<^verbatim>\<open>neorv32_clint_time_get\<close>, \<^verbatim>\<open>neorv32_cpu_get_cycle\<close> and
  \<^verbatim>\<open>neorv32_cpu_get_instret\<close> share: high, low, high, until the high words agree.  The
  locale \<open>free_counter\<close> is what the loop needs of the counter.  The high word may lag one count
  behind the low word, as it does in a counter whose carry is registered.
\<close>

partial_function (option) hilo_read :: "loc \<Rightarrow> loc \<Rightarrow> mach \<Rightarrow> (u64 \<times> mach) option" where
  "hilo_read lo hi m =
     (let (tmp1, m) = rd hi m;
          (tmp2, m) = rd lo m;
          (tmp3, m) = rd hi m
      in if tmp1 = tmp3 then Some (join64 tmp2 tmp3, m) else hilo_read lo hi m)"

lemma div_step_cases:
  fixes a b K :: nat
  assumes "a \<le> b" "b < a + K" "1 < K"
  shows "b div K = a div K \<or> b div K = Suc (a div K)"
proof -
  have "a div K \<le> b div K" using assms(1) by (rule div_le_mono)
  moreover have "b div K \<le> (a + K) div K" using assms(2) by (intro div_le_mono) simp
  moreover have "(a + K) div K = Suc (a div K)" using assms(3) by (subst div_add_self2) simp_all
  ultimately show ?thesis by linarith
qed

lemma div_mod_eq_imp:
  fixes a b K :: nat
  assumes "a \<le> b" "b < a + K" "1 < K" "a div K mod K = b div K mod K"
  shows "a div K = b div K"
proof (rule ccontr)
  assume "a div K \<noteq> b div K"
  with div_step_cases [OF assms(1-3)] have "b div K = Suc (a div K)" by auto
  with assms(4) have "a div K mod K = Suc (a div K) mod K" by simp
  then show False using assms(3) by (metis mod_Suc n_not_Suc_n zero_neq_one
      less_irrefl mod_less_divisor not_less_iff_gr_or_eq nat_neq_iff One_nat_def)
qed

text \<open>
  A counter that only advances while it is read, by less than \<open>2 ^ 29\<close> counts per access.
  \<open>T\<close> is its unbounded value.
\<close>

locale free_counter =
  fixes ok :: "mach \<Rightarrow> bool" and T :: "mach \<Rightarrow> nat" and lo hi :: loc
  assumes ok_read: "ok m \<Longrightarrow> l = lo \<or> l = hi \<Longrightarrow> ok (snd (rd l m))"
    and advance: "ok m \<Longrightarrow> l = lo \<or> l = hi \<Longrightarrow>
      T m < T (snd (rd l m)) \<and> T (snd (rd l m)) \<le> T m + 2 ^ 29"
    and lo_val: "ok m \<Longrightarrow> unat (rd_val lo m) = T m mod 2 ^ 32"
    and hi_val: "ok m \<Longrightarrow> \<exists>x. (x = T m \<or> x = T m - 1) \<and> unat (rd_val hi m) = x div 2 ^ 32 mod 2 ^ 32"
begin

definition high :: "mach \<Rightarrow> nat" where
  "high m = (SOME x. (x = T m \<or> x = T m - 1) \<and> unat (rd_val hi m) = x div 2 ^ 32 mod 2 ^ 32)"

lemma high:
  assumes "ok m"
  shows "high m = T m \<or> high m = T m - 1" "unat (rd_val hi m) = high m div 2 ^ 32 mod 2 ^ 32"
  using someI_ex [OF hi_val [OF assms]] by (auto simp: high_def)

text \<open>The times of the accesses of one turn and of the first access of the next.\<close>

lemma turn_times:
  assumes "ok m"
  defines "m1 \<equiv> snd (rd hi m)" and "m2 \<equiv> snd (rd lo (snd (rd hi m)))"
    and "m3 \<equiv> snd (rd hi (snd (rd lo (snd (rd hi m)))))"
  shows "ok m1" "ok m2" "ok m3" "T m < T m1" "T m1 < T m2" "T m2 < T m3"
    "T m1 \<le> T m + 2 ^ 29" "T m2 \<le> T m1 + 2 ^ 29" "T m3 \<le> T m2 + 2 ^ 29"
proof -
  show o: "ok m1" "ok m2" "ok m3"
    unfolding m1_def m2_def m3_def using assms(1) by (simp_all add: ok_read)
  show "T m < T m1" "T m1 < T m2" "T m2 < T m3"
    "T m1 \<le> T m + 2 ^ 29" "T m2 \<le> T m1 + 2 ^ 29" "T m3 \<le> T m2 + 2 ^ 29"
    using advance [OF assms(1), of hi] advance [OF o(1), of lo] advance [OF o(2), of hi]
    unfolding m1_def m2_def m3_def by simp_all
qed

text \<open>Equal high words: the value read is that of the counter when the low word was read.\<close>

lemma turn_match:
  assumes "ok m" "rd_val hi m = rd_val hi (snd (rd lo (snd (rd hi m))))"
  shows "join64 (rd_val lo (snd (rd hi m))) (rd_val hi m) = of_nat (T (snd (rd hi m)))"
proof -
  let ?m1 = "snd (rd hi m)" and ?m2 = "snd (rd lo (snd (rd hi m)))" and ?K = "2 ^ 32 :: nat"
  note t = turn_times [OF assms(1)]
  have h: "high m div ?K mod ?K = high ?m2 div ?K mod ?K"
    using high(2) [OF assms(1)] high(2) [OF t(2)] assms(2) by simp
  have le: "high m \<le> T ?m1" "T ?m1 \<le> high ?m2" "high ?m2 < high m + ?K"
    using high(1) [OF assms(1)] high(1) [OF t(2)] t(4-9) by auto
  have "high m div ?K = high ?m2 div ?K"
    using h le by (intro div_mod_eq_imp) auto
  moreover have "high m div ?K \<le> T ?m1 div ?K" "T ?m1 div ?K \<le> high ?m2 div ?K"
    using le by (auto intro: div_le_mono)
  ultimately have "T ?m1 div ?K = high m div ?K" by simp
  then have hi: "unat (rd_val hi m) = T ?m1 div ?K mod ?K" using high(2) [OF assms(1)] by simp
  have "unat (rd_val lo ?m1) + ?K * unat (rd_val hi m) = T ?m1 mod (?K * ?K)"
    unfolding hi lo_val [OF t(1)] by (simp only: mod_mult2_eq add.commute)
  then have "join64 (rd_val lo ?m1) (rd_val hi m) = of_nat (T ?m1 mod 2 ^ 64)"
    unfolding join64_of_nat by simp
  also have "\<dots> = of_nat (T ?m1)"
    by (rule word_unat_eq_iff [THEN iffD2]) (simp add: unat_of_nat take_bit_eq_mod)
  finally show ?thesis .
qed

text \<open>After a turn that failed the next one succeeds: the low word has just wrapped.\<close>

lemma turn_again:
  assumes "ok m" "rd_val hi m \<noteq> rd_val hi (snd (rd lo (snd (rd hi m))))"
  defines "m3 \<equiv> snd (rd hi (snd (rd lo (snd (rd hi m)))))"
  shows "rd_val hi m3 = rd_val hi (snd (rd lo (snd (rd hi m3))))"
proof -
  let ?m2 = "snd (rd lo (snd (rd hi m)))"
  define K G :: nat where "K = 2 ^ 32" and "G = 2 ^ 29"
  have KG: "K = 8 * G" "1 < G" by (simp_all add: K_def G_def)
  note t = turn_times [OF assms(1), folded m3_def G_def]
  note t' = turn_times [OF t(3), folded G_def]
  note h = high(2) [folded K_def]
  let ?m5 = "snd (rd lo (snd (rd hi m3)))"
  have "high m div K \<noteq> high ?m2 div K"
    using h [OF assms(1)] h [OF t(2)] assms(2) by (metis word_unat_eq_iff)
  moreover have b: "high m \<le> high ?m2" "high ?m2 \<le> high m + 2 * G + 1"
    using high(1) [OF assms(1)] high(1) [OF t(2)] t(4-9) by auto
  ultimately have s: "high ?m2 div K = Suc (high m div K)"
    using div_step_cases [of "high m" "high ?m2" K] KG by auto
  have "high m < K * Suc (high m div K)" using KG dividend_less_times_div [of K "high m"] by simp
  then have lim: "high ?m2 < K * (high ?m2 div K) + 2 * G + 1" using b unfolding s by linarith
  have m: "high ?m2 \<le> high m3" "high m3 \<le> high ?m5" "high ?m5 \<le> high ?m2 + 3 * G + 1"
    using high(1) [OF t(2)] high(1) [OF t(3)] high(1) [OF t'(2)] t(4-9) t'(4-9) by auto
  then have "high ?m5 < K * (high ?m2 div K) + K" using lim KG by linarith
  then have "high ?m5 < Suc (high ?m2 div K) * K" by (simp add: mult.commute)
  then have "high ?m5 div K < Suc (high ?m2 div K)" by (rule less_mult_imp_div_less)
  moreover have "high ?m2 div K \<le> high m3 div K" "high m3 div K \<le> high ?m5 div K"
    using m by (auto intro: div_le_mono)
  ultimately have "high m3 div K = high ?m5 div K" by linarith
  then show ?thesis using h [OF t(3)] h [OF t'(2)] by (metis word_unat_eq_iff)
qed

lemma hilo_read_match:
  assumes "ok m" "rd_val hi m = rd_val hi (snd (rd lo (snd (rd hi m))))"
  shows "\<exists>t m'. hilo_read lo hi m = Some (of_nat t, m') \<and> T m < t \<and> t < T m' \<and> ok m'"
proof -
  note t = turn_times [OF assms(1)]
  have "hilo_read lo hi m = Some (of_nat (T (snd (rd hi m))), snd (rd hi (snd (rd lo (snd (rd hi m))))))"
    using turn_match [OF assms] assms(2) [symmetric]
    by (subst hilo_read.simps) (simp add: rd_def)
  with t show ?thesis by (intro exI [of _ "T (snd (rd hi m))"] exI conjI) (assumption | simp)+
qed

lemma hilo_read_returns:
  assumes "ok m"
  shows "\<exists>t m'. hilo_read lo hi m = Some (of_nat t, m') \<and> T m < t \<and> t < T m' \<and> ok m'"
proof (cases "rd_val hi m = rd_val hi (snd (rd lo (snd (rd hi m))))")
  case True
  with assms show ?thesis by (rule hilo_read_match)
next
  case False
  let ?m3 = "snd (rd hi (snd (rd lo (snd (rd hi m)))))"
  note t = turn_times [OF assms]
  have "hilo_read lo hi m = hilo_read lo hi ?m3"
    using False by (subst hilo_read.simps) (simp add: rd_def)
  moreover from hilo_read_match [OF t(3) turn_again [OF assms False]]
  obtain tt m' where "hilo_read lo hi ?m3 = Some (of_nat tt, m')" "T ?m3 < tt" "tt < T m'" "ok m'"
    by blast
  ultimately show ?thesis using t(4-6) by (intro exI [of _ tt] exI [of _ m']) auto
qed

end

end
