(* ===== verification/Clint.thy ===== *)
theory Clint
  imports Sysinfo Csr Counter64
begin

text \<open>
  The core-local interruptor: the driver \<^verbatim>\<open>sw/lib/source/neorv32_clint.c\<close> and the machine
  timer of \<^verbatim>\<open>rtl/core/neorv32_clint.vhd\<close>, a 64-bit counter in two 32-bit registers with
  a registered carry (\<^verbatim>\<open>neorv32_prim_cnt\<close>) that counts clock cycles.  The driver reads
  high, low and high word until both high words agree; the locale \<open>free_counter\<close> says when
  that gives a value the counter really had, and the hardware model is an instance of it.
\<close>

section \<open>Registers\<close>

definition CLINT_MSWI :: "u32 \<Rightarrow> loc" where
  "CLINT_MSWI i = Mem W32 (NEORV32_CLINT_BASE + 4 * i)"

definition CLINT_MTIMECMP_LO :: "u32 \<Rightarrow> loc" where
  "CLINT_MTIMECMP_LO i = Mem W32 (NEORV32_CLINT_BASE + 0x4000 + 8 * i)"

definition CLINT_MTIMECMP_HI :: "u32 \<Rightarrow> loc" where
  "CLINT_MTIMECMP_HI i = Mem W32 (NEORV32_CLINT_BASE + 0x4000 + 8 * i + 4)"

definition CLINT_MTIME_LO :: loc where
  "CLINT_MTIME_LO = Mem W32 (NEORV32_CLINT_BASE + 0xbff8)"

definition CLINT_MTIME_HI :: loc where
  "CLINT_MTIME_HI = Mem W32 (NEORV32_CLINT_BASE + 0xbffc)"

lemmas clint_regs = CLINT_MSWI_def CLINT_MTIMECMP_LO_def CLINT_MTIMECMP_HI_def
  CLINT_MTIME_LO_def CLINT_MTIME_HI_def NEORV32_CLINT_BASE_def

lemma clint_regs_distinct [simp]:
  "CLINT_MTIME_LO \<noteq> CLINT_MTIME_HI" "CLINT_MTIME_HI \<noteq> CLINT_MTIME_LO"
  "CLINT_MTIMECMP_LO i \<noteq> CLINT_MTIMECMP_HI i" "CLINT_MTIMECMP_HI i \<noteq> CLINT_MTIMECMP_LO i"
  by (simp_all add: clint_regs)

section \<open>Driver\<close>

definition neorv32_clint_available :: "mach \<Rightarrow> u32 \<times> mach" where
  "neorv32_clint_available m = soc_test SYSINFO_SOC_IO_CLINT m"

definition neorv32_clint_msi_set :: "u32 \<Rightarrow> mach \<Rightarrow> mach" where
  "neorv32_clint_msi_set hart m = wr (CLINT_MSWI (hart AND 0xfff)) 1 m"

definition neorv32_clint_msi_clr :: "u32 \<Rightarrow> mach \<Rightarrow> mach" where
  "neorv32_clint_msi_clr hart m = wr (CLINT_MSWI (hart AND 0xfff)) 0 m"

definition neorv32_clint_msi_get :: "u32 \<Rightarrow> mach \<Rightarrow> u32 \<times> mach" where
  "neorv32_clint_msi_get hart m = rd (CLINT_MSWI (hart AND 0xfff)) m"

definition neorv32_clint_time_set :: "u64 \<Rightarrow> mach \<Rightarrow> mach" where
  "neorv32_clint_time_set time m =
     (let m = wr CLINT_MTIME_LO 0 m;
          m = wr CLINT_MTIME_HI (hi32 time) m
      in wr CLINT_MTIME_LO (lo32 time) m)"

definition neorv32_clint_time_get :: "mach \<Rightarrow> (u64 \<times> mach) option" where
  "neorv32_clint_time_get m = hilo_read CLINT_MTIME_LO CLINT_MTIME_HI m"

definition neorv32_clint_mtimecmp_set :: "u64 \<Rightarrow> mach \<Rightarrow> mach" where
  "neorv32_clint_mtimecmp_set timecmp m =
     (let (hart_id, m) = neorv32_cpu_csr_read CSR_MHARTID m;
          m = wr (CLINT_MTIMECMP_LO hart_id) (- 1) m;
          m = wr (CLINT_MTIMECMP_HI hart_id) (hi32 timecmp) m
      in wr (CLINT_MTIMECMP_LO hart_id) (lo32 timecmp) m)"

definition neorv32_clint_mtimecmp_get :: "mach \<Rightarrow> u64 \<times> mach" where
  "neorv32_clint_mtimecmp_get m =
     (let (hart_id, m) = neorv32_cpu_csr_read CSR_MHARTID m;
          (lo, m) = rd (CLINT_MTIMECMP_LO hart_id) m;
          (hi, m) = rd (CLINT_MTIMECMP_HI hart_id) m
      in (join64 lo hi, m))"

definition neorv32_clint_unixtime_set :: "u64 \<Rightarrow> mach \<Rightarrow> mach" where
  "neorv32_clint_unixtime_set unixtime m =
     (let (clk, m) = neorv32_sysinfo_get_clk m
      in neorv32_clint_time_set (ucast clk * unixtime) m)"

text \<open>\<open>None\<close> also for a clock of zero, by which C does not define the division.\<close>

definition neorv32_clint_unixtime_get :: "mach \<Rightarrow> (u64 \<times> mach) option" where
  "neorv32_clint_unixtime_get m =
     do {
       (t, m) \<leftarrow> neorv32_clint_time_get m;
       let (clk, m) = neorv32_sysinfo_get_clk m;
       if clk = 0 then None else Some (t div ucast clk, m)
     }"

section \<open>Setting the comparator\<close>

text \<open>The comparator of a hart as a function of the log: the last words written to it.\<close>

fun last_written :: "loc \<Rightarrow> u32 \<Rightarrow> event list \<Rightarrow> u32" where
  "last_written l v0 [] = v0"
| "last_written l v0 (Wr l' v # h) = (if l' = l then v else last_written l v0 h)"
| "last_written l v0 (_ # h) = last_written l v0 h"

definition mtimecmp :: "u32 \<Rightarrow> u64 \<Rightarrow> event list \<Rightarrow> u64" where
  "mtimecmp i v0 h = join64 (last_written (CLINT_MTIMECMP_LO i) (lo32 v0) h)
     (last_written (CLINT_MTIMECMP_HI i) (hi32 v0) h)"

lemma mtimecmp_set_log:
  assumes "i = rd_val (Csr CSR_MHARTID) m"
  shows "log (neorv32_clint_mtimecmp_set t m) =
    [Wr (CLINT_MTIMECMP_LO i) (lo32 t), Wr (CLINT_MTIMECMP_HI i) (hi32 t),
     Wr (CLINT_MTIMECMP_LO i) (- 1), Rd (Csr CSR_MHARTID) i] @ log m"
  by (simp add: neorv32_clint_mtimecmp_set_def neorv32_cpu_csr_read_def rd_def wr_def assms)

lemma join64_max_lo: "hi32 v = h \<Longrightarrow> v \<le> join64 (- 1) h"
proof -
  assume h: "hi32 v = h"
  have "unat v = unat (lo32 v) + 2 ^ 32 * unat h"
    unfolding h [symmetric] using unat_join64 [of "lo32 v" "hi32 v"] by (simp only: join64_lo_hi)
  moreover have "unat (lo32 v) < 2 ^ 32" using unsigned_less [of "lo32 v"] by simp
  moreover have "unat (- 1 :: u32) = 2 ^ 32 - 1" by (simp add: unsigned_minus_1_eq_mask mask_eq_exp_minus_1)
  ultimately show ?thesis by (simp add: word_le_nat_alt unat_join64)
qed

text \<open>
  Until the new value is in place the comparator never falls below both the old and the new
  value, so no interrupt fires that neither of them asks for.
\<close>

lemma mtimecmp_set_bound:
  assumes "i = rd_val (Csr CSR_MHARTID) m"
    and "log (neorv32_clint_mtimecmp_set t m) = k @ h" "h = k' @ log m"
  shows "min (mtimecmp i v0 (log m)) t \<le> mtimecmp i v0 h"
proof -
  let ?old = "mtimecmp i v0 (log m)"
  note l = mtimecmp_set_log [OF assms(1), of t]
  have "k @ k' = [Wr (CLINT_MTIMECMP_LO i) (lo32 t), Wr (CLINT_MTIMECMP_HI i) (hi32 t),
     Wr (CLINT_MTIMECMP_LO i) (- 1), Rd (Csr CSR_MHARTID) i]"
    using assms(2,3) unfolding l by (metis append.assoc append_same_eq)
  then consider "k' = []" | "k' = [Rd (Csr CSR_MHARTID) i]"
    | "k' = [Wr (CLINT_MTIMECMP_LO i) (- 1), Rd (Csr CSR_MHARTID) i]"
    | "k' = [Wr (CLINT_MTIMECMP_HI i) (hi32 t), Wr (CLINT_MTIMECMP_LO i) (- 1),
        Rd (Csr CSR_MHARTID) i]"
    | "k' = [Wr (CLINT_MTIMECMP_LO i) (lo32 t), Wr (CLINT_MTIMECMP_HI i) (hi32 t),
        Wr (CLINT_MTIMECMP_LO i) (- 1), Rd (Csr CSR_MHARTID) i]"
    by (auto simp: append_eq_Cons_conv)
  then show ?thesis
  proof cases
    case 3
    have "?old \<le> join64 (- 1) (hi32 ?old)" by (rule join64_max_lo) simp
    with 3 show ?thesis by (simp add: assms(3) mtimecmp_def min_le_iff_disj)
  next
    case 4
    have "t \<le> join64 (- 1) (hi32 t)" by (rule join64_max_lo) simp
    with 4 show ?thesis by (simp add: assms(3) mtimecmp_def min_le_iff_disj)
  qed (simp_all add: assms(3) mtimecmp_def)
qed

lemma mtimecmp_set_value:
  "i = rd_val (Csr CSR_MHARTID) m \<Longrightarrow> mtimecmp i v0 (log (neorv32_clint_mtimecmp_set t m)) = t"
  by (simp add: mtimecmp_set_log mtimecmp_def)

section \<open>The machine timer\<close>

record mtime_hw =
  t_lo :: u32
  t_hi :: u32
  t_carry :: bool

text \<open>One clock cycle, with the words written in it.\<close>

definition mtime_cycle :: "u32 option \<Rightarrow> u32 option \<Rightarrow> mtime_hw \<Rightarrow> mtime_hw" where
  "mtime_cycle wlo whi s =
     \<lparr>t_lo = (case wlo of Some v \<Rightarrow> v | None \<Rightarrow> t_lo s + 1),
      t_hi = (case whi of Some v \<Rightarrow> v | None \<Rightarrow> t_hi s + (if t_carry s then 1 else 0)),
      t_carry = (t_lo s = - 1)\<rparr>"

lemma mtime_cycle_sel:
  "t_lo (mtime_cycle wlo whi s) = (case wlo of Some v \<Rightarrow> v | None \<Rightarrow> t_lo s + 1)"
  "t_hi (mtime_cycle wlo whi s) =
     (case whi of Some v \<Rightarrow> v | None \<Rightarrow> t_hi s + (if t_carry s then 1 else 0))"
  "t_carry (mtime_cycle wlo whi s) \<longleftrightarrow> t_lo s = - 1"
  by (simp_all add: mtime_cycle_def)

definition mtime_write :: "loc \<Rightarrow> event \<Rightarrow> u32 option" where
  "mtime_write l e = (case e of Wr l' v \<Rightarrow> if l' = l then Some v else None | _ \<Rightarrow> None)"

text \<open>
  The \<open>n\<close>-th event takes \<open>gap n + 2\<close> cycles: that of the access and at least one before the
  next access.
\<close>

fun mtime_state :: "(nat \<Rightarrow> nat) \<Rightarrow> mtime_hw \<Rightarrow> event list \<Rightarrow> mtime_hw" where
  "mtime_state gap init [] = init"
| "mtime_state gap init (e # h) =
     (mtime_cycle None None ^^ Suc (gap (List.length h)))
       (mtime_cycle (mtime_write CLINT_MTIME_LO e) (mtime_write CLINT_MTIME_HI e)
         (mtime_state gap init h))"

definition mtime_rtl :: "(nat \<Rightarrow> nat) \<Rightarrow> mtime_hw \<Rightarrow> (event list \<Rightarrow> loc \<Rightarrow> u32) \<Rightarrow> event list \<Rightarrow> loc \<Rightarrow> u32" where
  "mtime_rtl gap init rest h l =
     (if l = CLINT_MTIME_LO then t_lo (mtime_state gap init h)
      else if l = CLINT_MTIME_HI then t_hi (mtime_state gap init h)
      else rest h l)"

text \<open>The count: the two words and a carry still to be added.\<close>

definition mtime_val :: "mtime_hw \<Rightarrow> u64" where
  "mtime_val s = join64 (t_lo s) (t_hi s) + (if t_carry s then 2 ^ 32 else 0)"

lemma ucast_plus_1:
  "ucast (h + 1 :: u32) = (if h = - 1 then 0 else ucast h + (1 :: u64))"
proof (cases "h = - 1")
  case False
  then have "unat (h + 1) = unat h + 1"
    by (metis Suc_eq_plus1 add.commute eq_neg_iff_add_eq_0 unatSuc)
  then have "(of_nat (unat (h + 1)) :: u64) = of_nat (unat h + 1)" by simp
  with False show ?thesis by (simp add: add.commute)
qed simp

lemma mtime_cycle_idle:
  "mtime_val (mtime_cycle None None s) = mtime_val s + 1"
  "t_carry (mtime_cycle None None s) \<Longrightarrow> t_lo (mtime_cycle None None s) = 0"
proof -
  have j: "join64 l h = ucast l + 2 ^ 32 * ucast h" for l h
    unfolding join64_of_nat by simp
  have m: "ucast (- 1 :: u32) = (0xffffffff :: u64)"
    by (simp add: unsigned_minus_1_eq_mask mask_eq_exp_minus_1)
  have k: "2 ^ 32 * ucast (h + 1) = (2 ^ 32 * ucast h + 2 ^ 32 :: u64)" for h :: u32
  proof (cases "h = - 1")
    case True
    then show ?thesis by (simp add: m)
  next
    case False
    then show ?thesis by (simp only: ucast_plus_1 if_False distrib_left mult_1_right)
  qed
  have l: "ucast (l + 1) + (if l = - 1 then 2 ^ 32 else 0) = (ucast l + 1 :: u64)" for l :: u32
    unfolding ucast_plus_1 by (simp add: unsigned_minus_1_eq_mask mask_eq_exp_minus_1)
  show "mtime_val (mtime_cycle None None s) = mtime_val s + 1"
    using l [of "t_lo s"] k [of "t_hi s"]
    by (simp add: mtime_val_def mtime_cycle_def j algebra_simps split: if_splits)
  show "t_carry (mtime_cycle None None s) \<Longrightarrow> t_lo (mtime_cycle None None s) = 0"
    by (simp add: mtime_cycle_def)
qed

lemma mtime_idle:
  "mtime_val ((mtime_cycle None None ^^ n) s) = mtime_val s + of_nat n"
  "t_carry ((mtime_cycle None None ^^ Suc n) s) \<Longrightarrow> t_lo ((mtime_cycle None None ^^ Suc n) s) = 0"
proof -
  show "mtime_val ((mtime_cycle None None ^^ n) s) = mtime_val s + of_nat n"
    by (induction n) (simp_all add: mtime_cycle_idle add.assoc)
  show "t_carry ((mtime_cycle None None ^^ Suc n) s) \<Longrightarrow> t_lo ((mtime_cycle None None ^^ Suc n) s) = 0"
    using mtime_cycle_idle(2) by simp
qed

lemma mtime_val_join: "mtime_val s = join64 (t_lo s) (t_hi s + (if t_carry s then 1 else 0))"
proof -
  have "2 ^ 32 * ucast (h + 1) = (2 ^ 32 * ucast h + 2 ^ 32 :: u64)" for h :: u32
  proof (cases "h = - 1")
    case True
    then show ?thesis by (simp add: unsigned_minus_1_eq_mask mask_eq_exp_minus_1)
  next
    case False
    then show ?thesis by (simp only: ucast_plus_1 if_False distrib_left mult_1_right)
  qed
  then show ?thesis by (simp add: mtime_val_def join64_of_nat)
qed

lemma join64_borrow: "join64 0 h + 2 ^ 32 - 1 = join64 (- 1) h"
proof -
  have m: "unat (- 1 :: u32) = 0xffffffff"
    by (simp add: unsigned_minus_1_eq_mask mask_eq_exp_minus_1)
  show ?thesis unfolding join64_of_nat m by simp
qed

text \<open>A carry is pending only just after the low word has wrapped.\<close>

definition mtime_inv :: "mtime_hw \<Rightarrow> bool" where
  "mtime_inv s \<longleftrightarrow> (t_carry s \<longrightarrow> t_lo s = 0)"

lemma mtime_inv_state: "mtime_inv init \<Longrightarrow> mtime_inv (mtime_state gap init h)"
  by (cases h) (use mtime_idle(2) in \<open>auto simp: mtime_inv_def simp del: funpow.simps\<close>)

text \<open>The cycles taken by the events from the \<open>a\<close>-th to before the \<open>b\<close>-th.\<close>

definition elapsed :: "(nat \<Rightarrow> nat) \<Rightarrow> nat \<Rightarrow> nat \<Rightarrow> nat" where
  "elapsed gap a b = (\<Sum>i = a..<b. gap i + 2)"

lemma elapsed_Suc: "a \<le> b \<Longrightarrow> elapsed gap a (Suc b) = elapsed gap a b + (gap b + 2)"
  by (simp add: elapsed_def)

definition mtime_untouched :: "event list \<Rightarrow> bool" where
  "mtime_untouched h \<longleftrightarrow> (\<forall>e \<in> set h. mtime_write CLINT_MTIME_LO e = None
     \<and> mtime_write CLINT_MTIME_HI e = None)"

lemma mtime_val_run:
  "mtime_untouched h \<Longrightarrow> mtime_val (mtime_state gap init (h @ h0)) =
    mtime_val (mtime_state gap init h0) + of_nat (elapsed gap (List.length h0) (List.length (h @ h0)))"
proof (induction h)
  case Nil
  then show ?case by (simp add: elapsed_def)
next
  case (Cons e h)
  let ?s = "mtime_state gap init (h @ h0)" and ?g = "gap (List.length (h @ h0))"
  have "mtime_state gap init ((e # h) @ h0)
      = (mtime_cycle None None ^^ Suc ?g) (mtime_cycle None None ?s)"
    using Cons.prems by (simp add: mtime_untouched_def)
  then have "mtime_val (mtime_state gap init ((e # h) @ h0)) = mtime_val ?s + 1 + of_nat (Suc ?g)"
    by (simp only: mtime_idle(1) mtime_cycle_idle(1))
  moreover have "elapsed gap (List.length h0) (List.length ((e # h) @ h0))
      = elapsed gap (List.length h0) (List.length (h @ h0)) + (?g + 2)"
    by (simp add: elapsed_Suc)
  moreover have "mtime_val ?s = mtime_val (mtime_state gap init h0)
      + of_nat (elapsed gap (List.length h0) (List.length (h @ h0)))"
    using Cons by (simp add: mtime_untouched_def)
  ultimately show ?case by (simp add: add.assoc)
qed

section \<open>The timer as a counter that runs freely\<close>

text \<open>Since the log was \<open>h0\<close> the timer has not been written.\<close>

definition mtime_ok :: "(nat \<Rightarrow> nat) \<Rightarrow> mtime_hw \<Rightarrow> (event list \<Rightarrow> loc \<Rightarrow> u32) \<Rightarrow> event list \<Rightarrow> mach \<Rightarrow> bool" where
  "mtime_ok gap init rest h0 m \<longleftrightarrow>
     hw m = mtime_rtl gap init rest \<and> mtime_inv init \<and> (\<forall>i. gap i \<le> 2 ^ 29 - 2)
     \<and> (\<exists>h. log m = h @ h0 \<and> mtime_untouched h)"

definition mtime_count :: "(nat \<Rightarrow> nat) \<Rightarrow> mtime_hw \<Rightarrow> event list \<Rightarrow> mach \<Rightarrow> nat" where
  "mtime_count gap init h0 m = 2 ^ 64 + unat (mtime_val (mtime_state gap init h0))
     + elapsed gap (List.length h0) (List.length (log m))"

lemma mtime_count_val:
  assumes "mtime_ok gap init rest h0 m"
  shows "mtime_val (mtime_state gap init (log m)) = of_nat (mtime_count gap init h0 m)"
proof -
  from assms obtain h where h: "log m = h @ h0" "mtime_untouched h" by (auto simp: mtime_ok_def)
  show ?thesis using mtime_val_run [OF h(2), of gap init h0]
    by (simp add: mtime_count_def h(1))
qed

lemma mtime_read_advance:
  assumes "mtime_ok gap init rest h0 m"
  shows "mtime_ok gap init rest h0 (snd (rd l m))"
    and "mtime_count gap init h0 m < mtime_count gap init h0 (snd (rd l m))"
    and "mtime_count gap init h0 (snd (rd l m)) \<le> mtime_count gap init h0 m + 2 ^ 29"
proof -
  from assms obtain h where h: "log m = h @ h0" "mtime_untouched h" and g: "\<And>i. gap i \<le> 2 ^ 29 - 2"
    by (auto simp: mtime_ok_def)
  have "log (snd (rd l m)) = (Rd l (rd_val l m) # h) @ h0" by (simp add: rd_def h(1))
  moreover have "mtime_untouched (Rd l (rd_val l m) # h)"
    using h(2) by (simp add: mtime_untouched_def mtime_write_def)
  ultimately show "mtime_ok gap init rest h0 (snd (rd l m))"
    using assms unfolding mtime_ok_def hw_rd by blast
  have "mtime_count gap init h0 (snd (rd l m))
      = mtime_count gap init h0 m + (gap (List.length (log m)) + 2)"
    by (simp add: mtime_count_def rd_def h(1) elapsed_Suc)
  then show "mtime_count gap init h0 m < mtime_count gap init h0 (snd (rd l m))"
    "mtime_count gap init h0 (snd (rd l m)) \<le> mtime_count gap init h0 m + 2 ^ 29"
    using g [of "List.length (log m)"] by simp_all
qed

lemma mtime_lo_val:
  assumes "mtime_ok gap init rest h0 m"
  shows "unat (rd_val CLINT_MTIME_LO m) = mtime_count gap init h0 m mod 2 ^ 32"
proof -
  let ?s = "mtime_state gap init (log m)" and ?n = "mtime_count gap init h0 m"
  have "rd_val CLINT_MTIME_LO m = t_lo ?s" using assms by (simp add: rd_val_def mtime_ok_def mtime_rtl_def)
  also have "\<dots> = lo32 (mtime_val ?s)" by (simp add: mtime_val_join)
  also have "\<dots> = lo32 (of_nat ?n)" by (simp only: mtime_count_val [OF assms])
  finally have "unat (rd_val CLINT_MTIME_LO m) = ?n mod 2 ^ 64 mod 2 ^ 32"
    by (simp add: unat_lo32 unat_of_nat take_bit_eq_mod)
  also have "\<dots> = ?n mod 2 ^ 32" by (rule mod_mod_cancel) simp
  finally show ?thesis .
qed

lemma nat_hi: "unat (hi32 (of_nat n)) = n div 2 ^ 32 mod 2 ^ 32"
proof -
  have "unat (hi32 (of_nat n)) = n mod (2 ^ 32 * 2 ^ 32) div 2 ^ 32"
    by (simp add: unat_hi32 unat_of_nat take_bit_eq_mod)
  also have "\<dots> = n div 2 ^ 32 mod 2 ^ 32" by (simp only: mod_mult2_eq) simp
  finally show ?thesis .
qed

lemma mtime_hi_val:
  assumes "mtime_ok gap init rest h0 m"
  shows "\<exists>x. (x = mtime_count gap init h0 m \<or> x = mtime_count gap init h0 m - 1)
    \<and> unat (rd_val CLINT_MTIME_HI m) = x div 2 ^ 32 mod 2 ^ 32"
proof -
  let ?s = "mtime_state gap init (log m)" and ?n = "mtime_count gap init h0 m"
  have r: "rd_val CLINT_MTIME_HI m = t_hi ?s" using assms
    by (simp add: rd_val_def mtime_ok_def mtime_rtl_def)
  note v = mtime_count_val [OF assms]
  show ?thesis
  proof (cases "t_carry ?s")
    case False
    then have "t_hi ?s = hi32 (of_nat ?n)" by (simp add: v [symmetric] mtime_val_join)
    then show ?thesis using r nat_hi by metis
  next
    case True
    have "mtime_inv ?s" using assms mtime_inv_state by (auto simp: mtime_ok_def)
    with True have l: "t_lo ?s = 0" by (simp add: mtime_inv_def)
    have "of_nat (?n - 1) = (of_nat ?n - 1 :: u64)" by (simp add: mtime_count_def)
    also have "\<dots> = join64 0 (t_hi ?s) + 2 ^ 32 - 1" using True l by (simp add: v [symmetric] mtime_val_def)
    also have "\<dots> = join64 (- 1) (t_hi ?s)" by (rule join64_borrow)
    finally have "t_hi ?s = hi32 (of_nat (?n - 1))" by simp
    then show ?thesis using r nat_hi by metis
  qed
qed

interpretation mtime: free_counter "mtime_ok gap init rest h0" "mtime_count gap init h0"
    CLINT_MTIME_LO CLINT_MTIME_HI
  by unfold_locales
    (simp_all only: mtime_read_advance mtime_lo_val mtime_hi_val simp_thms)

lemma time_get_value:
  assumes "hw m = mtime_rtl gap init rest" "mtime_inv init" "\<forall>i. gap i \<le> 2 ^ 29 - 2"
  shows "\<exists>k m'. neorv32_clint_time_get m
      = Some (mtime_val (mtime_state gap init (log m)) + of_nat k, m')
    \<and> 0 < k \<and> k < elapsed gap (List.length (log m)) (List.length (log m'))"
proof -
  let ?v = "mtime_val (mtime_state gap init (log m))" and ?T = "mtime_count gap init (log m)"
  have ok: "mtime_ok gap init rest (log m) m"
    using assms by (auto simp: mtime_ok_def mtime_untouched_def)
  have T0: "?T m = 2 ^ 64 + unat ?v" by (simp add: mtime_count_def elapsed_def)
  from mtime.hilo_read_returns [OF ok] obtain t m' where
    t: "hilo_read CLINT_MTIME_LO CLINT_MTIME_HI m = Some (of_nat t, m')" "?T m < t" "t < ?T m'"
    by blast
  define k where "k = t - ?T m"
  have "of_nat t = (of_nat (?T m) + of_nat k :: u64)" using t(2) by (simp add: k_def)
  then have "of_nat t = ?v + of_nat k" by (simp add: T0)
  moreover have "0 < k" "k < elapsed gap (List.length (log m)) (List.length (log m'))"
    using t(2,3) by (simp_all add: k_def mtime_count_def elapsed_def)
  ultimately show ?thesis using t(1) by (auto simp: neorv32_clint_time_get_def)
qed

section \<open>Setting the time\<close>

lemma mtime_small_lo:
  assumes "unat (t_lo s) + n < 2 ^ 32"
  shows "unat (t_lo ((mtime_cycle None None ^^ n) s)) = unat (t_lo s) + n"
  using assms
proof (induction n)
  case (Suc n)
  then have u: "unat (t_lo ((mtime_cycle None None ^^ n) s)) = unat (t_lo s) + n" by simp
  then have "t_lo ((mtime_cycle None None ^^ n) s) \<noteq> - 1"
    using Suc.prems by (auto simp: unsigned_minus_1_eq_mask mask_eq_exp_minus_1)
  then have "1 + t_lo ((mtime_cycle None None ^^ n) s) \<noteq> 0" by (metis add_eq_0_iff)
  from unatSuc [OF this] u show ?case
    by (simp add: mtime_cycle_sel add.commute [of "t_lo ((mtime_cycle None None ^^ n) s)"])
qed simp

lemma time_set_value:
  assumes "\<forall>i. gap i \<le> 2 ^ 29"
  shows "mtime_val (mtime_state gap init (log (neorv32_clint_time_set t m)))
    = t + of_nat (Suc (gap (List.length (log m) + 2)))"
proof -
  let ?n = "List.length (log m)"
  let ?w1 = "mtime_cycle (Some 0) None (mtime_state gap init (log m))"
  let ?s1 = "(mtime_cycle None None ^^ Suc (gap ?n)) ?w1"
  let ?w2 = "mtime_cycle None (Some (hi32 t)) ?s1"
  let ?s2 = "(mtime_cycle None None ^^ Suc (gap (Suc ?n))) ?w2"
  let ?w3 = "mtime_cycle (Some (lo32 t)) None ?s2"
  have st: "mtime_state gap init (log (neorv32_clint_time_set t m))
      = (mtime_cycle None None ^^ Suc (gap (Suc (Suc ?n)))) ?w3"
    by (simp add: neorv32_clint_time_set_def wr_def mtime_write_def)
  have g: "gap i \<le> 2 ^ 29" for i using assms by blast
  have "unat (t_lo ?w1) = 0" by (simp add: mtime_cycle_sel)
  then have s1: "unat (t_lo ?s1) = Suc (gap ?n)" using g [of ?n] by (subst mtime_small_lo) simp_all
  have nc: "t_lo s \<noteq> - 1" if "unat (t_lo s) < 2 ^ 31" for s
    using that by (auto simp: unsigned_minus_1_eq_mask mask_eq_exp_minus_1)
  have "unat (t_lo ?w2) = unat (t_lo ((mtime_cycle None None ^^ Suc 0) ?s1))"
    by (simp add: mtime_cycle_sel)
  also have "\<dots> = gap ?n + 2" using s1 g [of ?n] by (subst mtime_small_lo) simp_all
  finally have w2: "unat (t_lo ?w2) = gap ?n + 2" .
  have w2h: "t_hi ?w2 = hi32 t" "\<not> t_carry ?w2"
    using nc [of ?s1] s1 g [of ?n] by (simp_all add: mtime_cycle_sel)
  have hi: "t_hi ((mtime_cycle None None ^^ k) ?w2) = hi32 t \<and> \<not> t_carry ((mtime_cycle None None ^^ k) ?w2)"
    if "k \<le> 2 ^ 29 + 1" for k
    using that
  proof (induction k)
    case (Suc k)
    have "unat (t_lo ((mtime_cycle None None ^^ k) ?w2)) = gap ?n + 2 + k"
      using w2 Suc.prems g [of ?n] by (subst mtime_small_lo) simp_all
    then have "t_lo ((mtime_cycle None None ^^ k) ?w2) \<noteq> - 1"
      using Suc.prems g [of ?n] by (intro nc) simp
    with Suc show ?case by (simp add: mtime_cycle_sel)
  qed (use w2h in simp)
  have s2: "t_hi ?s2 = hi32 t" "\<not> t_carry ?s2" using hi [of "Suc (gap (Suc ?n))"] g [of "Suc ?n"] by auto
  have "unat (t_lo ?s2) = gap ?n + 2 + Suc (gap (Suc ?n))"
    using w2 g [of ?n] g [of "Suc ?n"] by (subst mtime_small_lo) simp_all
  then have "t_lo ?s2 \<noteq> - 1" using g [of ?n] g [of "Suc ?n"] by (intro nc) simp
  then have "mtime_val ?w3 = t" using s2 by (simp add: mtime_val_def mtime_cycle_sel)
  then show ?thesis unfolding st mtime_idle(1) by simp
qed

end
