(* ===== verification/Slink.thy ===== *)
theory Slink
  imports Sysinfo
begin

text \<open>
  The stream link driver, \<^verbatim>\<open>sw/lib/source/neorv32_slink.c\<close>.
\<close>

section \<open>Registers\<close>

definition SLINK_CTRL :: loc where "SLINK_CTRL = Mem W32 (NEORV32_SLINK_BASE)"
definition SLINK_ROUTE :: loc where "SLINK_ROUTE = Mem W32 (NEORV32_SLINK_BASE + 4)"
definition SLINK_DATA :: loc where "SLINK_DATA = Mem W32 (NEORV32_SLINK_BASE + 8)"
definition SLINK_DATA_LAST :: loc where "SLINK_DATA_LAST = Mem W32 (NEORV32_SLINK_BASE + 12)"

lemmas slink_regs = SLINK_CTRL_def SLINK_ROUTE_def SLINK_DATA_def SLINK_DATA_LAST_def NEORV32_SLINK_BASE_def

datatype slink_ctrl_bit =
    SLINK_CTRL_EN
  | SLINK_CTRL_RX_EMPTY
  | SLINK_CTRL_RX_FULL
  | SLINK_CTRL_TX_EMPTY
  | SLINK_CTRL_TX_FULL
  | SLINK_CTRL_RX_LAST
  | SLINK_CTRL_IRQ_RX_NEMPTY
  | SLINK_CTRL_IRQ_RX_FULL
  | SLINK_CTRL_IRQ_TX_EMPTY
  | SLINK_CTRL_IRQ_TX_NFULL
  | SLINK_CTRL_RX_FIFO_LSB
  | SLINK_CTRL_RX_FIFO_MSB
  | SLINK_CTRL_TX_FIFO_LSB
  | SLINK_CTRL_TX_FIFO_MSB

primrec slink_ctrl :: "slink_ctrl_bit \<Rightarrow> nat" where
    "slink_ctrl SLINK_CTRL_EN = 0"
  | "slink_ctrl SLINK_CTRL_RX_EMPTY = 8"
  | "slink_ctrl SLINK_CTRL_RX_FULL = 9"
  | "slink_ctrl SLINK_CTRL_TX_EMPTY = 10"
  | "slink_ctrl SLINK_CTRL_TX_FULL = 11"
  | "slink_ctrl SLINK_CTRL_RX_LAST = 12"
  | "slink_ctrl SLINK_CTRL_IRQ_RX_NEMPTY = 16"
  | "slink_ctrl SLINK_CTRL_IRQ_RX_FULL = 17"
  | "slink_ctrl SLINK_CTRL_IRQ_TX_EMPTY = 18"
  | "slink_ctrl SLINK_CTRL_IRQ_TX_NFULL = 19"
  | "slink_ctrl SLINK_CTRL_RX_FIFO_LSB = 24"
  | "slink_ctrl SLINK_CTRL_RX_FIFO_MSB = 27"
  | "slink_ctrl SLINK_CTRL_TX_FIFO_LSB = 28"
  | "slink_ctrl SLINK_CTRL_TX_FIFO_MSB = 31"

section \<open>Driver\<close>

definition neorv32_slink_available :: "mach \<Rightarrow> u32 \<times> mach" where
  "neorv32_slink_available m = soc_test SYSINFO_SOC_IO_SLINK m"

definition slink_irq_mask :: u32 where
  "slink_irq_mask = BIT (slink_ctrl SLINK_CTRL_IRQ_RX_NEMPTY) OR BIT (slink_ctrl SLINK_CTRL_IRQ_RX_FULL)
     OR BIT (slink_ctrl SLINK_CTRL_IRQ_TX_EMPTY) OR BIT (slink_ctrl SLINK_CTRL_IRQ_TX_NFULL)"

definition neorv32_slink_setup :: "u32 \<Rightarrow> mach \<Rightarrow> mach" where
  "neorv32_slink_setup irq_mask m =
     (let m = wr SLINK_CTRL 0 m;
          tmp = BIT (slink_ctrl SLINK_CTRL_EN)
      in wr SLINK_CTRL (tmp OR (irq_mask AND slink_irq_mask)) m)"

definition neorv32_slink_get_rx_fifo_depth :: "mach \<Rightarrow> u32 \<times> mach" where
  "neorv32_slink_get_rx_fifo_depth m = reg_pow2 SLINK_CTRL (slink_ctrl SLINK_CTRL_RX_FIFO_LSB) m"

definition neorv32_slink_get_tx_fifo_depth :: "mach \<Rightarrow> u32 \<times> mach" where
  "neorv32_slink_get_tx_fifo_depth m = reg_pow2 SLINK_CTRL (slink_ctrl SLINK_CTRL_TX_FIFO_LSB) m"

definition neorv32_slink_get :: "mach \<Rightarrow> u32 \<times> mach" where
  "neorv32_slink_get m = rd SLINK_DATA m"

definition neorv32_slink_check_last :: "mach \<Rightarrow> u32 \<times> mach" where
  "neorv32_slink_check_last m = reg_test SLINK_CTRL (slink_ctrl SLINK_CTRL_RX_LAST) m"

definition neorv32_slink_set_dst :: "u32 \<Rightarrow> mach \<Rightarrow> mach" where
  "neorv32_slink_set_dst dst m = wr SLINK_ROUTE dst m"

definition neorv32_slink_get_src :: "mach \<Rightarrow> u32 \<times> mach" where
  "neorv32_slink_get_src m = rd SLINK_ROUTE m"

definition neorv32_slink_put :: "u32 \<Rightarrow> mach \<Rightarrow> mach" where
  "neorv32_slink_put tx_data m = wr SLINK_DATA tx_data m"

definition neorv32_slink_put_last :: "u32 \<Rightarrow> mach \<Rightarrow> mach" where
  "neorv32_slink_put_last tx_data m = wr SLINK_DATA_LAST tx_data m"

definition neorv32_slink_rx_empty :: "mach \<Rightarrow> u32 \<times> mach" where
  "neorv32_slink_rx_empty m = reg_test SLINK_CTRL (slink_ctrl SLINK_CTRL_RX_EMPTY) m"

definition neorv32_slink_rx_full :: "mach \<Rightarrow> u32 \<times> mach" where
  "neorv32_slink_rx_full m = reg_test SLINK_CTRL (slink_ctrl SLINK_CTRL_RX_FULL) m"

definition neorv32_slink_tx_empty :: "mach \<Rightarrow> u32 \<times> mach" where
  "neorv32_slink_tx_empty m = reg_test SLINK_CTRL (slink_ctrl SLINK_CTRL_TX_EMPTY) m"

definition neorv32_slink_tx_full :: "mach \<Rightarrow> u32 \<times> mach" where
  "neorv32_slink_tx_full m = reg_test SLINK_CTRL (slink_ctrl SLINK_CTRL_TX_FULL) m"

end
