(* ===== verification/Sdi.thy ===== *)
theory Sdi
  imports Sysinfo
begin

text \<open>
  The serial data interface driver (SPI device), \<^verbatim>\<open>sw/lib/source/neorv32_sdi.c\<close>.
\<close>

section \<open>Registers\<close>

definition SDI_CTRL :: loc where "SDI_CTRL = Mem W32 (NEORV32_SDI_BASE)"
definition SDI_DATA :: loc where "SDI_DATA = Mem W32 (NEORV32_SDI_BASE + 4)"

lemmas sdi_regs = SDI_CTRL_def SDI_DATA_def NEORV32_SDI_BASE_def

datatype sdi_ctrl_bit =
    SDI_CTRL_EN
  | SDI_CTRL_CLR_RX
  | SDI_CTRL_CLR_TX
  | SDI_CTRL_FIFO_LSB
  | SDI_CTRL_FIFO_MSB
  | SDI_CTRL_IRQ_RX_NEMPTY
  | SDI_CTRL_IRQ_RX_FULL
  | SDI_CTRL_IRQ_TX_EMPTY
  | SDI_CTRL_RX_EMPTY
  | SDI_CTRL_RX_FULL
  | SDI_CTRL_TX_EMPTY
  | SDI_CTRL_TX_FULL
  | SDI_CTRL_CS_ACTIVE

primrec sdi_ctrl :: "sdi_ctrl_bit \<Rightarrow> nat" where
    "sdi_ctrl SDI_CTRL_EN = 0"
  | "sdi_ctrl SDI_CTRL_CLR_RX = 1"
  | "sdi_ctrl SDI_CTRL_CLR_TX = 2"
  | "sdi_ctrl SDI_CTRL_FIFO_LSB = 4"
  | "sdi_ctrl SDI_CTRL_FIFO_MSB = 7"
  | "sdi_ctrl SDI_CTRL_IRQ_RX_NEMPTY = 16"
  | "sdi_ctrl SDI_CTRL_IRQ_RX_FULL = 17"
  | "sdi_ctrl SDI_CTRL_IRQ_TX_EMPTY = 18"
  | "sdi_ctrl SDI_CTRL_RX_EMPTY = 24"
  | "sdi_ctrl SDI_CTRL_RX_FULL = 25"
  | "sdi_ctrl SDI_CTRL_TX_EMPTY = 26"
  | "sdi_ctrl SDI_CTRL_TX_FULL = 27"
  | "sdi_ctrl SDI_CTRL_CS_ACTIVE = 31"

section \<open>Driver\<close>

definition neorv32_sdi_available :: "mach \<Rightarrow> u32 \<times> mach" where
  "neorv32_sdi_available m = soc_test SYSINFO_SOC_IO_SDI m"

definition sdi_irq_mask :: u32 where
  "sdi_irq_mask = BIT (sdi_ctrl SDI_CTRL_IRQ_RX_NEMPTY) OR BIT (sdi_ctrl SDI_CTRL_IRQ_RX_FULL)
     OR BIT (sdi_ctrl SDI_CTRL_IRQ_TX_EMPTY)"

definition neorv32_sdi_setup :: "u32 \<Rightarrow> mach \<Rightarrow> mach" where
  "neorv32_sdi_setup irq_mask m =
     (let m = wr SDI_CTRL 0 m;
          tmp = BIT (sdi_ctrl SDI_CTRL_EN)
      in wr SDI_CTRL (tmp OR (irq_mask AND sdi_irq_mask)) m)"

definition neorv32_sdi_disable :: "mach \<Rightarrow> mach" where
  "neorv32_sdi_disable m = MMREG32_BCLR SDI_CTRL (BIT (sdi_ctrl SDI_CTRL_EN)) m"

definition neorv32_sdi_enable :: "mach \<Rightarrow> mach" where
  "neorv32_sdi_enable m = MMREG32_BSET SDI_CTRL (BIT (sdi_ctrl SDI_CTRL_EN)) m"

definition neorv32_sdi_get_fifo_depth :: "mach \<Rightarrow> u32 \<times> mach" where
  "neorv32_sdi_get_fifo_depth m = reg_pow2 SDI_CTRL (sdi_ctrl SDI_CTRL_FIFO_LSB) m"

definition neorv32_sdi_put :: "u8 \<Rightarrow> mach \<Rightarrow> mach option" where
  "neorv32_sdi_put data m =
     do { m \<leftarrow> poll (\<lambda>v. v AND BIT (sdi_ctrl SDI_CTRL_TX_FULL) \<noteq> 0) SDI_CTRL m;
          Some (wr SDI_DATA (ucast data) m) }"

definition neorv32_sdi_get :: "mach \<Rightarrow> (u8 \<times> mach) option" where
  "neorv32_sdi_get m =
     do { m \<leftarrow> poll (\<lambda>v. v AND BIT (sdi_ctrl SDI_CTRL_RX_EMPTY) \<noteq> 0) SDI_CTRL m;
          let (v, m) = rd SDI_DATA m;
          Some (ucast v, m) }"

definition neorv32_sdi_put_nonblocking :: "u8 \<Rightarrow> mach \<Rightarrow> mach" where
  "neorv32_sdi_put_nonblocking data m = wr SDI_DATA (ucast data) m"

definition neorv32_sdi_get_nonblocking :: "mach \<Rightarrow> u8 \<times> mach" where
  "neorv32_sdi_get_nonblocking m = (let (v, m) = rd SDI_DATA m in (ucast v, m))"

definition neorv32_sdi_rx_empty :: "mach \<Rightarrow> u32 \<times> mach" where
  "neorv32_sdi_rx_empty m = reg_test SDI_CTRL (sdi_ctrl SDI_CTRL_RX_EMPTY) m"

definition neorv32_sdi_rx_full :: "mach \<Rightarrow> u32 \<times> mach" where
  "neorv32_sdi_rx_full m = reg_test SDI_CTRL (sdi_ctrl SDI_CTRL_RX_FULL) m"

definition neorv32_sdi_tx_empty :: "mach \<Rightarrow> u32 \<times> mach" where
  "neorv32_sdi_tx_empty m = reg_test SDI_CTRL (sdi_ctrl SDI_CTRL_TX_EMPTY) m"

definition neorv32_sdi_tx_full :: "mach \<Rightarrow> u32 \<times> mach" where
  "neorv32_sdi_tx_full m = reg_test SDI_CTRL (sdi_ctrl SDI_CTRL_TX_FULL) m"

definition neorv32_sdi_rx_clear :: "mach \<Rightarrow> mach" where
  "neorv32_sdi_rx_clear m = MMREG32_BSET SDI_CTRL (BIT (sdi_ctrl SDI_CTRL_CLR_RX)) m"

definition neorv32_sdi_tx_clear :: "mach \<Rightarrow> mach" where
  "neorv32_sdi_tx_clear m = MMREG32_BSET SDI_CTRL (BIT (sdi_ctrl SDI_CTRL_CLR_TX)) m"

definition neorv32_sdi_check_cs :: "mach \<Rightarrow> u32 \<times> mach" where
  "neorv32_sdi_check_cs m = reg_test SDI_CTRL (sdi_ctrl SDI_CTRL_CS_ACTIVE) m"

end
