(* ===== verification/Trng.thy ===== *)
theory Trng
  imports Sysinfo
begin

text \<open>
  The random number generator driver, \<^verbatim>\<open>sw/lib/source/neorv32_trng.c\<close>.
\<close>

section \<open>Registers\<close>

definition TRNG_CTRL :: loc where "TRNG_CTRL = Mem W32 (NEORV32_TRNG_BASE)"
definition TRNG_DATA :: loc where "TRNG_DATA = Mem W32 (NEORV32_TRNG_BASE + 4)"

lemmas trng_regs = TRNG_CTRL_def TRNG_DATA_def NEORV32_TRNG_BASE_def

datatype trng_ctrl_bit =
    TRNG_CTRL_EN
  | TRNG_CTRL_FIFO_CLR
  | TRNG_CTRL_SIM_MODE
  | TRNG_CTRL_AVAIL
  | TRNG_CTRL_FIFO_LSB
  | TRNG_CTRL_FIFO_MSB
  | TRNG_CTRL_NBIT_LSB
  | TRNG_CTRL_NBIT_MSB
  | TRNG_CTRL_NRO_LSB
  | TRNG_CTRL_NRO_MSB
  | TRNG_CTRL_NINV_LSB
  | TRNG_CTRL_NINV_MSB

primrec trng_ctrl :: "trng_ctrl_bit \<Rightarrow> nat" where
    "trng_ctrl TRNG_CTRL_EN = 0"
  | "trng_ctrl TRNG_CTRL_FIFO_CLR = 1"
  | "trng_ctrl TRNG_CTRL_SIM_MODE = 2"
  | "trng_ctrl TRNG_CTRL_AVAIL = 3"
  | "trng_ctrl TRNG_CTRL_FIFO_LSB = 4"
  | "trng_ctrl TRNG_CTRL_FIFO_MSB = 7"
  | "trng_ctrl TRNG_CTRL_NBIT_LSB = 8"
  | "trng_ctrl TRNG_CTRL_NBIT_MSB = 11"
  | "trng_ctrl TRNG_CTRL_NRO_LSB = 12"
  | "trng_ctrl TRNG_CTRL_NRO_MSB = 19"
  | "trng_ctrl TRNG_CTRL_NINV_LSB = 20"
  | "trng_ctrl TRNG_CTRL_NINV_MSB = 31"

section \<open>Driver\<close>

definition neorv32_trng_available :: "mach \<Rightarrow> u32 \<times> mach" where
  "neorv32_trng_available m = soc_test SYSINFO_SOC_IO_TRNG m"

definition neorv32_trng_enable :: "mach \<Rightarrow> mach" where
  "neorv32_trng_enable m =
     (let m = wr TRNG_CTRL 0 m;
          m = (tick Nop ^^ 64) m
      in wr TRNG_CTRL (BIT (trng_ctrl TRNG_CTRL_EN)) m)"

definition neorv32_trng_disable :: "mach \<Rightarrow> mach" where
  "neorv32_trng_disable m = wr TRNG_CTRL 0 m"

definition neorv32_trng_fifo_clear :: "mach \<Rightarrow> mach" where
  "neorv32_trng_fifo_clear m = MMREG32_BSET TRNG_CTRL (BIT (trng_ctrl TRNG_CTRL_FIFO_CLR)) m"

definition neorv32_trng_get_fifo_depth :: "mach \<Rightarrow> u32 \<times> mach" where
  "neorv32_trng_get_fifo_depth m = reg_pow2 TRNG_CTRL (trng_ctrl TRNG_CTRL_FIFO_LSB) m"

definition neorv32_trng_get_num_raw_bits :: "mach \<Rightarrow> u32 \<times> mach" where
  "neorv32_trng_get_num_raw_bits m = reg_pow2 TRNG_CTRL (trng_ctrl TRNG_CTRL_NBIT_LSB) m"

definition neorv32_trng_get_num_ros :: "mach \<Rightarrow> u32 \<times> mach" where
  "neorv32_trng_get_num_ros m =
     (let (v, m) = rd TRNG_CTRL m in (drop_bit (trng_ctrl TRNG_CTRL_NRO_LSB) v AND 0xff, m))"

definition neorv32_trng_get_num_inv :: "mach \<Rightarrow> u32 \<times> mach" where
  "neorv32_trng_get_num_inv m =
     (let (v, m) = rd TRNG_CTRL m in (drop_bit (trng_ctrl TRNG_CTRL_NINV_LSB) v AND 0xfff, m))"

definition neorv32_trng_data_avail :: "mach \<Rightarrow> u32 \<times> mach" where
  "neorv32_trng_data_avail m = reg_test TRNG_CTRL (trng_ctrl TRNG_CTRL_AVAIL) m"

definition neorv32_trng_data_get :: "mach \<Rightarrow> u8 \<times> mach" where
  "neorv32_trng_data_get m = (let (v, m) = rd TRNG_DATA m in (ucast v, m))"

definition neorv32_trng_check_sim_mode :: "mach \<Rightarrow> u32 \<times> mach" where
  "neorv32_trng_check_sim_mode m = reg_test TRNG_CTRL (trng_ctrl TRNG_CTRL_SIM_MODE) m"

end
