(* ===== verification/Tracer.thy ===== *)
theory Tracer
  imports Sysinfo
begin

text \<open>
  The execution tracer driver, \<^verbatim>\<open>sw/lib/source/neorv32_tracer.c\<close> and the two inline
  functions of \<^verbatim>\<open>neorv32_tracer.h\<close>.
\<close>

section \<open>Registers\<close>

definition TRACER_CTRL :: loc where "TRACER_CTRL = Mem W32 (NEORV32_TRACER_BASE)"
definition TRACER_STOP_ADDR :: loc where "TRACER_STOP_ADDR = Mem W32 (NEORV32_TRACER_BASE + 4)"
definition TRACER_DELTA_SRC :: loc where "TRACER_DELTA_SRC = Mem W32 (NEORV32_TRACER_BASE + 8)"
definition TRACER_DELTA_DST :: loc where "TRACER_DELTA_DST = Mem W32 (NEORV32_TRACER_BASE + 12)"

lemmas tracer_regs = TRACER_CTRL_def TRACER_STOP_ADDR_def TRACER_DELTA_SRC_def TRACER_DELTA_DST_def NEORV32_TRACER_BASE_def

datatype tracer_ctrl_bit =
    TRACER_CTRL_EN
  | TRACER_CTRL_HSEL
  | TRACER_CTRL_START
  | TRACER_CTRL_STOP
  | TRACER_CTRL_RUN
  | TRACER_CTRL_AVAIL
  | TRACER_CTRL_IRQ_CLR
  | TRACER_CTRL_TBM_LSB
  | TRACER_CTRL_TBM_MSB

primrec tracer_ctrl :: "tracer_ctrl_bit \<Rightarrow> nat" where
    "tracer_ctrl TRACER_CTRL_EN = 0"
  | "tracer_ctrl TRACER_CTRL_HSEL = 1"
  | "tracer_ctrl TRACER_CTRL_START = 2"
  | "tracer_ctrl TRACER_CTRL_STOP = 3"
  | "tracer_ctrl TRACER_CTRL_RUN = 4"
  | "tracer_ctrl TRACER_CTRL_AVAIL = 5"
  | "tracer_ctrl TRACER_CTRL_IRQ_CLR = 6"
  | "tracer_ctrl TRACER_CTRL_TBM_LSB = 7"
  | "tracer_ctrl TRACER_CTRL_TBM_MSB = 10"

section \<open>Driver\<close>

definition neorv32_tracer_available :: "mach \<Rightarrow> u32 \<times> mach" where
  "neorv32_tracer_available m = soc_test SYSINFO_SOC_IO_TRACER m"

definition neorv32_tracer_enable :: "u32 \<Rightarrow> u32 \<Rightarrow> mach \<Rightarrow> mach" where
  "neorv32_tracer_enable hsel stop_addr m =
     (let m = wr TRACER_CTRL 0 m;
          m = wr TRACER_STOP_ADDR stop_addr m;
          tmp = BIT (tracer_ctrl TRACER_CTRL_EN);
          tmp = tmp OR push_bit (tracer_ctrl TRACER_CTRL_HSEL) (hsel AND 1)
      in wr TRACER_CTRL tmp m)"

definition neorv32_tracer_disable :: "mach \<Rightarrow> mach" where
  "neorv32_tracer_disable m = wr TRACER_CTRL 0 m"

definition neorv32_tracer_get_buffer_depth :: "mach \<Rightarrow> u32 \<times> mach" where
  "neorv32_tracer_get_buffer_depth m = reg_pow2 TRACER_CTRL (tracer_ctrl TRACER_CTRL_TBM_LSB) m"

definition neorv32_tracer_run :: "mach \<Rightarrow> u32 \<times> mach" where
  "neorv32_tracer_run m = reg_test TRACER_CTRL (tracer_ctrl TRACER_CTRL_RUN) m"

definition neorv32_tracer_irq_ack :: "mach \<Rightarrow> mach" where
  "neorv32_tracer_irq_ack m = MMREG32_BSET TRACER_CTRL (BIT (tracer_ctrl TRACER_CTRL_IRQ_CLR)) m"

definition neorv32_tracer_data_avail :: "mach \<Rightarrow> u32 \<times> mach" where
  "neorv32_tracer_data_avail m = reg_test TRACER_CTRL (tracer_ctrl TRACER_CTRL_AVAIL) m"

definition neorv32_tracer_data_get_src :: "mach \<Rightarrow> u32 \<times> mach" where
  "neorv32_tracer_data_get_src m = rd TRACER_DELTA_SRC m"

definition neorv32_tracer_data_get_dst :: "mach \<Rightarrow> u32 \<times> mach" where
  "neorv32_tracer_data_get_dst m = rd TRACER_DELTA_DST m"

definition neorv32_tracer_start :: "mach \<Rightarrow> mach" where
  "neorv32_tracer_start m = MMREG32_BSET TRACER_CTRL (BIT (tracer_ctrl TRACER_CTRL_START)) m"

text \<open>The header writes \<^verbatim>\<open>11 << TRACER_CTRL_STOP\<close>.\<close>

definition neorv32_tracer_stop :: "mach \<Rightarrow> mach" where
  "neorv32_tracer_stop m = MMREG32_BSET TRACER_CTRL (push_bit (tracer_ctrl TRACER_CTRL_STOP) 11) m"

lemma tracer_stop_written:
  "\<exists>w. written TRACER_CTRL (neorv32_tracer_stop m) = written TRACER_CTRL m @ [w]
    \<and> bit w (tracer_ctrl TRACER_CTRL_STOP) \<and> bit w (tracer_ctrl TRACER_CTRL_IRQ_CLR)"
  by (simp add: neorv32_tracer_stop_def MMREG32_BSET_def rd_def bit_or_iff)

end
