(* ===== verification/Dma.thy ===== *)
theory Dma
  imports Sysinfo
begin

text \<open>
  The DMA driver, \<^verbatim>\<open>sw/lib/source/neorv32_dma.c\<close>.  A descriptor is three words pushed into
  the descriptor FIFO one by one.
\<close>

section \<open>Registers\<close>

definition DMA_CTRL :: loc where "DMA_CTRL = Mem W32 (NEORV32_DMA_BASE)"
definition DMA_DESC :: loc where "DMA_DESC = Mem W32 (NEORV32_DMA_BASE + 4)"

lemmas dma_regs = DMA_CTRL_def DMA_DESC_def NEORV32_DMA_BASE_def

datatype dma_ctrl_bit =
    DMA_CTRL_EN
  | DMA_CTRL_START
  | DMA_CTRL_DFIFO_LSB
  | DMA_CTRL_DFIFO_MSB
  | DMA_CTRL_ACK
  | DMA_CTRL_DEMPTY
  | DMA_CTRL_DFULL
  | DMA_CTRL_ERROR
  | DMA_CTRL_DONE
  | DMA_CTRL_BUSY

primrec dma_ctrl :: "dma_ctrl_bit \<Rightarrow> nat" where
    "dma_ctrl DMA_CTRL_EN = 0"
  | "dma_ctrl DMA_CTRL_START = 1"
  | "dma_ctrl DMA_CTRL_DFIFO_LSB = 16"
  | "dma_ctrl DMA_CTRL_DFIFO_MSB = 19"
  | "dma_ctrl DMA_CTRL_ACK = 26"
  | "dma_ctrl DMA_CTRL_DEMPTY = 27"
  | "dma_ctrl DMA_CTRL_DFULL = 28"
  | "dma_ctrl DMA_CTRL_ERROR = 29"
  | "dma_ctrl DMA_CTRL_DONE = 30"
  | "dma_ctrl DMA_CTRL_BUSY = 31"

datatype dma_status =
    DMA_STATUS_ERROR
  | DMA_STATUS_IDLE
  | DMA_STATUS_BUSY
  | DMA_STATUS_DONE

section \<open>Driver\<close>

definition neorv32_dma_available :: "mach \<Rightarrow> u32 \<times> mach" where
  "neorv32_dma_available m = soc_test SYSINFO_SOC_IO_DMA m"

definition neorv32_dma_get_descriptor_fifo_depth :: "mach \<Rightarrow> u32 \<times> mach" where
  "neorv32_dma_get_descriptor_fifo_depth m = reg_pow2 DMA_CTRL (dma_ctrl DMA_CTRL_DFIFO_LSB) m"

definition neorv32_dma_descriptor_fifo_full :: "mach \<Rightarrow> u32 \<times> mach" where
  "neorv32_dma_descriptor_fifo_full m = reg_test DMA_CTRL (dma_ctrl DMA_CTRL_DFULL) m"

definition neorv32_dma_descriptor_fifo_empty :: "mach \<Rightarrow> u32 \<times> mach" where
  "neorv32_dma_descriptor_fifo_empty m = reg_test DMA_CTRL (dma_ctrl DMA_CTRL_DEMPTY) m"

definition neorv32_dma_enable :: "mach \<Rightarrow> mach" where
  "neorv32_dma_enable m = MMREG32_BSET DMA_CTRL (BIT (dma_ctrl DMA_CTRL_EN)) m"

definition neorv32_dma_disable :: "mach \<Rightarrow> mach" where
  "neorv32_dma_disable m = MMREG32_BCLR DMA_CTRL (BIT (dma_ctrl DMA_CTRL_EN)) m"

definition neorv32_dma_irq_ack :: "mach \<Rightarrow> mach" where
  "neorv32_dma_irq_ack m = MMREG32_BSET DMA_CTRL (BIT (dma_ctrl DMA_CTRL_ACK)) m"

definition neorv32_dma_program :: "u32 \<Rightarrow> u32 \<Rightarrow> u32 \<Rightarrow> mach \<Rightarrow> int \<times> mach" where
  "neorv32_dma_program src_addr dst_addr config m =
     (let (v, m) = reg_test DMA_CTRL (dma_ctrl DMA_CTRL_DFULL) m
      in if v \<noteq> 0 then (- 3, m)
         else
           let m = wr DMA_DESC src_addr m;
               (v, m) = reg_test DMA_CTRL (dma_ctrl DMA_CTRL_DFULL) m
           in if v \<noteq> 0 then (- 2, m)
              else
                let m = wr DMA_DESC dst_addr m;
                    (v, m) = reg_test DMA_CTRL (dma_ctrl DMA_CTRL_DFULL) m
                in if v \<noteq> 0 then (- 1, m)
                   else (0, wr DMA_DESC config m))"

definition neorv32_dma_program_nocheck :: "u32 \<Rightarrow> u32 \<Rightarrow> u32 \<Rightarrow> mach \<Rightarrow> mach" where
  "neorv32_dma_program_nocheck src_addr dst_addr config m =
     wr DMA_DESC config (wr DMA_DESC dst_addr (wr DMA_DESC src_addr m))"

definition neorv32_dma_start :: "mach \<Rightarrow> mach" where
  "neorv32_dma_start m = MMREG32_BSET DMA_CTRL (BIT (dma_ctrl DMA_CTRL_START)) m"

definition neorv32_dma_status :: "mach \<Rightarrow> dma_status \<times> mach" where
  "neorv32_dma_status m =
     (let (tmp, m) = rd DMA_CTRL m
      in (if tmp AND BIT (dma_ctrl DMA_CTRL_ERROR) \<noteq> 0 then DMA_STATUS_ERROR
          else if tmp AND BIT (dma_ctrl DMA_CTRL_BUSY) \<noteq> 0 then DMA_STATUS_BUSY
          else if tmp AND BIT (dma_ctrl DMA_CTRL_DONE) \<noteq> 0 then DMA_STATUS_DONE
          else DMA_STATUS_IDLE, m))"

section \<open>A refused descriptor\<close>

lemma dma_regs_distinct [simp]: "DMA_CTRL \<noteq> DMA_DESC" "DMA_DESC \<noteq> DMA_CTRL"
  by (simp_all add: dma_regs)

text \<open>The result says how many words are missing; those before have been pushed already.\<close>

lemma dma_program_words:
  assumes "neorv32_dma_program src dst config m = (r, m')"
  shows "- 3 \<le> r \<and> r \<le> 0
    \<and> written DMA_DESC m' = written DMA_DESC m @ take (nat (3 + r)) [src, dst, config]"
  using assms by (auto simp: neorv32_dma_program_def Let_def reg_test_def rd_def split: if_splits)

end
