(* ===== verification/Wdt.thy ===== *)
theory Wdt
  imports Sysinfo
begin

text \<open>
  The watchdog: the driver \<^verbatim>\<open>sw/lib/source/neorv32_wdt.c\<close> and, clock by clock, the hardware of
  \<^verbatim>\<open>rtl/core/neorv32_wdt.vhd\<close> with the system reset it raises, which comes back through the
  sequencer of \<^verbatim>\<open>rtl/core/neorv32_sys.vhd\<close> and clears it.  When accesses and ticks of the clock
  divider happen is a parameter; external and debugger resets do not occur.
\<close>

section \<open>Registers\<close>

definition WDT_CTRL :: loc where "WDT_CTRL = Mem W32 (NEORV32_WDT_BASE)"
definition WDT_RESET :: loc where "WDT_RESET = Mem W32 (NEORV32_WDT_BASE + 4)"

lemmas wdt_regs = WDT_CTRL_def WDT_RESET_def NEORV32_WDT_BASE_def

datatype wdt_ctrl_bit =
    WDT_CTRL_EN
  | WDT_CTRL_LOCK
  | WDT_CTRL_RCAUSE_LO
  | WDT_CTRL_RCAUSE_HI
  | WDT_CTRL_TIMEOUT_LSB
  | WDT_CTRL_TIMEOUT_MSB

primrec wdt_ctrl :: "wdt_ctrl_bit \<Rightarrow> nat" where
    "wdt_ctrl WDT_CTRL_EN = 0"
  | "wdt_ctrl WDT_CTRL_LOCK = 1"
  | "wdt_ctrl WDT_CTRL_RCAUSE_LO = 2"
  | "wdt_ctrl WDT_CTRL_RCAUSE_HI = 3"
  | "wdt_ctrl WDT_CTRL_TIMEOUT_LSB = 8"
  | "wdt_ctrl WDT_CTRL_TIMEOUT_MSB = 31"

definition WDT_PASSWORD :: u32 where "WDT_PASSWORD = 0x709d1ab3"

section \<open>Driver\<close>

definition neorv32_wdt_available :: "mach \<Rightarrow> u32 \<times> mach" where
  "neorv32_wdt_available m = soc_test SYSINFO_SOC_IO_WDT m"

definition neorv32_wdt_setup :: "u32 \<Rightarrow> u32 \<Rightarrow> mach \<Rightarrow> mach" where
  "neorv32_wdt_setup timeout lock m =
     (let m = wr WDT_CTRL 0 m;
          ctrl = push_bit (wdt_ctrl WDT_CTRL_EN) 1
            OR push_bit (wdt_ctrl WDT_CTRL_TIMEOUT_LSB) (timeout AND 0x00ffffff)
            OR push_bit (wdt_ctrl WDT_CTRL_LOCK) (lock AND 1)
      in wr WDT_CTRL ctrl m)"

definition neorv32_wdt_disable :: "mach \<Rightarrow> u32 \<times> mach" where
  "neorv32_wdt_disable m =
     (let m = MMREG32_BCLR WDT_CTRL (BIT (wdt_ctrl WDT_CTRL_EN)) m
      in reg_test WDT_CTRL (wdt_ctrl WDT_CTRL_EN) m)"

definition neorv32_wdt_feed :: "u32 \<Rightarrow> mach \<Rightarrow> mach" where
  "neorv32_wdt_feed password m = wr WDT_RESET password m"

definition neorv32_wdt_force_hwreset :: "mach \<Rightarrow> mach" where
  "neorv32_wdt_force_hwreset m =
     (let m = wr WDT_CTRL (BIT (wdt_ctrl WDT_CTRL_EN)) m
      in wr WDT_RESET 0 m)"

definition neorv32_wdt_get_cause :: "mach \<Rightarrow> u32 \<times> mach" where
  "neorv32_wdt_get_cause m =
     (let (v, m) = rd WDT_CTRL m in (drop_bit (wdt_ctrl WDT_CTRL_RCAUSE_LO) v AND 0x3, m))"

section \<open>The hardware\<close>

record wdt_hw =
  w_en :: bool
  w_lock :: bool
  w_timeout :: "24 word"
  w_prsc :: bool
  w_cnt :: "24 word"
  w_started :: bool
  w_inc :: bool
  w_feed :: bool
  w_force :: bool
  w_rst_timeout :: bool
  w_rst_access :: bool
  w_cause :: u32
  w_sreg :: "4 word"
  w_rstn :: bool

text \<open>The system reset: everything but the reset cause and the sequencer.\<close>

definition wdt_cleared :: "wdt_hw \<Rightarrow> wdt_hw" where
  "wdt_cleared d = d\<lparr>w_en := False, w_lock := False, w_timeout := 0, w_prsc := False, w_cnt := 0,
     w_started := False, w_inc := False, w_feed := False, w_force := False,
     w_rst_timeout := False, w_rst_access := False\<rparr>"

text \<open>After an external reset.\<close>

definition wdt_init :: wdt_hw where
  "wdt_init = \<lparr>w_en = False, w_lock = False, w_timeout = 0, w_prsc = False, w_cnt = 0,
     w_started = False, w_inc = False, w_feed = False, w_force = False,
     w_rst_timeout = False, w_rst_access = False, w_cause = 0, w_sreg = - 1, w_rstn = True\<rparr>"

text \<open>
  A write request to the watchdog: bit 2 of the address and the data.  The whole device page is
  decoded, and the byte enables are ignored; bytes and half-words come on all lanes.
\<close>

fun lsu_lanes :: "width \<Rightarrow> u32 \<Rightarrow> u32" where
  "lsu_lanes W8 v = (v AND 0xff) * 0x01010101"
| "lsu_lanes W16 v = (v AND 0xffff) * 0x00010001"
| "lsu_lanes W32 v = v"

definition wdt_req :: "event \<Rightarrow> (bool \<times> u32) option" where
  "wdt_req e =
     (case e of
        Wr (Mem w a) v \<Rightarrow>
          if a AND 0xffff0000 = NEORV32_WDT_BASE \<and> aligned w a then Some (bit a 2, lsu_lanes w v) else None
      | _ \<Rightarrow> None)"

text \<open>The bus access of one clock.\<close>

definition wdt_bus :: "(bool \<times> u32) option \<Rightarrow> wdt_hw \<Rightarrow> wdt_hw" where
  "wdt_bus req d =
     (let d = d\<lparr>w_feed := False, w_force := False\<rparr>
      in case req of
           None \<Rightarrow> d
         | Some (a2, v) \<Rightarrow>
             if \<not> a2 then
               if \<not> w_lock d then
                 d\<lparr>w_en := bit v (wdt_ctrl WDT_CTRL_EN), w_lock := bit v (wdt_ctrl WDT_CTRL_LOCK),
                   w_timeout := ucast (drop_bit (wdt_ctrl WDT_CTRL_TIMEOUT_LSB) v)\<rparr>
               else d\<lparr>w_force := True\<rparr>
             else if v = WDT_PASSWORD then d\<lparr>w_feed := True\<rparr>
             else d\<lparr>w_force := True\<rparr>)"

text \<open>The timeout counter and the reset generator; all registers take over the old values.\<close>

definition wdt_counter :: "bool \<Rightarrow> wdt_hw \<Rightarrow> wdt_hw \<Rightarrow> wdt_hw" where
  "wdt_counter clkgen d d' = d'\<lparr>
     w_prsc := clkgen,
     w_inc := w_prsc d \<and> w_started d,
     w_started := w_en d \<and> (w_started d \<or> w_prsc d),
     w_cnt := (if \<not> w_en d \<or> w_feed d then 0 else if w_inc d then w_cnt d + 1 else w_cnt d)\<rparr>"

definition wdt_timeout_hit :: "wdt_hw \<Rightarrow> bool" where
  "wdt_timeout_hit d \<longleftrightarrow> w_started d \<and> w_cnt d = w_timeout d"

definition wdt_generator :: "wdt_hw \<Rightarrow> wdt_hw \<Rightarrow> wdt_hw" where
  "wdt_generator d d' = d'\<lparr>
     w_rst_timeout := w_en d \<and> wdt_timeout_hit d \<and> w_prsc d,
     w_rst_access := w_en d \<and> w_lock d \<and> w_force d\<rparr>"

text \<open>The reset cause and the reset sequencer, which the system reset leaves alone.\<close>

definition wdt_identifier :: "wdt_hw \<Rightarrow> wdt_hw \<Rightarrow> wdt_hw" where
  "wdt_identifier d d' = d'\<lparr>w_cause :=
     (if w_rst_timeout d then 2 else if w_rst_access d then 3 else w_cause d)\<rparr>"

definition sys_sequencer :: "wdt_hw \<Rightarrow> wdt_hw \<Rightarrow> wdt_hw" where
  "sys_sequencer d d' = d'\<lparr>
     w_sreg := (if w_rst_timeout d \<or> w_rst_access d then 0 else push_bit 1 (w_sreg d) OR 1),
     w_rstn := (w_sreg d = - 1)\<rparr>"

definition wdt_clock :: "bool \<Rightarrow> (bool \<times> u32) option \<Rightarrow> wdt_hw \<Rightarrow> wdt_hw" where
  "wdt_clock clkgen req d =
     (let d' = (if w_rstn d then wdt_generator d (wdt_counter clkgen d (wdt_bus req d)) else d);
          d' = sys_sequencer d (wdt_identifier d d')
      in if w_rstn d' then d' else wdt_cleared d')"

text \<open>
  \<open>T n\<close> holds the ticks of the clock divider while the \<open>n\<close>-th access is on the bus and in the
  clocks from there to the next access.
\<close>

type_synonym wdt_time = "nat \<Rightarrow> bool \<times> bool list"

fun wdt_idle :: "bool list \<Rightarrow> wdt_hw \<Rightarrow> wdt_hw" where
  "wdt_idle [] d = d"
| "wdt_idle (t # ts) d = wdt_idle ts (wdt_clock t None d)"

fun wdt_state :: "wdt_time \<Rightarrow> event list \<Rightarrow> wdt_hw" where
  "wdt_state T [] = wdt_init"
| "wdt_state T (e # h) =
     (let (t, ts) = T (List.length h) in wdt_idle ts (wdt_clock t (wdt_req e) (wdt_state T h)))"

definition wdt_read :: "wdt_hw \<Rightarrow> u32" where
  "wdt_read d =
     (if w_en d then BIT (wdt_ctrl WDT_CTRL_EN) else 0)
     OR (if w_lock d then BIT (wdt_ctrl WDT_CTRL_LOCK) else 0)
     OR push_bit (wdt_ctrl WDT_CTRL_RCAUSE_LO) (w_cause d AND 3)
     OR push_bit (wdt_ctrl WDT_CTRL_TIMEOUT_LSB) (ucast (w_timeout d))"

definition wdt_rtl :: "wdt_time \<Rightarrow> (event list \<Rightarrow> loc \<Rightarrow> u32) \<Rightarrow> event list \<Rightarrow> loc \<Rightarrow> u32" where
  "wdt_rtl T rest h l = (if l = WDT_CTRL then wdt_read (wdt_state T h) else rest h l)"

lemma wdt_read_cause: "drop_bit 2 (wdt_read d) AND 3 = w_cause d AND 3"
proof -
  have m: "(3 :: u32) = mask 2" by (simp add: mask_eq_exp_minus_1)
  show ?thesis unfolding m wdt_read_def by (rule bit_word_eqI) (auto simp: bit_simps)
qed

lemma wdt_get_cause:
  assumes "hw m = wdt_rtl T rest"
  shows "fst (neorv32_wdt_get_cause m) = w_cause (wdt_state T (log m)) AND 3"
  using assms by (simp add: neorv32_wdt_get_cause_def rd_def rd_val_def wdt_rtl_def wdt_read_cause)

lemma wdt_req_regs [simp]:
  "wdt_req (Wr WDT_CTRL v) = Some (False, v)" "wdt_req (Wr WDT_RESET v) = Some (True, v)"
  "wdt_req (Rd l v) = None"
  by (simp_all add: wdt_req_def wdt_regs)

lemma wdt_idle_append [simp]: "wdt_idle (ts @ us) d = wdt_idle us (wdt_idle ts d)"
  by (induction ts arbitrary: d) simp_all

section \<open>Not enabled\<close>

text \<open>Disabled for a clock at least, and no reset under way.\<close>

definition wdt_off :: "wdt_hw \<Rightarrow> bool" where
  "wdt_off d \<longleftrightarrow> w_rstn d \<and> w_sreg d = - 1 \<and> \<not> w_en d \<and> \<not> w_lock d \<and> \<not> w_started d
     \<and> \<not> w_rst_timeout d \<and> \<not> w_rst_access d"

lemmas wdt_clock_defs = wdt_clock_def wdt_bus_def wdt_counter_def wdt_generator_def
  wdt_timeout_hit_def wdt_identifier_def sys_sequencer_def

lemma sreg_full [simp]: "push_bit 1 (- 1) OR 1 = (- 1 :: 4 word)"
  by simp

lemma wdt_off_init: "wdt_off wdt_init"
  by (simp add: wdt_off_def wdt_init_def)

lemma wdt_off_idle: "wdt_off d \<Longrightarrow> wdt_off (wdt_idle ts d)"
proof (induction ts arbitrary: d)
  case (Cons t ts)
  have "wdt_off (wdt_clock t None d)" using Cons.prems by (simp add: wdt_off_def wdt_clock_defs Let_def)
  then show ?case using Cons.IH by simp
qed simp

lemma wdt_off_disable: "wdt_off d \<Longrightarrow> wdt_off (wdt_clock t (Some (False, 0)) d)"
  by (simp add: wdt_off_def wdt_clock_defs Let_def)

section \<open>Locked and fed\<close>

text \<open>The counter with the ticks under way to it.\<close>

definition wdt_count :: "wdt_hw \<Rightarrow> nat" where
  "wdt_count d = (if w_feed d then 0 else unat (w_cnt d) + of_bool (w_inc d)) + of_bool (w_prsc d)"

definition wdt_held :: "24 word \<Rightarrow> nat \<Rightarrow> wdt_hw \<Rightarrow> bool" where
  "wdt_held t n d \<longleftrightarrow> w_rstn d \<and> w_sreg d = - 1 \<and> w_en d \<and> w_lock d \<and> w_timeout d = t
     \<and> \<not> w_force d \<and> \<not> w_rst_timeout d \<and> \<not> w_rst_access d \<and> w_cnt d < t \<and> wdt_count d \<le> n"

text \<open>A request that the locked watchdog answers with the reset.\<close>

definition wdt_offends :: "event \<Rightarrow> bool" where
  "wdt_offends e \<longleftrightarrow> (\<exists>a2 v. wdt_req e = Some (a2, v) \<and> \<not> (a2 \<and> v = WDT_PASSWORD))"

text \<open>The ticks since the watchdog was last fed or set up.\<close>

fun wdt_ticks :: "wdt_time \<Rightarrow> event list \<Rightarrow> nat" where
  "wdt_ticks T [] = 0"
| "wdt_ticks T (e # h) =
     (let (t, ts) = T (List.length h)
      in (if wdt_req e = None then wdt_ticks T h else 0) + List.length (filter (\<lambda>t. t) (t # ts)))"

lemma wdt_cnt_next:
  assumes "wdt_held t n d" "n < unat t" "\<not> w_feed d"
  shows "unat (if w_inc d then w_cnt d + 1 else w_cnt d) = unat (w_cnt d) + of_bool (w_inc d)"
proof -
  have "unat (w_cnt d) < unat t" using assms(1) by (simp add: wdt_held_def word_less_nat_alt)
  moreover have "unat t < 2 ^ 24" using unsigned_less [of t] by simp
  ultimately have "Suc (unat (w_cnt d)) < 2 ^ 24" by linarith
  then show ?thesis by (simp add: unat_word_ariths)
qed

lemma wdt_held_clock:
  assumes h: "wdt_held t n d" "n < unat t" and r: "req = None \<or> req = Some (True, WDT_PASSWORD)"
  shows "wdt_held t ((if req = None then n else 0) + of_bool tk) (wdt_clock tk req d)"
proof -
  let ?d = "wdt_clock tk req d"
  have f: "w_rstn ?d" "w_sreg ?d = - 1" "w_en ?d" "w_lock ?d" "w_timeout ?d = t" "\<not> w_force ?d"
    "\<not> w_rst_timeout ?d" "\<not> w_rst_access ?d" "w_prsc ?d = tk" "w_inc ?d = (w_prsc d \<and> w_started d)"
    "w_feed ?d = (req \<noteq> None)"
    "w_cnt ?d = (if w_feed d then 0 else if w_inc d then w_cnt d + 1 else w_cnt d)"
    using h r by (auto simp: wdt_held_def wdt_clock_defs Let_def)
  have c: "unat (w_cnt ?d) + of_bool (w_prsc d) \<le> n"
    using h wdt_cnt_next [OF h] f(12) by (cases "w_feed d") (simp_all add: wdt_held_def wdt_count_def)
  then have "w_cnt ?d < t" using h(2) by (simp add: word_less_nat_alt)
  moreover have "wdt_count ?d \<le> (if req = None then n else 0) + of_bool tk"
    using c f(9-11) by (cases "w_prsc d") (auto simp: wdt_count_def)
  ultimately show ?thesis using f(1-8) by (simp add: wdt_held_def)
qed

lemma wdt_held_idle:
  assumes "wdt_held t n d" "n + List.length (filter (\<lambda>t. t) ts) < unat t"
  shows "wdt_held t (n + List.length (filter (\<lambda>t. t) ts)) (wdt_idle ts d)"
  using assms
proof (induction ts arbitrary: n d)
  case (Cons a ts)
  then show ?case using Cons.IH [OF wdt_held_clock [OF Cons.prems(1), of None a, simplified]]
    by (cases a) simp_all
qed simp

lemma wdt_held_access:
  assumes "wdt_held t (wdt_ticks T h) (wdt_state T h)" "wdt_ticks T h < unat t"
    and "wdt_ticks T (e # h) < unat t" "\<not> wdt_offends e"
  shows "wdt_held t (wdt_ticks T (e # h)) (wdt_state T (e # h))"
proof -
  obtain tk ts where T: "T (List.length h) = (tk, ts)" by (cases "T (List.length h)")
  have "wdt_req e = None \<or> wdt_req e = Some (True, WDT_PASSWORD)"
    using assms(4) by (cases "wdt_req e") (auto simp: wdt_offends_def)
  note wdt_held_clock [OF assms(1,2) this, of tk]
  from wdt_held_idle [OF this, of ts] assms(3) show ?thesis
    by (cases tk) (auto simp: T split: if_splits)
qed

lemma wdt_held_run:
  assumes "wdt_held t (wdt_ticks T h) (wdt_state T h)" "\<forall>e\<in>set k. \<not> wdt_offends e"
    and "\<forall>i \<le> List.length k. wdt_ticks T (drop i k @ h) < unat t"
  shows "wdt_held t (wdt_ticks T (k @ h)) (wdt_state T (k @ h))"
  using assms(2,3)
proof (induction k)
  case (Cons e k)
  have t: "wdt_ticks T (drop i k @ h) < unat t" if "i \<le> List.length k" for i
    using Cons.prems(2) [THEN spec, of "Suc i"] that by simp
  moreover have "wdt_ticks T (e # k @ h) < unat t" using Cons.prems(2) [THEN spec, of 0] by simp
  ultimately show ?case
    using wdt_held_access [of t T "k @ h" e] Cons.IH Cons.prems(1) t [of 0] by simp
qed (simp add: assms(1))

lemma wdt_setup_held:
  assumes "wdt_off (wdt_state T (log m))" "bit lock 0"
    and "wdt_ticks T (log (neorv32_wdt_setup timeout lock m)) < unat (ucast timeout :: 24 word)"
  shows "wdt_held (ucast timeout) (wdt_ticks T (log (neorv32_wdt_setup timeout lock m)))
    (wdt_state T (log (neorv32_wdt_setup timeout lock m)))"
proof -
  define c where "c = push_bit (wdt_ctrl WDT_CTRL_EN) 1
      OR push_bit (wdt_ctrl WDT_CTRL_TIMEOUT_LSB) (timeout AND 0x00ffffff)
      OR push_bit (wdt_ctrl WDT_CTRL_LOCK) (lock AND 1 :: u32)"
  have m: "(0xffffff :: u32) = mask 24" by (simp add: mask_eq_exp_minus_1)
  have o: "bit (1 :: u32) n \<longleftrightarrow> n = 0" for n by (simp add: bit_1_iff)
  have c: "bit c 0" "bit c 1" "ucast (drop_bit 8 c) = (ucast timeout :: 24 word)"
  proof -
    show "bit c 0" by (simp add: c_def bit_simps)
    have "bit (push_bit 1 (lock AND 1)) 1" using assms(2) unfolding bit_push_bit_iff by (simp add: bit_simps)
    then show "bit c 1" by (simp add: c_def bit_or_iff)
    show "ucast (drop_bit 8 c) = (ucast timeout :: 24 word)"
    proof (rule bit_word_eqI)
      fix n assume "n < LENGTH(24)"
      then show "bit (ucast (drop_bit 8 c) :: 24 word) n = bit (ucast timeout :: 24 word) n"
        unfolding c_def m bit_ucast_iff bit_drop_bit_eq comp_def bit_or_iff bit_push_bit_iff bit_and_iff
        by (auto simp: o bit_mask_iff)
    qed
  qed
  let ?n = "List.length (log m)"
  obtain t1 ts1 t2 ts2 where T: "T ?n = (t1, ts1)" "T (Suc ?n) = (t2, ts2)"
    by (cases "T ?n", cases "T (Suc ?n)")
  let ?d1 = "wdt_idle ts1 (wdt_clock t1 (Some (False, 0)) (wdt_state T (log m)))"
  let ?d2 = "wdt_clock t2 (Some (False, c)) ?d1"
  have l: "log (neorv32_wdt_setup timeout lock m) = Wr WDT_CTRL c # Wr WDT_CTRL 0 # log m"
    by (simp add: neorv32_wdt_setup_def wr_def Let_def c_def)
  have s: "wdt_state T (log (neorv32_wdt_setup timeout lock m)) = wdt_idle ts2 ?d2"
    unfolding l by (simp add: T)
  have n: "wdt_ticks T (log (neorv32_wdt_setup timeout lock m))
      = of_bool t2 + List.length (filter (\<lambda>t. t) ts2)" unfolding l by (simp add: T)
  have "wdt_off ?d1" using wdt_off_idle wdt_off_disable [OF assms(1)] by blast
  moreover have "(0 :: 24 word) < ucast timeout" using assms(3) by (simp add: word_less_nat_alt)
  ultimately have "wdt_held (ucast timeout) (of_bool t2) ?d2"
    using c by (simp add: wdt_off_def wdt_held_def wdt_count_def wdt_clock_defs Let_def)
  from wdt_held_idle [OF this, of ts2] assms(3) show ?thesis unfolding s n by simp
qed

section \<open>The reset\<close>

text \<open>After a reset with cause \<open>c\<close>: still in reset, or running and not enabled.\<close>

definition wdt_was_reset :: "u32 \<Rightarrow> wdt_hw \<Rightarrow> bool" where
  "wdt_was_reset c d \<longleftrightarrow> w_cause d = c \<and> \<not> w_en d \<and> \<not> w_lock d \<and> w_timeout d = 0
     \<and> \<not> w_rst_timeout d \<and> \<not> w_rst_access d"

lemma wdt_was_reset_idle: "wdt_was_reset c d \<Longrightarrow> wdt_was_reset c (wdt_idle ts d)"
proof (induction ts arbitrary: d)
  case (Cons a ts)
  have "wdt_was_reset c (wdt_clock a None d)"
    using Cons.prems by (simp add: wdt_was_reset_def wdt_clock_defs wdt_cleared_def Let_def)
  then show ?case using Cons.IH by simp
qed simp

text \<open>An offence: one clock to see it, one to raise the reset, two for the sequencer.\<close>

lemma wdt_offence_resets:
  assumes h: "wdt_held t n d" "n < unat t" and e: "wdt_offends e" and l: "3 \<le> List.length ts"
  shows "wdt_was_reset 3 (wdt_idle ts (wdt_clock tk (wdt_req e) d))"
proof -
  obtain t1 t2 t3 us where ts: "ts = t1 # t2 # t3 # us"
    using l by (metis Suc_le_length_iff numeral_3_eq_3)
  from e obtain a2 v where r: "wdt_req e = Some (a2, v)" "a2 \<Longrightarrow> v \<noteq> WDT_PASSWORD"
    by (auto simp: wdt_offends_def)
  define d1 where "d1 = wdt_clock tk (wdt_req e) d"
  define d2 where "d2 = wdt_clock t1 None d1"
  define d3 where "d3 = wdt_clock t2 None d2"
  have 1: "w_rstn d1" "w_sreg d1 = - 1" "w_en d1" "w_lock d1" "w_timeout d1 = t" "w_force d1" "\<not> w_feed d1"
    "\<not> w_rst_timeout d1" "\<not> w_rst_access d1" "w_inc d1 = (w_prsc d \<and> w_started d)"
    "w_cnt d1 = (if w_feed d then 0 else if w_inc d then w_cnt d + 1 else w_cnt d)"
    using h r unfolding d1_def by (auto simp: wdt_held_def wdt_clock_defs Let_def)
  have c1: "unat (w_cnt d1) + of_bool (w_prsc d) \<le> n"
    using h wdt_cnt_next [OF h] 1(11) by (cases "w_feed d") (simp_all add: wdt_held_def wdt_count_def)
  then have n1: "w_cnt d1 \<noteq> t" using h(2) by auto
  have 2: "w_rstn d2" "w_sreg d2 = - 1" "w_en d2" "w_lock d2" "w_timeout d2 = t" "\<not> w_force d2"
    "\<not> w_rst_timeout d2" "w_rst_access d2" "w_cnt d2 = (if w_inc d1 then w_cnt d1 + 1 else w_cnt d1)"
    using 1 n1 unfolding d2_def by (auto simp: wdt_clock_defs Let_def)
  have "unat (w_cnt d2) \<le> unat (w_cnt d1) + of_bool (w_prsc d)"
    using 1(10) 2(9) by (auto simp: unat_word_ariths intro: order_trans [OF mod_less_eq_dividend])
  then have n2: "w_cnt d2 \<noteq> t" using c1 h(2) by auto
  have 3: "w_rstn d3" "w_sreg d3 = 0" "\<not> w_rst_timeout d3" "\<not> w_rst_access d3" "w_cause d3 = 3"
    using 2 n2 unfolding d3_def by (auto simp: wdt_clock_defs Let_def)
  have "wdt_was_reset 3 (wdt_clock t3 None d3)"
    using 3 by (simp add: wdt_was_reset_def wdt_clock_defs wdt_cleared_def Let_def)
  then show ?thesis using wdt_was_reset_idle by (simp add: ts d1_def d2_def d3_def)
qed


lemma wdt_held_offence:
  assumes "wdt_held t (wdt_ticks T h) (wdt_state T h)" "wdt_ticks T h < unat t" "wdt_offends e"
    and "3 \<le> List.length (snd (T (List.length h)))"
  shows "wdt_was_reset 3 (wdt_state T (e # h))"
  using wdt_offence_resets [OF assms(1-3), of "snd (T (List.length h))" "fst (T (List.length h))"] assms(4)
  by (simp add: split_def Let_def)

lemma wdt_was_reset_rd: "wdt_was_reset c (wdt_state T h) \<Longrightarrow> wdt_was_reset c (wdt_state T (Rd l v # h))"
  using wdt_was_reset_idle [of c "wdt_state T h" "fst (T (List.length h)) # snd (T (List.length h))"]
  by (simp add: split_def Let_def)

lemma wdt_disable_log:
  "\<exists>v v'. log (snd (neorv32_wdt_disable m))
    = Rd WDT_CTRL v' # Wr WDT_CTRL v # Rd WDT_CTRL (rd_val WDT_CTRL m) # log m"
  by (simp add: neorv32_wdt_disable_def MMREG32_BCLR_def reg_test_def rd_def wr_def Let_def)

lemma wdt_disable_resets:
  assumes "wdt_held t (wdt_ticks T (log m)) (wdt_state T (log m))" "\<forall>n. 3 \<le> List.length (snd (T n))"
    and "wdt_ticks T (Rd WDT_CTRL (rd_val WDT_CTRL m) # log m) < unat t"
  shows "wdt_was_reset 3 (wdt_state T (log (snd (neorv32_wdt_disable m))))"
proof -
  let ?h = "Rd WDT_CTRL (rd_val WDT_CTRL m) # log m"
  obtain v v' where l: "log (snd (neorv32_wdt_disable m)) = Rd WDT_CTRL v' # Wr WDT_CTRL v # ?h"
    using wdt_disable_log by blast
  have "\<not> wdt_offends (Rd WDT_CTRL (rd_val WDT_CTRL m))" by (simp add: wdt_offends_def)
  moreover have "wdt_ticks T (log m) < unat t" using assms(3) by (simp add: split_def Let_def)
  ultimately have "wdt_held t (wdt_ticks T ?h) (wdt_state T ?h)" using wdt_held_access assms(1,3) by blast
  moreover have "wdt_offends (Wr WDT_CTRL v)" by (auto simp: wdt_offends_def)
  ultimately have "wdt_was_reset 3 (wdt_state T (Wr WDT_CTRL v # ?h))"
    using wdt_held_offence assms(2,3) by blast
  then show ?thesis unfolding l by (rule wdt_was_reset_rd)
qed

section \<open>Forcing the reset\<close>

text \<open>Enabled with the timeout zero and not locked: armed by the first tick, reset by the second.\<close>

definition wdt_zero :: "bool \<Rightarrow> wdt_hw \<Rightarrow> bool" where
  "wdt_zero armed d \<longleftrightarrow> w_rstn d \<and> w_sreg d = - 1 \<and> w_en d \<and> \<not> w_lock d \<and> w_timeout d = 0
     \<and> \<not> w_rst_timeout d \<and> \<not> w_rst_access d \<and> \<not> w_prsc d \<and> w_cnt d = 0 \<and> \<not> w_inc d \<and> \<not> w_feed d
     \<and> w_started d = armed"

lemma wdt_zero_wait: "wdt_zero b d \<Longrightarrow> wdt_zero b (wdt_idle (replicate n False) d)"
proof (induction n arbitrary: d)
  case (Suc n)
  have "wdt_zero b (wdt_clock False None d)" using Suc.prems by (simp add: wdt_zero_def wdt_clock_defs Let_def)
  then show ?case using Suc.IH by simp
qed simp

lemma wdt_zero_first: "wdt_zero False d \<Longrightarrow> wdt_zero True (wdt_idle [True, False] d)"
  by (simp add: wdt_zero_def wdt_clock_defs Let_def)

lemma wdt_zero_second: "wdt_zero True d \<Longrightarrow> wdt_was_reset 2 (wdt_idle [True, False, False, False] d)"
  by (simp add: wdt_zero_def wdt_was_reset_def wdt_clock_defs wdt_cleared_def Let_def)

lemma wdt_zero_armed:
  assumes "wdt_zero False d" "0 < n"
  shows "wdt_zero True (wdt_idle (True # replicate n False) d)"
proof -
  obtain k where "n = Suc k" using assms(2) by (cases n) auto
  then show ?thesis using wdt_zero_wait [OF wdt_zero_first [OF assms(1)], of k] by simp
qed

lemma wdt_zero_reset:
  assumes "wdt_zero True d" "3 \<le> n"
  shows "wdt_was_reset 2 (wdt_idle (True # replicate n False) d)"
proof -
  have "replicate n False = [False, False, False] @ replicate (n - 3) False"
    using assms(2) by (metis le_add_diff_inverse numeral_3_eq_3 replicate_0 replicate_Suc replicate_add)
  then show ?thesis using wdt_was_reset_idle [OF wdt_zero_second [OF assms(1)], of "replicate (n - 3) False"] by simp
qed

lemma wdt_force_zero:
  assumes "wdt_off (wdt_state T (log m))"
    and "T (List.length (log m)) = (False, replicate a False)" "T (Suc (List.length (log m))) = (False, ts)"
  shows "\<exists>d. wdt_zero False d \<and> wdt_state T (log (neorv32_wdt_force_hwreset m)) = wdt_idle ts d"
proof -
  let ?d0 = "wdt_state T (log m)"
  let ?d1 = "wdt_clock False (Some (False, BIT 0)) ?d0"
  have l: "log (neorv32_wdt_force_hwreset m) = Wr WDT_RESET 0 # Wr WDT_CTRL (BIT 0) # log m"
    by (simp add: neorv32_wdt_force_hwreset_def wr_def Let_def)
  have z: "(ucast (drop_bit 8 (BIT 0)) :: 24 word) = 0" by (rule bit_word_eqI) (simp add: bit_simps)
  have 1: "wdt_zero False ?d1"
    using assms(1) z by (simp add: wdt_off_def wdt_zero_def wdt_clock_defs Let_def)
  have 2: "wdt_zero False (wdt_clock False (Some (True, 0)) d)" if "wdt_zero False d" for d
    using that by (simp add: wdt_zero_def wdt_clock_defs WDT_PASSWORD_def Let_def)
  show ?thesis
    unfolding l using 2 [OF wdt_zero_wait [OF 1, of a]] by (auto simp: assms(2,3))
qed

end
