(* ===== verification/Neoled.thy ===== *)
theory Neoled
  imports Sysinfo
begin

text \<open>
  The smart LED driver, \<^verbatim>\<open>sw/lib/source/neorv32_neoled.c\<close>, with the search for a
  WS2812-compatible timing.
\<close>

section \<open>Registers\<close>

definition NEOLED_CTRL :: loc where "NEOLED_CTRL = Mem W32 (NEORV32_NEOLED_BASE)"
definition NEOLED_DATA24 :: loc where "NEOLED_DATA24 = Mem W32 (NEORV32_NEOLED_BASE + 4)"
definition NEOLED_DATA32 :: loc where "NEOLED_DATA32 = Mem W32 (NEORV32_NEOLED_BASE + 8)"
definition NEOLED_STROBE :: loc where "NEOLED_STROBE = Mem W32 (NEORV32_NEOLED_BASE + 12)"

lemmas neoled_regs = NEOLED_CTRL_def NEOLED_DATA24_def NEOLED_DATA32_def NEOLED_STROBE_def NEORV32_NEOLED_BASE_def

datatype neoled_ctrl_bit =
    NEOLED_CTRL_EN
  | NEOLED_CTRL_PRSC_LSB
  | NEOLED_CTRL_PRSC_MSB
  | NEOLED_CTRL_T_TOT_LSB
  | NEOLED_CTRL_T_TOT_MSB
  | NEOLED_CTRL_T_0H_LSB
  | NEOLED_CTRL_T_0H_MSB
  | NEOLED_CTRL_T_1H_LSB
  | NEOLED_CTRL_T_1H_MSB
  | NEOLED_CTRL_FIFO_LSB
  | NEOLED_CTRL_FIFO_MSB
  | NEOLED_CTRL_TX_EMPTY
  | NEOLED_CTRL_TX_FULL
  | NEOLED_CTRL_TX_BUSY

primrec neoled_ctrl :: "neoled_ctrl_bit \<Rightarrow> nat" where
    "neoled_ctrl NEOLED_CTRL_EN = 0"
  | "neoled_ctrl NEOLED_CTRL_PRSC_LSB = 1"
  | "neoled_ctrl NEOLED_CTRL_PRSC_MSB = 3"
  | "neoled_ctrl NEOLED_CTRL_T_TOT_LSB = 4"
  | "neoled_ctrl NEOLED_CTRL_T_TOT_MSB = 8"
  | "neoled_ctrl NEOLED_CTRL_T_0H_LSB = 9"
  | "neoled_ctrl NEOLED_CTRL_T_0H_MSB = 13"
  | "neoled_ctrl NEOLED_CTRL_T_1H_LSB = 14"
  | "neoled_ctrl NEOLED_CTRL_T_1H_MSB = 18"
  | "neoled_ctrl NEOLED_CTRL_FIFO_LSB = 25"
  | "neoled_ctrl NEOLED_CTRL_FIFO_MSB = 28"
  | "neoled_ctrl NEOLED_CTRL_TX_EMPTY = 29"
  | "neoled_ctrl NEOLED_CTRL_TX_FULL = 30"
  | "neoled_ctrl NEOLED_CTRL_TX_BUSY = 31"

section \<open>Driver\<close>

definition neorv32_neoled_available :: "mach \<Rightarrow> u32 \<times> mach" where
  "neorv32_neoled_available m = soc_test SYSINFO_SOC_IO_NEOLED m"

definition neorv32_neoled_enable :: "mach \<Rightarrow> mach" where
  "neorv32_neoled_enable m = MMREG32_BSET NEOLED_CTRL (BIT (neoled_ctrl NEOLED_CTRL_EN)) m"

definition neorv32_neoled_disable :: "mach \<Rightarrow> mach" where
  "neorv32_neoled_disable m = MMREG32_BCLR NEOLED_CTRL (BIT (neoled_ctrl NEOLED_CTRL_EN)) m"

definition neoled_ctrl_word :: "u32 \<Rightarrow> u32 \<Rightarrow> u32 \<Rightarrow> u32 \<Rightarrow> u32" where
  "neoled_ctrl_word prsc t_total t_high_zero t_high_one =
     push_bit (neoled_ctrl NEOLED_CTRL_EN) 1
     OR push_bit (neoled_ctrl NEOLED_CTRL_PRSC_LSB) (prsc AND 0x07)
     OR push_bit (neoled_ctrl NEOLED_CTRL_T_TOT_LSB) (t_total AND 0x1f)
     OR push_bit (neoled_ctrl NEOLED_CTRL_T_0H_LSB) (t_high_zero AND 0x1f)
     OR push_bit (neoled_ctrl NEOLED_CTRL_T_1H_LSB) (t_high_one AND 0x1f)"

definition neorv32_neoled_setup :: "u32 \<Rightarrow> u32 \<Rightarrow> u32 \<Rightarrow> u32 \<Rightarrow> mach \<Rightarrow> mach" where
  "neorv32_neoled_setup prsc t_total t_high_zero t_high_one m =
     (let m = wr NEOLED_CTRL 0 m
      in wr NEOLED_CTRL (neoled_ctrl_word prsc t_total t_high_zero t_high_one) m)"

definition CLK_PRSC_FACTOR_LUT :: "u32 list" where
  "CLK_PRSC_FACTOR_LUT = [2, 4, 8, 64, 128, 1024, 2048, 4096]"

text \<open>
  \<^verbatim>\<open>while (clk_prsc_sel < 7)\<close>: the state is the selection and the three times computed
  last.  A product that wraps to zero is caught after the divisions, which then give all ones.
\<close>

function ws2812_search :: "u32 \<Rightarrow> nat \<Rightarrow> u32 \<times> u32 \<times> u32 \<Rightarrow> nat \<times> u32 \<times> u32 \<times> u32" where
  "ws2812_search t_clock clk_prsc_sel t =
     (if clk_prsc_sel < 7 then
        let t_base = t_clock * (CLK_PRSC_FACTOR_LUT ! clk_prsc_sel);
            t_total = divu (2 * 1200) t_base;
            t_high_zero = divu (2 * 400) t_base;
            t_high_one = divu (2 * 800) t_base
        in if t_base = 0 \<or> t_total \<ge> 32 \<or> t_high_zero = 0 \<or> t_high_one = 0
           then ws2812_search t_clock (clk_prsc_sel + 1) (t_total, t_high_zero, t_high_one)
           else (clk_prsc_sel, t_total, t_high_zero, t_high_one)
      else (clk_prsc_sel, t))"
  by pat_completeness auto
termination by (relation "measure (\<lambda>(_, s, _). 7 - s)") auto

declare ws2812_search.simps [simp del]

definition neorv32_neoled_setup_ws2812 :: "mach \<Rightarrow> mach" where
  "neorv32_neoled_setup_ws2812 m =
     (let (clk, m) = neorv32_sysinfo_get_clk m;
          t_clock_x500ps = divu (2 * 1000 * 1000 * 1000) clk;
          (clk_prsc_sel, t_total, t_high_zero, t_high_one) = ws2812_search t_clock_x500ps 0 (0, 0, 0)
      in neorv32_neoled_setup (of_nat clk_prsc_sel) t_total t_high_zero t_high_one m)"

definition neoled_full :: "u32 \<Rightarrow> bool" where
  "neoled_full v \<longleftrightarrow> v AND BIT (neoled_ctrl NEOLED_CTRL_TX_FULL) \<noteq> 0"

definition neorv32_neoled_strobe_blocking :: "mach \<Rightarrow> mach option" where
  "neorv32_neoled_strobe_blocking m =
     do { m \<leftarrow> poll neoled_full NEOLED_CTRL m; Some (wr NEOLED_STROBE 0 m) }"

definition neorv32_neoled_write32_blocking :: "u32 \<Rightarrow> mach \<Rightarrow> mach option" where
  "neorv32_neoled_write32_blocking data m =
     do { m \<leftarrow> poll neoled_full NEOLED_CTRL m; Some (wr NEOLED_DATA32 data m) }"

definition neorv32_neoled_write24_blocking :: "u32 \<Rightarrow> mach \<Rightarrow> mach option" where
  "neorv32_neoled_write24_blocking data m =
     do { m \<leftarrow> poll neoled_full NEOLED_CTRL m; Some (wr NEOLED_DATA24 data m) }"

definition neorv32_neoled_strobe_nonblocking :: "mach \<Rightarrow> mach" where
  "neorv32_neoled_strobe_nonblocking m = wr NEOLED_STROBE 0 m"

definition neorv32_neoled_write32_nonblocking :: "u32 \<Rightarrow> mach \<Rightarrow> mach" where
  "neorv32_neoled_write32_nonblocking data m = wr NEOLED_DATA32 data m"

definition neorv32_neoled_write24_nonblocking :: "u32 \<Rightarrow> mach \<Rightarrow> mach" where
  "neorv32_neoled_write24_nonblocking data m = wr NEOLED_DATA24 data m"

definition neorv32_neoled_get_fifo_depth :: "mach \<Rightarrow> u32 \<times> mach" where
  "neorv32_neoled_get_fifo_depth m = reg_pow2 NEOLED_CTRL (neoled_ctrl NEOLED_CTRL_FIFO_LSB) m"

definition neorv32_neoled_fifo_full :: "mach \<Rightarrow> u32 \<times> mach" where
  "neorv32_neoled_fifo_full m = reg_test NEOLED_CTRL (neoled_ctrl NEOLED_CTRL_TX_FULL) m"

definition neorv32_neoled_fifo_empty :: "mach \<Rightarrow> u32 \<times> mach" where
  "neorv32_neoled_fifo_empty m = reg_test NEOLED_CTRL (neoled_ctrl NEOLED_CTRL_TX_EMPTY) m"

definition neorv32_neoled_busy :: "mach \<Rightarrow> u32 \<times> mach" where
  "neorv32_neoled_busy m = reg_test NEOLED_CTRL (neoled_ctrl NEOLED_CTRL_TX_BUSY) m"

section \<open>What the search finds\<close>

text \<open>
  A selection below 7 is a usable timing: the period fits its five bits, both high times are at
  least one tick, and the three are the nanosecond figures in whole ticks.
\<close>

lemma ws2812_search_sound:
  assumes "ws2812_search t_clock s t = (sel, tot, t0, t1)" "s \<le> 7" "sel < 7"
  shows "s \<le> sel \<and> tot < 32 \<and> t0 \<noteq> 0 \<and> t1 \<noteq> 0
    \<and> (let b = t_clock * (CLK_PRSC_FACTOR_LUT ! sel)
       in b \<noteq> 0 \<and> tot = 2400 div b \<and> t0 = 800 div b \<and> t1 = 1600 div b)"
  using assms
proof (induction t_clock s t rule: ws2812_search.induct)
  case (1 t_clock s t)
  define b where "b = t_clock * (CLK_PRSC_FACTOR_LUT ! s)"
  define skip where "skip \<longleftrightarrow> b = 0 \<or> divu 2400 b \<ge> 32 \<or> divu 800 b = 0 \<or> divu 1600 b = 0"
  note unf = ws2812_search.simps [of t_clock s t, unfolded Let_def]
  have s7: "s < 7"
    using 1(2,3,4) by (subst (asm) unf) (auto split: if_splits)
  show ?case
  proof (cases skip)
    case True
    have rec: "ws2812_search t_clock (s + 1) (divu 2400 b, divu 800 b, divu 1600 b) = (sel, tot, t0, t1)"
      using 1(2) s7 True by (subst (asm) unf) (simp add: skip_def b_def)
    have "s + 1 \<le> sel \<and> tot < 32 \<and> t0 \<noteq> 0 \<and> t1 \<noteq> 0
      \<and> (let b = t_clock * (CLK_PRSC_FACTOR_LUT ! sel)
         in b \<noteq> 0 \<and> tot = 2400 div b \<and> t0 = 800 div b \<and> t1 = 1600 div b)"
      using 1(1) [OF s7 refl refl refl refl] rec s7 True 1(4)
      by (simp add: skip_def b_def)
    then show ?thesis by simp
  next
    case False
    then have "sel = s" "tot = divu 2400 b" "t0 = divu 800 b" "t1 = divu 1600 b"
      using 1(2) s7 by (subst (asm) unf, auto simp: skip_def b_def)+
    with False show ?thesis by (auto simp: skip_def b_def divu_def Let_def not_le split: if_splits)
  qed
qed

lemma ws2812_search_le: "s \<le> 7 \<Longrightarrow> fst (ws2812_search t_clock s t) \<le> 7"
proof (induction t_clock s t rule: ws2812_search.induct)
  case (1 t_clock s t)
  then show ?case by (subst ws2812_search.simps) (auto simp: Let_def)
qed

end
