(* ===== verification/Twd.thy ===== *)
theory Twd
  imports Sysinfo
begin

text \<open>
  The two-wire device driver, \<^verbatim>\<open>sw/lib/source/neorv32_twd.c\<close>, and the communication state
  flags of \<^verbatim>\<open>rtl/core/neorv32_twd.vhd\<close>, which a write of one clears.
\<close>

section \<open>Registers\<close>

definition TWD_CTRL :: loc where "TWD_CTRL = Mem W32 (NEORV32_TWD_BASE)"
definition TWD_DATA :: loc where "TWD_DATA = Mem W32 (NEORV32_TWD_BASE + 4)"

lemmas twd_regs = TWD_CTRL_def TWD_DATA_def NEORV32_TWD_BASE_def

datatype twd_ctrl_bit =
    TWD_CTRL_EN
  | TWD_CTRL_CLR_RX
  | TWD_CTRL_CLR_TX
  | TWD_CTRL_FSEL
  | TWD_CTRL_DEV_ADDR0
  | TWD_CTRL_DEV_ADDR6
  | TWD_CTRL_IRQ_RX_AVAIL
  | TWD_CTRL_IRQ_RX_FULL
  | TWD_CTRL_IRQ_TX_EMPTY
  | TWD_CTRL_IRQ_TX_NFULL
  | TWD_CTRL_IRQ_COM_BEG
  | TWD_CTRL_IRQ_COM_END
  | TWD_CTRL_RX_FIFO_LSB
  | TWD_CTRL_RX_FIFO_MSB
  | TWD_CTRL_TX_FIFO_LSB
  | TWD_CTRL_TX_FIFO_MSB
  | TWD_CTRL_RX_AVAIL
  | TWD_CTRL_RX_FULL
  | TWD_CTRL_TX_EMPTY
  | TWD_CTRL_TX_FULL
  | TWD_CTRL_COM_BEG
  | TWD_CTRL_COM_END
  | TWD_CTRL_COM

primrec twd_ctrl :: "twd_ctrl_bit \<Rightarrow> nat" where
    "twd_ctrl TWD_CTRL_EN = 0"
  | "twd_ctrl TWD_CTRL_CLR_RX = 1"
  | "twd_ctrl TWD_CTRL_CLR_TX = 2"
  | "twd_ctrl TWD_CTRL_FSEL = 3"
  | "twd_ctrl TWD_CTRL_DEV_ADDR0 = 4"
  | "twd_ctrl TWD_CTRL_DEV_ADDR6 = 10"
  | "twd_ctrl TWD_CTRL_IRQ_RX_AVAIL = 11"
  | "twd_ctrl TWD_CTRL_IRQ_RX_FULL = 12"
  | "twd_ctrl TWD_CTRL_IRQ_TX_EMPTY = 13"
  | "twd_ctrl TWD_CTRL_IRQ_TX_NFULL = 14"
  | "twd_ctrl TWD_CTRL_IRQ_COM_BEG = 15"
  | "twd_ctrl TWD_CTRL_IRQ_COM_END = 16"
  | "twd_ctrl TWD_CTRL_RX_FIFO_LSB = 17"
  | "twd_ctrl TWD_CTRL_RX_FIFO_MSB = 20"
  | "twd_ctrl TWD_CTRL_TX_FIFO_LSB = 21"
  | "twd_ctrl TWD_CTRL_TX_FIFO_MSB = 24"
  | "twd_ctrl TWD_CTRL_RX_AVAIL = 25"
  | "twd_ctrl TWD_CTRL_RX_FULL = 26"
  | "twd_ctrl TWD_CTRL_TX_EMPTY = 27"
  | "twd_ctrl TWD_CTRL_TX_FULL = 28"
  | "twd_ctrl TWD_CTRL_COM_BEG = 29"
  | "twd_ctrl TWD_CTRL_COM_END = 30"
  | "twd_ctrl TWD_CTRL_COM = 31"

section \<open>Driver\<close>

definition neorv32_twd_available :: "mach \<Rightarrow> u32 \<times> mach" where
  "neorv32_twd_available m = soc_test SYSINFO_SOC_IO_TWD m"

definition twd_irq_mask :: u32 where
  "twd_irq_mask = BIT (twd_ctrl TWD_CTRL_IRQ_RX_AVAIL) OR BIT (twd_ctrl TWD_CTRL_IRQ_RX_FULL)
     OR BIT (twd_ctrl TWD_CTRL_IRQ_TX_EMPTY) OR BIT (twd_ctrl TWD_CTRL_IRQ_TX_NFULL)
     OR BIT (twd_ctrl TWD_CTRL_IRQ_COM_BEG) OR BIT (twd_ctrl TWD_CTRL_IRQ_COM_END)"

definition neorv32_twd_irq_config :: "bool \<Rightarrow> u32 \<Rightarrow> mach \<Rightarrow> mach" where
  "neorv32_twd_irq_config enable irq_mask m =
     (if enable then MMREG32_BSET TWD_CTRL (irq_mask AND twd_irq_mask) m
      else MMREG32_BCLR TWD_CTRL (irq_mask AND twd_irq_mask) m)"

definition neorv32_twd_setup :: "u32 \<Rightarrow> u32 \<Rightarrow> u32 \<Rightarrow> mach \<Rightarrow> mach" where
  "neorv32_twd_setup device_addr fsel irq_mask m =
     (let m = wr TWD_CTRL 0 m;
          m = neorv32_twd_irq_config True irq_mask m;
          (ctrl, m) = rd TWD_CTRL m;
          ctrl = ctrl OR push_bit (twd_ctrl TWD_CTRL_EN) 1;
          ctrl = ctrl OR push_bit (twd_ctrl TWD_CTRL_DEV_ADDR0) (device_addr AND 0x7f);
          ctrl = ctrl OR push_bit (twd_ctrl TWD_CTRL_FSEL) (fsel AND 0x01)
      in wr TWD_CTRL ctrl m)"

definition neorv32_twd_get_rx_fifo_depth :: "mach \<Rightarrow> u32 \<times> mach" where
  "neorv32_twd_get_rx_fifo_depth m = reg_pow2 TWD_CTRL (twd_ctrl TWD_CTRL_RX_FIFO_LSB) m"

definition neorv32_twd_get_tx_fifo_depth :: "mach \<Rightarrow> u32 \<times> mach" where
  "neorv32_twd_get_tx_fifo_depth m = reg_pow2 TWD_CTRL (twd_ctrl TWD_CTRL_TX_FIFO_LSB) m"

definition neorv32_twd_disable :: "mach \<Rightarrow> mach" where
  "neorv32_twd_disable m = MMREG32_BCLR TWD_CTRL (BIT (twd_ctrl TWD_CTRL_EN)) m"

definition neorv32_twd_enable :: "mach \<Rightarrow> mach" where
  "neorv32_twd_enable m = MMREG32_BSET TWD_CTRL (BIT (twd_ctrl TWD_CTRL_EN)) m"

definition neorv32_twd_clear_rx :: "mach \<Rightarrow> mach" where
  "neorv32_twd_clear_rx m = MMREG32_BSET TWD_CTRL (BIT (twd_ctrl TWD_CTRL_CLR_RX)) m"

definition neorv32_twd_clear_tx :: "mach \<Rightarrow> mach" where
  "neorv32_twd_clear_tx m = MMREG32_BSET TWD_CTRL (BIT (twd_ctrl TWD_CTRL_CLR_TX)) m"

definition neorv32_twd_com_state :: "mach \<Rightarrow> u32 \<times> mach" where
  "neorv32_twd_com_state m = reg_test TWD_CTRL (twd_ctrl TWD_CTRL_COM) m"

definition neorv32_twd_com_started :: "mach \<Rightarrow> u32 \<times> mach" where
  "neorv32_twd_com_started m =
     (let (ctrl_tmp, m) = rd TWD_CTRL m;
          m = MMREG32_BCLR TWD_CTRL (BIT (twd_ctrl TWD_CTRL_COM_END)) m
      in (ctrl_tmp AND BIT (twd_ctrl TWD_CTRL_COM_BEG), m))"

definition neorv32_twd_com_ended :: "mach \<Rightarrow> u32 \<times> mach" where
  "neorv32_twd_com_ended m =
     (let (ctrl_tmp, m) = rd TWD_CTRL m;
          m = MMREG32_BCLR TWD_CTRL (BIT (twd_ctrl TWD_CTRL_COM_BEG)) m
      in (ctrl_tmp AND BIT (twd_ctrl TWD_CTRL_COM_END), m))"

definition neorv32_twd_rx_available :: "mach \<Rightarrow> u32 \<times> mach" where
  "neorv32_twd_rx_available m = reg_test TWD_CTRL (twd_ctrl TWD_CTRL_RX_AVAIL) m"

definition neorv32_twd_rx_full :: "mach \<Rightarrow> u32 \<times> mach" where
  "neorv32_twd_rx_full m = reg_test TWD_CTRL (twd_ctrl TWD_CTRL_RX_FULL) m"

definition neorv32_twd_tx_empty :: "mach \<Rightarrow> u32 \<times> mach" where
  "neorv32_twd_tx_empty m = reg_test TWD_CTRL (twd_ctrl TWD_CTRL_TX_EMPTY) m"

definition neorv32_twd_tx_full :: "mach \<Rightarrow> u32 \<times> mach" where
  "neorv32_twd_tx_full m = reg_test TWD_CTRL (twd_ctrl TWD_CTRL_TX_FULL) m"

definition neorv32_twd_put :: "u8 \<Rightarrow> mach \<Rightarrow> mach" where
  "neorv32_twd_put data m = wr TWD_DATA (ucast data) m"

definition neorv32_twd_get :: "mach \<Rightarrow> u8 \<times> mach" where
  "neorv32_twd_get m = (let (v, m) = rd TWD_DATA m in (ucast v, m))"

section \<open>The communication flags\<close>

text \<open>
  The flags (begin, end) of the enabled unit in one cycle: set by the bus engine, which belongs
  to the environment, otherwise cleared by a one written to them.
\<close>

definition twd_flags_step :: "event \<Rightarrow> bool \<times> bool \<Rightarrow> bool \<times> bool \<Rightarrow> bool \<times> bool" where
  "twd_flags_step e start flags =
     (let clr = (\<lambda>n. case e of Wr l v \<Rightarrow> l = TWD_CTRL \<and> bit v n | _ \<Rightarrow> False)
      in (fst start \<or> (fst flags \<and> \<not> clr (twd_ctrl TWD_CTRL_COM_BEG)),
          snd start \<or> (snd flags \<and> \<not> clr (twd_ctrl TWD_CTRL_COM_END))))"

fun twd_flags :: "(nat \<Rightarrow> bool \<times> bool) \<Rightarrow> event list \<Rightarrow> bool \<times> bool" where
  "twd_flags env [] = (False, False)"
| "twd_flags env (e # h) = twd_flags_step e (env (List.length h)) (twd_flags env h)"

text \<open>The other bits of the control register are \<open>rest\<close>.\<close>

definition twd_rtl :: "(nat \<Rightarrow> bool \<times> bool) \<Rightarrow> (event list \<Rightarrow> loc \<Rightarrow> u32) \<Rightarrow> event list \<Rightarrow> loc \<Rightarrow> u32" where
  "twd_rtl env rest h l =
     (if l = TWD_CTRL then
        (rest h l AND NOT (BIT 29 OR BIT 30))
        OR (if fst (twd_flags env h) then BIT 29 else 0)
        OR (if snd (twd_flags env h) then BIT 30 else 0)
      else rest h l)"

lemma twd_rtl_bits:
  "bit (twd_rtl env rest h TWD_CTRL) 29 = fst (twd_flags env h)"
  "bit (twd_rtl env rest h TWD_CTRL) 30 = snd (twd_flags env h)"
  by (simp_all add: twd_rtl_def bit_or_iff bit_and_iff bit_not_iff)

lemma twd_com_started_flags:
  assumes "hw m = twd_rtl env rest" "\<forall>i \<ge> List.length (log m). env i = (False, False)"
    and "neorv32_twd_com_started m = (r, m')"
  shows "(r \<noteq> 0 \<longleftrightarrow> fst (twd_flags env (log m)))
    \<and> twd_flags env (log m') = (False, snd (twd_flags env (log m)))"
  using assms
  by (auto simp: neorv32_twd_com_started_def MMREG32_BCLR_def rd_def wr_def rd_val_def Let_def
      tick_def twd_flags_step_def twd_rtl_bits bit_and_iff bit_not_iff prod_eq_iff)

lemma twd_com_ended_flags:
  assumes "hw m = twd_rtl env rest" "\<forall>i \<ge> List.length (log m). env i = (False, False)"
    and "neorv32_twd_com_ended m = (r, m')"
  shows "(r \<noteq> 0 \<longleftrightarrow> snd (twd_flags env (log m)))
    \<and> twd_flags env (log m') = (fst (twd_flags env (log m)), False)"
  using assms
  by (auto simp: neorv32_twd_com_ended_def MMREG32_BCLR_def rd_def wr_def rd_val_def Let_def
      tick_def twd_flags_step_def twd_rtl_bits bit_and_iff bit_not_iff prod_eq_iff)

lemma twd_clear_rx_flags:
  assumes "hw m = twd_rtl env rest" "\<forall>i \<ge> List.length (log m). env i = (False, False)"
  shows "twd_flags env (log (neorv32_twd_clear_rx m)) = (False, False)"
  using assms
  by (auto simp: neorv32_twd_clear_rx_def MMREG32_BSET_def rd_def wr_def rd_val_def Let_def
      tick_def twd_flags_step_def twd_rtl_bits bit_or_iff prod_eq_iff)

end
