(* ===== verification/Gptmr.thy ===== *)
theory Gptmr
  imports Sysinfo
begin

text \<open>
  The general purpose timer driver, \<^verbatim>\<open>sw/lib/source/neorv32_gptmr.c\<close>.  The control
  registers are unions of a word and two half-words, accessed in both widths.
\<close>

section \<open>Registers\<close>

definition GPTMR_CSR0 :: loc where "GPTMR_CSR0 = Mem W32 NEORV32_GPTMR_BASE"
definition GPTMR_ENABLE :: loc where "GPTMR_ENABLE = Mem W16 NEORV32_GPTMR_BASE"
definition GPTMR_MODE :: loc where "GPTMR_MODE = Mem W16 (NEORV32_GPTMR_BASE + 2)"
definition GPTMR_CSR1 :: loc where "GPTMR_CSR1 = Mem W32 (NEORV32_GPTMR_BASE + 4)"
definition GPTMR_IRQ :: loc where "GPTMR_IRQ = Mem W16 (NEORV32_GPTMR_BASE + 4)"
definition GPTMR_PRSC :: loc where "GPTMR_PRSC = Mem W16 (NEORV32_GPTMR_BASE + 6)"
definition GPTMR_CNT :: "nat \<Rightarrow> loc" where "GPTMR_CNT i = Mem W32 (NEORV32_GPTMR_BASE + 0x80 + 8 * of_nat i)"
definition GPTMR_THR :: "nat \<Rightarrow> loc" where "GPTMR_THR i = Mem W32 (NEORV32_GPTMR_BASE + 0x84 + 8 * of_nat i)"

section \<open>Driver\<close>

definition neorv32_gptmr_available :: "mach \<Rightarrow> u32 \<times> mach" where
  "neorv32_gptmr_available m = soc_test SYSINFO_SOC_IO_GPTMR m"

text \<open>\<^verbatim>\<open>for (i=0; i<16; i++) \{ cnt += tmp & 1; tmp >>= 1; \}\<close>\<close>

primrec count_ones :: "nat \<Rightarrow> u32 \<Rightarrow> u32" where
  "count_ones 0 tmp = 0"
| "count_ones (Suc i) tmp = (tmp AND 1) + count_ones i (drop_bit 1 tmp)"

definition neorv32_gptmr_get_num_slices :: "mach \<Rightarrow> u32 \<times> mach" where
  "neorv32_gptmr_get_num_slices m =
     (let (backup, m) = rd GPTMR_MODE m;
          m = wr GPTMR_MODE 0xffff m;
          (tmp, m) = rd GPTMR_MODE m;
          cnt = count_ones 16 (take_bit 16 tmp);
          m = wr GPTMR_MODE (take_bit 16 backup) m
      in (cnt, m))"

definition neorv32_gptmr_setup :: "u32 \<Rightarrow> mach \<Rightarrow> mach" where
  "neorv32_gptmr_setup prsc m =
     (let m = wr GPTMR_CSR0 0 m;
          m = wr GPTMR_CSR1 0 m;
          m = wr GPTMR_PRSC (take_bit 16 prsc) m
      in fold (\<lambda>i m. wr (GPTMR_THR i) 0 (wr (GPTMR_CNT i) 0 m)) [0..<16] m)"

definition neorv32_gptmr_enable_single :: "u32 \<Rightarrow> mach \<Rightarrow> mach" where
  "neorv32_gptmr_enable_single sel m = MMREG16_BSET GPTMR_ENABLE (ucast (shl32 1 (sel AND 15))) m"

definition neorv32_gptmr_disable_single :: "u32 \<Rightarrow> mach \<Rightarrow> mach" where
  "neorv32_gptmr_disable_single sel m = MMREG16_BCLR GPTMR_ENABLE (ucast (shl32 1 (sel AND 15))) m"

definition neorv32_gptmr_enable_mask :: "u16 \<Rightarrow> mach \<Rightarrow> mach" where
  "neorv32_gptmr_enable_mask msk m = MMREG16_BSET GPTMR_ENABLE msk m"

definition neorv32_gptmr_disable_mask :: "u16 \<Rightarrow> mach \<Rightarrow> mach" where
  "neorv32_gptmr_disable_mask msk m = MMREG16_BCLR GPTMR_ENABLE msk m"

definition neorv32_gptmr_configure :: "u32 \<Rightarrow> u32 \<Rightarrow> u32 \<Rightarrow> u32 \<Rightarrow> mach \<Rightarrow> mach" where
  "neorv32_gptmr_configure sel cnt thr mode m =
     (let i = sel AND 15;
          m = wr (GPTMR_CNT (unat i)) cnt m;
          m = wr (GPTMR_THR (unat i)) thr m;
          (v, m) = rd GPTMR_MODE m;
          tmp = ucast v :: u16;
          tmp = tmp AND NOT (ucast (shl32 1 i));
          tmp = tmp OR ucast (shl32 (mode AND 1) i)
      in wr GPTMR_MODE (ucast tmp) m)"

text \<open>The loop that looks for the lowest pending interrupt.\<close>

fun first_one :: "nat \<Rightarrow> nat \<Rightarrow> u32 \<Rightarrow> int" where
  "first_one 0 i pnd = int i"
| "first_one (Suc n) i pnd = (if pnd AND 1 \<noteq> 0 then int i else first_one n (Suc i) (drop_bit 1 pnd))"

definition neorv32_gptmr_irq_get :: "mach \<Rightarrow> int \<times> mach" where
  "neorv32_gptmr_irq_get m =
     (let (v, m) = rd GPTMR_IRQ m;
          pnd = take_bit 16 v
      in if pnd = 0 then (- 1, m) else (first_one 16 0 pnd, m))"

definition neorv32_gptmr_irq_ack :: "u32 \<Rightarrow> mach \<Rightarrow> mach" where
  "neorv32_gptmr_irq_ack sel m = MMREG16_BCLR GPTMR_IRQ (ucast (shl32 1 (sel AND 0xf))) m"

section \<open>Counting and finding bits\<close>

lemma odd_iff_and_1: "x AND 1 \<noteq> (0 :: u32) \<longleftrightarrow> bit x 0"
  by (simp add: and_one_eq bit_0 mod_2_eq_odd)

lemma count_ones_card: "n \<le> 32 \<Longrightarrow> unat (count_ones n tmp) = card {i. i < n \<and> bit tmp i}"
proof (induction n arbitrary: tmp)
  case (Suc n)
  have s: "{i. i < Suc n \<and> bit tmp i} = (if bit tmp 0 then {0} else {}) \<union> Suc ` {i. i < n \<and> bit (drop_bit 1 tmp) i}"
    by (auto simp: bit_drop_bit_eq image_iff less_Suc_eq_0_disj gr0_conv_Suc)
  have c: "card {i. i < Suc n \<and> bit tmp i}
      = (if bit tmp 0 then 1 else 0) + card {i. i < n \<and> bit (drop_bit 1 tmp) i}"
    unfolding s by (subst card_Un_disjoint) (auto simp: card_image)
  have "card {i. i < n \<and> bit (drop_bit 1 tmp) i} \<le> card {..<n}"
    by (intro card_mono) auto
  then have "unat (count_ones n (drop_bit 1 tmp)) \<le> n" using Suc by simp
  then have "unat ((tmp AND 1) + count_ones n (drop_bit 1 tmp))
      = unat (tmp AND 1) + unat (count_ones n (drop_bit 1 tmp))"
    using Suc.prems by (subst unat_add_lem [THEN iffD1]) (auto simp: and_one_eq mod_2_eq_odd)
  moreover have "unat (tmp AND 1) = (if bit tmp 0 then 1 else 0)"
    by (simp add: and_one_eq mod_2_eq_odd bit_0)
  ultimately show ?case using Suc c by simp
qed simp

lemma first_one_spec:
  assumes "pnd \<noteq> 0" "\<forall>j \<ge> n. \<not> bit pnd j"
  shows "\<exists>k < n. first_one n i pnd = int (i + k) \<and> bit pnd k \<and> (\<forall>j < k. \<not> bit pnd j)"
  using assms
proof (induction n arbitrary: i pnd)
  case 0
  then have "pnd = 0" by (intro bit_word_eqI) simp
  with 0 show ?case by simp
next
  case (Suc n)
  show ?case
  proof (cases "bit pnd 0")
    case True
    then show ?thesis by (intro exI [of _ 0]) (simp add: odd_iff_and_1)
  next
    case False
    have "drop_bit 1 pnd \<noteq> 0"
    proof
      assume z: "drop_bit 1 pnd = 0"
      have "\<not> bit pnd j" for j
      proof (cases j)
        case (Suc i)
        have "bit (drop_bit 1 pnd) i = False" using z by simp
        then show ?thesis by (simp add: Suc bit_drop_bit_eq)
      qed (simp add: False)
      then have "pnd = 0" by (intro bit_word_eqI) simp
      with Suc.prems show False by simp
    qed
    moreover have "\<forall>j \<ge> n. \<not> bit (drop_bit 1 pnd) j" using Suc.prems by (simp add: bit_drop_bit_eq)
    ultimately obtain k where k: "k < n" "first_one n (Suc i) (drop_bit 1 pnd) = int (Suc i + k)"
      "bit (drop_bit 1 pnd) k" "\<forall>j < k. \<not> bit (drop_bit 1 pnd) j" using Suc.IH by blast
    have "\<forall>j < Suc k. \<not> bit pnd j"
      using k(4) False by (auto simp: bit_drop_bit_eq less_Suc_eq_0_disj)
    with k False show ?thesis
      by (intro exI [of _ "Suc k"]) (simp add: odd_iff_and_1 bit_drop_bit_eq)
  qed
qed

end
