(* ===== verification/Pwm.thy ===== *)
theory Pwm
  imports Gptmr
begin

text \<open>
  The PWM driver, \<^verbatim>\<open>sw/lib/source/neorv32_pwm.c\<close>, and the global registers of
  \<^verbatim>\<open>rtl/core/neorv32_pwm.vhd\<close>, which implement as many bits as there are channels.
\<close>

section \<open>Registers\<close>

definition PWM_ENABLE :: loc where "PWM_ENABLE = Mem W32 (NEORV32_PWM_BASE)"
definition PWM_POLARITY :: loc where "PWM_POLARITY = Mem W32 (NEORV32_PWM_BASE + 4)"
definition PWM_CLKPRSC :: loc where "PWM_CLKPRSC = Mem W32 (NEORV32_PWM_BASE + 8)"
definition PWM_MODE :: loc where "PWM_MODE = Mem W32 (NEORV32_PWM_BASE + 12)"

lemmas pwm_regs = PWM_ENABLE_def PWM_POLARITY_def PWM_CLKPRSC_def PWM_MODE_def NEORV32_PWM_BASE_def

definition PWM_CMP :: "u32 \<Rightarrow> loc" where "PWM_CMP ch = Mem W16 (NEORV32_PWM_BASE + 0x80 + 4 * ch)"
definition PWM_TOP :: "u32 \<Rightarrow> loc" where "PWM_TOP ch = Mem W16 (NEORV32_PWM_BASE + 0x82 + 4 * ch)"

section \<open>Driver\<close>

definition neorv32_pwm_available :: "mach \<Rightarrow> u32 \<times> mach" where
  "neorv32_pwm_available m = soc_test SYSINFO_SOC_IO_PWM m"

definition neorv32_pmw_get_num_channels :: "mach \<Rightarrow> u32 \<times> mach" where
  "neorv32_pmw_get_num_channels m =
     (let (backup, m) = rd PWM_POLARITY m;
          m = wr PWM_POLARITY (- 1) m;
          (tmp, m) = rd PWM_POLARITY m;
          cnt = count_ones 16 tmp;
          m = wr PWM_POLARITY backup m
      in (cnt, m))"

definition neorv32_pwm_set_clock :: "u32 \<Rightarrow> mach \<Rightarrow> mach" where
  "neorv32_pwm_set_clock prsc m = wr PWM_CLKPRSC prsc m"

definition neorv32_pwm_ch_enable_mask :: "u32 \<Rightarrow> mach \<Rightarrow> mach" where
  "neorv32_pwm_ch_enable_mask msk m = MMREG32_BSET PWM_ENABLE msk m"

definition neorv32_pwm_ch_disable_mask :: "u32 \<Rightarrow> mach \<Rightarrow> mach" where
  "neorv32_pwm_ch_disable_mask msk m = MMREG32_BCLR PWM_ENABLE msk m"

definition neorv32_pwm_ch_enable_single :: "u32 \<Rightarrow> mach \<Rightarrow> mach" where
  "neorv32_pwm_ch_enable_single ch m = MMREG32_BSET PWM_ENABLE (shl32 1 (ch AND 0x1f)) m"

definition neorv32_pwm_ch_disable_single :: "u32 \<Rightarrow> mach \<Rightarrow> mach" where
  "neorv32_pwm_ch_disable_single ch m = MMREG32_BCLR PWM_ENABLE (shl32 1 (ch AND 0x1f)) m"

definition neorv32_pwm_ch_setup :: "u32 \<Rightarrow> u32 \<Rightarrow> bool \<Rightarrow> bool \<Rightarrow> mach \<Rightarrow> mach" where
  "neorv32_pwm_ch_setup ch top' pol mode m =
     (let ch = ch AND 0x1f;
          mask = shl32 1 ch;
          m = (if pol then MMREG32_BSET PWM_POLARITY mask m else MMREG32_BCLR PWM_POLARITY mask m);
          m = (if mode then MMREG32_BSET PWM_MODE mask m else MMREG32_BCLR PWM_MODE mask m)
      in wr (PWM_TOP ch) (take_bit 16 top') m)"

definition neorv32_pwm_ch_set_duty :: "u32 \<Rightarrow> u32 \<Rightarrow> mach \<Rightarrow> mach" where
  "neorv32_pwm_ch_set_duty ch duty m = wr (PWM_CMP (ch AND 0x1f)) (take_bit 16 duty) m"

section \<open>Probing the number of channels\<close>

text \<open>The polarity register of a unit with \<open>n\<close> channels: what was written last, \<open>n\<close> bits of it.\<close>

fun pwm_polarity :: "nat \<Rightarrow> event list \<Rightarrow> u32" where
  "pwm_polarity n [] = 0"
| "pwm_polarity n (Wr l v # h) = (if l = PWM_POLARITY then take_bit n v else pwm_polarity n h)"
| "pwm_polarity n (_ # h) = pwm_polarity n h"

definition pwm_rtl :: "nat \<Rightarrow> (event list \<Rightarrow> loc \<Rightarrow> u32) \<Rightarrow> event list \<Rightarrow> loc \<Rightarrow> u32" where
  "pwm_rtl n rest h l = (if l = PWM_POLARITY then pwm_polarity n h else rest h l)"

lemma take_bit_pwm_polarity: "take_bit n (pwm_polarity n h) = pwm_polarity n h"
  by (induction n h rule: pwm_polarity.induct) simp_all

lemma get_num_channels_min:
  assumes "hw m = pwm_rtl n rest" "neorv32_pmw_get_num_channels m = (r, m')"
  shows "unat r = min n 16" "pwm_polarity n (log m') = pwm_polarity n (log m)"
proof -
  have "r = count_ones 16 (take_bit n (- 1))"
    using assms by (auto simp: neorv32_pmw_get_num_channels_def Let_def rd_def wr_def rd_val_def
        tick_def pwm_rtl_def)
  then have "unat r = card {i. i < 16 \<and> bit (take_bit n (- 1) :: u32) i}"
    by (simp add: count_ones_card)
  also have "{i. i < 16 \<and> bit (take_bit n (- 1) :: u32) i} = {..<min n 16}"
    by (auto simp: bit_simps)
  finally show "unat r = min n 16" by simp
  show "pwm_polarity n (log m') = pwm_polarity n (log m)"
    using assms by (auto simp: neorv32_pmw_get_num_channels_def Let_def rd_def wr_def rd_val_def
        tick_def pwm_rtl_def take_bit_pwm_polarity)
qed

end
