(* ===== verification/Cpu.thy ===== *)
theory Cpu
  imports Sysinfo Csr Counter64
begin

text \<open>
  The CPU driver \<^verbatim>\<open>sw/lib/source/neorv32_cpu.c\<close>: the 64-bit counters, physical memory
  protection, performance monitors and triggers; and the atomic instructions of
  \<^verbatim>\<open>neorv32_cpu.h\<close> as compiled without the A extension.
\<close>

section \<open>Counters\<close>

definition neorv32_cpu_get_cycle :: "mach \<Rightarrow> (u64 \<times> mach) option" where
  "neorv32_cpu_get_cycle m = hilo_read (Csr CSR_CYCLE) (Csr CSR_CYCLEH) m"

definition neorv32_cpu_set_mcycle :: "u64 \<Rightarrow> mach \<Rightarrow> mach" where
  "neorv32_cpu_set_mcycle value m =
     (let m = neorv32_cpu_csr_write CSR_MCYCLE 0 m;
          m = neorv32_cpu_csr_write CSR_MCYCLEH (hi32 value) m
      in neorv32_cpu_csr_write CSR_MCYCLE (lo32 value) m)"

definition neorv32_cpu_get_instret :: "mach \<Rightarrow> (u64 \<times> mach) option" where
  "neorv32_cpu_get_instret m = hilo_read (Csr CSR_INSTRET) (Csr CSR_INSTRETH) m"

definition neorv32_cpu_set_minstret :: "u64 \<Rightarrow> mach \<Rightarrow> mach" where
  "neorv32_cpu_set_minstret value m =
     (let m = neorv32_cpu_csr_write CSR_MINSTRET 0 m;
          m = neorv32_cpu_csr_write CSR_MINSTRETH (hi32 value) m
      in neorv32_cpu_csr_write CSR_MINSTRET (lo32 value) m)"

section \<open>Physical memory protection\<close>

text \<open>\<^verbatim>\<open>neorv32_cpu_csr_read(CSR_MXISA) & (1 << bit)\<close>\<close>

definition mxisa_test :: "mxisa_bit \<Rightarrow> mach \<Rightarrow> bool \<times> mach" where
  "mxisa_test b m =
     (let (v, m) = neorv32_cpu_csr_read CSR_MXISA m in (v AND BIT (csr_mxisa b) \<noteq> 0, m))"

text \<open>The CSR that the \<^verbatim>\<open>switch\<close> statements select.\<close>

definition pmpcfg_csr :: "nat \<Rightarrow> csr_id" where
  "pmpcfg_csr k = [CSR_PMPCFG0, CSR_PMPCFG1, CSR_PMPCFG2, CSR_PMPCFG3] ! k"

definition pmpaddr_csr :: "nat \<Rightarrow> csr_id" where
  "pmpaddr_csr k =
     [CSR_PMPADDR0, CSR_PMPADDR1, CSR_PMPADDR2, CSR_PMPADDR3, CSR_PMPADDR4, CSR_PMPADDR5,
      CSR_PMPADDR6, CSR_PMPADDR7, CSR_PMPADDR8, CSR_PMPADDR9, CSR_PMPADDR10, CSR_PMPADDR11,
      CSR_PMPADDR12, CSR_PMPADDR13, CSR_PMPADDR14, CSR_PMPADDR15] ! k"

definition neorv32_cpu_pmp_get_num_regions :: "mach \<Rightarrow> u32 \<times> mach" where
  "neorv32_cpu_pmp_get_num_regions m =
     (let (pmp, m) = mxisa_test CSR_MXISA_SMPMP m
      in if \<not> pmp then (0, m)
         else
           let msk = 0x01010101;
               m = neorv32_cpu_csr_write CSR_PMPCFG0 msk m;
               m = neorv32_cpu_csr_write CSR_PMPCFG1 msk m;
               m = neorv32_cpu_csr_write CSR_PMPCFG2 msk m;
               m = neorv32_cpu_csr_write CSR_PMPCFG3 msk m;
               (v0, m) = neorv32_cpu_csr_read CSR_PMPCFG0 m;
               (v1, m) = neorv32_cpu_csr_read CSR_PMPCFG1 m;
               (v2, m) = neorv32_cpu_csr_read CSR_PMPCFG2 m;
               (v3, m) = neorv32_cpu_csr_read CSR_PMPCFG3 m;
               cnt = (v0 AND msk) + (v1 AND msk) + (v2 AND msk) + (v3 AND msk)
           in (ucast (byte32 cnt 0) + ucast (byte32 cnt 1) + ucast (byte32 cnt 2)
               + ucast (byte32 cnt 3), m))"

text \<open>The position of the lowest one; zero has none and the loop would not end.\<close>

partial_function (option) trailing_one :: "u32 \<Rightarrow> u32 \<Rightarrow> u32 option" where
  "trailing_one i tmp =
     (if tmp AND 1 \<noteq> 0 then Some i else trailing_one (i + 1) (drop_bit 1 tmp))"

definition neorv32_cpu_pmp_get_granularity :: "mach \<Rightarrow> (u32 \<times> mach) option" where
  "neorv32_cpu_pmp_get_granularity m =
     (let (pmp, m) = mxisa_test CSR_MXISA_SMPMP m
      in if \<not> pmp then Some (0, m)
         else
           let m = neorv32_cpu_csr_write CSR_PMPCFG0 0 m;
               m = neorv32_cpu_csr_write CSR_PMPADDR0 (- 1) m;
               (tmp, m) = neorv32_cpu_csr_read CSR_PMPADDR0 m
           in if tmp = 0 then Some (0, m)
              else do { i \<leftarrow> trailing_one 2 tmp; Some (shl32 1 i, m) })"

text \<open>
  \<^verbatim>\<open>index\<close> is a signed integer and only its upper bound is checked; the capability
  register is read only where that check passes.
\<close>

definition neorv32_cpu_pmp_configure_region :: "int \<Rightarrow> u32 \<Rightarrow> u8 \<Rightarrow> mach \<Rightarrow> int \<times> mach" where
  "neorv32_cpu_pmp_configure_region index addr config m =
     (if index > 15 then (- 1, m)
      else
        let (pmp, m) = mxisa_test CSR_MXISA_SMPMP m
        in if \<not> pmp then (- 1, m)
           else
             let k = nat (drop_bit 2 index AND 3);
                 s = 8 * nat (index AND 3);
                 (pmp_cfg, m) = neorv32_cpu_csr_read (pmpcfg_csr k) m
             in if drop_bit s pmp_cfg AND BIT (pmpcfg PMPCFG_L) \<noteq> 0 then (- 2, m)
                else
                  let m = neorv32_cpu_csr_write (pmpaddr_csr (nat (index AND 0xf))) addr m;
                      clr_mask = push_bit s 0xff;
                      set_mask = push_bit s (ucast config);
                      m = neorv32_cpu_csr_clr (pmpcfg_csr k) clr_mask m
                  in (0, neorv32_cpu_csr_set (pmpcfg_csr k) set_mask m))"

section \<open>Performance monitors\<close>

definition hpm_csrs :: "csr_id list" where
  "hpm_csrs =
     [CSR_MHPMCOUNTER3, CSR_MHPMCOUNTER4, CSR_MHPMCOUNTER5, CSR_MHPMCOUNTER6, CSR_MHPMCOUNTER7,
      CSR_MHPMCOUNTER8, CSR_MHPMCOUNTER9, CSR_MHPMCOUNTER10, CSR_MHPMCOUNTER11,
      CSR_MHPMCOUNTER12, CSR_MHPMCOUNTER13, CSR_MHPMCOUNTER14, CSR_MHPMCOUNTER15]"

text \<open>The thirteen writes and the thirteen reads, in this order.\<close>

primrec csr_write_all :: "csr_id list \<Rightarrow> u32 \<Rightarrow> mach \<Rightarrow> mach" where
  "csr_write_all [] v m = m"
| "csr_write_all (c # cs) v m = csr_write_all cs v (neorv32_cpu_csr_write c v m)"

primrec csr_sum :: "csr_id list \<Rightarrow> u32 \<Rightarrow> mach \<Rightarrow> u32 \<times> mach" where
  "csr_sum [] acc m = (acc, m)"
| "csr_sum (c # cs) acc m = (let (v, m) = neorv32_cpu_csr_read c m in csr_sum cs (acc + v) m)"

definition neorv32_cpu_hpm_get_num_counters :: "mach \<Rightarrow> u32 \<times> mach" where
  "neorv32_cpu_hpm_get_num_counters m =
     (let (hpm, m) = mxisa_test CSR_MXISA_ZIHPM m
      in if \<not> hpm then (0, m)
         else
           let m = neorv32_cpu_csr_set CSR_MCOUNTINHIBIT 0xfffffff8 m;
               m = csr_write_all hpm_csrs 1 m
           in csr_sum hpm_csrs 0 m)"

text \<open>\<^verbatim>\<open>while (tmp) { cnt++; tmp >>= 1; }\<close>\<close>

function count_width :: "u32 \<Rightarrow> u32 \<Rightarrow> u32" where
  "count_width cnt tmp = (if tmp \<noteq> 0 then count_width (cnt + 1) (drop_bit 1 tmp) else cnt)"
  by pat_completeness auto
termination by (relation "measure (\<lambda>(_, tmp). unat tmp)") (auto intro: unat_drop_bit_less)

declare count_width.simps [simp del]

definition neorv32_cpu_hpm_get_size :: "mach \<Rightarrow> u32 \<times> mach" where
  "neorv32_cpu_hpm_get_size m =
     (let (hpm, m) = mxisa_test CSR_MXISA_ZIHPM m
      in if \<not> hpm then (0, m)
         else
           let m = neorv32_cpu_csr_set CSR_MCOUNTINHIBIT (BIT (csr_mcountinhibit CSR_MCOUNTINHIBIT_HPM3)) m;
               m = neorv32_cpu_csr_write CSR_MHPMCOUNTER3 (- 1) m;
               m = neorv32_cpu_csr_write CSR_MHPMCOUNTER3H (- 1) m;
               (tmp, m) = neorv32_cpu_csr_read CSR_MHPMCOUNTER3 m;
               cnt = count_width 0 tmp;
               (tmp, m) = neorv32_cpu_csr_read CSR_MHPMCOUNTER3H m
           in (count_width cnt tmp, m))"

section \<open>Triggers\<close>

partial_function (option) hwtrig_loop :: "int \<Rightarrow> u32 \<Rightarrow> mach \<Rightarrow> (int \<times> mach) option" where
  "hwtrig_loop cnt sel m =
     (let m = neorv32_cpu_csr_write CSR_TSELECT sel m;
          (v, m) = neorv32_cpu_csr_read CSR_TSELECT m
      in if v \<noteq> sel then Some (cnt, m)
         else
           let (info, m) = neorv32_cpu_csr_read CSR_TINFO m
           in if info AND 0x0000ffff \<noteq> 1 then hwtrig_loop (cnt + 1) (sel + 1) m
              else Some (cnt, m))"

definition neorv32_cpu_hwtrig_get_number :: "mach \<Rightarrow> (int \<times> mach) option" where
  "neorv32_cpu_hwtrig_get_number m =
     (let (trig, m) = mxisa_test CSR_MXISA_SDTRIG m
      in if \<not> trig then Some (0, m) else hwtrig_loop 0 0 m)"

section \<open>Facts\<close>

lemma mxisa_test_simps [simp]:
  "fst (mxisa_test b m) \<longleftrightarrow> bit (rd_val (Csr CSR_MXISA) m) (csr_mxisa b)"
  "snd (mxisa_test b m) = snd (rd (Csr CSR_MXISA) m)"
  by (simp_all add: mxisa_test_def neorv32_cpu_csr_read_def rd_def)

text \<open>The loop for the lowest one ends for every word but zero.\<close>

lemma trailing_one_returns:
  assumes "bit tmp k" "\<forall>j < k. \<not> bit tmp j"
  shows "trailing_one i tmp = Some (i + of_nat k)"
  using assms
proof (induction k arbitrary: i tmp)
  case 0
  then have "tmp AND 1 \<noteq> 0" by (simp add: and_one_eq bit_0 mod_2_eq_odd)
  then show ?case by (subst trailing_one.simps) simp
next
  case (Suc k)
  then have "\<not> bit tmp 0" by blast
  then have "tmp AND 1 = 0" by (simp add: and_one_eq bit_0 mod_2_eq_odd)
  moreover have "trailing_one (i + 1) (drop_bit 1 tmp) = Some (i + 1 + of_nat k)"
    using Suc.prems by (intro Suc.IH) (auto simp: bit_drop_bit_eq)
  ultimately show ?case by (subst trailing_one.simps) simp
qed

lemma count_width_mask: "n \<le> 32 \<Longrightarrow> count_width cnt (mask n) = cnt + of_nat n"
proof (induction n arbitrary: cnt)
  case 0
  then show ?case by (subst count_width.simps) simp
next
  case (Suc n)
  have "bit (mask (Suc n) :: u32) 0" using Suc.prems by (simp add: bit_mask_iff)
  then have "mask (Suc n) \<noteq> (0 :: u32)" by auto
  moreover have "drop_bit 1 (mask (Suc n)) = (mask n :: u32)"
    using Suc.prems by (intro bit_word_eqI) (auto simp: bit_drop_bit_eq bit_mask_iff)
  ultimately show ?case using Suc by (subst count_width.simps) simp
qed

end
