(* ===== verification/Pmp_Rtl.thy ===== *)
theory Pmp_Rtl
  imports Cpu
begin

text \<open>
  The CSRs of the memory protection unit, \<^verbatim>\<open>rtl/core/neorv32_cpu_pmp.vhd\<close>, as the driver
  of \<open>Cpu\<close> sees them: which fields a write changes, what the lock bits protect and what
  the address registers read back.
\<close>

section \<open>State and configuration\<close>

record pmp_conf =
  regions :: nat
  pmp_lsb :: nat
  tor_en :: bool
  nap_en :: bool

record pmp_hw =
  p_cfg :: "nat \<Rightarrow> u8"
  p_addr :: "nat \<Rightarrow> u32"

definition pmp_reset :: pmp_hw where
  "pmp_reset = \<lparr>p_cfg = (\<lambda>_. 0), p_addr = (\<lambda>_. 0)\<rparr>"

definition cfg_mode :: "u8 \<Rightarrow> u8" where
  "cfg_mode b = drop_bit (pmpcfg PMPCFG_A_LSB) b AND 3"

definition cfg_locked :: "u8 \<Rightarrow> bool" where
  "cfg_locked b \<longleftrightarrow> bit b (pmpcfg PMPCFG_L)"

text \<open>What is stored of a written byte: no reserved bit, and mode off for one not implemented.\<close>

definition pmp_legal :: "pmp_conf \<Rightarrow> u8 \<Rightarrow> u8" where
  "pmp_legal conf b =
     (if (cfg_mode b = 1 \<and> \<not> tor_en conf) \<or> (cfg_mode b = 2 \<and> \<not> nap_en conf)
         \<or> (cfg_mode b = 3 \<and> \<not> nap_en conf) \<or> (cfg_mode b = 2 \<and> pmp_lsb conf > 2)
      then b AND 0x87 else b AND 0x9f)"

section \<open>Writes\<close>

definition pmpcfg_write :: "pmp_conf \<Rightarrow> nat \<Rightarrow> u32 \<Rightarrow> pmp_hw \<Rightarrow> pmp_hw" where
  "pmpcfg_write conf k w s =
     s\<lparr>p_cfg := \<lambda>i. if i div 4 = k \<and> i < regions conf \<and> \<not> cfg_locked (p_cfg s i)
        then pmp_legal conf (byte32 w (i mod 4)) else p_cfg s i\<rparr>"

definition locked_tor :: "pmp_hw \<Rightarrow> nat \<Rightarrow> bool" where
  "locked_tor s i \<longleftrightarrow> cfg_locked (p_cfg s i) \<and> cfg_mode (p_cfg s i) = 1"

definition pmpaddr_write :: "pmp_conf \<Rightarrow> nat \<Rightarrow> u32 \<Rightarrow> pmp_hw \<Rightarrow> pmp_hw" where
  "pmpaddr_write conf i w s =
     (if i < regions conf \<and> \<not> cfg_locked (p_cfg s i)
        \<and> (i < regions conf - 1 \<longrightarrow> \<not> locked_tor s (i + 1))
      then s\<lparr>p_addr := (p_addr s)(i := take_bit 30 w)\<rparr> else s)"

definition pmp_csr_write :: "pmp_conf \<Rightarrow> csr_id \<Rightarrow> u32 \<Rightarrow> pmp_hw \<Rightarrow> pmp_hw" where
  "pmp_csr_write conf c w s =
     (if drop_bit 2 c = drop_bit 2 CSR_PMPCFG0 then pmpcfg_write conf (unat (c AND 3)) w s
      else if drop_bit 4 c = drop_bit 4 CSR_PMPADDR0 then pmpaddr_write conf (unat (c AND 15)) w s
      else s)"

section \<open>Reads\<close>

definition cfg_rd :: "pmp_conf \<Rightarrow> pmp_hw \<Rightarrow> nat \<Rightarrow> u8" where
  "cfg_rd conf s i = (if i < regions conf then p_cfg s i else 0)"

definition cfg_rd32 :: "pmp_conf \<Rightarrow> pmp_hw \<Rightarrow> nat \<Rightarrow> u32" where
  "cfg_rd32 conf s k = join32 (cfg_rd conf s (k * 4)) (cfg_rd conf s (k * 4 + 1))
     (cfg_rd conf s (k * 4 + 2)) (cfg_rd conf s (k * 4 + 3))"

definition addr_rd :: "pmp_conf \<Rightarrow> pmp_hw \<Rightarrow> nat \<Rightarrow> u32" where
  "addr_rd conf s i =
     (let v = take_bit 30 (p_addr s i) AND NOT (mask (pmp_lsb conf - 2));
          off = \<not> bit (p_cfg s i) (pmpcfg PMPCFG_A_MSB)
      in if i \<ge> regions conf then 0
         else if pmp_lsb conf = 3 \<and> tor_en conf then
           (if off then v AND NOT (BIT (pmp_lsb conf)) else v)
         else if pmp_lsb conf > 3 then
           let v = (if nap_en conf then v OR mask (pmp_lsb conf - 1) else v)
           in if tor_en conf \<and> off then v AND NOT (mask (pmp_lsb conf)) else v
         else v)"

definition pmp_csr_read :: "pmp_conf \<Rightarrow> pmp_hw \<Rightarrow> csr_id \<Rightarrow> u32" where
  "pmp_csr_read conf s c =
     (if drop_bit 5 c = drop_bit 5 CSR_PMPCFG0 then
        if \<not> bit c 4 then cfg_rd32 conf s (unat (c AND 3)) else addr_rd conf s (unat (c AND 15))
      else 0)"

section \<open>The unit on the CSR bus\<close>

definition pmp_bus :: "pmp_conf \<Rightarrow> event \<Rightarrow> pmp_hw \<Rightarrow> pmp_hw" where
  "pmp_bus conf e s =
     (case e of
        Wr (Csr c) v \<Rightarrow> pmp_csr_write conf c v s
      | CsrSet c v \<Rightarrow> pmp_csr_write conf c (pmp_csr_read conf s c OR v) s
      | CsrClr c v \<Rightarrow> pmp_csr_write conf c (pmp_csr_read conf s c AND NOT v) s
      | _ \<Rightarrow> s)"

fun pmp_state :: "pmp_conf \<Rightarrow> event list \<Rightarrow> pmp_hw" where
  "pmp_state conf [] = pmp_reset"
| "pmp_state conf (e # h) = pmp_bus conf e (pmp_state conf h)"

definition pmp_rtl :: "pmp_conf \<Rightarrow> (event list \<Rightarrow> loc \<Rightarrow> u32) \<Rightarrow> event list \<Rightarrow> loc \<Rightarrow> u32" where
  "pmp_rtl conf rest h l =
     (case l of
        Csr c \<Rightarrow> if drop_bit 5 c = drop_bit 5 CSR_PMPCFG0 then pmp_csr_read conf (pmp_state conf h) c
          else rest h l
      | _ \<Rightarrow> rest h l)"

section \<open>Invariant\<close>

text \<open>Every region holds a legal configuration and a 30-bit address.\<close>

definition pmp_wf :: "pmp_conf \<Rightarrow> pmp_hw \<Rightarrow> bool" where
  "pmp_wf conf s \<longleftrightarrow>
     (\<forall>i. pmp_legal conf (p_cfg s i) = p_cfg s i \<and> take_bit 30 (p_addr s i) = p_addr s i)"

lemma cfg_mode_and: "cfg_mode (b AND 0x87) = 0" "cfg_mode (b AND 0x9f) = cfg_mode b"
  by (simp_all add: cfg_mode_def drop_bit_and and.assoc)

lemma pmp_legal_idem [simp]: "pmp_legal conf (pmp_legal conf b) = pmp_legal conf b"
  by (simp add: pmp_legal_def cfg_mode_and and.assoc)

lemma pmp_legal_0 [simp]: "pmp_legal conf 0 = 0"
  by (simp add: pmp_legal_def)

lemma pmp_wf_write: "pmp_wf conf s \<Longrightarrow> pmp_wf conf (pmp_csr_write conf c w s)"
  by (simp add: pmp_wf_def pmp_csr_write_def pmpcfg_write_def pmpaddr_write_def)

lemma pmp_wf_state: "pmp_wf conf (pmp_state conf h)"
proof (induction h)
  case Nil
  then show ?case by (simp add: pmp_wf_def pmp_reset_def)
next
  case (Cons e h)
  then show ?case by (auto simp: pmp_bus_def pmp_wf_write split: event.split loc.split)
qed

text \<open>What well-formedness says of the bits.\<close>

lemma cfg_mode_cases: "cfg_mode b \<in> {0, 1, 2, 3}"
proof -
  have "cfg_mode b = take_bit 2 (drop_bit (pmpcfg PMPCFG_A_LSB) b)" by (simp add: cfg_mode_def take_bit_eq_mask mask_eq_exp_minus_1)
  then have "unat (cfg_mode b) = take_bit 2 (unat (drop_bit (pmpcfg PMPCFG_A_LSB) b))" by (simp add: unsigned_take_bit_eq)
  then have "unat (cfg_mode b) < 4" using take_bit_nat_less_exp [of 2 "unat (drop_bit (pmpcfg PMPCFG_A_LSB) b)"] by simp
  then have "unat (cfg_mode b) \<in> unat ` {0, 1, 2, 3 :: u8}" by auto
  then show ?thesis by (metis image_iff word_unat_eq_iff)
qed

lemma pmp_wf_legal:
  assumes "pmp_wf conf s"
  shows "\<not> bit (p_cfg s i) 5 \<and> \<not> bit (p_cfg s i) 6
    \<and> cfg_mode (p_cfg s i) \<in> {0} \<union> (if tor_en conf then {1} else {})
        \<union> (if nap_en conf \<and> pmp_lsb conf \<le> 2 then {2} else {}) \<union> (if nap_en conf then {3} else {})
    \<and> unat (p_addr s i) < 2 ^ 30"
proof -
  have l: "p_cfg s i = pmp_legal conf (p_cfg s i)" and a: "take_bit 30 (p_addr s i) = p_addr s i"
    using assms by (simp_all add: pmp_wf_def)
  have "\<not> bit (b AND 0x87) n" "\<not> bit (b AND 0x9f) n" if "n = 5 \<or> n = 6" for n and b :: u8
    using that by (auto simp: bit_simps)
  then have "\<not> bit (p_cfg s i) 5" "\<not> bit (p_cfg s i) 6"
    by (subst l, simp add: pmp_legal_def)+
  moreover have "cfg_mode (p_cfg s i) \<in> {0} \<union> (if tor_en conf then {1} else {})
        \<union> (if nap_en conf \<and> pmp_lsb conf \<le> 2 then {2} else {}) \<union> (if nap_en conf then {3} else {})"
    using cfg_mode_cases [of "p_cfg s i"]
    by (subst l) (auto simp: pmp_legal_def cfg_mode_and)
  moreover have "unat (p_addr s i) < 2 ^ 30"
    by (metis a take_bit_nat_less_exp unsigned_take_bit_eq)
  ultimately show ?thesis by blast
qed

text \<open>A locked region keeps its configuration and its address through every access.\<close>

lemma locked_write:
  assumes "cfg_locked (p_cfg s i)"
  shows "p_cfg (pmp_csr_write conf c w s) i = p_cfg s i"
    "p_addr (pmp_csr_write conf c w s) i = p_addr s i"
  using assms by (auto simp: pmp_csr_write_def pmpcfg_write_def pmpaddr_write_def)

lemma locked_bus:
  "cfg_locked (p_cfg s i) \<Longrightarrow> p_cfg (pmp_bus conf e s) i = p_cfg s i \<and> p_addr (pmp_bus conf e s) i = p_addr s i"
  by (auto simp: pmp_bus_def locked_write split: event.split loc.split)

lemma locked_run:
  "cfg_locked (p_cfg (pmp_state conf h) i) \<Longrightarrow>
    p_cfg (pmp_state conf (k @ h)) i = p_cfg (pmp_state conf h) i
    \<and> p_addr (pmp_state conf (k @ h)) i = p_addr (pmp_state conf h) i"
  by (induction k) (simp_all add: locked_bus)

section \<open>The registers the driver selects\<close>

lemma less_4_cases: "k < 4 \<Longrightarrow> k = 0 \<or> k = 1 \<or> k = 2 \<or> k = (3 :: nat)"
  by auto

lemma pmpcfg_csr_write: "k < 4 \<Longrightarrow> pmp_csr_write conf (pmpcfg_csr k) w s = pmpcfg_write conf k w s"
  by (drule less_4_cases) (auto simp: pmp_csr_write_def pmpcfg_csr_def csr_defs)

lemma pmpcfg_csr_read: "k < 4 \<Longrightarrow> pmp_csr_read conf s (pmpcfg_csr k) = cfg_rd32 conf s k"
  by (drule less_4_cases) (auto simp: pmp_csr_read_def pmpcfg_csr_def csr_defs)

lemma less_16_cases: "i < 16 \<Longrightarrow> i \<in> {0, 1, 2, 3, 4, 5, 6, 7, 8, 9, 10, 11, 12, 13, 14, 15 :: nat}"
  by (simp, presburger)

lemma pmpaddr_csr_write: "i < 16 \<Longrightarrow> pmp_csr_write conf (pmpaddr_csr i) w s = pmpaddr_write conf i w s"
  by (drule less_16_cases) (auto simp: pmp_csr_write_def pmpaddr_csr_def csr_defs)

section \<open>Configuring a region\<close>

lemma byte32_cfg_rd32: "byte32 (cfg_rd32 conf s (i div 4)) (i mod 4) = cfg_rd conf s i"
proof -
  define k q where "k = i div 4" and "q = i mod 4"
  have i: "i = k * 4 + q" "q < 4" by (simp_all add: k_def q_def)
  from less_4_cases [OF i(2)] have "byte32 (cfg_rd32 conf s k) q = cfg_rd conf s (k * 4 + q)"
    by (elim disjE) (simp_all add: cfg_rd32_def)
  then show ?thesis by (simp only: i(1) [symmetric]) (simp only: k_def q_def)
qed

text \<open>The byte masks of the driver.\<close>

lemma bit_push_byte:
  assumes "q < 4" "q' < 4" "n < 8"
  shows "bit (push_bit (8 * q) (ucast (b :: u8)) :: u32) (8 * q' + n) \<longleftrightarrow> q' = q \<and> bit b n"
proof -
  have "(8 * q \<le> 8 * q' + n \<and> 8 * q' + n - 8 * q < 8) \<longleftrightarrow> q' = q" using assms(3) by presburger
  moreover have "8 * q' + n < 32" using assms(2,3) by simp
  ultimately show ?thesis
    using bit_imp_le_length [of b "8 * q' + n - 8 * q"] assms(3)
    by (auto simp: bit_push_bit_iff bit_ucast_iff)
qed

lemma byte32_clear:
  assumes "q < 4" "q' < 4"
  shows "byte32 (w AND NOT (push_bit (8 * q) 0xff)) q' = (if q' = q then 0 else byte32 w q')"
proof -
  have ff: "(0xff :: u32) = ucast (- 1 :: u8)"
    by (simp add: unsigned_minus_1_eq_mask mask_eq_exp_minus_1)
  show ?thesis
    unfolding ff
  proof (rule bit_word_eqI)
    fix n assume "n < LENGTH(8)"
    then have n: "n < 8" by simp
    show "bit (byte32 (w AND NOT (push_bit (8 * q) (ucast (- 1 :: u8)))) q') n
        = bit (if q' = q then 0 else byte32 w q') n"
      using n assms bit_push_byte [OF assms n, of "- 1"]
      by (simp add: bit_byte32 bit_and_iff bit_not_iff)
  qed
qed

lemma byte32_set:
  assumes "q < 4" "q' < 4"
  shows "byte32 (w OR push_bit (8 * q) (ucast b)) q' = (if q' = q then byte32 w q' OR b else byte32 w q')"
proof (rule bit_word_eqI)
  fix n assume "n < LENGTH(8)"
  then have n: "n < 8" by simp
  show "bit (byte32 (w OR push_bit (8 * q) (ucast b)) q') n
      = bit (if q' = q then byte32 w q' OR b else byte32 w q') n"
    using n assms bit_push_byte [OF assms n, of b] by (simp add: bit_byte32 bit_or_iff)
qed

lemma lock_test:
  "q < 4 \<Longrightarrow> drop_bit (8 * q) w AND BIT (pmpcfg PMPCFG_L) \<noteq> 0 \<longleftrightarrow> cfg_locked (byte32 w q)"
  by (simp add: cfg_locked_def bit_byte32 bit_drop_bit_eq)

text \<open>A write that changes one byte of a configuration register changes one region.\<close>

lemma pmpcfg_write_one:
  assumes "pmp_wf conf s" "i < regions conf" "\<not> cfg_locked (p_cfg s i)"
    and "\<And>q. q < 4 \<Longrightarrow> byte32 w q = (if q = i mod 4 then b else byte32 (cfg_rd32 conf s (i div 4)) q)"
  shows "pmpcfg_write conf (i div 4) w s = s\<lparr>p_cfg := (p_cfg s)(i := pmp_legal conf b)\<rparr>"
proof -
  have "(if j div 4 = i div 4 \<and> j < regions conf \<and> \<not> cfg_locked (p_cfg s j)
        then pmp_legal conf (byte32 w (j mod 4)) else p_cfg s j)
      = ((p_cfg s)(i := pmp_legal conf b)) j" for j
  proof (cases "j = i")
    case True
    then show ?thesis using assms(2,3) assms(4) [of "i mod 4"] by simp
  next
    case False
    then have "j mod 4 \<noteq> i mod 4" if "j div 4 = i div 4"
      using that by (metis div_mult_mod_eq)
    then have "byte32 w (j mod 4) = cfg_rd conf s j" if "j div 4 = i div 4"
      using that assms(4) [of "j mod 4"] byte32_cfg_rd32 [of conf s j] by simp
    then show ?thesis using False assms(1) by (simp add: cfg_rd_def pmp_wf_def)
  qed
  then show ?thesis unfolding pmpcfg_write_def by presburger
qed

lemma pmpaddr_write_frame:
  "p_cfg (pmpaddr_write conf i w s) = p_cfg s" "cfg_rd32 conf (pmpaddr_write conf i w s) = cfg_rd32 conf s"
  by (simp_all add: pmpaddr_write_def cfg_rd32_def cfg_rd_def fun_eq_iff)

lemma index_digits:
  assumes "i < 16"
  shows "nat (drop_bit 2 (int i) AND 3) = i div 4" "nat (int i AND 3) = i mod 4" "nat (int i AND 0xf) = i"
proof -
  have m: "(3 :: int) = mask 2" "(0xf :: int) = mask 4" by (simp_all add: mask_eq_exp_minus_1)
  show "nat (int i AND 3) = i mod 4" "nat (int i AND 0xf) = i"
    unfolding m using assms by (simp_all flip: take_bit_eq_mask add: take_bit_eq_mod nat_mod_distrib)
  show "nat (drop_bit 2 (int i) AND 3) = i div 4"
    unfolding m using assms
    by (simp flip: take_bit_eq_mask add: take_bit_eq_mod drop_bit_eq_div nat_mod_distrib nat_div_distrib)
qed

lemma pmp_csr_range:
  "k < 4 \<Longrightarrow> drop_bit 5 (pmpcfg_csr k) = drop_bit 5 CSR_PMPCFG0" "drop_bit 5 CSR_MXISA \<noteq> drop_bit 5 CSR_PMPCFG0"
  by (drule less_4_cases) (auto simp: pmpcfg_csr_def csr_defs)

lemma configure_region_state:
  assumes "hw m = pmp_rtl conf rest" "regions conf \<le> 16" "i < regions conf"
    and "bit (rd_val (Csr CSR_MXISA) m) (csr_mxisa CSR_MXISA_SMPMP)"
    and "neorv32_cpu_pmp_configure_region (int i) addr config m = (r, m')"
  defines "s \<equiv> pmp_state conf (log m)"
  shows "r = (if cfg_locked (p_cfg s i) then - 2 else 0)"
    "pmp_state conf (log m') = (if cfg_locked (p_cfg s i) then s
      else (pmpaddr_write conf i addr s)\<lparr>p_cfg := (p_cfg s)(i := pmp_legal conf config)\<rparr>)"
proof -
  let ?k = "i div 4" and ?q = "i mod 4"
  have i: "i < 16" "?k < 4" "?q < 4" using assms(2,3) by simp_all
  let ?m1 = "snd (rd (Csr CSR_MXISA) m)"
  have s1: "pmp_state conf (log ?m1) = s" by (simp add: rd_def pmp_bus_def s_def)
  have v: "rd_val (Csr (pmpcfg_csr ?k)) ?m1 = cfg_rd32 conf s ?k"
    using s1 i by (simp add: rd_val_def assms(1) pmp_rtl_def pmp_csr_range pmpcfg_csr_read)
  have lk: "drop_bit (8 * ?q) (cfg_rd32 conf s ?k) AND BIT (pmpcfg PMPCFG_L) \<noteq> 0 \<longleftrightarrow> cfg_locked (p_cfg s i)"
    using lock_test [OF i(3), of "cfg_rd32 conf s ?k"] assms(3) by (simp add: byte32_cfg_rd32 cfg_rd_def)
  note def = neorv32_cpu_pmp_configure_region_def index_digits [OF i(1)] neorv32_cpu_csr_read_def
    neorv32_cpu_csr_write_def neorv32_cpu_csr_set_def neorv32_cpu_csr_clr_def
  have wf: "pmp_wf conf s" unfolding s_def by (rule pmp_wf_state)
  have pair: "mxisa_test CSR_MXISA_SMPMP m = (True, ?m1)"
    using assms(4) by (simp add: prod_eq_iff)
  show "r = (if cfg_locked (p_cfg s i) then - 2 else 0)"
    using assms(5) i(1) v lk by (simp add: def pair rd_def Let_def split: if_splits)
  show "pmp_state conf (log m') = (if cfg_locked (p_cfg s i) then s
      else (pmpaddr_write conf i addr s)\<lparr>p_cfg := (p_cfg s)(i := pmp_legal conf config)\<rparr>)"
  proof (cases "cfg_locked (p_cfg s i)")
    case True
    then have "m' = snd (rd (Csr (pmpcfg_csr ?k)) ?m1)"
      using assms(5) i(1) v lk by (simp add: def pair rd_def Let_def split: if_splits)
    with True s1 show ?thesis by (simp add: rd_def pmp_bus_def)
  next
    case False
    let ?a = "pmpaddr_write conf i addr s"
    let ?c = "cfg_rd32 conf ?a ?k AND NOT (push_bit (8 * ?q) 0xff)"
    let ?b = "pmpcfg_write conf ?k ?c ?a"
    have "m' = tick (CsrSet (pmpcfg_csr ?k) (push_bit (8 * ?q) (ucast config)))
        (tick (CsrClr (pmpcfg_csr ?k) (push_bit (8 * ?q) 0xff))
          (wr (Csr (pmpaddr_csr i)) addr (snd (rd (Csr (pmpcfg_csr ?k)) ?m1))))"
      using False assms(5) i(1) v lk by (simp add: def pair rd_def Let_def split: if_splits)
    moreover have "pmp_state conf (log (snd (rd (Csr (pmpcfg_csr ?k)) ?m1))) = s"
      using s1 by (simp add: rd_def pmp_bus_def)
    ultimately have m': "pmp_state conf (log m')
        = pmpcfg_write conf ?k (cfg_rd32 conf ?b ?k OR push_bit (8 * ?q) (ucast config)) ?b"
      using i by (simp add: wr_def pmp_bus_def pmpcfg_csr_write pmpcfg_csr_read pmpaddr_csr_write)
    have wfa: "pmp_wf conf ?a" using wf by (auto simp: pmp_wf_def pmpaddr_write_def)
    have b: "?b = ?a\<lparr>p_cfg := (p_cfg s)(i := 0)\<rparr>"
      using pmpcfg_write_one [OF wfa assms(3), of ?c 0] False i(3)
      by (simp add: pmpaddr_write_frame byte32_clear)
    have wfb: "pmp_wf conf ?b" using wfa wf unfolding b by (auto simp: pmp_wf_def)
    have "pmp_state conf (log m') = ?b\<lparr>p_cfg := (p_cfg ?b)(i := pmp_legal conf config)\<rparr>"
      unfolding m'
    proof (rule pmpcfg_write_one [OF wfb assms(3)])
      show "\<not> cfg_locked (p_cfg ?b i)" unfolding b by (simp add: cfg_locked_def)
      fix q :: nat assume "q < 4"
      moreover have "byte32 (cfg_rd32 conf ?b ?k) ?q = 0"
        unfolding b byte32_cfg_rd32 by (simp add: cfg_rd_def)
      ultimately show "byte32 (cfg_rd32 conf ?b ?k OR push_bit (8 * ?q) (ucast config)) q
          = (if q = ?q then config else byte32 (cfg_rd32 conf ?b ?k) q)"
        using i(3) by (simp add: byte32_set)
    qed
    then show ?thesis using False unfolding b by simp
  qed
qed

section \<open>Probing the granularity\<close>

text \<open>
  What the driver finds: from 16 bytes on, the address register of a region that is off reads
  back with too many bits cleared (with top-of-range mode) or set (without).
\<close>

definition granularity_seen :: "pmp_conf \<Rightarrow> nat" where
  "granularity_seen conf =
     (if pmp_lsb conf \<le> 3 then pmp_lsb conf
      else if tor_en conf then pmp_lsb conf + 2
      else if nap_en conf then 2 else pmp_lsb conf)"

lemma addr_rd_probe:
  assumes "0 < regions conf" "2 \<le> pmp_lsb conf" "pmp_lsb conf < 30"
    and "p_cfg s 0 = 0" "p_addr s 0 = mask 30"
  shows "bit (addr_rd conf s 0) (granularity_seen conf - 2)"
    "\<forall>j < granularity_seen conf - 2. \<not> bit (addr_rd conf s 0) j"
proof -
  have b: "bit (addr_rd conf s 0) j \<longleftrightarrow>
      (if pmp_lsb conf \<le> 3 \<or> \<not> tor_en conf then
         (j < 30 \<and> \<not> j < pmp_lsb conf - 2 \<and> \<not> (pmp_lsb conf = 3 \<and> tor_en conf \<and> j = 3))
         \<or> (pmp_lsb conf > 3 \<and> nap_en conf \<and> j < pmp_lsb conf - 1)
       else j < 30 \<and> \<not> j < pmp_lsb conf)" if "j < 32" for j
    using that assms
    by (auto simp: addr_rd_def Let_def bit_and_iff bit_or_iff bit_not_iff bit_mask_iff bit_take_bit_iff)
  have g: "granularity_seen conf - 2 < 32" using assms(3) unfolding granularity_seen_def by auto
  show "bit (addr_rd conf s 0) (granularity_seen conf - 2)"
    unfolding b [OF g] using assms by (auto simp: granularity_seen_def)
  show "\<forall>j < granularity_seen conf - 2. \<not> bit (addr_rd conf s 0) j"
  proof (intro allI impI)
    fix j assume j: "j < granularity_seen conf - 2"
    with g have "j < 32" by simp
    from b [OF this] j assms show "\<not> bit (addr_rd conf s 0) j"
      by (auto simp: granularity_seen_def split: if_splits)
  qed
qed

lemma pmp_csr_word:
  "drop_bit 5 CSR_PMPADDR0 = drop_bit 5 CSR_PMPCFG0"
  "pmp_csr_write conf CSR_PMPCFG0 w s = pmpcfg_write conf 0 w s"
  "pmp_csr_write conf CSR_PMPADDR0 w s = pmpaddr_write conf 0 w s"
  "pmp_csr_read conf s CSR_PMPADDR0 = addr_rd conf s 0"
  by (simp_all add: pmp_csr_write_def pmp_csr_read_def csr_defs)

lemma granularity_probe:
  assumes "hw m = pmp_rtl conf rest" "0 < regions conf" "2 \<le> pmp_lsb conf" "pmp_lsb conf < 28"
    and "bit (rd_val (Csr CSR_MXISA) m) (csr_mxisa CSR_MXISA_SMPMP)"
    and "\<And>i. \<not> cfg_locked (p_cfg (pmp_state conf (log m)) i)"
  shows "\<exists>m'. neorv32_cpu_pmp_get_granularity m = Some (BIT (granularity_seen conf), m')"
proof -
  let ?m1 = "snd (rd (Csr CSR_MXISA) m)"
  let ?m2 = "wr (Csr CSR_PMPADDR0) (- 1) (wr (Csr CSR_PMPCFG0) 0 ?m1)"
  let ?s = "pmp_state conf (log ?m2)" and ?g = "granularity_seen conf"
  define s where "s = pmp_state conf (log m)"
  have s: "?s = pmpaddr_write conf 0 (- 1) (pmpcfg_write conf 0 0 s)"
    by (simp add: rd_def wr_def pmp_bus_def s_def pmp_csr_word)
  have u: "\<not> cfg_locked (p_cfg (pmpcfg_write conf 0 0 s) i)" for i
    using assms(6) by (simp add: pmpcfg_write_def byte32_def cfg_locked_def s_def)
  have cfg: "p_cfg ?s 0 = 0" "p_addr ?s 0 = mask 30"
    unfolding s using u assms(2,6)
    by (simp_all add: pmpaddr_write_def locked_tor_def pmpcfg_write_def byte32_def cfg_locked_def take_bit_minus_one_eq_mask s_def)
  have v: "rd_val (Csr CSR_PMPADDR0) ?m2 = addr_rd conf ?s 0"
    by (simp add: rd_val_def assms(1) pmp_rtl_def pmp_csr_word)
  have "pmp_lsb conf < 30" using assms(4) by simp
  note b = addr_rd_probe [OF assms(2,3) this cfg]
  from b(1) have nz: "addr_rd conf ?s 0 \<noteq> 0" by auto
  have g: "2 \<le> ?g" "?g < 32" using assms(3,4) by (auto simp: granularity_seen_def)
  have "trailing_one 2 (addr_rd conf ?s 0) = Some (2 + of_nat (?g - 2))"
    using b by (rule trailing_one_returns)
  also have "(2 :: u32) + of_nat (?g - 2) = of_nat ?g" using g(1) by (simp add: of_nat_diff)
  finally have t: "trailing_one 2 (addr_rd conf ?s 0) = Some (of_nat ?g)" .
  have n: "unat (of_nat ?g :: u32) = ?g" using g(2) by (intro unat_of_nat_small) simp
  have "unat (of_nat ?g AND 31 :: u32) = ?g mod 32"
    unfolding and_31_take_bit by (simp add: take_bit_eq_mod unat_mod_distrib n)
  then have "shl32 1 (of_nat ?g) = BIT ?g" using g(2) by (simp add: shl32_def BIT_def)
  moreover have "mxisa_test CSR_MXISA_SMPMP m = (True, ?m1)" using assms(5) by (simp add: prod_eq_iff)
  ultimately show ?thesis using t nz v
    by (simp add: neorv32_cpu_pmp_get_granularity_def neorv32_cpu_csr_write_def
        neorv32_cpu_csr_read_def Let_def rd_def)
qed

end
