(* ===== verification/Twi.thy ===== *)
theory Twi
  imports Sysinfo
begin

text \<open>
  The two-wire controller driver, \<^verbatim>\<open>sw/lib/source/neorv32_twi.c\<close>.
\<close>

section \<open>Registers\<close>

definition TWI_CTRL :: loc where "TWI_CTRL = Mem W32 (NEORV32_TWI_BASE)"
definition TWI_DCMD :: loc where "TWI_DCMD = Mem W32 (NEORV32_TWI_BASE + 4)"

lemmas twi_regs = TWI_CTRL_def TWI_DCMD_def NEORV32_TWI_BASE_def

datatype twi_ctrl_bit =
    TWI_CTRL_EN
  | TWI_CTRL_PRSC0
  | TWI_CTRL_PRSC1
  | TWI_CTRL_PRSC2
  | TWI_CTRL_CDIV0
  | TWI_CTRL_CDIV1
  | TWI_CTRL_CDIV2
  | TWI_CTRL_CDIV3
  | TWI_CTRL_CLKSTR
  | TWI_CTRL_FIFO_LSB
  | TWI_CTRL_FIFO_MSB
  | TWI_CTRL_SENSE_SCL
  | TWI_CTRL_SENSE_SDA
  | TWI_CTRL_TX_FULL
  | TWI_CTRL_RX_AVAIL
  | TWI_CTRL_BUSY

primrec twi_ctrl :: "twi_ctrl_bit \<Rightarrow> nat" where
    "twi_ctrl TWI_CTRL_EN = 0"
  | "twi_ctrl TWI_CTRL_PRSC0 = 1"
  | "twi_ctrl TWI_CTRL_PRSC1 = 2"
  | "twi_ctrl TWI_CTRL_PRSC2 = 3"
  | "twi_ctrl TWI_CTRL_CDIV0 = 4"
  | "twi_ctrl TWI_CTRL_CDIV1 = 5"
  | "twi_ctrl TWI_CTRL_CDIV2 = 6"
  | "twi_ctrl TWI_CTRL_CDIV3 = 7"
  | "twi_ctrl TWI_CTRL_CLKSTR = 8"
  | "twi_ctrl TWI_CTRL_FIFO_LSB = 15"
  | "twi_ctrl TWI_CTRL_FIFO_MSB = 18"
  | "twi_ctrl TWI_CTRL_SENSE_SCL = 27"
  | "twi_ctrl TWI_CTRL_SENSE_SDA = 28"
  | "twi_ctrl TWI_CTRL_TX_FULL = 29"
  | "twi_ctrl TWI_CTRL_RX_AVAIL = 30"
  | "twi_ctrl TWI_CTRL_BUSY = 31"

datatype twi_dcmd_bit =
    TWI_DCMD_LSB
  | TWI_DCMD_MSB
  | TWI_DCMD_ACK
  | TWI_DCMD_CMD_LO
  | TWI_DCMD_CMD_HI

primrec twi_dcmd :: "twi_dcmd_bit \<Rightarrow> nat" where
    "twi_dcmd TWI_DCMD_LSB = 0"
  | "twi_dcmd TWI_DCMD_MSB = 7"
  | "twi_dcmd TWI_DCMD_ACK = 8"
  | "twi_dcmd TWI_DCMD_CMD_LO = 9"
  | "twi_dcmd TWI_DCMD_CMD_HI = 10"

datatype twi_cmd =
    TWI_CMD_NOP
  | TWI_CMD_START
  | TWI_CMD_STOP
  | TWI_CMD_RTX

primrec twi_cmd_code :: "twi_cmd \<Rightarrow> u32" where
    "twi_cmd_code TWI_CMD_NOP = 0"
  | "twi_cmd_code TWI_CMD_START = 1"
  | "twi_cmd_code TWI_CMD_STOP = 2"
  | "twi_cmd_code TWI_CMD_RTX = 3"

section \<open>Driver\<close>

definition neorv32_twi_available :: "mach \<Rightarrow> u32 \<times> mach" where
  "neorv32_twi_available m = soc_test SYSINFO_SOC_IO_TWI m"

definition neorv32_twi_setup :: "u32 \<Rightarrow> u32 \<Rightarrow> u32 \<Rightarrow> mach \<Rightarrow> mach" where
  "neorv32_twi_setup prsc cdiv clkstr m =
     (let m = wr TWI_CTRL 0 m;
          ctrl = push_bit (twi_ctrl TWI_CTRL_EN) 1
            OR push_bit (twi_ctrl TWI_CTRL_PRSC0) (prsc AND 0x7)
            OR push_bit (twi_ctrl TWI_CTRL_CDIV0) (cdiv AND 0xf)
            OR push_bit (twi_ctrl TWI_CTRL_CLKSTR) (clkstr AND 0x1)
      in wr TWI_CTRL ctrl m)"

definition neorv32_twi_get_fifo_depth :: "mach \<Rightarrow> u32 \<times> mach" where
  "neorv32_twi_get_fifo_depth m = reg_pow2 TWI_CTRL (twi_ctrl TWI_CTRL_FIFO_LSB) m"

definition neorv32_twi_disable :: "mach \<Rightarrow> mach" where
  "neorv32_twi_disable m = MMREG32_BCLR TWI_CTRL (BIT (twi_ctrl TWI_CTRL_EN)) m"

definition neorv32_twi_enable :: "mach \<Rightarrow> mach" where
  "neorv32_twi_enable m = MMREG32_BSET TWI_CTRL (BIT (twi_ctrl TWI_CTRL_EN)) m"

definition neorv32_twi_sense_scl :: "mach \<Rightarrow> u32 \<times> mach" where
  "neorv32_twi_sense_scl m = reg_test TWI_CTRL (twi_ctrl TWI_CTRL_SENSE_SCL) m"

definition neorv32_twi_sense_sda :: "mach \<Rightarrow> u32 \<times> mach" where
  "neorv32_twi_sense_sda m = reg_test TWI_CTRL (twi_ctrl TWI_CTRL_SENSE_SDA) m"

definition neorv32_twi_busy :: "mach \<Rightarrow> u32 \<times> mach" where
  "neorv32_twi_busy m = reg_test TWI_CTRL (twi_ctrl TWI_CTRL_BUSY) m"

text \<open>The pointer argument is returned as a second result: it keeps its value when no data is there.\<close>

definition neorv32_twi_get :: "u8 \<Rightarrow> mach \<Rightarrow> (int \<times> u8) \<times> mach" where
  "neorv32_twi_get data m =
     (let (v, m) = reg_test TWI_CTRL (twi_ctrl TWI_CTRL_RX_AVAIL) m
      in if v = 0 then ((- 1, data), m)
         else
           let (tmp, m) = rd TWI_DCMD m
           in ((uint (drop_bit (twi_dcmd TWI_DCMD_ACK) tmp AND 1), ucast tmp), m))"

definition neorv32_twi_get_discard :: "mach \<Rightarrow> mach" where
  "neorv32_twi_get_discard m = snd (rd TWI_DCMD m)"

definition neorv32_twi_send_nonblocking :: "u8 \<Rightarrow> u32 \<Rightarrow> mach \<Rightarrow> mach" where
  "neorv32_twi_send_nonblocking data mack m =
     wr TWI_DCMD
       (ucast data OR push_bit (twi_dcmd TWI_DCMD_ACK) (mack AND 1)
        OR push_bit (twi_dcmd TWI_DCMD_CMD_LO) (twi_cmd_code TWI_CMD_RTX)) m"

definition neorv32_twi_generate_stop_nonblocking :: "mach \<Rightarrow> mach" where
  "neorv32_twi_generate_stop_nonblocking m =
     wr TWI_DCMD (push_bit (twi_dcmd TWI_DCMD_CMD_LO) (twi_cmd_code TWI_CMD_STOP)) m"

definition neorv32_twi_generate_start_nonblocking :: "mach \<Rightarrow> mach" where
  "neorv32_twi_generate_start_nonblocking m =
     wr TWI_DCMD (push_bit (twi_dcmd TWI_DCMD_CMD_LO) (twi_cmd_code TWI_CMD_START)) m"

definition twi_full :: "u32 \<Rightarrow> bool" where
  "twi_full v \<longleftrightarrow> v AND BIT (twi_ctrl TWI_CTRL_TX_FULL) \<noteq> 0"

definition twi_busy :: "u32 \<Rightarrow> bool" where
  "twi_busy v \<longleftrightarrow> v AND BIT (twi_ctrl TWI_CTRL_BUSY) \<noteq> 0"

definition neorv32_twi_transfer :: "u8 \<Rightarrow> u32 \<Rightarrow> mach \<Rightarrow> ((int \<times> u8) \<times> mach) option" where
  "neorv32_twi_transfer data mack m =
     do {
       m \<leftarrow> poll twi_full TWI_CTRL m;
       m \<leftarrow> poll twi_busy TWI_CTRL (neorv32_twi_send_nonblocking data mack m);
       Some (neorv32_twi_get data m)
     }"

definition neorv32_twi_generate_stop :: "mach \<Rightarrow> mach option" where
  "neorv32_twi_generate_stop m =
     do {
       m \<leftarrow> poll twi_full TWI_CTRL m;
       poll twi_busy TWI_CTRL (neorv32_twi_generate_stop_nonblocking m)
     }"

definition neorv32_twi_generate_start :: "mach \<Rightarrow> mach option" where
  "neorv32_twi_generate_start m =
     do {
       m \<leftarrow> poll twi_full TWI_CTRL m;
       poll twi_busy TWI_CTRL (neorv32_twi_generate_start_nonblocking m)
     }"

section \<open>Facts\<close>

lemma twi_regs_distinct [simp]: "TWI_CTRL \<noteq> TWI_DCMD" "TWI_DCMD \<noteq> TWI_CTRL"
  by (simp_all add: twi_regs)

end
