(* ===== verification/Spi.thy ===== *)
theory Spi
  imports Sysinfo
begin

text \<open>
  The SPI controller driver, \<^verbatim>\<open>sw/lib/source/neorv32_spi.c\<close>.
\<close>

section \<open>Registers\<close>

definition SPI_CTRL :: loc where "SPI_CTRL = Mem W32 (NEORV32_SPI_BASE)"
definition SPI_DATA :: loc where "SPI_DATA = Mem W32 (NEORV32_SPI_BASE + 4)"

lemmas spi_regs = SPI_CTRL_def SPI_DATA_def NEORV32_SPI_BASE_def

datatype spi_ctrl_bit =
    SPI_CTRL_EN
  | SPI_CTRL_CPHA
  | SPI_CTRL_CPOL
  | SPI_CTRL_PRSC0
  | SPI_CTRL_PRSC1
  | SPI_CTRL_PRSC2
  | SPI_CTRL_CDIV0
  | SPI_CTRL_CDIV1
  | SPI_CTRL_CDIV2
  | SPI_CTRL_CDIV3
  | SPI_CTRL_RX_AVAIL
  | SPI_CTRL_TX_EMPTY
  | SPI_CTRL_TX_FULL
  | SPI_CTRL_FIFO_LSB
  | SPI_CTRL_FIFO_MSB
  | SPI_CS_ACTIVE
  | SPI_CTRL_BUSY

primrec spi_ctrl :: "spi_ctrl_bit \<Rightarrow> nat" where
    "spi_ctrl SPI_CTRL_EN = 0"
  | "spi_ctrl SPI_CTRL_CPHA = 1"
  | "spi_ctrl SPI_CTRL_CPOL = 2"
  | "spi_ctrl SPI_CTRL_PRSC0 = 3"
  | "spi_ctrl SPI_CTRL_PRSC1 = 4"
  | "spi_ctrl SPI_CTRL_PRSC2 = 5"
  | "spi_ctrl SPI_CTRL_CDIV0 = 6"
  | "spi_ctrl SPI_CTRL_CDIV1 = 7"
  | "spi_ctrl SPI_CTRL_CDIV2 = 8"
  | "spi_ctrl SPI_CTRL_CDIV3 = 9"
  | "spi_ctrl SPI_CTRL_RX_AVAIL = 16"
  | "spi_ctrl SPI_CTRL_TX_EMPTY = 17"
  | "spi_ctrl SPI_CTRL_TX_FULL = 18"
  | "spi_ctrl SPI_CTRL_FIFO_LSB = 24"
  | "spi_ctrl SPI_CTRL_FIFO_MSB = 27"
  | "spi_ctrl SPI_CS_ACTIVE = 30"
  | "spi_ctrl SPI_CTRL_BUSY = 31"

datatype spi_data_bit =
    SPI_DATA_LSB
  | SPI_DATA_CSEN
  | SPI_DATA_MSB
  | SPI_DATA_CMD

primrec spi_data :: "spi_data_bit \<Rightarrow> nat" where
    "spi_data SPI_DATA_LSB = 0"
  | "spi_data SPI_DATA_CSEN = 3"
  | "spi_data SPI_DATA_MSB = 7"
  | "spi_data SPI_DATA_CMD = 31"

section \<open>Driver\<close>

definition neorv32_spi_available :: "mach \<Rightarrow> u32 \<times> mach" where
  "neorv32_spi_available m = soc_test SYSINFO_SOC_IO_SPI m"

definition neorv32_spi_setup :: "u32 \<Rightarrow> u32 \<Rightarrow> u32 \<Rightarrow> u32 \<Rightarrow> mach \<Rightarrow> mach" where
  "neorv32_spi_setup prsc cdiv clk_phase clk_polarity m =
     (let m = wr SPI_CTRL 0 m;
          tmp = push_bit (spi_ctrl SPI_CTRL_EN) (1 AND 0x01)
            OR push_bit (spi_ctrl SPI_CTRL_CPHA) (clk_phase AND 0x01)
            OR push_bit (spi_ctrl SPI_CTRL_CPOL) (clk_polarity AND 0x01)
            OR push_bit (spi_ctrl SPI_CTRL_PRSC0) (prsc AND 0x07)
            OR push_bit (spi_ctrl SPI_CTRL_CDIV0) (cdiv AND 0x0f)
      in wr SPI_CTRL tmp m)"

definition spi_prsc_lut :: "u32 list" where
  "spi_prsc_lut = [2, 4, 8, 64, 128, 1024, 2048, 4096]"

definition neorv32_spi_get_clock_speed :: "mach \<Rightarrow> u32 \<times> mach" where
  "neorv32_spi_get_clock_speed m =
     (let (ctrl, m) = rd SPI_CTRL m;
          prsc_sel = drop_bit (spi_ctrl SPI_CTRL_PRSC0) ctrl AND 0x7;
          clock_div = drop_bit (spi_ctrl SPI_CTRL_CDIV0) ctrl AND 0xf;
          tmp = 2 * (spi_prsc_lut ! unat prsc_sel) * (1 + clock_div);
          (clk, m) = neorv32_sysinfo_get_clk m
      in (divu clk tmp, m))"

definition neorv32_spi_disable :: "mach \<Rightarrow> mach" where
  "neorv32_spi_disable m = MMREG32_BCLR SPI_CTRL (BIT (spi_ctrl SPI_CTRL_EN)) m"

definition neorv32_spi_enable :: "mach \<Rightarrow> mach" where
  "neorv32_spi_enable m = MMREG32_BSET SPI_CTRL (BIT (spi_ctrl SPI_CTRL_EN)) m"

definition neorv32_spi_get_fifo_depth :: "mach \<Rightarrow> u32 \<times> mach" where
  "neorv32_spi_get_fifo_depth m = reg_pow2 SPI_CTRL (spi_ctrl SPI_CTRL_FIFO_LSB) m"

definition neorv32_spi_put_nonblocking :: "u8 \<Rightarrow> mach \<Rightarrow> mach" where
  "neorv32_spi_put_nonblocking tx_data m =
     wr SPI_DATA (push_bit (spi_data SPI_DATA_CMD) 0 OR ucast tx_data) m"

definition neorv32_spi_get_nonblocking :: "mach \<Rightarrow> u8 \<times> mach" where
  "neorv32_spi_get_nonblocking m = (let (v, m) = rd SPI_DATA m in (ucast v, m))"

definition neorv32_spi_cs_en_nonblocking :: "u32 \<Rightarrow> mach \<Rightarrow> mach" where
  "neorv32_spi_cs_en_nonblocking cs m =
     wr SPI_DATA (BIT (spi_data SPI_DATA_CMD) OR (BIT (spi_data SPI_DATA_CSEN) + (cs AND 7))) m"

definition neorv32_spi_cs_dis_nonblocking :: "mach \<Rightarrow> mach" where
  "neorv32_spi_cs_dis_nonblocking m = wr SPI_DATA (BIT (spi_data SPI_DATA_CMD) OR 0) m"

definition spi_full :: "u32 \<Rightarrow> bool" where
  "spi_full v \<longleftrightarrow> v AND BIT (spi_ctrl SPI_CTRL_TX_FULL) \<noteq> 0"

definition neorv32_spi_cs_en :: "u32 \<Rightarrow> mach \<Rightarrow> mach option" where
  "neorv32_spi_cs_en cs m =
     do { m \<leftarrow> poll spi_full SPI_CTRL m; Some (neorv32_spi_cs_en_nonblocking cs m) }"

definition neorv32_spi_cs_dis :: "mach \<Rightarrow> mach option" where
  "neorv32_spi_cs_dis m =
     do { m \<leftarrow> poll spi_full SPI_CTRL m; Some (neorv32_spi_cs_dis_nonblocking m) }"

text \<open>\<^verbatim>\<open>while (neorv32_spi_busy());\<close> reads the busy bit of the control register.\<close>

definition spi_busy :: "u32 \<Rightarrow> bool" where
  "spi_busy v \<longleftrightarrow> v AND BIT (spi_ctrl SPI_CTRL_BUSY) \<noteq> 0"

definition neorv32_spi_transfer :: "u8 \<Rightarrow> mach \<Rightarrow> (u8 \<times> mach) option" where
  "neorv32_spi_transfer tx_data m =
     do {
       m \<leftarrow> poll spi_busy SPI_CTRL (neorv32_spi_put_nonblocking tx_data m);
       Some (neorv32_spi_get_nonblocking m)
     }"

definition neorv32_spi_check_cs :: "mach \<Rightarrow> u32 \<times> mach" where
  "neorv32_spi_check_cs m = reg_test SPI_CTRL (spi_ctrl SPI_CS_ACTIVE) m"

definition neorv32_spi_rx_avail :: "mach \<Rightarrow> u32 \<times> mach" where
  "neorv32_spi_rx_avail m = reg_test SPI_CTRL (spi_ctrl SPI_CTRL_RX_AVAIL) m"

definition neorv32_spi_tx_empty :: "mach \<Rightarrow> u32 \<times> mach" where
  "neorv32_spi_tx_empty m = reg_test SPI_CTRL (spi_ctrl SPI_CTRL_TX_EMPTY) m"

definition neorv32_spi_tx_full :: "mach \<Rightarrow> u32 \<times> mach" where
  "neorv32_spi_tx_full m = reg_test SPI_CTRL (spi_ctrl SPI_CTRL_TX_FULL) m"

definition neorv32_spi_busy :: "mach \<Rightarrow> u32 \<times> mach" where
  "neorv32_spi_busy m = reg_test SPI_CTRL (spi_ctrl SPI_CTRL_BUSY) m"

section \<open>Facts\<close>

lemma spi_regs_distinct [simp]: "SPI_CTRL \<noteq> SPI_DATA" "SPI_DATA \<noteq> SPI_CTRL"
  by (simp_all add: spi_regs)

lemma hw_spi [simp]:
  "hw (neorv32_spi_put_nonblocking b m) = hw m" "hw (snd (neorv32_spi_get_nonblocking m)) = hw m"
  "hw (neorv32_spi_cs_en_nonblocking cs m) = hw m" "hw (neorv32_spi_cs_dis_nonblocking m) = hw m"
  by (simp_all add: neorv32_spi_put_nonblocking_def neorv32_spi_get_nonblocking_def rd_def Let_def
      neorv32_spi_cs_en_nonblocking_def neorv32_spi_cs_dis_nonblocking_def)

end
