(* ===== verification/Boot_Hal.thy ===== *)
theory Boot_Hal
  imports Uart_Rtl Csr
begin

text \<open>
  The state of the bootloader and its console, \<^verbatim>\<open>sw/bootloader/hal/source/uart.c\<close>, in the
  configuration of \<^verbatim>\<open>config.h\<close>: UART enabled, no overflow detection.  The console is
  silent, and returns zeros, where UART0 is not implemented.  The locale \<open>boot_console\<close> is
  what the rest of the bootloader needs of it; it holds without a UART and on the UART
  hardware of \<open>Uart_Rtl\<close>.
\<close>

section \<open>State\<close>

record boot =
  cpu :: mach
  g_exe_base :: u32
  g_exe_size :: u32
  g_flash_addr :: u32

definition on_cpu :: "(mach \<Rightarrow> mach option) \<Rightarrow> boot \<Rightarrow> boot option" where
  "on_cpu f b = do { m \<leftarrow> f (cpu b); Some (b\<lparr>cpu := m\<rparr>) }"

definition UART0 :: u32 where
  "UART0 = NEORV32_UART0_BASE"

section \<open>Console\<close>

definition uart_getc :: "mach \<Rightarrow> (u8 \<times> mach) option" where
  "uart_getc m =
     (let (a, m) = neorv32_uart_available UART0 m
      in if a \<noteq> 0 then neorv32_uart_getc UART0 m else Some (0, m))"

definition uart_putc :: "u8 \<Rightarrow> mach \<Rightarrow> mach option" where
  "uart_putc c m =
     (let (a, m) = neorv32_uart_available UART0 m
      in if a \<noteq> 0 then do {
           m \<leftarrow> (if c = 10 then neorv32_uart_putc UART0 13 m else Some m);
           neorv32_uart_putc UART0 c m
         }
         else Some m)"

fun uart_puts :: "u8 list \<Rightarrow> mach \<Rightarrow> mach option" where
  "uart_puts [] m = Some m"
| "uart_puts (c # s) m =
     (if c = 0 then Some m else do { m \<leftarrow> uart_putc c m; uart_puts s m })"

definition hex_symbols :: "u8 list" where
  "hex_symbols = str ''0123456789ABCDEF''"

text \<open>\<^verbatim>\<open>for (i=28; i>=0; i-=4)\<close>\<close>

fun puth_digits :: "u32 \<Rightarrow> nat \<Rightarrow> mach \<Rightarrow> mach option" where
  "puth_digits num 0 m = Some m"
| "puth_digits num (Suc n) m =
     do {
       m \<leftarrow> uart_putc (hex_symbols ! unat (drop_bit (4 * n) num AND 0xf)) m;
       puth_digits num n m
     }"

definition uart_puth :: "u32 \<Rightarrow> mach \<Rightarrow> mach option" where
  "uart_puth num m =
     do { m \<leftarrow> uart_putc 0x30 m; m \<leftarrow> uart_putc 0x78 m; puth_digits num 8 m }"

definition uart_setup :: "boot \<Rightarrow> (int \<times> boot) option" where
  "uart_setup b = Some (0, b)"

definition uart_stream_get :: "boot \<Rightarrow> ((int \<times> u32) \<times> boot) option" where
  "uart_stream_get b =
     do {
       (b0, m) \<leftarrow> uart_getc (cpu b);
       (b1, m) \<leftarrow> uart_getc m;
       (b2, m) \<leftarrow> uart_getc m;
       (b3, m) \<leftarrow> uart_getc m;
       Some ((0, join32 b0 b1 b2 b3), b\<lparr>cpu := m\<rparr>)
     }"

section \<open>What the console touches\<close>

text \<open>The locations of the console, and that an operation accessed no other location.\<close>

definition console_locs :: "loc set" where
  "console_locs = {SYSINFO_SOC, UART_CTRL UART0, UART_DATA UART0}"

fun event_in :: "loc set \<Rightarrow> event \<Rightarrow> bool" where
  "event_in L (Rd l v) \<longleftrightarrow> l \<in> L"
| "event_in L (Wr l v) \<longleftrightarrow> l \<in> L"
| "event_in L _ \<longleftrightarrow> False"

definition only_locs :: "loc set \<Rightarrow> mach \<Rightarrow> mach \<Rightarrow> bool" where
  "only_locs L m m' \<longleftrightarrow> hw m' = hw m \<and> (\<exists>k. log m' = k @ log m \<and> (\<forall>e \<in> set k. event_in L e))"

lemma only_locs_refl [simp]: "only_locs L m m"
  by (simp add: only_locs_def)

lemma only_locs_trans: "only_locs L m m1 \<Longrightarrow> only_locs L m1 m2 \<Longrightarrow> only_locs L m m2"
  by (fastforce simp: only_locs_def)

lemma only_locs_tick: "event_in L e \<Longrightarrow> only_locs L m (tick e m)"
  by (auto simp: only_locs_def intro: exI [of _ "[e]"])

lemma only_locs_rd: "l \<in> L \<Longrightarrow> only_locs L m (snd (rd l m))"
  by (simp add: rd_def only_locs_tick)

lemma only_locs_wr: "l \<in> L \<Longrightarrow> only_locs L m (wr l v m)"
  by (simp add: wr_def only_locs_tick)

lemma only_locs_rds: "l \<in> L \<Longrightarrow> only_locs L m (rds l n m)"
  by (induction n arbitrary: m) (auto simp: rds_Suc intro: only_locs_trans [OF only_locs_rd])

lemma only_locs_poll: "poll busy l m = Some m' \<Longrightarrow> l \<in> L \<Longrightarrow> only_locs L m m'"
  by (drule poll_Some_D) (auto intro: only_locs_rds simp del: rds_Suc)

lemma only_locs_mono: "only_locs L m m' \<Longrightarrow> L \<subseteq> L' \<Longrightarrow> only_locs L' m m'"
  unfolding only_locs_def by (metis event_in.elims(2) event_in.simps(1,2) subsetD)

lemma written_only_locs:
  assumes "only_locs L m m'" "l \<notin> L"
  shows "written l m' = written l m"
proof -
  obtain k where k: "log m' = k @ log m" "\<forall>e \<in> set k. event_in L e"
    using assms(1) by (auto simp: only_locs_def)
  have "written_in l (k @ h) = written_in l h" for h
    using k(2)
  proof (induction k)
    case (Cons e k)
    then show ?case using assms(2) by (cases e) auto
  qed simp
  then show ?thesis by (simp add: written_def k(1))
qed

lemma putc_only: "neorv32_uart_putc UART0 c m = Some m' \<Longrightarrow> only_locs console_locs m m'"
  by (auto simp: neorv32_uart_putc_def neorv32_uart_tx_put_def console_locs_def
      intro!: only_locs_trans [OF only_locs_poll only_locs_wr] split: Option.bind_splits)

lemma available_only: "only_locs console_locs m (snd (neorv32_uart_available UART0 m))"
  by (simp add: neorv32_uart_available_def UART0_def soc_test_def rd_def console_locs_def only_locs_tick)

lemma uart_putc_only: "uart_putc c m = Some m' \<Longrightarrow> only_locs console_locs m m'"
  using available_only [of m]
  by (auto simp: uart_putc_def split: prod.splits if_splits Option.bind_splits
      dest!: putc_only intro: only_locs_trans)

section \<open>The interface of the console\<close>

locale boot_console =
  fixes ok :: "mach \<Rightarrow> bool"
  assumes putc_ok: "ok m \<Longrightarrow> \<exists>m'. uart_putc c m = Some m' \<and> ok m'"
begin

lemma putc_console: "ok m \<Longrightarrow> \<exists>m'. uart_putc c m = Some m' \<and> ok m' \<and> only_locs console_locs m m'"
  using putc_ok uart_putc_only by blast

lemma puts_console: "ok m \<Longrightarrow> \<exists>m'. uart_puts s m = Some m' \<and> ok m' \<and> only_locs console_locs m m'"
proof (induction s arbitrary: m)
  case (Cons c s)
  from putc_console [OF Cons.prems, of c] obtain m1 where
    m1: "uart_putc c m = Some m1" "ok m1" "only_locs console_locs m m1" by blast
  from Cons.IH [OF m1(2)] m1 Cons.prems show ?case by (auto intro: only_locs_trans)
qed simp

lemma puth_digits_console:
  "ok m \<Longrightarrow> \<exists>m'. puth_digits num n m = Some m' \<and> ok m' \<and> only_locs console_locs m m'"
proof (induction n arbitrary: m)
  case (Suc n)
  from putc_console [OF Suc.prems, of "hex_symbols ! unat (drop_bit (4 * n) num AND 0xf)"]
  obtain m1 where m1: "uart_putc (hex_symbols ! unat (drop_bit (4 * n) num AND 0xf)) m = Some m1"
    "ok m1" "only_locs console_locs m m1" by blast
  from Suc.IH [OF m1(2)] m1 show ?case by (auto intro: only_locs_trans)
qed simp

lemma puth_console: "ok m \<Longrightarrow> \<exists>m'. uart_puth num m = Some m' \<and> ok m' \<and> only_locs console_locs m m'"
proof -
  assume "ok m"
  from putc_console [OF this, of "0x30"] obtain m1 where
    m1: "uart_putc 0x30 m = Some m1" "ok m1" "only_locs console_locs m m1" by blast
  from putc_console [OF m1(2), of "0x78"] obtain m2 where
    m2: "uart_putc 0x78 m1 = Some m2" "ok m2" "only_locs console_locs m1 m2" by blast
  from puth_digits_console [where num = num and n = 8, OF m2(2)] m1 m2 show ?thesis
    by (auto simp: uart_puth_def intro: only_locs_trans)
qed

end

section \<open>The two kinds of console\<close>

definition no_console :: "mach \<Rightarrow> bool" where
  "no_console m \<longleftrightarrow> (\<forall>h. \<not> bit (hw m h SYSINFO_SOC) (sysinfo_soc SYSINFO_SOC_IO_UART0))"

lemma available_UART0:
  "fst (neorv32_uart_available UART0 m) \<noteq> 0 \<longleftrightarrow> bit (rd_val SYSINFO_SOC m) (sysinfo_soc SYSINFO_SOC_IO_UART0)"
  "snd (neorv32_uart_available UART0 m) = snd (rd SYSINFO_SOC m)"
  by (simp_all add: neorv32_uart_available_def UART0_def soc_test_def rd_def)

interpretation silent: boot_console no_console
proof
  fix m c assume "no_console m"
  then have "fst (neorv32_uart_available UART0 m) = 0"
    using available_UART0(1) [of m] by (auto simp: no_console_def rd_val_def)
  then have "uart_putc c m = Some (snd (rd SYSINFO_SOC m))"
    using available_UART0(2) [of m] by (auto simp: uart_putc_def split: prod.split)
  with \<open>no_console m\<close> show "\<exists>m'. uart_putc c m = Some m' \<and> no_console m'"
    by (simp add: no_console_def)
qed

text \<open>UART0 implemented and set up, in a system \<open>rest\<close> that says so.\<close>

definition console_ok :: "uart_time \<Rightarrow> nat \<Rightarrow> nat \<Rightarrow> (event list \<Rightarrow> loc \<Rightarrow> u32) \<Rightarrow> u8 list \<Rightarrow> mach \<Rightarrow> bool" where
  "console_ok p txd rxd rest input m \<longleftrightarrow> uart_ok p txd rxd rest UART0 input m
     \<and> (\<forall>h. bit (rest h SYSINFO_SOC) (sysinfo_soc SYSINFO_SOC_IO_UART0))"

lemma uart_soc_distinct [simp]:
  "SYSINFO_SOC \<noteq> UART_CTRL UART0" "SYSINFO_SOC \<noteq> UART_DATA UART0"
  "UART_CTRL UART0 \<noteq> SYSINFO_SOC" "UART_DATA UART0 \<noteq> SYSINFO_SOC"
  by (simp_all add: UART0_def UART_CTRL_def UART_DATA_def NEORV32_UART0_BASE_def SYSINFO_SOC_def
      NEORV32_SYSINFO_BASE_def)

lemma console_available:
  assumes "console_ok p txd rxd rest input m"
  shows "fst (neorv32_uart_available UART0 m) \<noteq> 0"
    "console_ok p txd rxd rest input (snd (neorv32_uart_available UART0 m))"
    "uart_pos p txd rxd UART0 input (snd (neorv32_uart_available UART0 m)) = uart_pos p txd rxd UART0 input m"
proof -
  have hw: "hw m = uart_rtl UART0 p txd rxd input rest"
    using assms by (simp add: console_ok_def uart_ok_def)
  then show "fst (neorv32_uart_available UART0 m) \<noteq> 0"
    using assms by (simp add: available_UART0(1) console_ok_def rd_val_def uart_rtl_def Let_def)
  show "console_ok p txd rxd rest input (snd (neorv32_uart_available UART0 m))"
    using assms by (auto simp: available_UART0(2) console_ok_def rd_def intro: uart_tx_hw.ok_tick)
  show "uart_pos p txd rxd UART0 input (snd (neorv32_uart_available UART0 m)) = uart_pos p txd rxd UART0 input m"
    using assms by (auto simp: available_UART0(2) console_ok_def rd_def intro!: uart_rx_hw.pos_tick)
qed

lemma console_putc:
  assumes "console_ok p txd rxd rest input m"
  shows "\<exists>m'. uart_putc c m = Some m' \<and> console_ok p txd rxd rest input m'
    \<and> uart_pos p txd rxd UART0 input m' = uart_pos p txd rxd UART0 input m"
proof -
  note a = console_available [OF assms]
  have ret: "\<exists>m'. neorv32_uart_putc UART0 c m = Some m' \<and> console_ok p txd rxd rest input m'
      \<and> uart_pos p txd rxd UART0 input m' = uart_pos p txd rxd UART0 input m"
    if m: "console_ok p txd rxd rest input m" for c m
  proof -
    have ok: "uart_ok p txd rxd rest UART0 input m" using m by (simp add: console_ok_def)
    from uart_tx_hw.putc_returns [OF ok] obtain m' where
      m': "neorv32_uart_putc UART0 c m = Some m'" "uart_ok p txd rxd rest UART0 input m'" by blast
    have "putcs UART0 [c] m = Some m'" by (simp add: m'(1))
    from uart_rx_hw.pos_putcs [OF ok this] m' m show ?thesis by (auto simp: console_ok_def)
  qed
  obtain m1 where m1: "(if c = 10 then neorv32_uart_putc UART0 13 (snd (neorv32_uart_available UART0 m))
      else Some (snd (neorv32_uart_available UART0 m))) = Some m1"
    "console_ok p txd rxd rest input m1" "uart_pos p txd rxd UART0 input m1 = uart_pos p txd rxd UART0 input m"
    using ret [OF a(2), of 13] a by (cases "c = 10") auto
  from ret [OF m1(2), of c] obtain m2 where "neorv32_uart_putc UART0 c m1 = Some m2"
    "console_ok p txd rxd rest input m2"
    "uart_pos p txd rxd UART0 input m2 = uart_pos p txd rxd UART0 input m" using m1(3) by auto
  with a(1) m1(1) show ?thesis by (auto simp: uart_putc_def split: prod.split)
qed

interpretation wired: boot_console "console_ok p txd rxd rest input"
  by unfold_locales (use console_putc in blast)

lemma console_getc:
  assumes "console_ok p txd rxd rest input m" "uart_pos p txd rxd UART0 input m < List.length input"
  shows "\<exists>m'. uart_getc m = Some (input ! uart_pos p txd rxd UART0 input m, m')
    \<and> console_ok p txd rxd rest input m'
    \<and> uart_pos p txd rxd UART0 input m' = Suc (uart_pos p txd rxd UART0 input m)"
proof -
  note a = console_available [OF assms(1)]
  let ?m = "snd (neorv32_uart_available UART0 m)"
  have ok: "uart_ok p txd rxd rest UART0 input ?m" using a(2) by (simp add: console_ok_def)
  have "uart_pos p txd rxd UART0 input ?m < List.length input" using assms(2) a(3) by simp
  from uart_rx_hw.getc_returns [OF ok this] a obtain m' where
    "neorv32_uart_getc UART0 ?m = Some (input ! uart_pos p txd rxd UART0 input m, m')"
    "uart_ok p txd rxd rest UART0 input m'"
    "uart_pos p txd rxd UART0 input m' = Suc (uart_pos p txd rxd UART0 input m)" by metis
  with a(1,2) show ?thesis by (auto simp: uart_getc_def console_ok_def split: prod.split)
qed

lemma getc_only:
  assumes "uart_getc m = Some (c, m')"
  shows "only_locs console_locs m m'"
proof -
  let ?m = "snd (neorv32_uart_available UART0 m)"
  have av: "only_locs console_locs m ?m" by (rule available_only)
  from assms consider "m' = ?m"
    | m1 where "poll rx_empty (UART_CTRL UART0) ?m = Some m1" "m' = snd (rd (UART_DATA UART0) m1)"
    by (auto simp: uart_getc_def neorv32_uart_getc_def neorv32_uart_char_received_get_def Let_def rd_def
        split: prod.splits if_splits Option.bind_splits)
  then show ?thesis
  proof cases
    case 2
    from 2(1) have "only_locs console_locs ?m m1" by (rule only_locs_poll) (simp add: console_locs_def)
    moreover have "only_locs console_locs m1 m'" unfolding 2(2)
      by (rule only_locs_rd) (simp add: console_locs_def)
    ultimately show ?thesis using av only_locs_trans by blast
  qed (use av in simp)
qed

end
