(* ===== verification/Spi_Rtl.thy ===== *)
theory Spi_Rtl
  imports Spi Boot_Hal
begin

text \<open>
  The SPI controller the driver talks to, after \<^verbatim>\<open>rtl/core/neorv32_spi.vhd\<close>: control
  register, the two FIFOs, the command words that drive the chip selects, and the transceiver.
  The bit timing is abstracted to the period with which a byte ends: every \<open>Suc p\<close> events.
  The peripheral is a parameter: what it answers to a byte is a function of all that has
  happened on the bus.  On a quiet controller the driver's blocking operations put exactly
  their bytes and selects on the bus and return the answers.
\<close>

section \<open>State and steps\<close>

text \<open>What happens on the bus: the four chip-select bits change, a byte is exchanged.\<close>

datatype spi_ev = Cs u8 | Xfer u8

record spi_hw =
  s_ctrl :: u32
  s_tx :: "(bool \<times> u8) list"
  s_eng :: "u8 option"
  s_rx :: "u8 list"
  s_cs :: u8
  s_line :: "spi_ev list"

definition spi_init :: spi_hw where
  "spi_init = \<lparr>s_ctrl = 0, s_tx = [], s_eng = None, s_rx = [], s_cs = 0, s_line = []\<rparr>"

definition s_en :: "spi_hw \<Rightarrow> bool" where
  "s_en d \<longleftrightarrow> bit (s_ctrl d) (spi_ctrl SPI_CTRL_EN)"

text \<open>Bus access: a write to the data register queues its top bit and its low byte.\<close>

definition spi_bus :: "nat \<Rightarrow> event \<Rightarrow> spi_hw \<Rightarrow> spi_hw" where
  "spi_bus fd e d =
     (case e of
        Wr l v \<Rightarrow>
          if l = SPI_CTRL then d\<lparr>s_ctrl := v AND 0x3ff\<rparr>
          else if l = SPI_DATA \<and> List.length (s_tx d) < 2 ^ fd
          then d\<lparr>s_tx := s_tx d @ [(bit v (spi_data SPI_DATA_CMD), ucast v)]\<rparr>
          else d
      | Rd l v \<Rightarrow> if l = SPI_DATA then d\<lparr>s_rx := tl (s_rx d)\<rparr> else d
      | _ \<Rightarrow> d)"

text \<open>The end of a byte.\<close>

definition spi_complete :: "nat \<Rightarrow> (spi_ev list \<Rightarrow> u8 \<Rightarrow> u8) \<Rightarrow> spi_hw \<Rightarrow> spi_hw" where
  "spi_complete fd slave d =
     (case s_eng d of
        None \<Rightarrow> d
      | Some b \<Rightarrow> d\<lparr>s_eng := None, s_line := s_line d @ [Xfer b],
          s_rx := (if List.length (s_rx d) < 2 ^ fd then s_rx d @ [slave (s_line d) b] else s_rx d)\<rparr>)"

text \<open>The idle transceiver takes words from the queue: commands at once, a byte to be shifted.\<close>

fun spi_take :: "(bool \<times> u8) list \<Rightarrow> spi_hw \<Rightarrow> spi_hw" where
  "spi_take [] d = d\<lparr>s_tx := []\<rparr>"
| "spi_take ((True, v) # q) d = spi_take q (d\<lparr>s_cs := v AND 0xf, s_line := s_line d @ [Cs (v AND 0xf)]\<rparr>)"
| "spi_take ((False, b) # q) d = d\<lparr>s_tx := q, s_eng := Some b\<rparr>"

definition spi_cycle :: "nat \<Rightarrow> nat \<Rightarrow> (spi_ev list \<Rightarrow> u8 \<Rightarrow> u8) \<Rightarrow> nat \<Rightarrow> spi_hw \<Rightarrow> spi_hw" where
  "spi_cycle fd p slave n d =
     (if \<not> s_en d then
        d\<lparr>s_tx := [], s_rx := [], s_eng := None, s_cs := 0,
          s_line := (if s_cs d = 0 then s_line d else s_line d @ [Cs 0])\<rparr>
      else
        let d = (if n mod Suc p = 0 then spi_complete fd slave d else d)
        in if s_eng d = None then spi_take (s_tx d) d else d)"

fun spi_state :: "nat \<Rightarrow> nat \<Rightarrow> (spi_ev list \<Rightarrow> u8 \<Rightarrow> u8) \<Rightarrow> event list \<Rightarrow> spi_hw" where
  "spi_state fd p slave [] = spi_init"
| "spi_state fd p slave (e # h) =
     spi_cycle fd p slave (List.length h) (spi_bus fd e (spi_state fd p slave h))"

definition spi_ctrl_read :: "nat \<Rightarrow> spi_hw \<Rightarrow> u32" where
  "spi_ctrl_read fd d =
     s_ctrl d
     OR flag (s_rx d \<noteq> []) (spi_ctrl SPI_CTRL_RX_AVAIL)
     OR flag (s_tx d = []) (spi_ctrl SPI_CTRL_TX_EMPTY)
     OR flag (2 ^ fd \<le> List.length (s_tx d)) (spi_ctrl SPI_CTRL_TX_FULL)
     OR push_bit (spi_ctrl SPI_CTRL_FIFO_LSB) (of_nat fd AND 0xf)
     OR flag (bit (s_cs d) 3) (spi_ctrl SPI_CS_ACTIVE)
     OR flag (s_eng d \<noteq> None \<or> s_tx d \<noteq> []) (spi_ctrl SPI_CTRL_BUSY)"

definition spi_data_read :: "spi_hw \<Rightarrow> u32" where
  "spi_data_read d = (case s_rx d of [] \<Rightarrow> 0 | b # _ \<Rightarrow> ucast b)"

definition spi_wired :: "nat \<Rightarrow> nat \<Rightarrow> (spi_ev list \<Rightarrow> u8 \<Rightarrow> u8) \<Rightarrow> mach \<Rightarrow> bool" where
  "spi_wired fd p slave m \<longleftrightarrow>
     (\<forall>h. hw m h SPI_CTRL = spi_ctrl_read fd (spi_state fd p slave h)
        \<and> hw m h SPI_DATA = spi_data_read (spi_state fd p slave h))"

section \<open>A quiet controller\<close>

definition spi_locs :: "loc set" where
  "spi_locs = {SPI_CTRL, SPI_DATA}"

abbreviation (input) spi_at :: "nat \<Rightarrow> nat \<Rightarrow> (spi_ev list \<Rightarrow> u8 \<Rightarrow> u8) \<Rightarrow> mach \<Rightarrow> spi_hw" where
  "spi_at fd p slave m \<equiv> spi_state fd p slave (log m)"

definition spi_quiet :: "nat \<Rightarrow> nat \<Rightarrow> (spi_ev list \<Rightarrow> u8 \<Rightarrow> u8) \<Rightarrow> mach \<Rightarrow> bool" where
  "spi_quiet fd p slave m \<longleftrightarrow> spi_wired fd p slave m
     \<and> (let d = spi_at fd p slave m in s_en d \<and> s_tx d = [] \<and> s_eng d = None \<and> s_rx d = [])"

definition spi_line :: "nat \<Rightarrow> nat \<Rightarrow> (spi_ev list \<Rightarrow> u8 \<Rightarrow> u8) \<Rightarrow> mach \<Rightarrow> spi_ev list" where
  "spi_line fd p slave m = s_line (spi_at fd p slave m)"

lemma spi_wired_hw: "hw m' = hw m \<Longrightarrow> spi_wired fd p slave m' = spi_wired fd p slave m"
  by (simp add: spi_wired_def)

lemma spi_take_nil: "s_tx d = [] \<Longrightarrow> spi_take [] d = d"
  by simp

text \<open>Events elsewhere leave a quiet controller quiet.\<close>

lemma spi_bus_foreign: "event_in L e \<Longrightarrow> L \<inter> spi_locs = {} \<Longrightarrow> spi_bus fd e d = d"
  by (cases e) (auto simp: spi_bus_def spi_locs_def)

lemma spi_cycle_quiet:
  "s_en d \<Longrightarrow> s_tx d = [] \<Longrightarrow> s_eng d = None \<Longrightarrow> spi_cycle fd p slave n d = d"
  by (simp add: spi_cycle_def spi_complete_def Let_def)

lemma spi_state_foreign:
  assumes "\<forall>e \<in> set k. event_in L e" "L \<inter> spi_locs = {}"
    and "s_en (spi_state fd p slave h)" "s_tx (spi_state fd p slave h) = []"
    "s_eng (spi_state fd p slave h) = None"
  shows "spi_state fd p slave (k @ h) = spi_state fd p slave h"
  using assms(1)
proof (induction k)
  case (Cons e k)
  then show ?case using assms(3-5) spi_bus_foreign [OF _ assms(2), of e]
    by (simp add: spi_cycle_quiet)
qed simp

lemma spi_quiet_foreign:
  assumes "only_locs L m m'" "L \<inter> spi_locs = {}" "spi_quiet fd p slave m"
  shows "spi_quiet fd p slave m'" "spi_line fd p slave m' = spi_line fd p slave m"
proof -
  obtain k where k: "log m' = k @ log m" "\<forall>e \<in> set k. event_in L e" "hw m' = hw m"
    using assms(1) by (auto simp: only_locs_def)
  have "spi_at fd p slave m' = spi_at fd p slave m"
    unfolding k(1) using assms(3) by (intro spi_state_foreign [OF k(2) assms(2)])
      (simp_all add: spi_quiet_def Let_def)
  then show "spi_quiet fd p slave m'" "spi_line fd p slave m' = spi_line fd p slave m"
    using assms(3) by (simp_all add: spi_quiet_def spi_line_def spi_wired_hw [OF k(3)])
qed

lemma spi_quiet_fence: "spi_quiet fd p slave m \<Longrightarrow> spi_quiet fd p slave (tick Fence m)"
  "spi_quiet fd p slave m \<Longrightarrow> spi_line fd p slave (tick Fence m) = spi_line fd p slave m"
  by (simp_all add: spi_quiet_def spi_line_def spi_wired_def Let_def spi_bus_def spi_cycle_quiet)

section \<open>Status bits\<close>

lemma spi_state_ctrl: "s_ctrl (spi_state fd p slave h) AND 0x3ff = s_ctrl (spi_state fd p slave h)"
proof -
  have take: "s_ctrl (spi_take q d) = s_ctrl d" for q d
    by (induction q d rule: spi_take.induct) simp_all
  have complete: "s_ctrl (spi_complete fd slave d) = s_ctrl d" for d
    by (simp add: spi_complete_def split: option.split)
  have cycle: "s_ctrl (spi_cycle fd p slave n d) = s_ctrl d" for n d
    by (simp add: spi_cycle_def Let_def take complete)
  show ?thesis
  proof (induction h)
    case (Cons e h)
    then show ?case by (cases e) (auto simp: cycle spi_bus_def and.assoc)
  qed (simp add: spi_init_def)
qed

lemma ctrl_low_bits: "bit (w AND 0x3ff :: u32) n \<Longrightarrow> n < 10"
proof -
  have "(0x3ff :: u32) = mask 10" by (simp add: mask_eq_exp_minus_1)
  then show "bit (w AND 0x3ff :: u32) n \<Longrightarrow> n < 10" by (simp add: bit_and_iff bit_mask_iff)
qed

lemma spi_ctrl_read_flags:
  assumes "d = spi_state fd p slave h"
  shows "spi_full (spi_ctrl_read fd d) \<longleftrightarrow> 2 ^ fd \<le> List.length (s_tx d)"
    and "spi_busy (spi_ctrl_read fd d) \<longleftrightarrow> s_eng d \<noteq> None \<or> s_tx d \<noteq> []"
proof -
  have c: "\<not> bit (s_ctrl d) n" if "10 \<le> n" for n
    using ctrl_low_bits [of "s_ctrl d" n] that spi_state_ctrl [of fd p slave h] by (auto simp: assms)
  define x where "x = push_bit (spi_ctrl SPI_CTRL_FIFO_LSB) (of_nat fd AND 0xf :: u32)"
  have "(0xf :: u32) = mask 4" by (simp add: mask_eq_exp_minus_1)
  then have f: "bit (of_nat fd AND (0xf :: u32)) j \<Longrightarrow> j < 4" for j
    by (simp add: bit_and_iff bit_mask_iff)
  have x: "\<not> bit x 31" "\<not> bit x 18"
    unfolding x_def bit_push_bit_iff using f [of 7] by auto
  note r = spi_ctrl_read_def [of fd d, folded x_def]
  show "spi_busy (spi_ctrl_read fd d) \<longleftrightarrow> s_eng d \<noteq> None \<or> s_tx d \<noteq> []"
    using c [of 31] x by (simp add: spi_busy_def r bit_or_iff)
  show "spi_full (spi_ctrl_read fd d) \<longleftrightarrow> 2 ^ fd \<le> List.length (s_tx d)"
    using c [of 18] x by (simp add: spi_full_def r bit_or_iff)
qed

section \<open>Chip select\<close>

lemma spi_cs_word:
  assumes "spi_quiet fd p slave m" "bit w 31"
  defines "m' \<equiv> wr SPI_DATA w (snd (rd SPI_CTRL m))"
  shows "poll spi_full SPI_CTRL m = Some (snd (rd SPI_CTRL m))"
    "spi_quiet fd p slave m'" "spi_line fd p slave m' = spi_line fd p slave m @ [Cs (ucast w AND 0xf)]"
    "only_locs spi_locs m m'"
proof -
  let ?d = "spi_at fd p slave m"
  have d: "s_en ?d" "s_tx ?d = []" "s_eng ?d = None" "s_rx ?d = []" "spi_wired fd p slave m"
    using assms(1) by (simp_all add: spi_quiet_def Let_def)
  have "rd_val SPI_CTRL m = spi_ctrl_read fd ?d" using d(5) by (simp add: spi_wired_def rd_val_def)
  then have "\<not> spi_full (rd_val SPI_CTRL m)" using d(2) by (simp add: spi_ctrl_read_flags(1))
  then show "poll spi_full SPI_CTRL m = Some (snd (rd SPI_CTRL m))"
    by (subst poll.simps) (simp add: rd_def)
  have "spi_at fd p slave (snd (rd SPI_CTRL m)) = ?d"
    using d(1-3) by (simp add: rd_def spi_bus_def spi_cycle_quiet)
  then have s: "spi_at fd p slave m' = spi_cycle fd p slave (List.length (log (snd (rd SPI_CTRL m))))
      (?d\<lparr>s_tx := [(True, ucast w)]\<rparr>)"
    using d(2) assms(2) by (simp add: m'_def wr_def spi_bus_def)
  have "spi_at fd p slave m' = ?d\<lparr>s_cs := ucast w AND 0xf, s_line := s_line ?d @ [Cs (ucast w AND 0xf)]\<rparr>"
    unfolding s using d(1-3) by (cases ?d) (simp add: spi_cycle_def spi_complete_def s_en_def)
  with d show "spi_quiet fd p slave m'" "spi_line fd p slave m' = spi_line fd p slave m @ [Cs (ucast w AND 0xf)]"
    by (simp_all add: spi_quiet_def spi_line_def Let_def s_en_def m'_def spi_wired_def)
  show "only_locs spi_locs m m'" unfolding m'_def
    by (rule only_locs_trans [OF only_locs_rd only_locs_wr]) (simp_all add: spi_locs_def)
qed

definition cs_code :: "u32 \<Rightarrow> u8" where
  "cs_code cs = 8 + (ucast cs AND 7)"

lemma spi_cs_en:
  assumes "spi_quiet fd p slave m"
  shows "\<exists>m'. neorv32_spi_cs_en cs m = Some m' \<and> spi_quiet fd p slave m'
    \<and> spi_line fd p slave m' = spi_line fd p slave m @ [Cs (cs_code cs)] \<and> only_locs spi_locs m m'"
proof -
  let ?w = "BIT (spi_data SPI_DATA_CMD) OR (BIT (spi_data SPI_DATA_CSEN) + (cs AND 7))"
  have a: "(8 :: 'b::len word) AND (x AND 7) = 0" if "LENGTH('b) \<ge> 8" for x
  proof -
    have "(8 :: 'b word) AND 7 = 0" by (rule bit_word_eqI) (simp add: bit_simps bit_numeral_rec)
    then show ?thesis by (metis and.left_commute and_zero_eq)
  qed
  have "8 + (cs AND 7) = 8 OR (cs AND 7)" by (rule disjunctive_add_eq_or) (simp add: a)
  then have w: "?w = BIT 31 OR 8 OR (cs AND 7)" by (simp add: BIT_def or.assoc)
  have cc: "cs_code cs = 8 OR (ucast cs AND 7)"
    unfolding cs_code_def by (rule disjunctive_add_eq_or) (simp add: a)
  have "bit ?w 31" unfolding w by (simp add: bit_or_iff)
  note c = spi_cs_word [OF assms this]
  have "ucast ?w AND 0xf = cs_code cs"
    unfolding w cc by (simp add: unsigned_or_eq unsigned_and_eq bit.conj_disj_distrib2 BIT_def and.assoc)
  with c show ?thesis
    by (simp add: neorv32_spi_cs_en_def neorv32_spi_cs_en_nonblocking_def)
qed

lemma spi_cs_dis:
  assumes "spi_quiet fd p slave m"
  shows "\<exists>m'. neorv32_spi_cs_dis m = Some m' \<and> spi_quiet fd p slave m'
    \<and> spi_line fd p slave m' = spi_line fd p slave m @ [Cs 0] \<and> only_locs spi_locs m m'"
proof -
  have "bit (BIT (spi_data SPI_DATA_CMD) OR 0) 31" by (simp add: bit_or_iff)
  note c = spi_cs_word [OF assms this]
  have "ucast (BIT (spi_data SPI_DATA_CMD) OR 0) AND (0xf :: u8) = 0" by (simp add: BIT_def)
  with c show ?thesis
    by (simp add: neorv32_spi_cs_dis_def neorv32_spi_cs_dis_nonblocking_def)
qed

section \<open>Transfer\<close>

lemma spi_at_rd_ctrl:
  "spi_at fd p slave (snd (rd SPI_CTRL m)) = spi_cycle fd p slave (List.length (log m)) (spi_at fd p slave m)"
  by (simp add: rd_def spi_bus_def)

lemma spi_rds_shift:
  assumes "s_en (spi_at fd p slave m)" "s_eng (spi_at fd p slave m) = Some b"
    and "\<forall>i<n. (List.length (log m) + i) mod Suc p \<noteq> 0"
  shows "spi_at fd p slave (rds SPI_CTRL n m) = spi_at fd p slave m"
  using assms(3)
proof (induction n)
  case (Suc n)
  then have "spi_at fd p slave (rds SPI_CTRL n m) = spi_at fd p slave m" by simp
  moreover have "(List.length (log m) + n) mod Suc p \<noteq> 0" using Suc.prems by blast
  ultimately show ?case using assms(1,2)
    by (simp only: rds_snoc spi_at_rd_ctrl length_log_rds spi_cycle_def) simp
qed simp

lemma next_period: "\<exists>k. (n + k) mod Suc p = 0 \<and> (\<forall>i<k. (n + i) mod Suc p \<noteq> (0 :: nat))"
proof -
  have "(n + p * n) mod Suc p = 0"
  proof -
    have "n + p * n = Suc p * n" by simp
    then show ?thesis by (simp only: mod_mult_self1_is_0)
  qed
  then show ?thesis by (rule exists_least_iff [THEN iffD1, OF exI])
qed

lemma spi_shift_done:
  assumes "spi_wired fd p slave m"
    and "spi_at fd p slave m = d" "s_en d" "s_eng d = Some b" "s_tx d = []" "s_rx d = []"
  shows "\<exists>n. poll spi_busy SPI_CTRL m = Some (rds SPI_CTRL (Suc (Suc n)) m)
    \<and> spi_at fd p slave (rds SPI_CTRL (Suc (Suc n)) m)
      = d\<lparr>s_eng := None, s_line := s_line d @ [Xfer b], s_rx := [slave (s_line d) b]\<rparr>"
proof -
  let ?e = "d\<lparr>s_eng := None, s_line := s_line d @ [Xfer b], s_rx := [slave (s_line d) b]\<rparr>"
  obtain n where n: "(List.length (log m) + n) mod Suc p = 0"
    "\<forall>i<n. (List.length (log m) + i) mod Suc p \<noteq> 0"
    using next_period [of "List.length (log m)" p] by (elim exE conjE)
  have busy: "spi_at fd p slave (rds SPI_CTRL i m) = d" if "i \<le> n" for i
    using spi_rds_shift [of fd p slave m b i] assms(2-4) n(2) that by simp
  have e: "spi_at fd p slave (rds SPI_CTRL (Suc n) m) = ?e"
    unfolding rds_snoc spi_at_rd_ctrl using busy [of n] n(1) assms(3-6)
    by (simp add: spi_cycle_def spi_complete_def s_en_def)
  have e2: "spi_at fd p slave (rds SPI_CTRL (Suc (Suc n)) m) = ?e"
    unfolding rds_snoc [of _ "Suc n"] spi_at_rd_ctrl e using assms(3,5)
    by (simp add: spi_cycle_quiet s_en_def)
  have val: "rd_val SPI_CTRL (rds SPI_CTRL i m) = spi_ctrl_read fd (spi_at fd p slave (rds SPI_CTRL i m))" for i
    using assms(1) by (simp add: spi_wired_def rd_val_def)
  have b: "spi_busy (rd_val SPI_CTRL (rds SPI_CTRL i m))" if "i \<le> n" for i
    by (simp only: val spi_ctrl_read_flags(2) [OF refl]) (simp add: busy [OF that] assms(4) del: rds_Suc)
  have nb: "\<not> spi_busy (rd_val SPI_CTRL (rds SPI_CTRL (Suc n) m))"
    by (simp only: val spi_ctrl_read_flags(2) [OF refl]) (simp add: e assms(5) del: rds_Suc)
  from poll_ready [where busy = spi_busy and l = SPI_CTRL and n = "Suc n" and m = m, OF nb] obtain m' where m': "poll spi_busy SPI_CTRL m = Some m'" by blast
  from poll_Some_D [OF m'] obtain j where j: "m' = rds SPI_CTRL (Suc j) m"
    "\<not> spi_busy (rd_val SPI_CTRL (rds SPI_CTRL j m))"
    "\<forall>i<j. spi_busy (rd_val SPI_CTRL (rds SPI_CTRL i m))" by blast
  have "\<not> j \<le> n" using j(2) b [of j] by blast
  moreover have "\<not> Suc n < j" using j(3) nb by blast
  ultimately have "j = Suc n" by simp
  with m' j(1) e2 show ?thesis by blast
qed

lemma spi_transfer:
  assumes "spi_quiet fd p slave m"
  shows "\<exists>m'. neorv32_spi_transfer b m = Some (slave (spi_line fd p slave m) b, m')
    \<and> spi_quiet fd p slave m' \<and> spi_line fd p slave m' = spi_line fd p slave m @ [Xfer b]
    \<and> only_locs spi_locs m m'"
proof -
  let ?d = "spi_at fd p slave m" and ?m1 = "neorv32_spi_put_nonblocking b m"
  have d: "s_en ?d" "s_tx ?d = []" "s_eng ?d = None" "s_rx ?d = []" "spi_wired fd p slave m"
    using assms by (simp_all add: spi_quiet_def Let_def)
  have "\<not> bit (ucast b :: u32) 31" using bit_imp_le_length [of b 31] by (auto simp: bit_simps)
  then have "spi_at fd p slave ?m1 = spi_cycle fd p slave (List.length (log m)) (?d\<lparr>s_tx := [(False, b)]\<rparr>)"
    using d(2) by (simp add: neorv32_spi_put_nonblocking_def wr_def spi_bus_def)
  also have "\<dots> = ?d\<lparr>s_eng := Some b\<rparr>"
    using d(1-3) by (cases ?d) (simp add: spi_cycle_def spi_complete_def s_en_def)
  finally have m1: "spi_at fd p slave ?m1 = ?d\<lparr>s_eng := Some b\<rparr>" .
  have w1: "spi_wired fd p slave ?m1" using d(5) by (simp add: spi_wired_def)
  from spi_shift_done [OF w1 m1] d obtain n where n: "poll spi_busy SPI_CTRL ?m1 = Some (rds SPI_CTRL (Suc (Suc n)) ?m1)"
    "spi_at fd p slave (rds SPI_CTRL (Suc (Suc n)) ?m1)
      = ?d\<lparr>s_eng := None, s_line := s_line ?d @ [Xfer b], s_rx := [slave (s_line ?d) b]\<rparr>"
    by (auto simp: s_en_def simp del: rds_Suc)
  let ?m2 = "rds SPI_CTRL (Suc (Suc n)) ?m1"
  have w2: "spi_wired fd p slave ?m2" using w1 by (simp add: spi_wired_def del: rds_Suc)
  have "rd_val SPI_DATA ?m2 = ucast (slave (s_line ?d) b)"
    using w2 by (simp add: spi_wired_def rd_val_def n(2) spi_data_read_def del: rds_Suc)
  then have r: "neorv32_spi_get_nonblocking ?m2 = (slave (s_line ?d) b, snd (rd SPI_DATA ?m2))"
    by (simp add: neorv32_spi_get_nonblocking_def rd_def)
  have s3: "spi_at fd p slave (snd (rd SPI_DATA ?m2)) = ?d\<lparr>s_line := s_line ?d @ [Xfer b]\<rparr>"
    using d(1-4) by (simp add: rd_def n(2) spi_bus_def spi_cycle_quiet s_en_def del: rds_Suc)
  have "only_locs spi_locs m ?m1" unfolding neorv32_spi_put_nonblocking_def
    by (rule only_locs_wr) (simp add: spi_locs_def)
  moreover have "only_locs spi_locs ?m1 ?m2" by (rule only_locs_rds) (simp add: spi_locs_def)
  moreover have "only_locs spi_locs ?m2 (snd (rd SPI_DATA ?m2))"
    by (rule only_locs_rd) (simp add: spi_locs_def)
  ultimately have "only_locs spi_locs m (snd (rd SPI_DATA ?m2))" using only_locs_trans by blast
  moreover have "spi_quiet fd p slave (snd (rd SPI_DATA ?m2))"
    using s3 d w2 by (simp add: spi_quiet_def Let_def s_en_def spi_wired_def del: rds_Suc)
  moreover have "neorv32_spi_transfer b m = Some (slave (s_line ?d) b, snd (rd SPI_DATA ?m2))"
    unfolding neorv32_spi_transfer_def n(1) by (simp only: Option.bind_lunit r)
  ultimately show ?thesis using s3 by (auto simp: spi_line_def)
qed

end
