(* ===== verification/Boot_App.thy ===== *)
theory Boot_App
  imports Boot_Hal Gpio Clint
begin

text \<open>
  The bootloader's core, \<^verbatim>\<open>sw/bootloader/hal/source/system.c\<close>, in the default
  configuration: set-up, trap handler, loading an executable from a word stream, storing it
  to one, and booting it.  Streams are passed as functions, as in C; the locale
  \<open>boot_source\<close> is what loading needs of one.  The timer interrupt that toggles the status
  LED is not interleaved with the code it interrupts.
\<close>

section \<open>Configuration and layout\<close>

definition UART_BAUD :: u32 where "UART_BAUD = 19200"
definition STATUS_LED_PIN :: nat where "STATUS_LED_PIN = 0"
definition DEFAULT_EXE_ADDR :: u32 where "DEFAULT_EXE_ADDR = 0"

definition BIN_SIGNATURE :: u32 where "BIN_SIGNATURE = 0x214F454E"
definition BIN_OFFSET_DATA :: u32 where "BIN_OFFSET_DATA = 16"

record executable_header =
  signature :: u32
  base_addr :: u32
  size_bytes :: u32
  checksum :: u32

definition boot_init :: "mach \<Rightarrow> boot" where
  "boot_init m = \<lparr>cpu = m, g_exe_base = DEFAULT_EXE_ADDR, g_exe_size = 0, g_flash_addr = 0\<rparr>"

section \<open>Set-up and traps\<close>

definition BEL :: u8 where "BEL = 7"

text \<open>
  The address of the trap handler is the linker's.  Writes to the \<^verbatim>\<open>MTIME\<close> and
  \<^verbatim>\<open>MTIMECMP\<close> words are in the order of the source.
\<close>

definition system_setup :: "u32 \<Rightarrow> mach \<Rightarrow> mach option" where
  "system_setup handler m =
     do {
       let m = neorv32_cpu_csr_write CSR_MTVEC handler m;
       let (gpio, m) = neorv32_gpio_available m;
       let m = (if gpio \<noteq> 0 then
           let m = neorv32_gpio_dir_set (BIT STATUS_LED_PIN) m
           in neorv32_gpio_port_set (BIT STATUS_LED_PIN) m else m);
       let (uart, m) = neorv32_uart_available UART0 m;
       m \<leftarrow> (if uart \<noteq> 0 then neorv32_uart_setup_bootloader UART0 UART_BAUD 0 m else Some m);
       let (clint, m) = neorv32_clint_available m;
       Some (if clint \<noteq> 0 then
           let m = wr CLINT_MTIME_LO 0 m;
               m = wr CLINT_MTIME_HI 0 m;
               (clk, m) = neorv32_sysinfo_get_clk m;
               m = wr (CLINT_MTIMECMP_LO 0) (clk div 4) m;
               m = wr (CLINT_MTIMECMP_HI 0) 0 m;
               m = neorv32_cpu_csr_write CSR_MIE (BIT (csr_mie CSR_MIE_MTIE)) m
           in neorv32_cpu_csr_set CSR_MSTATUS (BIT (csr_mstatus CSR_MSTATUS_MIE)) m
         else m)
     }"

definition VT_TERM_HL_ON :: "u8 list" where "VT_TERM_HL_ON = 27 # str ''[1;31m''"
definition VT_TERM_HL_OFF :: "u8 list" where "VT_TERM_HL_OFF = 27 # str ''[0m''"

text \<open>The handler returns to the program (\<open>Inr\<close>) or halts in the start-up code's panic (\<open>Inl\<close>).\<close>

definition system_trap_handler :: "mach \<Rightarrow> (mach + mach) option" where
  "system_trap_handler m =
     (let (mcause, m) = neorv32_cpu_csr_read CSR_MCAUSE m
      in if mcause = trap_code_of TRAP_CODE_MTI then do {
           let (gpio, m) = neorv32_gpio_available m;
           let m = (if gpio \<noteq> 0 then neorv32_gpio_pin_toggle (of_nat STATUS_LED_PIN) m else m);
           let (clint, m) = neorv32_clint_available m;
           m \<leftarrow> (if clint \<noteq> 0 then do {
               (t, m) \<leftarrow> neorv32_clint_time_get m;
               let (clk, m) = neorv32_sysinfo_get_clk m;
               Some (neorv32_clint_mtimecmp_set (t + ucast (clk div 4)) m)
             } else Some m);
           Some (Inr m)
         }
         else do {
           let (uart, m) = neorv32_uart_available UART0 m;
           m \<leftarrow> (if uart \<noteq> 0 then do {
               m \<leftarrow> uart_puts ([10, BEL] @ VT_TERM_HL_ON @ str ''ERROR_EXCEPTION '') m;
               m \<leftarrow> uart_puth mcause m;
               m \<leftarrow> uart_putc 32 m;
               let (v, m) = neorv32_cpu_csr_read CSR_MEPC m;
               m \<leftarrow> uart_puth v m;
               m \<leftarrow> uart_putc 32 m;
               let (v, m) = neorv32_cpu_csr_read CSR_MTINST m;
               m \<leftarrow> uart_puth v m;
               m \<leftarrow> uart_putc 32 m;
               let (v, m) = neorv32_cpu_csr_read CSR_MTVAL m;
               m \<leftarrow> uart_puth v m;
               uart_puts (VT_TERM_HL_OFF @ [10]) m
             } else Some m);
           let (gpio, m) = neorv32_gpio_available m;
           Some (Inl (if gpio \<noteq> 0 then neorv32_gpio_port_set (BIT STATUS_LED_PIN) m else m))
         })"

section \<open>Loading an executable\<close>

type_synonym stream_get = "boot \<Rightarrow> ((int \<times> u32) \<times> boot) option"

text \<open>
  The transfer loop: the counter is a 32-bit word, so that it does not end for a size above
  \<open>0xfffffffc\<close>.  A word is stored before its status is looked at.  The address comes from the
  image: a store that traps ends in the trap handler, which reports it and halts, so that loading
  does not return.
\<close>

partial_function (option) load_loop ::
    "stream_get \<Rightarrow> u32 \<Rightarrow> u32 \<Rightarrow> int \<Rightarrow> u32 \<Rightarrow> u32 \<Rightarrow> boot \<Rightarrow> ((int \<times> u32) \<times> boot) option" where
  "load_loop get base sz rc i chk b =
     (if i < sz then
        if rc \<noteq> 0 then Some ((rc, chk), b)
        else do {
          ((r, tmp), b) \<leftarrow> get b;
          if access_traps True W32 (base + i) (cpu b) then None
          else load_loop get base sz (rc OR r) (i + 4) (chk + tmp)
            (b\<lparr>cpu := neorv32_cpu_store_unsigned_word (base + i) tmp (cpu b)\<rparr>)
        }
      else Some ((rc, chk), b))"

definition fail_with :: "string \<Rightarrow> boot \<Rightarrow> (int \<times> boot) option" where
  "fail_with msg b = do { b \<leftarrow> on_cpu (uart_puts ([BEL] @ str msg @ [10])) b; Some (1, b) }"

definition system_app_load ::
    "(boot \<Rightarrow> (int \<times> boot) option) \<Rightarrow> stream_get \<Rightarrow> boot \<Rightarrow> (int \<times> boot) option" where
  "system_app_load dev_init stream_get b =
     do {
       let b = b\<lparr>g_exe_size := 0\<rparr>;
       (r, b) \<leftarrow> dev_init b;
       if r \<noteq> 0 then fail_with ''ERROR_DEVICE'' b
       else do {
         ((r0, sig), b) \<leftarrow> stream_get b;
         ((r1, base), b) \<leftarrow> stream_get b;
         ((r2, sz), b) \<leftarrow> stream_get b;
         ((r3, chk), b) \<leftarrow> stream_get b;
         let rc = 0 OR r0 OR r1 OR r2 OR r3;
         let b = b\<lparr>g_exe_base := base\<rparr>;
         if sig \<noteq> BIN_SIGNATURE then fail_with ''ERROR_SIGNATURE'' b
         else do {
           ((rc, chk), b) \<leftarrow> load_loop stream_get base sz rc 0 chk b;
           if rc \<noteq> 0 then fail_with ''ERROR_DEVICE'' b
           else if chk + 1 \<noteq> 0 then fail_with ''ERROR_CHECKSUM'' b
           else do {
             let b = b\<lparr>g_exe_size := sz\<rparr>;
             b \<leftarrow> on_cpu (uart_puts (str ''OK'' @ [10])) b;
             Some (0, b\<lparr>cpu := tick Fence (cpu b)\<rparr>)
           }
         }
       }
     }"

section \<open>Storing an executable\<close>

text \<open>A load that traps ends in the trap handler as well.\<close>

partial_function (option) store_loop ::
    "(u32 \<Rightarrow> boot \<Rightarrow> (int \<times> boot) option) \<Rightarrow> u32 \<Rightarrow> u32 \<Rightarrow> int \<Rightarrow> u32 \<Rightarrow> u32 \<Rightarrow> boot
      \<Rightarrow> ((int \<times> u32) \<times> boot) option" where
  "store_loop put base sz rc i chk b =
     (if i < sz then if access_traps False W32 (base + i) (cpu b) then None else do {
        let (tmp, m) = neorv32_cpu_load_unsigned_word (base + i) (cpu b);
        (r, b) \<leftarrow> put tmp (b\<lparr>cpu := m\<rparr>);
        if rc OR r \<noteq> 0 then Some ((rc OR r, chk + tmp), b)
        else store_loop put base sz (rc OR r) (i + 4) (chk + tmp) b
      }
      else Some ((rc, chk), b))"

definition system_app_store ::
    "(boot \<Rightarrow> (int \<times> boot) option) \<Rightarrow> (boot \<Rightarrow> (int \<times> boot) option)
      \<Rightarrow> (u32 \<Rightarrow> boot \<Rightarrow> (int \<times> boot) option) \<Rightarrow> boot \<Rightarrow> (int \<times> boot) option" where
  "system_app_store dev_init dev_erase stream_put b =
     (if g_exe_size b = 0 then do {
        b \<leftarrow> on_cpu (uart_puts (str ''No executable.'' @ [10])) b;
        Some (1, b)
      }
      else do {
        (r, b) \<leftarrow> dev_init b;
        if r \<noteq> 0 then fail_with ''ERROR_DEVICE'' b
        else do {
          let header = \<lparr>signature = BIN_SIGNATURE, base_addr = g_exe_base b, size_bytes = g_exe_size b, checksum = 0\<rparr>;
          let addr_backup = g_flash_addr b;
          m \<leftarrow> uart_puts (str ''Write '') (cpu b);
          m \<leftarrow> uart_puth (size_bytes header) m;
          m \<leftarrow> uart_puts (str '' bytes from '') m;
          m \<leftarrow> uart_puth (base_addr header) m;
          m \<leftarrow> uart_puts (str '' to flash @'') m;
          m \<leftarrow> uart_puth addr_backup m;
          m \<leftarrow> uart_puts (str ''? (y/n)'' @ [10]) m;
          (c, m) \<leftarrow> uart_getc m;
          if c \<noteq> 0x79 then Some (1, b\<lparr>cpu := m\<rparr>)
          else do {
            m \<leftarrow> uart_puts (str ''Flashing... '') m;
            (r, b) \<leftarrow> dev_erase (b\<lparr>cpu := m\<rparr>);
            if r \<noteq> 0 then fail_with ''ERROR_DEVICE'' b
            else do {
              let b = b\<lparr>cpu := tick Fence (cpu b)\<rparr>;
              let b = b\<lparr>g_flash_addr := g_flash_addr b + BIN_OFFSET_DATA\<rparr>;
              ((rc, chk), b) \<leftarrow> store_loop stream_put (base_addr header) (size_bytes header) 0 0 (checksum header) b;
              let b = b\<lparr>g_flash_addr := addr_backup\<rparr>;
              (r0, b) \<leftarrow> stream_put (signature header) b;
              (r1, b) \<leftarrow> stream_put (base_addr header) b;
              (r2, b) \<leftarrow> stream_put (size_bytes header) b;
              (r3, b) \<leftarrow> stream_put (NOT chk) b;
              if rc OR r0 OR r1 OR r2 OR r3 \<noteq> 0 then fail_with ''ERROR_DEVICE'' b
              else do { b \<leftarrow> on_cpu (uart_puts (str ''OK'' @ [10])) b; Some (0, b) }
            }
          }
        }
      })"

section \<open>Booting\<close>

text \<open>Booting leaves the bootloader for an address, unless the user declines.\<close>

datatype boot_outcome =
    Continue boot
  | Jump u32 boot
  | Halted boot

definition system_app_boot :: "boot \<Rightarrow> boot_outcome option" where
  "system_app_boot b =
     do {
       (go, b) \<leftarrow> (if g_exe_size b = 0 then do {
           m \<leftarrow> uart_puts (str ''No executable. Boot anyway? (y/n)'' @ [10]) (cpu b);
           (c, m) \<leftarrow> uart_getc m;
           Some (c = 0x79, b\<lparr>cpu := m\<rparr>)
         } else Some (True, b));
       if \<not> go then Some (Continue b)
       else do {
         let boot_addr = g_exe_base b;
         let m = neorv32_cpu_csr_write CSR_MSTATUS
             (BIT (csr_mstatus CSR_MSTATUS_MPP_H) + BIT (csr_mstatus CSR_MSTATUS_MPP_L)) (cpu b);
         let (gpio, m) = neorv32_gpio_available m;
         let m = (if gpio \<noteq> 0 then neorv32_gpio_port_set 0 m else m);
         m \<leftarrow> uart_puts (str ''Booting from '') m;
         m \<leftarrow> uart_puth boot_addr m;
         m \<leftarrow> uart_puts (str ''...'' @ [10, 10]) m;
         m \<leftarrow> poll (\<lambda>v. v AND BIT (uart_ctrl UART_CTRL_TX_BUSY) \<noteq> 0) (UART_CTRL UART0) m;
         let m = tick FenceI m;
         let m = neorv32_cpu_csr_write CSR_MEPC boot_addr m;
         Some (Jump boot_addr (b\<lparr>cpu := m\<rparr>))
       }
     }"

end
