(* ===== verification/Boot_Load.thy ===== *)
theory Boot_Load
  imports Boot_App
begin

text \<open>
  Loading an executable from any word stream.  The locale \<open>boot_source\<close> lists what
  \<open>system_app_load\<close> needs: the stream yields the words of an image, the console returns,
  and neither is disturbed by stores to memory.  The upload over UART0 is an instance of it.
\<close>

section \<open>Images in memory\<close>

text \<open>The values that storing \<open>ws\<close> from address \<open>a\<close> on writes to location \<open>l\<close>.\<close>

fun placed :: "loc \<Rightarrow> u32 \<Rightarrow> u32 list \<Rightarrow> u32 list" where
  "placed l a [] = []"
| "placed l a (w # ws) = (if l = Mem W32 a then [w] else []) @ placed l (a + 4) ws"

text \<open>An address that takes stores of words: aligned, and the bus never answers with an error.\<close>

definition storable :: "mach \<Rightarrow> u32 \<Rightarrow> bool" where
  "storable m a \<longleftrightarrow> aligned W32 a \<and> (\<forall>h. hw m h (BusErr True W32 a) = 0)"

lemma storable_hw: "hw m' = hw m \<Longrightarrow> storable m' a = storable m a"
  by (simp add: storable_def)

lemma storable_no_trap: "storable m a \<Longrightarrow> \<not> access_traps True W32 a m"
  by (simp add: storable_def access_traps_def rd_val_def del: aligned.simps)

text \<open>Words of an image of \<open>size\<close> bytes.\<close>

definition words_of :: "u32 \<Rightarrow> nat" where
  "words_of sz = (unat sz + 3) div 4"

text \<open>Whether a header and the words after it are an executable the bootloader accepts.\<close>

definition valid_image :: "u32 \<Rightarrow> u32 \<Rightarrow> u32 list \<Rightarrow> bool" where
  "valid_image sig chk ws \<longleftrightarrow> sig = BIN_SIGNATURE \<and> chk + sum_list ws + 1 = 0"

section \<open>The interface of a source\<close>

locale boot_source =
  fixes ok :: "boot \<Rightarrow> bool" and pos :: "boot \<Rightarrow> nat" and image :: "u32 list"
    and dev :: "loc set" and get :: stream_get
  assumes get_word: "ok b \<Longrightarrow> pos b < List.length image \<Longrightarrow>
      \<exists>b'. get b = Some ((0, image ! pos b), b') \<and> ok b' \<and> pos b' = Suc (pos b)
        \<and> only_locs dev (cpu b) (cpu b') \<and> g_exe_base b' = g_exe_base b \<and> g_exe_size b' = g_exe_size b"
    and put_string: "ok b \<Longrightarrow>
      \<exists>m'. uart_puts s (cpu b) = Some m' \<and> ok (b\<lparr>cpu := m'\<rparr>) \<and> pos (b\<lparr>cpu := m'\<rparr>) = pos b
        \<and> only_locs dev (cpu b) m'"
    and fence_ok: "ok b \<Longrightarrow> ok (b\<lparr>cpu := tick Fence (cpu b)\<rparr>) \<and> pos (b\<lparr>cpu := tick Fence (cpu b)\<rparr>) = pos b"
    and store_ok: "ok b \<Longrightarrow> Mem W32 a \<notin> dev \<Longrightarrow> ok (b\<lparr>cpu := wr (Mem W32 a) w (cpu b)\<rparr>)
        \<and> pos (b\<lparr>cpu := wr (Mem W32 a) w (cpu b)\<rparr>) = pos b"
    and base_ok: "ok b \<Longrightarrow> ok (b\<lparr>g_exe_base := x\<rparr>) \<and> pos (b\<lparr>g_exe_base := x\<rparr>) = pos b"
    and size_ok: "ok b \<Longrightarrow> ok (b\<lparr>g_exe_size := x\<rparr>) \<and> pos (b\<lparr>g_exe_size := x\<rparr>) = pos b"
begin

lemma get_frame:
  assumes "ok b" "pos b < List.length image"
  obtains b' where "get b = Some ((0, image ! pos b), b')" "ok b'" "pos b' = Suc (pos b)"
    "g_exe_base b' = g_exe_base b" "g_exe_size b' = g_exe_size b"
    "\<And>l. l \<notin> dev \<Longrightarrow> written l (cpu b') = written l (cpu b)" "hw (cpu b') = hw (cpu b)"
proof -
  from get_word [OF assms] obtain b' where b': "get b = Some ((0, image ! pos b), b')" "ok b'"
    "pos b' = Suc (pos b)" "only_locs dev (cpu b) (cpu b')"
    "g_exe_base b' = g_exe_base b" "g_exe_size b' = g_exe_size b" by blast
  moreover have "hw (cpu b') = hw (cpu b)" using b'(4) by (simp add: only_locs_def)
  ultimately show ?thesis using that written_only_locs [OF b'(4)] by blast
qed

lemma fail_returns:
  assumes "ok b"
  shows "\<exists>m'. fail_with s b = Some (1, b\<lparr>cpu := m'\<rparr>)"
  using put_string [OF assms, of "[BEL] @ str s @ [10]"]
  by (auto simp: fail_with_def on_cpu_def simp del: uart_puts.simps append_Cons)

text \<open>The loop from the \<open>k\<close>-th word on.\<close>

lemma load_loop_words:
  assumes "ok b" "unat sz \<le> 2 ^ 32 - 4" "k \<le> words_of sz"
    and "pos b + (words_of sz - k) \<le> List.length image"
    and "\<forall>j. k \<le> j \<and> j < words_of sz \<longrightarrow> Mem W32 (base + of_nat (4 * j)) \<notin> dev
      \<and> storable (cpu b) (base + of_nat (4 * j))"
  defines "ws \<equiv> take (words_of sz - k) (drop (pos b) image)"
  shows "\<exists>b'. load_loop get base sz 0 (of_nat (4 * k)) chk b = Some ((0, chk + sum_list ws), b')
    \<and> ok b' \<and> pos b' = pos b + (words_of sz - k)
    \<and> g_exe_base b' = g_exe_base b \<and> g_exe_size b' = g_exe_size b
    \<and> (\<forall>l. l \<notin> dev \<longrightarrow> written l (cpu b') = written l (cpu b) @ placed l (base + of_nat (4 * k)) ws)"
  using assms(1,3-5) unfolding ws_def
proof (induction "words_of sz - k" arbitrary: b k chk)
  case 0
  then have k: "k = words_of sz" by simp
  have "4 * k < 2 ^ 32" "unat sz \<le> 4 * k" using assms(2) unfolding k words_of_def by simp_all
  moreover from this(1) have "unat (of_nat (4 * k) :: u32) = 4 * k" by (intro unat_of_nat_small) simp
  ultimately have "\<not> of_nat (4 * k) < sz" by (simp only: word_less_nat_alt not_less)
  then show ?case using 0 k by (subst load_loop.simps) simp
next
  case (Suc n)
  let ?a = "of_nat (4 * k) :: u32"
  have k: "k < words_of sz" using Suc.hyps(2) by simp
  then have "4 * k < unat sz" unfolding words_of_def by simp
  moreover have "4 * k < 2 ^ 32"
  proof -
    have "unat sz < 2 ^ 32" using unsigned_less [of sz] by simp
    with calculation show ?thesis by simp
  qed
  moreover from this have "unat ?a = 4 * k" by (intro unat_of_nat_small) simp
  ultimately have lt: "?a < sz" by (simp only: word_less_nat_alt)
  have p: "pos b < List.length image" using Suc.prems(3) k by simp
  from get_frame [OF Suc.prems(1) p] obtain b1 where b1: "get b = Some ((0, image ! pos b), b1)"
    "ok b1" "pos b1 = Suc (pos b)" "g_exe_base b1 = g_exe_base b" "g_exe_size b1 = g_exe_size b"
    "\<And>l. l \<notin> dev \<Longrightarrow> written l (cpu b1) = written l (cpu b)" "hw (cpu b1) = hw (cpu b)" by blast
  have nd: "Mem W32 (base + ?a) \<notin> dev" "storable (cpu b1) (base + ?a)"
    using Suc.prems(4) k storable_hw [OF b1(7)] by auto
  let ?b2 = "b1\<lparr>cpu := wr (Mem W32 (base + ?a)) (image ! pos b) (cpu b1)\<rparr>"
  have b2: "ok ?b2" "pos ?b2 = Suc (pos b)" using store_ok [OF b1(2) nd(1)] b1(3) by simp_all
  have st: "storable (cpu ?b2) x = storable (cpu b) x" for x by (rule storable_hw) (simp add: b1(7))
  have next_i: "?a + 4 = of_nat (4 * Suc k)" by simp
  have ws: "take (words_of sz - k) (drop (pos b) image)
      = image ! pos b # take (words_of sz - Suc k) (drop (Suc (pos b)) image)"
    using k p by (metis Cons_nth_drop_Suc Suc_diff_Suc take_Suc_Cons)
  have "n = words_of sz - Suc k" "Suc k \<le> words_of sz" using Suc.hyps(2) k by simp_all
  from Suc.hyps(1) [OF this(1) b2(1) this(2), of "chk + image ! pos b"] Suc.prems(3,4) k b2(2) st
  obtain b' where b': "load_loop get base sz 0 (of_nat (4 * Suc k)) (chk + image ! pos b) ?b2
      = Some ((0, chk + image ! pos b + sum_list (take (words_of sz - Suc k) (drop (Suc (pos b)) image))), b')"
    "ok b'" "pos b' = pos ?b2 + (words_of sz - Suc k)" "g_exe_base b' = g_exe_base ?b2" "g_exe_size b' = g_exe_size ?b2"
    "\<forall>l. l \<notin> dev \<longrightarrow> written l (cpu b') = written l (cpu ?b2)
       @ placed l (base + of_nat (4 * Suc k)) (take (words_of sz - Suc k) (drop (Suc (pos b)) image))"
    by auto
  have "load_loop get base sz 0 ?a chk b
      = load_loop get base sz 0 (of_nat (4 * Suc k)) (chk + image ! pos b) ?b2"
    using lt b1(1) storable_no_trap [OF nd(2)] unfolding next_i [symmetric]
    by (subst load_loop.simps) (simp add: neorv32_cpu_store_unsigned_word_def)
  moreover have "base + of_nat (4 * Suc k) = base + ?a + 4" unfolding next_i [symmetric] by (simp add: add.assoc)
  ultimately show ?case using b'
    by (intro exI [of _ b']) (use k b2(2) in \<open>auto simp: ws b1(4-6) ac_simps\<close>)
qed

lemma app_load:
  assumes "dev_init (b\<lparr>g_exe_size := 0\<rparr>) = Some (0, b1)" "ok b1" "pos b1 = 0" "g_exe_size b1 = 0"
    and "image = [sig, base, sz, chk] @ ws @ surplus" "List.length ws = words_of sz"
    and "unat sz \<le> 2 ^ 32 - 4"
    and "\<forall>j < words_of sz. Mem W32 (base + of_nat (4 * j)) \<notin> dev \<and> storable (cpu b1) (base + of_nat (4 * j))"
  shows "\<exists>r b'. system_app_load dev_init get b = Some (r, b')
    \<and> (r = 0 \<longleftrightarrow> valid_image sig chk ws)
    \<and> g_exe_base b' = base \<and> g_exe_size b' = (if r = 0 then sz else 0)
    \<and> (r = 0 \<longrightarrow> ok b' \<and> pos b' = 4 + words_of sz)
    \<and> (sig = BIN_SIGNATURE \<longrightarrow> (\<forall>l. l \<notin> dev \<longrightarrow> written l (cpu b') = written l (cpu b1) @ placed l base ws))"
proof -
  have len: "pos b1 < List.length image" using assms(3,5) by simp
  from get_frame [OF assms(2) len] assms(3,5) obtain b2 where
    b2: "get b1 = Some ((0, sig), b2)" "ok b2" "pos b2 = 1" "g_exe_size b2 = 0"
      "\<And>l. l \<notin> dev \<Longrightarrow> written l (cpu b2) = written l (cpu b1)" "hw (cpu b2) = hw (cpu b1)" using assms(4) by auto
  from get_frame [OF b2(2)] b2(3) assms(5) obtain b3 where
    b3: "get b2 = Some ((0, base), b3)" "ok b3" "pos b3 = 2" "g_exe_size b3 = 0"
      "\<And>l. l \<notin> dev \<Longrightarrow> written l (cpu b3) = written l (cpu b2)" "hw (cpu b3) = hw (cpu b2)"
    using b2(4) by (auto simp: numeral_2_eq_2)
  from get_frame [OF b3(2)] b3(3) assms(5) obtain b4 where
    b4: "get b3 = Some ((0, sz), b4)" "ok b4" "pos b4 = 3" "g_exe_size b4 = 0"
      "\<And>l. l \<notin> dev \<Longrightarrow> written l (cpu b4) = written l (cpu b3)" "hw (cpu b4) = hw (cpu b3)"
    using b3(4) by (auto simp: numeral_2_eq_2 numeral_3_eq_3)
  from get_frame [OF b4(2)] b4(3) assms(5) obtain b5 where
    b5: "get b4 = Some ((0, chk), b5)" "ok b5" "pos b5 = 4" "g_exe_size b5 = 0"
      "\<And>l. l \<notin> dev \<Longrightarrow> written l (cpu b5) = written l (cpu b4)" "hw (cpu b5) = hw (cpu b4)"
    using b4(4) by (auto simp: numeral_3_eq_3 eval_nat_numeral)
  let ?b6 = "b5\<lparr>g_exe_base := base\<rparr>"
  have b6: "ok ?b6" "pos ?b6 = 4" using base_ok [OF b5(2)] b5(3) by simp_all
  have head: "system_app_load dev_init get b
      = (if sig \<noteq> BIN_SIGNATURE then fail_with ''ERROR_SIGNATURE'' ?b6
         else do {
           ((rc, chk), b) \<leftarrow> load_loop get base sz 0 0 chk ?b6;
           if rc \<noteq> 0 then fail_with ''ERROR_DEVICE'' b
           else if chk + 1 \<noteq> 0 then fail_with ''ERROR_CHECKSUM'' b
           else do {
             let b = b\<lparr>g_exe_size := sz\<rparr>;
             b \<leftarrow> on_cpu (uart_puts (str ''OK'' @ [10])) b;
             Some (0, b\<lparr>cpu := tick Fence (cpu b)\<rparr>)
           }
         })"
    unfolding system_app_load_def by (simp add: assms(1) b2(1) b3(1) b4(1) b5(1))
  show ?thesis
  proof (cases "sig = BIN_SIGNATURE")
    case False
    from fail_returns [OF b6(1), of "''ERROR_SIGNATURE''"] obtain m' where
      "fail_with ''ERROR_SIGNATURE'' ?b6 = Some (1, ?b6\<lparr>cpu := m'\<rparr>)" by blast
    with False b5(4) show ?thesis by (simp add: head valid_image_def)
  next
    case True
    have st: "storable (cpu ?b6) x = storable (cpu b1) x" for x
      by (rule storable_hw) (simp add: b5(6) b4(6) b3(6) b2(6))
    have ws: "take (words_of sz - 0) (drop (pos ?b6) image) = ws" using assms(5,6) b6(2) by simp
    have "pos ?b6 + (words_of sz - 0) \<le> List.length image" using assms(5,6) b6(2) by simp
    from load_loop_words [OF b6(1) assms(7) le0 this, of base chk] assms(8) st
    obtain b7 where b7: "load_loop get base sz 0 0 chk ?b6 = Some ((0, chk + sum_list ws), b7)" "ok b7" "pos b7 = 4 + words_of sz"
      "g_exe_base b7 = base" "g_exe_size b7 = 0"
      "\<forall>l. l \<notin> dev \<longrightarrow> written l (cpu b7) = written l (cpu ?b6) @ placed l base ws"
      using b5(4) b6(2) unfolding ws by auto
    have mem: "written l (cpu b7) = written l (cpu b1) @ placed l base ws" if "l \<notin> dev" for l
      using that b7(6) b5(5) b4(5) b3(5) b2(5) by simp
    show ?thesis
    proof (cases "chk + sum_list ws + 1 = 0")
      case False
      from put_string [OF b7(2), of "[BEL] @ str ''ERROR_CHECKSUM'' @ [10]"] obtain m' where
        m': "uart_puts ([BEL] @ str ''ERROR_CHECKSUM'' @ [10]) (cpu b7) = Some m'"
        "only_locs dev (cpu b7) m'" by blast
      have "system_app_load dev_init get b = Some (1, b7\<lparr>cpu := m'\<rparr>)"
        using True False b7(1) m'(1) by (simp add: head fail_with_def on_cpu_def)
      with True False b7(4,5) mem written_only_locs [OF m'(2)] show ?thesis
        by (simp add: valid_image_def)
    next
      case valid: True
      have b8: "ok (b7\<lparr>g_exe_size := sz\<rparr>)" "pos (b7\<lparr>g_exe_size := sz\<rparr>) = 4 + words_of sz"
        using size_ok [OF b7(2), of sz] b7(3) by simp_all
      from put_string [OF b8(1), of "str ''OK'' @ [10]"] obtain m' where
        m': "uart_puts (str ''OK'' @ [10]) (cpu b7) = Some m'" "only_locs dev (cpu b7) m'"
          "ok (b7\<lparr>g_exe_size := sz, cpu := m'\<rparr>)" "pos (b7\<lparr>g_exe_size := sz, cpu := m'\<rparr>) = 4 + words_of sz"
        using b8(2) by auto
      have b9: "ok (b7\<lparr>g_exe_size := sz, cpu := tick Fence m'\<rparr>)" "pos (b7\<lparr>g_exe_size := sz, cpu := tick Fence m'\<rparr>) = 4 + words_of sz"
        using fence_ok [OF m'(3)] m'(4) by simp_all
      have "system_app_load dev_init get b = Some (0, b7\<lparr>g_exe_size := sz, cpu := tick Fence m'\<rparr>)"
        using True valid b7(1) m'(1) by (simp add: head on_cpu_def)
      with True valid b7(4) b9 mem written_only_locs [OF m'(2)] show ?thesis
        by (simp add: valid_image_def)
    qed
  qed
qed

end

section \<open>A source that ends\<close>

text \<open>Behind the last word of a finite source nothing comes: the program waits for ever, if no store
traps before.\<close>

locale finite_source = boot_source +
  assumes get_end: "ok b \<Longrightarrow> List.length image \<le> pos b \<Longrightarrow> get b = None"
begin

lemma load_loop_waits:
  assumes "ok b" "k \<le> words_of sz" "pos b \<le> List.length image"
    and "List.length image < pos b + (words_of sz - k)"
    and "\<forall>j. k \<le> j \<and> j < words_of sz \<longrightarrow> Mem W32 (base + of_nat (4 * j)) \<notin> dev"
  shows "load_loop get base sz 0 (of_nat (4 * k)) chk b = None"
  using assms
proof (induction "words_of sz - k" arbitrary: b k chk)
  case (Suc n)
  let ?a = "of_nat (4 * k) :: u32"
  have k: "k < words_of sz" using Suc.hyps(2) by simp
  then have "4 * k < unat sz" unfolding words_of_def by simp
  moreover have "unat sz < 2 ^ 32" using unsigned_less [of sz] by simp
  moreover from calculation have "unat ?a = 4 * k" by (intro unat_of_nat_small) simp
  ultimately have lt: "?a < sz" by (simp only: word_less_nat_alt)
  show ?case
  proof (cases "pos b < List.length image")
    case False
    then have "get b = None" using get_end [OF Suc.prems(1)] by simp
    with lt show ?thesis by (subst load_loop.simps) simp
  next
    case True
    from get_frame [OF Suc.prems(1) True] obtain b1 where b1: "get b = Some ((0, image ! pos b), b1)"
      "ok b1" "pos b1 = Suc (pos b)" by blast
    have nd: "Mem W32 (base + ?a) \<notin> dev" using Suc.prems(5) k by auto
    show ?thesis
    proof (cases "access_traps True W32 (base + ?a) (cpu b1)")
      case True
      with lt b1(1) show ?thesis by (subst load_loop.simps) simp
    next
      case no_trap: False
    let ?b2 = "b1\<lparr>cpu := wr (Mem W32 (base + ?a)) (image ! pos b) (cpu b1)\<rparr>"
    have b2: "ok ?b2" "pos ?b2 = Suc (pos b)" using store_ok [OF b1(2) nd] b1(3) by simp_all
    have next_i: "?a + 4 = of_nat (4 * Suc k)" by simp
    have "load_loop get base sz 0 ?a chk b
        = load_loop get base sz 0 (of_nat (4 * Suc k)) (chk + image ! pos b) ?b2"
      using lt b1(1) no_trap unfolding next_i [symmetric]
      by (subst load_loop.simps) (simp add: neorv32_cpu_store_unsigned_word_def)
    moreover have "\<dots> = None"
    proof (rule Suc.hyps(1) [OF _ b2(1)])
      show "n = words_of sz - Suc k" "Suc k \<le> words_of sz" using Suc.hyps(2) k by simp_all
      show "pos ?b2 \<le> List.length image" using True unfolding b2(2) by simp
      show "List.length image < pos ?b2 + (words_of sz - Suc k)" using Suc.prems(4) k unfolding b2(2) by simp
      show "\<forall>j. Suc k \<le> j \<and> j < words_of sz \<longrightarrow> Mem W32 (base + of_nat (4 * j)) \<notin> dev"
        using Suc.prems(5) by auto
    qed
    ultimately show ?thesis by simp
    qed
  qed
qed simp

lemma app_load_waits:
  assumes "dev_init (b\<lparr>g_exe_size := 0\<rparr>) = Some (0, b1)" "ok b1" "pos b1 = 0"
    and "image = [BIN_SIGNATURE, base, sz, chk] @ ws" "List.length ws < words_of sz"
    and "\<forall>j < words_of sz. Mem W32 (base + of_nat (4 * j)) \<notin> dev"
  shows "system_app_load dev_init get b = None"
proof -
  have len: "pos b1 < List.length image" using assms(3,4) by simp
  from get_frame [OF assms(2) len] assms(3,4) obtain b2 where
    b2: "get b1 = Some ((0, BIN_SIGNATURE), b2)" "ok b2" "pos b2 = 1" by auto
  from get_frame [OF b2(2)] b2(3) assms(4) obtain b3 where
    b3: "get b2 = Some ((0, base), b3)" "ok b3" "pos b3 = 2" by (auto simp: numeral_2_eq_2)
  from get_frame [OF b3(2)] b3(3) assms(4) obtain b4 where
    b4: "get b3 = Some ((0, sz), b4)" "ok b4" "pos b4 = 3" by (auto simp: numeral_2_eq_2 numeral_3_eq_3)
  from get_frame [OF b4(2)] b4(3) assms(4) obtain b5 where
    b5: "get b4 = Some ((0, chk), b5)" "ok b5" "pos b5 = 4" by (auto simp: numeral_3_eq_3 eval_nat_numeral)
  let ?b6 = "b5\<lparr>g_exe_base := base\<rparr>"
  have b6: "ok ?b6" "pos ?b6 = 4" using base_ok [OF b5(2)] b5(3) by simp_all
  have "load_loop get base sz 0 (of_nat (4 * 0)) chk ?b6 = None"
    using assms(4-6) by (intro load_loop_waits [OF b6(1)]) (simp_all add: b6(2))
  then show ?thesis
    unfolding system_app_load_def by (simp add: assms(1) b2(1) b3(1) b4(1) b5(1))
qed

end

section \<open>Uploading over UART0\<close>

text \<open>The words that a sequence of bytes carries, least significant byte first.\<close>

fun words_le :: "u8 list \<Rightarrow> u32 list" where
  "words_le (a # b # c # d # bs) = join32 a b c d # words_le bs"
| "words_le _ = []"

lemma words_le_bytes32 [simp]: "words_le (bytes32 w @ bs) = w # words_le bs"
  using join32_byte32 [of w] by (simp add: bytes32_eq)

lemma words_le_nth:
  "4 * i + 3 < List.length bs \<Longrightarrow>
    words_le bs ! i = join32 (bs ! (4 * i)) (bs ! (4 * i + 1)) (bs ! (4 * i + 2)) (bs ! (4 * i + 3))"
proof (induction bs arbitrary: i rule: words_le.induct)
  case (1 a b c d bs)
  then show ?case by (cases i) (simp_all add: numeral_2_eq_2 numeral_3_eq_3)
qed simp_all

lemma length_words_le [simp]: "List.length (words_le bs) = List.length bs div 4"
  by (induction bs rule: words_le.induct) simp_all

text \<open>The upload starts at character \<open>n\<close> of the input.\<close>

definition upload_ok :: "uart_time \<Rightarrow> nat \<Rightarrow> nat \<Rightarrow> (event list \<Rightarrow> loc \<Rightarrow> u32) \<Rightarrow> u8 list \<Rightarrow> nat \<Rightarrow> boot \<Rightarrow> bool" where
  "upload_ok p txd rxd rest input n b \<longleftrightarrow> console_ok p txd rxd rest input (cpu b)
     \<and> (\<exists>k. uart_pos p txd rxd UART0 input (cpu b) = n + 4 * k)"

definition upload_pos :: "uart_time \<Rightarrow> nat \<Rightarrow> nat \<Rightarrow> u8 list \<Rightarrow> nat \<Rightarrow> boot \<Rightarrow> nat" where
  "upload_pos p txd rxd input n b = (uart_pos p txd rxd UART0 input (cpu b) - n) div 4"

lemma uart_stream_get_word:
  assumes "upload_ok p txd rxd rest input n b" "upload_pos p txd rxd input n b < List.length (words_le (drop n input))"
  shows "\<exists>m. uart_stream_get b = Some ((0, words_le (drop n input) ! upload_pos p txd rxd input n b), b\<lparr>cpu := m\<rparr>)
    \<and> console_ok p txd rxd rest input m
    \<and> uart_pos p txd rxd UART0 input m = uart_pos p txd rxd UART0 input (cpu b) + 4
    \<and> only_locs console_locs (cpu b) m"
proof -
  let ?P = "uart_pos p txd rxd UART0 input" and ?C = "console_ok p txd rxd rest input"
  obtain k where k: "?P (cpu b) = n + 4 * k" using assms(1) by (auto simp: upload_ok_def)
  have l: "4 * k + 3 < List.length (drop n input)" using assms(2) k by (auto simp: upload_pos_def)
  then have l': "n + (4 * k + 3) < List.length input" by simp
  have c0: "?C (cpu b)" using assms(1) by (simp add: upload_ok_def)
  obtain m1 where m1: "uart_getc (cpu b) = Some (drop n input ! (4 * k), m1)" "?C m1" "?P m1 = n + 4 * k + 1"
    using console_getc [OF c0] k l l' by (auto simp: add.assoc)
  obtain m2 where m2: "uart_getc m1 = Some (drop n input ! (4 * k + 1), m2)" "?C m2" "?P m2 = n + 4 * k + 2"
    using console_getc [OF m1(2)] m1(3) l l' by (auto simp: add.assoc)
  obtain m3 where m3: "uart_getc m2 = Some (drop n input ! (4 * k + 2), m3)" "?C m3" "?P m3 = n + 4 * k + 3"
    using console_getc [OF m2(2)] m2(3) l l' by (auto simp: add.assoc)
  obtain m4 where m4: "uart_getc m3 = Some (drop n input ! (4 * k + 3), m4)" "?C m4" "?P m4 = n + 4 * k + 4"
    using console_getc [OF m3(2)] m3(3) l l' by (auto simp: add.assoc)
  have "only_locs console_locs (cpu b) m4"
    using m1(1) m2(1) m3(1) m4(1) by (blast dest: getc_only intro: only_locs_trans)
  moreover have "words_le (drop n input) ! upload_pos p txd rxd input n b
      = join32 (drop n input ! (4 * k)) (drop n input ! (4 * k + 1)) (drop n input ! (4 * k + 2))
        (drop n input ! (4 * k + 3))"
    using words_le_nth [OF l] k by (simp add: upload_pos_def)
  ultimately show ?thesis using m1(1) m2(1) m3(1) m4 k by (auto simp: uart_stream_get_def)
qed

lemma upload_puts:
  assumes "console_ok p txd rxd rest input m"
  shows "\<exists>m'. uart_puts s m = Some m' \<and> console_ok p txd rxd rest input m'
    \<and> uart_pos p txd rxd UART0 input m' = uart_pos p txd rxd UART0 input m
    \<and> only_locs console_locs m m'"
  using assms
proof (induction s arbitrary: m)
  case (Cons c s)
  from console_putc [OF Cons.prems, of c] obtain m1 where m1: "uart_putc c m = Some m1"
    "console_ok p txd rxd rest input m1"
    "uart_pos p txd rxd UART0 input m1 = uart_pos p txd rxd UART0 input m" by blast
  from Cons.IH [OF m1(2)] m1(1,3) uart_putc_only [OF m1(1)] Cons.prems show ?case
    by (auto intro: only_locs_trans)
qed simp

lemma console_puth_digits:
  assumes "console_ok p txd rxd rest input m"
  shows "\<exists>m'. puth_digits x n m = Some m' \<and> console_ok p txd rxd rest input m'
    \<and> uart_pos p txd rxd UART0 input m' = uart_pos p txd rxd UART0 input m \<and> only_locs console_locs m m'"
  using assms
proof (induction n arbitrary: m)
  case (Suc n)
  let ?c = "hex_symbols ! unat (drop_bit (4 * n) x AND 0xf)"
  from console_putc [OF Suc.prems, of ?c] obtain m1 where m1: "uart_putc ?c m = Some m1"
    "console_ok p txd rxd rest input m1"
    "uart_pos p txd rxd UART0 input m1 = uart_pos p txd rxd UART0 input m" by blast
  from Suc.IH [OF m1(2)] m1(1,3) uart_putc_only [OF m1(1)] show ?case
    by (auto intro: only_locs_trans)
qed simp

lemma console_puth:
  assumes "console_ok p txd rxd rest input m"
  shows "\<exists>m'. uart_puth x m = Some m' \<and> console_ok p txd rxd rest input m'
    \<and> uart_pos p txd rxd UART0 input m' = uart_pos p txd rxd UART0 input m \<and> only_locs console_locs m m'"
proof -
  from console_putc [OF assms, of "0x30"] obtain m1 where m1: "uart_putc 0x30 m = Some m1"
    "console_ok p txd rxd rest input m1"
    "uart_pos p txd rxd UART0 input m1 = uart_pos p txd rxd UART0 input m" by blast
  from console_putc [OF m1(2), of "0x78"] obtain m2 where m2: "uart_putc 0x78 m1 = Some m2"
    "console_ok p txd rxd rest input m2"
    "uart_pos p txd rxd UART0 input m2 = uart_pos p txd rxd UART0 input m1" by blast
  from console_puth_digits [OF m2(2), of x 8] m1 m2 uart_putc_only [OF m1(1)] uart_putc_only [OF m2(1)]
  show ?thesis by (auto simp: uart_puth_def intro: only_locs_trans)
qed

lemma upload_store:
  assumes "console_ok p txd rxd rest input m" "l \<notin> console_locs"
  shows "console_ok p txd rxd rest input (wr l w m)"
    "uart_pos p txd rxd UART0 input (wr l w m) = uart_pos p txd rxd UART0 input m"
  using assms uart_rx_hw.pos_tick [of p txd rxd rest UART0 input m "Wr l w"]
    uart_tx_hw.ok_tick [of p txd rxd rest UART0 input m "Wr l w"]
  by (auto simp: console_ok_def wr_def console_locs_def)

lemma upload_fence:
  assumes "console_ok p txd rxd rest input m" "e = Fence \<or> e = FenceI"
  shows "console_ok p txd rxd rest input (tick e m)"
    "uart_pos p txd rxd UART0 input (tick e m) = uart_pos p txd rxd UART0 input m"
  using assms uart_rx_hw.pos_tick [of p txd rxd rest UART0 input m e]
    uart_tx_hw.ok_tick [of p txd rxd rest UART0 input m e]
  by (auto simp: console_ok_def)

interpretation upload: boot_source "upload_ok p txd rxd rest input n" "upload_pos p txd rxd input n"
    "words_le (drop n input)" console_locs uart_stream_get
proof
  fix b assume ok: "upload_ok p txd rxd rest input n b"
  {
    assume "upload_pos p txd rxd input n b < List.length (words_le (drop n input))"
    from uart_stream_get_word [OF ok this] obtain m where
      "uart_stream_get b = Some ((0, words_le (drop n input) ! upload_pos p txd rxd input n b), b\<lparr>cpu := m\<rparr>)"
      "console_ok p txd rxd rest input m"
      "uart_pos p txd rxd UART0 input m = uart_pos p txd rxd UART0 input (cpu b) + 4"
      "only_locs console_locs (cpu b) m" by blast
    with ok show "\<exists>b'. uart_stream_get b = Some ((0, words_le (drop n input) ! upload_pos p txd rxd input n b), b')
      \<and> upload_ok p txd rxd rest input n b' \<and> upload_pos p txd rxd input n b' = Suc (upload_pos p txd rxd input n b)
      \<and> only_locs console_locs (cpu b) (cpu b') \<and> g_exe_base b' = g_exe_base b \<and> g_exe_size b' = g_exe_size b"
      by (intro exI [of _ "b\<lparr>cpu := m\<rparr>"]) (auto simp: upload_ok_def upload_pos_def intro: exI [of _ "Suc k" for k])
  }
  show "\<exists>m'. uart_puts s (cpu b) = Some m' \<and> upload_ok p txd rxd rest input n (b\<lparr>cpu := m'\<rparr>)
      \<and> upload_pos p txd rxd input n (b\<lparr>cpu := m'\<rparr>) = upload_pos p txd rxd input n b
      \<and> only_locs console_locs (cpu b) m'" for s
    using upload_puts [of p txd rxd rest input "cpu b" s] ok by (auto simp: upload_ok_def upload_pos_def)
  show "upload_ok p txd rxd rest input n (b\<lparr>cpu := tick Fence (cpu b)\<rparr>)
      \<and> upload_pos p txd rxd input n (b\<lparr>cpu := tick Fence (cpu b)\<rparr>) = upload_pos p txd rxd input n b"
    using upload_fence [of p txd rxd rest input "cpu b"] ok by (auto simp: upload_ok_def upload_pos_def)
  show "upload_ok p txd rxd rest input n (b\<lparr>cpu := wr (Mem W32 a) w (cpu b)\<rparr>)
      \<and> upload_pos p txd rxd input n (b\<lparr>cpu := wr (Mem W32 a) w (cpu b)\<rparr>) = upload_pos p txd rxd input n b"
    if "Mem W32 a \<notin> console_locs" for a w
    using upload_store [OF _ that, of p txd rxd rest input "cpu b" w] ok
    by (auto simp: upload_ok_def upload_pos_def)
  show "upload_ok p txd rxd rest input n (b\<lparr>g_exe_base := x\<rparr>)
      \<and> upload_pos p txd rxd input n (b\<lparr>g_exe_base := x\<rparr>) = upload_pos p txd rxd input n b" for x
    using ok by (simp add: upload_ok_def upload_pos_def)
  show "upload_ok p txd rxd rest input n (b\<lparr>g_exe_size := x\<rparr>)
      \<and> upload_pos p txd rxd input n (b\<lparr>g_exe_size := x\<rparr>) = upload_pos p txd rxd input n b" for x
    using ok by (simp add: upload_ok_def upload_pos_def)
qed

text \<open>The line has an end: a word that is not complete never comes.\<close>

lemma poll_forever: "(\<And>n. busy (rd_val l (rds l n m))) \<Longrightarrow> poll busy l m = None"
  by (cases "poll busy l m") (auto dest: poll_Some_D)

lemma console_getc_waits:
  assumes "console_ok p txd rxd rest input m" "List.length input \<le> uart_pos p txd rxd UART0 input m"
  shows "uart_getc m = None"
proof -
  note a = console_available [OF assms(1)]
  let ?m = "snd (neorv32_uart_available UART0 m)"
  have "rx_empty (rd_val (UART_CTRL UART0) (rds (UART_CTRL UART0) n ?m))" for n
  proof -
    have "uart_ok p txd rxd rest UART0 input ?m" using a(2) by (simp add: console_ok_def)
    then have ok: "uart_ok p txd rxd rest UART0 input (rds (UART_CTRL UART0) n ?m)" by (rule ok_rds_rtl)
    have "uart_pos p txd rxd UART0 input (rds (UART_CTRL UART0) n ?m) = uart_pos p txd rxd UART0 input ?m"
      using \<open>uart_ok p txd rxd rest UART0 input ?m\<close> by (rule uart_rx_hw.pos_rds)
    with ok assms(2) a(3) have "u_rx (uart_state UART0 p txd rxd input (log (rds (UART_CTRL UART0) n ?m))) = []"
      by (simp add: uart_ok_def Let_def uart_pos_def)
    then show ?thesis using ok_rd_val(1) [OF ok] by simp
  qed
  then have "neorv32_uart_getc UART0 ?m = None"
    by (simp add: neorv32_uart_getc_def poll_forever)
  then show ?thesis using a(1) by (auto simp: uart_getc_def split: prod.split)
qed

interpretation upload_end: finite_source "upload_ok p txd rxd rest input n" "upload_pos p txd rxd input n"
    "words_le (drop n input)" console_locs uart_stream_get
proof
  fix b assume ok: "upload_ok p txd rxd rest input n b"
    and e: "List.length (words_le (drop n input)) \<le> upload_pos p txd rxd input n b"
  let ?P = "uart_pos p txd rxd UART0 input" and ?C = "console_ok p txd rxd rest input"
  have few: "List.length input < ?P (cpu b) + 4" using ok e by (auto simp: upload_ok_def upload_pos_def)
  have step: "uart_getc m = None \<or> (\<exists>c m'. uart_getc m = Some (c, m') \<and> ?C m' \<and> ?P m' = Suc (?P m))"
    if "?C m" for m
    using console_getc [OF that] console_getc_waits [OF that] by (cases "?P m < List.length input") auto
  show "uart_stream_get b = None"
  proof (rule ccontr)
    assume "uart_stream_get b \<noteq> None"
    then obtain c0 m0 c1 m1 c2 m2 c3 m3 where g: "uart_getc (cpu b) = Some (c0, m0)" "uart_getc m0 = Some (c1, m1)"
      "uart_getc m1 = Some (c2, m2)" "uart_getc m2 = Some (c3, m3)"
      by (auto simp: uart_stream_get_def split: Option.bind_splits)
    have "?C (cpu b)" using ok by (simp add: upload_ok_def)
    with step g(1) have 0: "?C m0" "?P m0 = ?P (cpu b) + 1" by force+
    with step g(2) have 1: "?C m1" "?P m1 = ?P (cpu b) + 2" by force+
    with step g(3) have 2: "?C m2" "?P m2 = ?P (cpu b) + 3" by force+
    with console_getc_waits [OF 2(1)] few g(4) show False by simp
  qed
qed

end
