(* ===== verification/Spi_Flash.thy ===== *)
theory Spi_Flash
  imports Spi_Rtl Boot_Load
begin

text \<open>
  The bootloader's SPI flash driver, \<^verbatim>\<open>sw/bootloader/hal/source/spi_flash.c\<close>, in the
  default configuration: chip select 0, three address bytes, sectors of 64 kB.  The flash
  chip is not part of the sources: \<open>flash_chip\<close> states the commands of serial flash
  memories that the driver relies on, for a chip given by its answers on the bus and its
  content.
\<close>

section \<open>Configuration\<close>

definition SPI_FLASH_CS :: u32 where "SPI_FLASH_CS = 0"
definition SPI_FLASH_CLK_PRSC :: u32 where "SPI_FLASH_CLK_PRSC = 3"
definition SPI_FLASH_CLK_DIV :: u32 where "SPI_FLASH_CLK_DIV = 0"
definition SPI_FLASH_BASE_ADDR :: u32 where "SPI_FLASH_BASE_ADDR = 0x00400000"
definition SPI_FLASH_SECTOR_SIZE :: u32 where "SPI_FLASH_SECTOR_SIZE = 0x10000"

datatype spi_flash_cmd_code =
    SPI_FLASH_CMD_PAGE_PROGRAM
  | SPI_FLASH_CMD_READ
  | SPI_FLASH_CMD_WRITE_DISABLE
  | SPI_FLASH_CMD_READ_STATUS
  | SPI_FLASH_CMD_WRITE_ENABLE
  | SPI_FLASH_CMD_WAKE
  | SPI_FLASH_CMD_SECTOR_ERASE

primrec flash_cmd :: "spi_flash_cmd_code \<Rightarrow> u8" where
    "flash_cmd SPI_FLASH_CMD_PAGE_PROGRAM = 0x02"
  | "flash_cmd SPI_FLASH_CMD_READ = 0x03"
  | "flash_cmd SPI_FLASH_CMD_WRITE_DISABLE = 0x04"
  | "flash_cmd SPI_FLASH_CMD_READ_STATUS = 0x05"
  | "flash_cmd SPI_FLASH_CMD_WRITE_ENABLE = 0x06"
  | "flash_cmd SPI_FLASH_CMD_WAKE = 0xab"
  | "flash_cmd SPI_FLASH_CMD_SECTOR_ERASE = 0xd8"

definition FLASH_SREG_BUSY :: nat where "FLASH_SREG_BUSY = 0"
definition FLASH_SREG_WEL :: nat where "FLASH_SREG_WEL = 1"

section \<open>Driver\<close>

definition spi_flash_cmd :: "u8 \<Rightarrow> mach \<Rightarrow> mach option" where
  "spi_flash_cmd cmd m =
     do {
       m \<leftarrow> neorv32_spi_cs_en SPI_FLASH_CS m;
       (_, m) \<leftarrow> neorv32_spi_transfer cmd m;
       neorv32_spi_cs_dis m
     }"

definition spi_flash_read_status :: "mach \<Rightarrow> (u8 \<times> mach) option" where
  "spi_flash_read_status m =
     do {
       m \<leftarrow> neorv32_spi_cs_en SPI_FLASH_CS m;
       (_, m) \<leftarrow> neorv32_spi_transfer (flash_cmd SPI_FLASH_CMD_READ_STATUS) m;
       (res, m) \<leftarrow> neorv32_spi_transfer 0 m;
       m \<leftarrow> neorv32_spi_cs_dis m;
       Some (res, m)
     }"

definition spi_flash_send_addr :: "u32 \<Rightarrow> mach \<Rightarrow> mach option" where
  "spi_flash_send_addr addr m =
     do {
       (_, m) \<leftarrow> neorv32_spi_transfer (byte32 addr 2) m;
       (_, m) \<leftarrow> neorv32_spi_transfer (byte32 addr 1) m;
       (_, m) \<leftarrow> neorv32_spi_transfer (byte32 addr 0) m;
       Some m
     }"

definition spi_flash_setup :: "boot \<Rightarrow> (int \<times> boot) option" where
  "spi_flash_setup b =
     (let (a, m) = neorv32_spi_available (cpu b)
      in if a = 0 then Some (1, b\<lparr>cpu := m\<rparr>)
         else do {
           let m = neorv32_spi_setup SPI_FLASH_CLK_PRSC SPI_FLASH_CLK_DIV 0 0 m;
           let b = b\<lparr>g_flash_addr := SPI_FLASH_BASE_ADDR\<rparr>;
           m \<leftarrow> spi_flash_cmd (flash_cmd SPI_FLASH_CMD_WAKE) m;
           m \<leftarrow> spi_flash_cmd (flash_cmd SPI_FLASH_CMD_WRITE_ENABLE) m;
           (s, m) \<leftarrow> spi_flash_read_status m;
           if \<not> bit s FLASH_SREG_WEL then Some (- 1, b\<lparr>cpu := m\<rparr>)
           else do {
             m \<leftarrow> spi_flash_cmd (flash_cmd SPI_FLASH_CMD_WRITE_DISABLE) m;
             (s, m) \<leftarrow> spi_flash_read_status m;
             if bit s FLASH_SREG_WEL then Some (- 1, b\<lparr>cpu := m\<rparr>)
             else Some (0, b\<lparr>cpu := m\<rparr>)
           }
         })"

text \<open>The wait for the end of a write or an erase.\<close>

partial_function (option) spi_flash_wait :: "mach \<Rightarrow> mach option" where
  "spi_flash_wait m =
     do {
       (s, m) \<leftarrow> spi_flash_read_status m;
       if bit s FLASH_SREG_BUSY then spi_flash_wait m else Some m
     }"

fun erase_loop :: "nat \<Rightarrow> boot \<Rightarrow> boot option" where
  "erase_loop 0 b = Some b"
| "erase_loop (Suc num_sectors) b =
     do {
       m \<leftarrow> spi_flash_cmd (flash_cmd SPI_FLASH_CMD_WRITE_ENABLE) (cpu b);
       m \<leftarrow> neorv32_spi_cs_en SPI_FLASH_CS m;
       (_, m) \<leftarrow> neorv32_spi_transfer (flash_cmd SPI_FLASH_CMD_SECTOR_ERASE) m;
       m \<leftarrow> spi_flash_send_addr (g_flash_addr b) m;
       m \<leftarrow> neorv32_spi_cs_dis m;
       m \<leftarrow> spi_flash_wait m;
       erase_loop num_sectors (b\<lparr>cpu := m, g_flash_addr := g_flash_addr b + SPI_FLASH_SECTOR_SIZE\<rparr>)
     }"

definition num_sectors :: "u32 \<Rightarrow> u32" where
  "num_sectors exe_size = exe_size div SPI_FLASH_SECTOR_SIZE + 1"

definition spi_flash_erase :: "boot \<Rightarrow> (int \<times> boot) option" where
  "spi_flash_erase b =
     do {
       let b = b\<lparr>g_flash_addr := SPI_FLASH_BASE_ADDR\<rparr>;
       b \<leftarrow> erase_loop (unat (num_sectors (g_exe_size b))) b;
       Some (0, b\<lparr>g_flash_addr := SPI_FLASH_BASE_ADDR\<rparr>)
     }"

definition spi_flash_stream_get :: "boot \<Rightarrow> ((int \<times> u32) \<times> boot) option" where
  "spi_flash_stream_get b =
     do {
       m \<leftarrow> neorv32_spi_cs_en SPI_FLASH_CS (cpu b);
       (_, m) \<leftarrow> neorv32_spi_transfer (flash_cmd SPI_FLASH_CMD_READ) m;
       m \<leftarrow> spi_flash_send_addr (g_flash_addr b) m;
       (b0, m) \<leftarrow> neorv32_spi_transfer 0 m;
       (b1, m) \<leftarrow> neorv32_spi_transfer 0 m;
       (b2, m) \<leftarrow> neorv32_spi_transfer 0 m;
       (b3, m) \<leftarrow> neorv32_spi_transfer 0 m;
       m \<leftarrow> neorv32_spi_cs_dis m;
       Some ((0, join32 b0 b1 b2 b3), b\<lparr>cpu := m, g_flash_addr := g_flash_addr b + 4\<rparr>)
     }"

fun put_bytes :: "u8 list \<Rightarrow> boot \<Rightarrow> boot option" where
  "put_bytes [] b = Some b"
| "put_bytes (d # ds) b =
     do {
       m \<leftarrow> spi_flash_cmd (flash_cmd SPI_FLASH_CMD_WRITE_ENABLE) (cpu b);
       m \<leftarrow> neorv32_spi_cs_en SPI_FLASH_CS m;
       (_, m) \<leftarrow> neorv32_spi_transfer (flash_cmd SPI_FLASH_CMD_PAGE_PROGRAM) m;
       m \<leftarrow> spi_flash_send_addr (g_flash_addr b) m;
       (_, m) \<leftarrow> neorv32_spi_transfer d m;
       m \<leftarrow> neorv32_spi_cs_dis m;
       m \<leftarrow> spi_flash_wait m;
       put_bytes ds (b\<lparr>cpu := m, g_flash_addr := g_flash_addr b + 1\<rparr>)
     }"

definition spi_flash_stream_put :: "u32 \<Rightarrow> boot \<Rightarrow> (int \<times> boot) option" where
  "spi_flash_stream_put wdata b = do { b \<leftarrow> put_bytes (bytes32 wdata) b; Some (0, b) }"

section \<open>What goes over the bus\<close>

text \<open>A command session: select, the bytes, deselect.\<close>

definition flash_session :: "u8 list \<Rightarrow> spi_ev list" where
  "flash_session bs = [Cs 8] @ map Xfer bs @ [Cs 0]"

definition addr24 :: "u32 \<Rightarrow> u8 list" where
  "addr24 a = [byte32 a 2, byte32 a 1, byte32 a 0]"

text \<open>\<open>spi_go m m' evs\<close>: from one quiet state to the next with the given bus events.\<close>

definition spi_go :: "nat \<Rightarrow> nat \<Rightarrow> (spi_ev list \<Rightarrow> u8 \<Rightarrow> u8) \<Rightarrow> mach \<Rightarrow> mach \<Rightarrow> spi_ev list \<Rightarrow> bool" where
  "spi_go fd p slave m m' evs \<longleftrightarrow> spi_quiet fd p slave m'
     \<and> spi_line fd p slave m' = spi_line fd p slave m @ evs \<and> only_locs spi_locs m m'"

lemma spi_go_trans:
  "spi_go fd p slave m m1 e1 \<Longrightarrow> spi_go fd p slave m1 m2 e2 \<Longrightarrow> spi_go fd p slave m m2 (e1 @ e2)"
  by (auto simp: spi_go_def intro: only_locs_trans)

lemma go_quiet: "spi_go fd p slave m m' evs \<Longrightarrow> spi_quiet fd p slave m'"
  by (simp add: spi_go_def)

lemma go_line: "spi_go fd p slave m m' evs \<Longrightarrow> spi_line fd p slave m' = spi_line fd p slave m @ evs"
  by (simp add: spi_go_def)

lemma go_cs_en:
  assumes "spi_quiet fd p slave m"
  obtains m' where "neorv32_spi_cs_en SPI_FLASH_CS m = Some m'" "spi_go fd p slave m m' [Cs 8]"
  using spi_cs_en [OF assms, of SPI_FLASH_CS] by (auto simp: spi_go_def cs_code_def SPI_FLASH_CS_def)

lemma go_cs_dis:
  assumes "spi_quiet fd p slave m"
  obtains m' where "neorv32_spi_cs_dis m = Some m'" "spi_go fd p slave m m' [Cs 0]"
  using spi_cs_dis [OF assms] by (auto simp: spi_go_def)

lemma go_transfer:
  assumes "spi_quiet fd p slave m"
  obtains m' where "neorv32_spi_transfer b m = Some (slave (spi_line fd p slave m) b, m')"
    "spi_go fd p slave m m' [Xfer b]"
  using spi_transfer [OF assms, of b] by (auto simp: spi_go_def)

lemma go_addr:
  assumes "spi_quiet fd p slave m"
  obtains m' where "spi_flash_send_addr a m = Some m'" "spi_go fd p slave m m' (map Xfer (addr24 a))"
proof -
  obtain m1 where m1: "neorv32_spi_transfer (byte32 a 2) m = Some (slave (spi_line fd p slave m) (byte32 a 2), m1)"
    "spi_go fd p slave m m1 [Xfer (byte32 a 2)]" using go_transfer [OF assms] .
  obtain m2 where m2: "neorv32_spi_transfer (byte32 a 1) m1 = Some (slave (spi_line fd p slave m1) (byte32 a 1), m2)"
    "spi_go fd p slave m1 m2 [Xfer (byte32 a 1)]" using go_transfer [OF go_quiet [OF m1(2)]] .
  obtain m3 where m3: "neorv32_spi_transfer (byte32 a 0) m2 = Some (slave (spi_line fd p slave m2) (byte32 a 0), m3)"
    "spi_go fd p slave m2 m3 [Xfer (byte32 a 0)]" using go_transfer [OF go_quiet [OF m2(2)]] .
  have "spi_flash_send_addr a m = Some m3"
    using m2(1) by (simp add: spi_flash_send_addr_def m1(1) m3(1))
  moreover from spi_go_trans [OF spi_go_trans [OF m1(2) m2(2)] m3(2)]
  have "spi_go fd p slave m m3 (map Xfer (addr24 a))" by (simp add: addr24_def)
  ultimately show ?thesis by (rule that)
qed

lemma go_cmd:
  assumes "spi_quiet fd p slave m"
  obtains m' where "spi_flash_cmd c m = Some m'" "spi_go fd p slave m m' (flash_session [c])"
proof -
  obtain m1 where m1: "neorv32_spi_cs_en SPI_FLASH_CS m = Some m1" "spi_go fd p slave m m1 [Cs 8]"
    using go_cs_en [OF assms] .
  obtain m2 where m2: "neorv32_spi_transfer c m1 = Some (slave (spi_line fd p slave m1) c, m2)"
    "spi_go fd p slave m1 m2 [Xfer c]" using go_transfer [OF go_quiet [OF m1(2)]] .
  obtain m3 where m3: "neorv32_spi_cs_dis m2 = Some m3" "spi_go fd p slave m2 m3 [Cs 0]"
    using go_cs_dis [OF go_quiet [OF m2(2)]] .
  have "spi_flash_cmd c m = Some m3" by (simp add: spi_flash_cmd_def m1(1) m2(1) m3(1))
  moreover from spi_go_trans [OF spi_go_trans [OF m1(2) m2(2)] m3(2)]
  have "spi_go fd p slave m m3 (flash_session [c])" by (simp add: flash_session_def)
  ultimately show ?thesis by (rule that)
qed

lemma go_status:
  assumes "spi_quiet fd p slave m"
  obtains m' where "spi_flash_read_status m = Some (slave (spi_line fd p slave m @ [Cs 8, Xfer 5]) 0, m')"
    "spi_go fd p slave m m' (flash_session [5, 0])"
proof -
  obtain m1 where m1: "neorv32_spi_cs_en SPI_FLASH_CS m = Some m1" "spi_go fd p slave m m1 [Cs 8]"
    using go_cs_en [OF assms] .
  obtain m2 where m2: "neorv32_spi_transfer 5 m1 = Some (slave (spi_line fd p slave m1) 5, m2)"
    "spi_go fd p slave m1 m2 [Xfer 5]" using go_transfer [OF go_quiet [OF m1(2)]] .
  obtain m3 where m3: "neorv32_spi_transfer 0 m2 = Some (slave (spi_line fd p slave m2) 0, m3)"
    "spi_go fd p slave m2 m3 [Xfer 0]" using go_transfer [OF go_quiet [OF m2(2)]] .
  obtain m4 where m4: "neorv32_spi_cs_dis m3 = Some m4" "spi_go fd p slave m3 m4 [Cs 0]"
    using go_cs_dis [OF go_quiet [OF m3(2)]] .
  have "spi_line fd p slave m2 = spi_line fd p slave m @ [Cs 8, Xfer 5]"
    by (simp add: go_line [OF m1(2)] go_line [OF m2(2)])
  then have "spi_flash_read_status m = Some (slave (spi_line fd p slave m @ [Cs 8, Xfer 5]) 0, m4)"
    by (simp add: spi_flash_read_status_def m1(1) m2(1) m3(1) m4(1))
  moreover from spi_go_trans [OF spi_go_trans [OF spi_go_trans [OF m1(2) m2(2)] m3(2)] m4(2)]
  have "spi_go fd p slave m m4 (flash_session [5, 0])" by (simp add: flash_session_def)
  ultimately show ?thesis by (rule that)
qed

text \<open>The first bytes of a command with an address.\<close>

lemma go_addressed:
  assumes "spi_quiet fd p slave m"
  obtains m1 m2 m3 r where "neorv32_spi_cs_en SPI_FLASH_CS m = Some m1"
    "neorv32_spi_transfer c m1 = Some (r, m2)" "spi_flash_send_addr a m2 = Some m3"
    "spi_go fd p slave m m3 ([Cs 8] @ map Xfer (c # addr24 a))"
proof -
  obtain m1 where m1: "neorv32_spi_cs_en SPI_FLASH_CS m = Some m1" "spi_go fd p slave m m1 [Cs 8]"
    using go_cs_en [OF assms] .
  obtain m2 where m2: "neorv32_spi_transfer c m1 = Some (slave (spi_line fd p slave m1) c, m2)"
    "spi_go fd p slave m1 m2 [Xfer c]" using go_transfer [OF go_quiet [OF m1(2)]] .
  obtain m3 where m3: "spi_flash_send_addr a m2 = Some m3" "spi_go fd p slave m2 m3 (map Xfer (addr24 a))"
    using go_addr [OF go_quiet [OF m2(2)]] .
  from spi_go_trans [OF spi_go_trans [OF m1(2) m2(2)] m3(2)]
  have "spi_go fd p slave m m3 ([Cs 8] @ map Xfer (c # addr24 a))" by simp
  with m1(1) m2(1) m3(1) show ?thesis by (rule that)
qed

end
