(* ===== verification/Flash_Load.thy ===== *)
theory Flash_Load
  imports Spi_Flash
begin

text \<open>
  Reading the SPI flash: what the driver relies on of the chip, and what its set-up and
  \<open>spi_flash_stream_get\<close> do with a chip that keeps it.
\<close>

section \<open>The commands of a serial flash\<close>

text \<open>
  The chip is given by its answers, its content and its two status flags, all functions of
  what has happened on the bus.  Between sessions it is deselected.
\<close>

definition parked :: "spi_ev list \<Rightarrow> bool" where
  "parked H \<longleftrightarrow> H = [] \<or> last H = Cs 0"

record chip =
  answer :: "spi_ev list \<Rightarrow> u8 \<Rightarrow> u8"
  mem :: "spi_ev list \<Rightarrow> u32 \<Rightarrow> u8"
  busy :: "spi_ev list \<Rightarrow> bool"
  wel :: "spi_ev list \<Rightarrow> bool"

text \<open>Reading: the bytes from the address on, without effect.\<close>

definition chip_reads :: "chip \<Rightarrow> bool" where
  "chip_reads c \<longleftrightarrow> (\<forall>H a ds b. parked H \<longrightarrow> \<not> busy c H \<longrightarrow>
     (unat a + List.length ds < 2 ^ 24 \<longrightarrow>
       answer c (H @ [Cs 8] @ map Xfer (3 # addr24 a @ ds)) b = mem c H (a + of_nat (List.length ds)))
     \<and> mem c (H @ flash_session (3 # addr24 a @ ds)) = mem c H
     \<and> \<not> busy c (H @ flash_session (3 # addr24 a @ ds)))"

text \<open>Status: the busy flag in bit 0, the write-enable latch in bit 1; busy does not last.\<close>

definition chip_status :: "chip \<Rightarrow> bool" where
  "chip_status c \<longleftrightarrow> (\<forall>H. parked H \<longrightarrow>
     (bit (answer c (H @ [Cs 8, Xfer 5]) 0) 0 \<longleftrightarrow> busy c H)
     \<and> (bit (answer c (H @ [Cs 8, Xfer 5]) 0) 1 \<longleftrightarrow> wel c H)
     \<and> mem c (H @ flash_session [5, 0]) = mem c H
     \<and> (\<not> busy c H \<longrightarrow> \<not> busy c (H @ flash_session [5, 0]))
     \<and> (\<exists>n. \<not> busy c (H @ concat (replicate n (flash_session [5, 0])))))"

text \<open>Single-byte commands.\<close>

definition chip_commands :: "chip \<Rightarrow> bool" where
  "chip_commands c \<longleftrightarrow> (\<forall>H b. parked H \<longrightarrow> \<not> busy c H \<longrightarrow> b \<in> {4, 6, 0xab} \<longrightarrow>
     mem c (H @ flash_session [b]) = mem c H \<and> \<not> busy c (H @ flash_session [b])
     \<and> (b = 6 \<longrightarrow> wel c (H @ flash_session [b])) \<and> (b = 4 \<longrightarrow> \<not> wel c (H @ flash_session [b])))"

text \<open>Programming clears bits of one byte; erasing sets the sector of the address to ones.\<close>

definition chip_writes :: "chip \<Rightarrow> bool" where
  "chip_writes c \<longleftrightarrow> (\<forall>H a d. parked H \<longrightarrow> \<not> busy c H \<longrightarrow> wel c H \<longrightarrow> unat a < 2 ^ 24 \<longrightarrow>
     mem c (H @ flash_session (2 # addr24 a @ [d])) = (mem c H)(a := mem c H a AND d)
     \<and> mem c (H @ flash_session (0xd8 # addr24 a))
       = (\<lambda>x. if drop_bit 16 x = drop_bit 16 a then 0xff else mem c H x))"

definition flash_chip :: "chip \<Rightarrow> bool" where
  "flash_chip c \<longleftrightarrow> chip_reads c \<and> chip_status c \<and> chip_commands c \<and> chip_writes c"

definition flash_word :: "(u32 \<Rightarrow> u8) \<Rightarrow> u32 \<Rightarrow> u32" where
  "flash_word f a = join32 (f a) (f (a + 1)) (f (a + 2)) (f (a + 3))"

lemma parked_session [simp]: "parked (H @ flash_session bs)"
  by (simp add: parked_def flash_session_def)

section \<open>Reading a word\<close>

definition flash_idle :: "nat \<Rightarrow> nat \<Rightarrow> chip \<Rightarrow> mach \<Rightarrow> bool" where
  "flash_idle fd p c m \<longleftrightarrow> flash_chip c \<and> spi_quiet fd p (answer c) m
     \<and> parked (spi_line fd p (answer c) m) \<and> \<not> busy c (spi_line fd p (answer c) m)"

abbreviation (input) content :: "nat \<Rightarrow> nat \<Rightarrow> chip \<Rightarrow> mach \<Rightarrow> u32 \<Rightarrow> u8" where
  "content fd p c m \<equiv> mem c (spi_line fd p (answer c) m)"

lemma flash_get_word:
  assumes "flash_idle fd p c (cpu b)" "unat (g_flash_addr b) + 3 < 2 ^ 24"
  shows "\<exists>m'. spi_flash_stream_get b = Some ((0, flash_word (content fd p c (cpu b)) (g_flash_addr b)),
      b\<lparr>cpu := m', g_flash_addr := g_flash_addr b + 4\<rparr>)
    \<and> flash_idle fd p c m' \<and> content fd p c m' = content fd p c (cpu b)
    \<and> only_locs spi_locs (cpu b) m'"
proof -
  let ?a = "g_flash_addr b" and ?m = "cpu b" and ?s = "answer c"
  let ?H = "spi_line fd p ?s ?m"
  have i: "spi_quiet fd p ?s ?m" "parked ?H" "\<not> busy c ?H" "chip_reads c"
    using assms(1) by (simp_all add: flash_idle_def flash_chip_def)
  have r: "answer c (?H @ [Cs 8] @ map Xfer (3 # addr24 ?a @ ds)) b = mem c ?H (?a + of_nat (List.length ds))"
    if "List.length ds < 4" for ds b
    using i(2-4) assms(2) that by (simp add: chip_reads_def)
  obtain m1 m2 m3 r1 where m3: "neorv32_spi_cs_en SPI_FLASH_CS ?m = Some m1"
    "neorv32_spi_transfer 3 m1 = Some (r1, m2)" "spi_flash_send_addr ?a m2 = Some m3"
    "spi_go fd p ?s ?m m3 ([Cs 8] @ map Xfer (3 # addr24 ?a))"
    using go_addressed [OF i(1), of 3 ?a] by metis
  have l3: "spi_line fd p ?s m3 = ?H @ [Cs 8] @ map Xfer (3 # addr24 ?a @ [])" using go_line [OF m3(4)] by simp
  obtain m4 where m4: "neorv32_spi_transfer 0 m3 = Some (?s (spi_line fd p ?s m3) 0, m4)"
    "spi_go fd p ?s m3 m4 [Xfer 0]" using go_transfer [OF go_quiet [OF m3(4)]] .
  have l4: "spi_line fd p ?s m4 = ?H @ [Cs 8] @ map Xfer (3 # addr24 ?a @ [0])"
    by (simp add: go_line [OF m4(2)] l3)
  obtain m5 where m5: "neorv32_spi_transfer 0 m4 = Some (?s (spi_line fd p ?s m4) 0, m5)"
    "spi_go fd p ?s m4 m5 [Xfer 0]" using go_transfer [OF go_quiet [OF m4(2)]] .
  have l5: "spi_line fd p ?s m5 = ?H @ [Cs 8] @ map Xfer (3 # addr24 ?a @ [0, 0])"
    by (simp add: go_line [OF m5(2)] l4)
  obtain m6 where m6: "neorv32_spi_transfer 0 m5 = Some (?s (spi_line fd p ?s m5) 0, m6)"
    "spi_go fd p ?s m5 m6 [Xfer 0]" using go_transfer [OF go_quiet [OF m5(2)]] .
  have l6: "spi_line fd p ?s m6 = ?H @ [Cs 8] @ map Xfer (3 # addr24 ?a @ [0, 0, 0])"
    by (simp add: go_line [OF m6(2)] l5)
  obtain m7 where m7: "neorv32_spi_transfer 0 m6 = Some (?s (spi_line fd p ?s m6) 0, m7)"
    "spi_go fd p ?s m6 m7 [Xfer 0]" using go_transfer [OF go_quiet [OF m6(2)]] .
  obtain m8 where m8: "neorv32_spi_cs_dis m7 = Some m8" "spi_go fd p ?s m7 m8 [Cs 0]"
    using go_cs_dis [OF go_quiet [OF m7(2)]] .
  have go: "spi_go fd p ?s ?m m8 (flash_session (3 # addr24 ?a @ [0, 0, 0, 0]))"
    using spi_go_trans [OF m3(4) spi_go_trans [OF m4(2) spi_go_trans [OF m5(2)
          spi_go_trans [OF m6(2) spi_go_trans [OF m7(2) m8(2)]]]]]
    by (simp add: flash_session_def)
  have w: "join32 (?s (spi_line fd p ?s m3) 0) (?s (spi_line fd p ?s m4) 0)
      (?s (spi_line fd p ?s m5) 0) (?s (spi_line fd p ?s m6) 0) = flash_word (mem c ?H) ?a"
    unfolding l3 l4 l5 l6 flash_word_def using r [of "[]" 0] r [of "[0]" 0] r [of "[0, 0]" 0] r [of "[0, 0, 0]" 0]
    by simp
  have "spi_flash_stream_get b = Some ((0, flash_word (mem c ?H) ?a),
      b\<lparr>cpu := m8, g_flash_addr := ?a + 4\<rparr>)"
    unfolding w [symmetric] spi_flash_stream_get_def
    by (simp add: m3(1-3) m4(1) m5(1) m6(1) m7(1) m8(1))
  moreover have "spi_line fd p ?s m8 = ?H @ flash_session (3 # addr24 ?a @ [0, 0, 0, 0])"
    by (rule go_line [OF go])
  moreover have "mem c (?H @ flash_session (3 # addr24 ?a @ [0, 0, 0, 0])) = mem c ?H
      \<and> \<not> busy c (?H @ flash_session (3 # addr24 ?a @ [0, 0, 0, 0]))"
    using i(2-4) by (simp add: chip_reads_def)
  ultimately show ?thesis using assms(1) go by (auto simp: flash_idle_def spi_go_def)
qed

section \<open>Setting the flash up\<close>

text \<open>The selected chip is the one selected last.\<close>

definition cs_of :: "spi_ev list \<Rightarrow> u8" where
  "cs_of H = foldl (\<lambda>v e. case e of Cs w \<Rightarrow> w | Xfer _ \<Rightarrow> v) 0 H"

lemma cs_of_snoc [simp]: "cs_of (H @ [Cs v]) = v" "cs_of (H @ [Xfer b]) = cs_of H" "cs_of [] = 0"
  by (simp_all add: cs_of_def)

lemma spi_cs_inv: "s_cs (spi_state fd p slave h) = cs_of (s_line (spi_state fd p slave h))"
proof -
  have take: "s_cs d = cs_of (s_line d) \<Longrightarrow> s_cs (spi_take q d) = cs_of (s_line (spi_take q d))" for q d
    by (induction q d rule: spi_take.induct) simp_all
  have complete: "s_cs d = cs_of (s_line d) \<Longrightarrow>
      s_cs (spi_complete fd slave d) = cs_of (s_line (spi_complete fd slave d))" for d
    by (simp add: spi_complete_def split: option.split)
  have cycle: "s_cs d = cs_of (s_line d) \<Longrightarrow>
      s_cs (spi_cycle fd p slave n d) = cs_of (s_line (spi_cycle fd p slave n d))" for n d
    by (auto simp: spi_cycle_def Let_def take complete)
  have bus: "s_cs (spi_bus fd e d) = s_cs d" "s_line (spi_bus fd e d) = s_line d" for e d
    by (simp_all add: spi_bus_def split: event.split)
  show ?thesis by (induction h) (simp_all add: spi_init_def cycle bus)
qed

lemma parked_cs: "parked H \<Longrightarrow> cs_of H = 0"
  unfolding parked_def by (metis append_butlast_last_id cs_of_snoc(1,3))

text \<open>Before the set-up: nothing in progress.\<close>

definition flash_ready :: "nat \<Rightarrow> nat \<Rightarrow> chip \<Rightarrow> mach \<Rightarrow> bool" where
  "flash_ready fd p c m \<longleftrightarrow> flash_chip c \<and> spi_wired fd p (answer c) m
     \<and> s_tx (spi_at fd p (answer c) m) = [] \<and> s_eng (spi_at fd p (answer c) m) = None
     \<and> parked (spi_line fd p (answer c) m) \<and> \<not> busy c (spi_line fd p (answer c) m)"

lemma flash_idle_ready: "flash_idle fd p c m \<Longrightarrow> flash_ready fd p c m"
  by (simp add: flash_idle_def flash_ready_def spi_quiet_def Let_def)

lemma soc_spi_distinct [simp]: "SYSINFO_SOC \<noteq> SPI_CTRL" "SYSINFO_SOC \<noteq> SPI_DATA"
  "SPI_CTRL \<noteq> SYSINFO_SOC" "SPI_DATA \<noteq> SYSINFO_SOC"
  by (simp_all add: spi_regs SYSINFO_SOC_def NEORV32_SYSINFO_BASE_def)

lemma spi_setup_quiet:
  assumes "flash_ready fd p c m"
  shows "spi_quiet fd p (answer c) (neorv32_spi_setup x y 0 0 m)"
    "spi_line fd p (answer c) (neorv32_spi_setup x y 0 0 m) = spi_line fd p (answer c) m"
    "only_locs spi_locs m (neorv32_spi_setup x y 0 0 m)"
proof -
  let ?s = "answer c" and ?d = "spi_at fd p (answer c) m"
  obtain w where w: "neorv32_spi_setup x y 0 0 m = wr SPI_CTRL w (wr SPI_CTRL 0 m)" "bit w 0"
    by (simp add: neorv32_spi_setup_def Let_def bit_or_iff)
  have cs: "s_cs ?d = 0" using assms spi_cs_inv [of fd p ?s "log m"] parked_cs
    by (simp add: flash_ready_def spi_line_def)
  have s1: "spi_at fd p ?s (wr SPI_CTRL 0 m) = ?d\<lparr>s_ctrl := 0, s_tx := [], s_rx := [], s_eng := None\<rparr>"
    using cs by (cases ?d) (simp add: wr_def spi_bus_def spi_cycle_def s_en_def)
  have "bit (w AND 0x3ff) 0" using w(2) by (simp add: bit_and_iff)
  then have s2: "spi_at fd p ?s (wr SPI_CTRL w (wr SPI_CTRL 0 m))
      = ?d\<lparr>s_ctrl := w AND 0x3ff, s_tx := [], s_rx := [], s_eng := None\<rparr>"
    using s1 by (simp add: wr_def spi_bus_def spi_cycle_quiet s_en_def)
  show "spi_quiet fd p ?s (neorv32_spi_setup x y 0 0 m)"
    "spi_line fd p ?s (neorv32_spi_setup x y 0 0 m) = spi_line fd p ?s m"
    using s2 \<open>bit (w AND 0x3ff) 0\<close> assms unfolding w(1)
    by (simp_all add: spi_quiet_def spi_line_def s_en_def flash_ready_def spi_wired_def)
  show "only_locs spi_locs m (neorv32_spi_setup x y 0 0 m)"
    unfolding w(1) by (rule only_locs_trans [OF only_locs_wr only_locs_wr]) (simp_all add: spi_locs_def)
qed

text \<open>A command session on an idle chip.\<close>

lemma flash_command:
  assumes "flash_idle fd p c m" "b \<in> {4, 6, 0xab}"
  obtains m' where "spi_flash_cmd b m = Some m'" "flash_idle fd p c m'" "content fd p c m' = content fd p c m"
    "only_locs spi_locs m m'" "b = 6 \<Longrightarrow> wel c (spi_line fd p (answer c) m')"
    "b = 4 \<Longrightarrow> \<not> wel c (spi_line fd p (answer c) m')"
proof -
  obtain m' where m': "spi_flash_cmd b m = Some m'" "spi_go fd p (answer c) m m' (flash_session [b])"
    using go_cmd [of fd p "answer c" m b] assms(1) by (auto simp: flash_idle_def)
  with assms show ?thesis using go_line [OF m'(2)] go_quiet [OF m'(2)]
    by (intro that [of m']) (auto simp: flash_idle_def flash_chip_def chip_commands_def spi_go_def)
qed

lemma flash_status:
  assumes "flash_idle fd p c m"
  obtains m' s where "spi_flash_read_status m = Some (s, m')" "flash_idle fd p c m'"
    "content fd p c m' = content fd p c m" "only_locs spi_locs m m'"
    "bit s 1 \<longleftrightarrow> wel c (spi_line fd p (answer c) m)"
proof -
  obtain m' where m': "spi_flash_read_status m = Some (answer c (spi_line fd p (answer c) m @ [Cs 8, Xfer 5]) 0, m')"
    "spi_go fd p (answer c) m m' (flash_session [5, 0])"
    using go_status [of fd p "answer c" m] assms by (auto simp: flash_idle_def)
  show ?thesis
    by (rule that [OF m'(1)]) (use assms m'(2) go_line [OF m'(2)] in
        \<open>auto simp: flash_idle_def flash_chip_def chip_status_def spi_go_def\<close>)
qed

lemma flash_setup:
  assumes "flash_ready fd p c (cpu b)" "\<forall>h. bit (hw (cpu b) h SYSINFO_SOC) (sysinfo_soc SYSINFO_SOC_IO_SPI)"
  shows "\<exists>m'. spi_flash_setup b = Some (0, b\<lparr>cpu := m', g_flash_addr := SPI_FLASH_BASE_ADDR\<rparr>)
    \<and> flash_idle fd p c m' \<and> content fd p c m' = content fd p c (cpu b)
    \<and> only_locs (insert SYSINFO_SOC spi_locs) (cpu b) m'"
proof -
  let ?m0 = "snd (rd SYSINFO_SOC (cpu b))"
  let ?m1 = "neorv32_spi_setup SPI_FLASH_CLK_PRSC SPI_FLASH_CLK_DIV 0 0 ?m0"
  obtain a where av: "neorv32_spi_available (cpu b) = (a, ?m0)" "a \<noteq> 0"
    using assms(2) by (simp add: neorv32_spi_available_def soc_test_def rd_def rd_val_def)
  have s0: "spi_at fd p (answer c) ?m0 = (if s_en (spi_at fd p (answer c) (cpu b)) then spi_at fd p (answer c) (cpu b)
      else spi_at fd p (answer c) (cpu b)\<lparr>s_rx := []\<rparr>)"
    using assms(1) spi_cs_inv [of fd p "answer c" "log (cpu b)"] parked_cs [of "spi_line fd p (answer c) (cpu b)"]
    by (cases "spi_at fd p (answer c) (cpu b)")
      (simp add: rd_def spi_bus_def spi_cycle_quiet flash_ready_def spi_line_def spi_cycle_def
        spi_complete_def Let_def)
  have r0: "flash_ready fd p c ?m0" "spi_line fd p (answer c) ?m0 = spi_line fd p (answer c) (cpu b)"
    using assms(1) s0 by (simp_all add: flash_ready_def spi_line_def spi_wired_def)
  note q = spi_setup_quiet [OF r0(1), of SPI_FLASH_CLK_PRSC SPI_FLASH_CLK_DIV]
  have i1: "flash_idle fd p c ?m1" "content fd p c ?m1 = content fd p c (cpu b)"
    using r0 q(1,2) by (simp_all add: flash_idle_def flash_ready_def)
  obtain m2 where m2: "spi_flash_cmd 0xab ?m1 = Some m2" "flash_idle fd p c m2"
    "content fd p c m2 = content fd p c ?m1" "only_locs spi_locs ?m1 m2"
    using flash_command [OF i1(1), of "0xab"] by auto
  obtain m3 where m3: "spi_flash_cmd 6 m2 = Some m3" "flash_idle fd p c m3"
    "content fd p c m3 = content fd p c m2" "only_locs spi_locs m2 m3"
    "wel c (spi_line fd p (answer c) m3)"
    using flash_command [OF m2(2), of 6] by auto
  obtain m4 s4 where m4: "spi_flash_read_status m3 = Some (s4, m4)" "flash_idle fd p c m4"
    "content fd p c m4 = content fd p c m3" "only_locs spi_locs m3 m4" "bit s4 1"
    using flash_status [OF m3(2)] m3(5) by metis
  obtain m5 where m5: "spi_flash_cmd 4 m4 = Some m5" "flash_idle fd p c m5"
    "content fd p c m5 = content fd p c m4" "only_locs spi_locs m4 m5"
    "\<not> wel c (spi_line fd p (answer c) m5)"
    using flash_command [OF m4(2), of 4] by auto
  obtain m6 s6 where m6: "spi_flash_read_status m5 = Some (s6, m6)" "flash_idle fd p c m6"
    "content fd p c m6 = content fd p c m5" "only_locs spi_locs m5 m6" "\<not> bit s6 1"
    using flash_status [OF m5(2)] m5(5) by metis
  have "spi_flash_setup b = Some (0, b\<lparr>cpu := m6, g_flash_addr := SPI_FLASH_BASE_ADDR\<rparr>)"
    using m4(5) m6(5)
    by (simp add: spi_flash_setup_def av m2(1) m3(1) m4(1) m5(1) m6(1) FLASH_SREG_WEL_def)
  moreover have "only_locs (insert SYSINFO_SOC spi_locs) (cpu b) m6"
  proof -
    have "only_locs spi_locs ?m0 m6"
      using q(3) m2(4) m3(4) m4(4) m5(4) m6(4) by (blast intro: only_locs_trans)
    then have "only_locs (insert SYSINFO_SOC spi_locs) ?m0 m6" by (rule only_locs_mono) blast
    moreover have "only_locs (insert SYSINFO_SOC spi_locs) (cpu b) ?m0" by (rule only_locs_rd) simp
    ultimately show ?thesis using only_locs_trans by blast
  qed
  ultimately show ?thesis using m6(2,3) m5(3) m4(3) m3(3) m2(3) i1(2) by auto
qed

section \<open>Events elsewhere\<close>

lemma flash_foreign:
  assumes "only_locs L m m'" "L \<inter> spi_locs = {}" "flash_idle fd p c m"
  shows "flash_idle fd p c m'" "content fd p c m' = content fd p c m"
  using spi_quiet_foreign [OF assms(1,2)] assms(3) by (simp_all add: flash_idle_def)

lemma console_spi_disjoint: "console_locs \<inter> spi_locs = {}"
  by (simp add: console_locs_def spi_locs_def UART0_def UART_CTRL_def UART_DATA_def
      NEORV32_UART0_BASE_def spi_regs SYSINFO_SOC_def NEORV32_SYSINFO_BASE_def)

end
