(* ===== verification/Flash_Store.thy ===== *)
theory Flash_Store
  imports Flash_Load
begin

text \<open>
  Erasing and programming the SPI flash: what \<open>spi_flash_erase\<close> and
  \<open>spi_flash_stream_put\<close> do to the content of the chip, byte by byte and as words.
\<close>

section \<open>Waiting\<close>

lemma flash_wait:
  assumes "flash_chip c" "spi_quiet fd p (answer c) m" "parked (spi_line fd p (answer c) m)"
  obtains m' where "spi_flash_wait m = Some m'" "flash_idle fd p c m'" "content fd p c m' = content fd p c m"
    "only_locs spi_locs m m'"
proof -
  let ?L = "spi_line fd p (answer c)" and ?S = "flash_session [5, 0]"
  have st: "chip_status c" using assms(1) by (simp add: flash_chip_def)
  then obtain n where n: "\<not> busy c (?L m @ concat (replicate n ?S))"
    using assms(3) by (auto simp: chip_status_def)
  have "\<exists>m'. spi_flash_wait m = Some m' \<and> flash_idle fd p c m' \<and> content fd p c m' = content fd p c m
      \<and> only_locs spi_locs m m'"
    using assms(2,3) n
  proof (induction n arbitrary: m rule: nat.induct)
    case (zero m)
    from go_status [OF zero(1)] obtain m1 where
      m1: "spi_flash_read_status m = Some (answer c (?L m @ [Cs 8, Xfer 5]) 0, m1)"
      "spi_go fd p (answer c) m m1 ?S" by blast
    have "\<not> bit (answer c (?L m @ [Cs 8, Xfer 5]) 0) FLASH_SREG_BUSY" "mem c (?L m @ ?S) = mem c (?L m)"
      "\<not> busy c (?L m @ ?S)"
      using st zero(2,3) by (simp_all add: chip_status_def FLASH_SREG_BUSY_def)
    with m1 assms(1) show ?case
      by (subst spi_flash_wait.simps) (auto simp: go_line [OF m1(2)] flash_idle_def spi_go_def)
  next
    case (Suc n m)
    from go_status [OF Suc.prems(1)] obtain m1 where
      m1: "spi_flash_read_status m = Some (answer c (?L m @ [Cs 8, Xfer 5]) 0, m1)"
      "spi_go fd p (answer c) m m1 ?S" by blast
    have l1: "?L m1 = ?L m @ ?S" by (rule go_line [OF m1(2)])
    have b: "bit (answer c (?L m @ [Cs 8, Xfer 5]) 0) FLASH_SREG_BUSY \<longleftrightarrow> busy c (?L m)"
      "mem c (?L m @ ?S) = mem c (?L m)" "\<not> busy c (?L m) \<Longrightarrow> \<not> busy c (?L m @ ?S)"
      using st Suc.prems(2) by (simp_all add: chip_status_def FLASH_SREG_BUSY_def)
    show ?case
    proof (cases "busy c (?L m)")
      case True
      have "\<not> busy c (?L m1 @ concat (replicate n ?S))" using Suc.prems(3) by (simp add: l1)
      from Suc.IH [OF go_quiet [OF m1(2)] _ this] obtain m' where
        "spi_flash_wait m1 = Some m'" "flash_idle fd p c m'" "content fd p c m' = content fd p c m1"
        "only_locs spi_locs m1 m'" by (auto simp: l1)
      moreover have "spi_flash_wait m = spi_flash_wait m1"
        using m1(1) b(1) True by (subst spi_flash_wait.simps) simp
      ultimately show ?thesis using m1(2) b(2) by (auto simp: l1 spi_go_def intro: only_locs_trans)
    next
      case False
      with m1 b assms(1) show ?thesis
        by (subst spi_flash_wait.simps) (auto simp: l1 flash_idle_def spi_go_def)
    qed
  qed
  then show ?thesis using that by blast
qed

section \<open>Programming and erasing\<close>

lemma flash_program:
  assumes "flash_idle fd p c (cpu b)" "unat (g_flash_addr b) < 2 ^ 24"
  shows "\<exists>m'. put_bytes [d] b = Some (b\<lparr>cpu := m', g_flash_addr := g_flash_addr b + 1\<rparr>)
    \<and> flash_idle fd p c m' \<and> only_locs spi_locs (cpu b) m'
    \<and> content fd p c m' = (content fd p c (cpu b))
        (g_flash_addr b := content fd p c (cpu b) (g_flash_addr b) AND d)"
proof -
  let ?a = "g_flash_addr b" and ?s = "answer c"
  obtain m1 where m1: "spi_flash_cmd 6 (cpu b) = Some m1" "flash_idle fd p c m1"
    "content fd p c m1 = content fd p c (cpu b)" "only_locs spi_locs (cpu b) m1"
    "wel c (spi_line fd p ?s m1)" using flash_command [OF assms(1), of 6] by auto
  have i1: "spi_quiet fd p ?s m1" "parked (spi_line fd p ?s m1)" "\<not> busy c (spi_line fd p ?s m1)"
    "chip_writes c" "flash_chip c" using m1(2) by (simp_all add: flash_idle_def flash_chip_def)
  obtain m2 m3 m4 r where m4: "neorv32_spi_cs_en SPI_FLASH_CS m1 = Some m2"
    "neorv32_spi_transfer 2 m2 = Some (r, m3)" "spi_flash_send_addr ?a m3 = Some m4"
    "spi_go fd p ?s m1 m4 ([Cs 8] @ map Xfer (2 # addr24 ?a))" using go_addressed [OF i1(1)] by metis
  obtain m5 where m5: "neorv32_spi_transfer d m4 = Some (?s (spi_line fd p ?s m4) d, m5)"
    "spi_go fd p ?s m4 m5 [Xfer d]" using go_transfer [OF go_quiet [OF m4(4)]] .
  obtain m6 where m6: "neorv32_spi_cs_dis m5 = Some m6" "spi_go fd p ?s m5 m6 [Cs 0]"
    using go_cs_dis [OF go_quiet [OF m5(2)]] .
  have go: "spi_go fd p ?s m1 m6 (flash_session (2 # addr24 ?a @ [d]))"
    using spi_go_trans [OF m4(4) spi_go_trans [OF m5(2) m6(2)]] by (simp add: flash_session_def)
  obtain m7 where m7: "spi_flash_wait m6 = Some m7" "flash_idle fd p c m7"
    "content fd p c m7 = content fd p c m6" "only_locs spi_locs m6 m7"
    by (rule flash_wait [OF i1(5) go_quiet [OF go]]) (simp_all add: go_line [OF go])
  have "content fd p c m6 = (content fd p c m1)(?a := content fd p c m1 ?a AND d)"
    unfolding go_line [OF go] using i1(2-4) m1(5) assms(2) by (simp add: chip_writes_def)
  moreover have "only_locs spi_locs (cpu b) m7"
    using m1(4) go m7(4) by (auto simp: spi_go_def intro: only_locs_trans)
  ultimately show ?thesis using m1(1,3) m4(1-3) m5(1) m6(1) m7(1-3) by (intro exI [of _ m7]) simp
qed

lemma flash_erase_sector:
  assumes "flash_idle fd p c (cpu b)" "unat (g_flash_addr b) < 2 ^ 24"
  shows "\<exists>m'. erase_loop (Suc n) b = erase_loop n (b\<lparr>cpu := m', g_flash_addr := g_flash_addr b + SPI_FLASH_SECTOR_SIZE\<rparr>)
    \<and> flash_idle fd p c m' \<and> only_locs spi_locs (cpu b) m'
    \<and> content fd p c m' = (\<lambda>x. if drop_bit 16 x = drop_bit 16 (g_flash_addr b) then 0xff
        else content fd p c (cpu b) x)"
proof -
  let ?a = "g_flash_addr b" and ?s = "answer c"
  obtain m1 where m1: "spi_flash_cmd 6 (cpu b) = Some m1" "flash_idle fd p c m1"
    "content fd p c m1 = content fd p c (cpu b)" "only_locs spi_locs (cpu b) m1"
    "wel c (spi_line fd p ?s m1)" using flash_command [OF assms(1), of 6] by auto
  have i1: "spi_quiet fd p ?s m1" "parked (spi_line fd p ?s m1)" "\<not> busy c (spi_line fd p ?s m1)"
    "chip_writes c" "flash_chip c" using m1(2) by (simp_all add: flash_idle_def flash_chip_def)
  obtain m2 m3 m4 r where m4: "neorv32_spi_cs_en SPI_FLASH_CS m1 = Some m2"
    "neorv32_spi_transfer 0xd8 m2 = Some (r, m3)" "spi_flash_send_addr ?a m3 = Some m4"
    "spi_go fd p ?s m1 m4 ([Cs 8] @ map Xfer (0xd8 # addr24 ?a))" using go_addressed [OF i1(1)] by metis
  obtain m6 where m6: "neorv32_spi_cs_dis m4 = Some m6" "spi_go fd p ?s m4 m6 [Cs 0]"
    using go_cs_dis [OF go_quiet [OF m4(4)]] .
  have go: "spi_go fd p ?s m1 m6 (flash_session (0xd8 # addr24 ?a))"
    using spi_go_trans [OF m4(4) m6(2)] by (simp add: flash_session_def)
  obtain m7 where m7: "spi_flash_wait m6 = Some m7" "flash_idle fd p c m7"
    "content fd p c m7 = content fd p c m6" "only_locs spi_locs m6 m7"
    by (rule flash_wait [OF i1(5) go_quiet [OF go]]) (simp_all add: go_line [OF go])
  have "content fd p c m6 = (\<lambda>x. if drop_bit 16 x = drop_bit 16 ?a then 0xff else content fd p c m1 x)"
    unfolding go_line [OF go] using i1(2-4) m1(5) assms(2) by (simp add: chip_writes_def)
  then have "content fd p c m6 = (\<lambda>x. if drop_bit 16 x = drop_bit 16 ?a then 0xff else content fd p c (cpu b) x)"
    by (simp only: m1(3))
  moreover have "only_locs spi_locs (cpu b) m7"
    using m1(4) go m7(4) by (auto simp: spi_go_def intro: only_locs_trans)
  ultimately show ?thesis using m1(1) m4(1-3) m6(1) m7(1-3) by (intro exI [of _ m7]) simp
qed

text \<open>What an erase leaves: the sectors from the base address on, and nothing else.\<close>

definition erased_by :: "nat \<Rightarrow> u32 \<Rightarrow> u32 \<Rightarrow> bool" where
  "erased_by n a x \<longleftrightarrow> (\<exists>i < n. drop_bit 16 x = drop_bit 16 (a + of_nat i * SPI_FLASH_SECTOR_SIZE))"

definition wiped :: "nat \<Rightarrow> u32 \<Rightarrow> (u32 \<Rightarrow> u8) \<Rightarrow> u32 \<Rightarrow> u8" where
  "wiped n a f = (\<lambda>x. if erased_by n a x then 0xff else f x)"

lemma erased_by_Suc: "erased_by (Suc n) a x \<longleftrightarrow>
    drop_bit 16 x = drop_bit 16 a \<or> erased_by n (a + SPI_FLASH_SECTOR_SIZE) x"
proof -
  have s: "a + of_nat (Suc i) * SPI_FLASH_SECTOR_SIZE
      = a + SPI_FLASH_SECTOR_SIZE + of_nat i * SPI_FLASH_SECTOR_SIZE" for i :: nat
    by (simp add: distrib_right add.assoc)
  show ?thesis unfolding erased_by_def Ex_less_Suc2 s by simp
qed

lemma flash_erase_loop:
  assumes "flash_idle fd p c (cpu b)" "unat (g_flash_addr b) + 0x10000 * n < 2 ^ 24 + 0x10000"
  shows "\<exists>m' a'. erase_loop n b = Some (b\<lparr>cpu := m', g_flash_addr := a'\<rparr>)
    \<and> flash_idle fd p c m' \<and> only_locs spi_locs (cpu b) m'
    \<and> content fd p c m' = wiped n (g_flash_addr b) (content fd p c (cpu b))"
  using assms
proof (induction n arbitrary: b)
  case 0
  then show ?case
    by (intro exI [of _ "cpu b"] exI [of _ "g_flash_addr b"]) (simp add: wiped_def erased_by_def)
next
  case (Suc n)
  let ?a = "g_flash_addr b"
  have lt: "unat ?a < 2 ^ 24" using Suc.prems(2) by simp
  from flash_erase_sector [OF Suc.prems(1) lt] obtain m1 where m1:
    "erase_loop (Suc n) b = erase_loop n (b\<lparr>cpu := m1, g_flash_addr := ?a + SPI_FLASH_SECTOR_SIZE\<rparr>)"
    "flash_idle fd p c m1" "only_locs spi_locs (cpu b) m1"
    "content fd p c m1 = (\<lambda>x. if drop_bit 16 x = drop_bit 16 ?a then 0xff else content fd p c (cpu b) x)"
    by blast
  let ?b1 = "b\<lparr>cpu := m1, g_flash_addr := ?a + SPI_FLASH_SECTOR_SIZE\<rparr>"
  have "unat (?a + SPI_FLASH_SECTOR_SIZE) = unat ?a + 0x10000"
    using lt by (simp add: unat_word_ariths SPI_FLASH_SECTOR_SIZE_def)
  then have "unat (g_flash_addr ?b1) + 0x10000 * n < 2 ^ 24 + 0x10000" using Suc.prems(2) by simp
  with Suc.IH [of ?b1] m1(2) obtain m' a' where m': "erase_loop n ?b1 = Some (?b1\<lparr>cpu := m', g_flash_addr := a'\<rparr>)"
    "flash_idle fd p c m'" "only_locs spi_locs m1 m'"
    "content fd p c m' = wiped n (?a + SPI_FLASH_SECTOR_SIZE) (content fd p c m1)"
    by auto
  have "content fd p c m' = wiped (Suc n) ?a (content fd p c (cpu b))"
    unfolding m'(4) m1(4) wiped_def erased_by_Suc by auto
  with m' m1 show ?case
    by (intro exI [of _ m'] exI [of _ a']) (auto intro: only_locs_trans)
qed

text \<open>The erase of the driver, for every size that fits the chip.\<close>

lemma flash_erase:
  assumes "flash_idle fd p c (cpu b)" "unat (g_exe_size b) < 0xc00000"
  shows "\<exists>m'. spi_flash_erase b = Some (0, b\<lparr>cpu := m', g_flash_addr := SPI_FLASH_BASE_ADDR\<rparr>)
    \<and> flash_idle fd p c m' \<and> only_locs spi_locs (cpu b) m'
    \<and> content fd p c m' = wiped (unat (g_exe_size b) div 0x10000 + 1) SPI_FLASH_BASE_ADDR (content fd p c (cpu b))"
proof -
  have n: "unat (num_sectors (g_exe_size b)) = unat (g_exe_size b) div 0x10000 + 1"
  proof -
    have "unat (g_exe_size b div SPI_FLASH_SECTOR_SIZE) = unat (g_exe_size b) div 0x10000"
      by (simp add: unat_div SPI_FLASH_SECTOR_SIZE_def)
    moreover have "unat (g_exe_size b) div 0x10000 < 0xc0" using assms(2) by (simp add: less_mult_imp_div_less)
    ultimately show ?thesis by (simp add: num_sectors_def unat_word_ariths)
  qed
  let ?b = "b\<lparr>g_flash_addr := SPI_FLASH_BASE_ADDR\<rparr>"
  have "unat (g_exe_size b) div 0x10000 < 0xc0" using assms(2) by (simp add: less_mult_imp_div_less)
  then have "unat (g_flash_addr ?b) + 0x10000 * (unat (g_exe_size b) div 0x10000 + 1) < 2 ^ 24 + 0x10000"
    by (simp add: SPI_FLASH_BASE_ADDR_def)
  moreover have "flash_idle fd p c (cpu ?b)" using assms(1) by simp
  ultimately have "\<exists>m' a'. erase_loop (unat (g_exe_size b) div 0x10000 + 1) ?b = Some (?b\<lparr>cpu := m', g_flash_addr := a'\<rparr>)
      \<and> flash_idle fd p c m' \<and> only_locs spi_locs (cpu ?b) m'
      \<and> content fd p c m' = wiped (unat (g_exe_size b) div 0x10000 + 1) (g_flash_addr ?b) (content fd p c (cpu ?b))" by (intro flash_erase_loop)
  then obtain m' a' where
    "erase_loop (unat (g_exe_size b) div 0x10000 + 1) ?b = Some (?b\<lparr>cpu := m', g_flash_addr := a'\<rparr>)"
    "flash_idle fd p c m'" "only_locs spi_locs (cpu b) m'"
    "content fd p c m' = wiped (unat (g_exe_size b) div 0x10000 + 1) SPI_FLASH_BASE_ADDR (content fd p c (cpu b))" by (auto simp del: erase_loop.simps Suc_eq_plus1 add_2_eq_Suc' Suc_eq_plus1_left)
  then show ?thesis
    by (intro exI [of _ m']) (simp add: spi_flash_erase_def n del: erase_loop.simps)
qed

section \<open>Words in the flash\<close>

definition cell_addr :: "nat \<Rightarrow> nat \<Rightarrow> u32" where
  "cell_addr j i = SPI_FLASH_BASE_ADDR + of_nat (4 * j) + of_nat i"

lemma unat_cell_addr: "j < 0x300000 \<Longrightarrow> i < 4 \<Longrightarrow> unat (cell_addr j i) = 0x400000 + 4 * j + i"
proof -
  assume b: "j < 0x300000" "i < 4"
  have "cell_addr j i = of_nat (0x400000 + 4 * j + i)" by (simp add: cell_addr_def SPI_FLASH_BASE_ADDR_def)
  moreover have "unat (of_nat (0x400000 + 4 * j + i) :: u32) = 0x400000 + 4 * j + i"
    using b by (intro unat_of_nat_small) simp
  ultimately show ?thesis by (simp only:)
qed

lemma cell_addr_inj:
  assumes "j < 0x300000" "i < 4" "k < 0x300000" "l < 4"
  shows "cell_addr j i = cell_addr k l \<longleftrightarrow> j = k \<and> i = l"
proof
  assume "cell_addr j i = cell_addr k l"
  then have "unat (cell_addr j i) = unat (cell_addr k l)" by simp
  with assms have "4 * j + i = 4 * k + l" by (simp only: unat_cell_addr)
  with assms(2,4) show "j = k \<and> i = l" by presburger
qed simp

lemma cell_addr_succ: "cell_addr j 0 + 1 = cell_addr j 1" "cell_addr j 1 + 1 = cell_addr j 2"
  "cell_addr j 2 + 1 = cell_addr j 3" "cell_addr j 3 + 1 = cell_addr j 4"
  by (simp_all add: cell_addr_def)

definition flash_cell :: "(u32 \<Rightarrow> u8) \<Rightarrow> nat \<Rightarrow> u32" where
  "flash_cell f k = (if k < 0x300000 then join32 (f (cell_addr k 0)) (f (cell_addr k 1)) (f (cell_addr k 2)) (f (cell_addr k 3)) else 0)"

definition flash_blank :: "(u32 \<Rightarrow> u8) \<Rightarrow> nat \<Rightarrow> bool" where
  "flash_blank f k \<longleftrightarrow> k < 0x300000 \<and> (\<forall>i < 4. f (cell_addr k i) = 0xff)"

lemma put_bytes_Cons: "put_bytes (d # ds) b = do { b \<leftarrow> put_bytes [d] b; put_bytes ds b }"
  by (simp split: Option.bind_splits)

lemma flash_put_word:
  assumes "flash_idle fd p c (cpu b)" "g_flash_addr b = cell_addr k 0" "k < 0x300000"
    and "flash_blank (content fd p c (cpu b)) k"
  shows "\<exists>m'. spi_flash_stream_put w b = Some (0, b\<lparr>cpu := m', g_flash_addr := cell_addr (Suc k) 0\<rparr>)
    \<and> flash_idle fd p c m' \<and> only_locs spi_locs (cpu b) m'
    \<and> flash_cell (content fd p c m') = (flash_cell (content fd p c (cpu b)))(k := w)
    \<and> (\<forall>j. j \<noteq> k \<longrightarrow> flash_blank (content fd p c (cpu b)) j \<longrightarrow> flash_blank (content fd p c m') j)"
proof -
  let ?f = "content fd p c (cpu b)"
  have f: "?f (cell_addr k i) = 0xff" if "i < 4" for i using assms(4) that by (simp add: flash_blank_def)
  have lt: "unat (cell_addr k i) < 2 ^ 24" if "i < 4" for i
    using unat_cell_addr [OF assms(3) that] assms(3) that by simp
  have ones: "(0xff :: u8) AND d = d" for d
  proof -
    have "(0xff :: u8) = mask 8" by (simp add: mask_eq_exp_minus_1)
    then show ?thesis by (simp only: bit_eq_iff) (auto simp: bit_simps)
  qed
  have ne: "cell_addr k i = cell_addr k j \<longleftrightarrow> i = j" if "i < 4" "j < 4" for i j
    using cell_addr_inj assms(3) that by blast
  from flash_program [OF assms(1), of "byte32 w 0"] lt [of 0] obtain m0 where m0:
    "put_bytes [byte32 w 0] b = Some (b\<lparr>cpu := m0, g_flash_addr := cell_addr k 1\<rparr>)"
    "flash_idle fd p c m0" "only_locs spi_locs (cpu b) m0"
    "content fd p c m0 = ?f (cell_addr k 0 := byte32 w 0)"
    using assms(2) f [of 0] ones by (auto simp: cell_addr_succ cell_addr_succ(2) [simplified])
  from flash_program [of fd p c "b\<lparr>cpu := m0, g_flash_addr := cell_addr k 1\<rparr>" "byte32 w 1"] lt [of 1] m0(2) obtain m1 where m1:
    "put_bytes [byte32 w 1] (b\<lparr>cpu := m0, g_flash_addr := cell_addr k 1\<rparr>) = Some (b\<lparr>cpu := m1, g_flash_addr := cell_addr k 2\<rparr>)"
    "flash_idle fd p c m1" "only_locs spi_locs m0 m1"
    "content fd p c m1 = (content fd p c m0)(cell_addr k 1 := byte32 w 1)"
    using f [of 1] ones ne [of 1 0] by (auto simp: cell_addr_succ cell_addr_succ(2) [simplified] m0(4) simp del: put_bytes.simps)
  from flash_program [of fd p c "b\<lparr>cpu := m1, g_flash_addr := cell_addr k 2\<rparr>" "byte32 w 2"] lt [of 2] m1(2) obtain m2 where m2:
    "put_bytes [byte32 w 2] (b\<lparr>cpu := m1, g_flash_addr := cell_addr k 2\<rparr>) = Some (b\<lparr>cpu := m2, g_flash_addr := cell_addr k 3\<rparr>)"
    "flash_idle fd p c m2" "only_locs spi_locs m1 m2"
    "content fd p c m2 = (content fd p c m1)(cell_addr k 2 := byte32 w 2)"
    using f [of 2] ones ne [of 2 0] ne [of 2 1]
    by (auto simp: cell_addr_succ cell_addr_succ(2) [simplified] m0(4) m1(4) simp del: put_bytes.simps)
  from flash_program [of fd p c "b\<lparr>cpu := m2, g_flash_addr := cell_addr k 3\<rparr>" "byte32 w 3"] lt [of 3] m2(2) obtain m3 where m3:
    "put_bytes [byte32 w 3] (b\<lparr>cpu := m2, g_flash_addr := cell_addr k 3\<rparr>) = Some (b\<lparr>cpu := m3, g_flash_addr := cell_addr k 4\<rparr>)"
    "flash_idle fd p c m3" "only_locs spi_locs m2 m3"
    "content fd p c m3 = (content fd p c m2)(cell_addr k 3 := byte32 w 3)"
    using f [of 3] ones ne [of 3 0] ne [of 3 1] ne [of 3 2]
    by (auto simp: cell_addr_succ cell_addr_succ(2) [simplified] m0(4) m1(4) m2(4) simp del: put_bytes.simps)
  have cont: "content fd p c m3 = ?f (cell_addr k 0 := byte32 w 0, cell_addr k 1 := byte32 w 1,
      cell_addr k 2 := byte32 w 2, cell_addr k 3 := byte32 w 3)"
    by (simp only: m0(4) m1(4) m2(4) m3(4))
  have next_addr: "cell_addr k 4 = cell_addr (Suc k) 0" by (simp add: cell_addr_def)
  have other: "content fd p c m3 (cell_addr j i) = ?f (cell_addr j i)" if "j < 0x300000" "i < 4" "j \<noteq> k" for j i
    unfolding cont using that assms(3) by (simp add: cell_addr_inj)
  have here: "content fd p c m3 (cell_addr k 0) = byte32 w 0" "content fd p c m3 (cell_addr k 1) = byte32 w 1"
    "content fd p c m3 (cell_addr k 2) = byte32 w 2" "content fd p c m3 (cell_addr k 3) = byte32 w 3"
    unfolding cont by (simp_all add: ne)
  have "spi_flash_stream_put w b = Some (0, b\<lparr>cpu := m3, g_flash_addr := cell_addr (Suc k) 0\<rparr>)"
    unfolding spi_flash_stream_put_def bytes32_eq next_addr [symmetric]
    by (subst put_bytes_Cons, simp only: m0(1) Option.bind.bind_lunit,
        subst put_bytes_Cons, simp only: m1(1) Option.bind.bind_lunit,
        subst put_bytes_Cons, simp only: m2(1) Option.bind.bind_lunit m3(1))
  moreover have "flash_cell (content fd p c m3) = (flash_cell ?f)(k := w)"
  proof
    fix j show "flash_cell (content fd p c m3) j = ((flash_cell ?f)(k := w)) j"
      using assms(3) join32_byte32 [of w] by (auto simp: flash_cell_def here here(2) [simplified] other)
  qed
  moreover have "only_locs spi_locs (cpu b) m3"
    using m0(3) m1(3) m2(3) m3(3) by (blast intro: only_locs_trans)
  ultimately show ?thesis using m3(2) by (intro exI [of _ m3]) (auto simp: flash_blank_def other)
qed

end
