(* ===== verification/Boot_Store.thy ===== *)
theory Boot_Store
  imports Boot_Load
begin

text \<open>
  Storing the executable in memory to any word stream.  The locale \<open>boot_sink\<close> lists what
  \<open>system_app_store\<close> needs of one: words put one after another into blank cells stay there,
  and the address can be moved back.  The result is an image that \<open>system_app_load\<close>
  accepts.
\<close>

section \<open>Memory\<close>

text \<open>
  The word at \<open>a\<close> is memory that holds \<open>w\<close>: it reads so, without an error, until a store
  touches one of its bytes.
\<close>

definition holds_word :: "mach \<Rightarrow> u32 \<Rightarrow> u32 \<Rightarrow> bool" where
  "holds_word m a w \<longleftrightarrow> aligned W32 a \<and> (\<forall>k. (\<forall>e\<in>set k. \<not> overwrites a e) \<longrightarrow>
     hw m (k @ log m) (Mem W32 a) = w \<and> hw m (k @ log m) (BusErr False W32 a) = 0)"

lemma holds_word_reads:
  assumes "holds_word m a w"
  shows "rd_val (Mem W32 a) m = w" "\<not> access_traps False W32 a m"
  using assms by (auto simp: holds_word_def rd_val_def access_traps_def simp del: aligned.simps dest: spec [of _ "[]"])

lemma holds_word_extend:
  assumes "holds_word m a w" "hw m' = hw m" "log m' = k @ log m" "\<forall>e\<in>set k. \<not> overwrites a e"
  shows "holds_word m' a w"
  unfolding holds_word_def
proof (intro conjI allI impI)
  show "aligned W32 a" using assms(1) by (simp add: holds_word_def del: aligned.simps)
  fix k' assume "\<forall>e\<in>set k'. \<not> overwrites a e"
  then have "\<forall>e\<in>set (k' @ k). \<not> overwrites a e" using assms(4) by auto
  then show "hw m' (k' @ log m') (Mem W32 a) = w" "hw m' (k' @ log m') (BusErr False W32 a) = 0"
    using assms(1-3) unfolding holds_word_def by (metis append_assoc)+
qed

text \<open>Word registers, which a word of memory does not share a byte with.\<close>

definition word_locs :: "loc set \<Rightarrow> bool" where
  "word_locs L \<longleftrightarrow> (\<forall>w x. Mem w x \<in> L \<longrightarrow> w = W32 \<and> aligned W32 x)"

lemma holds_word_only:
  assumes "holds_word m a w" "only_locs L m m'" "word_locs L" "Mem W32 a \<notin> L"
  shows "holds_word m' a w"
proof -
  obtain k where k: "hw m' = hw m" "log m' = k @ log m" "\<forall>e\<in>set k. event_in L e"
    using assms(2) by (auto simp: only_locs_def)
  have a: "aligned W32 a" using assms(1) by (simp add: holds_word_def del: aligned.simps)
  have "\<not> overwrites a e" if "e \<in> set k" for e
  proof
    assume o: "overwrites a e"
    then obtain w x v where e: "e = Wr (Mem w x) v" "bytes_of w x \<inter> bytes_of W32 a \<noteq> {}"
      by (cases "(a, e)" rule: overwrites.cases) auto
    then have "Mem w x \<in> L" using k(3) that by fastforce
    then have "w = W32" "aligned W32 x" "x \<noteq> a" using assms(3,4) by (auto simp: word_locs_def simp del: aligned.simps)
    then show False using aligned_words_apart [OF _ a, of x] e(2) by (simp del: aligned.simps)
  qed
  then show ?thesis using holds_word_extend [OF assms(1) k(1,2)] by blast
qed

lemma holds_word_rd: "holds_word m a w \<Longrightarrow> holds_word (snd (rd l m)) a w"
  by (erule holds_word_extend [where k = "[Rd l (rd_val l m)]"]) (simp_all add: rd_def)

lemma holds_word_fence: "holds_word m a w \<Longrightarrow> holds_word (tick Fence m) a w"
  by (erule holds_word_extend [where k = "[Fence]"]) simp_all

section \<open>The interface of a sink\<close>

locale boot_sink =
  fixes ok :: "boot \<Rightarrow> bool" and origin :: u32 and cap :: nat
    and cell :: "boot \<Rightarrow> nat \<Rightarrow> u32" and blank :: "boot \<Rightarrow> nat \<Rightarrow> bool"
    and asked :: "boot \<Rightarrow> bool" and dev :: "loc set" and put :: "u32 \<Rightarrow> boot \<Rightarrow> (int \<times> boot) option"
  assumes put_word: "ok b \<Longrightarrow> g_flash_addr b = origin + of_nat (4 * k) \<Longrightarrow> k < cap \<Longrightarrow> blank b k \<Longrightarrow>
      \<exists>m'. put w b = Some (0, b\<lparr>cpu := m', g_flash_addr := origin + of_nat (4 * Suc k)\<rparr>)
        \<and> ok (b\<lparr>cpu := m', g_flash_addr := origin + of_nat (4 * Suc k)\<rparr>)
        \<and> cell (b\<lparr>cpu := m', g_flash_addr := origin + of_nat (4 * Suc k)\<rparr>) = (cell b)(k := w)
        \<and> (\<forall>j. j \<noteq> k \<longrightarrow> blank b j \<longrightarrow> blank (b\<lparr>cpu := m', g_flash_addr := origin + of_nat (4 * Suc k)\<rparr>) j)
        \<and> only_locs dev (cpu b) m'"
    and put_string: "ok b \<Longrightarrow> \<exists>m'. uart_puts s (cpu b) = Some m' \<and> ok (b\<lparr>cpu := m'\<rparr>)
        \<and> cell (b\<lparr>cpu := m'\<rparr>) = cell b \<and> blank (b\<lparr>cpu := m'\<rparr>) = blank b
        \<and> (asked b \<longrightarrow> asked (b\<lparr>cpu := m'\<rparr>)) \<and> only_locs dev (cpu b) m'"
    and put_hex: "ok b \<Longrightarrow> \<exists>m'. uart_puth x (cpu b) = Some m' \<and> ok (b\<lparr>cpu := m'\<rparr>)
        \<and> cell (b\<lparr>cpu := m'\<rparr>) = cell b \<and> blank (b\<lparr>cpu := m'\<rparr>) = blank b
        \<and> (asked b \<longrightarrow> asked (b\<lparr>cpu := m'\<rparr>)) \<and> only_locs dev (cpu b) m'"
    and get_answer: "ok b \<Longrightarrow> asked b \<Longrightarrow> \<exists>m'. uart_getc (cpu b) = Some (0x79, m') \<and> ok (b\<lparr>cpu := m'\<rparr>)
        \<and> only_locs dev (cpu b) m'"
    and foreign: "ok b \<Longrightarrow> l \<notin> dev \<Longrightarrow> ok (b\<lparr>cpu := snd (rd l (cpu b))\<rparr>)
        \<and> cell (b\<lparr>cpu := snd (rd l (cpu b))\<rparr>) = cell b \<and> blank (b\<lparr>cpu := snd (rd l (cpu b))\<rparr>) = blank b"
    and fence: "ok b \<Longrightarrow> ok (b\<lparr>cpu := tick Fence (cpu b)\<rparr>)
        \<and> cell (b\<lparr>cpu := tick Fence (cpu b)\<rparr>) = cell b \<and> blank (b\<lparr>cpu := tick Fence (cpu b)\<rparr>) = blank b"
    and seek: "ok b \<Longrightarrow> k \<le> cap \<Longrightarrow> ok (b\<lparr>g_flash_addr := origin + of_nat (4 * k)\<rparr>)
        \<and> cell (b\<lparr>g_flash_addr := origin + of_nat (4 * k)\<rparr>) = cell b
        \<and> blank (b\<lparr>g_flash_addr := origin + of_nat (4 * k)\<rparr>) = blank b"
    and dev_words: "word_locs dev"
begin

text \<open>The memory holds the words, until something is stored there.\<close>

definition holds :: "u32 \<Rightarrow> u32 list \<Rightarrow> mach \<Rightarrow> bool" where
  "holds base ws m \<longleftrightarrow> (\<forall>j < List.length ws. holds_word m (base + of_nat (4 * j)) (ws ! j)
     \<and> Mem W32 (base + of_nat (4 * j)) \<notin> dev)"

lemma holds_only: "holds base ws m \<Longrightarrow> only_locs dev m m' \<Longrightarrow> holds base ws m'"
  using dev_words by (auto simp: holds_def intro: holds_word_only)

lemma put_frame:
  assumes "ok b" "g_flash_addr b = origin + of_nat (4 * k)" "k < cap" "blank b k"
  obtains b' where "put w b = Some (0, b')" "ok b'" "g_flash_addr b' = origin + of_nat (4 * Suc k)"
    "cell b' = (cell b)(k := w)" "\<And>j. j \<noteq> k \<Longrightarrow> blank b j \<Longrightarrow> blank b' j"
    "only_locs dev (cpu b) (cpu b')" "g_exe_base b' = g_exe_base b" "g_exe_size b' = g_exe_size b"
proof -
  from put_word [OF assms, of w] obtain m' where m':
    "put w b = Some (0, b\<lparr>cpu := m', g_flash_addr := origin + of_nat (4 * Suc k)\<rparr>)"
    "ok (b\<lparr>cpu := m', g_flash_addr := origin + of_nat (4 * Suc k)\<rparr>)"
    "cell (b\<lparr>cpu := m', g_flash_addr := origin + of_nat (4 * Suc k)\<rparr>) = (cell b)(k := w)"
    "\<forall>j. j \<noteq> k \<longrightarrow> blank b j \<longrightarrow> blank (b\<lparr>cpu := m', g_flash_addr := origin + of_nat (4 * Suc k)\<rparr>) j"
    "only_locs dev (cpu b) m'" by blast
  show ?thesis
    by (rule that [OF m'(1-2)]) (use m'(3-5) in auto)
qed

text \<open>The loop from the \<open>k\<close>-th word of the program on; the cells are numbered from the header.\<close>

lemma store_loop_words:
  assumes "ok b" "unat sz \<le> 2 ^ 32 - 4" "k \<le> words_of sz" "List.length ws = words_of sz"
    and "words_of sz + 4 \<le> cap" "holds base ws (cpu b)"
    and "g_flash_addr b = origin + of_nat (4 * (k + 4))"
    and "\<forall>j. k \<le> j \<and> j < words_of sz \<longrightarrow> blank b (j + 4)"
  shows "\<exists>b'. store_loop put base sz 0 (of_nat (4 * k)) chk b
      = Some ((0, chk + sum_list (drop k ws)), b')
    \<and> ok b' \<and> hw (cpu b') = hw (cpu b) \<and> g_exe_base b' = g_exe_base b \<and> g_exe_size b' = g_exe_size b
    \<and> (\<forall>j < 4. cell b' j = cell b j \<and> (blank b j \<longrightarrow> blank b' j))
    \<and> (\<forall>j < words_of sz. cell b' (j + 4) = (if k \<le> j then ws ! j else cell b (j + 4)))"
  using assms(1,3,6-8)
proof (induction "words_of sz - k" arbitrary: b k chk)
  case 0
  then have k: "k = words_of sz" by simp
  have "4 * k < 2 ^ 32" "unat sz \<le> 4 * k" using assms(2) unfolding k words_of_def by simp_all
  moreover from this(1) have "unat (of_nat (4 * k) :: u32) = 4 * k" by (intro unat_of_nat_small) simp
  ultimately have "\<not> of_nat (4 * k) < sz" by (simp only: word_less_nat_alt not_less)
  then show ?case using 0 k assms(4) by (subst store_loop.simps) simp
next
  case (Suc n)
  let ?a = "of_nat (4 * k) :: u32"
  have k: "k < words_of sz" using Suc.hyps(2) by simp
  then have "4 * k < unat sz" unfolding words_of_def by simp
  moreover have "4 * k < 2 ^ 32"
  proof -
    have "unat sz < 2 ^ 32" using unsigned_less [of sz] by simp
    with calculation show ?thesis by simp
  qed
  moreover from this have "unat ?a = 4 * k" by (intro unat_of_nat_small) simp
  ultimately have lt: "?a < sz" by (simp only: word_less_nat_alt)
  have nd: "Mem W32 (base + ?a) \<notin> dev" "blank b (k + 4)"
    using Suc.prems(3,5) k assms(4) by (auto simp: holds_def)
  let ?b1 = "b\<lparr>cpu := snd (rd (Mem W32 (base + ?a)) (cpu b))\<rparr>"
  have b1: "ok ?b1" "cell ?b1 = cell b" "blank ?b1 = blank b" using foreign [OF Suc.prems(1) nd(1)] by simp_all
  have hk: "holds_word (cpu b) (base + ?a) (ws ! k)" using Suc.prems(3) k assms(4) by (simp add: holds_def)
  note v = holds_word_reads [OF hk]
  have "g_flash_addr ?b1 = origin + of_nat (4 * (k + 4))" "k + 4 < cap" "blank ?b1 (k + 4)"
    using Suc.prems(4) k assms(5) nd(2) b1(3) by simp_all
  then obtain b2 where p2: "put (ws ! k) ?b1 = Some (0, b2)" "ok b2"
    "g_flash_addr b2 = origin + of_nat (4 * Suc (k + 4))" "cell b2 = (cell ?b1)(k + 4 := ws ! k)"
    "\<And>j. j \<noteq> k + 4 \<Longrightarrow> blank ?b1 j \<Longrightarrow> blank b2 j" "only_locs dev (cpu ?b1) (cpu b2)"
    "g_exe_base b2 = g_exe_base ?b1" "g_exe_size b2 = g_exe_size ?b1"
    by (rule put_frame [where w = "ws ! k" and k = "k + 4", OF b1(1)]) blast
  have b2: "cell b2 = (cell b)(k + 4 := ws ! k)" "\<And>j. j \<noteq> k + 4 \<Longrightarrow> blank b j \<Longrightarrow> blank b2 j"
    "hw (cpu b2) = hw (cpu b)" "g_exe_base b2 = g_exe_base b" "g_exe_size b2 = g_exe_size b"
    using p2(4-8) unfolding b1(2,3) by (simp_all add: only_locs_def)
  have "holds base ws (cpu ?b1)" using Suc.prems(3) holds_word_rd by (simp add: holds_def)
  then have hold2: "holds base ws (cpu b2)" using p2(6) by (rule holds_only)
  have step: "store_loop put base sz 0 ?a chk b = store_loop put base sz 0 (of_nat (4 * Suc k)) (chk + ws ! k) b2"
  proof -
    have next_i: "?a + 4 = of_nat (4 * Suc k)" by simp
    show ?thesis
      using lt p2(1) v unfolding next_i [symmetric]
      by (subst store_loop.simps) (simp add: neorv32_cpu_load_unsigned_word_def rd_def)
  qed
  have "n = words_of sz - Suc k" "Suc k \<le> words_of sz" "holds base ws (cpu b2)"
    "g_flash_addr b2 = origin + of_nat (4 * (Suc k + 4))"
    "\<forall>j. Suc k \<le> j \<and> j < words_of sz \<longrightarrow> blank b2 (j + 4)"
    using Suc.hyps(2) k Suc.prems(5) p2(3) b2(2) hold2 by simp_all
  from Suc.hyps(1) [OF this(1) p2(2) this(2-5), of "chk + ws ! k"]
  obtain b' where b': "store_loop put base sz 0 (of_nat (4 * Suc k)) (chk + ws ! k) b2
      = Some ((0, chk + ws ! k + sum_list (drop (Suc k) ws)), b')"
    "ok b'" "hw (cpu b') = hw (cpu b2)" "g_exe_base b' = g_exe_base b2" "g_exe_size b' = g_exe_size b2"
    "\<forall>j < 4. cell b' j = cell b2 j \<and> (blank b2 j \<longrightarrow> blank b' j)"
    "\<forall>j < words_of sz. cell b' (j + 4) = (if Suc k \<le> j then ws ! j else cell b2 (j + 4))" by blast
  have d: "drop k ws = ws ! k # drop (Suc k) ws" using k assms(4) by (simp add: Cons_nth_drop_Suc)
  show ?case
    unfolding step
  proof (intro exI conjI)
    show "store_loop put base sz 0 (of_nat (4 * Suc k)) (chk + ws ! k) b2
        = Some ((0, chk + sum_list (drop k ws)), b')" using b'(1) d by (simp add: add.assoc)
    show "\<forall>j < 4. cell b' j = cell b j \<and> (blank b j \<longrightarrow> blank b' j)"
      using b'(6) b2(1,2) by auto
    show "\<forall>j < words_of sz. cell b' (j + 4) = (if k \<le> j then ws ! j else cell b (j + 4))"
      using b'(7) b2(1) by (auto simp: le_less Suc_le_eq)
  qed (use b' b2 in simp_all)
qed

text \<open>Console output while the question is open.\<close>

definition asking :: "boot \<Rightarrow> mach \<Rightarrow> bool" where
  "asking b m \<longleftrightarrow> ok (b\<lparr>cpu := m\<rparr>) \<and> asked (b\<lparr>cpu := m\<rparr>) \<and> only_locs dev (cpu b) m"

lemma asking_puts: "asking b m \<Longrightarrow> \<exists>m'. uart_puts s m = Some m' \<and> asking b m'"
  using put_string [of "b\<lparr>cpu := m\<rparr>" s] by (auto simp: asking_def intro: only_locs_trans)

lemma asking_puth: "asking b m \<Longrightarrow> \<exists>m'. uart_puth x m = Some m' \<and> asking b m'"
  using put_hex [of "b\<lparr>cpu := m\<rparr>" x] by (auto simp: asking_def intro: only_locs_trans)

lemma asking_getc:
  "asking b m \<Longrightarrow> \<exists>m'. uart_getc m = Some (0x79, m') \<and> ok (b\<lparr>cpu := m'\<rparr>) \<and> only_locs dev (cpu b) m'"
  using get_answer [of "b\<lparr>cpu := m\<rparr>"] by (auto simp: asking_def intro: only_locs_trans)

text \<open>The four words of the header, written last.\<close>

lemma put_header:
  assumes "ok b" "g_flash_addr b = origin" "4 \<le> cap" "\<forall>j < 4. blank b j"
  shows "\<exists>b1 b2 b3 b4. put w0 b = Some (0, b1) \<and> put w1 b1 = Some (0, b2) \<and> put w2 b2 = Some (0, b3)
    \<and> put w3 b3 = Some (0, b4) \<and> ok b4
    \<and> cell b4 = (cell b)(0 := w0, 1 := w1, 2 := w2, 3 := w3)
    \<and> hw (cpu b4) = hw (cpu b) \<and> g_exe_base b4 = g_exe_base b \<and> g_exe_size b4 = g_exe_size b"
proof -
  have "g_flash_addr b = origin + of_nat (4 * 0)" "0 < cap" "blank b 0" using assms by simp_all
  then obtain b1 where b1: "put w0 b = Some (0, b1)" "ok b1" "g_flash_addr b1 = origin + of_nat (4 * Suc 0)"
    "cell b1 = (cell b)(0 := w0)" "\<And>j. j \<noteq> 0 \<Longrightarrow> blank b j \<Longrightarrow> blank b1 j"
    "only_locs dev (cpu b) (cpu b1)" "g_exe_base b1 = g_exe_base b" "g_exe_size b1 = g_exe_size b"
    by (rule put_frame [where w = w0 and k = 0, OF assms(1)]) blast
  have "Suc 0 < cap" "blank b1 (Suc 0)" using assms(3,4) b1(5) by simp_all
  with b1(3) obtain b2 where b2: "put w1 b1 = Some (0, b2)" "ok b2"
    "g_flash_addr b2 = origin + of_nat (4 * Suc (Suc 0))"
    "cell b2 = (cell b1)(Suc 0 := w1)" "\<And>j. j \<noteq> Suc 0 \<Longrightarrow> blank b1 j \<Longrightarrow> blank b2 j"
    "only_locs dev (cpu b1) (cpu b2)" "g_exe_base b2 = g_exe_base b1" "g_exe_size b2 = g_exe_size b1"
    by (rule put_frame [where w = w1 and k = "Suc 0", OF b1(2)]) blast
  have "Suc (Suc 0) < cap" "blank b2 (Suc (Suc 0))" using assms(3,4) b1(5) b2(5) by simp_all
  with b2(3) obtain b3 where b3: "put w2 b2 = Some (0, b3)" "ok b3"
    "g_flash_addr b3 = origin + of_nat (4 * Suc (Suc (Suc 0)))"
    "cell b3 = (cell b2)(Suc (Suc 0) := w2)" "\<And>j. j \<noteq> Suc (Suc 0) \<Longrightarrow> blank b2 j \<Longrightarrow> blank b3 j"
    "only_locs dev (cpu b2) (cpu b3)" "g_exe_base b3 = g_exe_base b2" "g_exe_size b3 = g_exe_size b2"
    by (rule put_frame [where w = w2 and k = "Suc (Suc 0)", OF b2(2)]) blast
  have "Suc (Suc (Suc 0)) < cap" "blank b3 (Suc (Suc (Suc 0)))" using assms(3,4) b1(5) b2(5) b3(5) by simp_all
  with b3(3) obtain b4 where b4: "put w3 b3 = Some (0, b4)" "ok b4"
    "cell b4 = (cell b3)(Suc (Suc (Suc 0)) := w3)"
    "only_locs dev (cpu b3) (cpu b4)" "g_exe_base b4 = g_exe_base b3" "g_exe_size b4 = g_exe_size b3"
    by (rule put_frame [where w = w3 and k = "Suc (Suc (Suc 0))", OF b3(2)]) blast
  have "cell b4 = (cell b)(0 := w0, 1 := w1, 2 := w2, 3 := w3)"
    unfolding b4(3) b3(4) b2(4) b1(4) by (simp add: numeral_2_eq_2 numeral_3_eq_3)
  moreover have "hw (cpu b4) = hw (cpu b)" using b1(6) b2(6) b3(6) b4(4) by (simp add: only_locs_def)
  ultimately show ?thesis using b1 b2 b3 b4 by auto
qed

text \<open>The image of a program: the header with its checksum, then the words.\<close>

definition image_of :: "u32 \<Rightarrow> u32 \<Rightarrow> u32 list \<Rightarrow> u32 list" where
  "image_of base sz ws = [BIN_SIGNATURE, base, sz, NOT (sum_list ws)] @ ws"

lemma app_store:
  fixes b b1
  defines "sz \<equiv> g_exe_size b1" and "base \<equiv> g_exe_base b1"
  assumes "sz \<noteq> 0" "dev_init b = Some (0, b1)" "ok b1" "asked b1" "g_flash_addr b1 = origin"
    and "g_exe_size b = sz"
    and "\<And>m. ok (b1\<lparr>cpu := m\<rparr>) \<Longrightarrow> \<exists>m'. dev_erase (b1\<lparr>cpu := m\<rparr>) = Some (0, b1\<lparr>cpu := m'\<rparr>)
        \<and> ok (b1\<lparr>cpu := m'\<rparr>) \<and> only_locs dev m m' \<and> (\<forall>k < words_of sz + 4. blank (b1\<lparr>cpu := m'\<rparr>) k)"
    and "unat sz \<le> 2 ^ 32 - 4" "List.length ws = words_of sz" "words_of sz + 4 \<le> cap"
    and "holds base ws (cpu b1)"
  shows "\<exists>b'. system_app_store dev_init dev_erase put b = Some (0, b') \<and> ok b' \<and> hw (cpu b') = hw (cpu b1)
    \<and> g_exe_base b' = base \<and> g_exe_size b' = sz
    \<and> (\<forall>j < words_of sz + 4. cell b' j = image_of base sz ws ! j)"
proof -
  have q0: "asking b1 (cpu b1)" using assms(5,6) by (simp add: asking_def)
  from asking_puts [OF q0] obtain m1 where m1: "uart_puts (str ''Write '') (cpu b1) = Some m1" "asking b1 m1" by blast
  from asking_puth [OF m1(2)] obtain m2 where m2: "uart_puth sz m1 = Some m2" "asking b1 m2" by blast
  from asking_puts [OF m2(2)] obtain m3 where m3: "uart_puts (str '' bytes from '') m2 = Some m3" "asking b1 m3" by blast
  from asking_puth [OF m3(2)] obtain m4 where m4: "uart_puth base m3 = Some m4" "asking b1 m4" by blast
  from asking_puts [OF m4(2)] obtain m5 where m5: "uart_puts (str '' to flash @'') m4 = Some m5" "asking b1 m5" by blast
  from asking_puth [OF m5(2)] obtain m6 where m6: "uart_puth origin m5 = Some m6" "asking b1 m6" by blast
  from asking_puts [OF m6(2)] obtain m7 where m7: "uart_puts (str ''? (y/n)'' @ [10]) m6 = Some m7" "asking b1 m7" by blast
  from asking_getc [OF m7(2)] obtain m8 where m8: "uart_getc m7 = Some (0x79, m8)" "ok (b1\<lparr>cpu := m8\<rparr>)"
    "only_locs dev (cpu b1) m8" by blast
  from put_string [OF m8(2), of "str ''Flashing... ''"] obtain m9 where
    m9: "uart_puts (str ''Flashing... '') m8 = Some m9" "ok (b1\<lparr>cpu := m9\<rparr>)" "only_locs dev (cpu b1) m9"
    using m8(3) by (auto intro: only_locs_trans)
  from assms(9) [OF m9(2)] obtain m10 where m10: "dev_erase (b1\<lparr>cpu := m9\<rparr>) = Some (0, b1\<lparr>cpu := m10\<rparr>)"
    "ok (b1\<lparr>cpu := m10\<rparr>)" "only_locs dev (cpu b1) m10" "\<forall>k < words_of sz + 4. blank (b1\<lparr>cpu := m10\<rparr>) k"
    using m9(3) by (auto intro: only_locs_trans)
  let ?b11 = "b1\<lparr>cpu := tick Fence m10\<rparr>"
  have b11: "ok ?b11" "blank ?b11 = blank (b1\<lparr>cpu := m10\<rparr>)" using fence [OF m10(2)] by simp_all
  let ?b12 = "b1\<lparr>cpu := tick Fence m10, g_flash_addr := origin + of_nat (4 * 4)\<rparr>"
  have b12: "ok ?b12" "blank ?b12 = blank (b1\<lparr>cpu := m10\<rparr>)"
    using seek [OF b11(1), of 4] assms(12) b11(2) by simp_all
  have h12: "holds base ws (cpu ?b12)"
    using holds_only [OF assms(13) m10(3)] holds_word_fence by (simp add: holds_def)
  have "g_flash_addr ?b12 = origin + of_nat (4 * (0 + 4))" by simp
  moreover have "\<forall>j. 0 \<le> j \<and> j < words_of sz \<longrightarrow> blank ?b12 (j + 4)"
    using m10(4) unfolding b12(2) by simp
  ultimately obtain b13 where b13: "store_loop put base sz 0 (of_nat (4 * 0)) 0 ?b12
      = Some ((0, 0 + sum_list (drop 0 ws)), b13)" "ok b13" "hw (cpu b13) = hw (cpu ?b12)"
    "g_exe_base b13 = g_exe_base ?b12" "g_exe_size b13 = g_exe_size ?b12"
    "\<forall>j < 4. blank ?b12 j \<longrightarrow> blank b13 j" "\<forall>j < words_of sz. cell b13 (j + 4) = ws ! j"
    using store_loop_words [OF b12(1) assms(10) le0 assms(11,12) h12, of 0] by auto
  let ?b14 = "b13\<lparr>g_flash_addr := origin\<rparr>"
  have b14: "ok ?b14" "cell ?b14 = cell b13" "blank ?b14 = blank b13"
    using seek [OF b13(2), of 0] by simp_all
  have "\<forall>j < 4. blank ?b14 j" using b13(6) m10(4) unfolding b14(3) b12(2) by simp
  from put_header [OF b14(1) _ _ this, of BIN_SIGNATURE base sz "NOT (sum_list ws)"] assms(12)
  obtain b15 b16 b17 b18 where p: "put BIN_SIGNATURE ?b14 = Some (0, b15)" "put base b15 = Some (0, b16)"
    "put sz b16 = Some (0, b17)" "put (NOT (sum_list ws)) b17 = Some (0, b18)" "ok b18"
    "cell b18 = (cell b13)(0 := BIN_SIGNATURE, 1 := base, 2 := sz, 3 := NOT (sum_list ws))"
    "hw (cpu b18) = hw (cpu b13)" "g_exe_base b18 = base" "g_exe_size b18 = sz"
    using b13(4,5) unfolding b14(2) base_def sz_def by auto
  from put_string [OF p(5), of "str ''OK'' @ [10]"] obtain m19 where
    m19: "uart_puts (str ''OK'' @ [10]) (cpu b18) = Some m19" "ok (b18\<lparr>cpu := m19\<rparr>)"
      "cell (b18\<lparr>cpu := m19\<rparr>) = cell b18" "hw m19 = hw (cpu b18)" by (auto simp: only_locs_def)
  have loop: "store_loop put base sz 0 0 0 (b1\<lparr>cpu := tick Fence m10, g_flash_addr := origin + 16\<rparr>)
      = Some ((0, sum_list ws), b13)" using b13(1) by simp
  have "system_app_store dev_init dev_erase put b = Some (0, b18\<lparr>cpu := m19\<rparr>)"
    using assms(3,8) m1(1) m2(1) m3(1) m4(1) m5(1) m6(1) m7(1) m8(1) m9(1) m10(1) loop p(1-4) m19(1)
      base_def sz_def assms(7)
    by (simp add: system_app_store_def assms(4) on_cpu_def BIN_OFFSET_DATA_def del: uart_puts.simps)
  moreover have "cell b18 j = image_of base sz ws ! j" if "j < words_of sz + 4" for j
  proof (cases "j < 4")
    case True
    then have "j = 0 \<or> j = 1 \<or> j = 2 \<or> j = 3" by auto
    then show ?thesis unfolding p(6) image_of_def by (elim disjE) (simp_all add: numeral_2_eq_2 numeral_3_eq_3)
  next
    case False
    then obtain i where "j = i + 4" by (metis add.commute le_Suc_ex not_less)
    then show ?thesis using that b13(7) unfolding p(6) image_of_def by (simp add: nth_append)
  qed
  moreover have "hw m19 = hw (cpu b1)" using m19(4) p(7) b13(3) m10(3) by (simp add: only_locs_def)
  ultimately show ?thesis using m19(2,3) p(8,9) by auto
qed

end

end
