(* ===== verification/Hart_Rtl.thy ===== *)
theory Hart_Rtl
  imports Machine Csr
begin

text \<open>
  The part of a hart that its software stores in: memory, byte by byte, and the trap registers
  of \<^verbatim>\<open>neorv32_cpu_control.vhd\<close> with their write masks, the entry into a trap and the
  return from it.  \<open>hart_at\<close> says that a machine, from now on, answers reads of these
  locations from such a state; everything else the machine has may answer what it likes.
\<close>

section \<open>Memory\<close>

definition word_at :: "(u32 \<Rightarrow> u8) \<Rightarrow> u32 \<Rightarrow> u32" where
  "word_at r a = join32 (r a) (r (a + 1)) (r (a + 2)) (r (a + 3))"

definition half_at :: "(u32 \<Rightarrow> u8) \<Rightarrow> u32 \<Rightarrow> u32" where
  "half_at r a = join32 (r a) (r (a + 1)) 0 0"

definition poke :: "u32 \<Rightarrow> u32 \<Rightarrow> (u32 \<Rightarrow> u8) \<Rightarrow> u32 \<Rightarrow> u8" where
  "poke a v r = r(a := byte32 v 0, a + 1 := byte32 v 1, a + 2 := byte32 v 2, a + 3 := byte32 v 3)"

fun mem_write :: "width \<Rightarrow> u32 \<Rightarrow> u32 \<Rightarrow> (u32 \<Rightarrow> u8) \<Rightarrow> u32 \<Rightarrow> u8" where
  "mem_write W8 a v r = r(a := byte32 v 0)"
| "mem_write W16 a v r = r(a := byte32 v 0, a + 1 := byte32 v 1)"
| "mem_write W32 a v r = poke a v r"

fun mem_read :: "width \<Rightarrow> u32 \<Rightarrow> (u32 \<Rightarrow> u8) \<Rightarrow> u32" where
  "mem_read W8 a r = ucast (r a)"
| "mem_read W16 a r = half_at r a"
| "mem_read W32 a r = word_at r a"

section \<open>Trap registers\<close>

record hart_hw =
  ram :: "u32 \<Rightarrow> u8"
  prv_m :: bool
  mstatus_mie :: bool
  mstatus_mpie :: bool
  mstatus_mpp :: bool
  mstatus_mprv :: bool
  mstatus_tw :: bool
  mie_en :: u32
  mtvec :: u32
  mscratch :: u32
  mepc :: u32
  mcause :: u32
  mtval :: u32
  mtinst :: u32

definition csr_bit :: "bool \<Rightarrow> nat \<Rightarrow> u32" where
  "csr_bit b n = (if b then BIT n else 0)"

definition trap_csrs :: "csr_id set" where
  "trap_csrs = {CSR_MSTATUS, CSR_MIE, CSR_MTVEC, CSR_MSCRATCH, CSR_MEPC, CSR_MCAUSE, CSR_MTVAL, CSR_MTINST}"

definition trap_csr_read :: "csr_id \<Rightarrow> hart_hw \<Rightarrow> u32" where
  "trap_csr_read c s =
     (if c = CSR_MSTATUS then
        csr_bit (mstatus_mie s) 3 OR csr_bit (mstatus_mpie s) 7 OR csr_bit (mstatus_mpp s) 11
        OR csr_bit (mstatus_mpp s) 12 OR csr_bit (mstatus_mprv s) 17 OR csr_bit (mstatus_tw s) 21
      else if c = CSR_MIE then mie_en s
      else if c = CSR_MTVEC then mtvec s
      else if c = CSR_MSCRATCH then mscratch s
      else if c = CSR_MEPC then mepc s
      else if c = CSR_MCAUSE then mcause s AND 0x8000001f
      else if c = CSR_MTVAL then mtval s
      else if c = CSR_MTINST then mtinst s
      else 0)"

text \<open>Bit 0 of a program counter is zero, and bit 1 too without the C extension.\<close>

definition pc_mask :: "bool \<Rightarrow> u32" where
  "pc_mask riscv_c = (if riscv_c then NOT 1 else NOT 3)"

definition trap_csr_write :: "bool \<Rightarrow> csr_id \<Rightarrow> u32 \<Rightarrow> hart_hw \<Rightarrow> hart_hw" where
  "trap_csr_write riscv_c c w s =
     (if c = CSR_MSTATUS then
        s\<lparr>mstatus_mie := bit w 3, mstatus_mpie := bit w 7, mstatus_mpp := bit w 11 \<or> bit w 12,
          mstatus_mprv := bit w 17, mstatus_tw := bit w 21\<rparr>
      else if c = CSR_MIE then s\<lparr>mie_en := w AND 0xffff0888\<rparr>
      else if c = CSR_MTVEC then s\<lparr>mtvec := w AND NOT 2\<rparr>
      else if c = CSR_MSCRATCH then s\<lparr>mscratch := w\<rparr>
      else if c = CSR_MEPC then s\<lparr>mepc := w AND pc_mask riscv_c\<rparr>
      else s)"

lemma trap_csr_simps [simp]:
  "trap_csr_read CSR_MIE s = mie_en s" "trap_csr_read CSR_MTVEC s = mtvec s"
  "trap_csr_read CSR_MSCRATCH s = mscratch s" "trap_csr_read CSR_MEPC s = mepc s"
  "trap_csr_read CSR_MCAUSE s = mcause s AND 0x8000001f" "trap_csr_read CSR_MTVAL s = mtval s"
  "trap_csr_read CSR_MTINST s = mtinst s"
  "trap_csr_write c CSR_MIE w s = s\<lparr>mie_en := w AND 0xffff0888\<rparr>"
  "trap_csr_write c CSR_MTVEC w s = s\<lparr>mtvec := w AND NOT 2\<rparr>"
  "trap_csr_write c CSR_MSCRATCH w s = s\<lparr>mscratch := w\<rparr>"
  "trap_csr_write c CSR_MEPC w s = s\<lparr>mepc := w AND pc_mask c\<rparr>"
  by (simp_all add: trap_csr_read_def trap_csr_write_def csr_defs)

lemma trap_csrs_simps [simp]:
  "CSR_MSTATUS \<in> trap_csrs" "CSR_MIE \<in> trap_csrs" "CSR_MTVEC \<in> trap_csrs" "CSR_MSCRATCH \<in> trap_csrs"
  "CSR_MEPC \<in> trap_csrs" "CSR_MCAUSE \<in> trap_csrs" "CSR_MTVAL \<in> trap_csrs" "CSR_MTINST \<in> trap_csrs"
  by (simp_all add: trap_csrs_def)

fun hart_step :: "bool \<Rightarrow> event \<Rightarrow> hart_hw \<Rightarrow> hart_hw" where
  "hart_step riscv_c (Wr (Mem w a) v) s = s\<lparr>ram := mem_write w a v (ram s)\<rparr>"
| "hart_step riscv_c (Wr (Csr c) v) s = trap_csr_write riscv_c c v s"
| "hart_step riscv_c (CsrSet c v) s = trap_csr_write riscv_c c (trap_csr_read c s OR v) s"
| "hart_step riscv_c (CsrClr c v) s = trap_csr_write riscv_c c (trap_csr_read c s AND NOT v) s"
| "hart_step riscv_c _ s = s"

text \<open>The state after events, the newest first.\<close>

primrec hart_run :: "bool \<Rightarrow> event list \<Rightarrow> hart_hw \<Rightarrow> hart_hw" where
  "hart_run riscv_c [] s = s"
| "hart_run riscv_c (e # h) s = hart_step riscv_c e (hart_run riscv_c h s)"

fun hart_read :: "loc \<Rightarrow> hart_hw \<Rightarrow> u32" where
  "hart_read (Mem w a) s = mem_read w a (ram s)"
| "hart_read (Csr c) s = trap_csr_read c s"
| "hart_read (BusErr x w a) s = 0"

text \<open>Memory alone: every store so far, on the initial content \<open>M\<close>.\<close>

fun ram_log :: "(u32 \<Rightarrow> u8) \<Rightarrow> event list \<Rightarrow> u32 \<Rightarrow> u8" where
  "ram_log M [] = M"
| "ram_log M (Wr (Mem w a) v # h) = mem_write w a v (ram_log M h)"
| "ram_log M (_ # h) = ram_log M h"

definition ram_of :: "(u32 \<Rightarrow> u8) \<Rightarrow> event list \<Rightarrow> loc \<Rightarrow> u32" where
  "ram_of M h l = (case l of Mem w a \<Rightarrow> mem_read w a (ram_log M h) | _ \<Rightarrow> 0)"

lemma ram_log_keeps:
  assumes "\<forall>e\<in>set k. \<not> overwrites a e"
  shows "mem_read W32 a (ram_log M (k @ h)) = mem_read W32 a (ram_log M h)"
proof -
  have "ram_log M (k @ h) b = ram_log M h b" if "b \<in> bytes_of W32 a" for b
    using assms
  proof (induction k)
    case (Cons e k)
    have "mem_write w x v r b = r b" if "b \<notin> bytes_of w x" for w x v and r :: "u32 \<Rightarrow> u8"
      using that by (cases w) (auto simp: poke_def)
    with Cons that show ?case by (cases "(M, e # k @ h)" rule: ram_log.cases) auto
  qed simp
  then show ?thesis by (simp add: word_at_def)
qed

text \<open>Entering a trap and returning from it.\<close>

definition trap_enter :: "bool \<Rightarrow> u32 \<Rightarrow> u32 \<Rightarrow> u32 \<Rightarrow> u32 \<Rightarrow> bool \<Rightarrow> hart_hw \<Rightarrow> hart_hw" where
  "trap_enter riscv_c cause pc mar ir ci s =
     s\<lparr>prv_m := True, mstatus_mpp := prv_m s, mstatus_mie := False, mstatus_mpie := mstatus_mie s,
       mcause := cause, mepc := pc AND pc_mask riscv_c,
       mtval := (if \<not> bit cause 31 \<and> bit cause 2 then mar else 0),
       mtinst := (if ci \<and> riscv_c then ir AND NOT 2 else ir)\<rparr>"

definition trap_exit :: "hart_hw \<Rightarrow> hart_hw" where
  "trap_exit s =
     s\<lparr>prv_m := mstatus_mpp s, mstatus_mprv := (mstatus_mprv s \<and> mstatus_mpp s),
       mstatus_mpp := False, mstatus_mie := mstatus_mpie s, mstatus_mpie := True\<rparr>"

section \<open>A machine in a state\<close>

text \<open>The locations answered from the state: trap registers, and aligned accesses within memory \<open>R\<close>.\<close>

fun hart_loc :: "u32 set \<Rightarrow> loc \<Rightarrow> bool" where
  "hart_loc R (Mem w a) = (bytes_of w a \<subseteq> R \<and> aligned w a)"
| "hart_loc R (Csr c) = (c \<in> trap_csrs)"
| "hart_loc R (BusErr x w a) = False"

definition hart_at :: "bool \<Rightarrow> u32 set \<Rightarrow> mach \<Rightarrow> hart_hw \<Rightarrow> bool" where
  "hart_at riscv_c R m s \<longleftrightarrow>
     (\<forall>new l. hart_loc R l \<longrightarrow> hw m (new @ log m) l = hart_read l (hart_run riscv_c new s))"

text \<open>The machine that answers exactly so from the start of its log, and \<open>rest\<close> elsewhere.\<close>

definition hart_rtl :: "bool \<Rightarrow> u32 set \<Rightarrow> hart_hw \<Rightarrow> (event list \<Rightarrow> loc \<Rightarrow> u32) \<Rightarrow> event list \<Rightarrow> loc \<Rightarrow> u32" where
  "hart_rtl riscv_c R s rest h l =
     (if hart_loc R l then hart_read l (hart_run riscv_c h s) else rest h l)"

lemma hart_at_rtl: "hart_at c R \<lparr>hw = hart_rtl c R s rest, log = []\<rparr> s"
  by (simp add: hart_at_def hart_rtl_def)

lemma hart_run_append: "hart_run c (a @ b) s = hart_run c a (hart_run c b s)"
  by (induction a) simp_all

lemma hart_at_tick: "hart_at c R m s \<Longrightarrow> hart_at c R (tick e m) (hart_step c e s)"
  unfolding hart_at_def by (metis append.assoc append_Cons append_Nil hart_run_append
      hart_run.simps hw_tick log_tick)

lemma rd_val_hart: "hart_at c R m s \<Longrightarrow> hart_loc R l \<Longrightarrow> rd_val l m = hart_read l s"
  unfolding hart_at_def rd_val_def by (metis append_Nil hart_run.simps(1))

lemma hart_at_rd: "hart_at c R m s \<Longrightarrow> hart_at c R (snd (rd l m)) s"
  using hart_at_tick [of c R m s "Rd l (rd_val l m)"] by (simp add: rd_def)

lemma hart_at_wr: "hart_at c R m s \<Longrightarrow> hart_at c R (wr l v m) (hart_step c (Wr l v) s)"
  unfolding wr_def by (rule hart_at_tick)

text \<open>What a machine does next, whatever it is, is the run of what it appends to the log.\<close>

lemma hart_at_extend:
  assumes "hart_at c R m s" "hw m' = hw m" "log m' = new @ log m"
  shows "hart_at c R m' (hart_run c new s)"
  using assms unfolding hart_at_def by (metis append.assoc hart_run_append)

text \<open>A machine that went on with nothing but accesses of the hart's own locations.\<close>

fun hart_event :: "u32 set \<Rightarrow> event \<Rightarrow> bool" where
  "hart_event R (Rd l v) = hart_loc R l"
| "hart_event R (Wr l v) = hart_loc R l"
| "hart_event R (CsrSet c v) = (c \<in> trap_csrs)"
| "hart_event R (CsrClr c v) = (c \<in> trap_csrs)"
| "hart_event R Fence = True"
| "hart_event R _ = False"

definition only_hart :: "u32 set \<Rightarrow> mach \<Rightarrow> mach \<Rightarrow> bool" where
  "only_hart R m m' \<longleftrightarrow> hw m' = hw m \<and> (\<exists>k. log m' = k @ log m \<and> (\<forall>e \<in> set k. hart_event R e))"

lemma only_hart_eq:
  "only_hart R m m' \<longleftrightarrow> (\<exists>k. m' = m\<lparr>log := k @ log m\<rparr> \<and> (\<forall>e \<in> set k. hart_event R e))"
  by (cases m; cases m') (auto simp: only_hart_def)

lemma only_hart_refl [simp]: "only_hart R m m"
  by (simp add: only_hart_def)

lemma only_hart_trans: "only_hart R m m1 \<Longrightarrow> only_hart R m1 m2 \<Longrightarrow> only_hart R m m2"
  by (fastforce simp: only_hart_def)

lemma only_hart_tick: "hart_event R e \<Longrightarrow> only_hart R m m1 \<Longrightarrow> only_hart R m (tick e m1)"
  by (fastforce simp: only_hart_def)

lemma only_hart_rd: "hart_loc R l \<Longrightarrow> only_hart R m m1 \<Longrightarrow> only_hart R m (snd (rd l m1))"
  by (simp add: rd_def only_hart_tick)

lemma only_hart_wr: "hart_loc R l \<Longrightarrow> only_hart R m m1 \<Longrightarrow> only_hart R m (wr l v m1)"
  by (simp add: wr_def only_hart_tick)

section \<open>Words in memory\<close>

lemma offset_inj:
  assumes "a < 2 ^ 32" "b < 2 ^ 32"
  shows "(of_nat a :: u32) = of_nat b \<longleftrightarrow> a = b"
proof
  assume "(of_nat a :: u32) = of_nat b"
  then have "unat (of_nat a :: u32) = unat (of_nat b :: u32)" by simp
  then show "a = b" using assms by (simp add: unat_of_nat_small)
qed simp

lemma word_at_poke [simp]: "word_at (poke a v r) a = v"
  using join32_byte32 [of v] by (simp add: word_at_def poke_def)

lemma poke_other: "b \<notin> bytes_of W32 a \<Longrightarrow> poke a v r b = r b"
  by (simp add: poke_def)

lemma word_at_poke_other:
  assumes "bytes_of W32 a \<inter> bytes_of W32 b = {}"
  shows "word_at (poke a v r) b = word_at r b"
  using assms by (simp add: word_at_def poke_def)

lemma word_at_cong: "(\<And>b. b \<in> bytes_of W32 a \<Longrightarrow> r b = r' b) \<Longrightarrow> word_at r a = word_at r' a"
  by (simp add: word_at_def)

lemma bytes_of_offset: "bytes_of W32 (base + of_nat k) = (\<lambda>j. base + of_nat (k + j)) ` {0, 1, 2, 3}"
  by (simp add: ac_simps)

lemma slots_disjoint:
  assumes "k + 4 \<le> l \<or> l + 4 \<le> k" "k + 4 \<le> 2 ^ 32" "l + 4 \<le> 2 ^ 32"
  shows "bytes_of W32 (base + of_nat k) \<inter> bytes_of W32 (base + of_nat l) = {}"
proof -
  have "(of_nat (k + i) :: u32) \<noteq> of_nat (l + j)" if "i < 4" "j < 4" for i j
    using assms that offset_inj [of "k + i" "l + j"] by auto
  moreover have "i < 4" if "i \<in> {0, 1, 2, 3}" for i :: nat using that by auto
  ultimately show ?thesis unfolding bytes_of_offset by (blast dest: add_left_imp_eq)
qed

section \<open>Accesses of other locations\<close>

text \<open>States that agree on the memory \<open>R\<close> answer alike, so writes outside it do not matter.\<close>

definition agree :: "u32 set \<Rightarrow> hart_hw \<Rightarrow> hart_hw \<Rightarrow> bool" where
  "agree R s s' \<longleftrightarrow> s' = s\<lparr>ram := ram s'\<rparr> \<and> (\<forall>b \<in> R. ram s' b = ram s b)"

lemma agree_refl [simp]: "agree R s s"
  by (simp add: agree_def)

lemma agree_write: "\<forall>b \<in> R. r' b = r b \<Longrightarrow> \<forall>b \<in> R. mem_write w a v r' b = mem_write w a v r b"
  by (cases w) (simp_all add: poke_def)

lemma agree_csr:
  assumes "agree R s s'"
  shows "trap_csr_read c s' = trap_csr_read c s" "agree R (trap_csr_write k c v s) (trap_csr_write k c v s')"
proof -
  obtain r where s': "s' = s\<lparr>ram := r\<rparr>" "\<forall>b \<in> R. r b = ram s b" using assms by (metis agree_def)
  show "trap_csr_read c s' = trap_csr_read c s" by (simp add: s' trap_csr_read_def)
  show "agree R (trap_csr_write k c v s) (trap_csr_write k c v s')"
    by (cases s) (simp add: s' agree_def trap_csr_write_def)
qed

lemma agree_step: "agree R s s' \<Longrightarrow> agree R (hart_step c e s) (hart_step c e s')"
proof -
  assume a: "agree R s s'"
  then obtain r where s': "s' = s\<lparr>ram := r\<rparr>" "\<forall>b \<in> R. r b = ram s b" by (metis agree_def)
  show ?thesis
  proof (cases "(c, e, s)" rule: hart_step.cases)
    case (1 c' w x v s'')
    with agree_write [OF s'(2), of w x v] show ?thesis by (simp add: agree_def s'(1))
  qed (use a agree_csr [OF a] in auto)
qed

lemma agree_run: "agree R s s' \<Longrightarrow> agree R (hart_run c h s) (hart_run c h s')"
  by (induction h) (simp_all add: agree_step)

lemma agree_read: "agree R s s' \<Longrightarrow> hart_loc R l \<Longrightarrow> hart_read l s' = hart_read l s"
proof -
  assume a: "agree R s s'" "hart_loc R l"
  show ?thesis
  proof (cases l)
    case (Mem w x)
    with a show ?thesis by (cases w) (auto simp: agree_def word_at_def half_at_def)
  qed (simp_all add: agree_csr [OF a(1)])
qed

lemma hart_at_agree: "hart_at c R m s \<Longrightarrow> agree R s s' \<Longrightarrow> hart_at c R m s'"
  unfolding hart_at_def using agree_read [OF agree_run] by metis

text \<open>Locations that have nothing to do with the hart.\<close>

definition apart :: "u32 set \<Rightarrow> loc set \<Rightarrow> bool" where
  "apart R L \<longleftrightarrow> (\<forall>l \<in> L. case l of Mem w a \<Rightarrow> bytes_of w a \<inter> R = {} | Csr c \<Rightarrow> c \<notin> trap_csrs | _ \<Rightarrow> True)"

lemma apart_step:
  assumes "apart R L" "e = Rd l v \<or> e = Wr l v" "l \<in> L"
  shows "agree R (hart_step c e s) s"
proof (cases l)
  case (Mem w a)
  with bspec [OF assms(1) [unfolded apart_def] assms(3)] have "bytes_of w a \<inter> R = {}" by simp
  then have "\<forall>b \<in> R. mem_write w a v r b = r b" for r by (cases w) (auto simp: poke_def)
  with assms(2) Mem show ?thesis by (auto simp: agree_def)
next
  case (Csr k)
  with bspec [OF assms(1) [unfolded apart_def] assms(3)] have "k \<notin> trap_csrs" by simp
  then have "trap_csr_write c k v s = s" by (simp add: trap_csrs_def trap_csr_write_def)
  with assms(2) Csr show ?thesis by auto
qed (use assms(2) in auto)

lemma not_hart_loc:
  assumes "apart R L" "l \<in> L"
  shows "\<not> hart_loc R l"
proof (cases l)
  case (Mem w a)
  with bspec [OF assms(1) [unfolded apart_def] assms(2)] show ?thesis by (cases w) auto
next
  case (Csr k)
  with bspec [OF assms(1) [unfolded apart_def] assms(2)] show ?thesis by simp
qed simp

end
