(* ===== verification/Boot_Medium.thy ===== *)
theory Boot_Medium
  imports Boot_Store Hart_Rtl
begin

text \<open>
  Storing an executable and loading it again, for any medium of words: the locale \<open>word_medium\<close> lists
  what the set-up, erase and stream functions of a driver have to keep, next to a console; a medium is
  a source for \<open>system_app_load\<close> and a sink for \<open>system_app_store\<close>, and what is stored can be loaded.
\<close>

section \<open>The console next to a device\<close>

text \<open>The console keeps working through the accesses to the flash.\<close>

lemma console_foreign:
  assumes "only_locs L m m'" "UART_CTRL UART0 \<notin> L" "console_ok q txd rxd rest input m"
  shows "console_ok q txd rxd rest input m'"
proof -
  obtain k where k: "log m' = k @ log m" "\<forall>e \<in> set k. event_in L e" "hw m' = hw m"
    using assms(1) by (auto simp: only_locs_def)
  have "console_ok q txd rxd rest input (m\<lparr>log := k @ log m\<rparr>)"
    using k(2)
  proof (induction k)
    case (Cons e k)
    then have "\<And>v. e \<noteq> Wr (UART_CTRL UART0) v" using assms(2) by auto
    with Cons have "console_ok q txd rxd rest input (tick e (m\<lparr>log := k @ log m\<rparr>))"
      by (auto simp: console_ok_def intro!: uart_tx_hw.ok_tick)
    then show ?case by (simp add: tick_def)
  qed (simp add: assms(3))
  then show ?thesis using k(1,3) by (simp add: console_ok_def uart_ok_def)
qed

lemma console_pos_foreign:
  assumes "only_locs L m m'" "UART_CTRL UART0 \<notin> L" "UART_DATA UART0 \<notin> L"
    and "console_ok q txd rxd rest input m"
  shows "uart_pos q txd rxd UART0 input m' = uart_pos q txd rxd UART0 input m"
proof -
  obtain k where k: "log m' = k @ log m" "\<forall>e \<in> set k. event_in L e"
    using assms(1) by (auto simp: only_locs_def)
  have "console_ok q txd rxd rest input (m\<lparr>log := k @ log m\<rparr>)
      \<and> uart_pos q txd rxd UART0 input (m\<lparr>log := k @ log m\<rparr>) = uart_pos q txd rxd UART0 input m"
    using k(2)
  proof (induction k)
    case (Cons e k)
    then have e: "\<And>v. e \<noteq> Wr (UART_CTRL UART0) v" "\<And>v. e \<noteq> Rd (UART_DATA UART0) v"
      using assms(2,3) by auto
    have ih: "console_ok q txd rxd rest input (m\<lparr>log := k @ log m\<rparr>)"
      "uart_pos q txd rxd UART0 input (m\<lparr>log := k @ log m\<rparr>) = uart_pos q txd rxd UART0 input m"
      using Cons by simp_all
    have "uart_ok q txd rxd rest UART0 input (m\<lparr>log := k @ log m\<rparr>)" using ih(1) by (simp add: console_ok_def)
    from uart_rx_hw.pos_tick [OF this e(2,1)] uart_tx_hw.ok_tick [OF this e(1)] ih show ?case
      by (simp add: tick_def console_ok_def)
  qed (simp add: assms(4))
  then show ?thesis by (simp add: uart_pos_def k(1))
qed

text \<open>The next character of the console is the confirmation.\<close>

definition confirmed :: "uart_time \<Rightarrow> nat \<Rightarrow> nat \<Rightarrow> u8 list \<Rightarrow> boot \<Rightarrow> bool" where
  "confirmed q txd rxd input b \<longleftrightarrow> uart_pos q txd rxd UART0 input (cpu b) < List.length input
     \<and> input ! uart_pos q txd rxd UART0 input (cpu b) = 0x79"

lemma console_words: "word_locs console_locs"
  by (auto simp: word_locs_def console_locs_def UART_CTRL_def UART_DATA_def UART0_def NEORV32_UART0_BASE_def
      SYSINFO_SOC_def NEORV32_SYSINFO_BASE_def)

text \<open>Memory that is answered from the stores so far.\<close>

lemma ram_holds_word:
  assumes "aligned W32 a" "\<forall>h. hw m h (Mem W32 a) = mem_read W32 a (ram_log M h) \<and> hw m h (BusErr False W32 a) = 0"
    and "\<forall>e\<in>set (log m). \<not> overwrites a e"
  shows "holds_word m a (word_at M a)"
  unfolding holds_word_def
proof (intro conjI allI impI)
  fix k assume "\<forall>e\<in>set k. \<not> overwrites a e"
  then have "\<forall>e\<in>set (k @ log m). \<not> overwrites a e" using assms(3) by auto
  from ram_log_keeps [OF this, of M "[]"] assms(2) show "hw m (k @ log m) (Mem W32 a) = word_at M a" by simp
qed (use assms in simp_all)

section \<open>The interface of a medium\<close>

locale word_medium =
  fixes ready :: "mach \<Rightarrow> bool" and idle :: "mach \<Rightarrow> bool" and cell :: "mach \<Rightarrow> nat \<Rightarrow> u32"
    and blank :: "mach \<Rightarrow> nat \<Rightarrow> bool" and origin :: u32 and cap :: nat and fits :: "u32 \<Rightarrow> bool"
    and locs :: "loc set" and init :: "boot \<Rightarrow> (int \<times> boot) option" and erase :: "boot \<Rightarrow> (int \<times> boot) option"
    and get :: stream_get and put :: "u32 \<Rightarrow> boot \<Rightarrow> (int \<times> boot) option"
  assumes init_ok: "ready (cpu b) \<Longrightarrow> \<exists>m'. init b = Some (0, b\<lparr>cpu := m', g_flash_addr := origin\<rparr>)
        \<and> idle m' \<and> cell m' = cell (cpu b) \<and> only_locs (insert SYSINFO_SOC locs) (cpu b) m'"
    and idle_ready: "idle m \<Longrightarrow> ready m"
    and erase_ok: "idle (cpu b) \<Longrightarrow> g_flash_addr b = origin \<Longrightarrow> fits (g_exe_size b) \<Longrightarrow>
        \<exists>m'. erase b = Some (0, b\<lparr>cpu := m'\<rparr>) \<and> idle m' \<and> only_locs locs (cpu b) m'
          \<and> (\<forall>k < words_of (g_exe_size b) + 4. blank m' k)"
    and fits_cap: "fits sz \<Longrightarrow> words_of sz + 4 \<le> cap" "fits sz \<Longrightarrow> unat sz \<le> 2 ^ 32 - 4"
    and get_word: "idle (cpu b) \<Longrightarrow> g_flash_addr b = origin + of_nat (4 * k) \<Longrightarrow> k < cap \<Longrightarrow>
        \<exists>m'. get b = Some ((0, cell (cpu b) k), b\<lparr>cpu := m', g_flash_addr := origin + of_nat (4 * Suc k)\<rparr>)
          \<and> idle m' \<and> cell m' = cell (cpu b) \<and> only_locs locs (cpu b) m'"
    and put_word: "idle (cpu b) \<Longrightarrow> g_flash_addr b = origin + of_nat (4 * k) \<Longrightarrow> k < cap \<Longrightarrow> blank (cpu b) k \<Longrightarrow>
        \<exists>m'. put w b = Some (0, b\<lparr>cpu := m', g_flash_addr := origin + of_nat (4 * Suc k)\<rparr>)
          \<and> idle m' \<and> cell m' = (cell (cpu b))(k := w)
          \<and> (\<forall>j. j \<noteq> k \<longrightarrow> blank (cpu b) j \<longrightarrow> blank m' j) \<and> only_locs locs (cpu b) m'"
    and foreign: "idle m \<Longrightarrow> only_locs L m m' \<Longrightarrow> L \<inter> locs = {} \<Longrightarrow> idle m' \<and> cell m' = cell m \<and> blank m' = blank m"
    and fence: "idle m \<Longrightarrow> idle (tick Fence m) \<and> cell (tick Fence m) = cell m \<and> blank (tick Fence m) = blank m"
    and apart: "console_locs \<inter> locs = {}"
    and cap_small: "4 * cap < 2 ^ 32"
    and words: "word_locs locs"
begin

lemma dev_words: "word_locs (console_locs \<union> locs)"
  using words console_words by (auto simp: word_locs_def)

lemma console_apart: "UART_CTRL UART0 \<notin> locs" "UART_DATA UART0 \<notin> locs"
  "UART_CTRL UART0 \<notin> insert SYSINFO_SOC locs" "UART_DATA UART0 \<notin> insert SYSINFO_SOC locs"
  using apart uart_soc_distinct by (auto simp: console_locs_def)

lemma console_init:
  assumes "only_locs (insert SYSINFO_SOC locs) m m'" "console_ok q txd rxd rest input m"
  shows "console_ok q txd rxd rest input m'" "uart_pos q txd rxd UART0 input m' = uart_pos q txd rxd UART0 input m"
  using console_foreign [OF assms(1) console_apart(3) assms(2)]
    console_pos_foreign [OF assms(1) console_apart(3,4) assms(2)] by simp_all

lemma console_locs_ok:
  assumes "only_locs locs m m'" "console_ok q txd rxd rest input m"
  shows "console_ok q txd rxd rest input m'" "uart_pos q txd rxd UART0 input m' = uart_pos q txd rxd UART0 input m"
  using console_foreign [OF assms(1) console_apart(1) assms(2)]
    console_pos_foreign [OF assms(1) console_apart(1,2) assms(2)] by simp_all

text \<open>As a source, it holds the words \<open>ws\<close>.\<close>

definition src_ok :: "uart_time \<Rightarrow> nat \<Rightarrow> nat \<Rightarrow> (event list \<Rightarrow> loc \<Rightarrow> u32) \<Rightarrow> u8 list \<Rightarrow> u32 list \<Rightarrow> boot \<Rightarrow> bool" where
  "src_ok q txd rxd rest input ws b \<longleftrightarrow> idle (cpu b) \<and> console_ok q txd rxd rest input (cpu b)
     \<and> List.length ws \<le> cap \<and> (\<forall>i < List.length ws. cell (cpu b) i = ws ! i)
     \<and> (\<exists>k \<le> List.length ws. g_flash_addr b = origin + of_nat (4 * k))"

definition src_pos :: "boot \<Rightarrow> nat" where
  "src_pos b = unat (g_flash_addr b - origin) div 4"

lemma src_pos_at: "k \<le> cap \<Longrightarrow> g_flash_addr b = origin + of_nat (4 * k) \<Longrightarrow> src_pos b = k"
proof -
  assume k: "k \<le> cap" "g_flash_addr b = origin + of_nat (4 * k)"
  have "4 * k < 2 ^ 32" using k(1) cap_small by (rule le_less_trans [OF mult_le_mono2])
  then have "unat (of_nat (4 * k) :: u32) = 4 * k" by (intro unat_of_nat_small) simp
  then show ?thesis unfolding src_pos_def k(2) by (simp only: add_diff_cancel_left')
qed

sublocale src: boot_source "src_ok q txd rxd rest input ws" src_pos ws "console_locs \<union> locs" get
  for q txd rxd rest input ws
proof
  fix b assume ok: "src_ok q txd rxd rest input ws b"
  let ?con = "console_ok q txd rxd rest input"
  obtain k where k: "k \<le> List.length ws" "g_flash_addr b = origin + of_nat (4 * k)"
    using ok by (auto simp: src_ok_def)
  have i: "idle (cpu b)" "?con (cpu b)" "List.length ws \<le> cap" "\<forall>i < List.length ws. cell (cpu b) i = ws ! i"
    using ok by (simp_all add: src_ok_def)
  have pos: "src_pos b = k" using k i(3) by (intro src_pos_at) simp_all
  {
    assume "src_pos b < List.length ws"
    then have lt: "k < List.length ws" "k < cap" using i(3) by (simp_all add: pos)
    from get_word [OF i(1) k(2) lt(2)] obtain m' where m':
      "get b = Some ((0, cell (cpu b) k), b\<lparr>cpu := m', g_flash_addr := origin + of_nat (4 * Suc k)\<rparr>)"
      "idle m'" "cell m' = cell (cpu b)" "only_locs locs (cpu b) m'" by blast
    let ?b = "b\<lparr>cpu := m', g_flash_addr := origin + of_nat (4 * Suc k)\<rparr>"
    have "src_ok q txd rxd rest input ws ?b" unfolding src_ok_def
      using m'(2,3) i(3,4) lt console_locs_ok(1) [OF m'(4) i(2)] by (intro conjI exI [of _ "Suc k"]) simp_all
    moreover have "src_pos ?b = Suc (src_pos b)" unfolding pos by (rule src_pos_at) (use lt i(3) in simp_all)
    moreover have "only_locs (console_locs \<union> locs) (cpu b) (cpu ?b)" using only_locs_mono [OF m'(4)] by simp
    ultimately show "\<exists>b'. get b = Some ((0, ws ! src_pos b), b') \<and> src_ok q txd rxd rest input ws b'
        \<and> src_pos b' = Suc (src_pos b) \<and> only_locs (console_locs \<union> locs) (cpu b) (cpu b')
        \<and> g_exe_base b' = g_exe_base b \<and> g_exe_size b' = g_exe_size b"
      using m'(1) i(4) lt(1) unfolding pos by (intro exI [of _ ?b]) simp
  }
  show "\<exists>m'. uart_puts s (cpu b) = Some m' \<and> src_ok q txd rxd rest input ws (b\<lparr>cpu := m'\<rparr>)
      \<and> src_pos (b\<lparr>cpu := m'\<rparr>) = src_pos b \<and> only_locs (console_locs \<union> locs) (cpu b) m'" for s
  proof -
    from upload_puts [OF i(2), of s] obtain m' where m': "uart_puts s (cpu b) = Some m'" "?con m'"
      "only_locs console_locs (cpu b) m'" by blast
    from foreign [OF i(1) m'(3) apart] m'(2) i(3,4) k have "src_ok q txd rxd rest input ws (b\<lparr>cpu := m'\<rparr>)"
      by (auto simp: src_ok_def)
    moreover have "src_pos (b\<lparr>cpu := m'\<rparr>) = src_pos b" by (simp add: src_pos_def)
    ultimately show ?thesis using m' only_locs_mono [OF m'(3)] by blast
  qed
  show "src_ok q txd rxd rest input ws (b\<lparr>cpu := tick Fence (cpu b)\<rparr>)
      \<and> src_pos (b\<lparr>cpu := tick Fence (cpu b)\<rparr>) = src_pos b"
    using fence [OF i(1)] upload_fence(1) [OF i(2)] ok by (auto simp: src_ok_def src_pos_def)
  show "src_ok q txd rxd rest input ws (b\<lparr>cpu := wr (Mem W32 a) w (cpu b)\<rparr>)
      \<and> src_pos (b\<lparr>cpu := wr (Mem W32 a) w (cpu b)\<rparr>) = src_pos b"
    if "Mem W32 a \<notin> console_locs \<union> locs" for a w
  proof -
    have o: "only_locs {Mem W32 a} (cpu b) (wr (Mem W32 a) w (cpu b))" by (rule only_locs_wr) simp
    have "{Mem W32 a} \<inter> locs = {}" using that by simp
    from foreign [OF i(1) o this] upload_store(1) [OF i(2)] that i(3,4) k
    show ?thesis by (auto simp: src_ok_def src_pos_def)
  qed
qed (auto simp: src_ok_def src_pos_def)

text \<open>As a sink, next to the console on which the user is asked.\<close>

definition sink_ok :: "uart_time \<Rightarrow> nat \<Rightarrow> nat \<Rightarrow> (event list \<Rightarrow> loc \<Rightarrow> u32) \<Rightarrow> u8 list \<Rightarrow> boot \<Rightarrow> bool" where
  "sink_ok q txd rxd rest input b \<longleftrightarrow> idle (cpu b) \<and> console_ok q txd rxd rest input (cpu b)"

sublocale snk: boot_sink "sink_ok q txd rxd rest input" origin cap "\<lambda>b. cell (cpu b)" "\<lambda>b. blank (cpu b)"
    "confirmed q txd rxd input" "console_locs \<union> locs" put
  for q txd rxd rest input
proof
  fix b assume ok: "sink_ok q txd rxd rest input b"
  let ?con = "console_ok q txd rxd rest input"
  have i: "idle (cpu b)" "?con (cpu b)" using ok by (simp_all add: sink_ok_def)
  {
    fix k w assume "g_flash_addr b = origin + of_nat (4 * k)" "k < cap" "blank (cpu b) k"
    from put_word [OF i(1) this] obtain m' where m':
      "put w b = Some (0, b\<lparr>cpu := m', g_flash_addr := origin + of_nat (4 * Suc k)\<rparr>)" "idle m'"
      "cell m' = (cell (cpu b))(k := w)" "\<forall>j. j \<noteq> k \<longrightarrow> blank (cpu b) j \<longrightarrow> blank m' j" "only_locs locs (cpu b) m'" by blast
    moreover have "only_locs (console_locs \<union> locs) (cpu b) m'" using only_locs_mono [OF m'(5)] by simp
    ultimately show "\<exists>m'. put w b = Some (0, b\<lparr>cpu := m', g_flash_addr := origin + of_nat (4 * Suc k)\<rparr>)
        \<and> sink_ok q txd rxd rest input (b\<lparr>cpu := m', g_flash_addr := origin + of_nat (4 * Suc k)\<rparr>)
        \<and> cell (cpu (b\<lparr>cpu := m', g_flash_addr := origin + of_nat (4 * Suc k)\<rparr>)) = (cell (cpu b))(k := w)
        \<and> (\<forall>j. j \<noteq> k \<longrightarrow> blank (cpu b) j \<longrightarrow>
          blank (cpu (b\<lparr>cpu := m', g_flash_addr := origin + of_nat (4 * Suc k)\<rparr>)) j)
        \<and> only_locs (console_locs \<union> locs) (cpu b) m'"
      using console_locs_ok(1) [OF m'(5) i(2)] by (intro exI [of _ m']) (simp add: sink_ok_def)
  }
  have con: "sink_ok q txd rxd rest input (b\<lparr>cpu := m'\<rparr>) \<and> cell (cpu (b\<lparr>cpu := m'\<rparr>)) = cell (cpu b)
      \<and> blank (cpu (b\<lparr>cpu := m'\<rparr>)) = blank (cpu b) \<and> only_locs (console_locs \<union> locs) (cpu b) m'"
    if "only_locs console_locs (cpu b) m'" "?con m'" for m'
    using foreign [OF i(1) that(1) apart] that(2) only_locs_mono [OF that(1)] by (simp add: sink_ok_def)
  show "\<exists>m'. uart_puts s (cpu b) = Some m' \<and> sink_ok q txd rxd rest input (b\<lparr>cpu := m'\<rparr>)
      \<and> cell (cpu (b\<lparr>cpu := m'\<rparr>)) = cell (cpu b) \<and> blank (cpu (b\<lparr>cpu := m'\<rparr>)) = blank (cpu b)
      \<and> (confirmed q txd rxd input b \<longrightarrow> confirmed q txd rxd input (b\<lparr>cpu := m'\<rparr>))
      \<and> only_locs (console_locs \<union> locs) (cpu b) m'" for s
  proof -
    obtain m' where m': "uart_puts s (cpu b) = Some m'" "?con m'"
      "uart_pos q txd rxd UART0 input m' = uart_pos q txd rxd UART0 input (cpu b)"
      "only_locs console_locs (cpu b) m'" using upload_puts [OF i(2), of s] by blast
    with con [OF m'(4,2)] show ?thesis by (auto simp: confirmed_def simp del: uart_puts.simps)
  qed
  show "\<exists>m'. uart_puth x (cpu b) = Some m' \<and> sink_ok q txd rxd rest input (b\<lparr>cpu := m'\<rparr>)
      \<and> cell (cpu (b\<lparr>cpu := m'\<rparr>)) = cell (cpu b) \<and> blank (cpu (b\<lparr>cpu := m'\<rparr>)) = blank (cpu b)
      \<and> (confirmed q txd rxd input b \<longrightarrow> confirmed q txd rxd input (b\<lparr>cpu := m'\<rparr>))
      \<and> only_locs (console_locs \<union> locs) (cpu b) m'" for x
  proof -
    obtain m' where m': "uart_puth x (cpu b) = Some m'" "?con m'"
      "uart_pos q txd rxd UART0 input m' = uart_pos q txd rxd UART0 input (cpu b)"
      "only_locs console_locs (cpu b) m'" using console_puth [OF i(2), of x] by blast
    with con [OF m'(4,2)] show ?thesis by (auto simp: confirmed_def)
  qed
  show "\<exists>m'. uart_getc (cpu b) = Some (0x79, m') \<and> sink_ok q txd rxd rest input (b\<lparr>cpu := m'\<rparr>)
      \<and> only_locs (console_locs \<union> locs) (cpu b) m'" if answer: "confirmed q txd rxd input b"
  proof -
    obtain m' where m': "uart_getc (cpu b) = Some (0x79, m')" "?con m'"
      using console_getc [OF i(2)] answer by (auto simp: confirmed_def)
    with con [OF getc_only [OF m'(1)] m'(2)] show ?thesis by blast
  qed
  show "sink_ok q txd rxd rest input (b\<lparr>cpu := tick Fence (cpu b)\<rparr>)
      \<and> cell (cpu (b\<lparr>cpu := tick Fence (cpu b)\<rparr>)) = cell (cpu b)
      \<and> blank (cpu (b\<lparr>cpu := tick Fence (cpu b)\<rparr>)) = blank (cpu b)"
    using fence [OF i(1)] upload_fence(1) [OF i(2)] by (simp add: sink_ok_def)
  show "sink_ok q txd rxd rest input (b\<lparr>cpu := snd (rd l (cpu b))\<rparr>)
      \<and> cell (cpu (b\<lparr>cpu := snd (rd l (cpu b))\<rparr>)) = cell (cpu b)
      \<and> blank (cpu (b\<lparr>cpu := snd (rd l (cpu b))\<rparr>)) = blank (cpu b)"
    if "l \<notin> console_locs \<union> locs" for l
  proof -
    have o: "only_locs {l} (cpu b) (snd (rd l (cpu b)))" by (rule only_locs_rd) simp
    moreover have "{l} \<inter> locs = {}" using that by simp
    moreover have "?con (snd (rd l (cpu b)))"
      by (rule console_foreign [OF o _ i(2)]) (use that in \<open>auto simp: console_locs_def\<close>)
    ultimately show ?thesis using foreign [OF i(1) o] by (simp add: sink_ok_def)
  qed
qed (simp_all add: sink_ok_def dev_words)

text \<open>Storing what is in memory, after the user has agreed.\<close>

definition stored_image :: "u32 \<Rightarrow> u32 \<Rightarrow> u32 list \<Rightarrow> u32 list" where
  "stored_image base sz ws = [BIN_SIGNATURE, base, sz, NOT (sum_list ws)] @ ws"

lemma store:
  fixes b
  defines "sz \<equiv> g_exe_size b" and "base \<equiv> g_exe_base b"
  assumes "ready (cpu b)" "console_ok q txd rxd rest input (cpu b)"
    and "uart_pos q txd rxd UART0 input (cpu b) < List.length input"
    and "input ! uart_pos q txd rxd UART0 input (cpu b) = 0x79"
    and "sz \<noteq> 0" "fits sz" "List.length ws = words_of sz"
    and "\<forall>j < words_of sz. holds_word (cpu b) (base + of_nat (4 * j)) (ws ! j)
      \<and> Mem W32 (base + of_nat (4 * j)) \<notin> console_locs \<union> locs"
  shows "\<exists>b'. system_app_store init erase put b = Some (0, b')
    \<and> idle (cpu b') \<and> console_ok q txd rxd rest input (cpu b') \<and> hw (cpu b') = hw (cpu b) \<and> g_exe_base b' = base \<and> g_exe_size b' = sz
    \<and> (\<forall>j < words_of sz + 4. cell (cpu b') j = stored_image base sz ws ! j)"
proof -
  from init_ok [OF assms(3)] obtain m1 where m1: "init b = Some (0, b\<lparr>cpu := m1, g_flash_addr := origin\<rparr>)"
    "idle m1" "only_locs (insert SYSINFO_SOC locs) (cpu b) m1" by blast
  let ?b1 = "b\<lparr>cpu := m1, g_flash_addr := origin\<rparr>"
  note con = console_init [OF m1(3) assms(4)]
  have ok: "sink_ok q txd rxd rest input ?b1" using m1(2) con(1) by (simp add: sink_ok_def)
  have ask: "confirmed q txd rxd input ?b1" using con(2) assms(5,6) by (simp add: confirmed_def)
  have er: "\<exists>m'. erase (?b1\<lparr>cpu := m\<rparr>) = Some (0, ?b1\<lparr>cpu := m'\<rparr>) \<and> sink_ok q txd rxd rest input (?b1\<lparr>cpu := m'\<rparr>)
      \<and> only_locs (console_locs \<union> locs) m m' \<and> (\<forall>k < words_of (g_exe_size ?b1) + 4. blank (cpu (?b1\<lparr>cpu := m'\<rparr>)) k)"
    if m: "sink_ok q txd rxd rest input (?b1\<lparr>cpu := m\<rparr>)" for m
  proof -
    have "idle (cpu (?b1\<lparr>cpu := m\<rparr>))" "g_flash_addr (?b1\<lparr>cpu := m\<rparr>) = origin" "fits (g_exe_size (?b1\<lparr>cpu := m\<rparr>))"
      using m assms(8) by (simp_all add: sink_ok_def sz_def)
    from erase_ok [OF this] obtain m' where e: "erase (?b1\<lparr>cpu := m\<rparr>) = Some (0, ?b1\<lparr>cpu := m\<rparr>\<lparr>cpu := m'\<rparr>)"
      "idle m'" "only_locs locs (cpu (?b1\<lparr>cpu := m\<rparr>)) m'"
      "\<forall>k < words_of (g_exe_size (?b1\<lparr>cpu := m\<rparr>)) + 4. blank m' k" by blast
    have o: "only_locs locs m m'" using e(3) by simp
    have "console_ok q txd rxd rest input m" using m by (simp add: sink_ok_def)
    from console_locs_ok(1) [OF o this] e only_locs_mono [OF o] show ?thesis
      by (intro exI [of _ m']) (simp add: sink_ok_def)
  qed
  have "only_locs (console_locs \<union> locs) (cpu b) m1"
    by (rule only_locs_mono [OF m1(3)]) (auto simp: console_locs_def)
  moreover have "snk.holds base ws (cpu b)" using assms(9,10) by (simp add: snk.holds_def)
  ultimately have h: "snk.holds (g_exe_base ?b1) ws (cpu ?b1)" using snk.holds_only by (simp add: base_def)
  have "\<exists>b'. system_app_store init erase put b = Some (0, b')
      \<and> sink_ok q txd rxd rest input b' \<and> hw (cpu b') = hw (cpu ?b1) \<and> g_exe_base b' = g_exe_base ?b1 \<and> g_exe_size b' = g_exe_size ?b1
      \<and> (\<forall>j < words_of (g_exe_size ?b1) + 4. cell (cpu b') j
        = snk.image_of (g_exe_base ?b1) (g_exe_size ?b1) ws ! j)"
    using assms(7-9) m1(1) ok ask h er fits_cap
    by (intro snk.app_store [where dev_init = init]) (simp_all add: sz_def base_def)
  moreover have "hw m1 = hw (cpu b)" using m1(3) by (simp add: only_locs_def)
  ultimately show ?thesis
    by (auto simp: sink_ok_def snk.image_of_def stored_image_def sz_def base_def)
qed

text \<open>Loading what the medium holds, valid or not.\<close>

lemma load:
  assumes "ready (cpu b)" "console_ok q txd rxd rest input (cpu b)" "fits sz" "List.length ws = words_of sz"
    and "\<forall>j < words_of sz + 4. cell (cpu b) j = ([sig, base, sz, chk] @ ws) ! j"
    and "\<forall>j < words_of sz. Mem W32 (base + of_nat (4 * j)) \<notin> console_locs \<union> locs
      \<and> storable (cpu b) (base + of_nat (4 * j))"
  shows "\<exists>r b'. system_app_load init get b = Some (r, b') \<and> (r = 0 \<longleftrightarrow> valid_image sig chk ws)
    \<and> g_exe_base b' = base \<and> g_exe_size b' = (if r = 0 then sz else 0)
    \<and> (sig = BIN_SIGNATURE \<longrightarrow> (\<forall>l. l \<notin> insert SYSINFO_SOC (console_locs \<union> locs) \<longrightarrow>
        written l (cpu b') = written l (cpu b) @ placed l base ws))"
proof -
  let ?b0 = "b\<lparr>g_exe_size := 0\<rparr>" and ?im = "[sig, base, sz, chk] @ ws @ []"
  have "ready (cpu ?b0)" using assms(1) by simp
  from init_ok [OF this] obtain m1 where m1:
    "init ?b0 = Some (0, ?b0\<lparr>cpu := m1, g_flash_addr := origin\<rparr>)" "idle m1" "cell m1 = cell (cpu b)"
    "only_locs (insert SYSINFO_SOC locs) (cpu b) m1" by auto
  let ?b1 = "?b0\<lparr>cpu := m1, g_flash_addr := origin\<rparr>"
  have ok: "src_ok q txd rxd rest input ?im ?b1"
    using m1(2,3) console_init(1) [OF m1(4) assms(2)] assms(4,5) fits_cap(1) [OF assms(3)]
    by (auto simp: src_ok_def intro!: exI [of _ 0])
  have pos: "src_pos ?b1 = 0" by (simp add: src_pos_def)
  have s0: "g_exe_size ?b1 = 0" by simp
  have st: "storable (cpu ?b1) x = storable (cpu b) x" for x
    by (rule storable_hw) (use m1(4) in \<open>simp add: only_locs_def\<close>)
  have mem: "\<forall>j < words_of sz. Mem W32 (base + of_nat (4 * j)) \<notin> console_locs \<union> locs
      \<and> storable (cpu ?b1) (base + of_nat (4 * j))" using assms(6) unfolding st .
  from src.app_load [where dev_init = init and b = b, OF m1(1) ok pos s0 refl assms(4) fits_cap(2) [OF assms(3)] mem]
  show ?thesis using written_only_locs [OF m1(4)] by auto
qed

lemma store_load:
  assumes "ready (cpu b)" "console_ok q txd rxd rest input (cpu b)"
    and "uart_pos q txd rxd UART0 input (cpu b) < List.length input"
    and "input ! uart_pos q txd rxd UART0 input (cpu b) = 0x79"
    and "g_exe_size b \<noteq> 0" "fits (g_exe_size b)" "List.length ws = words_of (g_exe_size b)"
    and "\<forall>j < words_of (g_exe_size b). holds_word (cpu b) (g_exe_base b + of_nat (4 * j)) (ws ! j)
      \<and> Mem W32 (g_exe_base b + of_nat (4 * j)) \<notin> console_locs \<union> locs"
    and "\<forall>j < words_of (g_exe_size b). storable (cpu b) (g_exe_base b + of_nat (4 * j))"
  shows "\<exists>b1 b2. system_app_store init erase put b = Some (0, b1) \<and> system_app_load init get b1 = Some (0, b2)
    \<and> g_exe_base b2 = g_exe_base b \<and> g_exe_size b2 = g_exe_size b
    \<and> (\<forall>l. l \<notin> insert SYSINFO_SOC (console_locs \<union> locs) \<longrightarrow>
        written l (cpu b2) = written l (cpu b1) @ placed l (g_exe_base b) ws)"
proof -
  from store [OF assms(1-8)] obtain b1 where b1: "system_app_store init erase put b = Some (0, b1)" "idle (cpu b1)"
    "console_ok q txd rxd rest input (cpu b1)" "hw (cpu b1) = hw (cpu b)"
    "\<forall>j < words_of (g_exe_size b) + 4. cell (cpu b1) j
      = ([BIN_SIGNATURE, g_exe_base b, g_exe_size b, NOT (sum_list ws)] @ ws) ! j"
    unfolding stored_image_def by blast
  have "\<forall>j < words_of (g_exe_size b). Mem W32 (g_exe_base b + of_nat (4 * j)) \<notin> console_locs \<union> locs
      \<and> storable (cpu b1) (g_exe_base b + of_nat (4 * j))"
    using assms(8,9) unfolding storable_hw [OF b1(4)] by blast
  from load [OF idle_ready [OF b1(2)] b1(3) assms(6,7) b1(5) this] b1(1)
  show ?thesis by (auto simp: valid_image_def not_eq_complement)
qed

end

end
