(* ===== verification/Flash_Roundtrip.thy ===== *)
theory Flash_Roundtrip
  imports Flash_Store Boot_Medium
begin

text \<open>
  Which words of an image an erase of the SPI flash reaches, and the flash, driver, controller and a
  chip that keeps \<open>flash_chip\<close>, as a medium of \<open>Boot_Medium\<close>.
\<close>

section \<open>Which cells an erase reaches\<close>

lemma erased_cell:
  assumes "k < 0x300000" "i < 4" "n \<le> 0xc0"
  shows "erased_by n SPI_FLASH_BASE_ADDR (cell_addr k i) \<longleftrightarrow> 4 * k + i < 0x10000 * n"
proof -
  have sector: "drop_bit 16 (cell_addr k i) = drop_bit 16 (SPI_FLASH_BASE_ADDR + of_nat j * SPI_FLASH_SECTOR_SIZE)
      \<longleftrightarrow> (4 * k + i) div 0x10000 = j" if "j < n" for j
  proof -
    have "SPI_FLASH_BASE_ADDR + of_nat j * SPI_FLASH_SECTOR_SIZE = of_nat (0x400000 + 0x10000 * j)"
      by (simp add: SPI_FLASH_BASE_ADDR_def SPI_FLASH_SECTOR_SIZE_def)
    moreover have "unat (of_nat (0x400000 + 0x10000 * j) :: u32) = 0x400000 + 0x10000 * j"
      using that assms(3) by (intro unat_of_nat_small) simp
    ultimately have u: "unat (SPI_FLASH_BASE_ADDR + of_nat j * SPI_FLASH_SECTOR_SIZE) = 0x400000 + 0x10000 * j"
      by (simp only:)
    have "drop_bit 16 (cell_addr k i) = drop_bit 16 (SPI_FLASH_BASE_ADDR + of_nat j * SPI_FLASH_SECTOR_SIZE)
      \<longleftrightarrow> (0x400000 + 4 * k + i) div 0x10000 = (0x400000 + 0x10000 * j) div (0x10000 :: nat)"
      unfolding word_unat_eq_iff unat_drop_bit_eq u unat_cell_addr [OF assms(1,2)]
      by (simp add: drop_bit_eq_div)
    moreover have "(0x400000 + x) div 0x10000 = 0x40 + x div 0x10000" for x :: nat
      using div_mult_self3 [of "0x10000" "0x40" x] by simp
    ultimately show ?thesis by (simp add: add.assoc)
  qed
  have "erased_by n SPI_FLASH_BASE_ADDR (cell_addr k i) \<longleftrightarrow> (\<exists>j < n. (4 * k + i) div 0x10000 = j)"
    unfolding erased_by_def using sector by blast
  also have "\<dots> \<longleftrightarrow> 4 * k + i < 0x10000 * n" by (simp add: less_mult_imp_div_less div_less_iff_less_mult mult.commute)
  finally show ?thesis .
qed

lemma erased_blank:
  assumes "k < 0x300000" "n \<le> 0xc0" "4 * k + 4 \<le> 0x10000 * n"
  shows "flash_blank (wiped n SPI_FLASH_BASE_ADDR f) k"
  using assms erased_cell [OF assms(1) _ assms(2)] by (simp add: flash_blank_def wiped_def)

lemma unerased_cell:
  assumes "k < 0x300000" "n \<le> 0xc0" "0x10000 * n \<le> 4 * k"
  shows "flash_cell (wiped n SPI_FLASH_BASE_ADDR f) k = flash_cell f k"
  using assms erased_cell [OF assms(1) _ assms(2)] by (simp add: flash_cell_def wiped_def)

text \<open>The erased sectors hold the whole image unless its last bytes start a new sector.\<close>

definition erase_covers :: "u32 \<Rightarrow> bool" where
  "erase_covers sz \<longleftrightarrow> unat sz mod 0x10000 \<le> 0x10000 - unat BIN_OFFSET_DATA"

section \<open>The flash as a medium\<close>

lemma flash_word_cell: "k < 0x300000 \<Longrightarrow> flash_word f (SPI_FLASH_BASE_ADDR + of_nat (4 * k)) = flash_cell f k"
  by (simp add: flash_word_def flash_cell_def cell_addr_def add.assoc)

definition spi_there :: "mach \<Rightarrow> bool" where
  "spi_there m \<longleftrightarrow> (\<forall>h. bit (hw m h SYSINFO_SOC) (sysinfo_soc SYSINFO_SOC_IO_SPI))"

lemma spi_there_only: "only_locs L m m' \<Longrightarrow> spi_there m \<Longrightarrow> spi_there m'"
  by (auto simp: spi_there_def only_locs_def)

definition flash_fits :: "u32 \<Rightarrow> bool" where
  "flash_fits sz \<longleftrightarrow> unat sz \<le> 0xbffff0 \<and> erase_covers sz"

lemma flash_fits_erased:
  assumes "flash_fits sz" "k < words_of sz + 4"
  shows "4 * k + 4 \<le> 0x10000 * (unat sz div 0x10000 + 1)"
proof -
  have "unat sz mod 0x10000 \<le> 0xfff0" using assms(1) by (simp add: flash_fits_def erase_covers_def BIN_OFFSET_DATA_def)
  then have "unat sz + 16 \<le> 0x10000 * (unat sz div 0x10000 + 1)"
  proof -
    have "x + 16 \<le> 0x10000 * (a + 1)" if "r \<le> 0xfff0" "a * 0x10000 + r = x" for a r x :: nat
      using that by simp
    from this [OF \<open>unat sz mod 0x10000 \<le> 0xfff0\<close> div_mult_mod_eq] show ?thesis .
  qed
  then have "unat sz + 19 < (0x4000 * (unat sz div 0x10000 + 1) + 1) * 4" by simp
  then have "(unat sz + 19) div 4 < 0x4000 * (unat sz div 0x10000 + 1) + 1" by (rule less_mult_imp_div_less)
  moreover have "(unat sz + 19) div 4 = words_of sz + 4" by (simp add: words_of_def)
  ultimately show ?thesis using assms(2) by simp
qed

lemma flash_fits_cap: "flash_fits sz \<Longrightarrow> words_of sz + 4 \<le> 0x300000"
  by (auto simp: flash_fits_def words_of_def)

lemma spi_words: "word_locs spi_locs"
  by (auto simp: word_locs_def spi_locs_def spi_regs)

interpretation spi_medium: word_medium "\<lambda>m. flash_ready fd p c m \<and> spi_there m" "\<lambda>m. flash_idle fd p c m \<and> spi_there m"
    "\<lambda>m. flash_cell (content fd p c m)" "\<lambda>m. flash_blank (content fd p c m)" SPI_FLASH_BASE_ADDR "0x300000" flash_fits
    spi_locs spi_flash_setup spi_flash_erase spi_flash_stream_get spi_flash_stream_put
proof
  fix b
  show "\<exists>m'. spi_flash_setup b = Some (0, b\<lparr>cpu := m', g_flash_addr := SPI_FLASH_BASE_ADDR\<rparr>)
      \<and> (flash_idle fd p c m' \<and> spi_there m') \<and> flash_cell (content fd p c m') = flash_cell (content fd p c (cpu b))
      \<and> only_locs (insert SYSINFO_SOC spi_locs) (cpu b) m'" if "flash_ready fd p c (cpu b) \<and> spi_there (cpu b)"
    using flash_setup [of fd p c b] that spi_there_only by (auto simp: spi_there_def)
  {
    assume i: "flash_idle fd p c (cpu b) \<and> spi_there (cpu b)" "g_flash_addr b = SPI_FLASH_BASE_ADDR" "flash_fits (g_exe_size b)"
    then have "unat (g_exe_size b) < 0xc00000" by (simp add: flash_fits_def)
    with flash_erase [of fd p c b] i(1) obtain m' where m':
      "spi_flash_erase b = Some (0, b\<lparr>cpu := m', g_flash_addr := SPI_FLASH_BASE_ADDR\<rparr>)"
      "flash_idle fd p c m'" "only_locs spi_locs (cpu b) m'"
      "content fd p c m' = wiped (unat (g_exe_size b) div 0x10000 + 1) SPI_FLASH_BASE_ADDR (content fd p c (cpu b))" by blast
    have n: "unat (g_exe_size b) div 0x10000 + 1 \<le> 0xc0"
      using \<open>unat (g_exe_size b) < 0xc00000\<close> less_mult_imp_div_less [of "unat (g_exe_size b)" "0xc0" "0x10000"] by simp
    have "flash_blank (content fd p c m') k" if "k < words_of (g_exe_size b) + 4" for k
      unfolding m'(4) using flash_fits_erased [OF i(3) that] flash_fits_cap [OF i(3)] that n by (intro erased_blank) simp_all
    moreover have "b\<lparr>cpu := m', g_flash_addr := SPI_FLASH_BASE_ADDR\<rparr> = b\<lparr>cpu := m'\<rparr>" using i(2) by (cases b) simp
    ultimately show "\<exists>m'. spi_flash_erase b = Some (0, b\<lparr>cpu := m'\<rparr>) \<and> (flash_idle fd p c m' \<and> spi_there m')
        \<and> only_locs spi_locs (cpu b) m' \<and> (\<forall>k < words_of (g_exe_size b) + 4. flash_blank (content fd p c m') k)"
      using m'(1-3) spi_there_only [OF m'(3)] i(1) by (intro exI [of _ m']) simp
  }
  {
    fix k assume i: "flash_idle fd p c (cpu b) \<and> spi_there (cpu b)"
      "g_flash_addr b = SPI_FLASH_BASE_ADDR + of_nat (4 * k)" "k < 0x300000"
    have a: "SPI_FLASH_BASE_ADDR + of_nat (4 * k) = cell_addr k 0"
      "SPI_FLASH_BASE_ADDR + of_nat (4 * Suc k) = cell_addr (Suc k) 0"
      "SPI_FLASH_BASE_ADDR + of_nat (4 * Suc k) = SPI_FLASH_BASE_ADDR + of_nat (4 * k) + 4"
      by (simp_all add: cell_addr_def)
    have "unat (g_flash_addr b) + 3 < 2 ^ 24" unfolding i(2) a(1) using unat_cell_addr [of k 0] i(3) by simp
    from flash_get_word [OF _ this] i(1) obtain m' where "spi_flash_stream_get b
        = Some ((0, flash_word (content fd p c (cpu b)) (g_flash_addr b)), b\<lparr>cpu := m', g_flash_addr := g_flash_addr b + 4\<rparr>)"
      "flash_idle fd p c m'" "content fd p c m' = content fd p c (cpu b)" "only_locs spi_locs (cpu b) m'" by blast
    then show "\<exists>m'. spi_flash_stream_get b = Some ((0, flash_cell (content fd p c (cpu b)) k),
          b\<lparr>cpu := m', g_flash_addr := SPI_FLASH_BASE_ADDR + of_nat (4 * Suc k)\<rparr>)
        \<and> (flash_idle fd p c m' \<and> spi_there m') \<and> flash_cell (content fd p c m') = flash_cell (content fd p c (cpu b))
        \<and> only_locs spi_locs (cpu b) m'"
      using i(1) spi_there_only unfolding a(3) i(2) flash_word_cell [OF i(3)] by (intro exI [of _ m']) auto
    show "\<exists>m'. spi_flash_stream_put w b = Some (0, b\<lparr>cpu := m', g_flash_addr := SPI_FLASH_BASE_ADDR + of_nat (4 * Suc k)\<rparr>)
        \<and> (flash_idle fd p c m' \<and> spi_there m')
        \<and> flash_cell (content fd p c m') = (flash_cell (content fd p c (cpu b)))(k := w)
        \<and> (\<forall>j. j \<noteq> k \<longrightarrow> flash_blank (content fd p c (cpu b)) j \<longrightarrow> flash_blank (content fd p c m') j)
        \<and> only_locs spi_locs (cpu b) m'" if "flash_blank (content fd p c (cpu b)) k" for w
      using flash_put_word [of fd p c b k w] i that spi_there_only unfolding a by blast
  }
  {
    fix L m m' assume "flash_idle fd p c m \<and> spi_there m" "only_locs L m m'" "L \<inter> spi_locs = {}"
    with flash_foreign [of L m m' fd p c] spi_there_only show "(flash_idle fd p c m' \<and> spi_there m')
      \<and> flash_cell (content fd p c m') = flash_cell (content fd p c m)
      \<and> flash_blank (content fd p c m') = flash_blank (content fd p c m)" by auto
  }
  show "(flash_idle fd p c (tick Fence m) \<and> spi_there (tick Fence m))
      \<and> flash_cell (content fd p c (tick Fence m)) = flash_cell (content fd p c m)
      \<and> flash_blank (content fd p c (tick Fence m)) = flash_blank (content fd p c m)"
    if "flash_idle fd p c m \<and> spi_there m" for m
    using that spi_quiet_fence [of fd p "answer c" m] by (auto simp: flash_idle_def spi_there_def)
qed (use flash_idle_ready flash_fits_cap console_spi_disjoint spi_words in \<open>auto simp: flash_fits_def\<close>)

end
