(* ===== verification/Ref_Chip.thy ===== *)
theory Ref_Chip
  imports Flash_Load Boot_Medium
begin

text \<open>
  A serial flash that keeps the contract \<open>flash_chip\<close>, as an executable machine over the
  events of the bus: bytes are collected while the chip is selected and the command takes
  effect when it is deselected.  After a write or an erase it reports busy for one status
  read.  The properties of the flash driver are applied to it.
\<close>

section \<open>The machine\<close>

record ref_chip =
  r_sel :: bool
  r_buf :: "u8 list"
  r_mem :: "u32 \<Rightarrow> u8"
  r_wel :: bool
  r_busy :: bool

definition ref_addr :: "u8 list \<Rightarrow> u32" where
  "ref_addr bs = join32 (bs ! 3) (bs ! 2) (bs ! 1) 0"

definition ref_exec :: "ref_chip \<Rightarrow> ref_chip" where
  "ref_exec r =
     (let bs = r_buf r
      in if bs = [6] then r\<lparr>r_wel := True\<rparr>
         else if bs = [4] then r\<lparr>r_wel := False\<rparr>
         else if bs = [5, 0] then r\<lparr>r_busy := False\<rparr>
         else if hd bs = 2 \<and> List.length bs = 5 \<and> r_wel r then
           r\<lparr>r_mem := (r_mem r)(ref_addr bs := r_mem r (ref_addr bs) AND bs ! 4), r_wel := False, r_busy := True\<rparr>
         else if hd bs = 0xd8 \<and> List.length bs = 4 \<and> r_wel r then
           r\<lparr>r_mem := (\<lambda>x. if drop_bit 16 x = drop_bit 16 (ref_addr bs) then 0xff else r_mem r x),
             r_wel := False, r_busy := True\<rparr>
         else r)"

definition ref_step :: "ref_chip \<Rightarrow> spi_ev \<Rightarrow> ref_chip" where
  "ref_step r e =
     (case e of
        Cs v \<Rightarrow> if v = 0 then (ref_exec r)\<lparr>r_sel := False, r_buf := []\<rparr> else r\<lparr>r_sel := True, r_buf := []\<rparr>
      | Xfer b \<Rightarrow> if r_sel r then r\<lparr>r_buf := r_buf r @ [b]\<rparr> else r)"

definition ref_run :: "(u32 \<Rightarrow> u8) \<Rightarrow> spi_ev list \<Rightarrow> ref_chip" where
  "ref_run f H = foldl ref_step \<lparr>r_sel = False, r_buf = [], r_mem = f, r_wel = False, r_busy = False\<rparr> H"

definition ref_answer :: "ref_chip \<Rightarrow> u8" where
  "ref_answer r =
     (let bs = r_buf r
      in if bs = [5] then (if r_busy r then 1 else 0) OR (if r_wel r then 2 else 0)
         else if hd bs = 3 \<and> 4 \<le> List.length bs then r_mem r (ref_addr bs + of_nat (List.length bs - 4))
         else 0)"

definition reference_chip :: "(u32 \<Rightarrow> u8) \<Rightarrow> chip" where
  "reference_chip f = \<lparr>answer = (\<lambda>H b. ref_answer (ref_run f H)), mem = (\<lambda>H. r_mem (ref_run f H)),
     busy = (\<lambda>H. r_busy (ref_run f H)), wel = (\<lambda>H. r_wel (ref_run f H))\<rparr>"

section \<open>The machine keeps the contract\<close>

lemma ref_run_append: "ref_run f (H @ G) = foldl ref_step (ref_run f H) G"
  by (simp add: ref_run_def)

lemma ref_xfers: "r_sel r \<Longrightarrow> foldl ref_step r (map Xfer bs) = r\<lparr>r_buf := r_buf r @ bs\<rparr>"
  by (induction bs arbitrary: r) (simp_all add: ref_step_def)

lemma ref_open: "ref_run f (H @ [Cs 8] @ map Xfer bs) = (ref_run f H)\<lparr>r_sel := True, r_buf := bs\<rparr>"
proof -
  have "foldl ref_step (ref_run f H) ([Cs 8] @ map Xfer bs)
      = foldl ref_step ((ref_run f H)\<lparr>r_sel := True, r_buf := []\<rparr>) (map Xfer bs)"
    by (simp add: ref_step_def)
  also have "\<dots> = (ref_run f H)\<lparr>r_sel := True, r_buf := bs\<rparr>" by (subst ref_xfers) simp_all
  finally show ?thesis by (simp only: ref_run_append)
qed

lemma ref_session: "ref_run f (H @ flash_session bs)
    = (ref_exec ((ref_run f H)\<lparr>r_sel := True, r_buf := bs\<rparr>))\<lparr>r_sel := False, r_buf := []\<rparr>"
proof -
  have "H @ flash_session bs = (H @ [Cs 8] @ map Xfer bs) @ [Cs 0]" by (simp add: flash_session_def)
  then have "ref_run f (H @ flash_session bs) = ref_step (ref_run f (H @ [Cs 8] @ map Xfer bs)) (Cs 0)"
    by (simp only: ref_run_append) simp
  then show ?thesis by (simp only: ref_open) (simp add: ref_step_def)
qed

lemma ref_addr24:
  assumes "unat a < 2 ^ 24"
  shows "ref_addr (c # addr24 a @ ds) = a"
proof -
  have "byte32 a 3 = 0"
  proof (rule bit_word_eqI)
    fix n assume "n < LENGTH(8)"
    have "unat a < 2 ^ (24 + n)" using assms by (rule less_le_trans) (rule power_increasing, simp_all)
    then have "\<not> bit (unat a) (24 + n)" by (simp add: bit_iff_odd)
    then have "\<not> bit a (24 + n)" by (simp add: bit_unsigned_iff)
    then show "bit (byte32 a 3) n = bit (0 :: u8) n" by (simp add: byte32_def bit_simps)
  qed
  then show ?thesis using join32_byte32 [of a] by (simp add: ref_addr_def addr24_def)
qed

lemma length_addr24 [simp]: "List.length (addr24 a) = 3"
  by (simp add: addr24_def)

lemma ref_reads: "chip_reads (reference_chip f)"
proof -
  have "ref_exec (r\<lparr>r_buf := 3 # bs\<rparr>) = r\<lparr>r_buf := 3 # bs\<rparr>" for r bs by (simp add: ref_exec_def Let_def)
  then have e: "r_mem (ref_exec (r\<lparr>r_sel := True, r_buf := 3 # bs\<rparr>)) = r_mem r"
    "r_busy (ref_exec (r\<lparr>r_sel := True, r_buf := 3 # bs\<rparr>)) = r_busy r" for r bs
    by (simp_all add: ref_exec_def Let_def)
  show ?thesis unfolding chip_reads_def
  proof (intro allI impI)
    fix H a ds b assume "parked H" "\<not> busy (reference_chip f) H"
    have "answer (reference_chip f) (H @ [Cs 8] @ map Xfer (3 # addr24 a @ ds)) b
        = mem (reference_chip f) H (a + of_nat (List.length ds))" if "unat a + List.length ds < 2 ^ 24"
    proof -
      have "unat a < 2 ^ 24" using that by simp
      then show ?thesis unfolding reference_chip_def chip.simps ref_open
        by (simp add: ref_answer_def Let_def ref_addr24)
    qed
    then show "(unat a + List.length ds < 2 ^ 24 \<longrightarrow>
         answer (reference_chip f) (H @ [Cs 8] @ map Xfer (3 # addr24 a @ ds)) b
           = mem (reference_chip f) H (a + of_nat (List.length ds)))
       \<and> mem (reference_chip f) (H @ flash_session (3 # addr24 a @ ds)) = mem (reference_chip f) H
       \<and> \<not> busy (reference_chip f) (H @ flash_session (3 # addr24 a @ ds))"
      using \<open>\<not> busy (reference_chip f) H\<close> by (simp add: reference_chip_def ref_session e)
  qed
qed

lemma ref_status: "chip_status (reference_chip f)"
proof -
  have a: "ref_answer (ref_run f (H @ [Cs 8, Xfer 5]))
      = (if r_busy (ref_run f H) then 1 else 0) OR (if r_wel (ref_run f H) then 2 else 0)" for H
    using ref_open [of f H "[5]"] by (simp add: ref_answer_def)
  have s: "ref_run f (H @ flash_session [5, 0]) = (ref_run f H)\<lparr>r_busy := False, r_sel := False, r_buf := []\<rparr>" for H
    unfolding ref_session by (simp add: ref_exec_def)
  have b: "bit (2 :: u8) 1" "\<not> bit (1 :: u8) 1" by simp_all
  have n: "\<exists>n. \<not> r_busy (ref_run f (H @ concat (replicate n (flash_session [5, 0]))))" for H
    by (rule exI [of _ "Suc 0"]) (simp add: s)
  show ?thesis unfolding chip_status_def
    by (auto simp: a reference_chip_def s n b [simplified] bit_or_iff)
qed

lemma ref_commands: "chip_commands (reference_chip f)"
  unfolding chip_commands_def
  by (auto simp: reference_chip_def ref_session ref_exec_def)

lemma ref_writes: "chip_writes (reference_chip f)"
  unfolding chip_writes_def
proof (intro allI impI)
  fix H and a :: u32 and d :: u8 assume a: "wel (reference_chip f) H" "unat a < 2 ^ 24"
  have "ref_addr (2 # addr24 a @ [d]) = a" "ref_addr (0xd8 # addr24 a) = a" "(2 # addr24 a @ [d]) ! 4 = d"
    using ref_addr24 [OF a(2), of 2 "[d]"] ref_addr24 [OF a(2), of "0xd8" "[]"]
    by (simp_all add: addr24_def)
  moreover have "r_mem (r\<lparr>r_sel := x, r_buf := y\<rparr>) = r_mem r" for r :: ref_chip and x y by simp
  ultimately show "mem (reference_chip f) (H @ flash_session (2 # addr24 a @ [d]))
      = (mem (reference_chip f) H)(a := mem (reference_chip f) H a AND d)
    \<and> mem (reference_chip f) (H @ flash_session (0xd8 # addr24 a))
      = (\<lambda>x. if drop_bit 16 x = drop_bit 16 a then 0xff else mem (reference_chip f) H x)"
    using a(1) by (auto simp: reference_chip_def ref_session ref_exec_def Let_def)
qed

lemma reference_chip_flash: "flash_chip (reference_chip f)"
  by (simp add: flash_chip_def ref_reads ref_status ref_commands ref_writes)

section \<open>A system with UART0 and the chip\<close>

text \<open>Every other location is answered by \<open>other\<close>; the log holds the write that enabled the UART.\<close>

definition soc_rest :: "(u32 \<Rightarrow> u8) \<Rightarrow> (event list \<Rightarrow> loc \<Rightarrow> u32) \<Rightarrow> event list \<Rightarrow> loc \<Rightarrow> u32" where
  "soc_rest f other h l =
     (let d = spi_state 2 3 (answer (reference_chip f)) h
      in if l = SPI_CTRL then spi_ctrl_read 2 d else if l = SPI_DATA then spi_data_read d
         else if l = SYSINFO_SOC then - 1 else other h l)"

definition soc_start :: "nat \<Rightarrow> (u32 \<Rightarrow> u8) \<Rightarrow> (event list \<Rightarrow> loc \<Rightarrow> u32) \<Rightarrow> u8 list \<Rightarrow> mach" where
  "soc_start rxd f other input =
     \<lparr>hw = uart_rtl UART0 clear_line 2 rxd input (soc_rest f other), log = [Wr (UART_CTRL UART0) 1]\<rparr>"

lemma soc_start_console:
  "List.length input \<le> 2 ^ rxd \<Longrightarrow> console_ok clear_line 2 rxd (soc_rest f other) input (soc_start rxd f other input)"
  by (cases input) (simp_all add: console_ok_def uart_ok_def u_lossless_def soc_start_def uart_bus_def
      uart_cycle_def uart_init_def u_en_def u_hwfc_def uart_rw_bits_def uart_tx_frame_def uart_rx_frame_def uart_tx_start_def
      UART_CTRL_def soc_rest_def)

lemma soc_start_pos: "uart_pos clear_line 2 rxd UART0 input (soc_start rxd f other input) = 0"
  by (cases input) (simp_all add: uart_pos_def soc_start_def uart_bus_def uart_cycle_def uart_init_def u_en_def
      uart_rw_bits_def uart_rx_frame_def uart_tx_start_def uart_tx_frame_def)

lemma soc_spi_uart [simp]: "SPI_CTRL \<noteq> UART_CTRL UART0" "SPI_CTRL \<noteq> UART_DATA UART0"
  "SPI_DATA \<noteq> UART_CTRL UART0" "SPI_DATA \<noteq> UART_DATA UART0"
  by (simp_all add: spi_regs UART0_def UART_CTRL_def UART_DATA_def NEORV32_UART0_BASE_def)

lemma soc_start_ready: "flash_ready 2 3 (reference_chip f) (soc_start rxd f other input)"
proof -
  have "spi_state 2 3 s [Wr (UART_CTRL UART0) 1] = spi_init" for s
    by (simp add: spi_bus_def spi_cycle_def spi_init_def s_en_def soc_spi_uart [symmetric] del: soc_spi_uart)
  then show ?thesis
    by (simp add: flash_ready_def reference_chip_flash spi_wired_def soc_start_def uart_rtl_def Let_def
        soc_rest_def spi_line_def spi_init_def parked_def)
      (simp add: reference_chip_def ref_run_def)
qed

lemma soc_start_soc: "bit (hw (soc_start rxd f other input) h SYSINFO_SOC) n \<longleftrightarrow> n < 32"
  by (simp add: soc_start_def uart_rtl_def Let_def soc_rest_def)

text \<open>With memory below the devices, an aligned word there holds what it was given, and takes stores.\<close>

lemma soc_start_memory:
  assumes "aligned W32 a" "a < 0xf0000000"
  shows "holds_word (soc_start rxd f (ram_of M) input) a (word_at M a)" "storable (soc_start rxd f (ram_of M) input) a"
proof -
  let ?m = "soc_start rxd f (ram_of M) input"
  have far: "a \<noteq> 0xfff50000" "a \<noteq> 0xfff50004" "a \<noteq> 0xfff80000" "a \<noteq> 0xfff80004" "a \<noteq> 0xfffe0008"
    using assms(2) by auto
  have hw: "hw ?m h (Mem W32 a) = mem_read W32 a (ram_log M h) \<and> hw ?m h (BusErr w W32 a) = 0" for h w
    using far by (simp add: soc_start_def uart_rtl_def soc_rest_def ram_of_def UART_CTRL_def UART_DATA_def UART0_def
        NEORV32_UART0_BASE_def SYSINFO_SOC_def NEORV32_SYSINFO_BASE_def spi_regs Let_def)
  have "bytes_of W32 0xfff50000 \<inter> bytes_of W32 a = {}" by (rule aligned_words_apart [OF _ assms(1)]) (use far(1) in simp_all)
  then have "\<forall>e\<in>set (log ?m). \<not> overwrites a e"
    by (simp add: soc_start_def UART_CTRL_def UART0_def NEORV32_UART0_BASE_def del: bytes_of.simps)
  with hw show "holds_word ?m a (word_at M a)" by (intro ram_holds_word [OF assms(1)]) simp_all
  show "storable ?m a" using hw assms(1) by (simp add: storable_def del: aligned.simps)
qed

end
