(* ===== verification/Image_Gen.thy ===== *)
theory Image_Gen
  imports Boot_Load
begin

text \<open>
  The executable image generator, \<^verbatim>\<open>sw/image_gen/image_gen.c\<close>.  Reading the ELF file is
  not modelled: the section table it yields is a parameter.  Modelled are the command line, the
  selection of the sections, the raw image and the six output formats; an output file is its
  bytes and the position of the next write.  What the bootloader does with the result is proved
  on its own model.
\<close>

section \<open>Command line\<close>

datatype operation = OP_EXE | OP_VHD | OP_BIN | OP_COE | OP_MEM | OP_MIF

text \<open>A run returns a value, or dereferences a null pointer, or goes on.\<close>

datatype 'a run = Ret int | Crash | Go 'a

record options =
  opt_input :: "string option"
  opt_output :: "string option"
  opt_operation :: operation

definition parse_type :: "string \<Rightarrow> operation option" where
  "parse_type s =
     (if s = ''exe'' then Some OP_EXE
      else if s = ''vhd'' then Some OP_VHD
      else if s = ''bin'' then Some OP_BIN
      else if s = ''coe'' then Some OP_COE
      else if s = ''mem'' then Some OP_MEM
      else if s = ''mif'' then Some OP_MIF
      else None)"

text \<open>A flag at the end of the line takes the null pointer that ends \<^verbatim>\<open>argv\<close>.\<close>

fun parse_args :: "string list \<Rightarrow> options \<Rightarrow> options run" where
  "parse_args [] opt = Go opt"
| "parse_args (a # args) opt =
     (if a = ''-h'' then Ret 0
      else if a = ''-i'' then
        (case args of [] \<Rightarrow> Go (opt\<lparr>opt_input := None\<rparr>) | v # args \<Rightarrow> parse_args args (opt\<lparr>opt_input := Some v\<rparr>))
      else if a = ''-o'' then
        (case args of [] \<Rightarrow> Go (opt\<lparr>opt_output := None\<rparr>) | v # args \<Rightarrow> parse_args args (opt\<lparr>opt_output := Some v\<rparr>))
      else if a = ''-t'' then
        (case args of [] \<Rightarrow> Crash
         | v # args \<Rightarrow> (case parse_type v of Some t \<Rightarrow> parse_args args (opt\<lparr>opt_operation := t\<rparr>) | None \<Rightarrow> Ret (- 1)))
      else Ret (- 1))"

section \<open>Sections\<close>

text \<open>A section is its name and what reading it yields: its bytes, or nothing for an empty one.\<close>

record sections =
  text_sec :: "u8 list"
  rodata_sec :: "u8 list"
  data_sec :: "u8 list"

fun scan_sections :: "(string \<times> u8 list) list \<Rightarrow> sections \<Rightarrow> sections" where
  "scan_sections [] s = s"
| "scan_sections ((name, bytes) # shdrs) s =
     (let s = (if name = ''.text'' then s\<lparr>text_sec := bytes\<rparr> else s);
          s = (if name = ''.rodata'' then s\<lparr>rodata_sec := bytes\<rparr> else s);
          s = (if name = ''.data'' then s\<lparr>data_sec := bytes\<rparr> else s)
      in scan_sections shdrs s)"

definition raw_image :: "sections \<Rightarrow> u8 list" where
  "raw_image s = text_sec s @ rodata_sec s @ data_sec s"

text \<open>The size of the memory array: doubled in 32 bits, so that it may never get large enough.\<close>

partial_function (option) ext_size :: "u32 \<Rightarrow> u32 \<Rightarrow> u32 option" where
  "ext_size ext raw = (if ext < raw then ext_size (ext * 2) raw else Some ext)"

section \<open>Output files\<close>

record out_file =
  bytes :: "u8 list"
  fpos :: nat

definition fputc :: "u8 \<Rightarrow> out_file \<Rightarrow> out_file" where
  "fputc c f =
     f\<lparr>bytes := (if fpos f < List.length (bytes f) then (bytes f)[fpos f := c] else bytes f @ [c]), fpos := Suc (fpos f)\<rparr>"

definition fputs :: "u8 list \<Rightarrow> out_file \<Rightarrow> out_file" where
  "fputs s f = fold fputc s f"

definition rewind :: "out_file \<Rightarrow> out_file" where
  "rewind f = f\<lparr>fpos := 0\<rparr>"

definition write32 :: "u32 \<Rightarrow> out_file \<Rightarrow> out_file" where
  "write32 d f =
     fputc (ucast (drop_bit 24 d AND 0xff)) (fputc (ucast (drop_bit 16 d AND 0xff))
       (fputc (ucast (drop_bit 8 d AND 0xff)) (fputc (ucast (drop_bit 0 d AND 0xff)) f)))"

text \<open>The formats of \<^verbatim>\<open>snprintf\<close> the program uses: \<^verbatim>\<open>%08x\<close> and \<^verbatim>\<open>%u\<close>.\<close>

definition hex08 :: "u32 \<Rightarrow> u8 list" where
  "hex08 w = map (\<lambda>i. let d = drop_bit (4 * i) w AND 0xf in ucast (if d < 10 then 0x30 + d else 0x57 + d)) (rev [0..<8])"

definition dec_u :: "nat \<Rightarrow> u8 list" where
  "dec_u n = decimal n"

section \<open>Formats\<close>

text \<open>The words of the raw image: whole words only.\<close>

definition image_words :: "u8 list \<Rightarrow> u32 list" where
  "image_words raw = words_le raw"

definition gen_exe :: "u32 \<Rightarrow> u8 list \<Rightarrow> out_file \<Rightarrow> out_file" where
  "gen_exe entry raw f =
     (let f = fold (\<lambda>_. fputc 0) [0..<16] f;
          (checksum, f) = fold (\<lambda>w (checksum, f). (checksum + w, write32 w f)) (image_words raw) (0, f);
          f = rewind f;
          f = write32 BIN_SIGNATURE f;
          f = write32 entry f;
          f = write32 (of_nat (List.length raw)) f
      in write32 (NOT checksum) f)"

text \<open>The package is named after the output file, without its path and its suffix.\<close>

definition after_last :: "char \<Rightarrow> string \<Rightarrow> string" where
  "after_last c s = rev (takeWhile (\<lambda>x. x \<noteq> c) (rev s))"

definition before_last :: "char \<Rightarrow> string \<Rightarrow> string" where
  "before_last c s = (if c \<in> set s then rev (tl (dropWhile (\<lambda>x. x \<noteq> c) (rev s))) else s)"

definition pkg_name_of :: "string \<Rightarrow> string" where
  "pkg_name_of output_file =
     (let filename = (if CHR ''/'' \<in> set output_file then after_last (CHR ''/'') output_file
            else after_last (CHR 0x5C) output_file)
      in before_last (CHR ''.'') (take 255 filename))"

definition gen_vhd :: "u8 list \<Rightarrow> u32 \<Rightarrow> u8 list \<Rightarrow> out_file \<Rightarrow> out_file" where
  "gen_vhd pkg_name ext raw f =
     (let f = fputs (str ''library ieee;'' @ [10] @ str ''use ieee.std_logic_1164.all;'' @ [10, 10]
            @ str ''package '' @ pkg_name @ str '' is'' @ [10, 10]
            @ str ''type rom_t is array (0 to '' @ dec_u (unat (ext div 4 - 1)) @ str '') of std_ulogic_vector(31 downto 0);'' @ [10]
            @ str ''constant image_size_c : natural := '' @ dec_u (List.length raw) @ str '';'' @ [10]
            @ str ''constant image_data_c : rom_t := ('' @ [10]) f;
          f = fold (\<lambda>w. fputs (str ''x'' @ [0x22] @ hex08 w @ [0x22] @ str '','' @ [10])) (image_words raw) f
      in fputs (str ''others => (others => '' @ [0x27, 0x30, 0x27] @ str '')'' @ [10] @ str '');'' @ [10, 10]
            @ str ''end '' @ pkg_name @ str '';'' @ [10]) f)"

definition gen_bin :: "u8 list \<Rightarrow> out_file \<Rightarrow> out_file" where
  "gen_bin raw f = fold fputc raw f"

definition gen_coe :: "u8 list \<Rightarrow> out_file \<Rightarrow> out_file" where
  "gen_coe raw f =
     (let n = List.length (image_words raw);
          f = fputs (str ''memory_initialization_radix=16;'' @ [10]) f;
          f = fputs (str ''memory_initialization_vector='' @ [10]) f
      in fold (\<lambda>i. fputs (hex08 (image_words raw ! i) @ str (if i = n - 1 then '';'' else '','') @ [10])) [0..<n] f)"

definition gen_mem :: "u8 list \<Rightarrow> out_file \<Rightarrow> out_file" where
  "gen_mem raw f =
     fold (\<lambda>i. fputs (str ''@'' @ hex08 (of_nat i) @ str '' '' @ hex08 (image_words raw ! i) @ [10]))
       [0..<List.length (image_words raw)] f"

definition gen_mif :: "u8 list \<Rightarrow> out_file \<Rightarrow> out_file" where
  "gen_mif raw f =
     (let f = fputs (str ''DEPTH = '' @ dec_u (List.length raw div 4) @ str '';'' @ [10]) f;
          f = fputs (str ''WIDTH = 32;'' @ [10]) f;
          f = fputs (str ''ADDRESS_RADIX = HEX;'' @ [10]) f;
          f = fputs (str ''DATA_RADIX = HEX;'' @ [10]) f;
          f = fputs (str ''CONTENT'' @ [10]) f;
          f = fputs (str ''BEGIN'' @ [10]) f;
          f = fold (\<lambda>i. fputs (hex08 (of_nat i) @ str '' : '' @ hex08 (image_words raw ! i) @ str '';'' @ [10]))
                [0..<List.length (image_words raw)] f
      in fputs (str ''END;'' @ [10]) f)"

section \<open>The program\<close>

record elf =
  e_entry :: u32
  shdrs :: "(string \<times> u8 list) list"

text \<open>
  Opening and reading the ELF file (\<open>None\<close>: it cannot be opened; \<open>Some None\<close>: it is not an
  ELF file) and whether the output file can be created are parameters.  The error path of the
  latter closes the file that was not opened.
\<close>

definition image_gen ::
    "(string option \<Rightarrow> elf option option) \<Rightarrow> (string \<Rightarrow> bool) \<Rightarrow> string list \<Rightarrow> out_file run option" where
  "image_gen read_elf creatable args =
     (if args = [] then Some (Ret 0)
      else case parse_args args \<lparr>opt_input = None, opt_output = None, opt_operation = OP_EXE\<rparr> of
        Ret r \<Rightarrow> Some (Ret r)
      | Crash \<Rightarrow> Some Crash
      | Go opt \<Rightarrow>
        (case read_elf (opt_input opt) of
           None \<Rightarrow> Some (Ret (- 2))
         | Some input \<Rightarrow>
           (case opt_output opt of
              None \<Rightarrow> Some Crash
            | Some name \<Rightarrow>
              if \<not> creatable name then Some Crash
              else case input of None \<Rightarrow> Some (Ret (- 2)) | Some elf \<Rightarrow>
                let raw = raw_image (scan_sections (shdrs elf) \<lparr>text_sec = [], rodata_sec = [], data_sec = []\<rparr>);
                    raw_exe_size = of_nat (List.length raw);
                    f = \<lparr>bytes = [], fpos = 0\<rparr>
                in if raw_exe_size = 0 then Some (Ret (- 2))
                   else do {
                     ext \<leftarrow> ext_size 4 raw_exe_size;
                     Some (Go (case opt_operation opt of
                         OP_EXE \<Rightarrow> gen_exe (e_entry elf) raw f
                       | OP_VHD \<Rightarrow> gen_vhd (str (pkg_name_of name)) ext raw f
                       | OP_BIN \<Rightarrow> gen_bin raw f
                       | OP_COE \<Rightarrow> gen_coe raw f
                       | OP_MEM \<Rightarrow> gen_mem raw f
                       | OP_MIF \<Rightarrow> gen_mif raw f))
                   })))"

section \<open>Files\<close>

lemma fputs_append:
  "fpos f = List.length (bytes f) \<Longrightarrow> fputs s f = f\<lparr>bytes := bytes f @ s, fpos := List.length (bytes f) + List.length s\<rparr>"
proof (induction s arbitrary: f)
  case (Cons c s)
  have "fputc c f = f\<lparr>bytes := bytes f @ [c], fpos := Suc (List.length (bytes f))\<rparr>"
    using Cons.prems by (simp add: fputc_def)
  with Cons.IH [of "fputc c f"] show ?case by (simp add: fputs_def)
qed (simp add: fputs_def)

lemma fputs_overwrite:
  "fpos f + List.length s \<le> List.length (bytes f) \<Longrightarrow>
    fputs s f = f\<lparr>bytes := take (fpos f) (bytes f) @ s @ drop (fpos f + List.length s) (bytes f), fpos := fpos f + List.length s\<rparr>"
proof (induction s arbitrary: f)
  case (Cons c s)
  have lt: "fpos f < List.length (bytes f)" using Cons.prems by simp
  have c: "fputc c f = f\<lparr>bytes := (bytes f)[fpos f := c], fpos := Suc (fpos f)\<rparr>"
    using lt by (simp add: fputc_def)
  have "take (Suc (fpos f)) ((bytes f)[fpos f := c]) = take (fpos f) (bytes f) @ [c]"
    using lt by (simp add: take_Suc_conv_app_nth take_update_swap list_update_append)
  with Cons.IH [of "fputc c f"] Cons.prems show ?case
    by (simp add: c fputs_def)
qed (simp add: fputs_def)

lemma ucast_low8: "ucast (w AND 0xff :: u32) = (ucast w :: u8)"
proof -
  have m: "(0xff :: u32) = mask 8" by (simp add: mask_eq_exp_minus_1)
  show ?thesis unfolding m by (rule bit_word_eqI) (auto simp: bit_and_iff bit_mask_iff bit_ucast_iff)
qed

lemma write32_fputs: "write32 d f = fputs (bytes32 d) f"
  by (simp add: write32_def fputs_def bytes32_eq byte32_def ucast_low8)

lemma fputs_fputs: "fputs t (fputs s f) = fputs (s @ t) f"
  by (simp add: fputs_def)

lemma write_words:
  "fold (\<lambda>w (checksum, f). (checksum + w, write32 w f)) ws (c, f)
    = (c + sum_list ws, fputs (concat (map bytes32 ws)) f)"
proof (induction ws arbitrary: c f)
  case Nil
  then show ?case by (simp add: fputs_def)
next
  case (Cons w ws)
  then show ?case by (simp add: write32_fputs fputs_fputs add.assoc)
qed

text \<open>The header is written over its own space; the words follow.\<close>

lemma gen_exe_bytes:
  "bytes (gen_exe entry raw \<lparr>bytes = [], fpos = 0\<rparr>) =
     concat (map bytes32 ([BIN_SIGNATURE, entry, of_nat (List.length raw), NOT (sum_list (words_le raw))] @ words_le raw))"
proof -
  let ?f = "\<lparr>bytes = [], fpos = 0\<rparr>" and ?ws = "words_le raw"
  let ?h = "bytes32 BIN_SIGNATURE @ bytes32 entry @ bytes32 (of_nat (List.length raw)) @ bytes32 (NOT (sum_list ?ws))"
  have z: "fold (\<lambda>_. fputc 0) [0..<16] ?f = fputs (replicate 16 0) ?f"
    by (simp add: fputs_def upt_rec numeral_eq_Suc)
  have b: "fputs (replicate 16 0 @ concat (map bytes32 ?ws)) ?f
      = \<lparr>bytes = replicate 16 0 @ concat (map bytes32 ?ws), fpos = 16 + List.length (concat (map bytes32 ?ws))\<rparr>"
    by (subst fputs_append) simp_all
  have "gen_exe entry raw ?f = fputs ?h (rewind (fputs (replicate 16 0 @ concat (map bytes32 ?ws)) ?f))"
    by (simp add: gen_exe_def Let_def image_words_def z write_words) (simp add: write32_fputs fputs_fputs)
  also have "\<dots> = \<lparr>bytes = ?h @ concat (map bytes32 ?ws), fpos = 16\<rparr>"
    unfolding b rewind_def by (subst fputs_overwrite) simp_all
  finally show ?thesis by simp
qed

lemma words_le_concat: "words_le (concat (map bytes32 ws) @ bs) = ws @ words_le bs"
  by (induction ws) simp_all

lemma gen_exe_words:
  "words_le (bytes (gen_exe entry raw \<lparr>bytes = [], fpos = 0\<rparr>) @ bs) =
     [BIN_SIGNATURE, entry, of_nat (List.length raw), NOT (sum_list (words_le raw))] @ words_le raw @ words_le bs"
  unfolding gen_exe_bytes words_le_concat by simp

section \<open>The memory array\<close>

lemma BIT_double: "k < 31 \<Longrightarrow> BIT k * 2 = BIT (Suc k)" "BIT 31 * 2 = 0"
  by (simp_all add: BIT_def push_bit_eq_mult mult.commute)

lemma unat_BIT: "k < 32 \<Longrightarrow> unat (BIT k) = 2 ^ k"
  unfolding BIT_def unsigned_push_bit_eq
  by (simp add: push_bit_eq_mult take_bit_nat_eq_self)

lemma ext_size_pow2:
  assumes "k \<le> 31" "2 ^ k < 2 * unat raw \<or> k = 2" "unat raw \<le> 2 ^ 31"
  shows "\<exists>j. k \<le> j \<and> j \<le> 31 \<and> ext_size (BIT k) raw = Some (BIT j) \<and> unat raw \<le> 2 ^ j
    \<and> (2 ^ j < 2 * unat raw \<or> j = 2)"
  using assms
proof (induction "31 - k" arbitrary: k)
  case 0
  then have k: "k = 31" by simp
  then have "\<not> BIT k < raw" using 0(4) by (simp add: word_less_nat_alt unat_BIT)
  then show ?case using 0 k by (subst ext_size.simps) (auto intro!: exI [of _ 31])
next
  case (Suc n)
  then have k: "k < 31" by simp
  show ?case
  proof (cases "BIT k < raw")
    case True
    then have "2 ^ k < unat raw" using k by (simp add: word_less_nat_alt unat_BIT)
    then have "2 ^ Suc k < 2 * unat raw" by simp
    moreover have "n = 31 - Suc k" "Suc k \<le> 31" using Suc.hyps(2) k by simp_all
    ultimately obtain j where "Suc k \<le> j" "j \<le> 31" "ext_size (BIT (Suc k)) raw = Some (BIT j)" "unat raw \<le> 2 ^ j"
      "2 ^ j < 2 * unat raw \<or> j = 2" using Suc.hyps(1) [of "Suc k"] Suc.prems(3) by blast
    moreover have "ext_size (BIT k) raw = ext_size (BIT (Suc k)) raw"
      using True BIT_double(1) [OF k] by (subst ext_size.simps) simp
    ultimately show ?thesis by (intro exI [of _ j]) simp
  next
    case False
    then have "unat raw \<le> 2 ^ k" using k by (simp add: word_less_nat_alt unat_BIT)
    then show ?thesis using False Suc.prems by (subst ext_size.simps) (auto intro: exI [of _ k])
  qed
qed

lemma ext_size_loops:
  assumes "2 ^ 31 < unat raw" "ext = 0 \<or> (\<exists>k \<le> 31. ext = BIT k)"
  shows "ext_size ext raw = None"
proof -
  have "(ext = 0 \<or> (\<exists>k \<le> 31. ext = BIT k)) \<longrightarrow> 2 ^ 31 < unat raw \<longrightarrow> False" if y: "ext_size ext raw = Some y" for y
  proof (rule ext_size.raw_induct [where P = "\<lambda>e r y. (e = 0 \<or> (\<exists>k \<le> 31. e = BIT k)) \<longrightarrow> 2 ^ 31 < unat r \<longrightarrow> False", OF _ y], intro impI)
    fix f e r y'
    assume ih: "\<And>e r y. f e r = Some y \<Longrightarrow> (e = 0 \<or> (\<exists>k \<le> 31. e = BIT k)) \<longrightarrow> 2 ^ 31 < unat r \<longrightarrow> False"
      and step: "(if e < r then f (e * 2) r else Some e) = Some y'"
      and e: "e = 0 \<or> (\<exists>k \<le> 31. e = BIT k)" and r: "2 ^ 31 < unat r"
    have "unat e \<le> 2 ^ 31"
    proof -
      have "unat (BIT k) \<le> 2 ^ 31" if "k \<le> 31" for k
        using that power_increasing [of k 31 "2 :: nat"] by (simp add: unat_BIT)
      with e show ?thesis by auto
    qed
    with r have "e < r" by (simp add: word_less_nat_alt)
    with step have "f (e * 2) r = Some y'" by simp
    moreover have "e * 2 = 0 \<or> (\<exists>k \<le> 31. e * 2 = BIT k)"
      using e BIT_double by (metis Suc_leI le_eq_less_or_eq mult_zero_left)
    ultimately show False using ih r by blast
  qed
  with assms show ?thesis by (cases "ext_size ext raw") auto
qed

lemma ext_size_least:
  "ext_size 4 raw = (if unat raw \<le> 2 ^ 31 then Some (BIT (max 2 (LEAST j. unat raw \<le> 2 ^ j))) else None)"
proof -
  have four: "4 = BIT 2" by (simp add: BIT_def)
  show ?thesis
  proof (cases "unat raw \<le> 2 ^ 31")
    case True
    from ext_size_pow2 [of 2 raw] True obtain j where j: "2 \<le> j" "ext_size (BIT 2) raw = Some (BIT j)"
      "unat raw \<le> 2 ^ j" "2 ^ j < 2 * unat raw \<or> j = 2" by auto
    have "max 2 (LEAST j. unat raw \<le> 2 ^ j) = j"
    proof (cases "j = 2")
      case True
      then have "(LEAST j. unat raw \<le> 2 ^ j) \<le> 2" using j(3) by (intro Least_le) simp
      with True show ?thesis by simp
    next
      case False
      then have big: "2 ^ j < 2 * unat raw" using j(4) by simp
      have "(LEAST j. unat raw \<le> 2 ^ j) = j"
      proof (rule Least_equality [where P = "\<lambda>j. unat raw \<le> 2 ^ j"])
        show "unat raw \<le> 2 ^ j" by (rule j(3))
      next
        fix i assume i: "unat raw \<le> 2 ^ i"
        show "j \<le> i"
        proof (rule ccontr)
          assume "\<not> j \<le> i"
          then have "(2 :: nat) ^ Suc i \<le> 2 ^ j" by (intro power_increasing) simp_all
          with i big show False by simp
        qed
      qed
      with j(1) show ?thesis by simp
    qed
    with True j(2) show ?thesis unfolding four by simp
  next
    case False
    moreover have "\<exists>k \<le> 31. BIT 2 = BIT k" by (intro exI [of _ 2]) simp
    ultimately show ?thesis unfolding four using ext_size_loops [of raw "BIT 2"] by simp
  qed
qed

end
