(* ===== verification/Boot_Main.thy ===== *)
theory Boot_Main
  imports Boot_Load Spi_Flash Image_Gen
begin

text \<open>
  The main program of the bootloader, \<^verbatim>\<open>sw/bootloader/main.c\<close>, in the default
  configuration: auto-boot from SPI flash, then the console.  The address of the trap handler
  and the build date are parameters.  Uploading the output of the image generator and starting
  it is followed from the characters on the line to the jump.
\<close>

section \<open>The program\<close>

definition AUTO_BOOT_TIMEOUT :: u32 where "AUTO_BOOT_TIMEOUT = 8"

text \<open>Waiting for the time-out or a key; the result says whether a key was pressed.\<close>

partial_function (option) auto_boot_wait :: "u64 \<Rightarrow> mach \<Rightarrow> (bool \<times> mach) option" where
  "auto_boot_wait timeout_time m =
     do {
       let (uart, m) = neorv32_uart_available UART0 m;
       let (received, m) = (if uart \<noteq> 0 then neorv32_uart_char_received UART0 m else (0, m));
       if received \<noteq> 0 then do {
         let (_, m) = neorv32_uart_char_received_get UART0 m;
         m \<leftarrow> uart_puts (str ''Aborted.'' @ [10, 10]) m;
         Some (True, m)
       }
       else do {
         (t, m) \<leftarrow> neorv32_clint_time_get m;
         if timeout_time \<le> t then Some (False, m) else auto_boot_wait timeout_time m
       }
     }"

text \<open>The auto-boot sequence: the time-out in cycles is computed with 32 bits.\<close>

definition auto_boot :: "boot \<Rightarrow> boot_outcome option" where
  "auto_boot b =
     do {
       m \<leftarrow> uart_puts (str ''Auto-boot'') (cpu b);
       let (clint, m) = neorv32_clint_available m;
       (key, m) \<leftarrow> (if clint \<noteq> 0 then do {
           m \<leftarrow> uart_puts (str '' in 8s. Press any key to abort.'' @ [10]) m;
           (t, m) \<leftarrow> neorv32_clint_time_get m;
           let (clk, m) = neorv32_sysinfo_get_clk m;
           auto_boot_wait (t + ucast (AUTO_BOOT_TIMEOUT * clk)) m
         } else Some (False, m));
       if key then Some (Continue (b\<lparr>cpu := m\<rparr>))
       else do {
         m \<leftarrow> uart_putc 10 m;
         m \<leftarrow> uart_puts (str ''Loading from SPI flash @0x00400000... '') m;
         (r, b) \<leftarrow> system_app_load spi_flash_setup spi_flash_stream_get (b\<lparr>cpu := m\<rparr>);
         if r = 0 then system_app_boot b else Some (Continue b)
       }
     }"

definition help_text :: "u8 list" where
  "help_text =
     str ''Available CMDs:'' @ [10] @
     str ''h: Help'' @ [10] @
     str ''i: System info'' @ [10] @
     str ''r: Restart'' @ [10] @
     str ''u: Upload via UART'' @ [10] @
     str ''l: SPI flash - load'' @ [10] @
     str ''s: SPI flash - program'' @ [10] @
     str ''e: Start executable'' @ [10] @
     str ''x: Exit'' @ [10]"

definition system_info :: "mach \<Rightarrow> mach option" where
  "system_info m =
     do {
       m \<leftarrow> uart_puts (str ''HWV:  '') m;
       let (v, m) = neorv32_cpu_csr_read CSR_MIMPID m;
       m \<leftarrow> uart_puth v m;
       m \<leftarrow> uart_puts ([10] @ str ''CLK:  '') m;
       let (v, m) = rd SYSINFO_CLK m;
       m \<leftarrow> uart_puth v m;
       m \<leftarrow> uart_puts ([10] @ str ''MISA: '') m;
       let (v, m) = neorv32_cpu_csr_read CSR_MISA m;
       m \<leftarrow> uart_puth v m;
       m \<leftarrow> uart_puts ([10] @ str ''XISA: '') m;
       let (v, m) = neorv32_cpu_csr_read CSR_MXISAH m;
       m \<leftarrow> uart_puth v m;
       m \<leftarrow> uart_putc 0x3a m;
       let (v, m) = neorv32_cpu_csr_read CSR_MXISA m;
       m \<leftarrow> uart_puth v m;
       m \<leftarrow> uart_puts ([10] @ str ''SOC:  '') m;
       let (v, m) = rd SYSINFO_SOC m;
       m \<leftarrow> uart_puth v m;
       m \<leftarrow> uart_puts ([10] @ str ''MISC: '') m;
       let (v, m) = rd SYSINFO_MISC m;
       m \<leftarrow> uart_puth v m;
       uart_puts [10] m
     }"

text \<open>
  One command.  \<open>Continue\<close> asks for the next prompt, \<open>Jump\<close> leaves the bootloader, \<open>Halted\<close>
  is the exception at the end of the program.
\<close>

definition run_command :: "u8 \<Rightarrow> boot \<Rightarrow> boot_outcome option" where
  "run_command cmd b =
     (if cmd = 0x72 then Some (Jump NEORV32_BOOTROM_BASE b)
      else if cmd = 0x75 then do {
        b \<leftarrow> on_cpu (uart_puts (str ''Awaiting neorv32_exe.bin... '')) b;
        (r, b) \<leftarrow> system_app_load uart_setup uart_stream_get b;
        Some (if r \<noteq> 0 then Halted b else Continue b)
      }
      else if cmd = 0x65 then system_app_boot b
      else if cmd = 0x78 then Some (Halted b)
      else if cmd = 0x68 then do { b \<leftarrow> on_cpu (uart_puts help_text) b; Some (Continue b) }
      else if cmd = 0x69 then do { b \<leftarrow> on_cpu system_info b; Some (Continue b) }
      else if cmd = 0x73 then do {
        (_, b) \<leftarrow> system_app_store spi_flash_setup spi_flash_erase spi_flash_stream_put b;
        Some (Continue b)
      }
      else if cmd = 0x6c then do {
        b \<leftarrow> on_cpu (uart_puts (str ''Loading from SPI flash @0x00400000... '')) b;
        (_, b) \<leftarrow> system_app_load spi_flash_setup spi_flash_stream_get b;
        Some (Continue b)
      }
      else Some (Continue b))"

partial_function (option) console_loop :: "boot \<Rightarrow> boot_outcome option" where
  "console_loop b =
     do {
       m \<leftarrow> uart_puts (str ''CMD:> '') (cpu b);
       (cmd, m) \<leftarrow> uart_getc m;
       m \<leftarrow> uart_putc cmd m;
       m \<leftarrow> uart_putc 10 m;
       out \<leftarrow> run_command cmd (b\<lparr>cpu := m\<rparr>);
       case out of Continue b \<Rightarrow> console_loop b | _ \<Rightarrow> Some out
     }"

definition boot_main :: "u32 \<Rightarrow> u8 list \<Rightarrow> mach \<Rightarrow> boot_outcome option" where
  "boot_main handler date m =
     do {
       m \<leftarrow> system_setup handler m;
       m \<leftarrow> uart_puts ([10, 10] @ str ''NEORV32 Bootloader'' @ [10] @ str ''build: '' @ date @ [10, 10]) m;
       out \<leftarrow> auto_boot (boot_init m);
       case out of
         Continue b \<Rightarrow> do { b \<leftarrow> on_cpu (uart_puts (str ''Type '' @ [0x27, 0x68, 0x27] @ str '' for help.'' @ [10])) b; console_loop b }
       | _ \<Rightarrow> Some out
     }"

section \<open>The transmitter becomes idle\<close>

lemma tx_busy_bit:
  assumes "uart_ok p txd rxd rest U input m"
  shows "rd_val (UART_CTRL U) m AND BIT (uart_ctrl UART_CTRL_TX_BUSY) \<noteq> 0
    \<longleftrightarrow> u_tx (uart_state U p txd rxd input (log m)) \<noteq> []"
proof -
  let ?d = "uart_state U p txd rxd input (log m)"
  have "bit (u_ctrl ?d AND uart_rw_bits) 31 = False" by (simp add: bit_and_iff uart_rw_bits_def)
  then have "\<not> bit (u_ctrl ?d) 31" by (simp add: uart_state_ctrl)
  then show ?thesis using assms
    by (simp add: uart_ok_def rd_val_def uart_rtl_def Let_def uart_ctrl_read_def bit_or_iff)
qed

lemma tx_drains:
  assumes "uart_ok p txd rxd rest U input m"
  shows "\<exists>n. \<not> (rd_val (UART_CTRL U) (rds (UART_CTRL U) n m) AND BIT (uart_ctrl UART_CTRL_TX_BUSY) \<noteq> 0)"
  using assms
proof (induction "List.length (u_tx (uart_state U p txd rxd input (log m)))" arbitrary: m rule: less_induct)
  case less
  have okr: "uart_ok p txd rxd rest U input (rds (UART_CTRL U) n m)" for n
    using less.prems by (rule ok_rds_rtl)
  show ?case
  proof (cases "u_tx (uart_state U p txd rxd input (log m)) = []")
    case True
    then show ?thesis using tx_busy_bit [OF less.prems] by (intro exI [of _ 0]) simp
  next
    case False
    from tx_fifo_shrinks [OF less.prems this] obtain n where
      "List.length (u_tx (uart_state U p txd rxd input (log (rds (UART_CTRL U) n m))))
        < List.length (u_tx (uart_state U p txd rxd input (log m)))" ..
    from less.hyps [OF this okr] obtain k where
      "\<not> (rd_val (UART_CTRL U) (rds (UART_CTRL U) k (rds (UART_CTRL U) n m)) AND BIT (uart_ctrl UART_CTRL_TX_BUSY) \<noteq> 0)" by blast
    then show ?thesis unfolding rds_add by blast
  qed
qed

section \<open>Booting\<close>

text \<open>The locations that booting writes.\<close>

definition boot_locs :: "loc set" where
  "boot_locs = console_locs \<union> {GPIO_PORT_OUT, Csr CSR_MSTATUS, Csr CSR_MEPC}"

lemma boot_locs_foreign: "Csr x \<notin> console_locs" "GPIO_PORT_OUT \<notin> console_locs"
  by (simp_all add: console_locs_def UART0_def UART_CTRL_def UART_DATA_def NEORV32_UART0_BASE_def
      SYSINFO_SOC_def NEORV32_SYSINFO_BASE_def GPIO_PORT_OUT_def NEORV32_GPIO_BASE_def)

lemma boot_jumps:
  assumes "console_ok p txd rxd rest input (cpu b)" "g_exe_size b \<noteq> 0"
  shows "\<exists>m'. system_app_boot b = Some (Jump (g_exe_base b) (b\<lparr>cpu := m'\<rparr>))
    \<and> console_ok p txd rxd rest input m' \<and> u_tx (uart_state UART0 p txd rxd input (log m')) = []
    \<and> written (Csr CSR_MEPC) m' = written (Csr CSR_MEPC) (cpu b) @ [g_exe_base b]
    \<and> (\<forall>l. l \<notin> boot_locs \<longrightarrow> written l m' = written l (cpu b))"
proof -
  let ?C = "console_ok p txd rxd rest input"
  let ?m0 = "neorv32_cpu_csr_write CSR_MSTATUS (BIT (csr_mstatus CSR_MSTATUS_MPP_H) + BIT (csr_mstatus CSR_MSTATUS_MPP_L)) (cpu b)"
  have c0: "?C ?m0" using upload_store(1) [OF assms(1) boot_locs_foreign(1)] by (simp add: neorv32_cpu_csr_write_def)
  obtain g m1 where g: "neorv32_gpio_available ?m0 = (g, m1)" by fastforce
  have m1: "m1 = snd (rd SYSINFO_SOC ?m0)"
    using g by (simp add: neorv32_gpio_available_def soc_test_def rd_def)
  have c1: "?C m1" unfolding m1 using c0 console_available(2) [OF c0] by (simp add: available_UART0(2))
  let ?m2 = "if g \<noteq> 0 then neorv32_gpio_port_set 0 m1 else m1"
  have c2: "?C ?m2" using c1 upload_store(1) [OF c1 boot_locs_foreign(2)] by (simp add: neorv32_gpio_port_set_def)
  obtain m3 where m3: "uart_puts (str ''Booting from '') ?m2 = Some m3" "?C m3" "only_locs console_locs ?m2 m3"
    using upload_puts [OF c2] by blast
  obtain m4 where m4: "uart_puth (g_exe_base b) m3 = Some m4" "?C m4" "only_locs console_locs m3 m4"
    using console_puth [OF m3(2)] by blast
  obtain m5 where m5: "uart_puts (str ''...'' @ [10, 10]) m4 = Some m5" "?C m5" "only_locs console_locs m4 m5"
    using upload_puts [OF m4(2)] by blast
  have ok5: "uart_ok p txd rxd rest UART0 input m5" using m5(2) by (simp add: console_ok_def)
  let ?busy = "\<lambda>v. v AND BIT (uart_ctrl UART_CTRL_TX_BUSY) \<noteq> 0"
  obtain n where "\<not> ?busy (rd_val (UART_CTRL UART0) (rds (UART_CTRL UART0) n m5))" using tx_drains [OF ok5] by blast
  from poll_ready [where busy = ?busy, OF this] obtain m6 where m6: "poll ?busy (UART_CTRL UART0) m5 = Some m6" by blast
  from poll_Some_D [OF m6] obtain k where k: "m6 = rds (UART_CTRL UART0) (Suc k) m5"
    "\<not> ?busy (rd_val (UART_CTRL UART0) (rds (UART_CTRL UART0) k m5))" by blast
  have okk: "uart_ok p txd rxd rest UART0 input (rds (UART_CTRL UART0) k m5)" using ok5 by (rule ok_rds_rtl)
  have t6: "u_tx (uart_state UART0 p txd rxd input (log m6)) = []"
    using tx_busy_bit [OF okk] k(2) okk
      uart_cycle_out(2) [of "uart_state UART0 p txd rxd input (log (rds (UART_CTRL UART0) k m5))" p rxd]
    by (simp add: k(1) rds_snoc st_rd_ctrl uart_ok_def Let_def del: rds_Suc)
  have c6: "?C m6" unfolding k(1) using m5(2) ok_rds_rtl [OF ok5] by (simp add: console_ok_def del: rds_Suc)
  let ?m7 = "neorv32_cpu_csr_write CSR_MEPC (g_exe_base b) (tick FenceI m6)"
  have c7: "?C ?m7" using upload_store(1) [OF upload_fence(1) [OF c6] boot_locs_foreign(1)]
    by (simp add: neorv32_cpu_csr_write_def)
  have "system_app_boot b = Some (Jump (g_exe_base b) (b\<lparr>cpu := ?m7\<rparr>))"
    using assms(2) g m3(1) m4(1) m5(1) m6
    by (simp add: system_app_boot_def Let_def del: uart_puts.simps)
  moreover have t7: "u_tx (uart_state UART0 p txd rxd input (log ?m7)) = []"
  proof -
    have en: "u_en (uart_state UART0 p txd rxd input (log m6))" using c6 by (simp add: console_ok_def uart_ok_def Let_def)
    let ?d1 = "uart_state UART0 p txd rxd input (log (tick FenceI m6))"
    have "u_en ?d1" "u_tx ?d1 = []"
      using en t6 uart_cycle_out(2) [OF en, of p rxd "List.length (log m6)"] by (simp_all add: uart_bus_def u_en_def)
    then show ?thesis
      using uart_cycle_out(2) [of "uart_bus UART0 txd (Wr (Csr CSR_MEPC) (g_exe_base b)) ?d1" p rxd "Suc (List.length (log m6))"]
      by (simp add: neorv32_cpu_csr_write_def wr_def uart_bus_def UART_CTRL_def UART_DATA_def)
  qed
  moreover have w: "written l ?m7 = written l ?m2 @ (if l = Csr CSR_MEPC then [g_exe_base b] else [])" if "l \<notin> console_locs" for l
    using written_only_locs [OF m3(3) that] written_only_locs [OF m4(3) that] written_only_locs [OF m5(3) that]
    by (simp add: neorv32_cpu_csr_write_def k(1) del: rds_Suc)
  have "written l ?m2 = written l (cpu b)" if "l \<noteq> GPIO_PORT_OUT" "l \<noteq> Csr CSR_MSTATUS" for l
    using that by (simp add: m1 neorv32_gpio_port_set_def neorv32_cpu_csr_write_def)
  moreover have "Csr CSR_MEPC \<noteq> GPIO_PORT_OUT" "CSR_MEPC \<noteq> CSR_MSTATUS"
    by (simp_all add: GPIO_PORT_OUT_def CSR_MEPC_def CSR_MSTATUS_def)
  ultimately show ?thesis using c7 w boot_locs_foreign(1)
    by (intro exI [of _ ?m7]) (auto simp: boot_locs_def)
qed

section \<open>One turn of the console\<close>

lemma console_turn:
  assumes "console_ok p txd rxd rest input (cpu b)" "uart_pos p txd rxd UART0 input (cpu b) < List.length input"
  shows "\<exists>m'. console_loop b = do {
        out \<leftarrow> run_command (input ! uart_pos p txd rxd UART0 input (cpu b)) (b\<lparr>cpu := m'\<rparr>);
        case out of Continue b \<Rightarrow> console_loop b | _ \<Rightarrow> Some out }
    \<and> console_ok p txd rxd rest input m'
    \<and> uart_pos p txd rxd UART0 input m' = Suc (uart_pos p txd rxd UART0 input (cpu b))
    \<and> only_locs console_locs (cpu b) m'"
proof -
  let ?C = "console_ok p txd rxd rest input" and ?P = "uart_pos p txd rxd UART0 input"
  let ?c = "input ! ?P (cpu b)"
  obtain m1 where m1: "uart_puts (str ''CMD:> '') (cpu b) = Some m1" "?C m1" "?P m1 = ?P (cpu b)"
    "only_locs console_locs (cpu b) m1" using upload_puts [OF assms(1)] by blast
  have "?P m1 < List.length input" using assms(2) m1(3) by simp
  from console_getc [OF m1(2) this] obtain m2 where m2: "uart_getc m1 = Some (?c, m2)" "?C m2"
    "?P m2 = Suc (?P (cpu b))" using m1(3) by auto
  obtain m3 where m3: "uart_putc ?c m2 = Some m3" "?C m3" "?P m3 = ?P m2" using console_putc [OF m2(2)] by blast
  obtain m4 where m4: "uart_putc 10 m3 = Some m4" "?C m4" "?P m4 = ?P m3" using console_putc [OF m3(2)] by blast
  have "only_locs console_locs (cpu b) m4"
    using m1(4) getc_only [OF m2(1)] uart_putc_only [OF m3(1)] uart_putc_only [OF m4(1)]
    by (blast intro: only_locs_trans)
  moreover have "console_loop b = do {
        out \<leftarrow> run_command ?c (b\<lparr>cpu := m4\<rparr>);
        case out of Continue b \<Rightarrow> console_loop b | _ \<Rightarrow> Some out }"
    by (subst console_loop.simps) (simp add: m1(1) m2(1) m3(1) m4(1) del: uart_puts.simps)
  ultimately show ?thesis using m2(3) m3(3) m4(2,3) by auto
qed

lemma command_upload:
  assumes "console_ok p txd rxd rest input (cpu b)"
    and "words_le (drop (uart_pos p txd rxd UART0 input (cpu b)) input) = [BIN_SIGNATURE, base, sz, chk] @ ws @ surplus"
    and "List.length ws = words_of sz" "unat sz \<le> 2 ^ 32 - 4" "chk + sum_list ws + 1 = 0"
    and "\<forall>j < words_of sz. Mem W32 (base + of_nat (4 * j)) \<notin> console_locs
      \<and> storable (cpu b) (base + of_nat (4 * j))"
  shows "\<exists>b'. run_command 0x75 b = Some (Continue b') \<and> console_ok p txd rxd rest input (cpu b')
    \<and> uart_pos p txd rxd UART0 input (cpu b') = uart_pos p txd rxd UART0 input (cpu b) + 4 * (4 + words_of sz)
    \<and> g_exe_base b' = base \<and> g_exe_size b' = sz
    \<and> (\<forall>l. l \<notin> console_locs \<longrightarrow> written l (cpu b') = written l (cpu b) @ placed l base ws)"
proof -
  let ?n = "uart_pos p txd rxd UART0 input (cpu b)"
  from upload_puts [OF assms(1), of "str ''Awaiting neorv32_exe.bin... ''"] obtain m1 where
    m1: "uart_puts (str ''Awaiting neorv32_exe.bin... '') (cpu b) = Some m1" "console_ok p txd rxd rest input m1"
      "uart_pos p txd rxd UART0 input m1 = ?n" "only_locs console_locs (cpu b) m1" by blast
  let ?b1 = "b\<lparr>cpu := m1\<rparr>" and ?b2 = "b\<lparr>cpu := m1, g_exe_size := 0\<rparr>"
  have su: "uart_setup (?b1\<lparr>g_exe_size := 0\<rparr>) = Some (0, ?b2)" by (simp add: uart_setup_def)
  have ok: "upload_ok p txd rxd rest input ?n ?b2" using m1(2,3) by (simp add: upload_ok_def)
  have "upload_pos p txd rxd input ?n ?b2 = 0" "g_exe_size ?b2 = 0" using m1(3) by (simp_all add: upload_pos_def)
  moreover have "storable (cpu ?b2) x = storable (cpu b) x" for x
    by (rule storable_hw) (use m1(4) in \<open>simp add: only_locs_def\<close>)
  with assms(6) have "\<forall>j < words_of sz. Mem W32 (base + of_nat (4 * j)) \<notin> console_locs
      \<and> storable (cpu ?b2) (base + of_nat (4 * j))" by blast
  ultimately have "upload_pos p txd rxd input ?n ?b2 = 0" "g_exe_size ?b2 = 0"
    "\<forall>j < words_of sz. Mem W32 (base + of_nat (4 * j)) \<notin> console_locs
      \<and> storable (cpu ?b2) (base + of_nat (4 * j))" by blast+
  from upload.app_load [where dev_init = uart_setup and b = ?b1, OF su ok this(1,2) assms(2-4) this(3)] assms(5)
  obtain b' where b': "system_app_load uart_setup uart_stream_get ?b1 = Some (0, b')"
    "g_exe_base b' = base" "g_exe_size b' = sz" "upload_ok p txd rxd rest input ?n b'"
    "upload_pos p txd rxd input ?n b' = 4 + words_of sz"
    "\<forall>l. l \<notin> console_locs \<longrightarrow> written l (cpu b') = written l m1 @ placed l base ws"
    by (auto simp: valid_image_def)
  have "run_command 0x75 b = Some (Continue b')"
    by (simp add: run_command_def on_cpu_def m1(1) b'(1) del: uart_puts.simps)
  with b' written_only_locs [OF m1(4)] show ?thesis by (auto simp: upload_ok_def upload_pos_def)
qed

text \<open>The two turns of the console that run a program: the upload command with an image, and execute.\<close>

lemma next_char:
  assumes "drop n input = c # s"
  shows "n < List.length input" "input ! n = c" "drop (Suc n) input = s"
proof -
  show *: "n < List.length input" using assms by (rule_tac ccontr) simp
  from assms Cons_nth_drop_Suc [OF *] show "input ! n = c" "drop (Suc n) input = s" by simp_all
qed

lemma upload_turn:
  assumes "console_ok p txd rxd rest input (cpu b)"
    and "drop (uart_pos p txd rxd UART0 input (cpu b)) input = 0x75 # file @ s"
    and "words_le (file @ s) = [BIN_SIGNATURE, base, sz, chk] @ ws @ surplus"
    and "List.length file = 4 * (4 + words_of sz)"
    and "List.length ws = words_of sz" "unat sz \<le> 2 ^ 32 - 4" "chk + sum_list ws + 1 = 0"
    and "\<forall>j < words_of sz. Mem W32 (base + of_nat (4 * j)) \<notin> console_locs
      \<and> storable (cpu b) (base + of_nat (4 * j))"
  shows "\<exists>b'. console_loop b = console_loop b' \<and> console_ok p txd rxd rest input (cpu b')
    \<and> drop (uart_pos p txd rxd UART0 input (cpu b')) input = s \<and> g_exe_base b' = base \<and> g_exe_size b' = sz
    \<and> (\<forall>l. l \<notin> console_locs \<longrightarrow> written l (cpu b') = written l (cpu b) @ placed l base ws)"
proof -
  let ?P = "uart_pos p txd rxd UART0 input" and ?C = "console_ok p txd rxd rest input"
  note split = next_char [OF assms(2)]
  from console_turn [OF assms(1) split(1)] split(2) obtain m1 where m1:
    "console_loop b = do { out \<leftarrow> run_command 0x75 (b\<lparr>cpu := m1\<rparr>); case out of Continue b \<Rightarrow> console_loop b | _ \<Rightarrow> Some out }"
    "?C m1" "?P m1 = Suc (?P (cpu b))" "only_locs console_locs (cpu b) m1" by auto
  let ?b1 = "b\<lparr>cpu := m1\<rparr>"
  have c1: "?C (cpu ?b1)" using m1(2) by simp
  have w1: "words_le (drop (?P (cpu ?b1)) input) = [BIN_SIGNATURE, base, sz, chk] @ ws @ surplus"
    using assms(3) by (simp add: m1(3) split(3))
  have "storable (cpu ?b1) x = storable (cpu b) x" for x
    by (rule storable_hw) (use m1(4) in \<open>simp add: only_locs_def\<close>)
  with assms(8) have mem: "\<forall>j < words_of sz. Mem W32 (base + of_nat (4 * j)) \<notin> console_locs
      \<and> storable (cpu ?b1) (base + of_nat (4 * j))" by blast
  from command_upload [OF c1 w1 assms(5-7) mem] obtain b2 where b2: "run_command 0x75 ?b1 = Some (Continue b2)"
    "?C (cpu b2)" "?P (cpu b2) = ?P m1 + 4 * (4 + words_of sz)" "g_exe_base b2 = base" "g_exe_size b2 = sz"
    "\<forall>l. l \<notin> console_locs \<longrightarrow> written l (cpu b2) = written l m1 @ placed l base ws" by auto
  have "?P (cpu b2) = List.length file + Suc (?P (cpu b))" by (simp add: b2(3) m1(3) assms(4))
  then have "drop (?P (cpu b2)) input = s" by (simp only: split(3) append_eq_conv_conj flip: drop_drop) simp
  with b2 m1(1) written_only_locs [OF m1(4)] show ?thesis by (intro exI [of _ b2]) simp
qed

lemma execute_turn:
  assumes "console_ok p txd rxd rest input (cpu b)"
    and "drop (uart_pos p txd rxd UART0 input (cpu b)) input = 0x65 # s" "g_exe_size b \<noteq> 0"
  shows "\<exists>m'. console_loop b = Some (Jump (g_exe_base b) (b\<lparr>cpu := m'\<rparr>))
    \<and> u_tx (uart_state UART0 p txd rxd input (log m')) = []
    \<and> written (Csr CSR_MEPC) m' = written (Csr CSR_MEPC) (cpu b) @ [g_exe_base b]
    \<and> (\<forall>l. l \<notin> boot_locs \<longrightarrow> written l m' = written l (cpu b))"
proof -
  note split = next_char [OF assms(2)]
  from console_turn [OF assms(1) split(1)] split(2) obtain m3 where m3:
    "console_loop b = do { out \<leftarrow> run_command 0x65 (b\<lparr>cpu := m3\<rparr>); case out of Continue b \<Rightarrow> console_loop b | _ \<Rightarrow> Some out }"
    "console_ok p txd rxd rest input m3" "only_locs console_locs (cpu b) m3" by auto
  from boot_jumps [of p txd rxd rest input "b\<lparr>cpu := m3\<rparr>"] m3(2) assms(3) obtain m4 where m4:
    "system_app_boot (b\<lparr>cpu := m3\<rparr>) = Some (Jump (g_exe_base b) (b\<lparr>cpu := m4\<rparr>))"
    "u_tx (uart_state UART0 p txd rxd input (log m4)) = []"
    "written (Csr CSR_MEPC) m4 = written (Csr CSR_MEPC) m3 @ [g_exe_base b]"
    "\<forall>l. l \<notin> boot_locs \<longrightarrow> written l m4 = written l m3" by auto
  have "console_loop b = Some (Jump (g_exe_base b) (b\<lparr>cpu := m4\<rparr>))"
    by (simp add: m3(1) run_command_def [of "0x65"] m4(1))
  with m4(2-4) written_only_locs [OF m3(3)] boot_locs_foreign(1) show ?thesis
    by (intro exI [of _ m4]) (simp add: boot_locs_def)
qed

end
