(* ===== verification/Rte.thy ===== *)
theory Rte
  imports Boot_Hal
begin

text \<open>
  The runtime environment, \<^verbatim>\<open>sw/lib/source/neorv32_rte.c\<close>: the vector table, the
  first-level trap handler in assembly, the panic handler and the access of a handler to the
  registers of the interrupted program.  The build is RV32I, with or without the C extension.
  The assembly is one function per instruction on the machine and the register file; the
  addresses that the linker chooses are a parameter, and so is what a call of a handler does.
\<close>

section \<open>Linker symbols\<close>

text \<open>
  The addresses of \<^verbatim>\<open>__neorv32_rte_core\<close>, \<^verbatim>\<open>__neorv32_rte_panic\<close>, the vector
  table and the instruction after the call of the handler.
\<close>

record rte_image =
  rte_core_at :: u32
  rte_panic_at :: u32
  vector_lut :: u32
  rte_resume_at :: u32

definition vector_slot :: "rte_image \<Rightarrow> nat \<Rightarrow> nat \<Rightarrow> loc" where
  "vector_slot im row i = Mem W32 (vector_lut im + of_nat (128 * row + 4 * i))"

section \<open>Output\<close>

definition RTE_TERM_HL_ON :: "u8 list" where "RTE_TERM_HL_ON = 27 # str ''[1;31m''"
definition RTE_TERM_HL_OFF :: "u8 list" where "RTE_TERM_HL_OFF = 27 # str ''[0m''"

definition rte_puts :: "u8 list \<Rightarrow> mach \<Rightarrow> mach option" where
  "rte_puts s m =
     (let (uart, m) = neorv32_uart_available UART0 m
      in if uart \<noteq> 0 then neorv32_uart_puts UART0 s m else Some m)"

definition rte_hex :: "u8 list" where "rte_hex = str ''0123456789ABCDEF''"

fun rte_puth_digits :: "u32 \<Rightarrow> nat list \<Rightarrow> mach \<Rightarrow> mach option" where
  "rte_puth_digits num [] m = Some m"
| "rte_puth_digits num (i # is) m =
     do {
       m \<leftarrow> neorv32_uart_putc UART0 (rte_hex ! unat (drop_bit (28 - 4 * i) num AND 0xf)) m;
       rte_puth_digits num is m
     }"

definition rte_puth :: "u32 \<Rightarrow> mach \<Rightarrow> mach option" where
  "rte_puth num m =
     (let (uart, m) = neorv32_uart_available UART0 m
      in if uart \<noteq> 0 then do {
           m \<leftarrow> neorv32_uart_putc UART0 0x30 m;
           m \<leftarrow> neorv32_uart_putc UART0 0x78 m;
           rte_puth_digits num [0..<8] m
         } else Some m)"

section \<open>Panic handler\<close>

text \<open>The name printed for a trap cause and whether it is fatal; \<open>None\<close> is an unknown cause.\<close>

definition panic_cause :: "u32 \<Rightarrow> (string \<times> bool) option" where
  "panic_cause = map_of
    [(trap_code_of TRAP_CODE_I_ACCESS, (''Instruction access fault'', True)),
     (trap_code_of TRAP_CODE_I_ILLEGAL, (''Illegal instruction'', False)),
     (trap_code_of TRAP_CODE_I_MISALIGNED, (''Instruction address misaligned'', True)),
     (trap_code_of TRAP_CODE_BREAKPOINT, (''Environment breakpoint'', False)),
     (trap_code_of TRAP_CODE_L_MISALIGNED, (''Load address misaligned'', False)),
     (trap_code_of TRAP_CODE_L_ACCESS, (''Load access fault'', False)),
     (trap_code_of TRAP_CODE_S_MISALIGNED, (''Store address misaligned'', False)),
     (trap_code_of TRAP_CODE_S_ACCESS, (''Store access fault'', False)),
     (trap_code_of TRAP_CODE_UENV_CALL, (''Environment call from U-mode'', False)),
     (trap_code_of TRAP_CODE_MENV_CALL, (''Environment call from M-mode'', False)),
     (trap_code_of TRAP_CODE_MSI, (''Machine software IRQ'', False)),
     (trap_code_of TRAP_CODE_MTI, (''Machine timer IRQ'', False)),
     (trap_code_of TRAP_CODE_MEI, (''Machine external IRQ'', False)),
     (trap_code_of TRAP_CODE_FIRQ_0, (''FIRQ-0 (TWD)'', False)),
     (trap_code_of TRAP_CODE_FIRQ_1, (''FIRQ-1 (CFS)'', False)),
     (trap_code_of TRAP_CODE_FIRQ_2, (''FIRQ-2 (UART0)'', False)),
     (trap_code_of TRAP_CODE_FIRQ_3, (''FIRQ-3 (UART1)'', False)),
     (trap_code_of TRAP_CODE_FIRQ_4, (''FIRQ-4 (reserved)'', False)),
     (trap_code_of TRAP_CODE_FIRQ_5, (''FIRQ-5 (TRACER)'', False)),
     (trap_code_of TRAP_CODE_FIRQ_6, (''FIRQ-6 (SPI)'', False)),
     (trap_code_of TRAP_CODE_FIRQ_7, (''FIRQ-7 (TWI)'', False)),
     (trap_code_of TRAP_CODE_FIRQ_8, (''FIRQ-8 (GPIO)'', False)),
     (trap_code_of TRAP_CODE_FIRQ_9, (''FIRQ-9 (NEOLED)'', False)),
     (trap_code_of TRAP_CODE_FIRQ_10, (''FIRQ-10 (DMA)'', False)),
     (trap_code_of TRAP_CODE_FIRQ_11, (''FIRQ-11 (SDI)'', False)),
     (trap_code_of TRAP_CODE_FIRQ_12, (''FIRQ-12 (GPTMR)'', False)),
     (trap_code_of TRAP_CODE_FIRQ_13, (''FIRQ-13 (ONEWIRE)'', False)),
     (trap_code_of TRAP_CODE_FIRQ_14, (''FIRQ-14 (SLINK)'', False)),
     (trap_code_of TRAP_CODE_FIRQ_15, (''FIRQ-15 (TRNG)'', False))]"

text \<open>The handler does not return from a fatal exception: it sleeps for ever.\<close>

definition rte_panic :: "mach \<Rightarrow> mach option" where
  "rte_panic m =
     do {
       m \<leftarrow> rte_puts (RTE_TERM_HL_ON @ str ''<NEORV32-RTE-PANIC> '') m;
       let (hart, m) = neorv32_cpu_csr_read CSR_MHARTID m;
       m \<leftarrow> rte_puts (str (if hart AND 1 \<noteq> 0 then ''[cpu1|'' else ''[cpu0|'')) m;
       let (mstatus, m) = neorv32_cpu_csr_read CSR_MSTATUS m;
       m \<leftarrow> rte_puts (str (if mstatus AND push_bit (csr_mstatus CSR_MSTATUS_MPP_L) 3 \<noteq> 0 then ''M] '' else ''U] '')) m;
       let (cause, m) = neorv32_cpu_csr_read CSR_MCAUSE m;
       (fatal, m) \<leftarrow> (case panic_cause cause of
           Some (name, fatal) \<Rightarrow> do { m \<leftarrow> rte_puts (str name) m; Some (fatal, m) }
         | None \<Rightarrow> do { m \<leftarrow> rte_puts (str ''Unknown trap cause '') m; m \<leftarrow> rte_puth cause m; Some (True, m) });
       m \<leftarrow> rte_puts (str '' MEPC='') m;
       let (v, m) = neorv32_cpu_csr_read CSR_MEPC m;
       m \<leftarrow> rte_puth v m;
       m \<leftarrow> rte_puts (str '' MTINST='') m;
       let (v, m) = neorv32_cpu_csr_read CSR_MTINST m;
       m \<leftarrow> rte_puth v m;
       m \<leftarrow> rte_puts (str '' MTVAL='') m;
       let (v, m) = neorv32_cpu_csr_read CSR_MTVAL m;
       m \<leftarrow> rte_puth v m;
       m \<leftarrow> (if cause <s 0 then do {
           m \<leftarrow> rte_puts (str '' Disabling IRQ source'') m;
           Some (neorv32_cpu_csr_clr CSR_MIE (shl32 1 (cause AND 0x1f)) m)
         } else Some m);
       if fatal then do {
         m \<leftarrow> rte_puts (str '' FATAL! Halting CPU </NEORV32-RTE-PANIC>'' @ RTE_TERM_HL_OFF @ [10]) m;
         None
       }
       else rte_puts (str '' </NEORV32-RTE-PANIC>'' @ [10] @ RTE_TERM_HL_OFF) m
     }"

section \<open>Set-up and vector table\<close>

definition neorv32_rte_setup :: "rte_image \<Rightarrow> mach \<Rightarrow> mach" where
  "neorv32_rte_setup im m =
     (let m = neorv32_cpu_csr_write CSR_MSTATUS
                (BIT (csr_mstatus CSR_MSTATUS_MPP_H) OR BIT (csr_mstatus CSR_MSTATUS_MPP_L)) m;
          m = neorv32_cpu_csr_write CSR_MTVEC (rte_core_at im AND 0xfffffffc) m;
          m = neorv32_cpu_csr_write CSR_MIE 0 m;
          (hart, m) = neorv32_cpu_csr_read CSR_MHARTID m;
          m = (if hart = 0 then
                 fold (\<lambda>i m. wr (vector_slot im 1 i) (rte_panic_at im) (wr (vector_slot im 0 i) (rte_panic_at im) m))
                   [0..<32] m
               else m)
      in tick Fence m)"

definition neorv32_rte_handler_install :: "rte_image \<Rightarrow> u32 \<Rightarrow> u32 \<Rightarrow> mach \<Rightarrow> int \<times> mach" where
  "neorv32_rte_handler_install im code handler m =
     (if code AND NOT 0x8000001f \<noteq> 0 then (- 1, m)
      else (0, tick Fence (wr (vector_slot im (unat (drop_bit 31 code)) (unat (code AND 31))) handler m)))"

definition neorv32_rte_handler_uninstall :: "rte_image \<Rightarrow> u32 \<Rightarrow> mach \<Rightarrow> int \<times> mach" where
  "neorv32_rte_handler_uninstall im code m =
     (if code AND NOT 0x8000001f \<noteq> 0 then (- 1, m)
      else (0, tick Fence (wr (vector_slot im (unat (drop_bit 31 code)) (unat (code AND 31))) (rte_panic_at im) m)))"

section \<open>Registers of the interrupted program\<close>

definition neorv32_rte_context_get :: "u32 \<Rightarrow> mach \<Rightarrow> u32 \<times> mach" where
  "neorv32_rte_context_get x m =
     (let tmp = push_bit 2 (x AND 31)
      in if tmp \<noteq> 0 then
           let (base, m) = neorv32_cpu_csr_read CSR_MSCRATCH m
           in neorv32_cpu_load_unsigned_word (tmp + base) m
         else (0, m))"

definition neorv32_rte_context_put :: "u32 \<Rightarrow> u32 \<Rightarrow> mach \<Rightarrow> mach" where
  "neorv32_rte_context_put x data m =
     (let tmp = push_bit 2 (x AND 31)
      in if tmp \<noteq> 0 then
           let (base, m) = neorv32_cpu_csr_read CSR_MSCRATCH m
           in neorv32_cpu_store_unsigned_word (tmp + base) data m
         else m)"

section \<open>First-level trap handler\<close>

text \<open>A hart is the machine and its registers; register 0 is never written.\<close>

record hart =
  hmach :: mach
  gpr :: "nat \<Rightarrow> u32"

definition set_gpr :: "nat \<Rightarrow> u32 \<Rightarrow> hart \<Rightarrow> hart" where
  "set_gpr d v h = (if d = 0 then h else h\<lparr>gpr := (gpr h)(d := v)\<rparr>)"

definition alu :: "nat \<Rightarrow> (u32 \<Rightarrow> u32) \<Rightarrow> nat \<Rightarrow> hart \<Rightarrow> hart" where
  "alu d f s h = set_gpr d (f (gpr h s)) h"

definition alu2 :: "nat \<Rightarrow> (u32 \<Rightarrow> u32 \<Rightarrow> u32) \<Rightarrow> nat \<Rightarrow> nat \<Rightarrow> hart \<Rightarrow> hart" where
  "alu2 d f s t h = set_gpr d (f (gpr h s) (gpr h t)) h"

definition sw :: "nat \<Rightarrow> u32 \<Rightarrow> nat \<Rightarrow> hart \<Rightarrow> hart" where
  "sw s off b h = h\<lparr>hmach := wr (Mem W32 (gpr h b + off)) (gpr h s) (hmach h)\<rparr>"

definition lw :: "nat \<Rightarrow> u32 \<Rightarrow> nat \<Rightarrow> hart \<Rightarrow> hart" where
  "lw d off b h =
     (let (v, m) = rd (Mem W32 (gpr h b + off)) (hmach h) in set_gpr d v (h\<lparr>hmach := m\<rparr>))"

definition csrr :: "nat \<Rightarrow> csr_id \<Rightarrow> hart \<Rightarrow> hart" where
  "csrr d c h = (let (v, m) = rd (Csr c) (hmach h) in set_gpr d v (h\<lparr>hmach := m\<rparr>))"

definition csrw :: "csr_id \<Rightarrow> nat \<Rightarrow> hart \<Rightarrow> hart" where
  "csrw c s h = h\<lparr>hmach := wr (Csr c) (gpr h s) (hmach h)\<rparr>"

definition csrrw :: "nat \<Rightarrow> csr_id \<Rightarrow> nat \<Rightarrow> hart \<Rightarrow> hart" where
  "csrrw d c s h =
     (let v = gpr h s; (old, m) = rd (Csr c) (hmach h) in set_gpr d old (h\<lparr>hmach := wr (Csr c) v m\<rparr>))"

text \<open>Saving the registers: the frame has a blank slot for \<^verbatim>\<open>x0\<close> and the old stack pointer at \<^verbatim>\<open>x2\<close>.\<close>

definition rte_save :: "hart \<Rightarrow> hart" where
  "rte_save h =
     (let h = h\<lparr>hmach := tick Fence (hmach h)\<rparr>;
          h = csrw CSR_MSCRATCH 2 h;
          h = alu 2 (\<lambda>v. v + (- 32 * 4)) 2 h;
          h = sw 1 (1 * 4) 2 h;
          h = csrrw 1 CSR_MSCRATCH 2 h;
          h = sw 1 (2 * 4) 2 h
      in fold (\<lambda>i. sw i (of_nat i * 4) 2) [3..<32] h)"

text \<open>Calling the handler: the table index is built from the trap cause.\<close>

definition rte_dispatch :: "rte_image \<Rightarrow> (u32 \<Rightarrow> hart \<Rightarrow> hart option) \<Rightarrow> hart \<Rightarrow> hart option" where
  "rte_dispatch im call h =
     (let h = csrr 10 CSR_MCAUSE h;
          h = alu 11 (drop_bit 24) 10 h;
          h = alu 12 (\<lambda>v. v AND 0x1f) 10 h;
          h = alu 12 (push_bit 2) 12 h;
          h = alu2 12 (+) 12 11 h;
          h = set_gpr 10 (vector_lut im) h;
          h = alu2 12 (+) 12 10 h;
          h = lw 12 0 12 h
      in call (gpr h 12 AND NOT 1) (set_gpr 1 (rte_resume_at im) h))"

text \<open>The return address moves past the instruction that raised an exception.\<close>

definition rte_adjust :: "bool \<Rightarrow> hart \<Rightarrow> hart" where
  "rte_adjust riscv_c h =
     (let h = csrr 10 CSR_MCAUSE h
      in if gpr h 10 <s 0 then h
         else
           let h = csrr 10 CSR_MEPC h;
               h = alu 10 (\<lambda>v. v + 4) 10 h;
               h = (if riscv_c then
                       let h = csrr 11 CSR_MTINST h;
                           h = alu 11 (\<lambda>v. v AND 3) 11 h;
                           h = alu 11 (\<lambda>v. v + (- 3)) 11 h
                       in if gpr h 11 = 0 then h else alu 10 (\<lambda>v. v + (- 2)) 10 h
                     else h)
           in csrw CSR_MEPC 10 h)"

definition rte_restore :: "hart \<Rightarrow> hart" where
  "rte_restore h =
     (let h = lw 1 (1 * 4) 2 h;
          h = fold (\<lambda>i. lw i (of_nat i * 4) 2) [3..<32] h
      in lw 2 (2 * 4) 2 h)"

text \<open>The whole handler; \<^verbatim>\<open>mret\<close> continues at the address in MEPC.\<close>

definition rte_core ::
    "rte_image \<Rightarrow> bool \<Rightarrow> (u32 \<Rightarrow> hart \<Rightarrow> hart option) \<Rightarrow> hart \<Rightarrow> (u32 \<times> hart) option" where
  "rte_core im riscv_c call h =
     do {
       h \<leftarrow> rte_dispatch im call (rte_save h);
       let h = rte_restore (rte_adjust riscv_c h);
       Some (rd_val (Csr CSR_MEPC) (hmach h), h)
     }"
end
