(* ===== verification/Rte_Trap.thy ===== *)
theory Rte_Trap
  imports Rte Hart_Rtl
begin

text \<open>
  What the runtime environment does with a trap, on the hart hardware: the frame that
  \<open>rte_save\<close> builds, the handler that \<open>rte_dispatch\<close> finds in the vector table, the return
  address and the registers after \<open>rte_restore\<close>.  The locale \<open>trap_handler\<close> is the contract
  of a handler: from the hart state it is called in it returns, keeps the stack pointer, and
  leaves a state it promises something about.
\<close>

section \<open>The stack frame\<close>

definition frame_of :: "u32 \<Rightarrow> u32 set" where
  "frame_of base = {base + of_nat k |k. k < 128}"

definition slot :: "u32 \<Rightarrow> nat \<Rightarrow> u32" where
  "slot base i = base + of_nat i * 4"

definition fill :: "u32 \<Rightarrow> (nat \<Rightarrow> u32) \<Rightarrow> nat list \<Rightarrow> (u32 \<Rightarrow> u8) \<Rightarrow> u32 \<Rightarrow> u8" where
  "fill base g is r = fold (\<lambda>i. poke (slot base i) (g i)) is r"

lemma slot_offset: "slot base i = base + of_nat (4 * i)"
  by (simp add: slot_def mult.commute)

lemma slot_disjoint: "i < 2 ^ 30 \<Longrightarrow> j < 2 ^ 30 \<Longrightarrow> i \<noteq> j \<Longrightarrow> bytes_of W32 (slot base i) \<inter> bytes_of W32 (slot base j) = {}"
  unfolding slot_offset by (rule slots_disjoint) auto

lemma slot_in_frame: "i < 32 \<Longrightarrow> bytes_of W32 (slot base i) \<subseteq> frame_of base"
  unfolding slot_offset bytes_of_offset frame_of_def by fastforce

lemma word_at_fill:
  assumes "set is \<subseteq> {..<2 ^ 30}" "j < 2 ^ 30"
  shows "word_at (fill base g is r) (slot base j) = (if j \<in> set is then g j else word_at r (slot base j))"
  using assms
proof (induction "is" arbitrary: r)
  case (Cons i "is")
  have "word_at (poke (slot base i) (g i) r) (slot base j) = (if i = j then g i else word_at r (slot base j))"
    using Cons.prems slot_disjoint [of i j base] by (auto simp: word_at_poke_other simp del: bytes_of.simps)
  with Cons show ?case by (auto simp: fill_def)
qed (simp add: fill_def)

lemma fill_outside: "set is \<subseteq> {..<32} \<Longrightarrow> b \<notin> frame_of base \<Longrightarrow> fill base g is r b = r b"
proof (induction "is" arbitrary: r)
  case (Cons i "is")
  have "b \<notin> bytes_of W32 (slot base i)" using Cons.prems slot_in_frame [of i base] by auto
  with Cons show ?case by (simp add: fill_def poke_other del: bytes_of.simps)
qed (simp add: fill_def)

text \<open>A frame in memory, at an aligned address.\<close>

definition frame_ok :: "u32 set \<Rightarrow> u32 \<Rightarrow> bool" where
  "frame_ok R base \<longleftrightarrow> frame_of base \<subseteq> R \<and> base AND 3 = 0"

lemma and_3_take_bit: "x AND 3 = take_bit 2 (x :: u32)"
  by (simp add: take_bit_eq_mask mask_eq_exp_minus_1)

lemma and_3_add:
  assumes "a AND 3 = (0 :: u32)"
  shows "(a + of_nat (4 * i)) AND 3 = 0"
proof -
  have "\<not> bit (a AND 3) n" for n using assms by simp
  then have low: "2 \<le> n" if "bit a n" for n
    using that unfolding and_3_take_bit bit_take_bit_iff by (meson not_le)
  have "a = push_bit 2 (drop_bit 2 a)"
  proof (rule bit_word_eqI)
    fix n assume n: "n < LENGTH(32)"
    show "bit a n = bit (push_bit 2 (drop_bit 2 a)) n"
    proof (cases "2 \<le> n")
      case True
      then obtain k where "n = 2 + k" using le_Suc_ex by blast
      with n show ?thesis by (simp add: bit_simps)
    next
      case False
      with low [of n] show ?thesis by (auto simp: bit_simps)
    qed
  qed
  then have "a + of_nat (4 * i) = push_bit 2 (drop_bit 2 a + of_nat i)"
    by (metis (no_types, lifting) add.commute distrib_right mult.commute of_nat_mult of_nat_numeral
        power2_eq_square mult_2 numeral_Bit0 push_bit_eq_mult)
  then show ?thesis by (simp add: and_3_take_bit take_bit_push_bit)
qed

lemma slot_hart_loc:
  assumes "frame_ok R base" "i < 32"
  shows "hart_loc R (Mem W32 (slot base i))"
  using assms slot_in_frame [OF assms(2), of base] and_3_add [of base i]
  by (auto simp: frame_ok_def slot_offset simp del: bytes_of.simps of_nat_mult)

section \<open>Saving and restoring\<close>

lemma sw_fold:
  "hart_at c R (hmach h) s \<Longrightarrow> \<forall>i \<in> set is. hart_loc R (Mem W32 (slot (gpr h 2) i)) \<Longrightarrow>
    \<exists>m. fold (\<lambda>i. sw i (of_nat i * 4) 2) is h = h\<lparr>hmach := m\<rparr>
      \<and> hart_at c R m (s\<lparr>ram := fill (gpr h 2) (gpr h) is (ram s)\<rparr>) \<and> only_hart R (hmach h) m"
proof (induction "is" arbitrary: h s)
  case Nil
  then show ?case by (intro exI [of _ "hmach h"]) (simp add: fill_def)
next
  case (Cons i "is")
  let ?h = "sw i (of_nat i * 4) 2 h"
  have "hart_at c R (hmach ?h) (s\<lparr>ram := poke (slot (gpr h 2) i) (gpr h i) (ram s)\<rparr>)"
    using hart_at_wr [OF Cons.prems(1), of "Mem W32 (slot (gpr h 2) i)" "gpr h i"] by (simp add: sw_def slot_def)
  moreover have "only_hart R (hmach h) (hmach ?h)"
    using Cons.prems(2) by (simp add: sw_def slot_def only_hart_wr del: bytes_of.simps)
  moreover have "\<forall>i \<in> set is. hart_loc R (Mem W32 (slot (gpr ?h 2) i))" using Cons.prems(2) by (simp add: sw_def)
  ultimately obtain m where "fold (\<lambda>i. sw i (of_nat i * 4) 2) is ?h = ?h\<lparr>hmach := m\<rparr>" "only_hart R (hmach h) m"
    "hart_at c R m (s\<lparr>ram := fill (gpr ?h 2) (gpr ?h) is (poke (slot (gpr h 2) i) (gpr h i) (ram s))\<rparr>)"
    using Cons.IH [of ?h] by (fastforce intro: only_hart_trans)
  moreover have "gpr ?h = gpr h" "?h\<lparr>hmach := m\<rparr> = h\<lparr>hmach := m\<rparr>" for m by (simp_all add: sw_def)
  ultimately show ?case by (intro exI [of _ m]) (simp add: fill_def)
qed

lemma lw_fold:
  "hart_at c R (hmach h) s \<Longrightarrow> 0 \<notin> set is \<Longrightarrow> 2 \<notin> set is \<Longrightarrow> \<forall>i \<in> set is. hart_loc R (Mem W32 (slot (gpr h 2) i)) \<Longrightarrow>
    \<exists>m. fold (\<lambda>i. lw i (of_nat i * 4) 2) is h
        = h\<lparr>hmach := m, gpr := \<lambda>i. if i \<in> set is then word_at (ram s) (slot (gpr h 2) i) else gpr h i\<rparr>
      \<and> hart_at c R m s \<and> only_hart R (hmach h) m"
proof (induction "is" arbitrary: h)
  case Nil
  then show ?case by (intro exI [of _ "hmach h"]) simp
next
  case (Cons i "is")
  let ?h = "lw i (of_nat i * 4) 2 h" and ?l = "Mem W32 (slot (gpr h 2) i)"
  have "rd_val ?l (hmach h) = word_at (ram s) (slot (gpr h 2) i)"
    using rd_val_hart [OF Cons.prems(1), of ?l] Cons.prems(4) by simp
  then have h: "?h = h\<lparr>hmach := snd (rd ?l (hmach h)), gpr := (gpr h)(i := word_at (ram s) (slot (gpr h 2) i))\<rparr>"
    using Cons.prems(2) by (simp add: lw_def slot_def rd_def set_gpr_def)
  have "hart_at c R (hmach ?h) s" using hart_at_rd [OF Cons.prems(1)] by (simp add: h)
  from Cons.IH [OF this] Cons.prems(2-4) obtain m where m: "fold (\<lambda>i. lw i (of_nat i * 4) 2) is ?h
      = ?h\<lparr>hmach := m, gpr := \<lambda>j. if j \<in> set is then word_at (ram s) (slot (gpr ?h 2) j) else gpr ?h j\<rparr>"
    "hart_at c R m s" "only_hart R (hmach ?h) m" by (auto simp: h)
  have only: "only_hart R (hmach h) (hmach ?h)" using Cons.prems(4) by (simp add: h only_hart_rd del: bytes_of.simps)
  have "(\<lambda>j. if j \<in> set is then word_at (ram s) (slot (gpr ?h 2) j) else gpr ?h j)
      = (\<lambda>j. if j \<in> set (i # is) then word_at (ram s) (slot (gpr h 2) j) else gpr h j)"
    using Cons.prems(3) by (auto simp: h fun_eq_iff)
  with m only_hart_trans [OF only m(3)] show ?case by (intro exI [of _ m]) (simp add: h)
qed

text \<open>The state with the frame in place.\<close>

definition saved :: "(nat \<Rightarrow> u32) \<Rightarrow> hart_hw \<Rightarrow> hart_hw" where
  "saved g s = s\<lparr>mscratch := g 2 - 128, ram := fill (g 2 - 128) g ([1, 2] @ [3..<32]) (ram s)\<rparr>"

lemma rte_save_at:
  assumes "hart_at c R (hmach h) s" "frame_ok R (gpr h 2 - 128)"
  shows "\<exists>m. rte_save h = h\<lparr>hmach := m, gpr := (gpr h)(2 := gpr h 2 - 128, 1 := gpr h 2)\<rparr>
    \<and> hart_at c R m (saved (gpr h) s) \<and> only_hart R (hmach h) m"
proof -
  note loc = slot_hart_loc [OF assms(2)]
  let ?sp = "gpr h 2" and ?b = "gpr h 2 - 128"
  let ?m1 = "wr (Csr CSR_MSCRATCH) ?sp (tick Fence (hmach h))"
  let ?m2 = "wr (Mem W32 (slot ?b 1)) (gpr h 1) ?m1"
  let ?m3 = "wr (Csr CSR_MSCRATCH) ?b (snd (rd (Csr CSR_MSCRATCH) ?m2))"
  let ?m4 = "wr (Mem W32 (slot ?b 2)) ?sp ?m3"
  have a1: "hart_at c R ?m1 (s\<lparr>mscratch := ?sp\<rparr>)"
    using hart_at_wr [OF hart_at_tick [OF assms(1), of Fence], of "Csr CSR_MSCRATCH" ?sp]
    by simp
  let ?s2 = "s\<lparr>mscratch := ?sp, ram := poke (slot ?b 1) (gpr h 1) (ram s)\<rparr>"
  have a2: "hart_at c R ?m2 ?s2"
    using hart_at_wr [OF a1, of "Mem W32 (slot ?b 1)" "gpr h 1"] by simp
  have v: "rd_val (Csr CSR_MSCRATCH) ?m2 = ?sp"
    using rd_val_hart [OF a2, of "Csr CSR_MSCRATCH"] by simp
  have a3: "hart_at c R ?m3 (s\<lparr>ram := poke (slot ?b 1) (gpr h 1) (ram s), mscratch := ?b\<rparr>)"
    using hart_at_wr [OF hart_at_rd [OF a2], of "Csr CSR_MSCRATCH" ?b]
    by simp
  let ?s4 = "s\<lparr>mscratch := ?b, ram := poke (slot ?b 2) ?sp (poke (slot ?b 1) (gpr h 1) (ram s))\<rparr>"
  have a4: "hart_at c R ?m4 ?s4"
    using hart_at_wr [OF a3, of "Mem W32 (slot ?b 2)" ?sp] by simp
  let ?h4 = "h\<lparr>hmach := ?m4, gpr := (gpr h)(2 := ?b, 1 := ?sp)\<rparr>"
  have "hart_at c R (hmach ?h4) ?s4" using a4 by simp
  from sw_fold [OF this, of "[3..<32]", unfolded set_upt atLeastLessThan_iff Ball_def] loc obtain m where m:
    "fold (\<lambda>i. sw i (of_nat i * 4) 2) [3..<32] ?h4 = ?h4\<lparr>hmach := m\<rparr>"
    "hart_at c R m (?s4\<lparr>ram := fill ?b ((gpr h)(2 := ?b, 1 := ?sp)) [3..<32] (ram ?s4)\<rparr>)"
    "only_hart R ?m4 m" by (auto simp del: hart_loc.simps)
  have "only_hart R (hmach h) ?m4"
    using loc [of 1] loc [of 2] by (auto intro!: only_hart_wr only_hart_rd only_hart_tick simp del: bytes_of.simps)
  note only = only_hart_trans [OF this m(3)]
  have save: "rte_save h = fold (\<lambda>i. sw i (of_nat i * 4) 2) [3..<32] ?h4"
    using v unfolding rte_save_def Let_def
    by (simp add: csrw_def alu_def set_gpr_def sw_def csrrw_def rd_def slot_def fun_upd_twist)
  have "fill ?b ((gpr h)(2 := ?b, 1 := ?sp)) [3..<32] r = fill ?b (gpr h) [3..<32] r" for r
    unfolding fill_def by (intro fold_cong) auto
  with m save only show ?thesis
    by (intro exI [of _ m]) (simp add: saved_def fill_def)
qed

lemma rte_restore_at:
  assumes "hart_at c R (hmach h) s" "frame_ok R (gpr h 2)"
  shows "\<exists>m. rte_restore h = h\<lparr>hmach := m, gpr := \<lambda>i. if 1 \<le> i \<and> i < 32 then word_at (ram s) (slot (gpr h 2) i) else gpr h i\<rparr>
    \<and> hart_at c R m s \<and> only_hart R (hmach h) m"
proof -
  let ?b = "gpr h 2"
  note loc = slot_hart_loc [OF assms(2)]
  from lw_fold [OF assms(1), of "[1]"] loc [of 1] obtain m1 where m1:
    "lw 1 (1 * 4) 2 h = h\<lparr>hmach := m1, gpr := \<lambda>i. if i = 1 then word_at (ram s) (slot ?b i) else gpr h i\<rparr>"
    "hart_at c R m1 s" "only_hart R (hmach h) m1" by (auto simp del: hart_loc.simps)
  let ?h1 = "h\<lparr>hmach := m1, gpr := \<lambda>i. if i = 1 then word_at (ram s) (slot ?b i) else gpr h i\<rparr>"
  have "hart_at c R (hmach ?h1) s" using m1(2) by simp
  from lw_fold [OF this, of "[3..<32]", unfolded set_upt atLeastLessThan_iff Ball_def] loc obtain m2 where m2:
    "fold (\<lambda>i. lw i (of_nat i * 4) 2) [3..<32] ?h1 = ?h1\<lparr>hmach := m2, gpr := \<lambda>i. if 3 \<le> i \<and> i < 32
       then word_at (ram s) (slot (gpr ?h1 2) i) else gpr ?h1 i\<rparr>" "hart_at c R m2 s" "only_hart R m1 m2"
    by (auto simp del: hart_loc.simps)
  let ?g = "\<lambda>i. if 3 \<le> i \<and> i < 32 then word_at (ram s) (slot (gpr ?h1 2) i) else gpr ?h1 i"
  let ?h2 = "?h1\<lparr>hmach := m2, gpr := ?g\<rparr>" and ?l = "Mem W32 (slot ?b 2)"
  have v: "rd_val ?l m2 = word_at (ram s) (slot ?b 2)" using rd_val_hart [OF m2(2) loc [of 2]] by simp
  have "lw 2 (2 * 4) 2 ?h2 = ?h2\<lparr>hmach := snd (rd ?l m2), gpr := ?g(2 := word_at (ram s) (slot ?b 2))\<rparr>"
    using v by (simp add: lw_def slot_def rd_def set_gpr_def)
  moreover have "?g(2 := word_at (ram s) (slot ?b 2))
      = (\<lambda>i. if 1 \<le> i \<and> i < 32 then word_at (ram s) (slot ?b i) else gpr h i)"
  proof
    fix i :: nat
    consider "i = 0" | "i = 1" | "i = 2" | "3 \<le> i" by linarith
    then show "(?g(2 := word_at (ram s) (slot ?b 2))) i
        = (if 1 \<le> i \<and> i < 32 then word_at (ram s) (slot ?b i) else gpr h i)" by cases auto
  qed
  ultimately have "rte_restore h = h\<lparr>hmach := snd (rd ?l m2), gpr := \<lambda>i. if 1 \<le> i \<and> i < 32
      then word_at (ram s) (slot ?b i) else gpr h i\<rparr>"
    unfolding rte_restore_def Let_def m1(1) m2(1) by simp
  moreover have "only_hart R (hmach h) (snd (rd ?l m2))"
    using only_hart_trans [OF m1(3) m2(3)] loc [of 2] by (intro only_hart_rd) simp_all
  ultimately show ?thesis using hart_at_rd [OF m2(2)] by blast
qed

section \<open>The vector\<close>

definition vector_at :: "rte_image \<Rightarrow> u32 \<Rightarrow> u32" where
  "vector_at im code = vector_lut im + of_nat (128 * unat (drop_bit 31 code) + 4 * unat (code AND 31))"

lemma vector_slot_at: "vector_slot im (unat (drop_bit 31 code)) (unat (code AND 31)) = Mem W32 (vector_at im code)"
  by (simp add: vector_slot_def vector_at_def)

lemma drop_24_31: "drop_bit 24 (v AND 0x8000001f) = push_bit 7 (drop_bit 31 (v AND (0x8000001f :: u32)))"
proof -
  have b: "bit (128 :: u32) k \<longleftrightarrow> k = 7" for k using bit_exp_iff [where 'a = u32, of 7 k] by auto
  have "drop_bit 24 v AND 128 = push_bit 7 (drop_bit 31 v AND 1)"
  proof (rule bit_word_eqI)
    fix n assume "n < LENGTH(32)"
    then show "bit (drop_bit 24 v AND 128) n = bit (push_bit 7 (drop_bit 31 v AND 1)) n"
      by (cases "n = 7") (simp_all add: bit_and_iff b bit_push_bit_iff bit_drop_bit_eq del: bit_numeral_word_iff)
  qed
  then show ?thesis by (simp add: drop_bit_and)
qed

lemma vector_index:
  assumes "v = cause AND 0x8000001f"
  shows "push_bit 2 (v AND 0x1f) + drop_bit 24 v + vector_lut im = vector_at im v"
proof -
  have "push_bit 7 x = 128 * x" "push_bit 2 x = 4 * x" for x :: u32
    by (simp_all add: push_bit_eq_mult)
  moreover have "vector_at im v = vector_lut im + (128 * drop_bit 31 v + 4 * (v AND 31))"
    by (simp add: vector_at_def)
  moreover have "drop_bit 24 v = push_bit 7 (drop_bit 31 v)" unfolding assms by (rule drop_24_31)
  ultimately show ?thesis by (simp only: ac_simps)
qed

lemma rte_dispatch_at:
  assumes "hart_at c R (hmach h) s" "hart_loc R (Mem W32 (vector_at im (mcause s AND 0x8000001f)))"
  shows "\<exists>hc. rte_dispatch im call h = call (word_at (ram s) (vector_at im (mcause s AND 0x8000001f)) AND NOT 1) hc
    \<and> hart_at c R (hmach hc) s \<and> gpr hc 2 = gpr h 2 \<and> only_hart R (hmach h) (hmach hc)"
proof -
  let ?v = "mcause s AND 0x8000001f" and ?m1 = "snd (rd (Csr CSR_MCAUSE) (hmach h))"
  have v: "rd_val (Csr CSR_MCAUSE) (hmach h) = ?v" using rd_val_hart [OF assms(1), of "Csr CSR_MCAUSE"] by simp
  have a1: "hart_at c R ?m1 s" by (rule hart_at_rd [OF assms(1)])
  let ?l = "Mem W32 (vector_at im ?v)"
  have w: "rd_val ?l ?m1 = word_at (ram s) (vector_at im ?v)" using rd_val_hart [OF a1 assms(2)] by simp
  have i: "push_bit 2 (?v AND 0x1f) + drop_bit 24 ?v + vector_lut im = vector_at im ?v" by (rule vector_index) simp
  let ?g = "(gpr h)(10 := vector_lut im, 11 := drop_bit 24 ?v, 12 := word_at (ram s) (vector_at im ?v), 1 := rte_resume_at im)"
  have "rte_dispatch im call h
      = call (word_at (ram s) (vector_at im ?v) AND NOT 1) (h\<lparr>hmach := snd (rd ?l ?m1), gpr := ?g\<rparr>)"
    unfolding rte_dispatch_def Let_def csrr_def rd_def [of "Csr CSR_MCAUSE" "hmach h"] v
    using i w by (simp add: set_gpr_def alu_def alu2_def lw_def rd_def v fun_upd_twist)
  moreover have "only_hart R (hmach h) (snd (rd ?l ?m1))"
    using assms(2) by (intro only_hart_rd) simp_all
  ultimately show ?thesis using hart_at_rd [OF a1, of ?l] by fastforce
qed

section \<open>The return address\<close>

definition resume_pc :: "bool \<Rightarrow> hart_hw \<Rightarrow> u32" where
  "resume_pc riscv_c s =
     (if bit (mcause s) 31 then mepc s
      else (mepc s + (if riscv_c \<and> mtinst s AND 3 \<noteq> 3 then 2 else 4)) AND pc_mask riscv_c)"

lemma negative_bit: "(v :: u32) <s 0 \<longleftrightarrow> bit v 31"
  using bit_last_iff [of v] by (simp add: word_sless_alt)

lemma and_mask_31: "bit (v AND 0x8000001f) 31 = bit (v :: u32) 31"
  by (simp add: bit_and_iff)

lemma rte_adjust_at:
  assumes "hart_at c R (hmach h) s"
  shows "hart_at c R (hmach (rte_adjust c h)) (s\<lparr>mepc := resume_pc c s\<rparr>)" "gpr (rte_adjust c h) 2 = gpr h 2"
    "only_hart R (hmach h) (hmach (rte_adjust c h))"
proof -
  let ?m1 = "snd (rd (Csr CSR_MCAUSE) (hmach h))" and ?m2 = "\<lambda>m. snd (rd (Csr CSR_MEPC) m)"
    and ?m3 = "\<lambda>m. snd (rd (Csr CSR_MTINST) m)"
  note a1 = hart_at_rd [OF assms, of "Csr CSR_MCAUSE"]
  note a2 = hart_at_rd [OF a1, of "Csr CSR_MEPC"]
  note a3 = hart_at_rd [OF a2, of "Csr CSR_MTINST"]
  have v: "rd_val (Csr CSR_MCAUSE) (hmach h) = mcause s AND 0x8000001f"
    "rd_val (Csr CSR_MEPC) ?m1 = mepc s" "rd_val (Csr CSR_MTINST) (?m2 ?m1) = mtinst s"
    using rd_val_hart [OF assms, of "Csr CSR_MCAUSE"] rd_val_hart [OF a1, of "Csr CSR_MEPC"]
      rd_val_hart [OF a2, of "Csr CSR_MTINST"] by simp_all
  have op: "x - 3 = 0 \<longleftrightarrow> x = (3 :: u32)" for x by simp
  have "hart_at c R (hmach (rte_adjust c h)) (s\<lparr>mepc := resume_pc c s\<rparr>) \<and> gpr (rte_adjust c h) 2 = gpr h 2
    \<and> only_hart R (hmach h) (hmach (rte_adjust c h))"
  proof (cases "bit (mcause s) 31")
    case True
    then have "rte_adjust c h = csrr 10 CSR_MCAUSE h"
      using v(1) by (simp add: rte_adjust_def csrr_def rd_def set_gpr_def negative_bit and_mask_31)
    moreover have "only_hart R (hmach h) ?m1" by (intro only_hart_rd) simp_all
    ultimately show ?thesis using True a1 by (simp add: resume_pc_def csrr_def rd_def set_gpr_def)
  next
    case False
    let ?m = "if c then ?m3 (?m2 ?m1) else ?m2 ?m1" and ?pc = "mepc s + (if c \<and> mtinst s AND 3 \<noteq> 3 then 2 else 4)"
    have "hart_at c R ?m s" using a2 a3 by (cases c) simp_all
    from hart_at_wr [OF this, of "Csr CSR_MEPC" ?pc] False
    have w: "hart_at c R (wr (Csr CSR_MEPC) ?pc ?m) (s\<lparr>mepc := resume_pc c s\<rparr>)" by (simp add: resume_pc_def)
    have "hmach (rte_adjust c h) = wr (Csr CSR_MEPC) ?pc ?m" "gpr (rte_adjust c h) 2 = gpr h 2"
      using False v by (simp_all add: rte_adjust_def csrr_def rd_def set_gpr_def alu_def csrw_def Let_def
          negative_bit and_mask_31 add.commute)
    moreover have "only_hart R (hmach h) (wr (Csr CSR_MEPC) ?pc ?m)"
      by (cases c) (auto intro!: only_hart_wr only_hart_rd)
    ultimately show ?thesis using w by simp
  qed
  then show "hart_at c R (hmach (rte_adjust c h)) (s\<lparr>mepc := resume_pc c s\<rparr>)" "gpr (rte_adjust c h) 2 = gpr h 2"
    "only_hart R (hmach h) (hmach (rte_adjust c h))" by simp_all
qed

section \<open>A trap from entry to return\<close>

lemma saved_frame:
  assumes "1 \<le> i" "i < 32"
  shows "word_at (ram (saved g s)) (slot (g 2 - 128) i) = g i"
proof -
  have "i \<in> set ([1, 2] @ [3..<32])" using assms unfolding set_append set_upt atLeastLessThan_iff by auto
  moreover have "set ([1, 2] @ [3..<32]) \<subseteq> {..<2 ^ 30}" unfolding set_append set_upt by auto
  ultimately show ?thesis using word_at_fill [of "[1, 2] @ [3..<32]" i] assms(2) by (simp add: saved_def)
qed

lemma saved_outside: "b \<notin> frame_of (g 2 - 128) \<Longrightarrow> ram (saved g s) b = ram s b"
proof -
  assume "b \<notin> frame_of (g 2 - 128)"
  moreover have "set ([1, 2] @ [3..<32]) \<subseteq> {..<32}" unfolding set_append set_upt by auto
  ultimately show ?thesis using fill_outside by (simp add: saved_def)
qed

lemma saved_csrs [simp]:
  "mcause (saved g s) = mcause s" "mepc (saved g s) = mepc s" "mtinst (saved g s) = mtinst s"
  "mscratch (saved g s) = g 2 - 128"
  by (simp_all add: saved_def)

text \<open>
  The contract of the handler at an address: \<open>ok\<close> is what it needs of the devices it talks
  to, and \<open>served\<close> what holds of them when it has served the hart in a state; the accesses of the
  runtime environment disturb neither.  \<open>pre\<close> is what it needs of the hart, and \<open>post\<close> relates
  the hart before and after.
\<close>

locale trap_handler =
  fixes riscv_c :: bool and R :: "u32 set" and ok :: "mach \<Rightarrow> bool"
    and call :: "u32 \<Rightarrow> hart \<Rightarrow> hart option" and addr :: u32
    and pre :: "hart_hw \<Rightarrow> bool" and post :: "hart_hw \<Rightarrow> hart_hw \<Rightarrow> bool" and served :: "hart_hw \<Rightarrow> mach \<Rightarrow> bool"
  assumes undisturbed: "ok m \<Longrightarrow> only_hart R m m' \<Longrightarrow> ok m'"
    and lasting: "served s m \<Longrightarrow> only_hart R m m' \<Longrightarrow> served s m'"
    and handles: "hart_at riscv_c R (hmach h) s \<Longrightarrow> ok (hmach h) \<Longrightarrow> pre s \<Longrightarrow>
      \<exists>h' s'. call addr h = Some h' \<and> gpr h' 2 = gpr h 2 \<and> hart_at riscv_c R (hmach h') s' \<and> served s (hmach h') \<and> post s s'"
begin

lemma trap:
  assumes "hart_at riscv_c R (hmach h) s" "ok (hmach h)" "frame_ok R (gpr h 2 - 128)"
    and "hart_loc R (Mem W32 (vector_at im (mcause s AND 0x8000001f)))"
    and "bytes_of W32 (vector_at im (mcause s AND 0x8000001f)) \<inter> frame_of (gpr h 2 - 128) = {}"
    and "word_at (ram s) (vector_at im (mcause s AND 0x8000001f)) AND NOT 1 = addr"
    and "pre (saved (gpr h) s)"
  shows "\<exists>h' s'. rte_core im riscv_c call h = Some (resume_pc riscv_c s', h') \<and> post (saved (gpr h) s) s'
    \<and> hart_at riscv_c R (hmach h') (s'\<lparr>mepc := resume_pc riscv_c s'\<rparr>) \<and> served (saved (gpr h) s) (hmach h')
    \<and> (\<forall>i. 1 \<le> i \<and> i < 32 \<longrightarrow> gpr h' i = word_at (ram s') (slot (gpr h 2 - 128) i))"
proof -
  let ?sv = "saved (gpr h) s" and ?at = "hart_at riscv_c R"
  from rte_save_at [OF assms(1,3)] obtain m where m:
    "rte_save h = h\<lparr>hmach := m, gpr := (gpr h)(2 := gpr h 2 - 128, 1 := gpr h 2)\<rparr>" "?at m ?sv"
    "only_hart R (hmach h) m" by blast
  let ?h1 = "h\<lparr>hmach := m, gpr := (gpr h)(2 := gpr h 2 - 128, 1 := gpr h 2)\<rparr>"
  have a1: "?at (hmach ?h1) ?sv" using m(2) by simp
  have vec: "word_at (ram ?sv) (vector_at im (mcause s AND 0x8000001f)) = word_at (ram s) (vector_at im (mcause s AND 0x8000001f))"
    using assms(5) by (intro word_at_cong saved_outside) blast
  from rte_dispatch_at [OF a1, of im call] assms(4,6) obtain hc where hc:
    "rte_dispatch im call ?h1 = call addr hc" "?at (hmach hc) ?sv" "gpr hc 2 = gpr h 2 - 128"
    "only_hart R m (hmach hc)" by (auto simp: vec simp del: bytes_of.simps)
  have "ok (hmach hc)" by (rule undisturbed [OF assms(2) only_hart_trans [OF m(3) hc(4)]])
  from handles [OF hc(2) this assms(7)] obtain hh s' where hh: "call addr hc = Some hh" "gpr hh 2 = gpr h 2 - 128"
    "?at (hmach hh) s'" "served ?sv (hmach hh)" "post ?sv s'" using hc(3) by auto
  let ?ha = "rte_adjust riscv_c hh" and ?s2 = "s'\<lparr>mepc := resume_pc riscv_c s'\<rparr>"
  note adj = rte_adjust_at [OF hh(3)]
  have sp: "gpr ?ha 2 = gpr h 2 - 128" using adj(2) hh(2) by simp
  from rte_restore_at [OF adj(1), unfolded sp, OF assms(3)] obtain m2 where m2: "rte_restore ?ha
      = ?ha\<lparr>hmach := m2, gpr := \<lambda>i. if 1 \<le> i \<and> i < 32 then word_at (ram ?s2) (slot (gpr h 2 - 128) i) else gpr ?ha i\<rparr>"
    "?at m2 ?s2" "only_hart R (hmach ?ha) m2" by blast
  have "served ?sv m2" by (rule lasting [OF hh(4) only_hart_trans [OF adj(3) m2(3)]])
  moreover have "rd_val (Csr CSR_MEPC) m2 = resume_pc riscv_c s'" using rd_val_hart [OF m2(2), of "Csr CSR_MEPC"] by simp
  ultimately show ?thesis using m2(1,2) hh(5)
    unfolding rte_core_def m(1) hc(1) hh(1) by (auto simp: Let_def)
qed

end

end
