(* ===== verification/Rte_Table.thy ===== *)
theory Rte_Table
  imports Rte_Trap
begin

text \<open>
  The vector table as a map from trap codes to handlers.  Set-up makes every entry the panic
  handler; installing and uninstalling a handler update the map; the words in memory are the
  map throughout.
\<close>

section \<open>Codes and entries\<close>

definition valid_code :: "u32 \<Rightarrow> bool" where
  "valid_code code \<longleftrightarrow> code AND NOT 0x8000001f = 0"

definition table_size :: nat where "table_size = 256"

definition table_of :: "rte_image \<Rightarrow> u32 set" where
  "table_of im = {vector_lut im + of_nat k |k. k < table_size}"

definition table_ok :: "u32 set \<Rightarrow> rte_image \<Rightarrow> bool" where
  "table_ok R im \<longleftrightarrow> table_of im \<subseteq> R \<and> vector_lut im AND 3 = 0"

definition code_index :: "u32 \<Rightarrow> nat" where
  "code_index code = 32 * unat (drop_bit 31 code) + unat (code AND 31)"

lemma vector_at_index: "vector_at im code = vector_lut im + of_nat (4 * code_index code)"
  by (simp add: vector_at_def code_index_def)

lemma top_bit_less: "unat (drop_bit 31 (v :: u32)) < 2"
proof -
  have "unat v < 2 ^ 32" using unsigned_less [of v] by simp
  then show ?thesis by (simp add: unat_drop_bit_eq drop_bit_nat_def less_mult_imp_div_less)
qed

lemma code_index_less: "code_index code < 64"
  using top_bit_less [of code] unat_and_31 [of code] unfolding code_index_def by linarith

lemma bit_code_mask: "n < 32 \<Longrightarrow> bit (0x8000001f :: u32) n \<longleftrightarrow> n = 31 \<or> n < 5"
proof -
  assume "n < 32"
  moreover have eq: "(0x8000001f :: u32) = push_bit 31 1 OR mask 5" by (simp add: mask_eq_exp_minus_1)
  ultimately show ?thesis
    by (subst eq) (auto simp only: bit_or_iff bit_push_bit_iff bit_mask_iff bit_1_iff; simp)
qed

lemma code_split:
  assumes "valid_code code"
  shows "code = push_bit 31 (drop_bit 31 code) OR (code AND 31)"
proof (rule bit_word_eqI)
  fix n assume n: "n < LENGTH(32)"
  have "\<not> bit (code AND NOT 0x8000001f) n" using assms by (simp add: valid_code_def)
  then have "bit code n \<longrightarrow> n = 31 \<or> n < 5" using bit_code_mask [of n] n by (simp only: bit_and_iff bit_not_iff) simp
  with n show "bit code n = bit (push_bit 31 (drop_bit 31 code) OR (code AND 31)) n"
    by (cases "n = 31") (auto simp: and_31_take_bit bit_or_iff bit_push_bit_iff bit_drop_bit_eq bit_take_bit_iff)
qed

lemma digits_32: "32 * a + x = 32 * b + y \<Longrightarrow> x < 32 \<Longrightarrow> y < 32 \<Longrightarrow> a = b \<and> x = (y :: nat)"
  by presburger

lemma code_index_inject:
  assumes "valid_code a" "valid_code b"
  shows "code_index a = code_index b \<longleftrightarrow> a = b"
proof
  assume eq: "code_index a = code_index b"
  from digits_32 [OF eq [unfolded code_index_def]]
  have "unat (drop_bit 31 a) = unat (drop_bit 31 b)" "unat (a AND 31) = unat (b AND 31)" by simp_all
  then have "drop_bit 31 a = drop_bit 31 b" "a AND 31 = b AND 31"
    by (blast intro: word_unat_eq_iff [THEN iffD2])+
  then show "a = b" using code_split [OF assms(1)] code_split [OF assms(2)] by metis
qed simp

lemma vectors_disjoint:
  assumes "valid_code a" "valid_code b" "a \<noteq> b"
  shows "bytes_of W32 (vector_at im a) \<inter> bytes_of W32 (vector_at im b) = {}"
proof -
  have "code_index a \<noteq> code_index b" using code_index_inject [OF assms(1,2)] assms(3) by simp
  then show ?thesis unfolding vector_at_index
    using code_index_less [of a] code_index_less [of b] by (intro slots_disjoint) auto
qed

lemma vector_in_table: "bytes_of W32 (vector_at im code) \<subseteq> table_of im"
  using code_index_less [of code]
  unfolding vector_at_index bytes_of_offset table_of_def table_size_def by fastforce

lemma vector_hart_loc: "table_ok R im \<Longrightarrow> hart_loc R (Mem W32 (vector_at im code))"
  using vector_in_table [of im code] and_3_add [of "vector_lut im" "code_index code"]
  by (auto simp: table_ok_def vector_at_index simp del: bytes_of.simps of_nat_mult)

lemma masked_valid: "valid_code (v AND 0x8000001f)"
proof -
  have "(v AND 0x8000001f) AND NOT 0x8000001f = v AND (0x8000001f AND NOT 0x8000001f)" by (simp only: and.assoc)
  then show ?thesis by (simp add: valid_code_def)
qed

section \<open>The abstract table\<close>

datatype rte_op = Install u32 u32 | Uninstall u32

fun rte_run :: "rte_image \<Rightarrow> rte_op \<Rightarrow> mach \<Rightarrow> mach" where
  "rte_run im (Install code handler) m = snd (neorv32_rte_handler_install im code handler m)"
| "rte_run im (Uninstall code) m = snd (neorv32_rte_handler_uninstall im code m)"

fun table_run :: "u32 \<Rightarrow> rte_op \<Rightarrow> (u32 \<Rightarrow> u32) \<Rightarrow> u32 \<Rightarrow> u32" where
  "table_run panic (Install code handler) t = (if valid_code code then t(code := handler) else t)"
| "table_run panic (Uninstall code) t = (if valid_code code then t(code := panic) else t)"

text \<open>Memory holds the map, and agrees with \<open>r\<close> outside the table.\<close>

definition holds_table :: "rte_image \<Rightarrow> (u32 \<Rightarrow> u32) \<Rightarrow> (u32 \<Rightarrow> u8) \<Rightarrow> (u32 \<Rightarrow> u8) \<Rightarrow> bool" where
  "holds_table im t r r' \<longleftrightarrow> (\<forall>code. valid_code code \<longrightarrow> word_at r' (vector_at im code) = t code)
     \<and> (\<forall>b. b \<notin> table_of im \<longrightarrow> r' b = r b)"

lemma holds_table_update:
  assumes "holds_table im t r r'" "valid_code code"
  shows "holds_table im (t(code := handler)) r (poke (vector_at im code) handler r')"
  unfolding holds_table_def
proof (intro conjI allI impI)
  fix c assume c: "valid_code c"
  show "word_at (poke (vector_at im code) handler r') (vector_at im c) = (t(code := handler)) c"
  proof (cases "c = code")
    case False
    with c assms vectors_disjoint [of code c im] show ?thesis
      by (simp add: holds_table_def word_at_poke_other del: bytes_of.simps)
  qed simp
next
  fix b assume "b \<notin> table_of im"
  moreover from this have "b \<notin> bytes_of W32 (vector_at im code)" using vector_in_table [of im code] by blast
  ultimately show "poke (vector_at im code) handler r' b = r b"
    using assms(1) by (simp add: holds_table_def poke_other del: bytes_of.simps)
qed

lemma store_vector:
  assumes "hart_at c R m s"
  shows "hart_at c R (tick Fence (wr (Mem W32 (vector_at im code)) v m)) (s\<lparr>ram := poke (vector_at im code) v (ram s)\<rparr>)"
  using hart_at_tick [OF hart_at_wr [OF assms, of "Mem W32 (vector_at im code)" v], of Fence] by simp

lemma rte_run_refines:
  assumes "hart_at c R m (s\<lparr>ram := r'\<rparr>)" "holds_table im t r r'"
  shows "\<exists>r''. hart_at c R (rte_run im op m) (s\<lparr>ram := r''\<rparr>) \<and> holds_table im (table_run (rte_panic_at im) op t) r r''"
proof (cases op)
  case (Install code handler)
  with assms holds_table_update [OF assms(2)] store_vector [OF assms(1), of im code handler] show ?thesis
    by (cases "valid_code code")
      (auto simp: neorv32_rte_handler_install_def valid_code_def vector_slot_at)
next
  case (Uninstall code)
  with assms holds_table_update [OF assms(2)] store_vector [OF assms(1), of im code "rte_panic_at im"] show ?thesis
    by (cases "valid_code code")
      (auto simp: neorv32_rte_handler_uninstall_def valid_code_def vector_slot_at)
qed

lemma rte_runs_refine:
  assumes "hart_at c R m (s\<lparr>ram := r'\<rparr>)" "holds_table im t r r'"
  shows "\<exists>r''. hart_at c R (fold (rte_run im) ops m) (s\<lparr>ram := r''\<rparr>)
    \<and> holds_table im (fold (table_run (rte_panic_at im)) ops t) r r''"
  using assms
proof (induction ops arbitrary: m r' t)
  case (Cons op ops)
  from rte_run_refines [OF Cons.prems, of op] obtain r1 where
    "hart_at c R (rte_run im op m) (s\<lparr>ram := r1\<rparr>)" "holds_table im (table_run (rte_panic_at im) op t) r r1" by blast
  from Cons.IH [OF this] show ?case by simp
qed auto

section \<open>Set-up\<close>

lemma fill_vectors:
  assumes "hart_at c R m s"
  shows "hart_at c R (fold (\<lambda>i m. wr (vector_slot im 1 i) v (wr (vector_slot im 0 i) v m)) is m)
    (s\<lparr>ram := fill (vector_lut im) (\<lambda>_. v) (concat (map (\<lambda>i. [i, 32 + i]) is)) (ram s)\<rparr>)"
  using assms
proof (induction "is" arbitrary: m s)
  case (Cons i "is")
  have slots: "vector_slot im 0 i = Mem W32 (slot (vector_lut im) i)"
    "vector_slot im 1 i = Mem W32 (slot (vector_lut im) (32 + i))"
    by (simp_all add: vector_slot_def slot_offset)
  let ?m = "wr (vector_slot im 1 i) v (wr (vector_slot im 0 i) v m)"
  have "hart_at c R ?m (s\<lparr>ram := poke (slot (vector_lut im) (32 + i)) v (poke (slot (vector_lut im) i) v (ram s))\<rparr>)"
    using hart_at_wr [OF hart_at_wr [OF Cons.prems, of "vector_slot im 0 i" v], of "vector_slot im 1 i" v]
    unfolding slots by simp
  from Cons.IH [OF this] show ?case by (simp add: fill_def)
qed (simp add: fill_def)

lemma vectors_filled:
  "holds_table im (\<lambda>_. v) r (fill (vector_lut im) (\<lambda>_. v) (concat (map (\<lambda>i. [i, 32 + i]) [0..<32])) r)"
  (is "holds_table im _ r (fill _ _ ?is r)")
proof -
  have all: "set ?is = {..<64}"
  proof -
    have "set ?is = (\<Union>i \<in> {0..<32}. {i, 32 + i})" by (simp only: set_concat set_map set_upt image_image) simp
    also have "\<dots> = {..<64}"
    proof (intro set_eqI iffI)
      fix k :: nat assume "k \<in> {..<64}"
      then show "k \<in> (\<Union>i \<in> {0..<32}. {i, 32 + i})"
        by (cases "k < 32") (auto intro!: bexI [of _ "k - 32"])
    qed auto
    finally show ?thesis .
  qed
  have "word_at (fill (vector_lut im) (\<lambda>_. v) ?is r) (vector_at im code) = v" for code
  proof -
    have sub: "set ?is \<subseteq> {..<2 ^ 30}" unfolding all by auto
    have mem: "code_index code \<in> set ?is" unfolding all using code_index_less [of code] by simp
    have "vector_at im code = slot (vector_lut im) (code_index code)"
      by (simp add: vector_at_index slot_offset)
    moreover have "code_index code < 2 ^ 30" using code_index_less [of code] by simp
    ultimately show ?thesis using word_at_fill [OF sub, of "code_index code"] mem by (simp only: if_True)
  qed
  moreover have "fill (vector_lut im) (\<lambda>_. v) is r b = r b" if "b \<notin> table_of im" "set is \<subseteq> {..<64}" for b "is" r
    using that(2)
  proof (induction "is" arbitrary: r)
    case (Cons i "is")
    have "bytes_of W32 (slot (vector_lut im) i) \<subseteq> table_of im"
      using Cons.prems unfolding slot_offset bytes_of_offset table_of_def table_size_def by fastforce
    with that(1) have "b \<notin> bytes_of W32 (slot (vector_lut im) i)" by blast
    with Cons show ?case by (simp add: fill_def poke_other del: bytes_of.simps)
  qed (simp add: fill_def)
  ultimately show ?thesis using all by (simp add: holds_table_def)
qed

lemma rte_setup_at:
  assumes "hart_at c R m s" "\<And>h. hw m h (Csr CSR_MHARTID) = 0"
  shows "\<exists>s'. hart_at c R (neorv32_rte_setup im m) s' \<and> holds_table im (\<lambda>_. rte_panic_at im) (ram s) (ram s')
    \<and> mtvec s' = rte_core_at im AND NOT 3 \<and> mie_en s' = 0 \<and> \<not> mstatus_mie s' \<and> mstatus_mpp s'"
proof -
  let ?w = "BIT (csr_mstatus CSR_MSTATUS_MPP_H) OR BIT (csr_mstatus CSR_MSTATUS_MPP_L)"
  let ?m1 = "wr (Csr CSR_MIE) 0 (wr (Csr CSR_MTVEC) (rte_core_at im AND 0xfffffffc) (wr (Csr CSR_MSTATUS) ?w m))"
  let ?s1 = "trap_csr_write c CSR_MSTATUS ?w s\<lparr>mtvec := (rte_core_at im AND 0xfffffffc) AND NOT 2, mie_en := 0\<rparr>"
  have a1: "hart_at c R (snd (rd (Csr CSR_MHARTID) ?m1)) ?s1"
    using hart_at_rd [OF hart_at_wr [OF hart_at_wr [OF hart_at_wr [OF assms(1), of "Csr CSR_MSTATUS" ?w],
      of "Csr CSR_MTVEC" "rte_core_at im AND 0xfffffffc"], of "Csr CSR_MIE" 0], of "Csr CSR_MHARTID"] by simp
  have id: "rd_val (Csr CSR_MHARTID) ?m1 = 0" using assms(2) by (simp add: rd_val_def)
  let ?m2 = "fold (\<lambda>i m. wr (vector_slot im 1 i) (rte_panic_at im) (wr (vector_slot im 0 i) (rte_panic_at im) m))
    [0..<32] (snd (rd (Csr CSR_MHARTID) ?m1))"
  have set: "neorv32_rte_setup im m = tick Fence ?m2"
    using id unfolding neorv32_rte_setup_def neorv32_cpu_csr_write_def neorv32_cpu_csr_read_def Let_def rd_def
    by simp
  from hart_at_tick [OF fill_vectors [OF a1, of im "rte_panic_at im" "[0..<32]"], of Fence]
  have a2: "hart_at c R (tick Fence ?m2) (?s1\<lparr>ram := fill (vector_lut im) (\<lambda>_. rte_panic_at im)
      (concat (map (\<lambda>i. [i, 32 + i]) [0..<32])) (ram ?s1)\<rparr>)" unfolding hart_step.simps .
  have s1: "ram ?s1 = ram s" "\<not> mstatus_mie ?s1" "mstatus_mpp ?s1"
    by (simp_all add: trap_csr_write_def bit_or_iff)
  have "(0xfffffffc :: u32) = NOT 3" "NOT 3 AND NOT 2 = (NOT 3 :: u32)" by simp_all
  then have "(x AND 0xfffffffc) AND NOT 2 = x AND NOT (3 :: u32)" for x by (simp only: and.assoc)
  with a2 s1 vectors_filled [of im "rte_panic_at im" "ram s"] show ?thesis
    unfolding set by (intro exI conjI) (assumption | simp)+
qed

end
