(* ===== verification/Rte_Handlers.thy ===== *)
theory Rte_Handlers
  imports Rte_Table Uart_Rtl Clint
begin

text \<open>
  Second-level handlers.  A C function called by the first-level handler keeps the stack
  pointer, and what it does to the other registers does not matter, since they are restored.
  Three kinds of handler are shown to meet the contract \<open>trap_handler\<close>: one that only talks
  to devices, the default panic handler, and the emulation of unaligned word loads of
  \<^verbatim>\<open>sw/example/demo_emulate_unaligned/main.c\<close>.
\<close>

section \<open>C functions as handlers\<close>

text \<open>\<open>clobber\<close> is whatever the compiled code leaves in the registers.\<close>

definition c_handlers ::
    "((nat \<Rightarrow> u32) \<Rightarrow> nat \<Rightarrow> u32) \<Rightarrow> (u32 \<Rightarrow> mach \<Rightarrow> mach option) \<Rightarrow> u32 \<Rightarrow> hart \<Rightarrow> hart option" where
  "c_handlers clobber code addr h =
     do { m \<leftarrow> code addr (hmach h); Some (h\<lparr>hmach := m, gpr := (clobber (gpr h))(2 := gpr h 2)\<rparr>) }"

locale c_handler =
  fixes riscv_c :: bool and R :: "u32 set" and ok :: "mach \<Rightarrow> bool" and f :: "mach \<Rightarrow> mach option"
    and pre :: "hart_hw \<Rightarrow> bool" and post :: "hart_hw \<Rightarrow> hart_hw \<Rightarrow> bool" and served :: "hart_hw \<Rightarrow> mach \<Rightarrow> bool"
    and clobber :: "(nat \<Rightarrow> u32) \<Rightarrow> nat \<Rightarrow> u32" and code :: "u32 \<Rightarrow> mach \<Rightarrow> mach option" and addr :: u32
  assumes c_undisturbed: "ok m \<Longrightarrow> only_hart R m m' \<Longrightarrow> ok m'"
    and c_lasting: "served s m \<Longrightarrow> only_hart R m m' \<Longrightarrow> served s m'"
    and runs: "hart_at riscv_c R m s \<Longrightarrow> ok m \<Longrightarrow> pre s \<Longrightarrow>
      \<exists>m' s'. f m = Some m' \<and> hart_at riscv_c R m' s' \<and> served s m' \<and> post s s'"

sublocale c_handler \<subseteq> trap_handler riscv_c R ok "c_handlers clobber (code(addr := f))" addr pre post served
proof
  fix m m' assume "ok m" "only_hart R m m'" then show "ok m'" by (rule c_undisturbed)
next
  fix s m m' assume "served s m" "only_hart R m m'" then show "served s m'" by (rule c_lasting)
next
  fix h :: hart and s assume a: "hart_at riscv_c R (hmach h) s" "ok (hmach h)" "pre s"
  from runs [OF this] obtain m' s' where m': "f (hmach h) = Some m'" "hart_at riscv_c R m' s'" "served s m'" "post s s'" by blast
  then show "\<exists>h' s'. c_handlers clobber (code(addr := f)) addr h = Some h' \<and> gpr h' 2 = gpr h 2
      \<and> hart_at riscv_c R (hmach h') s' \<and> served s (hmach h') \<and> post s s'"
    by (intro exI [of _ "h\<lparr>hmach := m', gpr := (clobber (gpr h))(2 := gpr h 2)\<rparr>"] exI [of _ s'])
      (simp add: c_handlers_def)
qed

section \<open>The console of a running system\<close>

text \<open>
  What printing needs: the console, present or not, keeps taking characters, and no access but
  a write of the UART's control register ends that.  \<open>said\<close> are the characters the unit has been
  handed without losing one; only a write to its data register adds to them.
\<close>

definition soc_uart0 :: "mach \<Rightarrow> bool" where
  "soc_uart0 m \<longleftrightarrow> bit (rd_val SYSINFO_SOC m) (sysinfo_soc SYSINFO_SOC_IO_UART0)"

definition hex_word :: "u32 \<Rightarrow> u8 list" where
  "hex_word num = 0x30 # 0x78 # map (\<lambda>i. rte_hex ! unat (drop_bit (28 - 4 * i) num AND 0xf)) [0..<8]"

definition printed :: "bool \<Rightarrow> u8 list \<Rightarrow> u8 list" where
  "printed wired s = (if wired then s else [])"

lemma printed_simps [simp]: "printed True s = s" "printed False s = []"
  by (simp_all add: printed_def)

locale rte_terminal =
  fixes ok :: "mach \<Rightarrow> bool" and wired :: bool and said :: "mach \<Rightarrow> u8 list"
  assumes ok_step: "ok m \<Longrightarrow> (\<And>v. e \<noteq> Wr (UART_CTRL UART0) v) \<Longrightarrow> ok (tick e m)"
    and ok_soc: "ok m \<Longrightarrow> soc_uart0 m \<longleftrightarrow> wired"
    and ok_putc: "ok m \<Longrightarrow> wired \<Longrightarrow> \<exists>m'. neorv32_uart_putc UART0 c m = Some m' \<and> ok m' \<and> said m' = said m @ [c]"
    and said_step: "ok m \<Longrightarrow> (\<And>v. e \<noteq> Wr (UART_CTRL UART0) v) \<Longrightarrow> (\<And>v. e \<noteq> Wr (UART_DATA UART0) v) \<Longrightarrow>
      said (tick e m) = said m"
begin

lemma ok_rd: "ok m \<Longrightarrow> ok (snd (rd l m))"
  by (auto simp: rd_def intro: ok_step)

lemma available: "ok m \<Longrightarrow> fst (neorv32_uart_available UART0 m) \<noteq> 0 \<longleftrightarrow> wired"
  using available_UART0(1) [of m] ok_soc by (simp add: soc_uart0_def)

lemma said_rd: "ok m \<Longrightarrow> said (snd (rd l m)) = said m"
  by (auto simp: rd_def intro: said_step)

lemma said_available: "ok m \<Longrightarrow> said (snd (neorv32_uart_available UART0 m)) = said m"
  by (simp add: available_UART0(2) said_rd)

lemma ok_available: "ok m \<Longrightarrow> ok (snd (neorv32_uart_available UART0 m))"
  by (simp add: available_UART0(2) ok_rd)

lemma putcs_ok:
  "ok m \<Longrightarrow> wired \<Longrightarrow> \<exists>m'. putcs UART0 s m = Some m' \<and> ok m' \<and> only_locs console_locs m m' \<and> said m' = said m @ s"
proof (induction s arbitrary: m)
  case (Cons c s)
  from ok_putc [OF Cons.prems] obtain m1 where m1: "neorv32_uart_putc UART0 c m = Some m1" "ok m1"
    "said m1 = said m @ [c]" by blast
  from Cons.IH [OF m1(2) Cons.prems(2)] obtain m2 where "putcs UART0 s m1 = Some m2" "ok m2"
    "only_locs console_locs m1 m2" "said m2 = said m1 @ s" by blast
  with m1(1,3) putc_only [OF m1(1)] show ?case by (auto intro: only_locs_trans)
qed simp

text \<open>Both printing routines first ask whether there is a console.\<close>

lemma print_ok:
  assumes "ok m" and out: "f m = (let (uart, m1) = neorv32_uart_available UART0 m in if uart \<noteq> 0 then putcs UART0 s m1 else Some m1)"
  shows "\<exists>m'. f m = Some m' \<and> ok m' \<and> only_locs console_locs m m' \<and> said m' = said m @ printed wired s"
proof (cases wired)
  case True
  from putcs_ok [OF ok_available [OF assms(1)] True] obtain m' where
    "putcs UART0 s (snd (neorv32_uart_available UART0 m)) = Some m'" "ok m'"
    "only_locs console_locs (snd (neorv32_uart_available UART0 m)) m'" "said m' = said m @ s"
    by (auto simp: said_available [OF assms(1)])
  with available [OF assms(1)] True only_locs_trans [OF available_only [of m]] show ?thesis
    by (cases "neorv32_uart_available UART0 m") (simp add: out)
next
  case False
  with available [OF assms(1)] ok_available [OF assms(1)] available_only [of m] said_available [OF assms(1)] show ?thesis
    by (cases "neorv32_uart_available UART0 m") (simp add: out)
qed

lemma rte_puts_ok:
  "ok m \<Longrightarrow> \<exists>m'. rte_puts s m = Some m' \<and> ok m' \<and> only_locs console_locs m m' \<and> said m' = said m @ printed wired (crlf s)"
  by (rule print_ok) (simp_all add: rte_puts_def puts_putcs split: prod.split)

lemma rte_puth_digits_putcs:
  "rte_puth_digits num is = putcs UART0 (map (\<lambda>i. rte_hex ! unat (drop_bit (28 - 4 * i) num AND 0xf)) is)"
proof
  fix m show "rte_puth_digits num is m
      = putcs UART0 (map (\<lambda>i. rte_hex ! unat (drop_bit (28 - 4 * i) num AND 0xf)) is) m"
  proof (induction "is" arbitrary: m)
    case (Cons i "is")
    have "rte_puth_digits num is = putcs UART0 (map (\<lambda>i. rte_hex ! unat (drop_bit (28 - 4 * i) num AND 0xf)) is)"
      by (rule ext) (rule Cons.IH)
    then show ?case by simp
  qed simp
qed

lemma rte_puth_ok:
  "ok m \<Longrightarrow> \<exists>m'. rte_puth num m = Some m' \<and> ok m' \<and> only_locs console_locs m m' \<and> said m' = said m @ printed wired (hex_word num)"
  by (rule print_ok) (simp_all add: rte_puth_def rte_puth_digits_putcs hex_word_def split: prod.split del: upt_rec_numeral)

lemma ok_hart:
  assumes "ok m" "only_hart R m m'" "apart R console_locs"
  shows "ok m'" "said m' = said m"
proof -
  from assms(2) obtain k where k: "m' = m\<lparr>log := k @ log m\<rparr>" "\<forall>e \<in> set k. hart_event R e"
    unfolding only_hart_eq by blast
  have "\<not> hart_loc R (UART_CTRL UART0)" "\<not> hart_loc R (UART_DATA UART0)"
    using not_hart_loc [OF assms(3)] by (simp_all add: console_locs_def)
  then have "ok (m\<lparr>log := k @ log m\<rparr>) \<and> said (m\<lparr>log := k @ log m\<rparr>) = said m" using k(2) assms(1)
  proof (induction k)
    case (Cons e k)
    then have "ok (m\<lparr>log := k @ log m\<rparr>)" "\<And>v. e \<noteq> Wr (UART_CTRL UART0) v" "\<And>v. e \<noteq> Wr (UART_DATA UART0) v"
      "said (m\<lparr>log := k @ log m\<rparr>) = said m" by auto
    with ok_step [OF this(1,2)] said_step [OF this(1-3)] show ?case by (simp add: tick_def)
  qed simp
  with k(1) show "ok m'" "said m' = said m" by simp_all
qed

end

interpretation rte_silent: rte_terminal no_console False "\<lambda>_. []"
proof
  fix m c assume "no_console m"
  then show "soc_uart0 m \<longleftrightarrow> False" by (simp add: soc_uart0_def no_console_def rd_val_def)
qed (auto simp: no_console_def)

interpretation rte_wired: rte_terminal "console_ok p txd rxd rest input" True
    "\<lambda>m. uart_out (uart_state UART0 p txd rxd input (log m))"
  for p txd rxd rest input
proof
  fix m e assume "console_ok p txd rxd rest input m" "\<And>v. e \<noteq> Wr (UART_CTRL UART0) v"
  then show "console_ok p txd rxd rest input (tick e m)"
    unfolding console_ok_def using uart_tx_hw.ok_tick by simp
next
  fix m assume "console_ok p txd rxd rest input m"
  from console_available(1) [OF this] show "soc_uart0 m \<longleftrightarrow> True"
    using available_UART0(1) [of m] by (simp add: soc_uart0_def)
next
  fix m c assume "console_ok p txd rxd rest input m"
  then have u: "uart_ok p txd rxd rest UART0 input m" "\<And>m'. uart_ok p txd rxd rest UART0 input m' \<Longrightarrow> console_ok p txd rxd rest input m'"
    by (simp_all add: console_ok_def)
  obtain m' where m': "neorv32_uart_putc UART0 c m = Some m'" using uart_tx_hw.putc_returns [OF u(1)] by blast
  with putc_out [OF u(1) m'] u(2) show "\<exists>m'. neorv32_uart_putc UART0 c m = Some m' \<and> console_ok p txd rxd rest input m'
      \<and> uart_out (uart_state UART0 p txd rxd input (log m')) = uart_out (uart_state UART0 p txd rxd input (log m)) @ [c]"
    by blast
next
  fix m e assume "console_ok p txd rxd rest input m" "\<And>v. e \<noteq> Wr (UART_CTRL UART0) v" "\<And>v. e \<noteq> Wr (UART_DATA UART0) v"
  then show "uart_out (uart_state UART0 p txd rxd input (log (tick e m))) = uart_out (uart_state UART0 p txd rxd input (log m))"
    unfolding console_ok_def using uart_out_tick by blast
qed

section \<open>Handlers that only talk to devices\<close>

lemma hart_at_only_locs:
  assumes "hart_at c R m s" "only_locs L m m'" "apart R L"
  shows "hart_at c R m' s"
proof -
  from assms(2) obtain k where k: "m' = m\<lparr>log := k @ log m\<rparr>" "\<forall>e \<in> set k. event_in L e"
    by (cases m; cases m') (auto simp: only_locs_def)
  have "hart_at c R (m\<lparr>log := k @ log m\<rparr>) s" using k(2)
  proof (induction k)
    case (Cons e k)
    then have ih: "hart_at c R (m\<lparr>log := k @ log m\<rparr>) s" by simp
    have "event_in L e" using Cons.prems by simp
    then obtain l v where l: "e = Rd l v \<or> e = Wr l v" "l \<in> L" by (cases e) auto
    from hart_at_agree [OF hart_at_tick [OF ih] apart_step [OF assms(3) l]]
    show ?case by (simp add: tick_def)
  qed (simp add: assms(1))
  with k(1) show ?thesis by simp
qed

locale device_handler =
  fixes R :: "u32 set" and L :: "loc set" and ok :: "mach \<Rightarrow> bool" and f :: "mach \<Rightarrow> mach option"
  assumes d_undisturbed: "ok m \<Longrightarrow> only_hart R m m' \<Longrightarrow> ok m'"
    and devices: "apart R L"
    and returns: "ok m \<Longrightarrow> \<exists>m'. f m = Some m' \<and> ok m' \<and> only_locs L m m'"

sublocale device_handler \<subseteq> c_handler riscv_c R ok f "\<lambda>_. True" "\<lambda>s s'. s' = s" "\<lambda>_. ok" clobber code addr
  for riscv_c clobber code addr
proof
  fix m m' assume "ok m" "only_hart R m m'" then show "ok m'" by (rule d_undisturbed)
  then show "ok m'" .
next
  fix m s assume "hart_at riscv_c R m s" "ok m"
  with returns [of m] hart_at_only_locs [OF _ _ devices]
  show "\<exists>m' s'. f m = Some m' \<and> hart_at riscv_c R m' s' \<and> ok m' \<and> s' = s" by blast
qed

section \<open>The panic handler\<close>

text \<open>An exception that is not fatal is reported, an interrupt is reported and its source disabled.\<close>

definition nonfatal :: "hart_hw \<Rightarrow> bool" where
  "nonfatal s \<longleftrightarrow> (\<exists>name. panic_cause (mcause s AND 0x8000001f) = Some (name, False))"

definition panicked :: "hart_hw \<Rightarrow> hart_hw" where
  "panicked s = (if bit (mcause s) 31
     then s\<lparr>mie_en := (mie_en s AND NOT (shl32 1 (mcause s AND 0x1f))) AND 0xffff0888\<rparr> else s)"

text \<open>The report of a trap that is not fatal; \<open>core1\<close> is the core that took it.\<close>

definition panic_report :: "bool \<Rightarrow> string \<Rightarrow> hart_hw \<Rightarrow> u8 list" where
  "panic_report core1 name s =
     RTE_TERM_HL_ON @ str ''<NEORV32-RTE-PANIC> '' @ str (if core1 then ''[cpu1|'' else ''[cpu0|'')
     @ str (if mstatus_mpp s then ''M] '' else ''U] '') @ str name
     @ str '' MEPC='' @ hex_word (mepc s) @ str '' MTINST='' @ hex_word (mtinst s) @ str '' MTVAL='' @ hex_word (mtval s)
     @ (if bit (mcause s) 31 then str '' Disabling IRQ source'' else [])
     @ str '' </NEORV32-RTE-PANIC>'' @ [13, 10] @ RTE_TERM_HL_OFF"

lemma panic_names_plain:
  assumes "panic_cause c = Some (name, fatal)"
  shows "crlf (str name) = str name"
proof -
  from assms have "(c, name, fatal) \<in> set [(c, name, fatal)]" "panic_cause c = Some (name, fatal)" by simp_all
  then have "list_all (\<lambda>c. c \<noteq> 0 \<and> c \<noteq> 10) (str name)"
    unfolding panic_cause_def by (elim map_of_SomeD [elim_format]) (auto simp: str_def)
  then show ?thesis by (intro crlf_id) (auto simp: list_all_iff)
qed

lemma panic_pieces:
  "crlf (RTE_TERM_HL_ON @ str ''<NEORV32-RTE-PANIC> '') = RTE_TERM_HL_ON @ str ''<NEORV32-RTE-PANIC> ''"
  "crlf (str ''[cpu1|'') = str ''[cpu1|''" "crlf (str ''[cpu0|'') = str ''[cpu0|''"
  "crlf (str ''M] '') = str ''M] ''" "crlf (str ''U] '') = str ''U] ''" "crlf (str '' MEPC='') = str '' MEPC=''"
  "crlf (str '' MTINST='') = str '' MTINST=''" "crlf (str '' MTVAL='') = str '' MTVAL=''"
  "crlf (str '' Disabling IRQ source'') = str '' Disabling IRQ source''"
  "crlf (str '' </NEORV32-RTE-PANIC>'' @ 10 # RTE_TERM_HL_OFF) = str '' </NEORV32-RTE-PANIC>'' @ [13, 10] @ RTE_TERM_HL_OFF"
  by (simp_all add: str_def RTE_TERM_HL_ON_def RTE_TERM_HL_OFF_def)

lemma came_from_machine_mode:
  "trap_csr_read CSR_MSTATUS s AND push_bit (csr_mstatus CSR_MSTATUS_MPP_L) 3 \<noteq> 0 \<longleftrightarrow> mstatus_mpp s"
  by (auto simp: trap_csr_read_def csr_bit_def BIT_def)

context rte_terminal
begin

definition at :: "bool \<Rightarrow> u32 set \<Rightarrow> hart_hw \<Rightarrow> u8 list \<Rightarrow> mach \<Rightarrow> bool" where
  "at c R s w m \<longleftrightarrow> ok m \<and> apart R console_locs \<and> hart_at c R m s \<and> said m = w"

lemma at_puts: "at c R s w m \<Longrightarrow> \<exists>m'. rte_puts x m = Some m' \<and> at c R s (w @ printed wired (crlf x)) m'"
  using rte_puts_ok [of m x] hart_at_only_locs unfolding at_def by blast

lemma at_puth: "at c R s w m \<Longrightarrow> \<exists>m'. rte_puth x m = Some m' \<and> at c R s (w @ printed wired (hex_word x)) m'"
  using rte_puth_ok [of m x] hart_at_only_locs unfolding at_def by blast

lemma at_csr: "at c R s w m \<Longrightarrow> \<exists>v m'. neorv32_cpu_csr_read k m = (v, m') \<and> at c R s w m'
    \<and> (k \<in> trap_csrs \<longrightarrow> v = trap_csr_read k s)"
  unfolding at_def neorv32_cpu_csr_read_def rd_def
  using ok_step [of m "Rd (Csr k) (rd_val (Csr k) m)"] said_step [of m "Rd (Csr k) (rd_val (Csr k) m)"]
    hart_at_tick [of c R m s "Rd (Csr k) (rd_val (Csr k) m)"] rd_val_hart [of c R m s "Csr k"] by simp

lemma at_clr: "at c R s w m \<Longrightarrow> at c R (hart_step c (CsrClr k v) s) w (neorv32_cpu_csr_clr k v m)"
  unfolding at_def neorv32_cpu_csr_clr_def
  using ok_step [of m "CsrClr k v"] said_step [of m "CsrClr k v"] hart_at_tick by (simp del: hart_step.simps)

lemma at_panic:
  assumes "at c R s w m" and name: "panic_cause (mcause s AND 0x8000001f) = Some (name, False)"
  shows "\<exists>m' core1. rte_panic m = Some m' \<and> at c R (panicked s) (w @ printed wired (panic_report core1 name s)) m'"
proof -
  let ?p = "\<lambda>x. printed wired (crlf x)"
  obtain m1 w1 where m1: "rte_puts (RTE_TERM_HL_ON @ str ''<NEORV32-RTE-PANIC> '') m = Some m1" "at c R s w1 m1"
    "w1 = w @ ?p (RTE_TERM_HL_ON @ str ''<NEORV32-RTE-PANIC> '')" using at_puts [OF assms(1)] by blast
  obtain hart m2 where m2: "neorv32_cpu_csr_read CSR_MHARTID m1 = (hart, m2)" "at c R s w1 m2" using at_csr [OF m1(2)] by blast
  obtain m3 w3 where m3: "rte_puts (str (if hart AND 1 \<noteq> 0 then ''[cpu1|'' else ''[cpu0|'')) m2 = Some m3" "at c R s w3 m3"
    "w3 = w1 @ ?p (str (if hart AND 1 \<noteq> 0 then ''[cpu1|'' else ''[cpu0|''))" using at_puts [OF m2(2)] by blast
  obtain m4 where m4: "neorv32_cpu_csr_read CSR_MSTATUS m3 = (trap_csr_read CSR_MSTATUS s, m4)" "at c R s w3 m4"
    using at_csr [OF m3(2), of CSR_MSTATUS] by auto
  obtain m5 w5 where m5: "rte_puts (str (if mstatus_mpp s then ''M] '' else ''U] '')) m4 = Some m5" "at c R s w5 m5"
    "w5 = w3 @ ?p (str (if mstatus_mpp s then ''M] '' else ''U] ''))" using at_puts [OF m4(2)] by blast
  obtain m6 where m6: "neorv32_cpu_csr_read CSR_MCAUSE m5 = (mcause s AND 0x8000001f, m6)" "at c R s w5 m6"
    using at_csr [OF m5(2), of CSR_MCAUSE] by auto
  obtain m7 w7 where m7: "rte_puts (str name) m6 = Some m7" "at c R s w7 m7" "w7 = w5 @ ?p (str name)"
    using at_puts [OF m6(2)] by blast
  obtain m8 w8 where m8: "rte_puts (str '' MEPC='') m7 = Some m8" "at c R s w8 m8" "w8 = w7 @ ?p (str '' MEPC='')"
    using at_puts [OF m7(2)] by blast
  obtain m9 where m9: "neorv32_cpu_csr_read CSR_MEPC m8 = (mepc s, m9)" "at c R s w8 m9"
    using at_csr [OF m8(2), of CSR_MEPC] by auto
  obtain m10 w10 where m10: "rte_puth (mepc s) m9 = Some m10" "at c R s w10 m10" "w10 = w8 @ printed wired (hex_word (mepc s))"
    using at_puth [OF m9(2)] by blast
  obtain m11 w11 where m11: "rte_puts (str '' MTINST='') m10 = Some m11" "at c R s w11 m11" "w11 = w10 @ ?p (str '' MTINST='')"
    using at_puts [OF m10(2)] by blast
  obtain m12 where m12: "neorv32_cpu_csr_read CSR_MTINST m11 = (mtinst s, m12)" "at c R s w11 m12"
    using at_csr [OF m11(2), of CSR_MTINST] by auto
  obtain m13 w13 where m13: "rte_puth (mtinst s) m12 = Some m13" "at c R s w13 m13" "w13 = w11 @ printed wired (hex_word (mtinst s))"
    using at_puth [OF m12(2)] by blast
  obtain m14 w14 where m14: "rte_puts (str '' MTVAL='') m13 = Some m14" "at c R s w14 m14" "w14 = w13 @ ?p (str '' MTVAL='')"
    using at_puts [OF m13(2)] by blast
  obtain m15 where m15: "neorv32_cpu_csr_read CSR_MTVAL m14 = (mtval s, m15)" "at c R s w14 m15"
    using at_csr [OF m14(2), of CSR_MTVAL] by auto
  obtain m16 w16 where m16: "rte_puth (mtval s) m15 = Some m16" "at c R s w16 m16" "w16 = w14 @ printed wired (hex_word (mtval s))"
    using at_puth [OF m15(2)] by blast
  let ?bit = "shl32 1 (mcause s AND 0x1f)" and ?w17 = "w16 @ (if bit (mcause s) 31 then ?p (str '' Disabling IRQ source'') else [])"
  have "\<exists>m17. (if bit (mcause s) 31 then do {
      m \<leftarrow> rte_puts (str '' Disabling IRQ source'') m16;
      Some (neorv32_cpu_csr_clr CSR_MIE ?bit m) } else Some m16) = Some m17 \<and> at c R (panicked s) ?w17 m17"
  proof (cases "bit (mcause s) 31")
    case True
    obtain m where m: "rte_puts (str '' Disabling IRQ source'') m16 = Some m" "at c R s ?w17 m"
      using at_puts [OF m16(2)] True by fastforce
    from at_clr [OF m(2), of CSR_MIE ?bit] True have "at c R (panicked s) ?w17 (neorv32_cpu_csr_clr CSR_MIE ?bit m)"
      by (simp add: panicked_def)
    with m(1) True show ?thesis by simp
  qed (use m16(2) in \<open>simp add: panicked_def\<close>)
  then obtain m17 where m17: "(if bit (mcause s) 31 then do {
      m \<leftarrow> rte_puts (str '' Disabling IRQ source'') m16;
      Some (neorv32_cpu_csr_clr CSR_MIE ?bit m) } else Some m16) = Some m17" "at c R (panicked s) ?w17 m17" by blast
  let ?w18 = "?w17 @ ?p (str '' </NEORV32-RTE-PANIC>'' @ [10] @ RTE_TERM_HL_OFF)"
  obtain m18 where m18: "rte_puts (str '' </NEORV32-RTE-PANIC>'' @ [10] @ RTE_TERM_HL_OFF) m17 = Some m18"
    "at c R (panicked s) ?w18 m18" using at_puts [OF m17(2)] by blast
  have idx: "(mcause s AND 0x8000001f) AND 0x1f = mcause s AND 0x1f" by (simp add: and.assoc)
  have run: "rte_panic m = Some m18"
    unfolding rte_panic_def m1(1) Option.bind.bind_lunit m2(1) Let_def prod.case m3(1) m4(1) came_from_machine_mode m5(1) m6(1)
      name option.case m7(1) m8(1) m9(1) m10(1) m11(1) m12(1) m13(1) m14(1) m15(1) m16(1) negative_bit and_mask_31
      idx m17(1) if_False m18(1) ..
  have "?w18 = w @ printed wired (panic_report (hart AND 1 \<noteq> 0) name s)"
    unfolding m16(3) m14(3) m13(3) m11(3) m10(3) m8(3) m7(3) m5(3) m3(3) m1(3) panic_names_plain [OF name]
    by (cases wired) (simp_all add: panic_report_def panic_pieces)
  with m18(2) run show ?thesis by auto
qed

end

interpretation panic_silent: c_handler riscv_c R "\<lambda>m. no_console m \<and> apart R console_locs" rte_panic
    nonfatal "\<lambda>s s'. s' = panicked s" "\<lambda>_ m. no_console m \<and> apart R console_locs" clobber code addr
  for riscv_c R clobber code addr
proof
  fix m m' assume a: "no_console m \<and> apart R console_locs" "only_hart R m m'"
  with rte_silent.ok_hart show "no_console m' \<and> apart R console_locs" by blast
  then show "no_console m' \<and> apart R console_locs" .
next
  fix m s assume a: "hart_at riscv_c R m s" "no_console m \<and> apart R console_locs" "nonfatal s"
  then obtain name where "panic_cause (mcause s AND 0x8000001f) = Some (name, False)" by (auto simp: nonfatal_def)
  from rte_silent.at_panic [OF _ this, of riscv_c R "[]" m] a(1,2) show "\<exists>m' s'. rte_panic m = Some m' \<and> hart_at riscv_c R m' s'
      \<and> (no_console m' \<and> apart R console_locs) \<and> s' = panicked s"
    by (auto simp: rte_silent.at_def)
qed

text \<open>With a console, the report goes out behind what was said before.\<close>

definition reported :: "uart_time \<Rightarrow> nat \<Rightarrow> nat \<Rightarrow> u8 list \<Rightarrow> u8 list \<Rightarrow> hart_hw \<Rightarrow> mach \<Rightarrow> bool" where
  "reported p txd rxd input w s m \<longleftrightarrow> (\<exists>name core1. panic_cause (mcause s AND 0x8000001f) = Some (name, False)
     \<and> uart_out (uart_state UART0 p txd rxd input (log m)) = w @ panic_report core1 name s)"

interpretation panic_wired: c_handler riscv_c R
    "\<lambda>m. console_ok p txd rxd rest input m \<and> apart R console_locs \<and> uart_out (uart_state UART0 p txd rxd input (log m)) = w"
    rte_panic nonfatal "\<lambda>s s'. s' = panicked s"
    "\<lambda>s m. console_ok p txd rxd rest input m \<and> apart R console_locs \<and> reported p txd rxd input w s m" clobber code addr
  for riscv_c R clobber code addr p txd rxd rest input w
proof
  fix m m' assume "console_ok p txd rxd rest input m \<and> apart R console_locs
      \<and> uart_out (uart_state UART0 p txd rxd input (log m)) = w" "only_hart R m m'"
  with rte_wired.ok_hart show "console_ok p txd rxd rest input m' \<and> apart R console_locs
      \<and> uart_out (uart_state UART0 p txd rxd input (log m')) = w" by blast
next
  fix s m m' assume "console_ok p txd rxd rest input m \<and> apart R console_locs \<and> reported p txd rxd input w s m" "only_hart R m m'"
  with rte_wired.ok_hart [of p txd rxd rest input m R m'] show "console_ok p txd rxd rest input m' \<and> apart R console_locs
      \<and> reported p txd rxd input w s m'" by (simp add: reported_def)
next
  fix m s assume a: "hart_at riscv_c R m s" "console_ok p txd rxd rest input m \<and> apart R console_locs
      \<and> uart_out (uart_state UART0 p txd rxd input (log m)) = w" "nonfatal s"
  then obtain name where "panic_cause (mcause s AND 0x8000001f) = Some (name, False)" by (auto simp: nonfatal_def)
  with rte_wired.at_panic [OF _ this, of p txd rxd rest input riscv_c R w m] a(1,2)
  show "\<exists>m' s'. rte_panic m = Some m' \<and> hart_at riscv_c R m' s'
      \<and> (console_ok p txd rxd rest input m' \<and> apart R console_locs \<and> reported p txd rxd input w s m') \<and> s' = panicked s"
    by (auto simp: rte_wired.at_def reported_def)
qed

section \<open>Emulating unaligned loads\<close>

definition trap_handler_emulate_unaligned_lw :: "mach \<Rightarrow> mach option" where
  "trap_handler_emulate_unaligned_lw m =
     (let (inst, m) = neorv32_cpu_csr_read CSR_MTINST m;
          opcode = inst AND 0x07f;
          funct3 = drop_bit 12 inst AND 0x003;
          rs1_addr = drop_bit 15 inst AND 0x01f;
          rd_addr = drop_bit 7 inst AND 0x01f;
          imm12 = drop_bit 20 inst AND 0xfff;
          opcode = opcode OR BIT 1
      in if opcode = 3 \<and> funct3 = 2 then
           let (rs1, m) = neorv32_rte_context_get rs1_addr m;
               a = rs1 + imm12;
               (b0, m) = neorv32_cpu_load_unsigned_byte (a + 0) m;
               (b1, m) = neorv32_cpu_load_unsigned_byte (a + 1) m;
               (b2, m) = neorv32_cpu_load_unsigned_byte (a + 2) m;
               (b3, m) = neorv32_cpu_load_unsigned_byte (a + 3) m;
               v = push_bit 24 (ucast b3) OR push_bit 16 (ucast b2) OR push_bit 8 (ucast b1) OR push_bit 0 (ucast b0)
           in Some (neorv32_rte_context_put rd_addr v m)
         else do {
           let (i, m) = neorv32_cpu_csr_read CSR_MTINST m;
           let (e, m) = neorv32_cpu_csr_read CSR_MEPC m;
           neorv32_uart_printf UART0 (str ''Unexpected instruction (0x%x @ 0x%x)!'' @ [10]) [AInt i, AInt e] m
         })"

text \<open>The fields of a load word instruction, and a register of the interrupted program.\<close>

definition is_lw :: "u32 \<Rightarrow> bool" where
  "is_lw i \<longleftrightarrow> (i AND 0x7f) OR 2 = 3 \<and> drop_bit 12 i AND 3 = 2"

definition lw_rs1 :: "u32 \<Rightarrow> nat" where "lw_rs1 i = unat (drop_bit 15 i AND 31)"
definition lw_rd :: "u32 \<Rightarrow> nat" where "lw_rd i = unat (drop_bit 7 i AND 31)"
definition lw_imm :: "u32 \<Rightarrow> u32" where "lw_imm i = drop_bit 20 i AND 0xfff"

definition frame_reg :: "hart_hw \<Rightarrow> nat \<Rightarrow> u32" where
  "frame_reg s k = (if k = 0 then 0 else word_at (ram s) (slot (mscratch s) k))"

definition lw_addr :: "hart_hw \<Rightarrow> u32" where
  "lw_addr s = frame_reg s (lw_rs1 (mtinst s)) + lw_imm (mtinst s)"

definition lw_ready :: "u32 set \<Rightarrow> hart_hw \<Rightarrow> bool" where
  "lw_ready R s \<longleftrightarrow> is_lw (mtinst s) \<and> frame_ok R (mscratch s) \<and> bytes_of W32 (lw_addr s) \<subseteq> R"

definition lw_done :: "hart_hw \<Rightarrow> hart_hw" where
  "lw_done s = (if lw_rd (mtinst s) = 0 then s
     else s\<lparr>ram := poke (slot (mscratch s) (lw_rd (mtinst s))) (word_at (ram s) (lw_addr s)) (ram s)\<rparr>)"

lemma context_slot: "push_bit 2 (x AND 31) + base = slot base (unat (x AND 31))"
  by (simp add: slot_def push_bit_eq_mult)

lemma context_zero: "push_bit 2 (x AND 31) = (0 :: u32) \<longleftrightarrow> unat (x AND 31) = 0"
proof -
  have "drop_bit 2 (push_bit 2 (x AND 31)) = x AND 31"
    by (rule bit_word_eqI) (auto simp: and_31_take_bit bit_simps)
  then have "push_bit 2 (x AND 31) = 0 \<longleftrightarrow> x AND 31 = 0" by (metis drop_bit_of_0 push_bit_of_0)
  then show ?thesis by (simp only: unat_eq_zero)
qed

lemma context_get_at:
  assumes "hart_at c R m s" "frame_ok R (mscratch s)"
  shows "\<exists>m'. neorv32_rte_context_get x m = (frame_reg s (unat (x AND 31)), m') \<and> hart_at c R m' s"
proof (cases "unat (x AND 31) = 0")
  case True
  with assms(1) show ?thesis by (simp add: neorv32_rte_context_get_def context_zero frame_reg_def del: push_bit_and)
next
  case False
  let ?m = "snd (rd (Csr CSR_MSCRATCH) m)" and ?l = "Mem W32 (slot (mscratch s) (unat (x AND 31)))"
  have b: "rd_val (Csr CSR_MSCRATCH) m = mscratch s" using rd_val_hart [OF assms(1), of "Csr CSR_MSCRATCH"] by simp
  note a1 = hart_at_rd [OF assms(1), of "Csr CSR_MSCRATCH"]
  have "rd_val ?l ?m = word_at (ram s) (slot (mscratch s) (unat (x AND 31)))"
    using rd_val_hart [OF a1 slot_hart_loc [OF assms(2)], of "unat (x AND 31)"] by simp
  with False b show ?thesis using hart_at_rd [OF a1, of ?l]
    by (simp add: neorv32_rte_context_get_def context_zero frame_reg_def neorv32_cpu_csr_read_def
        neorv32_cpu_load_unsigned_word_def context_slot rd_def del: push_bit_and)
qed

lemma context_put_at:
  assumes "hart_at c R m s"
  shows "hart_at c R (neorv32_rte_context_put x v m)
    (if unat (x AND 31) = 0 then s else s\<lparr>ram := poke (slot (mscratch s) (unat (x AND 31))) v (ram s)\<rparr>)"
proof (cases "unat (x AND 31) = 0")
  case True
  with assms show ?thesis by (simp add: neorv32_rte_context_put_def context_zero del: push_bit_and)
next
  case False
  let ?m = "snd (rd (Csr CSR_MSCRATCH) m)" and ?l = "Mem W32 (slot (mscratch s) (unat (x AND 31)))"
  have b: "rd_val (Csr CSR_MSCRATCH) m = mscratch s" using rd_val_hart [OF assms, of "Csr CSR_MSCRATCH"] by simp
  from hart_at_wr [OF hart_at_rd [OF assms, of "Csr CSR_MSCRATCH"], of ?l v] False b show ?thesis
    by (simp add: neorv32_rte_context_put_def context_zero neorv32_cpu_csr_read_def
        neorv32_cpu_store_unsigned_word_def context_slot rd_def del: push_bit_and)
qed

lemma load_byte_at:
  assumes "hart_at c R m s" "a \<in> R"
  shows "\<exists>m'. neorv32_cpu_load_unsigned_byte a m = (ram s a, m') \<and> hart_at c R m' s"
  using rd_val_hart [OF assms(1), of "Mem W8 a"] hart_at_rd [OF assms(1), of "Mem W8 a"] assms(2)
  by (simp add: neorv32_cpu_load_unsigned_byte_def rd_def)

lemma emulate_at:
  assumes "hart_at c R m s" "lw_ready R s"
  shows "\<exists>m'. trap_handler_emulate_unaligned_lw m = Some m' \<and> hart_at c R m' (lw_done s)"
proof -
  let ?i = "mtinst s" and ?a = "lw_addr s"
  obtain m1 where m1: "neorv32_cpu_csr_read CSR_MTINST m = (?i, m1)" "hart_at c R m1 s"
    using rd_val_hart [OF assms(1), of "Csr CSR_MTINST"] hart_at_rd [OF assms(1), of "Csr CSR_MTINST"]
    by (simp add: neorv32_cpu_csr_read_def rd_def)
  have rdy: "is_lw ?i" "frame_ok R (mscratch s)" "?a \<in> R" "?a + 1 \<in> R" "?a + 2 \<in> R" "?a + 3 \<in> R"
    using assms(2) by (auto simp: lw_ready_def)
  from context_get_at [OF m1(2) rdy(2), of "drop_bit 15 ?i AND 0x01f"] obtain m2 where
    m2: "neorv32_rte_context_get (drop_bit 15 ?i AND 0x01f) m1 = (frame_reg s (lw_rs1 ?i), m2)" "hart_at c R m2 s"
    by (auto simp: lw_rs1_def and.assoc)
  obtain m3 where m3: "neorv32_cpu_load_unsigned_byte (?a + 0) m2 = (ram s ?a, m3)" "hart_at c R m3 s"
    using load_byte_at [OF m2(2) rdy(3)] by auto
  obtain m4 where m4: "neorv32_cpu_load_unsigned_byte (?a + 1) m3 = (ram s (?a + 1), m4)" "hart_at c R m4 s"
    using load_byte_at [OF m3(2) rdy(4)] by auto
  obtain m5 where m5: "neorv32_cpu_load_unsigned_byte (?a + 2) m4 = (ram s (?a + 2), m5)" "hart_at c R m5 s"
    using load_byte_at [OF m4(2) rdy(5)] by auto
  obtain m6 where m6: "neorv32_cpu_load_unsigned_byte (?a + 3) m5 = (ram s (?a + 3), m6)" "hart_at c R m6 s"
    using load_byte_at [OF m5(2) rdy(6)] by auto
  let ?v = "push_bit 24 (ucast (ram s (?a + 3))) OR push_bit 16 (ucast (ram s (?a + 2)))
    OR push_bit 8 (ucast (ram s (?a + 1))) OR push_bit 0 (ucast (ram s ?a)) :: u32"
  have v: "?v = word_at (ram s) ?a" by (simp add: word_at_def join32_def ac_simps)
  have a: "frame_reg s (lw_rs1 ?i) + (drop_bit 20 ?i AND 0xfff) = ?a" by (simp add: lw_addr_def lw_imm_def)
  have op: "(?i AND 0x07f) OR BIT 1 = 3 \<and> drop_bit 12 ?i AND 0x003 = 2" using rdy(1) by (simp add: is_lw_def BIT_def)
  have "trap_handler_emulate_unaligned_lw m = Some (neorv32_rte_context_put (drop_bit 7 ?i AND 0x01f) ?v m6)"
    unfolding trap_handler_emulate_unaligned_lw_def m1(1) Let_def prod.case if_P [OF op] m2(1) a m3(1) m4(1) m5(1) m6(1) ..
  moreover have "hart_at c R (neorv32_rte_context_put (drop_bit 7 ?i AND 0x01f) ?v m6) (lw_done s)"
    using context_put_at [OF m6(2), of "drop_bit 7 ?i AND 0x01f" ?v]
    unfolding v lw_done_def lw_rd_def by (simp only: and.assoc and.idem)
  ultimately show ?thesis by blast
qed

interpretation emulation: c_handler riscv_c R "\<lambda>_. True" trap_handler_emulate_unaligned_lw
    "lw_ready R" "\<lambda>s s'. s' = lw_done s" "\<lambda>_ _. True" clobber code addr
  for riscv_c R clobber code addr
  by unfold_locales (use emulate_at in auto)

section \<open>From the trap to the next instruction\<close>

text \<open>
  The hart takes a trap: the stack pointer is aligned and has room below it, the vector table is
  in memory, the cause is one the hardware has, and the program counter is a legal one.  An
  uncompressed instruction has its two low bits set.
\<close>

definition trap_taken ::
    "bool \<Rightarrow> u32 set \<Rightarrow> rte_image \<Rightarrow> u32 \<Rightarrow> u32 \<Rightarrow> u32 \<Rightarrow> u32 \<Rightarrow> bool \<Rightarrow> hart_hw \<Rightarrow> hart \<Rightarrow> bool" where
  "trap_taken c R im cause pc mar ir ci s0 h \<longleftrightarrow>
     hart_at c R (hmach h) (trap_enter c cause pc mar ir ci s0)
     \<and> frame_ok R (gpr h 2 - 128) \<and> table_ok R im \<and> table_of im \<inter> frame_of (gpr h 2 - 128) = {}
     \<and> valid_code cause \<and> pc AND pc_mask c = pc \<and> (if ci then c else ir AND 3 = 3)"

text \<open>Where the program goes on.\<close>

definition next_pc :: "u32 \<Rightarrow> u32 \<Rightarrow> bool \<Rightarrow> u32" where
  "next_pc cause pc ci = (if bit cause 31 then pc else pc + (if ci then 2 else 4))"

lemma valid_mask: "valid_code v \<Longrightarrow> v AND 0x8000001f = v"
proof (rule bit_word_eqI)
  fix n assume v: "valid_code v" and n: "n < LENGTH(32)"
  have "\<not> bit (v AND NOT 0x8000001f) n" using v by (simp add: valid_code_def)
  then have "bit v n \<longrightarrow> bit (0x8000001f :: u32) n" using n by (simp only: bit_and_iff bit_not_iff) simp
  then show "bit (v AND 0x8000001f) n = bit v n" by (simp only: bit_and_iff) blast
qed

lemma mask_clear: "x AND NOT (mask n) = x \<longleftrightarrow> take_bit n x = (0 :: u32)"
proof
  assume eq: "x AND NOT (mask n) = x"
  show "take_bit n x = 0"
  proof (rule bit_word_eqI)
    fix k
    have "bit x k = bit (x AND NOT (mask n)) k" by (simp only: eq)
    then show "bit (take_bit n x) k = bit 0 k" by (auto simp: bit_simps)
  qed
next
  assume zero: "take_bit n x = 0"
  show "x AND NOT (mask n) = x"
  proof (rule bit_word_eqI)
    fix k assume "k < LENGTH(32)"
    moreover have "\<not> bit (take_bit n x) k" by (simp only: zero bit_0_eq bot_apply) simp
    ultimately show "bit (x AND NOT (mask n)) k = bit x k" by (auto simp: bit_simps)
  qed
qed

lemma pc_mask_clear: "x AND pc_mask c = x \<longleftrightarrow> take_bit (if c then 1 else 2) x = 0"
proof -
  have "pc_mask c = NOT (mask (if c then 1 else 2))" by (simp add: pc_mask_def mask_eq_exp_minus_1)
  then show ?thesis by (simp only: mask_clear)
qed

lemma pc_step:
  assumes "pc AND pc_mask c = pc" "d = 4 \<or> c \<and> d = 2"
  shows "(pc + d) AND pc_mask c = pc + d"
proof (cases c)
  case True
  with assms(1) have "even pc" by (simp only: pc_mask_clear) (simp add: even_iff_mod_2_eq_zero)
  moreover have "even d" using assms(2) by auto
  ultimately have "even (pc + d)" by simp
  with True show ?thesis by (simp only: pc_mask_clear) (simp add: even_iff_mod_2_eq_zero)
next
  case False
  with assms have "(pc + of_nat (4 * 1)) AND 3 = 0"
    by (intro and_3_add) (simp only: pc_mask_clear and_3_take_bit if_False)
  with False assms(2) show ?thesis by (simp add: pc_mask_clear and_3_take_bit)
qed

lemma compressed_bits: "(ir AND NOT 2) AND 3 \<noteq> (3 :: u32)"
proof
  assume eq: "(ir AND NOT 2) AND 3 = (3 :: u32)"
  have "bit ((ir AND NOT 2) AND 3) 1 = bit (3 :: u32) 1" by (simp only: eq)
  moreover have "bit (2 :: u32) 1" "bit (3 :: u32) 1" by simp_all
  ultimately show False by (simp only: bit_and_iff bit_not_iff) simp
qed

lemma resume_taken:
  assumes "trap_taken c R im cause pc mar ir ci s0 h" "mcause s' = cause" "mepc s' = pc AND pc_mask c"
    and "mtinst s' = (if ci \<and> c then ir AND NOT 2 else ir)"
  shows "resume_pc c s' = next_pc cause pc ci"
proof -
  have pc: "pc AND pc_mask c = pc" and ci: "if ci then c else ir AND 3 = 3" using assms(1) by (simp_all add: trap_taken_def)
  have i: "c \<and> mtinst s' AND 3 \<noteq> 3 \<longleftrightarrow> ci"
    using ci compressed_bits [of ir] unfolding assms(4) by (cases ci; cases c) (simp_all del: bit.compl_one)
  show ?thesis
    unfolding resume_pc_def i assms(2,3) pc next_pc_def using pc_step [OF pc, of 2] pc_step [OF pc, of 4] ci
    by (auto split: if_splits)
qed

lemma trap_enter_simps [simp]:
  "ram (trap_enter c cause pc mar ir ci s) = ram s" "mcause (trap_enter c cause pc mar ir ci s) = cause"
  "mepc (trap_enter c cause pc mar ir ci s) = pc AND pc_mask c"
  "mtinst (trap_enter c cause pc mar ir ci s) = (if ci \<and> c then ir AND NOT 2 else ir)"
  "mie_en (trap_enter c cause pc mar ir ci s) = mie_en s"
  by (simp_all add: trap_enter_def)

context trap_handler
begin

lemma taken:
  assumes "trap_taken riscv_c R im cause pc mar ir ci s0 h"
    and "word_at (ram s0) (vector_at im cause) AND NOT 1 = addr"
    and "ok (hmach h)" "pre (saved (gpr h) (trap_enter riscv_c cause pc mar ir ci s0))"
  shows "\<exists>h' s'. rte_core im riscv_c call h = Some (resume_pc riscv_c s', h')
    \<and> post (saved (gpr h) (trap_enter riscv_c cause pc mar ir ci s0)) s'
    \<and> hart_at riscv_c R (hmach h') (s'\<lparr>mepc := resume_pc riscv_c s'\<rparr>)
    \<and> served (saved (gpr h) (trap_enter riscv_c cause pc mar ir ci s0)) (hmach h')
    \<and> (\<forall>i. 1 \<le> i \<and> i < 32 \<longrightarrow> gpr h' i = word_at (ram s') (slot (gpr h 2 - 128) i))"
proof -
  let ?s = "trap_enter riscv_c cause pc mar ir ci s0"
  have t: "hart_at riscv_c R (hmach h) ?s" "frame_ok R (gpr h 2 - 128)" "table_ok R im"
    "table_of im \<inter> frame_of (gpr h 2 - 128) = {}" "valid_code cause" using assms(1) by (simp_all add: trap_taken_def)
  have v: "mcause ?s AND 0x8000001f = cause" using valid_mask [OF t(5)] by simp
  show ?thesis
  proof (rule trap [OF t(1) assms(3) t(2) _ _ _ assms(4)])
    show "hart_loc R (Mem W32 (vector_at im (mcause ?s AND 0x8000001f)))" by (rule vector_hart_loc [OF t(3)])
    show "bytes_of W32 (vector_at im (mcause ?s AND 0x8000001f)) \<inter> frame_of (gpr h 2 - 128) = {}"
      using vector_in_table [of im] t(4) by blast
    show "word_at (ram ?s) (vector_at im (mcause ?s AND 0x8000001f)) AND NOT 1 = addr"
      using assms(2) unfolding v by simp
  qed
qed

end

section \<open>A system with a console in a trap\<close>

definition hart_soc_rest :: "bool \<Rightarrow> u32 set \<Rightarrow> hart_hw \<Rightarrow> event list \<Rightarrow> loc \<Rightarrow> u32" where
  "hart_soc_rest c R s h l = (if l = SYSINFO_SOC then - 1 else hart_rtl c R s (\<lambda>_ _. 0) h l)"

definition hart_soc :: "bool \<Rightarrow> u32 set \<Rightarrow> hart_hw \<Rightarrow> mach" where
  "hart_soc c R s = \<lparr>hw = uart_rtl UART0 clear_line 2 5 [] (hart_soc_rest c R s), log = [Wr (UART_CTRL UART0) 1]\<rparr>"

lemma hart_soc_console: "console_ok clear_line 2 5 (hart_soc_rest c R s) [] (hart_soc c R s)"
  by (simp add: console_ok_def uart_ok_def u_lossless_def hart_soc_def uart_bus_def
      uart_cycle_def uart_init_def u_en_def u_hwfc_def uart_rw_bits_def uart_tx_frame_def uart_rx_frame_def uart_tx_start_def
      UART_CTRL_def hart_soc_rest_def)

lemma hart_soc_at:
  assumes "apart R console_locs"
  shows "hart_at c R (hart_soc c R s) s"
proof -
  let ?e = "Wr (UART_CTRL UART0) 1"
  have "hw (hart_soc c R s) h l = hart_rtl c R s (\<lambda>_ _. 0) h l" if "hart_loc R l" for h l
    using that not_hart_loc [OF assms] by (auto simp: hart_soc_def hart_soc_rest_def uart_rtl_def console_locs_def Let_def)
  then have "hart_at c R (hart_soc c R s) (hart_run c [?e] s)"
    unfolding hart_at_def by (simp add: hart_rtl_def hart_soc_def hart_run_append)
  moreover have "agree R (hart_run c [?e] s) s"
    using apart_step [OF assms, of ?e "UART_CTRL UART0" 1] by (simp add: console_locs_def)
  ultimately show ?thesis by (rule hart_at_agree)
qed

lemma range_below:
  assumes "B + n \<le> N" "N \<le> 2 ^ 32" "x \<in> {of_nat B + of_nat k |k. k < n}"
  shows "B \<le> unat (x :: u32)" "unat x < N"
proof -
  from assms(3) obtain k where k: "x = of_nat (B + k)" "k < n" by auto
  have "unat x = B + k" unfolding k(1) by (rule unat_of_nat_small) (use assms k(2) in simp)
  with assms k(2) show "B \<le> unat x" "unat x < N" by simp_all
qed

text \<open>Everything below the boot ROM and the devices.\<close>

definition soc_memory :: "u32 set" where "soc_memory = {a. unat a < 0xffe00000}"

definition low_image :: rte_image where
  "low_image = \<lparr>rte_core_at = 0x1000, rte_panic_at = 0x2000, vector_lut = 0x100, rte_resume_at = 0x1080\<rparr>"

lemma low_console: "apart soc_memory console_locs"
  by (simp add: apart_def console_locs_def UART_CTRL_def UART_DATA_def UART0_def NEORV32_UART0_BASE_def
      SYSINFO_SOC_def NEORV32_SYSINFO_BASE_def soc_memory_def)

lemma low_frame: "frame_ok soc_memory 0x7f80"
proof -
  have "0x7f80 + of_nat k \<in> soc_memory" if "k < 128" for k
    using range_below(2) [of "0x7f80" 128 "0xffe00000" "0x7f80 + of_nat k"] that by (auto simp: soc_memory_def)
  then show ?thesis by (auto simp: frame_ok_def frame_of_def)
qed

lemma low_table: "table_ok soc_memory low_image" "table_of low_image \<inter> frame_of 0x7f80 = {}"
proof -
  have t: "unat x < 0x200" if "x \<in> table_of low_image" for x
    using range_below(2) [of "0x100" 256 "0x200" x] that by (auto simp: table_of_def table_size_def low_image_def)
  then show "table_ok soc_memory low_image"
    by (fastforce simp: table_ok_def low_image_def soc_memory_def)
  have "0x7f80 \<le> unat x" if "x \<in> frame_of 0x7f80" for x
    using range_below(1) [of "0x7f80" 128 "0x10000" x] that by (auto simp: frame_of_def)
  with t show "table_of low_image \<inter> frame_of 0x7f80 = {}" by fastforce
qed

lemma low_trap:
  assumes "valid_code cause" "pc AND pc_mask c = pc" "if ci then c else ir AND 3 = 3" "gpr h 2 = 0x8000"
    and "hmach h = hart_soc c soc_memory (trap_enter c cause pc mar ir ci s0)"
  shows "trap_taken c soc_memory low_image cause pc mar ir ci s0 h"
  using assms low_frame low_table hart_soc_at [OF low_console] by (simp add: trap_taken_def)

section \<open>The software interrupt handler of demo_clint\<close>

definition msi_irq_handler :: "mach \<Rightarrow> mach option" where
  "msi_irq_handler m =
     (let (hart, m) = neorv32_cpu_csr_read CSR_MHARTID m;
          m = neorv32_clint_msi_clr hart m
      in neorv32_uart_printf UART0 ([10] @ str ''[Machine Software Interrupt!]'' @ [10]) [] m)"

definition msi_locs :: "loc set" where
  "msi_locs = console_locs \<union> {Csr CSR_MHARTID, CLINT_MSWI 0}"

definition msi_ok :: "uart_time \<Rightarrow> nat \<Rightarrow> nat \<Rightarrow> (event list \<Rightarrow> loc \<Rightarrow> u32) \<Rightarrow> u8 list \<Rightarrow> mach \<Rightarrow> bool" where
  "msi_ok p txd rxd rest input m \<longleftrightarrow> console_ok p txd rxd rest input m \<and> (\<forall>h. rest h (Csr CSR_MHARTID) = 0)"

lemma msi_apart: "apart soc_memory msi_locs"
  using low_console by (simp add: msi_locs_def apart_def CLINT_MSWI_def NEORV32_CLINT_BASE_def soc_memory_def
      trap_csrs_def csr_defs)

interpretation msi: device_handler soc_memory msi_locs "msi_ok p txd rxd rest input" msi_irq_handler
  for p txd rxd rest input
proof
  fix m m' assume "msi_ok p txd rxd rest input m" "only_hart soc_memory m m'"
  then show "msi_ok p txd rxd rest input m'"
    using rte_wired.ok_hart [OF _ _ low_console] unfolding msi_ok_def by blast
next
  show "apart soc_memory msi_locs" by (rule msi_apart)
next
  fix m assume ok: "msi_ok p txd rxd rest input m"
  then have hw: "hw m = uart_rtl UART0 p txd rxd input rest" by (simp add: msi_ok_def console_ok_def uart_ok_def)
  let ?m = "wr (CLINT_MSWI 0) 0 (snd (rd (Csr CSR_MHARTID) m))"
  have id: "rd_val (Csr CSR_MHARTID) m = 0"
    using ok by (simp add: rd_val_def hw uart_rtl_def Let_def UART_CTRL_def UART_DATA_def msi_ok_def)
  have c: "console_ok p txd rxd rest input ?m"
    using ok unfolding msi_ok_def wr_def rd_def
    by (auto simp: CLINT_MSWI_def UART_CTRL_def NEORV32_CLINT_BASE_def UART0_def NEORV32_UART0_BASE_def
        intro!: rte_wired.ok_step)
  let ?s = "crlf ([10] @ str ''[Machine Software Interrupt!]'' @ [10])"
  have out: "fmt_out ([10] @ str ''[Machine Software Interrupt!]'' @ [10]) [] = Some ?s"
    by (simp add: str_def of_char_def)
  from rte_wired.putcs_ok [OF c, of ?s] obtain m' where m': "putcs UART0 ?s ?m = Some m'"
    "console_ok p txd rxd rest input m'" "only_locs console_locs ?m m'" by blast
  have "only_locs msi_locs m ?m"
    by (intro only_locs_trans [OF only_locs_rd only_locs_wr]) (simp_all add: msi_locs_def)
  then have "only_locs msi_locs m m'"
    using only_locs_trans only_locs_mono [OF m'(3), of msi_locs] by (auto simp: msi_locs_def)
  moreover have "msi_irq_handler m = Some m'"
    using m'(1) id out by (simp add: msi_irq_handler_def neorv32_cpu_csr_read_def rd_def neorv32_clint_msi_clr_def
        neorv32_uart_printf_def vprintf_putcs)
  ultimately show "\<exists>m'. msi_irq_handler m = Some m' \<and> msi_ok p txd rxd rest input m' \<and> only_locs msi_locs m m'"
    using m'(2) ok by (auto simp: msi_ok_def)
qed

end
