(* ===== verification/Rte_Returns.thy ===== *)
theory Rte_Returns
  imports Rte_Handlers
begin

text \<open>
  What a program sees of a trap that the runtime environment serves: with a handler that only
  talks to devices, with the panic handler, and with the emulation of unaligned loads.
\<close>

lemma saved_enter:
  "mstatus_mie (trap_exit (saved g (trap_enter c cause pc mar ir ci s))) = mstatus_mie s"
  "prv_m (trap_exit (saved g (trap_enter c cause pc mar ir ci s))) = prv_m s"
  "mie_en (saved g s) = mie_en s"
  by (simp_all add: trap_exit_def saved_def trap_enter_def)

lemma exit_mepc [simp]:
  "mstatus_mie (trap_exit (s\<lparr>mepc := v\<rparr>)) = mstatus_mie (trap_exit s)"
  "prv_m (trap_exit (s\<lparr>mepc := v\<rparr>)) = prv_m (trap_exit s)"
  "mstatus_mie (trap_exit (s\<lparr>ram := r\<rparr>)) = mstatus_mie (trap_exit s)"
  "prv_m (trap_exit (s\<lparr>ram := r\<rparr>)) = prv_m (trap_exit s)"
  "mstatus_mie (trap_exit (s\<lparr>mie_en := v\<rparr>)) = mstatus_mie (trap_exit s)"
  "prv_m (trap_exit (s\<lparr>mie_en := v\<rparr>)) = prv_m (trap_exit s)"
  by (simp_all add: trap_exit_def)

context device_handler
begin

lemma transparent:
  assumes "trap_taken riscv_c R im cause pc mar ir ci s0 h"
    and "word_at (ram s0) (vector_at im cause) AND NOT 1 = addr" "ok (hmach h)"
  shows "\<exists>h' s'. rte_core im riscv_c (c_handlers clobber (code(addr := f))) h = Some (next_pc cause pc ci, h')
    \<and> (\<forall>i. 1 \<le> i \<and> i < 32 \<longrightarrow> gpr h' i = gpr h i) \<and> hart_at riscv_c R (hmach h') s' \<and> ok (hmach h')
    \<and> (\<forall>b. b \<notin> frame_of (gpr h 2 - 128) \<longrightarrow> ram s' b = ram s0 b) \<and> mie_en s' = mie_en s0
    \<and> mstatus_mie (trap_exit s') = mstatus_mie s0 \<and> prv_m (trap_exit s') = prv_m s0"
proof -
  let ?s = "saved (gpr h) (trap_enter riscv_c cause pc mar ir ci s0)"
  from taken [OF assms, of clobber code] obtain h' where h':
    "rte_core im riscv_c (c_handlers clobber (code(addr := f))) h = Some (resume_pc riscv_c ?s, h')"
    "hart_at riscv_c R (hmach h') (?s\<lparr>mepc := resume_pc riscv_c ?s\<rparr>)" "ok (hmach h')"
    "\<forall>i. 1 \<le> i \<and> i < 32 \<longrightarrow> gpr h' i = word_at (ram ?s) (slot (gpr h 2 - 128) i)" by auto
  have "resume_pc riscv_c ?s = next_pc cause pc ci" by (rule resume_taken [OF assms(1)]) simp_all
  with h' show ?thesis
    by (intro exI [of _ h'] exI [of _ "?s\<lparr>mepc := resume_pc riscv_c ?s\<rparr>"])
      (simp add: saved_frame saved_outside saved_enter)
qed

end

section \<open>Unhandled traps\<close>

lemma panicked_simps [simp]:
  "ram (panicked s) = ram s" "mcause (panicked s) = mcause s" "mepc (panicked s) = mepc s" "mtinst (panicked s) = mtinst s"
  "mstatus_mie (trap_exit (panicked s)) = mstatus_mie (trap_exit s)" "prv_m (trap_exit (panicked s)) = prv_m (trap_exit s)"
  by (simp_all add: panicked_def)

lemma saved_mode: "mstatus_mpp (saved g s) = mstatus_mpp s" "mtval (saved g s) = mtval s"
  by (simp_all add: saved_def)

lemma panic_returns:
  assumes "trap_taken c R im cause pc mar ir ci s0 h"
    and "word_at (ram s0) (vector_at im cause) AND NOT 1 = addr"
    and "console_ok p txd rxd rest input (hmach h)" "apart R console_locs" "panic_cause cause = Some (name, False)"
  shows "\<exists>h' s' core1. rte_core im c (c_handlers clobber (code(addr := rte_panic))) h = Some (next_pc cause pc ci, h')
    \<and> (\<forall>i. 1 \<le> i \<and> i < 32 \<longrightarrow> gpr h' i = gpr h i) \<and> hart_at c R (hmach h') s'
    \<and> console_ok p txd rxd rest input (hmach h')
    \<and> uart_out (uart_state UART0 p txd rxd input (log (hmach h')))
      = uart_out (uart_state UART0 p txd rxd input (log (hmach h))) @ panic_report core1 name (trap_enter c cause pc mar ir ci s0)
    \<and> (\<forall>b. b \<notin> frame_of (gpr h 2 - 128) \<longrightarrow> ram s' b = ram s0 b)
    \<and> mie_en s' = (if bit cause 31 then (mie_en s0 AND NOT (shl32 1 (cause AND 0x1f))) AND 0xffff0888 else mie_en s0)
    \<and> mstatus_mie (trap_exit s') = mstatus_mie s0 \<and> prv_m (trap_exit s') = prv_m s0"
proof -
  let ?s = "saved (gpr h) (trap_enter c cause pc mar ir ci s0)"
  let ?w = "uart_out (uart_state UART0 p txd rxd input (log (hmach h)))"
  have "valid_code cause" using assms(1) by (simp add: trap_taken_def)
  then have code: "mcause ?s AND 0x8000001f = cause" by (simp add: valid_mask)
  then have "nonfatal ?s" using assms(5) by (simp add: nonfatal_def)
  from panic_wired.taken [OF assms(1,2) _ this, of p txd rxd rest input ?w clobber code] assms(3,4) obtain h' where h':
    "rte_core im c (c_handlers clobber (code(addr := rte_panic))) h = Some (resume_pc c (panicked ?s), h')"
    "hart_at c R (hmach h') ((panicked ?s)\<lparr>mepc := resume_pc c (panicked ?s)\<rparr>)" "console_ok p txd rxd rest input (hmach h')"
    "reported p txd rxd input ?w ?s (hmach h')"
    "\<forall>i. 1 \<le> i \<and> i < 32 \<longrightarrow> gpr h' i = word_at (ram (panicked ?s)) (slot (gpr h 2 - 128) i)" by auto
  from h'(4) code assms(5) obtain core1 where said:
    "uart_out (uart_state UART0 p txd rxd input (log (hmach h'))) = ?w @ panic_report core1 name ?s"
    by (auto simp: reported_def)
  have "panic_report core1 name ?s = panic_report core1 name (trap_enter c cause pc mar ir ci s0)"
    by (simp add: panic_report_def saved_mode)
  moreover have "resume_pc c (panicked ?s) = next_pc cause pc ci" by (rule resume_taken [OF assms(1)]) simp_all
  ultimately show ?thesis using h'(1-3,5) said
    by (intro exI [of _ h'] exI [of _ "(panicked ?s)\<lparr>mepc := resume_pc c (panicked ?s)\<rparr>"] exI [of _ core1])
      (simp add: saved_frame saved_outside saved_enter panicked_def)
qed

section \<open>Emulated loads\<close>

definition reg :: "hart \<Rightarrow> nat \<Rightarrow> u32" where
  "reg h k = (if k = 0 then 0 else gpr h k)"

lemma lw_fields_less: "lw_rs1 i < 32" "lw_rd i < 32"
  by (simp_all add: lw_rs1_def lw_rd_def)

lemma saved_reg:
  assumes "k < 32"
  shows "frame_reg (saved (gpr h) s) k = reg h k"
  using assms saved_frame [of k "gpr h" s] by (cases "k = 0") (simp_all add: frame_reg_def reg_def)

lemma emulation_returns:
  assumes "trap_taken c R im cause pc mar ir ci s0 h"
    and "word_at (ram s0) (vector_at im cause) AND NOT 1 = addr"
    and "i = (if ci \<and> c then ir AND NOT 2 else ir)" "is_lw i"
    and "bytes_of W32 (reg h (lw_rs1 i) + lw_imm i) \<subseteq> R"
    and "bytes_of W32 (reg h (lw_rs1 i) + lw_imm i) \<inter> frame_of (gpr h 2 - 128) = {}"
  shows "\<exists>h' s'. rte_core im c (c_handlers clobber (code(addr := trap_handler_emulate_unaligned_lw))) h
      = Some (next_pc cause pc ci, h')
    \<and> (\<forall>k. 1 \<le> k \<and> k < 32 \<longrightarrow> gpr h' k
        = (if k = lw_rd i then word_at (ram s0) (reg h (lw_rs1 i) + lw_imm i) else gpr h k))
    \<and> hart_at c R (hmach h') s' \<and> (\<forall>b. b \<notin> frame_of (gpr h 2 - 128) \<longrightarrow> ram s' b = ram s0 b)
    \<and> mie_en s' = mie_en s0 \<and> mstatus_mie (trap_exit s') = mstatus_mie s0 \<and> prv_m (trap_exit s') = prv_m s0"
proof -
  let ?s = "saved (gpr h) (trap_enter c cause pc mar ir ci s0)" and ?b = "gpr h 2 - 128"
  have inst: "mtinst ?s = i" by (simp add: assms(3))
  have addr: "lw_addr ?s = reg h (lw_rs1 i) + lw_imm i"
    unfolding lw_addr_def inst saved_reg [OF lw_fields_less(1)] ..
  have val: "word_at (ram ?s) (reg h (lw_rs1 i) + lw_imm i) = word_at (ram s0) (reg h (lw_rs1 i) + lw_imm i)"
  proof (rule word_at_cong)
    fix x assume "x \<in> bytes_of W32 (reg h (lw_rs1 i) + lw_imm i)"
    with assms(6) have "x \<notin> frame_of ?b" by blast
    then show "ram ?s x = ram s0 x" by (simp add: saved_outside)
  qed
  have "frame_ok R ?b" using assms(1) by (simp add: trap_taken_def)
  then have "lw_ready R ?s" using assms(4,5) unfolding lw_ready_def inst addr by simp
  from emulation.taken [OF assms(1,2) TrueI this, of clobber code] obtain h' where h':
    "rte_core im c (c_handlers clobber (code(addr := trap_handler_emulate_unaligned_lw))) h = Some (resume_pc c (lw_done ?s), h')"
    "hart_at c R (hmach h') ((lw_done ?s)\<lparr>mepc := resume_pc c (lw_done ?s)\<rparr>)"
    "\<forall>k. 1 \<le> k \<and> k < 32 \<longrightarrow> gpr h' k = word_at (ram (lw_done ?s)) (slot ?b k)" by auto
  have resume: "resume_pc c (lw_done ?s) = next_pc cause pc ci"
    by (rule resume_taken [OF assms(1)]) (simp_all add: lw_done_def)
  have regs: "word_at (ram (lw_done ?s)) (slot ?b k)
      = (if k = lw_rd i then word_at (ram s0) (reg h (lw_rs1 i) + lw_imm i) else gpr h k)" if k: "1 \<le> k" "k < 32" for k
    using k saved_frame [OF k, of "gpr h"] slot_disjoint [of "lw_rd i" k ?b] lw_fields_less(2) [of i]
    unfolding lw_done_def inst addr val
    by (auto simp: word_at_poke_other val simp del: bytes_of.simps)
  have out: "ram (lw_done ?s) b = ram s0 b" if "b \<notin> frame_of ?b" for b
  proof -
    have "b \<notin> bytes_of W32 (slot ?b (lw_rd i))" using that slot_in_frame [OF lw_fields_less(2), of ?b i] by blast
    with that show ?thesis unfolding lw_done_def inst addr
      by (simp add: poke_other saved_outside del: bytes_of.simps)
  qed
  have "mie_en (lw_done ?s) = mie_en s0" "mstatus_mie (trap_exit (lw_done ?s)) = mstatus_mie s0"
    "prv_m (trap_exit (lw_done ?s)) = prv_m s0" by (simp_all add: lw_done_def saved_enter)
  with h' resume regs out show ?thesis
    by (intro exI [of _ h'] exI [of _ "(lw_done ?s)\<lparr>mepc := resume_pc c (lw_done ?s)\<rparr>"]) simp
qed

end
