(* ===== verification/Spinlock.thy ===== *)
theory Spinlock
  imports Prelude
begin

text \<open>
  The spinlocks of the dual-core demos: \<^verbatim>\<open>demo_dual_core/spinlock.c\<close>, built from load-reserved
  and store-conditional, and \<^verbatim>\<open>demo_dual_core_rte/spinlock.c\<close>, built from an atomic swap.  The
  harts meet at the bus, where \<^verbatim>\<open>neorv32_bus_amo_rvs\<close> and \<^verbatim>\<open>neorv32_bus_amo_rmw\<close> of
  \<^verbatim>\<open>neorv32_bus.vhd\<close> carry the atomic accesses out one after the other: a step of the system is
  one access of one hart, and any number of harts may take any number of turns.
\<close>

section \<open>The bus\<close>

text \<open>\<open>Access\<close> is any other data access of a hart or of the DMA controller; it does not touch
the lock word, which is private to \<^verbatim>\<open>spinlock.c\<close>.\<close>

datatype bus_op = Lr | Sc u32 | Amoswap u32 | Access | Bus_fence

text \<open>The reservation is one bit for all harts and all addresses.\<close>

fun rvs_next :: "bus_op \<Rightarrow> bool" where
  "rvs_next Lr = True"
| "rvs_next (Sc v) = False"
| "rvs_next (Amoswap v) = False"
| "rvs_next Access = False"
| "rvs_next Bus_fence = False"

fun bus_write :: "bool \<Rightarrow> bus_op \<Rightarrow> u32 \<Rightarrow> u32" where
  "bus_write valid (Sc v) w = (if valid then v else w)"
| "bus_write valid (Amoswap v) w = v"
| "bus_write valid Lr w = w"
| "bus_write valid Access w = w"
| "bus_write valid Bus_fence w = w"

fun bus_data :: "bool \<Rightarrow> bus_op \<Rightarrow> u32 \<Rightarrow> u32" where
  "bus_data valid Lr w = w"
| "bus_data valid (Sc v) w = (if valid then 0 else 1)"
| "bus_data valid (Amoswap v) w = w"
| "bus_data valid Access w = 0"
| "bus_data valid Bus_fence w = 0"

section \<open>The programs\<close>

datatype spin_pc = Outside | Inside | Lock_lr | Lock_sc | Unlock_lr | Unlock_sc | Check_lr
  | Lock_swap | Unlock_swap

text \<open>A function is given by the access it makes at each of its program points and the point it
goes to with the answer.  The compare-and-swap of the compiler is a load-reserved, a comparison
with zero and a store-conditional that starts over when it fails.\<close>

type_synonym spin_code = "spin_pc \<rightharpoonup> bus_op \<times> (u32 \<Rightarrow> spin_pc)"

fun spin_lock :: spin_code where
  "spin_lock Lock_lr = Some (Lr, \<lambda>x. if x = 0 then Lock_sc else Lock_lr)"
| "spin_lock Lock_sc = Some (Sc (- 1), \<lambda>x. if x = 0 then Inside else Lock_lr)"
| "spin_lock _ = None"

fun spin_unlock :: spin_code where
  "spin_unlock Unlock_lr = Some (Lr, \<lambda>x. Unlock_sc)"
| "spin_unlock Unlock_sc = Some (Sc 0, \<lambda>failed. if failed \<noteq> 0 then Unlock_lr else Outside)"
| "spin_unlock _ = None"

text \<open>\<^verbatim>\<open>spin_check\<close> as its caller uses it, in \<^verbatim>\<open>while(spin_check())\<close>.\<close>

fun spin_check :: spin_code where
  "spin_check Check_lr = Some (Lr, \<lambda>x. if x \<noteq> 0 then Check_lr else Outside)"
| "spin_check _ = None"

fun spin_lock_swap :: spin_code where
  "spin_lock_swap Lock_swap = Some (Amoswap (- 1), \<lambda>x. if x \<noteq> 0 then Lock_swap else Inside)"
| "spin_lock_swap _ = None"

fun spin_unlock_swap :: spin_code where
  "spin_unlock_swap Unlock_swap = Some (Amoswap 0, \<lambda>x. Outside)"
| "spin_unlock_swap _ = None"

text \<open>A spinlock: its code, where a call of \<^verbatim>\<open>spin_lock\<close> and \<^verbatim>\<open>spin_unlock\<close> starts, and where the
functions that need no turn start.\<close>

record spin_lib =
  lib_code :: spin_code
  lib_lock :: spin_pc
  lib_unlock :: spin_pc
  lib_check :: "spin_pc option"

definition reservation_lock :: spin_lib where
  "reservation_lock = \<lparr>lib_code = spin_lock ++ spin_unlock ++ spin_check,
     lib_lock = Lock_lr, lib_unlock = Unlock_lr, lib_check = Some Check_lr\<rparr>"

definition swap_lock :: spin_lib where
  "swap_lock = \<lparr>lib_code = spin_lock_swap ++ spin_unlock_swap,
     lib_lock = Lock_swap, lib_unlock = Unlock_swap, lib_check = None\<rparr>"

section \<open>The harts\<close>

record spin =
  spin_locked :: u32
  rvs_valid :: bool
  turns :: "nat \<Rightarrow> nat"
  at_pc :: "nat \<Rightarrow> spin_pc"

definition bus_do :: "bus_op \<Rightarrow> spin \<Rightarrow> spin" where
  "bus_do r s = s\<lparr>spin_locked := bus_write (rvs_valid s) r (spin_locked s), rvs_valid := rvs_next r\<rparr>"

text \<open>Each of \<open>n\<close> harts calls the lock while it has turns left, leaves its section whenever it likes,
and may access other memory in between.\<close>

inductive spin_step :: "spin_lib \<Rightarrow> nat \<Rightarrow> spin \<Rightarrow> spin \<Rightarrow> bool" for l n where
  code: "lib_code l (at_pc s h) = Some (r, k) \<Longrightarrow>
    spin_step l n s ((bus_do r s)\<lparr>at_pc := (at_pc s)(h := k (bus_data (rvs_valid s) r (spin_locked s)))\<rparr>)"
| other: "r \<in> {Access, Bus_fence} \<Longrightarrow> spin_step l n s (bus_do r s)"
| call_lock: "h < n \<Longrightarrow> at_pc s h = Outside \<Longrightarrow> turns s h = Suc m \<Longrightarrow>
    spin_step l n s (s\<lparr>turns := (turns s)(h := m), at_pc := (at_pc s)(h := lib_lock l)\<rparr>)"
| call_unlock: "at_pc s h = Inside \<Longrightarrow> spin_step l n s (s\<lparr>at_pc := (at_pc s)(h := lib_unlock l)\<rparr>)"
| call_check: "h < n \<Longrightarrow> at_pc s h = Outside \<Longrightarrow> turns s h = 0 \<Longrightarrow> lib_check l = Some p \<Longrightarrow>
    spin_step l n s (s\<lparr>at_pc := (at_pc s)(h := p)\<rparr>)"

inductive_cases spin_stepE: "spin_step l n s s'"

text \<open>All harts outside and the lock free, with the number of turns each is going to take.\<close>

definition spin_start :: "(nat \<Rightarrow> nat) \<Rightarrow> spin" where
  "spin_start t = \<lparr>spin_locked = 0, rvs_valid = False, turns = t, at_pc = (\<lambda>_. Outside)\<rparr>"

inductive spin_reach :: "spin_lib \<Rightarrow> nat \<Rightarrow> (nat \<Rightarrow> nat) \<Rightarrow> spin \<Rightarrow> bool" for l n t where
  start: "spin_reach l n t (spin_start t)"
| move: "spin_reach l n t s \<Longrightarrow> spin_step l n s s' \<Longrightarrow> spin_reach l n t s'"

section \<open>Exclusive sections\<close>

text \<open>What a lock promises its callers: an invariant that its code keeps and that lets two harts
never be in their sections together.\<close>

locale exclusive_lock =
  fixes l :: spin_lib and n :: nat and t :: "nat \<Rightarrow> nat" and inv :: "spin \<Rightarrow> bool"
  assumes inv_start: "inv (spin_start t)"
    and inv_step: "inv s \<Longrightarrow> spin_step l n s s' \<Longrightarrow> inv s'"
    and inv_excludes: "inv s \<Longrightarrow> at_pc s i = Inside \<Longrightarrow> at_pc s j = Inside \<Longrightarrow> i = j"
begin

lemma reach_inv: "spin_reach l n t s \<Longrightarrow> inv s"
  by (induction rule: spin_reach.induct) (auto intro: inv_start inv_step)

lemma excludes: "spin_reach l n t s \<Longrightarrow> at_pc s i = Inside \<Longrightarrow> at_pc s j = Inside \<Longrightarrow> i = j"
  using reach_inv inv_excludes by blast

end

section \<open>The swap lock\<close>

text \<open>The lock word is set exactly while some hart is past the swap that found it free and has
not yet made the swap that frees it.\<close>

definition owns :: "spin_pc set" where
  "owns = {Inside, Unlock_swap}"

definition swap_inv :: "spin \<Rightarrow> bool" where
  "swap_inv s \<longleftrightarrow> (\<forall>i j. at_pc s i \<in> owns \<longrightarrow> at_pc s j \<in> owns \<longrightarrow> i = j)
    \<and> (spin_locked s \<noteq> 0 \<longleftrightarrow> (\<exists>i. at_pc s i \<in> owns))"

lemma swap_code:
  "lib_code swap_lock p = Some (r, k) \<longleftrightarrow> p = Lock_swap \<and> r = Amoswap (- 1) \<and> k = (\<lambda>x. if x \<noteq> 0 then Lock_swap else Inside)
    \<or> p = Unlock_swap \<and> r = Amoswap 0 \<and> k = (\<lambda>x. Outside)"
  by (cases p) (auto simp: swap_lock_def map_add_def)

lemma swap_inv_same:
  "swap_inv s \<Longrightarrow> spin_locked s' = spin_locked s \<Longrightarrow> (\<And>i. at_pc s' i \<in> owns \<longleftrightarrow> at_pc s i \<in> owns) \<Longrightarrow> swap_inv s'"
  by (simp add: swap_inv_def)

lemma swap_inv_step:
  assumes "swap_inv s" "spin_step swap_lock n s s'" shows "swap_inv s'"
  using assms(2)
proof (cases rule: spin_step.cases)
  case (code h r k)
  have e: "\<forall>i j. at_pc s i \<in> owns \<longrightarrow> at_pc s j \<in> owns \<longrightarrow> i = j" "spin_locked s \<noteq> 0 \<longleftrightarrow> (\<exists>i. at_pc s i \<in> owns)"
    using assms(1) by (auto simp: swap_inv_def)
  from code(2) consider "at_pc s h = Lock_swap" "r = Amoswap (- 1)" "k = (\<lambda>x. if x \<noteq> 0 then Lock_swap else Inside)"
    | "at_pc s h = Unlock_swap" "r = Amoswap 0" "k = (\<lambda>x. Outside)" by (auto simp: swap_code)
  then show ?thesis
  proof cases
    case 1
    then have n: "at_pc s h \<notin> owns" by (simp add: owns_def)
    show ?thesis
    proof (cases "spin_locked s = 0")
      case True
      then have "at_pc s i \<notin> owns" for i using e(2) by blast
      then show ?thesis using 1 code(1) True by (simp add: swap_inv_def bus_do_def owns_def)
    next
      case False
      then obtain i where "at_pc s i \<in> owns" using e(2) by blast
      moreover from this n have "i \<noteq> h" by auto
      moreover have "Lock_swap \<notin> owns" by (simp add: owns_def)
      ultimately show ?thesis using 1 code(1) False e(1) n by (auto simp: swap_inv_def bus_do_def)
    qed
  next
    case 2
    have "i = h" if "at_pc s i \<in> owns" for i using e(1) 2(1) that by (auto simp: owns_def)
    then show ?thesis using 2 code(1) by (auto simp: swap_inv_def bus_do_def owns_def)
  qed
next
  case other
  then show ?thesis using assms(1) by (auto intro!: swap_inv_same [OF assms(1)] simp: bus_do_def)
next
  case (call_lock h m)
  then show ?thesis by (intro swap_inv_same [OF assms(1)]) (auto simp: owns_def swap_lock_def)
next
  case (call_unlock h)
  then show ?thesis by (intro swap_inv_same [OF assms(1)]) (auto simp: owns_def swap_lock_def)
next
  case (call_check h p)
  then show ?thesis by (simp add: swap_lock_def)
qed

interpretation swap: exclusive_lock swap_lock n t swap_inv for n t
proof (unfold_locales, goal_cases)
  case 1 show ?case by (simp add: swap_inv_def spin_start_def owns_def)
next
  case (2 s s') then show ?case by (rule swap_inv_step)
next
  case (3 s i j) then show ?case by (auto simp: swap_inv_def owns_def)
qed

section \<open>The reservation lock\<close>

text \<open>Two harts that take one turn each, as in \<^verbatim>\<open>demo_dual_core/main.c\<close>: while one is in its
section, the other finds the lock set, and a reservation it may have made before is gone.\<close>

definition one_turn :: "nat \<Rightarrow> nat" where
  "one_turn h = (if h < 2 then 1 else 0)"

definition before :: "spin \<Rightarrow> nat \<Rightarrow> bool" where
  "before s h \<longleftrightarrow> at_pc s h \<in> {Lock_lr, Lock_sc} \<or> at_pc s h = Outside \<and> 0 < turns s h"

definition shut_out :: "spin \<Rightarrow> nat \<Rightarrow> nat \<Rightarrow> bool" where
  "shut_out s i j \<longleftrightarrow> at_pc s i = Inside \<longrightarrow> at_pc s j \<noteq> Inside
    \<and> (before s j \<longrightarrow> spin_locked s \<noteq> 0 \<and> (at_pc s j = Lock_sc \<longrightarrow> \<not> rvs_valid s))"

definition turn_inv :: "spin \<Rightarrow> bool" where
  "turn_inv s \<longleftrightarrow> (\<forall>h. turns s h \<le> one_turn h \<and> (at_pc s h \<noteq> Outside \<longrightarrow> h < 2 \<and> turns s h = 0))
    \<and> shut_out s 0 1 \<and> shut_out s 1 0"

lemma reservation_code:
  "lib_code reservation_lock p = Some (r, k) \<longleftrightarrow>
      p = Lock_lr \<and> r = Lr \<and> k = (\<lambda>x. if x = 0 then Lock_sc else Lock_lr)
    \<or> p = Lock_sc \<and> r = Sc (- 1) \<and> k = (\<lambda>x. if x = 0 then Inside else Lock_lr)
    \<or> p = Unlock_lr \<and> r = Lr \<and> k = (\<lambda>x. Unlock_sc)
    \<or> p = Unlock_sc \<and> r = Sc 0 \<and> k = (\<lambda>x. if x \<noteq> 0 then Unlock_lr else Outside)
    \<or> p = Check_lr \<and> r = Lr \<and> k = (\<lambda>x. if x \<noteq> 0 then Check_lr else Outside)"
  by (cases p) (auto simp: reservation_lock_def map_add_def)

lemma turn_inv_pair:
  assumes "h < 2" "turns s h \<le> one_turn h" "at_pc s h \<noteq> Outside \<Longrightarrow> turns s h = 0"
    and "\<And>j. j \<noteq> h \<Longrightarrow> turns s j = turns s0 j \<and> at_pc s j = at_pc s0 j" "turn_inv s0"
    and "shut_out s h (1 - h)" "shut_out s (1 - h) h"
  shows "turn_inv s"
proof -
  have "turns s j \<le> one_turn j \<and> (at_pc s j \<noteq> Outside \<longrightarrow> j < 2 \<and> turns s j = 0)" for j
    using assms(1-5) by (cases "j = h") (auto simp: turn_inv_def)
  moreover from assms(1) consider "h = 0" | "h = 1" by linarith
  then have "shut_out s 0 1 \<and> shut_out s 1 0" using assms(6,7) by cases auto
  ultimately show ?thesis by (simp add: turn_inv_def)
qed

lemma other_hart: "h < 2 \<Longrightarrow> 1 - h \<noteq> (h :: nat)"
  by (cases h) auto

lemma turn_invD:
  assumes "turn_inv s"
  shows "turns s h \<le> one_turn h" "at_pc s h \<noteq> Outside \<Longrightarrow> h < 2 \<and> turns s h = 0"
    and "h < 2 \<Longrightarrow> shut_out s h (1 - h)" "h < 2 \<Longrightarrow> shut_out s (1 - h) h"
proof -
  show "turns s h \<le> one_turn h" "at_pc s h \<noteq> Outside \<Longrightarrow> h < 2 \<and> turns s h = 0"
    using assms by (auto simp: turn_inv_def)
  show "shut_out s h (1 - h)" "shut_out s (1 - h) h" if "h < 2"
  proof -
    from that have "h = 0 \<or> h = 1" by linarith
    then show "shut_out s h (1 - h)" "shut_out s (1 - h) h" using assms unfolding turn_inv_def by auto
  qed
qed

lemma shut_out_code:
  assumes "lib_code reservation_lock (at_pc s h) = Some (r, k)" "j \<noteq> h" "turns s h = 0" "shut_out s h j" "shut_out s j h"
    and "s' = (bus_do r s)\<lparr>at_pc := (at_pc s)(h := k (bus_data (rvs_valid s) r (spin_locked s)))\<rparr>"
  shows "shut_out s' h j \<and> shut_out s' j h"
proof -
  have e: "at_pc s' h = k (bus_data (rvs_valid s) r (spin_locked s))" "at_pc s' j = at_pc s j" "turns s' = turns s"
    "spin_locked s' = bus_write (rvs_valid s) r (spin_locked s)" "rvs_valid s' = rvs_next r"
    using assms(2,6) by (simp_all add: bus_do_def)
  from assms(1) consider
      (lock_lr) "at_pc s h = Lock_lr" "r = Lr" "k = (\<lambda>x. if x = 0 then Lock_sc else Lock_lr)"
    | (lock_sc) "at_pc s h = Lock_sc" "r = Sc (- 1)" "k = (\<lambda>x. if x = 0 then Inside else Lock_lr)"
    | (unlock_lr) "at_pc s h = Unlock_lr" "r = Lr" "k = (\<lambda>x. Unlock_sc)"
    | (unlock_sc) "at_pc s h = Unlock_sc" "r = Sc 0" "k = (\<lambda>x. if x \<noteq> 0 then Unlock_lr else Outside)"
    | (check_lr) "at_pc s h = Check_lr" "r = Lr" "k = (\<lambda>x. if x \<noteq> 0 then Check_lr else Outside)"
    unfolding reservation_code by blast
  then show ?thesis
  proof cases
    case lock_lr
    then show ?thesis using e assms(3-5) by (cases "spin_locked s = 0") (simp_all add: shut_out_def before_def)
  next
    case lock_sc
    then show ?thesis using e assms(3-5) by (cases "rvs_valid s") (simp_all add: shut_out_def before_def)
  next
    case unlock_lr
    then show ?thesis using e assms(3-5) by (simp add: shut_out_def before_def)
  next
    case unlock_sc
    then show ?thesis using e assms(3-5) by (cases "rvs_valid s") (simp_all add: shut_out_def before_def)
  next
    case check_lr
    then show ?thesis using e assms(3-5) by (cases "spin_locked s = 0") (simp_all add: shut_out_def before_def)
  qed
qed

lemma turn_inv_code:
  assumes i: "turn_inv s" and c: "lib_code reservation_lock (at_pc s h) = Some (r, k)"
  shows "turn_inv ((bus_do r s)\<lparr>at_pc := (at_pc s)(h := k (bus_data (rvs_valid s) r (spin_locked s)))\<rparr>)"
proof -
  have h: "h < 2" "turns s h = 0" using c turn_invD(2) [OF i, of h] by (auto simp: reservation_code)
  note n = other_hart [OF h(1)]
  note p = turn_invD(3,4) [OF i h(1)]
  show ?thesis
  proof (rule turn_inv_pair [OF h(1) _ _ _ i])
    let ?s = "(bus_do r s)\<lparr>at_pc := (at_pc s)(h := k (bus_data (rvs_valid s) r (spin_locked s)))\<rparr>"
    show "shut_out ?s h (1 - h)" "shut_out ?s (1 - h) h"
      using shut_out_code [OF c n _ p] h(2) by blast+
  qed (use h in \<open>auto simp: bus_do_def\<close>)
qed

lemma turn_inv_step:
  assumes i: "turn_inv s" and t: "spin_step reservation_lock 2 s s'" shows "turn_inv s'"
  using t
proof (cases rule: spin_step.cases)
  case (code h r k)
  then show ?thesis using turn_inv_code [OF i] by simp
next
  case (other r)
  then show ?thesis using i by (auto simp: turn_inv_def shut_out_def before_def bus_do_def)
next
  case (call_lock h m)
  note n = other_hart [OF call_lock(2)]
  have m: "m = 0" using turn_invD(1) [OF i, of h] call_lock(2,4) by (simp add: one_turn_def)
  show ?thesis unfolding call_lock(1)
    by (rule turn_inv_pair [OF call_lock(2) _ _ _ i])
      (use n m call_lock turn_invD(3,4) [OF i call_lock(2)] in \<open>auto simp: shut_out_def before_def reservation_lock_def one_turn_def\<close>)
next
  case (call_unlock h)
  have h: "h < 2" "turns s h = 0" using turn_invD(2) [OF i, of h] call_unlock by auto
  note n = other_hart [OF h(1)]
  show ?thesis unfolding call_unlock(1)
    by (rule turn_inv_pair [OF h(1) _ _ _ i])
      (use n h call_unlock turn_invD(3,4) [OF i h(1)] in \<open>auto simp: shut_out_def before_def reservation_lock_def one_turn_def\<close>)
next
  case (call_check h p)
  note n = other_hart [OF call_check(2)]
  show ?thesis unfolding call_check(1)
    by (rule turn_inv_pair [OF call_check(2) _ _ _ i])
      (use n call_check turn_invD(3,4) [OF i call_check(2)] in \<open>auto simp: shut_out_def before_def reservation_lock_def one_turn_def\<close>)
qed

interpretation one_shot: exclusive_lock reservation_lock 2 one_turn turn_inv
proof (unfold_locales, goal_cases)
  case 1 show ?case by (simp add: turn_inv_def spin_start_def shut_out_def)
next
  case (2 s s') then show ?case by (rule turn_inv_step)
next
  case (3 s i j)
  then have "i < 2" "j < 2" using turn_invD(2) [OF 3(1), of i] turn_invD(2) [OF 3(1), of j] by simp_all
  moreover have "\<not> (at_pc s 0 = Inside \<and> at_pc s 1 = Inside)" using 3(1) by (simp add: turn_inv_def shut_out_def)
  ultimately show ?case using 3(2,3) less_2_cases [of i] less_2_cases [of j] by fastforce
qed

text \<open>With a second turn the exclusion is lost.  Hart 0 reads the free lock and is held up before
its store-conditional; hart 1 takes the lock, and its own release sets the reservation again, so
hart 0 takes the lock although hart 1 holds it; hart 1 then frees the lock that hart 0 holds, and
takes it for its second turn.\<close>

definition two_turns :: "nat \<Rightarrow> nat" where
  "two_turns = (\<lambda>_. 0)(0 := 1, 1 := 2)"

text \<open>A run given by the calls and accesses the harts make.\<close>

datatype spin_move = Do nat | Call_lock nat | Call_unlock nat

fun spin_play :: "spin_lib \<Rightarrow> nat \<Rightarrow> spin_move \<Rightarrow> spin \<Rightarrow> spin option" where
  "spin_play l n (Do h) s = (case lib_code l (at_pc s h) of
      Some (r, k) \<Rightarrow> Some ((bus_do r s)\<lparr>at_pc := (at_pc s)(h := k (bus_data (rvs_valid s) r (spin_locked s)))\<rparr>)
    | None \<Rightarrow> None)"
| "spin_play l n (Call_lock h) s = (if h < n \<and> at_pc s h = Outside \<and> 0 < turns s h
      then Some (s\<lparr>turns := (turns s)(h := turns s h - 1), at_pc := (at_pc s)(h := lib_lock l)\<rparr>) else None)"
| "spin_play l n (Call_unlock h) s = (if at_pc s h = Inside
      then Some (s\<lparr>at_pc := (at_pc s)(h := lib_unlock l)\<rparr>) else None)"

fun spin_run :: "spin_lib \<Rightarrow> nat \<Rightarrow> spin_move list \<Rightarrow> spin \<Rightarrow> spin option" where
  "spin_run l n [] s = Some s"
| "spin_run l n (m # ms) s = Option.bind (spin_play l n m s) (spin_run l n ms)"

lemma spin_play_step: "spin_play l n m s = Some s' \<Longrightarrow> spin_step l n s s'"
  by (cases m) (auto split: option.splits if_splits intro: spin_step.intros)

lemma spin_run_reach: "spin_reach l n t s \<Longrightarrow> spin_run l n ms s = Some s' \<Longrightarrow> spin_reach l n t s'"
  by (induction ms arbitrary: s) (auto simp: bind_eq_Some_conv dest: spin_play_step intro: spin_reach.move)

definition lost_reservation :: "spin_move list" where
  "lost_reservation = [Call_lock 0, Do 0, Call_lock 1, Do 1, Do 1, Call_unlock 1, Do 1, Do 0, Do 1, Do 1, Do 1,
     Call_lock 1, Do 1, Do 1]"

lemma lost_reservation_run:
  "\<exists>s. spin_run reservation_lock 2 lost_reservation (spin_start two_turns) = Some s
    \<and> at_pc s 0 = Inside \<and> at_pc s 1 = Inside"
  by (simp add: lost_reservation_def spin_start_def two_turns_def reservation_lock_def map_add_def bus_do_def)
end
