(* ===== verification/Smp.thy ===== *)
theory Smp
  imports Clint
begin

text \<open>
  The launch of the second core: \<^verbatim>\<open>sw/lib/source/neorv32_smp.c\<close>, run by core 0, and the part
  of \<^verbatim>\<open>sw/common/crt0.S\<close> that core 1 runs meanwhile.  The two cores run in parallel and meet in
  the comparator of hart 1, which carries stack and entry point, and in its software interrupt
  bit, which announces and acknowledges a request.  \<open>gap n\<close> is the number of steps core 1 makes
  between the \<open>n\<close>-th access of core 0 and the next, so a statement for all \<open>gap\<close> is one
  for all interleavings.
\<close>

section \<open>Core 0\<close>

definition neorv32_smp_whoami :: "mach \<Rightarrow> u32 \<times> mach" where
  "neorv32_smp_whoami m = neorv32_cpu_csr_read CSR_MHARTID m"

fun smp_poll :: "nat \<Rightarrow> mach \<Rightarrow> int \<times> mach" where
  "smp_poll 0 m = (-1, m)"
| "smp_poll (Suc timeout) m =
     (let (v, m) = neorv32_clint_msi_get 1 m in if v = 0 then (0, m) else smp_poll timeout m)"

definition neorv32_smp_boot :: "u32 \<Rightarrow> u32 \<Rightarrow> mach \<Rightarrow> int \<times> mach" where
  "neorv32_smp_boot addr stack m =
     (let m = wr (CLINT_MTIMECMP_LO 1) stack m;
          m = wr (CLINT_MTIMECMP_HI 1) addr m;
          m = neorv32_clint_msi_set 1 m;
          (clk, m) = neorv32_sysinfo_get_clk m
      in smp_poll (unat (drop_bit 10 clk)) m)"

text \<open>The linker symbols \<^verbatim>\<open>__crt0_entry\<close> and \<^verbatim>\<open>__crt0_ram_last\<close> of the image.\<close>

record crt0_syms =
  crt0_entry :: u32
  crt0_ram_last :: u32

definition stack_top :: "u32 \<Rightarrow> u32 \<Rightarrow> u32" where
  "stack_top stack_memory stack_size_bytes = (stack_memory + (stack_size_bytes - 1)) AND 0xfffffff0"

definition neorv32_smp_launch :: "crt0_syms \<Rightarrow> u32 \<Rightarrow> u32 \<Rightarrow> u32 \<Rightarrow> mach \<Rightarrow> int \<times> mach" where
  "neorv32_smp_launch y entry_point stack_memory stack_size_bytes m =
     (let (id, m) = neorv32_smp_whoami m in
      if id \<noteq> 0 then (-1, m) else
      let (cores, m) = neorv32_sysinfo_get_numcores m in
      if cores < 2 then (-1, m) else
      let (clint, m) = neorv32_clint_available m in
      if clint = 0 then (-1, m) else
      let sp = stack_top stack_memory stack_size_bytes;
          (r, m) = neorv32_smp_boot (crt0_entry y) sp m in
      if r \<noteq> 0 then (-2, m) else
      let (r, m) = neorv32_smp_boot entry_point sp m in
      if r \<noteq> 0 then (-2, m) else (0, m))"

section \<open>Core 1\<close>

text \<open>The program points of \<^verbatim>\<open>crt0.S\<close> on core 1, from the register setup over the wait to the
wake-up handler.  \<open>Running\<close> is core 1 in a main function of its own.\<close>

datatype crt0_pc = Entry | Smp_check | Smp_setup | Enable | Sleep | Wakeup | Load_stack | Load_entry | Clear_mswi
  | Enter_main | Running

record core1 =
  c1_pc :: crt0_pc
  c1_x2 :: u32
  c1_x12 :: u32
  c1_wakes :: bool
  c1_msie :: bool
  c1_mie :: bool
  mswi1 :: bool
  cmp_lo1 :: u32
  cmp_hi1 :: u32

text \<open>\<open>c1_wakes\<close>: the trap vector is the wake-up handler and not \<^verbatim>\<open>__crt0_panic\<close>.  Nothing but
the software interrupt is enabled while it is, so no other trap interrupts the sleep.\<close>

definition crt0_step :: "crt0_syms \<Rightarrow> core1 \<Rightarrow> core1" where
  "crt0_step y s = (case c1_pc s of
     Entry \<Rightarrow> s\<lparr>c1_x2 := crt0_ram_last y AND 0xfffffff0, c1_mie := False, c1_wakes := False, c1_msie := False,
       c1_x12 := 0, c1_pc := Smp_check\<rparr>
   | Smp_check \<Rightarrow> s\<lparr>c1_pc := Smp_setup\<rparr>
   | Smp_setup \<Rightarrow> s\<lparr>c1_wakes := True, c1_msie := True, c1_pc := Enable\<rparr>
   | Enable \<Rightarrow> s\<lparr>c1_mie := True, c1_pc := Sleep\<rparr>
   | Sleep \<Rightarrow> if c1_mie s \<and> c1_msie s \<and> c1_wakes s \<and> mswi1 s then s\<lparr>c1_mie := False, c1_pc := Wakeup\<rparr> else s
   | Wakeup \<Rightarrow> s\<lparr>c1_wakes := False, c1_pc := Load_stack\<rparr>
   | Load_stack \<Rightarrow> s\<lparr>c1_x2 := cmp_lo1 s, c1_pc := Load_entry\<rparr>
   | Load_entry \<Rightarrow> s\<lparr>c1_x12 := cmp_hi1 s, c1_pc := Clear_mswi\<rparr>
   | Clear_mswi \<Rightarrow> s\<lparr>mswi1 := False, c1_pc := Enter_main\<rparr>
   | Enter_main \<Rightarrow> s\<lparr>c1_pc := (if c1_x12 s = crt0_entry y then Entry else Running)\<rparr>
   | Running \<Rightarrow> s)"

text \<open>What an access of core 0 does to the three registers the cores share.\<close>

definition core0_access :: "event \<Rightarrow> core1 \<Rightarrow> core1" where
  "core0_access e s = (case e of
     Wr l v \<Rightarrow> if l = CLINT_MTIMECMP_LO 1 then s\<lparr>cmp_lo1 := v\<rparr>
       else if l = CLINT_MTIMECMP_HI 1 then s\<lparr>cmp_hi1 := v\<rparr>
       else if l = CLINT_MSWI 1 then s\<lparr>mswi1 := bit v 0\<rparr> else s
   | _ \<Rightarrow> s)"

fun smp_state :: "crt0_syms \<Rightarrow> (nat \<Rightarrow> nat) \<Rightarrow> core1 \<Rightarrow> event list \<Rightarrow> core1" where
  "smp_state y gap init [] = (crt0_step y ^^ gap 0) init"
| "smp_state y gap init (e # h) =
     (crt0_step y ^^ gap (Suc (List.length h))) (core0_access e (smp_state y gap init h))"

definition smp_hw :: "crt0_syms \<Rightarrow> (nat \<Rightarrow> nat) \<Rightarrow> core1 \<Rightarrow> (loc \<Rightarrow> u32) \<Rightarrow> event list \<Rightarrow> loc \<Rightarrow> u32" where
  "smp_hw y gap init soc h l =
     (if l = CLINT_MSWI 1 then if mswi1 (smp_state y gap init h) then 1 else 0 else soc l)"

section \<open>Requests\<close>

text \<open>Core 1 can take a request: it is on its way to the sleep, or about to enter \<^verbatim>\<open>crt0\<close>.\<close>

definition idle :: "crt0_syms \<Rightarrow> core1 \<Rightarrow> bool" where
  "idle y s \<longleftrightarrow> (case c1_pc s of
     Entry \<Rightarrow> True | Smp_check \<Rightarrow> True | Smp_setup \<Rightarrow> True | Enable \<Rightarrow> c1_msie s \<and> c1_wakes s
   | Sleep \<Rightarrow> c1_mie s \<and> c1_msie s \<and> c1_wakes s | Enter_main \<Rightarrow> c1_x12 s = crt0_entry y | _ \<Rightarrow> False)"

text \<open>It has taken the request: it jumps to the entry point with the stack given, or has done so.\<close>

definition started :: "crt0_syms \<Rightarrow> u32 \<Rightarrow> u32 \<Rightarrow> core1 \<Rightarrow> bool" where
  "started y sp addr s \<longleftrightarrow> c1_pc s = Enter_main \<and> c1_x2 s = sp \<and> c1_x12 s = addr
    \<or> (if addr = crt0_entry y then idle y s else c1_pc s = Running \<and> c1_x2 s = sp \<and> c1_x12 s = addr)"

definition requested :: "crt0_syms \<Rightarrow> u32 \<Rightarrow> u32 \<Rightarrow> core1 \<Rightarrow> bool" where
  "requested y sp addr s \<longleftrightarrow> cmp_lo1 s = sp \<and> cmp_hi1 s = addr
    \<and> (idle y s \<or> c1_pc s \<in> {Wakeup, Load_stack} \<or> c1_pc s = Load_entry \<and> c1_x2 s = sp
      \<or> c1_pc s = Clear_mswi \<and> c1_x2 s = sp \<and> c1_x12 s = addr)"

definition served :: "crt0_syms \<Rightarrow> u32 \<Rightarrow> u32 \<Rightarrow> core1 \<Rightarrow> bool" where
  "served y sp addr s \<longleftrightarrow> (if mswi1 s then requested y sp addr s else started y sp addr s)"

lemma idle_step: "idle y s \<Longrightarrow> \<not> mswi1 s \<Longrightarrow> idle y (crt0_step y s) \<and> \<not> mswi1 (crt0_step y s)"
  by (cases "c1_pc s") (auto simp: idle_def crt0_step_def)

lemma idle_steps: "idle y s \<Longrightarrow> \<not> mswi1 s \<Longrightarrow> idle y ((crt0_step y ^^ n) s) \<and> \<not> mswi1 ((crt0_step y ^^ n) s)"
  by (induction n) (auto dest: idle_step)

lemma served_step: "served y sp addr s \<Longrightarrow> served y sp addr (crt0_step y s)"
  by (cases "c1_pc s") (auto simp: served_def requested_def started_def idle_def crt0_step_def split: if_splits)

lemma served_steps: "served y sp addr s \<Longrightarrow> served y sp addr ((crt0_step y ^^ n) s)"
  by (induction n) (auto dest: served_step)

text \<open>The steps core 1 needs from where it stands until it acknowledges.\<close>

fun steps_left :: "crt0_pc \<Rightarrow> nat" where
  "steps_left Enter_main = 10"
| "steps_left Entry = 9"
| "steps_left Smp_check = 8"
| "steps_left Smp_setup = 7"
| "steps_left Enable = 6"
| "steps_left Sleep = 5"
| "steps_left Wakeup = 4"
| "steps_left Load_stack = 3"
| "steps_left Load_entry = 2"
| "steps_left Clear_mswi = 1"
| "steps_left Running = 0"

lemma request_progress:
  "requested y sp addr s \<Longrightarrow> mswi1 s \<Longrightarrow> mswi1 (crt0_step y s) \<Longrightarrow>
    Suc (steps_left (c1_pc (crt0_step y s))) = steps_left (c1_pc s)"
  by (cases "c1_pc s") (auto simp: requested_def idle_def crt0_step_def)

lemma requested_left: "requested y sp addr s \<Longrightarrow> 0 < steps_left (c1_pc s) \<and> steps_left (c1_pc s) \<le> 10"
  by (cases "c1_pc s") (auto simp: requested_def idle_def)

text \<open>The acknowledgement stays: only core 0 sets the bit.\<close>

lemma mswi_step: "mswi1 (crt0_step y s) \<Longrightarrow> mswi1 s"
  by (auto simp: crt0_step_def split: crt0_pc.splits if_splits)

lemma request_steps:
  "served y sp addr s \<Longrightarrow> mswi1 ((crt0_step y ^^ n) s) \<Longrightarrow>
    steps_left (c1_pc ((crt0_step y ^^ n) s)) + n = steps_left (c1_pc s)"
proof (induction n)
  case (Suc n)
  let ?s = "(crt0_step y ^^ n) s"
  have m: "mswi1 (crt0_step y ?s)" "mswi1 ?s" using Suc.prems(2) mswi_step by auto
  then have "requested y sp addr ?s" using served_steps [OF Suc.prems(1), of n] by (simp add: served_def)
  then show ?case using request_progress [of y sp addr ?s] m Suc.IH [OF Suc.prems(1) m(2)] by simp
qed simp

section \<open>The launch\<close>

text \<open>Core 1 as it stands after the accesses of core 0 so far.\<close>

definition smp_at :: "crt0_syms \<Rightarrow> (nat \<Rightarrow> nat) \<Rightarrow> core1 \<Rightarrow> mach \<Rightarrow> core1" where
  "smp_at y gap init m = smp_state y gap init (log m)"

lemma smp_at_tick:
  "smp_at y gap init (tick e m) = (crt0_step y ^^ gap (Suc (List.length (log m)))) (core0_access e (smp_at y gap init m))"
  by (simp add: smp_at_def)

lemma core0_access_Rd [simp]: "core0_access (Rd l v) s = s"
  by (simp add: core0_access_def)

lemma cmp_step [simp]: "cmp_lo1 (crt0_step y s) = cmp_lo1 s" "cmp_hi1 (crt0_step y s) = cmp_hi1 s"
  by (auto simp: crt0_step_def split: crt0_pc.splits)

lemma cmp_steps [simp]:
  "cmp_lo1 ((crt0_step y ^^ n) s) = cmp_lo1 s" "cmp_hi1 ((crt0_step y ^^ n) s) = cmp_hi1 s"
  by (induction n) simp_all

lemma mswi_steps: "mswi1 ((crt0_step y ^^ n) s) \<Longrightarrow> mswi1 s"
  by (induction n) (auto dest: mswi_step)

lemma smp_regs_distinct [simp]:
  "CLINT_MTIMECMP_LO 1 \<noteq> CLINT_MSWI 1" "CLINT_MTIMECMP_HI 1 \<noteq> CLINT_MSWI 1"
  "CLINT_MSWI 1 \<noteq> CLINT_MTIMECMP_LO 1" "CLINT_MSWI 1 \<noteq> CLINT_MTIMECMP_HI 1"
  "SYSINFO_CLK \<noteq> CLINT_MSWI 1" "SYSINFO_MISC \<noteq> CLINT_MSWI 1" "SYSINFO_SOC \<noteq> CLINT_MSWI 1"
  by (simp_all add: clint_regs SYSINFO_CLK_def SYSINFO_MISC_def SYSINFO_SOC_def NEORV32_SYSINFO_BASE_def)

lemma rd_smp:
  assumes "hw m = smp_hw y gap init soc"
  shows "rd_val (CLINT_MSWI 1) m = (if mswi1 (smp_at y gap init m) then 1 else 0)"
    and "l \<noteq> CLINT_MSWI 1 \<Longrightarrow> rd_val l m = soc l"
  by (simp_all add: rd_val_def assms smp_hw_def smp_at_def)

lemma smp_poll_result: "smp_poll n m = (r, m') \<Longrightarrow> r = 0 \<or> r = -1"
  by (induction n arbitrary: m) (auto simp: Let_def split: if_splits prod.splits)

lemma smp_poll_served:
  assumes "hw m = smp_hw y gap init soc" "served y sp addr (smp_at y gap init m)" "smp_poll n m = (r, m')"
  shows "hw m' = hw m \<and> served y sp addr (smp_at y gap init m') \<and> (r = 0 \<longrightarrow> \<not> mswi1 (smp_at y gap init m'))"
  using assms
proof (induction n arbitrary: m)
  case (Suc n)
  let ?m = "tick (Rd (CLINT_MSWI 1) (rd_val (CLINT_MSWI 1) m)) m"
  have s: "served y sp addr (smp_at y gap init ?m)" using served_steps [OF Suc.prems(2)] by (simp add: smp_at_tick)
  show ?case
  proof (cases "mswi1 (smp_at y gap init m)")
    case True
    then have "smp_poll n ?m = (r, m')" using Suc.prems(3) by (simp add: neorv32_clint_msi_get_def rd_def rd_smp(1) [OF Suc.prems(1)])
    then show ?thesis using Suc.IH [of ?m] s Suc.prems(1) by simp
  next
    case False
    then have "m' = ?m" using Suc.prems(3) by (simp add: neorv32_clint_msi_get_def rd_def rd_smp(1) [OF Suc.prems(1)])
    moreover have "\<not> mswi1 (smp_at y gap init ?m)" using False mswi_steps by (auto simp: smp_at_tick)
    ultimately show ?thesis using s by simp
  qed
qed simp

lemma smp_poll_answers:
  assumes "hw m = smp_hw y gap init soc" "served y sp addr (smp_at y gap init m)" "\<And>n. 0 < gap n"
    and "steps_left (c1_pc (smp_at y gap init m)) < n"
  shows "fst (smp_poll n m) = 0"
  using assms(1,2,4)
proof (induction n arbitrary: m)
  case (Suc n)
  let ?m = "tick (Rd (CLINT_MSWI 1) (rd_val (CLINT_MSWI 1) m)) m"
  let ?s = "smp_at y gap init"
  have s: "served y sp addr (?s ?m)" using served_steps [OF Suc.prems(2)] by (simp add: smp_at_tick)
  show ?case
  proof (cases "mswi1 (?s m)")
    case True
    then have e: "smp_poll (Suc n) m = smp_poll n ?m"
      by (simp add: neorv32_clint_msi_get_def rd_def rd_smp(1) [OF Suc.prems(1)])
    show ?thesis
    proof (cases "mswi1 (?s ?m)")
      case True
      have "steps_left (c1_pc (?s ?m)) < steps_left (c1_pc (?s m))"
        using request_steps [OF Suc.prems(2), of "gap (Suc (List.length (log m)))"] True assms(3) [of "Suc (List.length (log m))"]
        by (simp add: smp_at_tick)
      then show ?thesis using Suc.IH [of ?m] s Suc.prems(1,3) e by simp
    next
      case False
      have "0 < n" using requested_left [of y sp addr "?s m"] Suc.prems(2,3) True by (auto simp: served_def)
      then obtain k where "n = Suc k" by (cases n) auto
      then show ?thesis using e False Suc.prems(1)
        by (simp add: neorv32_clint_msi_get_def rd_def rd_smp(1) [of ?m])
    qed
  next
    case False
    then show ?thesis by (simp add: neorv32_clint_msi_get_def rd_def rd_smp(1) [OF Suc.prems(1)])
  qed
qed simp

lemma idle_access:
  assumes "idle y s" "\<not> mswi1 s" "l \<noteq> CLINT_MSWI 1"
  shows "idle y (core0_access (Wr l v) s) \<and> \<not> mswi1 (core0_access (Wr l v) s)"
proof -
  have "idle y (s\<lparr>cmp_lo1 := v\<rparr>) = idle y s" "idle y (s\<lparr>cmp_hi1 := v\<rparr>) = idle y s"
    by (simp_all add: idle_def split: crt0_pc.split)
  then show ?thesis using assms by (simp add: core0_access_def)
qed

lemma idle_request:
  "idle y s \<Longrightarrow> cmp_lo1 s = sp \<Longrightarrow> cmp_hi1 s = addr \<Longrightarrow> served y sp addr (core0_access (Wr (CLINT_MSWI 1) 1) s)"
  by (simp add: served_def requested_def core0_access_def idle_def split: crt0_pc.splits)

lemma smp_boot_request:
  assumes "idle y (smp_at y gap init m)" "\<not> mswi1 (smp_at y gap init m)"
  shows "served y sp addr (smp_at y gap init (tick (Rd SYSINFO_CLK v) (neorv32_clint_msi_set 1
    (wr (CLINT_MTIMECMP_HI 1) addr (wr (CLINT_MTIMECMP_LO 1) sp m)))))"
proof -
  let ?s = "smp_at y gap init" and ?m1 = "wr (CLINT_MTIMECMP_LO 1) sp m"
  let ?m2 = "wr (CLINT_MTIMECMP_HI 1) addr ?m1"
  let ?m3 = "neorv32_clint_msi_set 1 ?m2"
  have 1: "idle y (?s ?m1) \<and> \<not> mswi1 (?s ?m1)"
    using idle_steps idle_access [OF assms] by (simp add: wr_def smp_at_tick)
  have "cmp_lo1 (?s ?m1) = sp" by (simp add: wr_def smp_at_tick core0_access_def)
  then have c: "cmp_lo1 (?s ?m2) = sp" "cmp_hi1 (?s ?m2) = addr"
    by (simp_all add: wr_def [of "CLINT_MTIMECMP_HI 1"] smp_at_tick core0_access_def)
  have 2: "idle y (?s ?m2)"
    using idle_steps idle_access [OF 1 [THEN conjunct1] 1 [THEN conjunct2]] by (simp add: wr_def [of "CLINT_MTIMECMP_HI 1"] smp_at_tick)
  have "served y sp addr (?s ?m3)"
    using served_steps [OF idle_request [OF 2 c]] by (simp add: neorv32_clint_msi_set_def wr_def [of "CLINT_MSWI 1"] smp_at_tick)
  then show ?thesis using served_steps by (simp add: smp_at_tick)
qed

lemma smp_boot_served:
  assumes h: "hw m = smp_hw y gap init soc" and i: "idle y (smp_at y gap init m)" "\<not> mswi1 (smp_at y gap init m)"
    and b: "neorv32_smp_boot addr sp m = (r, m')"
  shows "hw m' = hw m" "r = 0 \<or> r = -1"
    and "r = 0 \<Longrightarrow> started y sp addr (smp_at y gap init m') \<and> \<not> mswi1 (smp_at y gap init m')"
    and "(\<And>n. 0 < gap n) \<Longrightarrow> 10 < unat (drop_bit 10 (soc SYSINFO_CLK)) \<Longrightarrow> r = 0"
proof -
  let ?m3 = "neorv32_clint_msi_set 1 (wr (CLINT_MTIMECMP_HI 1) addr (wr (CLINT_MTIMECMP_LO 1) sp m))"
  let ?m = "tick (Rd SYSINFO_CLK (soc SYSINFO_CLK)) ?m3"
  have h3: "hw ?m3 = hw m" by (simp add: neorv32_clint_msi_set_def)
  have v: "rd_val SYSINFO_CLK ?m3 = soc SYSINFO_CLK" using rd_smp(2) [of ?m3] h h3 by simp
  have p: "smp_poll (unat (drop_bit 10 (soc SYSINFO_CLK))) ?m = (r, m')"
    using b v by (simp add: neorv32_smp_boot_def neorv32_sysinfo_get_clk_def rd_def)
  have s: "served y sp addr (smp_at y gap init ?m)" by (rule smp_boot_request [OF i])
  have hm: "hw ?m = smp_hw y gap init soc" using h h3 by simp
  note q = smp_poll_served [OF hm s p]
  show "hw m' = hw m" using q h3 by simp
  show "r = 0 \<or> r = -1" using smp_poll_result [OF p] .
  show "started y sp addr (smp_at y gap init m') \<and> \<not> mswi1 (smp_at y gap init m')" if "r = 0"
    using q that by (simp add: served_def)
  show "r = 0" if g: "\<And>n. 0 < gap n" "10 < unat (drop_bit 10 (soc SYSINFO_CLK))"
  proof (cases "mswi1 (smp_at y gap init ?m)")
    case True
    then have "steps_left (c1_pc (smp_at y gap init ?m)) \<le> 10" using s requested_left by (auto simp: served_def)
    then show ?thesis using smp_poll_answers [OF hm s g(1), of "unat (drop_bit 10 (soc SYSINFO_CLK))"] g(2) p by simp
  next
    case False
    from g(2) obtain k where "unat (drop_bit 10 (soc SYSINFO_CLK)) = Suc k" by (cases "unat (drop_bit 10 (soc SYSINFO_CLK))") auto
    then show ?thesis using p False by (simp add: neorv32_clint_msi_get_def rd_def rd_smp(1) [OF hm])
  qed
qed

lemma idle_tick_Rd:
  "idle y (smp_at y gap init m) \<Longrightarrow> \<not> mswi1 (smp_at y gap init m) \<Longrightarrow>
    idle y (smp_at y gap init (tick (Rd l v) m)) \<and> \<not> mswi1 (smp_at y gap init (tick (Rd l v) m))"
  using idle_steps by (simp add: smp_at_tick)

lemma started_crt0_idle: "started y sp (crt0_entry y) s \<Longrightarrow> idle y s"
  by (auto simp: started_def idle_def split: if_splits)

text \<open>The checks read three registers; after them two requests follow.\<close>

definition smp_checked :: "(loc \<Rightarrow> u32) \<Rightarrow> mach \<Rightarrow> mach" where
  "smp_checked soc m = tick (Rd SYSINFO_SOC (soc SYSINFO_SOC)) (tick (Rd SYSINFO_MISC (soc SYSINFO_MISC))
     (tick (Rd (Csr CSR_MHARTID) (soc (Csr CSR_MHARTID))) m))"

lemma smp_launch_checked:
  assumes h: "hw m = smp_hw y gap init soc"
    and "soc (Csr CSR_MHARTID) = 0" "2 \<le> drop_bit (sysinfo_misc SYSINFO_MISC_HART_LSB) (soc SYSINFO_MISC) AND 0x0f"
    and "bit (soc SYSINFO_SOC) (sysinfo_soc SYSINFO_SOC_IO_CLINT)"
  shows "neorv32_smp_launch y entry_point mem len m =
    (case neorv32_smp_boot (crt0_entry y) (stack_top mem len) (smp_checked soc m) of (r, m) \<Rightarrow>
      if r \<noteq> 0 then (-2, m) else case neorv32_smp_boot entry_point (stack_top mem len) m of (r, m) \<Rightarrow>
      if r \<noteq> 0 then (-2, m) else (0, m))"
proof -
  let ?m1 = "tick (Rd (Csr CSR_MHARTID) (soc (Csr CSR_MHARTID))) m"
  let ?m2 = "tick (Rd SYSINFO_MISC (soc SYSINFO_MISC)) ?m1"
  have 1: "neorv32_smp_whoami m = (0, ?m1)"
    using rd_smp(2) [OF h, of "Csr CSR_MHARTID"] assms(2)
    by (simp add: neorv32_smp_whoami_def neorv32_cpu_csr_read_def rd_def CLINT_MSWI_def)
  have 2: "neorv32_sysinfo_get_numcores ?m1
      = (drop_bit (sysinfo_misc SYSINFO_MISC_HART_LSB) (soc SYSINFO_MISC) AND 0x0f, ?m2)"
    using rd_smp(2) [of ?m1 y gap init soc SYSINFO_MISC] h by (simp add: neorv32_sysinfo_get_numcores_def rd_def)
  have 3: "neorv32_clint_available ?m2 = (soc SYSINFO_SOC AND BIT (sysinfo_soc SYSINFO_SOC_IO_CLINT), smp_checked soc m)"
    using rd_smp(2) [of ?m2 y gap init soc SYSINFO_SOC] h
    by (simp add: neorv32_clint_available_def soc_test_def rd_def smp_checked_def)
  have n: "\<not> drop_bit (sysinfo_misc SYSINFO_MISC_HART_LSB) (soc SYSINFO_MISC) AND 0x0f < 2" using assms(3) by simp
  show ?thesis
    unfolding neorv32_smp_launch_def Let_def 1 prod.case 2 3 using n assms(4) by (simp split: prod.split)
qed

lemma launch_outcome:
  assumes h: "hw m = smp_hw y gap init soc"
    and i: "idle y (smp_at y gap init m)" "\<not> mswi1 (smp_at y gap init m)"
    and e: "entry_point \<noteq> crt0_entry y"
    and c: "soc (Csr CSR_MHARTID) = 0" "2 \<le> drop_bit (sysinfo_misc SYSINFO_MISC_HART_LSB) (soc SYSINFO_MISC) AND 0x0f"
      "bit (soc SYSINFO_SOC) (sysinfo_soc SYSINFO_SOC_IO_CLINT)"
    and r: "neorv32_smp_launch y entry_point mem len m = (r, m')"
  shows "r = 0 \<or> r = -2"
    and "r = 0 \<Longrightarrow> c1_pc (smp_at y gap init m') \<in> {Enter_main, Running}
      \<and> c1_x2 (smp_at y gap init m') = stack_top mem len \<and> c1_x12 (smp_at y gap init m') = entry_point"
    and "(\<And>n. 0 < gap n) \<Longrightarrow> 10 < unat (drop_bit 10 (soc SYSINFO_CLK)) \<Longrightarrow> r = 0"
proof -
  let ?m = "smp_checked soc m" and ?sp = "stack_top mem len"
  obtain r1 m1 where 1: "neorv32_smp_boot (crt0_entry y) ?sp ?m = (r1, m1)" by fastforce
  obtain r2 m2 where 2: "neorv32_smp_boot entry_point ?sp m1 = (r2, m2)" by fastforce
  have r: "r = (if r1 \<noteq> 0 \<or> r2 \<noteq> 0 then -2 else 0)" "r1 = 0 \<Longrightarrow> m' = m2"
    using smp_launch_checked [OF h c, of entry_point mem len] r 1 2 by (auto split: if_splits)
  have h0: "hw ?m = smp_hw y gap init soc" using h by (simp add: smp_checked_def)
  have i0: "idle y (smp_at y gap init ?m)" "\<not> mswi1 (smp_at y gap init ?m)"
    using i idle_tick_Rd unfolding smp_checked_def by blast+
  note b1 = smp_boot_served [OF h0 i0 1]
  have h1: "hw m1 = smp_hw y gap init soc" using b1(1) h0 by simp
  have i1: "idle y (smp_at y gap init m1)" "\<not> mswi1 (smp_at y gap init m1)" if "r1 = 0"
    using b1(3) [OF that] started_crt0_idle by blast+
  note b2 = smp_boot_served [OF h1 i1 2]
  show "r = 0 \<or> r = -2" using r(1) by simp
  show "c1_pc (smp_at y gap init m') \<in> {Enter_main, Running}
      \<and> c1_x2 (smp_at y gap init m') = ?sp \<and> c1_x12 (smp_at y gap init m') = entry_point" if "r = 0"
  proof -
    have z: "r1 = 0" "r2 = 0" using that r(1) by (auto split: if_splits)
    then show ?thesis using b2(3) [OF z(1) z(1) z(2)] r(2) e by (auto simp: started_def)
  qed
  show "r = 0" if g: "\<And>n. 0 < gap n" "10 < unat (drop_bit 10 (soc SYSINFO_CLK))"
  proof -
    have "r1 = 0" by (rule b1(4) [OF g])
    moreover from this have "r2 = 0" using b2(4) g by simp
    ultimately show ?thesis using r(1) by simp
  qed
qed
end
