(* ===== verification/Onewire.thy ===== *)
theory Onewire
  imports Sysinfo
begin

text \<open>
  The 1-wire controller driver, \<^verbatim>\<open>sw/lib/source/neorv32_onewire.c\<close>.
\<close>

section \<open>Registers\<close>

definition ONEWIRE_CTRL :: loc where "ONEWIRE_CTRL = Mem W32 (NEORV32_ONEWIRE_BASE)"
definition ONEWIRE_DCMD :: loc where "ONEWIRE_DCMD = Mem W32 (NEORV32_ONEWIRE_BASE + 4)"

lemmas onewire_regs = ONEWIRE_CTRL_def ONEWIRE_DCMD_def NEORV32_ONEWIRE_BASE_def

datatype onewire_ctrl_bit =
    ONEWIRE_CTRL_EN
  | ONEWIRE_CTRL_CLEAR
  | ONEWIRE_CTRL_PRSC0
  | ONEWIRE_CTRL_PRSC1
  | ONEWIRE_CTRL_CLKDIV0
  | ONEWIRE_CTRL_CLKDIV7
  | ONEWIRE_CTRL_FIFO_LSB
  | ONEWIRE_CTRL_FIFO_MSB
  | ONEWIRE_CTRL_TX_FULL
  | ONEWIRE_CTRL_RX_AVAIL
  | ONEWIRE_CTRL_SENSE
  | ONEWIRE_CTRL_BUSY

primrec onewire_ctrl :: "onewire_ctrl_bit \<Rightarrow> nat" where
    "onewire_ctrl ONEWIRE_CTRL_EN = 0"
  | "onewire_ctrl ONEWIRE_CTRL_CLEAR = 1"
  | "onewire_ctrl ONEWIRE_CTRL_PRSC0 = 2"
  | "onewire_ctrl ONEWIRE_CTRL_PRSC1 = 3"
  | "onewire_ctrl ONEWIRE_CTRL_CLKDIV0 = 4"
  | "onewire_ctrl ONEWIRE_CTRL_CLKDIV7 = 11"
  | "onewire_ctrl ONEWIRE_CTRL_FIFO_LSB = 15"
  | "onewire_ctrl ONEWIRE_CTRL_FIFO_MSB = 18"
  | "onewire_ctrl ONEWIRE_CTRL_TX_FULL = 28"
  | "onewire_ctrl ONEWIRE_CTRL_RX_AVAIL = 29"
  | "onewire_ctrl ONEWIRE_CTRL_SENSE = 30"
  | "onewire_ctrl ONEWIRE_CTRL_BUSY = 31"

datatype onewire_dcmd_bit =
    ONEWIRE_DCMD_DATA_LSB
  | ONEWIRE_DCMD_DATA_MSB
  | ONEWIRE_DCMD_CMD_LO
  | ONEWIRE_DCMD_CMD_HI
  | ONEWIRE_DCMD_PRESENCE

primrec onewire_dcmd :: "onewire_dcmd_bit \<Rightarrow> nat" where
    "onewire_dcmd ONEWIRE_DCMD_DATA_LSB = 0"
  | "onewire_dcmd ONEWIRE_DCMD_DATA_MSB = 7"
  | "onewire_dcmd ONEWIRE_DCMD_CMD_LO = 8"
  | "onewire_dcmd ONEWIRE_DCMD_CMD_HI = 9"
  | "onewire_dcmd ONEWIRE_DCMD_PRESENCE = 10"

definition ONEWIRE_CMD_NOP :: u32 where "ONEWIRE_CMD_NOP = 0"
definition ONEWIRE_CMD_BIT :: u32 where "ONEWIRE_CMD_BIT = 1"
definition ONEWIRE_CMD_BYTE :: u32 where "ONEWIRE_CMD_BYTE = 2"
definition ONEWIRE_CMD_RESET :: u32 where "ONEWIRE_CMD_RESET = 3"

section \<open>Driver\<close>

definition neorv32_onewire_available :: "mach \<Rightarrow> u32 \<times> mach" where
  "neorv32_onewire_available m = soc_test SYSINFO_SOC_IO_ONEWIRE m"

definition neorv32_onewire_get_fifo_depth :: "mach \<Rightarrow> u32 \<times> mach" where
  "neorv32_onewire_get_fifo_depth m = reg_pow2 ONEWIRE_CTRL (onewire_ctrl ONEWIRE_CTRL_FIFO_LSB) m"

definition onewire_prsc_lut :: "u32 list" where
  "onewire_prsc_lut = [2, 4, 8, 64]"

text \<open>
  The search for a prescaler and an 8-bit divider; \<open>None\<close> when the last prescaler gives none
  either.  All products are 32 bits wide.
\<close>

function onewire_search :: "u32 \<Rightarrow> u32 \<Rightarrow> nat \<Rightarrow> (nat \<times> u32) option" where
  "onewire_search t_clock_x250ps t_base clk_prsc_sel =
     (let t_tick = t_clock_x250ps * (onewire_prsc_lut ! clk_prsc_sel);
          clkdiv = divu (4 * t_base) t_tick
      in if clkdiv > 0 \<and> clkdiv \<le> 255 then Some (clk_prsc_sel, clkdiv)
         else if clk_prsc_sel < 3 then onewire_search t_clock_x250ps t_base (clk_prsc_sel + 1)
         else None)"
  by pat_completeness auto
termination by (relation "measure (\<lambda>(_, _, s). 3 - s)") auto

declare onewire_search.simps [simp del]

definition neorv32_onewire_setup :: "u32 \<Rightarrow> mach \<Rightarrow> u32 \<times> mach" where
  "neorv32_onewire_setup t_base m =
     (let m = wr ONEWIRE_CTRL 0 m;
          (clk, m) = neorv32_sysinfo_get_clk m;
          t_clock_x250ps = divu (4 * 1000 * 1000 * 1000) clk
      in case onewire_search t_clock_x250ps t_base 0 of
           None \<Rightarrow> (0, m)
         | Some (clk_prsc_sel, clkdiv) \<Rightarrow>
             let ctrl = push_bit (onewire_ctrl ONEWIRE_CTRL_EN) 1
                   OR push_bit (onewire_ctrl ONEWIRE_CTRL_PRSC0) (of_nat clk_prsc_sel AND 0x3)
                   OR push_bit (onewire_ctrl ONEWIRE_CTRL_CLKDIV0) ((clkdiv - 1) AND 0xff);
                 m = wr ONEWIRE_CTRL ctrl m
             in ((t_clock_x250ps div 4) * (onewire_prsc_lut ! clk_prsc_sel) * clkdiv, m))"

definition neorv32_onewire_enable :: "mach \<Rightarrow> mach" where
  "neorv32_onewire_enable m = MMREG32_BSET ONEWIRE_CTRL (BIT (onewire_ctrl ONEWIRE_CTRL_EN)) m"

definition neorv32_onewire_disable :: "mach \<Rightarrow> mach" where
  "neorv32_onewire_disable m = MMREG32_BCLR ONEWIRE_CTRL (BIT (onewire_ctrl ONEWIRE_CTRL_EN)) m"

definition neorv32_onewire_flush :: "mach \<Rightarrow> mach" where
  "neorv32_onewire_flush m = MMREG32_BSET ONEWIRE_CTRL (BIT (onewire_ctrl ONEWIRE_CTRL_CLEAR)) m"

definition neorv32_onewire_sense :: "mach \<Rightarrow> u32 \<times> mach" where
  "neorv32_onewire_sense m = reg_test ONEWIRE_CTRL (onewire_ctrl ONEWIRE_CTRL_SENSE) m"

definition neorv32_onewire_busy :: "mach \<Rightarrow> u32 \<times> mach" where
  "neorv32_onewire_busy m = reg_test ONEWIRE_CTRL (onewire_ctrl ONEWIRE_CTRL_BUSY) m"

definition onewire_dcmd_word :: "u32 \<Rightarrow> u32 \<Rightarrow> u32" where
  "onewire_dcmd_word cmd data =
     push_bit (onewire_dcmd ONEWIRE_DCMD_CMD_LO) cmd OR push_bit (onewire_dcmd ONEWIRE_DCMD_DATA_LSB) data"

definition neorv32_onewire_reset :: "mach \<Rightarrow> mach" where
  "neorv32_onewire_reset m = wr ONEWIRE_DCMD (push_bit (onewire_dcmd ONEWIRE_DCMD_CMD_LO) ONEWIRE_CMD_RESET) m"

definition neorv32_onewire_reset_get_presence :: "mach \<Rightarrow> u32 \<times> mach" where
  "neorv32_onewire_reset_get_presence m = reg_test ONEWIRE_DCMD (onewire_dcmd ONEWIRE_DCMD_PRESENCE) m"

definition neorv32_onewire_read_bit :: "mach \<Rightarrow> mach" where
  "neorv32_onewire_read_bit m = wr ONEWIRE_DCMD (onewire_dcmd_word ONEWIRE_CMD_BIT 0xff) m"

definition neorv32_onewire_read_bit_get :: "mach \<Rightarrow> u8 \<times> mach" where
  "neorv32_onewire_read_bit_get m =
     (let (v, m) = reg_test ONEWIRE_DCMD (onewire_dcmd ONEWIRE_DCMD_DATA_MSB) m
      in (if v \<noteq> 0 then 1 else 0, m))"

definition neorv32_onewire_write_bit :: "u8 \<Rightarrow> mach \<Rightarrow> mach" where
  "neorv32_onewire_write_bit b m =
     (if b \<noteq> 0 then wr ONEWIRE_DCMD (onewire_dcmd_word ONEWIRE_CMD_BIT 0xff) m
      else wr ONEWIRE_DCMD (onewire_dcmd_word ONEWIRE_CMD_BIT 0x00) m)"

definition neorv32_onewire_read_byte :: "mach \<Rightarrow> mach" where
  "neorv32_onewire_read_byte m = wr ONEWIRE_DCMD (onewire_dcmd_word ONEWIRE_CMD_BYTE 0xff) m"

definition neorv32_onewire_read_byte_get :: "mach \<Rightarrow> u8 \<times> mach" where
  "neorv32_onewire_read_byte_get m = (let (v, m) = rd ONEWIRE_DCMD m in (ucast v, m))"

definition neorv32_onewire_write_byte :: "u8 \<Rightarrow> mach \<Rightarrow> mach" where
  "neorv32_onewire_write_byte byte m = wr ONEWIRE_DCMD (onewire_dcmd_word ONEWIRE_CMD_BYTE (ucast byte)) m"

text \<open>\<^verbatim>\<open>while (neorv32_onewire_busy());\<close>\<close>

definition onewire_wait :: "mach \<Rightarrow> mach option" where
  "onewire_wait m = poll (\<lambda>v. v AND BIT (onewire_ctrl ONEWIRE_CTRL_BUSY) \<noteq> 0) ONEWIRE_CTRL m"

definition neorv32_onewire_reset_blocking :: "mach \<Rightarrow> (u32 \<times> mach) option" where
  "neorv32_onewire_reset_blocking m =
     do { m \<leftarrow> onewire_wait (neorv32_onewire_reset m); Some (neorv32_onewire_reset_get_presence m) }"

definition neorv32_onewire_read_bit_blocking :: "mach \<Rightarrow> (u8 \<times> mach) option" where
  "neorv32_onewire_read_bit_blocking m =
     do { m \<leftarrow> onewire_wait (neorv32_onewire_read_bit m); Some (neorv32_onewire_read_bit_get m) }"

definition neorv32_onewire_write_bit_blocking :: "u8 \<Rightarrow> mach \<Rightarrow> mach option" where
  "neorv32_onewire_write_bit_blocking b m =
     do { m \<leftarrow> onewire_wait (neorv32_onewire_write_bit b m); Some (snd (neorv32_onewire_read_byte_get m)) }"

definition neorv32_onewire_read_byte_blocking :: "mach \<Rightarrow> (u8 \<times> mach) option" where
  "neorv32_onewire_read_byte_blocking m =
     do { m \<leftarrow> onewire_wait (neorv32_onewire_read_byte m); Some (neorv32_onewire_read_byte_get m) }"

definition neorv32_onewire_write_byte_blocking :: "u8 \<Rightarrow> mach \<Rightarrow> mach option" where
  "neorv32_onewire_write_byte_blocking byte m =
     do { m \<leftarrow> onewire_wait (neorv32_onewire_write_byte byte m); Some (snd (neorv32_onewire_read_byte_get m)) }"

section \<open>Facts\<close>

lemma onewire_regs_distinct [simp]: "ONEWIRE_CTRL \<noteq> ONEWIRE_DCMD" "ONEWIRE_DCMD \<noteq> ONEWIRE_CTRL"
  by (simp_all add: onewire_regs)

text \<open>A divider found is in range and the quotient of the two times, prescaler by prescaler.\<close>

lemma onewire_search_sound:
  assumes "onewire_search tc tb s = Some (sel, d)" "s \<le> 3"
  shows "s \<le> sel \<and> sel \<le> 3 \<and> 0 < d \<and> d \<le> 255 \<and> d = divu (4 * tb) (tc * (onewire_prsc_lut ! sel))"
  using assms
proof (induction tc tb s rule: onewire_search.induct)
  case (1 tc tb s)
  note unf = onewire_search.simps [of tc tb s, unfolded Let_def]
  define d0 where "d0 = divu (4 * tb) (tc * (onewire_prsc_lut ! s))"
  show ?case
  proof (cases "d0 > 0 \<and> d0 \<le> 255")
    case True
    then have "sel = s" "d = d0" using 1(2) by (auto simp: unf d0_def)
    with True 1(3) show ?thesis by (simp add: d0_def)
  next
    case False
    then have "s < 3" "onewire_search tc tb (s + 1) = Some (sel, d)"
      using 1(2) by (auto simp: unf d0_def split: if_splits)
    with 1(1) [OF refl refl] False show ?thesis by (auto simp: d0_def)
  qed
qed

end
