(* ===== verification/Onewire_Rtl.thy ===== *)
theory Onewire_Rtl
  imports Onewire
begin

text \<open>
  The 1-wire controller of \<^verbatim>\<open>rtl/core/neorv32_onewire.vhd\<close>: control register, command and answer
  FIFOs, and a serial engine that turns a command into time slots or a reset pulse on the wire.
  What the devices on the wire do in a slot and after a pulse is a parameter.  The timing of a slot
  is not modelled: \<open>gap n\<close> commands are completed between the \<open>n\<close>-th access and the next.
\<close>

section \<open>The controller\<close>

text \<open>In a slot the controller holds the wire low for a zero and releases it early for a one, and
samples the wire.  A pulse resets the devices, and the wire shows whether there are any.\<close>

record 'l ow_conf =
  wire_slot :: "bool \<Rightarrow> 'l \<Rightarrow> bool \<times> 'l"
  wire_pulse :: "'l \<Rightarrow> bool \<times> 'l"
  ow_depth :: nat

record 'l ow_hw =
  ow_line :: 'l
  ow_pres :: bool
  ow_en :: bool
  ow_tx :: "u32 list"
  ow_rx :: "(bool \<times> u8) list"

text \<open>The shift register takes each sample at its top end; the lowest bit goes to the wire.\<close>

fun ow_shift :: "'l ow_conf \<Rightarrow> nat \<Rightarrow> u8 \<Rightarrow> 'l \<Rightarrow> u8 \<times> 'l" where
  "ow_shift C 0 s l = (s, l)"
| "ow_shift C (Suc n) s l =
     (let (b, l) = wire_slot C (bit s 0) l
      in ow_shift C n (drop_bit 1 s OR (if b then 0x80 else 0)) l)"

definition ow_answer :: "'l ow_conf \<Rightarrow> u8 \<Rightarrow> 'l ow_hw \<Rightarrow> 'l ow_hw" where
  "ow_answer C s d = (if List.length (ow_rx d) < ow_depth C then d\<lparr>ow_rx := ow_rx d @ [(ow_pres d, s)]\<rparr> else d)"

text \<open>The presence bit is the inverted sample of the wire: one when some device pulls it low.\<close>

definition ow_exec :: "'l ow_conf \<Rightarrow> u32 \<Rightarrow> 'l ow_hw \<Rightarrow> 'l ow_hw" where
  "ow_exec C w d =
     (let cmd = field (onewire_dcmd ONEWIRE_DCMD_CMD_LO) 2 w;
          data = ucast (field (onewire_dcmd ONEWIRE_DCMD_DATA_LSB) 8 w)
      in if cmd = ONEWIRE_CMD_BIT then let (s, l) = ow_shift C 1 data (ow_line d) in ow_answer C s (d\<lparr>ow_line := l\<rparr>)
         else if cmd = ONEWIRE_CMD_BYTE then let (s, l) = ow_shift C 8 data (ow_line d) in ow_answer C s (d\<lparr>ow_line := l\<rparr>)
         else if cmd = ONEWIRE_CMD_RESET then
           let (p, l) = wire_pulse C (ow_line d) in ow_answer C data (d\<lparr>ow_line := l, ow_pres := p\<rparr>)
         else d)"

definition ow_step :: "'l ow_conf \<Rightarrow> 'l ow_hw \<Rightarrow> 'l ow_hw" where
  "ow_step C d = (case ow_tx d of [] \<Rightarrow> d | w # ws \<Rightarrow> ow_exec C w (d\<lparr>ow_tx := ws\<rparr>))"

definition ow_access :: "'l ow_conf \<Rightarrow> event \<Rightarrow> 'l ow_hw \<Rightarrow> 'l ow_hw" where
  "ow_access C e d = (case e of
     Wr l v \<Rightarrow>
       if l = ONEWIRE_CTRL then
         let d = d\<lparr>ow_en := bit v (onewire_ctrl ONEWIRE_CTRL_EN)\<rparr>;
             d = (if \<not> ow_en d \<or> bit v (onewire_ctrl ONEWIRE_CTRL_CLEAR) then d\<lparr>ow_tx := [], ow_rx := []\<rparr> else d)
         in if ow_en d then d else d\<lparr>ow_pres := False\<rparr>
       else if l = ONEWIRE_DCMD \<and> ow_en d \<and> List.length (ow_tx d) < ow_depth C then d\<lparr>ow_tx := ow_tx d @ [v]\<rparr>
       else d
   | Rd l v \<Rightarrow> if l = ONEWIRE_DCMD then d\<lparr>ow_rx := tl (ow_rx d)\<rparr> else d
   | _ \<Rightarrow> d)"

fun ow_state :: "'l ow_conf \<Rightarrow> (nat \<Rightarrow> nat) \<Rightarrow> 'l ow_hw \<Rightarrow> event list \<Rightarrow> 'l ow_hw" where
  "ow_state C gap init [] = init"
| "ow_state C gap init (e # h) = (ow_step C ^^ gap (List.length h)) (ow_access C e (ow_state C gap init h))"

definition ow_rtl :: "'l ow_conf \<Rightarrow> (nat \<Rightarrow> nat) \<Rightarrow> 'l ow_hw \<Rightarrow> (event list \<Rightarrow> loc \<Rightarrow> u32) \<Rightarrow> event list \<Rightarrow> loc \<Rightarrow> u32" where
  "ow_rtl C gap init rest h l =
     (if l = ONEWIRE_CTRL then
        (rest h l AND NOT (BIT (onewire_ctrl ONEWIRE_CTRL_BUSY)))
          OR (if ow_tx (ow_state C gap init h) \<noteq> [] then BIT (onewire_ctrl ONEWIRE_CTRL_BUSY) else 0)
      else if l = ONEWIRE_DCMD then
        (case ow_rx (ow_state C gap init h) of
           [] \<Rightarrow> rest h l
         | (p, s) # _ \<Rightarrow> ucast s OR (if p then BIT (onewire_dcmd ONEWIRE_DCMD_PRESENCE) else 0))
      else rest h l)"

section \<open>One command\<close>

text \<open>The controller on a machine, its state so far, and a state in which it has nothing to do.\<close>

definition ow_on :: "'l ow_conf \<Rightarrow> (nat \<Rightarrow> nat) \<Rightarrow> 'l ow_hw \<Rightarrow> (event list \<Rightarrow> loc \<Rightarrow> u32) \<Rightarrow> 'l ow_hw \<Rightarrow> mach \<Rightarrow> bool" where
  "ow_on C gap init rest d m \<longleftrightarrow> hw m = ow_rtl C gap init rest \<and> ow_state C gap init (log m) = d
     \<and> 0 < ow_depth C \<and> (\<forall>n. \<exists>k\<ge>n. 0 < gap k)"

definition ow_ready :: "'l ow_hw \<Rightarrow> bool" where
  "ow_ready d \<longleftrightarrow> ow_en d \<and> ow_tx d = [] \<and> ow_rx d = []"

lemma ow_step_nil: "ow_tx d = [] \<Longrightarrow> (ow_step C ^^ n) d = d"
  by (induction n) (simp_all add: ow_step_def)

lemma ow_exec_fields [simp]: "ow_tx (ow_exec C w d) = ow_tx d" "ow_en (ow_exec C w d) = ow_en d"
  by (simp_all add: ow_exec_def ow_answer_def Let_def split: prod.split)

lemma ow_steps_one:
  "ow_tx d = [] \<Longrightarrow> (ow_step C ^^ n) (d\<lparr>ow_tx := [w]\<rparr>) = (if n = 0 then d\<lparr>ow_tx := [w]\<rparr> else ow_exec C w d)"
proof (induction n)
  case (Suc n)
  have "ow_step C (d\<lparr>ow_tx := [w]\<rparr>) = ow_exec C w (d\<lparr>ow_tx := []\<rparr>)" by (simp add: ow_step_def)
  moreover have "d\<lparr>ow_tx := []\<rparr> = d" using Suc.prems by simp
  ultimately have "ow_step C (d\<lparr>ow_tx := [w]\<rparr>) = ow_exec C w d" by simp
  moreover have "ow_tx (ow_exec C w d) = []" using Suc.prems by simp
  ultimately show ?case using ow_step_nil [of "ow_exec C w d" n C] by (simp add: funpow_swap1)
qed simp

text \<open>A command under way: still in the queue, or done.\<close>

definition ow_busy :: "'l ow_conf \<Rightarrow> (nat \<Rightarrow> nat) \<Rightarrow> 'l ow_hw \<Rightarrow> (event list \<Rightarrow> loc \<Rightarrow> u32) \<Rightarrow> u32 \<Rightarrow> 'l ow_hw \<Rightarrow> mach \<Rightarrow> bool" where
  "ow_busy C gap init rest w d m \<longleftrightarrow> ow_tx d = [] \<and>
     (ow_on C gap init rest (d\<lparr>ow_tx := [w]\<rparr>) m \<or> ow_on C gap init rest (ow_exec C w d) m)"

lemma ow_state_poll:
  "ow_state C gap init (log (snd (rd ONEWIRE_CTRL m))) = (ow_step C ^^ gap (List.length (log m))) (ow_state C gap init (log m))"
  by (simp add: rd_def ow_access_def)

lemma ow_on_poll:
  "ow_on C gap init rest d m \<Longrightarrow> ow_on C gap init rest ((ow_step C ^^ gap (List.length (log m))) d) (snd (rd ONEWIRE_CTRL m))"
  unfolding ow_on_def using ow_state_poll by auto

lemma ow_busy_poll: "ow_busy C gap init rest w d m \<Longrightarrow> ow_busy C gap init rest w d (snd (rd ONEWIRE_CTRL m))"
  using ow_on_poll [of C gap init rest "d\<lparr>ow_tx := [w]\<rparr>" m] ow_on_poll [of C gap init rest "ow_exec C w d" m]
    ow_step_nil [of "ow_exec C w d" _ C] ow_steps_one [of d "gap (List.length (log m))" C w]
  by (auto simp: ow_busy_def split: if_splits)

lemma ow_ctrl_busy:
  assumes "ow_on C gap init rest d m"
  shows "rd_val ONEWIRE_CTRL m AND BIT (onewire_ctrl ONEWIRE_CTRL_BUSY) \<noteq> 0 \<longleftrightarrow> ow_tx d \<noteq> []"
  using assms by (auto simp: ow_on_def rd_val_def ow_rtl_def bit_simps)

lemma ow_busy_ends:
  assumes "ow_busy C gap init rest w d m"
  shows "\<exists>n. ow_on C gap init rest (ow_exec C w d) (rds ONEWIRE_CTRL n m)"
proof (cases "ow_on C gap init rest (ow_exec C w d) m")
  case True
  then show ?thesis by (intro exI [of _ 0]) simp
next
  case False
  then have q: "ow_tx d = []" "ow_on C gap init rest (d\<lparr>ow_tx := [w]\<rparr>) m" using assms by (auto simp: ow_busy_def)
  then obtain k where k: "List.length (log m) \<le> k" "0 < gap k" by (auto simp: ow_on_def)
  have "ow_on C gap init rest (ow_exec C w d) (rds ONEWIRE_CTRL (Suc n) m)"
    if "0 < gap (List.length (log m) + n)" "\<forall>i<n. gap (List.length (log m) + i) = 0" for n
    using q(2) that
  proof (induction n arbitrary: m)
    case 0
    then show ?case using ow_on_poll [OF 0(1)] ow_steps_one [OF q(1)] by (simp add: rds_Suc)
  next
    case (Suc n)
    have z: "gap (List.length (log m)) = 0" using Suc.prems(3) by force
    have "ow_on C gap init rest (d\<lparr>ow_tx := [w]\<rparr>) (snd (rd ONEWIRE_CTRL m))"
      using ow_on_poll [OF Suc.prems(1)] z by simp
    moreover have "List.length (log (snd (rd ONEWIRE_CTRL m))) = Suc (List.length (log m))" by (simp add: rd_def)
    moreover have "\<forall>i<n. gap (Suc (List.length (log m)) + i) = 0" using Suc.prems(3) by force
    ultimately show ?case using Suc.IH [of "snd (rd ONEWIRE_CTRL m)"] Suc.prems(2) by (simp add: rds_Suc)
  qed
  moreover obtain n where "0 < gap (List.length (log m) + n)" "\<forall>i<n. gap (List.length (log m) + i) = 0"
    using k ex_least_nat_le [of "\<lambda>n. 0 < gap (List.length (log m) + n)" "k - List.length (log m)"] by fastforce
  ultimately show ?thesis by blast
qed

text \<open>The controller as a device that becomes ready.\<close>

interpretation ow_device: ready_device "ow_busy C gap init rest w d" ONEWIRE_CTRL
  "\<lambda>v. v AND BIT (onewire_ctrl ONEWIRE_CTRL_BUSY) \<noteq> 0" for C gap init rest w d
proof (unfold_locales, goal_cases)
  case (1 m) then show ?case by (rule ow_busy_poll)
next
  case (2 m)
  then obtain n where "ow_on C gap init rest (ow_exec C w d) (rds ONEWIRE_CTRL n m)" using ow_busy_ends by blast
  moreover have "ow_tx (ow_exec C w d) = []" using 2 by (simp add: ow_busy_def)
  ultimately show ?case using ow_ctrl_busy by blast
qed

text \<open>A command is written, awaited, and its answer read.\<close>

lemma ow_command_waits:
  assumes "ow_on C gap init rest d m" "ow_ready d"
  shows "\<exists>m'. onewire_wait (wr ONEWIRE_DCMD w m) = Some m' \<and> ow_on C gap init rest (ow_exec C w d) m'"
proof -
  have r: "ow_en d" "ow_tx d = []" "ow_rx d = []" using assms(2) by (simp_all add: ow_ready_def)
  have "ow_access C (Wr ONEWIRE_DCMD w) d = d\<lparr>ow_tx := [w]\<rparr>"
    using r assms(1) by (simp add: ow_access_def ow_on_def)
  then have "ow_busy C gap init rest w d (wr ONEWIRE_DCMD w m)"
    using assms(1) r ow_steps_one [of d "gap (List.length (log m))" C w]
    by (auto simp: ow_busy_def ow_on_def wr_def)
  from ow_device.poll_returns [OF this] obtain m' n where m': "onewire_wait (wr ONEWIRE_DCMD w m) = Some m'"
    "ow_busy C gap init rest w d m'" and n: "m' = rds ONEWIRE_CTRL (Suc n) (wr ONEWIRE_DCMD w m)"
    "\<not> (rd_val ONEWIRE_CTRL (rds ONEWIRE_CTRL n (wr ONEWIRE_DCMD w m)) AND BIT (onewire_ctrl ONEWIRE_CTRL_BUSY) \<noteq> 0)"
    unfolding onewire_wait_def by blast
  let ?n = "rds ONEWIRE_CTRL n (wr ONEWIRE_DCMD w m)"
  have "ow_busy C gap init rest w d ?n" by (rule ow_device.ok_rds) fact
  then have "ow_on C gap init rest (ow_exec C w d) ?n"
    using n(2) ow_ctrl_busy [of C gap init rest "d\<lparr>ow_tx := [w]\<rparr>" ?n] by (auto simp: ow_busy_def)
  from ow_on_poll [OF this] have "ow_on C gap init rest (ow_exec C w d) m'"
    using ow_step_nil [of "ow_exec C w d" _ C] r(2) n(1) by (simp add: rds_snoc del: rds_Suc)
  with m'(1) show ?thesis by blast
qed

lemma ow_answer_read:
  assumes "ow_on C gap init rest d m" "ow_tx d = []" "ow_rx d = [(p, s)]"
  shows "rd_val ONEWIRE_DCMD m = ucast s OR (if p then BIT (onewire_dcmd ONEWIRE_DCMD_PRESENCE) else 0)"
    and "ow_on C gap init rest (d\<lparr>ow_rx := []\<rparr>) (snd (rd ONEWIRE_DCMD m))"
proof -
  show "rd_val ONEWIRE_DCMD m = ucast s OR (if p then BIT (onewire_dcmd ONEWIRE_DCMD_PRESENCE) else 0)"
    using assms(1,3) onewire_regs_distinct by (simp add: ow_on_def rd_val_def ow_rtl_def)
  have "ow_access C (Rd ONEWIRE_DCMD v) d = d\<lparr>ow_rx := []\<rparr>" for v using assms(3) by (simp add: ow_access_def)
  then show "ow_on C gap init rest (d\<lparr>ow_rx := []\<rparr>) (snd (rd ONEWIRE_DCMD m))"
    using assms(1) ow_step_nil [of "d\<lparr>ow_rx := []\<rparr>" _ C] assms(2) by (auto simp: ow_on_def rd_def)
qed

section \<open>The operations of the driver\<close>

text \<open>The controller enabled, with nothing to do, and the devices in state \<open>l\<close>.\<close>

definition ow_wire :: "'l ow_conf \<Rightarrow> (nat \<Rightarrow> nat) \<Rightarrow> 'l ow_hw \<Rightarrow> (event list \<Rightarrow> loc \<Rightarrow> u32) \<Rightarrow> 'l \<Rightarrow> mach \<Rightarrow> bool" where
  "ow_wire C gap init rest l m \<longleftrightarrow> (\<exists>p. ow_on C gap init rest \<lparr>ow_line = l, ow_pres = p, ow_en = True, ow_tx = [], ow_rx = []\<rparr> m)"

lemma ow_command:
  assumes "ow_wire C gap init rest l m"
    and "\<And>p. \<exists>p'. ow_exec C w \<lparr>ow_line = l, ow_pres = p, ow_en = True, ow_tx = [], ow_rx = []\<rparr>
      = \<lparr>ow_line = l', ow_pres = p', ow_en = True, ow_tx = [], ow_rx = [(p', s)]\<rparr>
      \<and> (field (onewire_dcmd ONEWIRE_DCMD_CMD_LO) 2 w = ONEWIRE_CMD_RESET \<longrightarrow> p' = q)"
  shows "\<exists>m'. onewire_wait (wr ONEWIRE_DCMD w m) = Some m'
    \<and> (\<exists>p. rd_val ONEWIRE_DCMD m' = ucast s OR (if p then BIT (onewire_dcmd ONEWIRE_DCMD_PRESENCE) else 0)
        \<and> (field (onewire_dcmd ONEWIRE_DCMD_CMD_LO) 2 w = ONEWIRE_CMD_RESET \<longrightarrow> p = q))
    \<and> ow_wire C gap init rest l' (snd (rd ONEWIRE_DCMD m'))"
proof -
  from assms(1) obtain p where o: "ow_on C gap init rest \<lparr>ow_line = l, ow_pres = p, ow_en = True, ow_tx = [], ow_rx = []\<rparr> m"
    by (auto simp: ow_wire_def)
  from assms(2) obtain p' where e: "ow_exec C w \<lparr>ow_line = l, ow_pres = p, ow_en = True, ow_tx = [], ow_rx = []\<rparr>
      = \<lparr>ow_line = l', ow_pres = p', ow_en = True, ow_tx = [], ow_rx = [(p', s)]\<rparr>"
    and q: "field (onewire_dcmd ONEWIRE_DCMD_CMD_LO) 2 w = ONEWIRE_CMD_RESET \<longrightarrow> p' = q" by blast
  from ow_command_waits [OF o, of w] obtain m' where m': "onewire_wait (wr ONEWIRE_DCMD w m) = Some m'"
    "ow_on C gap init rest \<lparr>ow_line = l', ow_pres = p', ow_en = True, ow_tx = [], ow_rx = [(p', s)]\<rparr> m'"
    unfolding e by (auto simp: ow_ready_def)
  from ow_answer_read [OF this(2)] have
    "rd_val ONEWIRE_DCMD m' = ucast s OR (if p' then BIT (onewire_dcmd ONEWIRE_DCMD_PRESENCE) else 0)"
    "ow_on C gap init rest \<lparr>ow_line = l', ow_pres = p', ow_en = True, ow_tx = [], ow_rx = []\<rparr> (snd (rd ONEWIRE_DCMD m'))"
    by simp_all
  then show ?thesis using m'(1) q by (auto simp: ow_wire_def)
qed

lemma ow_words:
  "field (onewire_dcmd ONEWIRE_DCMD_CMD_LO) 2 (onewire_dcmd_word c (ucast (v :: u8))) = take_bit 2 c"
  "ucast (field (onewire_dcmd ONEWIRE_DCMD_DATA_LSB) 8 (onewire_dcmd_word c (ucast v))) = v"
proof -
  have n: "\<not> bit v (8 + n)" for n using bit_imp_le_length [of v "8 + n"] by auto
  show "field (onewire_dcmd ONEWIRE_DCMD_CMD_LO) 2 (onewire_dcmd_word c (ucast v)) = take_bit 2 c"
    by (rule bit_word_eqI) (auto simp: onewire_dcmd_word_def bit_simps n)
  show "ucast (field (onewire_dcmd ONEWIRE_DCMD_DATA_LSB) 8 (onewire_dcmd_word c (ucast v))) = v"
    by (rule bit_word_eqI) (auto simp: onewire_dcmd_word_def bit_simps)
qed

lemma ow_reset_word:
  "push_bit (onewire_dcmd ONEWIRE_DCMD_CMD_LO) ONEWIRE_CMD_RESET = onewire_dcmd_word ONEWIRE_CMD_RESET (ucast (0 :: u8))"
  by (simp add: onewire_dcmd_word_def)

lemmas ow_cmds = ONEWIRE_CMD_BIT_def ONEWIRE_CMD_BYTE_def ONEWIRE_CMD_RESET_def

lemma ow_shift_1: "ow_shift C 1 s l = (drop_bit 1 s OR (if fst (wire_slot C (bit s 0) l) then 0x80 else 0),
    snd (wire_slot C (bit s 0) l))"
  by (simp add: split_beta Let_def)

lemma ow_exec_bit:
  "ow_exec C (onewire_dcmd_word ONEWIRE_CMD_BIT (ucast v)) d
    = ow_answer C (drop_bit 1 v OR (if fst (wire_slot C (bit v 0) (ow_line d)) then 0x80 else 0))
        (d\<lparr>ow_line := snd (wire_slot C (bit v 0) (ow_line d))\<rparr>)"
  unfolding ow_exec_def ow_words Let_def by (simp add: ow_cmds split_beta)

lemma ow_exec_byte:
  "ow_exec C (onewire_dcmd_word ONEWIRE_CMD_BYTE (ucast v)) d
    = ow_answer C (fst (ow_shift C 8 v (ow_line d))) (d\<lparr>ow_line := snd (ow_shift C 8 v (ow_line d))\<rparr>)"
  unfolding ow_exec_def ow_words Let_def by (simp add: ow_cmds split_beta)

lemma ow_exec_reset:
  "ow_exec C (onewire_dcmd_word ONEWIRE_CMD_RESET (ucast v)) d
    = ow_answer C v (d\<lparr>ow_line := snd (wire_pulse C (ow_line d)), ow_pres := fst (wire_pulse C (ow_line d))\<rparr>)"
  unfolding ow_exec_def ow_words Let_def by (simp add: ow_cmds split_beta)

lemma ow_depth_pos: "ow_wire C gap init rest l m \<Longrightarrow> 0 < ow_depth C"
  by (auto simp: ow_wire_def ow_on_def)

lemma ow_not_reset:
  "field (onewire_dcmd ONEWIRE_DCMD_CMD_LO) 2 (onewire_dcmd_word ONEWIRE_CMD_BIT (ucast (v :: u8))) \<noteq> ONEWIRE_CMD_RESET"
  "field (onewire_dcmd ONEWIRE_DCMD_CMD_LO) 2 (onewire_dcmd_word ONEWIRE_CMD_BYTE (ucast v)) \<noteq> ONEWIRE_CMD_RESET"
  unfolding ow_words by (simp_all add: ow_cmds)

lemma ow_bit_command:
  fixes v :: u8
  assumes "ow_wire C gap init rest l m"
  shows "\<exists>m'. onewire_wait (wr ONEWIRE_DCMD (onewire_dcmd_word ONEWIRE_CMD_BIT (ucast v)) m) = Some m'
    \<and> (bit (rd_val ONEWIRE_DCMD m') 7 \<longleftrightarrow> fst (wire_slot C (bit v 0) l))
    \<and> ow_wire C gap init rest (snd (wire_slot C (bit v 0) l)) (snd (rd ONEWIRE_DCMD m'))"
proof -
  let ?s = "drop_bit 1 v OR (if fst (wire_slot C (bit v 0) l) then 0x80 else 0)"
  have "\<exists>m'. onewire_wait (wr ONEWIRE_DCMD (onewire_dcmd_word ONEWIRE_CMD_BIT (ucast v)) m) = Some m'
    \<and> (\<exists>p. rd_val ONEWIRE_DCMD m' = ucast ?s OR (if p then BIT (onewire_dcmd ONEWIRE_DCMD_PRESENCE) else 0)
        \<and> (field (onewire_dcmd ONEWIRE_DCMD_CMD_LO) 2 (onewire_dcmd_word ONEWIRE_CMD_BIT (ucast v)) = ONEWIRE_CMD_RESET \<longrightarrow> p = False))
    \<and> ow_wire C gap init rest (snd (wire_slot C (bit v 0) l)) (snd (rd ONEWIRE_DCMD m'))"
    by (rule ow_command [OF assms]) (use ow_depth_pos [OF assms] ow_not_reset(1) in \<open>simp add: ow_exec_bit ow_answer_def\<close>)
  then obtain m' p where m': "onewire_wait (wr ONEWIRE_DCMD (onewire_dcmd_word ONEWIRE_CMD_BIT (ucast v)) m) = Some m'"
    "rd_val ONEWIRE_DCMD m' = ucast ?s OR (if p then BIT (onewire_dcmd ONEWIRE_DCMD_PRESENCE) else 0)"
    "ow_wire C gap init rest (snd (wire_slot C (bit v 0) l)) (snd (rd ONEWIRE_DCMD m'))" by blast
  have "\<not> bit v 8" using bit_imp_le_length [of v 8] by auto
  then have "bit (rd_val ONEWIRE_DCMD m') 7 \<longleftrightarrow> fst (wire_slot C (bit v 0) l)"
    unfolding m'(2) by (auto simp: bit_simps)
  with m' show ?thesis by blast
qed

lemma ow_byte_command:
  fixes v :: u8
  assumes "ow_wire C gap init rest l m"
  shows "\<exists>m'. onewire_wait (wr ONEWIRE_DCMD (onewire_dcmd_word ONEWIRE_CMD_BYTE (ucast v)) m) = Some m'
    \<and> ucast (rd_val ONEWIRE_DCMD m') = fst (ow_shift C 8 v l)
    \<and> ow_wire C gap init rest (snd (ow_shift C 8 v l)) (snd (rd ONEWIRE_DCMD m'))"
proof -
  let ?s = "fst (ow_shift C 8 v l)"
  have "\<exists>m'. onewire_wait (wr ONEWIRE_DCMD (onewire_dcmd_word ONEWIRE_CMD_BYTE (ucast v)) m) = Some m'
    \<and> (\<exists>p. rd_val ONEWIRE_DCMD m' = ucast ?s OR (if p then BIT (onewire_dcmd ONEWIRE_DCMD_PRESENCE) else 0)
        \<and> (field (onewire_dcmd ONEWIRE_DCMD_CMD_LO) 2 (onewire_dcmd_word ONEWIRE_CMD_BYTE (ucast v)) = ONEWIRE_CMD_RESET \<longrightarrow> p = False))
    \<and> ow_wire C gap init rest (snd (ow_shift C 8 v l)) (snd (rd ONEWIRE_DCMD m'))"
    by (rule ow_command [OF assms]) (use ow_depth_pos [OF assms] ow_not_reset(2) in \<open>simp add: ow_exec_byte ow_answer_def\<close>)
  then obtain m' p where m': "onewire_wait (wr ONEWIRE_DCMD (onewire_dcmd_word ONEWIRE_CMD_BYTE (ucast v)) m) = Some m'"
    "rd_val ONEWIRE_DCMD m' = ucast ?s OR (if p then BIT (onewire_dcmd ONEWIRE_DCMD_PRESENCE) else 0)"
    "ow_wire C gap init rest (snd (ow_shift C 8 v l)) (snd (rd ONEWIRE_DCMD m'))" by blast
  have "ucast (rd_val ONEWIRE_DCMD m') = ?s"
    unfolding m'(2) by (rule bit_word_eqI) (auto simp: bit_simps)
  with m' show ?thesis by blast
qed

lemma ow_reset_command:
  assumes "ow_wire C gap init rest l m"
  shows "\<exists>m'. neorv32_onewire_reset_blocking m = Some (m')
    \<and> (fst m' \<noteq> 0 \<longleftrightarrow> fst (wire_pulse C l)) \<and> ow_wire C gap init rest (snd (wire_pulse C l)) (snd m')"
proof -
  let ?w = "onewire_dcmd_word ONEWIRE_CMD_RESET (ucast (0 :: u8))" and ?q = "fst (wire_pulse C l)"
  have "\<exists>m'. onewire_wait (wr ONEWIRE_DCMD ?w m) = Some m'
    \<and> (\<exists>p. rd_val ONEWIRE_DCMD m' = ucast (0 :: u8) OR (if p then BIT (onewire_dcmd ONEWIRE_DCMD_PRESENCE) else 0)
        \<and> (field (onewire_dcmd ONEWIRE_DCMD_CMD_LO) 2 ?w = ONEWIRE_CMD_RESET \<longrightarrow> p = ?q))
    \<and> ow_wire C gap init rest (snd (wire_pulse C l)) (snd (rd ONEWIRE_DCMD m'))"
    by (rule ow_command [OF assms], unfold ow_exec_reset) (use ow_depth_pos [OF assms] in \<open>simp add: ow_answer_def\<close>)
  moreover have "field (onewire_dcmd ONEWIRE_DCMD_CMD_LO) 2 ?w = ONEWIRE_CMD_RESET"
    unfolding ow_words by (simp add: ow_cmds)
  ultimately obtain m' where m': "onewire_wait (neorv32_onewire_reset m) = Some m'"
    "rd_val ONEWIRE_DCMD m' = ucast (0 :: u8) OR (if ?q then BIT (onewire_dcmd ONEWIRE_DCMD_PRESENCE) else 0)"
    "ow_wire C gap init rest (snd (wire_pulse C l)) (snd (rd ONEWIRE_DCMD m'))"
    unfolding neorv32_onewire_reset_def ow_reset_word by blast
  have "rd_val ONEWIRE_DCMD m' AND BIT (onewire_dcmd ONEWIRE_DCMD_PRESENCE) \<noteq> 0 \<longleftrightarrow> ?q"
    unfolding m'(2) by (simp add: bit_simps)
  then show ?thesis using m'(1,3)
    by (simp add: neorv32_onewire_reset_blocking_def neorv32_onewire_reset_get_presence_def reg_test_def rd_def)
qed

lemma ow_ones: "(0xff :: u32) = ucast (0xff :: u8)" "(0 :: u32) = ucast (0 :: u8)"
  by simp_all

lemma read_bit_effect:
  assumes "ow_wire C gap init rest l m"
  shows "\<exists>m'. neorv32_onewire_read_bit_blocking m = Some (if fst (wire_slot C True l) then 1 else 0, m')
    \<and> ow_wire C gap init rest (snd (wire_slot C True l)) m'"
proof -
  have "bit (0xff :: u8) 0" by simp
  with ow_bit_command [OF assms, of "0xff", folded ow_ones] obtain m' where
    m': "onewire_wait (neorv32_onewire_read_bit m) = Some m'" "bit (rd_val ONEWIRE_DCMD m') 7 \<longleftrightarrow> fst (wire_slot C True l)"
    "ow_wire C gap init rest (snd (wire_slot C True l)) (snd (rd ONEWIRE_DCMD m'))"
    unfolding neorv32_onewire_read_bit_def by auto
  have "neorv32_onewire_read_bit_get m' = (if fst (wire_slot C True l) then 1 else 0, snd (rd ONEWIRE_DCMD m'))"
    using m'(2) by (simp add: neorv32_onewire_read_bit_get_def reg_test_def rd_def)
  then show ?thesis using m'(1,3) by (simp add: neorv32_onewire_read_bit_blocking_def)
qed

lemma write_bit_effect:
  assumes "ow_wire C gap init rest l m"
  shows "\<exists>m'. neorv32_onewire_write_bit_blocking (if b then 1 else 0) m = Some m'
    \<and> ow_wire C gap init rest (snd (wire_slot C b l)) m'"
proof -
  let ?v = "if b then 0xff else 0 :: u8"
  have v: "bit ?v 0 = b" by simp
  have w: "neorv32_onewire_write_bit (if b then 1 else 0) m = wr ONEWIRE_DCMD (onewire_dcmd_word ONEWIRE_CMD_BIT (ucast ?v)) m"
    by (simp add: neorv32_onewire_write_bit_def)
  from ow_bit_command [OF assms, of ?v, folded w, unfolded v] obtain m' where
    m': "onewire_wait (neorv32_onewire_write_bit (if b then 1 else 0) m) = Some m'"
    "ow_wire C gap init rest (snd (wire_slot C b l)) (snd (rd ONEWIRE_DCMD m'))" by blast
  then show ?thesis by (simp add: neorv32_onewire_write_bit_blocking_def neorv32_onewire_read_byte_get_def rd_def)
qed

lemma write_byte_effect:
  assumes "ow_wire C gap init rest l m"
  shows "\<exists>m'. neorv32_onewire_write_byte_blocking v m = Some m' \<and> ow_wire C gap init rest (snd (ow_shift C 8 v l)) m'"
proof -
  from ow_byte_command [OF assms, of v] obtain m' where
    m': "onewire_wait (neorv32_onewire_write_byte v m) = Some m'"
    "ow_wire C gap init rest (snd (ow_shift C 8 v l)) (snd (rd ONEWIRE_DCMD m'))"
    unfolding neorv32_onewire_write_byte_def by blast
  then show ?thesis by (simp add: neorv32_onewire_write_byte_blocking_def neorv32_onewire_read_byte_get_def rd_def)
qed

end
