(* ===== verification/Onewire_Search.thy ===== *)
theory Onewire_Search
  imports Onewire_Rtl
begin

text \<open>
  The search for the devices on a 1-wire bus, \<^verbatim>\<open>demo_onewire/onewire_aux.h\<close>.  Every device has
  a code of eight bytes.  In a search all devices send their next bit, then its complement, and the
  controller answers with a bit that the devices who do not share leave the search on.  Where both
  values are present the search takes the one of the last call up to the last place it took a zero
  there, a one at that place, and zeros after it.
\<close>

section \<open>State\<close>

record ow_search =
  ROM_NO :: "u8 list"
  LastDiscrepancy :: int
  LastFamilyDiscrepancy :: int
  LastDeviceFlag :: bool
  crc8 :: u8

definition dscrc_table :: "u8 list" where
  "dscrc_table =
    [
     0, 94, 188, 226, 97, 63, 221, 131, 194, 156, 126, 32, 163, 253, 31, 65,
     157, 195, 33, 127, 252, 162, 64, 30, 95, 1, 227, 189, 62, 96, 130, 220,
     35, 125, 159, 193, 66, 28, 254, 160, 225, 191, 93, 3, 128, 222, 60, 98,
     190, 224, 2, 92, 223, 129, 99, 61, 124, 34, 192, 158, 29, 67, 161, 255,
     70, 24, 250, 164, 39, 121, 155, 197, 132, 218, 56, 102, 229, 187, 89, 7,
     219, 133, 103, 57, 186, 228, 6, 88, 25, 71, 165, 251, 120, 38, 196, 154,
     101, 59, 217, 135, 4, 90, 184, 230, 167, 249, 27, 69, 198, 152, 122, 36,
     248, 166, 68, 26, 153, 199, 37, 123, 58, 100, 134, 216, 91, 5, 231, 185,
     140, 210, 48, 110, 237, 179, 81, 15, 78, 16, 242, 172, 47, 113, 147, 205,
     17, 79, 173, 243, 112, 46, 204, 146, 211, 141, 111, 49, 178, 236, 14, 80,
     175, 241, 19, 77, 206, 144, 114, 44, 109, 51, 209, 143, 12, 82, 176, 238,
     50, 108, 142, 208, 83, 13, 239, 177, 240, 174, 76, 18, 145, 207, 45, 115,
     202, 148, 118, 40, 171, 245, 23, 73, 8, 86, 180, 234, 105, 55, 213, 139,
     87, 9, 235, 181, 54, 104, 138, 212, 149, 203, 41, 119, 244, 170, 72, 22,
     233, 183, 85, 11, 136, 214, 52, 106, 43, 117, 151, 201, 74, 20, 246, 168,
     116, 42, 200, 150, 21, 75, 169, 247, 182, 232, 10, 84, 215, 137, 107, 53]"

definition docrc8 :: "u8 \<Rightarrow> ow_search \<Rightarrow> ow_search" where
  "docrc8 v g = g\<lparr>crc8 := dscrc_table ! unat (crc8 g XOR v)\<rparr>"

section \<open>Search\<close>

text \<open>The direction taken at a bit of which both values are present.\<close>

definition search_choice :: "ow_search \<Rightarrow> int \<Rightarrow> nat \<Rightarrow> u8 \<Rightarrow> bool" where
  "search_choice g id_bit_number rom_byte_number rom_byte_mask =
     (if id_bit_number < LastDiscrepancy g then ROM_NO g ! rom_byte_number AND rom_byte_mask > 0
      else id_bit_number = LastDiscrepancy g)"

definition rom_put :: "nat \<Rightarrow> u8 \<Rightarrow> bool \<Rightarrow> ow_search \<Rightarrow> ow_search" where
  "rom_put rom_byte_number rom_byte_mask search_direction g =
     g\<lparr>ROM_NO := (ROM_NO g)[rom_byte_number :=
        (if search_direction then ROM_NO g ! rom_byte_number OR rom_byte_mask
         else ROM_NO g ! rom_byte_number AND NOT rom_byte_mask)]\<rparr>"

definition search_decide :: "bool \<Rightarrow> bool \<Rightarrow> int \<Rightarrow> int \<Rightarrow> nat \<Rightarrow> u8 \<Rightarrow> ow_search \<Rightarrow> bool \<times> int \<times> ow_search" where
  "search_decide id_bit cmp_id_bit id_bit_number last_zero rom_byte_number rom_byte_mask g =
     (let search_direction = (if id_bit \<noteq> cmp_id_bit then id_bit
            else search_choice g id_bit_number rom_byte_number rom_byte_mask);
          zero = (id_bit = cmp_id_bit \<and> \<not> search_direction);
          last_zero = (if zero then id_bit_number else last_zero);
          g = (if zero \<and> last_zero < 9 then g\<lparr>LastFamilyDiscrepancy := last_zero\<rparr> else g)
      in (search_direction, last_zero, rom_put rom_byte_number rom_byte_mask search_direction g))"

text \<open>The next mask, and with it the next byte after a checksum step.\<close>

definition search_advance :: "nat \<Rightarrow> u8 \<Rightarrow> ow_search \<Rightarrow> nat \<times> u8 \<times> ow_search" where
  "search_advance rom_byte_number rom_byte_mask g =
     (let rom_byte_mask = push_bit 1 rom_byte_mask
      in if rom_byte_mask = 0 then (rom_byte_number + 1, 1, docrc8 (ROM_NO g ! rom_byte_number) g)
         else (rom_byte_number, rom_byte_mask, g))"

partial_function (option) search_loop ::
  "ow_search \<Rightarrow> int \<Rightarrow> int \<Rightarrow> nat \<Rightarrow> u8 \<Rightarrow> mach \<Rightarrow> (ow_search \<times> int \<times> int \<times> mach) option" where
  "search_loop g id_bit_number last_zero rom_byte_number rom_byte_mask m = do {
     (id_bit, m) \<leftarrow> neorv32_onewire_read_bit_blocking m;
     (cmp_id_bit, m) \<leftarrow> neorv32_onewire_read_bit_blocking m;
     if id_bit = 1 \<and> cmp_id_bit = 1 then Some (g, id_bit_number, last_zero, m)
     else do {
       let (search_direction, last_zero, g) = search_decide (id_bit = 1) (cmp_id_bit = 1) id_bit_number last_zero
             rom_byte_number rom_byte_mask g;
       m \<leftarrow> neorv32_onewire_write_bit_blocking (if search_direction then 1 else 0) m;
       let (rom_byte_number, rom_byte_mask, g) = search_advance rom_byte_number rom_byte_mask g;
       if rom_byte_number < 8 then search_loop g (id_bit_number + 1) last_zero rom_byte_number rom_byte_mask m
       else Some (g, id_bit_number + 1, last_zero, m)
     }
   }"

definition search_reset :: "ow_search \<Rightarrow> ow_search" where
  "search_reset g = g\<lparr>LastDiscrepancy := 0, LastDeviceFlag := False, LastFamilyDiscrepancy := 0\<rparr>"

text \<open>The end of a search: whether it was successful, and what the next one starts from.\<close>

definition search_result :: "ow_search \<Rightarrow> int \<Rightarrow> int \<Rightarrow> bool \<times> ow_search" where
  "search_result g id_bit_number last_zero =
     (let ok = (\<not> (id_bit_number < 65 \<or> crc8 g \<noteq> 0));
          g = (if ok then g\<lparr>LastDiscrepancy := last_zero, LastDeviceFlag := LastDeviceFlag g \<or> last_zero = 0\<rparr> else g)
      in if \<not> ok \<or> ROM_NO g ! 0 = 0 then (False, search_reset g) else (True, g))"

definition OWSearch :: "ow_search \<Rightarrow> mach \<Rightarrow> (bool \<times> ow_search \<times> mach) option" where
  "OWSearch g m = (let g = g\<lparr>crc8 := 0\<rparr> in
     if LastDeviceFlag g then Some (False, search_reset g, m)
     else do {
       (absent, m) \<leftarrow> neorv32_onewire_reset_blocking m;
       if absent \<noteq> 0 then Some (False, search_reset g, m)
       else do {
         m \<leftarrow> neorv32_onewire_write_byte_blocking 0xF0 m;
         (g, id_bit_number, last_zero, m) \<leftarrow> search_loop g 1 0 0 1 m;
         let (r, g) = search_result g id_bit_number last_zero;
         Some (r, g, m)
       }
     })"

definition OWFirst :: "ow_search \<Rightarrow> mach \<Rightarrow> (bool \<times> ow_search \<times> mach) option" where
  "OWFirst g m = OWSearch (g\<lparr>LastDiscrepancy := 0, LastDeviceFlag := False, LastFamilyDiscrepancy := 0\<rparr>) m"

definition OWNext :: "ow_search \<Rightarrow> mach \<Rightarrow> (bool \<times> ow_search \<times> mach) option" where
  "OWNext g m = OWSearch g m"

definition OWVerify :: "ow_search \<Rightarrow> mach \<Rightarrow> (bool \<times> ow_search \<times> mach) option" where
  "OWVerify g m = do {
     (found, g', m) \<leftarrow> OWSearch (g\<lparr>LastDiscrepancy := 64, LastDeviceFlag := False\<rparr>) m;
     let rslt = (found \<and> take 8 (ROM_NO g) = take 8 (ROM_NO g'));
     Some (rslt, g'\<lparr>ROM_NO := take 8 (ROM_NO g), LastDiscrepancy := LastDiscrepancy g,
       LastDeviceFlag := LastDeviceFlag g, LastFamilyDiscrepancy := LastFamilyDiscrepancy g\<rparr>, m)
   }"

definition OWTargetSetup :: "u8 \<Rightarrow> ow_search \<Rightarrow> ow_search" where
  "OWTargetSetup family_code g = g\<lparr>ROM_NO := family_code # replicate 7 0, LastDiscrepancy := 64,
     LastFamilyDiscrepancy := 0, LastDeviceFlag := False\<rparr>"

definition OWFamilySkipSetup :: "ow_search \<Rightarrow> ow_search" where
  "OWFamilySkipSetup g =
     (let g = g\<lparr>LastDiscrepancy := LastFamilyDiscrepancy g, LastFamilyDiscrepancy := 0\<rparr>
      in if LastDiscrepancy g = 0 then g\<lparr>LastDeviceFlag := True\<rparr> else g)"

text \<open>The loop of \<^verbatim>\<open>scan_bus\<close> in \<^verbatim>\<open>demo_onewire/main.c\<close>, with the codes in place of their
printing.\<close>

partial_function (option) scan_next :: "ow_search \<Rightarrow> mach \<Rightarrow> (u8 list list \<times> ow_search \<times> mach) option" where
  "scan_next g m = do {
     (res, g', m) \<leftarrow> OWNext g m;
     if res then do {
       (codes, g'', m) \<leftarrow> scan_next g' m;
       Some (ROM_NO g' # codes, g'', m)
     } else Some ([], g', m)
   }"

definition scan_codes :: "ow_search \<Rightarrow> mach \<Rightarrow> (u8 list list \<times> ow_search \<times> mach) option" where
  "scan_codes g m = do {
     (res, g', m) \<leftarrow> OWFirst g m;
     if res then do {
       (codes, g'', m) \<leftarrow> scan_next g' m;
       Some (ROM_NO g' # codes, g'', m)
     } else Some ([], g', m)
   }"

section \<open>The checksum\<close>

text \<open>The table is the cyclic redundancy check with the polynomial of 1-wire, one byte at a time.\<close>

definition crc_bit :: "u8 \<Rightarrow> u8" where
  "crc_bit c = drop_bit 1 c XOR (if bit c 0 then 0x8c else 0)"

primrec crc_bits :: "nat \<Rightarrow> u8 \<Rightarrow> u8" where
  "crc_bits 0 c = c"
| "crc_bits (Suc n) c = crc_bits n (crc_bit c)"

lemma crc_bits_8: "crc_bits 8 c = crc_bit (crc_bit (crc_bit (crc_bit (crc_bit (crc_bit (crc_bit (crc_bit c)))))))"
  by (simp add: eval_nat_numeral)

lemma upt_256: "[0..<256] = 0 # 1 # [2..<256]"
  by (simp add: upt_conv_Cons numeral_2_eq_2)

lemma dscrc_table_crc: "dscrc_table = map (crc_bits 8) (map of_nat [0..<256])"
  unfolding dscrc_table_def upt_256
  by (simp add: upt_rec_numeral crc_bits_8 crc_bit_def del: map_map)

lemma docrc8_crc: "crc8 (docrc8 v g) = crc_bits 8 (crc8 g XOR v)"
proof -
  have "unat (crc8 g XOR v) < 256" using unsigned_less [of "crc8 g XOR v"] by simp
  then show ?thesis by (simp add: docrc8_def dscrc_table_crc)
qed

section \<open>Codes\<close>

definition rom_bit :: "u8 list \<Rightarrow> nat \<Rightarrow> bool" where
  "rom_bit xs k = bit (xs ! (k div 8)) (k mod 8)"

definition rom_mask :: "nat \<Rightarrow> u8" where
  "rom_mask k = push_bit (k mod 8) 1"

definition rom_crc :: "u8 list \<Rightarrow> u8" where
  "rom_crc xs = fold (\<lambda>v c. crc_bits 8 (c XOR v)) xs 0"

lemma rom_crc_8:
  "rom_crc [a, b, c, d, e, f, g, h] = crc_bits 8 (crc_bits 8 (crc_bits 8 (crc_bits 8 (crc_bits 8 (crc_bits 8 (crc_bits 8
     (crc_bits 8 a XOR b) XOR c) XOR d) XOR e) XOR f) XOR g) XOR h)"
  by (simp add: rom_crc_def)

text \<open>What the search takes for a code: a family in the first byte and a checksum in the last.\<close>

definition rom_valid :: "u8 list \<Rightarrow> bool" where
  "rom_valid d \<longleftrightarrow> List.length d = 8 \<and> rom_crc d = 0 \<and> d ! 0 \<noteq> 0"

text \<open>The order of the search: by the first bit that differs.\<close>

definition rom_less :: "u8 list \<Rightarrow> u8 list \<Rightarrow> bool" where
  "rom_less x y \<longleftrightarrow> (\<exists>k<64. (\<forall>j<k. rom_bit x j = rom_bit y j) \<and> \<not> rom_bit x k \<and> rom_bit y k)"

lemma rom_bit_eqI:
  assumes "List.length x = 8" "List.length y = 8" "\<And>k. k < 64 \<Longrightarrow> rom_bit x k = rom_bit y k"
  shows "x = y"
proof (rule nth_equalityI)
  fix i assume i: "i < List.length x"
  show "x ! i = y ! i"
  proof (rule bit_word_eqI)
    fix n assume n: "n < LENGTH(8)"
    then have "(8 * i + n) div 8 = i" "(8 * i + n) mod 8 = n" by simp_all
    moreover have "8 * i + n < 64" using i n assms(1) by simp
    ultimately show "bit (x ! i) n = bit (y ! i) n" using assms(3) [of "8 * i + n"] by (simp add: rom_bit_def)
  qed
qed (use assms in simp)

lemma rom_less_asym: "rom_less x y \<Longrightarrow> \<not> rom_less y x"
  unfolding rom_less_def by (metis linorder_neqE_nat)

lemma rom_put_bits:
  assumes "k < 64" "List.length (ROM_NO g) = 8"
  shows "rom_bit (ROM_NO (rom_put (k div 8) (rom_mask k) b g)) j = (if j = k then b else rom_bit (ROM_NO g) j)"
    and "List.length (ROM_NO (rom_put (k div 8) (rom_mask k) b g)) = 8"
    and "take (k div 8) (ROM_NO (rom_put (k div 8) (rom_mask k) b g)) = take (k div 8) (ROM_NO g)"
proof -
  have d: "k div 8 < List.length (ROM_NO g)" using assms by simp
  have b: "bit (rom_mask k) n \<longleftrightarrow> n = k mod 8" for n by (auto simp: rom_mask_def bit_simps)
  show "rom_bit (ROM_NO (rom_put (k div 8) (rom_mask k) b g)) j = (if j = k then b else rom_bit (ROM_NO g) j)"
  proof (cases "j div 8 = k div 8")
    case True
    then have "j mod 8 = k mod 8 \<longleftrightarrow> j = k" by (metis div_mult_mod_eq)
    then show ?thesis using True d by (auto simp: rom_bit_def rom_put_def bit_or_iff bit_and_iff bit_not_iff b)
  next
    case False
    then show ?thesis by (auto simp: rom_bit_def rom_put_def)
  qed
qed (use assms in \<open>simp_all add: rom_put_def\<close>)

lemma rom_mask_step: "push_bit 1 (rom_mask k) = (if k mod 8 = 7 then 0 else rom_mask (Suc k))"
proof (cases "k mod 8 = 7")
  case True
  then show ?thesis by (simp add: rom_mask_def)
next
  case False
  then have "Suc k mod 8 = Suc (k mod 8)" by (simp add: mod_Suc)
  then show ?thesis using False by (simp add: rom_mask_def)
qed

lemma rom_mask_nonzero: "rom_mask k \<noteq> 0"
proof
  assume "rom_mask k = 0"
  then have "\<not> bit (rom_mask k) (k mod 8)" by simp
  then show False by (simp add: rom_mask_def bit_simps)
qed

lemma search_advance_at:
  "search_advance (k div 8) (rom_mask k) g = (Suc k div 8, rom_mask (Suc k),
     if k mod 8 = 7 then docrc8 (ROM_NO g ! (k div 8)) g else g)"
proof -
  have "Suc k div 8 = (if k mod 8 = 7 then Suc (k div 8) else k div 8)"
    by (simp add: div_Suc mod_Suc)
  moreover have "rom_mask (Suc k) = 1" if "k mod 8 = 7" using that by (simp add: rom_mask_def mod_Suc)
  ultimately show ?thesis using rom_mask_nonzero [of "Suc k"]
    unfolding search_advance_def rom_mask_step Let_def by simp
qed

lemma search_choice_at:
  "search_choice g n (k div 8) (rom_mask k) = (if n < LastDiscrepancy g then rom_bit (ROM_NO g) k else n = LastDiscrepancy g)"
proof -
  have "(x AND rom_mask k > 0) = bit x (k mod 8)" for x :: u8
  proof
    assume p: "x AND rom_mask k > 0"
    have "x AND rom_mask k = 0" if "\<not> bit x (k mod 8)"
      by (rule bit_word_eqI) (use that in \<open>auto simp: rom_mask_def bit_simps\<close>)
    then show "bit x (k mod 8)" using p by (metis word_not_simps(1))
  next
    assume "bit x (k mod 8)"
    then have "bit (x AND rom_mask k) (k mod 8)" by (auto simp: rom_mask_def bit_simps)
    then have "x AND rom_mask k \<noteq> 0" by auto
    then show "x AND rom_mask k > 0" by (simp add: word_gt_0)
  qed
  then show ?thesis by (simp add: search_choice_def rom_bit_def)
qed

lemma search_decide_differ: "a \<noteq> b \<Longrightarrow> search_decide a b n lz byte msk g = (a, lz, rom_put byte msk a g)"
  by (auto simp: search_decide_def Let_def)

section \<open>The path of a search\<close>

text \<open>The devices that share the first \<open>k\<close> bits of \<open>x\<close>; where both values are present among them;
the last such place at which \<open>x\<close> has a zero, counted from one.\<close>

definition sharing :: "u8 list set \<Rightarrow> u8 list \<Rightarrow> nat \<Rightarrow> u8 list set" where
  "sharing D x k = {d \<in> D. \<forall>j<k. rom_bit d j = rom_bit x j}"

definition both :: "u8 list set \<Rightarrow> u8 list \<Rightarrow> nat \<Rightarrow> bool" where
  "both D x k \<longleftrightarrow> (\<exists>d\<in>sharing D x k. rom_bit d k) \<and> (\<exists>d\<in>sharing D x k. \<not> rom_bit d k)"

primrec last_zero_at :: "u8 list set \<Rightarrow> u8 list \<Rightarrow> nat \<Rightarrow> nat" where
  "last_zero_at D x 0 = 0"
| "last_zero_at D x (Suc k) = (if both D x k \<and> \<not> rom_bit x k then Suc k else last_zero_at D x k)"

text \<open>\<open>x\<close> is the path of a search after a code \<open>r\<close> with last discrepancy \<open>L\<close>, up to bit \<open>k\<close>.\<close>

definition on_path :: "u8 list set \<Rightarrow> u8 list \<Rightarrow> nat \<Rightarrow> u8 list \<Rightarrow> nat \<Rightarrow> bool" where
  "on_path D r L x k \<longleftrightarrow> sharing D x k \<noteq> {}
    \<and> (\<forall>j<k. both D x j \<longrightarrow> rom_bit x j = (if Suc j < L then rom_bit r j else Suc j = L))"

lemma sharing_cong:
  "(\<And>j. j < k \<Longrightarrow> rom_bit x j = rom_bit y j) \<Longrightarrow> sharing D x k = sharing D y k"
  by (auto simp: sharing_def)

lemma both_cong: "(\<And>j. j < k \<Longrightarrow> rom_bit x j = rom_bit y j) \<Longrightarrow> both D x k = both D y k"
  using sharing_cong [of k x y D] by (simp add: both_def)

lemma last_zero_cong: "(\<And>j. j < k \<Longrightarrow> rom_bit x j = rom_bit y j) \<Longrightarrow> last_zero_at D x k = last_zero_at D y k"
  by (induction k) (auto simp: both_cong [of _ x y])

lemma sharing_Suc: "sharing D x (Suc k) = {d \<in> sharing D x k. rom_bit d k = rom_bit x k}"
  by (auto simp: sharing_def less_Suc_eq)

lemma last_zero_bounds:
  "last_zero_at D x k \<le> k"
  "last_zero_at D x k \<le> j \<Longrightarrow> j < k \<Longrightarrow> both D x j \<Longrightarrow> rom_bit x j"
  "last_zero_at D x k = Suc j \<Longrightarrow> both D x j \<and> \<not> rom_bit x j"
  by (induction k) (auto simp: less_Suc_eq split: if_splits)

text \<open>At the end one device is left.\<close>

lemma sharing_all:
  assumes "\<forall>d\<in>D. List.length d = 8" "List.length x = 8" "sharing D x 64 \<noteq> {}"
  shows "x \<in> D"
proof -
  obtain d where d: "d \<in> D" "\<forall>j<64. rom_bit d j = rom_bit x j" using assms(3) by (auto simp: sharing_def)
  then have "d = x" using assms(1,2) by (intro rom_bit_eqI) auto
  with d(1) show ?thesis by simp
qed

text \<open>The first search finds the least code.\<close>

lemma path_least:
  assumes "on_path D r 0 x 64" "x \<in> D" "d \<in> D" shows "\<not> rom_less d x"
proof
  assume "rom_less d x"
  then obtain k where k: "k < 64" "\<forall>j<k. rom_bit d j = rom_bit x j" "\<not> rom_bit d k" "rom_bit x k" by (auto simp: rom_less_def)
  then have "d \<in> sharing D x k" "x \<in> sharing D x k" using assms(2,3) by (auto simp: sharing_def)
  then have "both D x k" using k(3,4) by (auto simp: both_def)
  then show False using assms(1) k(1,4) by (auto simp: on_path_def)
qed

text \<open>A later one finds the least code after the last.\<close>

lemma path_below:
  assumes "on_path D r L x 64" "x \<in> D" "r \<in> D" "L \<le> 64" "j < L - 1"
  shows "rom_bit x j = rom_bit r j"
  using assms(5)
proof (induction j rule: less_induct)
  case (less j)
  then have "\<forall>i<j. rom_bit x i = rom_bit r i" by simp
  then have s: "r \<in> sharing D x j" "x \<in> sharing D x j" using assms(2,3) by (auto simp: sharing_def)
  show ?case
  proof (cases "both D x j")
    case True
    then show ?thesis using assms(1,4) less.prems by (auto simp: on_path_def)
  next
    case False
    then show ?thesis using s by (auto simp: both_def)
  qed
qed

lemma path_next:
  assumes p: "on_path D r L x 64" and D: "x \<in> D" "r \<in> D" and L: "L = last_zero_at D r 64" "0 < L"
  shows "rom_less r x" "d \<in> D \<Longrightarrow> rom_less r d \<Longrightarrow> \<not> rom_less d x"
proof -
  obtain k where k: "L = Suc k" using L(2) by (cases L) auto
  have k64: "k < 64" using last_zero_bounds(1) [of D r 64] L(1) k by simp
  have b: "both D r k" "\<not> rom_bit r k" using last_zero_bounds(3) [of D r 64 k] L(1) k by auto
  have e: "rom_bit x j = rom_bit r j" if "j < k" for j using path_below [OF p D, of j] that k k64 by simp
  then have "both D x k" using both_cong [of k x r D] b(1) by simp
  then have x: "rom_bit x k" using p k k64 by (auto simp: on_path_def)
  show "rom_less r x" using e x b(2) k64 by (auto simp: rom_less_def)
  assume d: "d \<in> D" "rom_less r d"
  show "\<not> rom_less d x"
  proof
    assume "rom_less d x"
    then obtain i where i: "i < 64" "\<forall>j<i. rom_bit d j = rom_bit x j" "\<not> rom_bit d i" "rom_bit x i" by (auto simp: rom_less_def)
    from d(2) obtain n where n: "n < 64" "\<forall>j<n. rom_bit r j = rom_bit d j" "\<not> rom_bit r n" "rom_bit d n" by (auto simp: rom_less_def)
    have "both D x i" using i D(1) d(1) by (auto simp: both_def sharing_def)
    then have c: "Suc i < L \<and> rom_bit r i \<or> i = k" using p i(1,4) k by (auto simp: on_path_def split: if_splits)
    then have "i \<le> k" using k by auto
    then have ri: "\<forall>j<i. rom_bit r j = rom_bit d j" using e i(2) by simp
    show False
    proof (cases "i = k")
      case True
      then have "k < n" using n ri b(2) i(3) by (metis linorder_neqE_nat)
      moreover have "r \<in> sharing D r n" "d \<in> sharing D r n" using D(2) d(1) n(2) by (auto simp: sharing_def)
      then have "both D r n" using n(3,4) by (auto simp: both_def)
      ultimately show False using last_zero_bounds(2) [of D r 64 n] L(1) k n(1,3) by auto
    next
      case False
      then have "rom_bit r i" using c by simp
      then show False using n ri i(3) by (metis linorder_neqE_nat)
    qed
  qed
qed

text \<open>There is no further discrepancy exactly when no code comes later.\<close>

section \<open>Devices\<close>

text \<open>
  What the search relies on in the devices, the ROM search command of the 1-wire protocol: a reset
  pulse shows whether there are devices; after the byte \<open>0xF0\<close> the devices with codes \<open>D\<close> take
  part, and for every bit they send it, send its complement (the wire is low when any sends a zero),
  and those that sent another bit than the controller's answer leave.
\<close>

locale rom_search =
  fixes C :: "'l ow_conf" and D :: "u8 list set" and taking :: "nat \<Rightarrow> nat \<Rightarrow> u8 list set \<Rightarrow> 'l \<Rightarrow> bool"
  assumes presence: "fst (wire_pulse C l) \<longleftrightarrow> D \<noteq> {}"
    and command: "taking 0 0 D (snd (ow_shift C 8 0xF0 (snd (wire_pulse C l))))"
    and sends: "taking k 0 S l \<Longrightarrow> k < 64 \<Longrightarrow> (fst (wire_slot C True l) \<longleftrightarrow> (\<forall>d\<in>S. rom_bit d k)) \<and> taking k 1 S (snd (wire_slot C True l))"
    and complements: "taking k 1 S l \<Longrightarrow> k < 64 \<Longrightarrow> (fst (wire_slot C True l) \<longleftrightarrow> (\<forall>d\<in>S. \<not> rom_bit d k)) \<and> taking k 2 S (snd (wire_slot C True l))"
    and leaves: "taking k 2 S l \<Longrightarrow> k < 64 \<Longrightarrow> taking (Suc k) 0 {d \<in> S. rom_bit d k = b} (snd (wire_slot C b l))"
begin

text \<open>The state of the search before bit \<open>k\<close>, when the last code was \<open>r\<close>.\<close>

definition before_bit :: "u8 list \<Rightarrow> nat \<Rightarrow> nat \<Rightarrow> ow_search \<Rightarrow> bool" where
  "before_bit r L k g \<longleftrightarrow> List.length (ROM_NO g) = 8 \<and> LastDiscrepancy g = int L \<and> \<not> LastDeviceFlag g
    \<and> on_path D r L (ROM_NO g) k \<and> (\<forall>j<64. k \<le> j \<longrightarrow> rom_bit (ROM_NO g) j = rom_bit r j)
    \<and> crc8 g = rom_crc (take (k div 8) (ROM_NO g))"

lemma search_bit:
  assumes w: "ow_wire C gap init rest l m" and t: "taking k 0 (sharing D (ROM_NO g) k) l" and k: "k < 64"
    and i: "before_bit r L k g"
  shows "\<exists>g' m' l'. search_loop g (int k + 1) (int (last_zero_at D (ROM_NO g) k)) (k div 8) (rom_mask k) m
      = (if Suc k < 64 then search_loop g' (int (Suc k) + 1) (int (last_zero_at D (ROM_NO g') (Suc k))) (Suc k div 8) (rom_mask (Suc k)) m'
         else Some (g', 65, int (last_zero_at D (ROM_NO g') 64), m'))
    \<and> before_bit r L (Suc k) g' \<and> ow_wire C gap init rest l' m' \<and> taking (Suc k) 0 (sharing D (ROM_NO g') (Suc k)) l'"
proof -
  let ?S = "sharing D (ROM_NO g) k" and ?z = "last_zero_at D (ROM_NO g) k"
  from i have i: "List.length (ROM_NO g) = 8" "LastDiscrepancy g = int L" "\<not> LastDeviceFlag g" "on_path D r L (ROM_NO g) k"
    "\<And>j. j < 64 \<Longrightarrow> k \<le> j \<Longrightarrow> rom_bit (ROM_NO g) j = rom_bit r j" "crc8 g = rom_crc (take (k div 8) (ROM_NO g))"
    by (auto simp: before_bit_def)
  from read_bit_effect [OF w] sends [OF t k] obtain m1 where m1:
    "neorv32_onewire_read_bit_blocking m = Some (if \<forall>d\<in>?S. rom_bit d k then 1 else 0, m1)"
    "ow_wire C gap init rest (snd (wire_slot C True l)) m1" "taking k 1 ?S (snd (wire_slot C True l))" by auto
  from read_bit_effect [OF m1(2)] complements [OF m1(3) k] obtain m2 l2 where m2:
    "neorv32_onewire_read_bit_blocking m1 = Some (if \<forall>d\<in>?S. \<not> rom_bit d k then 1 else 0, m2)"
    "ow_wire C gap init rest l2 m2" "taking k 2 ?S l2" by auto
  have ne: "?S \<noteq> {}" using i(4) by (simp add: on_path_def)
  define dir where "dir = (if both D (ROM_NO g) k then (if Suc k < L then rom_bit r k else Suc k = L) else (\<forall>d\<in>?S. rom_bit d k))"
  define g1 where "g1 = (if both D (ROM_NO g) k \<and> \<not> dir \<and> k < 8 then g\<lparr>LastFamilyDiscrepancy := int k + 1\<rparr> else g)"
  define g2 where "g2 = rom_put (k div 8) (rom_mask k) dir g1"
  define g3 where "g3 = (if k mod 8 = 7 then docrc8 (ROM_NO g2 ! (k div 8)) g2 else g2)"
  have b: "both D (ROM_NO g) k \<longleftrightarrow> \<not> (\<forall>d\<in>?S. rom_bit d k) \<and> \<not> (\<forall>d\<in>?S. \<not> rom_bit d k)"
    by (auto simp: both_def)
  have dec: "search_decide (\<forall>d\<in>?S. rom_bit d k) (\<forall>d\<in>?S. \<not> rom_bit d k) (int k + 1) (int ?z) (k div 8) (rom_mask k) g
      = (dir, if both D (ROM_NO g) k \<and> \<not> dir then int k + 1 else int ?z, g2)"
  proof (cases "both D (ROM_NO g) k")
    case True
    then have "search_choice g (int k + 1) (k div 8) (rom_mask k) = dir"
      using i(2) i(5) [of k] k by (auto simp: search_choice_at dir_def)
    with True show ?thesis using b by (auto simp: search_decide_def Let_def g1_def g2_def)
  next
    case False
    with ne have "(\<forall>d\<in>?S. rom_bit d k) \<noteq> (\<forall>d\<in>?S. \<not> rom_bit d k)" using b by auto
    from search_decide_differ [OF this] False show ?thesis by (simp add: g1_def g2_def dir_def)
  qed
  have r1: "ROM_NO g1 = ROM_NO g" by (simp add: g1_def)
  have r2: "rom_bit (ROM_NO g2) j = (if j = k then dir else rom_bit (ROM_NO g) j)" "List.length (ROM_NO g2) = 8"
    "take (k div 8) (ROM_NO g2) = take (k div 8) (ROM_NO g)" for j
    using rom_put_bits [OF k, of g1 dir] i(1) by (simp_all add: g2_def r1)
  have r3: "ROM_NO g3 = ROM_NO g2" by (simp add: g3_def docrc8_def)
  have r4: "rom_bit (ROM_NO g3) j = (if j = k then dir else rom_bit (ROM_NO g) j)" for j unfolding r3 by (rule r2(1))
  have sh: "sharing D (ROM_NO g3) k = ?S" "both D (ROM_NO g3) k = both D (ROM_NO g) k"
    "last_zero_at D (ROM_NO g3) k = ?z"
    using sharing_cong [of k "ROM_NO g3" "ROM_NO g" D] both_cong [of k "ROM_NO g3" "ROM_NO g" D]
      last_zero_cong [of k "ROM_NO g3" "ROM_NO g" D] by (simp_all add: r4)
  have S: "sharing D (ROM_NO g3) (Suc k) = {d \<in> ?S. rom_bit d k = dir}"
    by (simp add: sharing_Suc sh r4)
  have z: "int (last_zero_at D (ROM_NO g3) (Suc k)) = (if both D (ROM_NO g) k \<and> \<not> dir then int k + 1 else int ?z)"
    by (simp add: sh r4)
  from write_bit_effect [OF m2(2), of dir] leaves [OF m2(3) k, of dir] obtain m3 where
    m3: "neorv32_onewire_write_bit_blocking (if dir then 1 else 0) m2 = Some m3"
    "ow_wire C gap init rest (snd (wire_slot C dir l2)) m3"
    "taking (Suc k) 0 (sharing D (ROM_NO g3) (Suc k)) (snd (wire_slot C dir l2))" unfolding S by blast
  have adv: "search_advance (k div 8) (rom_mask k) g2 = (Suc k div 8, rom_mask (Suc k), g3)"
    by (simp add: search_advance_at g3_def)
  have lt: "Suc k div 8 < 8 \<longleftrightarrow> Suc k < 64" by (simp add: less_mult_imp_div_less) linarith
  have nb: "\<not> ((\<forall>d\<in>?S. rom_bit d k) \<and> (\<forall>d\<in>?S. \<not> rom_bit d k))" using ne by auto
  have "search_loop g (int k + 1) (int ?z) (k div 8) (rom_mask k) m
      = (if Suc k < 64 then search_loop g3 (int (Suc k) + 1) (int (last_zero_at D (ROM_NO g3) (Suc k))) (Suc k div 8) (rom_mask (Suc k)) m3
         else Some (g3, 65, int (last_zero_at D (ROM_NO g3) 64), m3))"
  proof -
    have e: "((if P then 1 else 0 :: u8) = 1) = P" for P by simp
    have c: "search_loop g (int k + 1) (int ?z) (k div 8) (rom_mask k) m
      = (if Suc k < 64 then search_loop g3 (int k + 1 + 1) (int (last_zero_at D (ROM_NO g3) (Suc k))) (Suc k div 8) (rom_mask (Suc k)) m3
         else Some (g3, int k + 1 + 1, int (last_zero_at D (ROM_NO g3) (Suc k)), m3))"
      by (subst search_loop.simps) (simp only: m1(1) m2(1) bind.bind_lunit prod.case e nb if_False dec Let_def m3(1) adv lt z)
    show ?thesis
    proof (cases "Suc k < 64")
      case True
      have "int k + 1 + 1 = int (Suc k) + 1" by simp
      with c True show ?thesis by presburger
    next
      case False
      then have f: "Suc k = 64" "int k + 1 + 1 = 65" using k by simp_all
      show ?thesis using c False unfolding f by presburger
    qed
  qed
  moreover have "before_bit r L (Suc k) g3"
  proof -
    have "{d \<in> ?S. rom_bit d k = dir} \<noteq> {}" using ne by (auto simp: dir_def both_def)
    moreover have "rom_bit (ROM_NO g3) j = (if Suc j < L then rom_bit r j else Suc j = L)"
      if "j < Suc k" "both D (ROM_NO g3) j" for j
    proof (cases "j = k")
      case True
      then show ?thesis using that(2) by (simp add: r4 dir_def sh)
    next
      case False
      then have "j < k" using that(1) by simp
      then show ?thesis using i(4) that(2) both_cong [of j "ROM_NO g3" "ROM_NO g" D] by (auto simp: on_path_def r4)
    qed
    ultimately have "on_path D r L (ROM_NO g3) (Suc k)" by (simp add: on_path_def S)
    moreover have "crc8 g3 = rom_crc (take (Suc k div 8) (ROM_NO g3))"
    proof (cases "k mod 8 = 7")
      case True
      then have d: "Suc k div 8 = Suc (k div 8)" by (simp add: div_Suc mod_Suc)
      have "k div 8 < List.length (ROM_NO g2)" using k r2(2) by simp
      moreover have "crc8 g3 = crc_bits 8 (crc8 g2 XOR ROM_NO g2 ! (k div 8))" using True docrc8_crc by (simp add: g3_def)
      moreover have "crc8 g2 = rom_crc (take (k div 8) (ROM_NO g2))" using i(6) r2(3) by (simp add: g2_def rom_put_def g1_def)
      ultimately show ?thesis unfolding d r3 by (simp add: take_Suc_conv_app_nth rom_crc_def)
    next
      case False
      then have "Suc k div 8 = k div 8" by (simp add: div_Suc mod_Suc)
      then show ?thesis using False i(6) r2(3) r3 by (simp add: g3_def) (simp add: g2_def rom_put_def g1_def)
    qed
    moreover have "LastDiscrepancy g3 = int L" "\<not> LastDeviceFlag g3"
      using i(2,3) by (simp_all add: g3_def docrc8_def g2_def rom_put_def g1_def)
    moreover have "\<forall>j<64. Suc k \<le> j \<longrightarrow> rom_bit (ROM_NO g3) j = rom_bit r j" using i(5) r4 by auto
    moreover have "List.length (ROM_NO g3) = 8" using r2(2) r3 by simp
    ultimately show ?thesis unfolding before_bit_def by blast
  qed
  ultimately show ?thesis using m3(2,3) by blast
qed

lemma search_bits:
  assumes "ow_wire C gap init rest l m" "taking k 0 (sharing D (ROM_NO g) k) l" "k < 64" "before_bit r L k g"
  shows "\<exists>g' m' l'. search_loop g (int k + 1) (int (last_zero_at D (ROM_NO g) k)) (k div 8) (rom_mask k) m
      = Some (g', 65, int (last_zero_at D (ROM_NO g') 64), m')
    \<and> before_bit r L 64 g' \<and> ow_wire C gap init rest l' m'"
  using assms
proof (induction "63 - k" arbitrary: k g m l)
  case 0
  then have "k = 63" by simp
  then show ?case using search_bit [OF 0(2-5)] by auto
next
  case (Suc n)
  from search_bit [OF Suc(3-6)] obtain g' m' l' where
    "search_loop g (int k + 1) (int (last_zero_at D (ROM_NO g) k)) (k div 8) (rom_mask k) m
      = (if Suc k < 64 then search_loop g' (int (Suc k) + 1) (int (last_zero_at D (ROM_NO g') (Suc k))) (Suc k div 8) (rom_mask (Suc k)) m'
         else Some (g', 65, int (last_zero_at D (ROM_NO g') 64), m'))"
    and n: "before_bit r L (Suc k) g'" "ow_wire C gap init rest l' m'" "taking (Suc k) 0 (sharing D (ROM_NO g') (Suc k)) l'"
    by blast
  moreover have k: "Suc k < 64" "n = 63 - Suc k" using Suc(2) by auto
  ultimately have "search_loop g (int k + 1) (int (last_zero_at D (ROM_NO g) k)) (k div 8) (rom_mask k) m
      = search_loop g' (int (Suc k) + 1) (int (last_zero_at D (ROM_NO g') (Suc k))) (Suc k div 8) (rom_mask (Suc k)) m'" by simp
  with Suc(1) [OF k(2) n(2) n(3) k(1) n(1)] show ?case by presburger
qed

text \<open>The bit search itself finds a device: the first code in the order, or the one after \<open>r\<close>.\<close>

lemma search_pass:
  assumes w: "ow_wire C gap init rest l m" "taking 0 0 D l" and ne: "D \<noteq> {}"
    and g: "List.length (ROM_NO g) = 8" "LastDiscrepancy g = int L" "\<not> LastDeviceFlag g" "crc8 g = 0"
    and valid: "\<forall>d\<in>D. rom_valid d"
  shows "\<exists>g' m' l'. search_loop g 1 0 0 1 m = Some (g', 65, int (last_zero_at D (ROM_NO g') 64), m')
    \<and> ow_wire C gap init rest l' m' \<and> ROM_NO g' \<in> D \<and> crc8 g' = 0
    \<and> (L = 0 \<longrightarrow> (\<forall>d\<in>D. \<not> rom_less d (ROM_NO g')))
    \<and> (ROM_NO g \<in> D \<and> L = last_zero_at D (ROM_NO g) 64 \<and> 0 < L \<longrightarrow>
         rom_less (ROM_NO g) (ROM_NO g') \<and> (\<forall>d\<in>D. rom_less (ROM_NO g) d \<longrightarrow> \<not> rom_less d (ROM_NO g')))"
proof -
  have bb: "before_bit (ROM_NO g) L 0 g" using g ne by (simp add: before_bit_def on_path_def sharing_def rom_crc_def)
  have t: "taking 0 0 (sharing D (ROM_NO g) 0) l" using w(2) by (simp add: sharing_def)
  have "\<exists>g' m' l'. search_loop g 1 0 0 1 m = Some (g', 65, int (last_zero_at D (ROM_NO g') 64), m')
      \<and> before_bit (ROM_NO g) L 64 g' \<and> ow_wire C gap init rest l' m'"
    using search_bits [OF w(1) t _ bb] by (simp add: rom_mask_def)
  then obtain g' m' l' where s: "search_loop g 1 0 0 1 m = Some (g', 65, int (last_zero_at D (ROM_NO g') 64), m')"
    "before_bit (ROM_NO g) L 64 g'" "ow_wire C gap init rest l' m'"
    by blast
  from s(2) have b: "List.length (ROM_NO g') = 8" "on_path D (ROM_NO g) L (ROM_NO g') 64" "crc8 g' = rom_crc (ROM_NO g')"
    by (auto simp: before_bit_def)
  then have d: "ROM_NO g' \<in> D" using sharing_all [of D "ROM_NO g'"] valid by (auto simp: on_path_def rom_valid_def)
  moreover from this have "crc8 g' = 0" using valid b(3) by (auto simp: rom_valid_def)
  moreover have "\<forall>d\<in>D. \<not> rom_less d (ROM_NO g')" if "L = 0"
    using path_least [of D "ROM_NO g" "ROM_NO g'"] b(2) d that by blast
  moreover have "rom_less (ROM_NO g) (ROM_NO g') \<and> (\<forall>d\<in>D. rom_less (ROM_NO g) d \<longrightarrow> \<not> rom_less d (ROM_NO g'))"
    if "ROM_NO g \<in> D" "L = last_zero_at D (ROM_NO g) 64" "0 < L"
    using path_next [OF b(2) d that] by blast
  ultimately show ?thesis using s by blast
qed

text \<open>The presence bit is one when a device answers, so no search gets past the reset while there are devices, and
without devices there is nothing to find.\<close>

lemma search_finds_nothing:
  assumes w: "ow_wire C gap init rest l m"
  shows "\<exists>g' m' l'. OWSearch g m = Some (False, g', m') \<and> ow_wire C gap init rest l' m'"
proof (cases "LastDeviceFlag g")
  case True
  then show ?thesis using w by (auto simp: OWSearch_def Let_def)
next
  case False
  from ow_reset_command [OF w] obtain p m1 where m1: "neorv32_onewire_reset_blocking m = Some (p, m1)"
    "p \<noteq> 0 \<longleftrightarrow> D \<noteq> {}" "ow_wire C gap init rest (snd (wire_pulse C l)) m1" using presence by (metis surjective_pairing)
  show ?thesis
  proof (cases "D = {}")
    case D: False
    then show ?thesis using m1 False by (auto simp: OWSearch_def Let_def)
  next
    case D: True
    from write_byte_effect [OF m1(3), of "0xF0"] obtain m2 where m2: "neorv32_onewire_write_byte_blocking 0xF0 m1 = Some m2"
      "ow_wire C gap init rest (snd (ow_shift C 8 0xF0 (snd (wire_pulse C l)))) m2" by blast
    have t: "taking 0 0 {} (snd (ow_shift C 8 0xF0 (snd (wire_pulse C l))))" using command D by metis
    from read_bit_effect [OF m2(2)] sends [OF t] obtain m3 l3 where m3: "neorv32_onewire_read_bit_blocking m2 = Some (1, m3)"
      "ow_wire C gap init rest l3 m3" "taking 0 1 {} l3" by auto
    from read_bit_effect [OF m3(2)] complements [OF m3(3)] obtain m4 l4 where m4: "neorv32_onewire_read_bit_blocking m3 = Some (1, m4)"
      "ow_wire C gap init rest l4 m4" by auto
    have "search_loop (g\<lparr>crc8 := 0\<rparr>) 1 0 0 1 m2 = Some (g\<lparr>crc8 := 0\<rparr>, 1, 0, m4)"
      by (subst search_loop.simps) (simp add: m3(1) m4(1))
    then show ?thesis using m1(1,2) D m2(1) m4(2) False by (auto simp: OWSearch_def Let_def search_result_def)
  qed
qed

section \<open>Scanning\<close>

lemma scan_finds_none:
  assumes w: "ow_wire C gap init rest l m"
  shows "\<exists>g' m'. scan_codes g m = Some ([], g', m')"
  using search_finds_nothing [OF w, of "g\<lparr>LastDiscrepancy := 0, LastDeviceFlag := False, LastFamilyDiscrepancy := 0\<rparr>"]
  by (auto simp: scan_codes_def OWFirst_def)

end

section \<open>A bus\<close>

text \<open>Devices with the codes \<open>roms\<close> that keep the protocol: after a pulse they take a command byte, and
after that of the search they take part in it.\<close>

datatype rom_phase = Quiet | Command_bits nat u8 | Taking nat nat "u8 list list"

fun bus_slot :: "u8 list list \<Rightarrow> bool \<Rightarrow> rom_phase \<Rightarrow> bool \<times> rom_phase" where
  "bus_slot roms b Quiet = (b, Quiet)"
| "bus_slot roms b (Command_bits n c) =
     (let c = c OR (if b then push_bit n 1 else 0)
      in (b, if n < 7 then Command_bits (Suc n) c else if c = 0xF0 then Taking 0 0 roms else Quiet))"
| "bus_slot roms b (Taking k stage xs) =
     (if stage = 0 then (b \<and> (\<forall>d\<in>set xs. rom_bit d k), Taking k 1 xs)
      else if stage = 1 then (b \<and> (\<forall>d\<in>set xs. \<not> rom_bit d k), Taking k 2 xs)
      else (b, Taking (Suc k) 0 (filter (\<lambda>d. rom_bit d k = b) xs)))"

definition bus_pulse :: "u8 list list \<Rightarrow> rom_phase \<Rightarrow> bool \<times> rom_phase" where
  "bus_pulse roms l = (roms \<noteq> [], Command_bits 0 0)"

definition rom_bus :: "nat \<Rightarrow> u8 list list \<Rightarrow> rom_phase ow_conf" where
  "rom_bus depth roms = \<lparr>wire_slot = bus_slot roms, wire_pulse = bus_pulse roms, ow_depth = depth\<rparr>"

definition bus_taking :: "nat \<Rightarrow> nat \<Rightarrow> u8 list set \<Rightarrow> rom_phase \<Rightarrow> bool" where
  "bus_taking k stage S l \<longleftrightarrow> (\<exists>xs. l = Taking k stage xs \<and> set xs = S)"

lemma bus_search_command:
  "snd (ow_shift (rom_bus depth roms) 8 0xF0 (Command_bits 0 0)) = Taking 0 0 roms"
proof -
  have "(8 :: nat) = Suc (Suc (Suc (Suc (Suc (Suc (Suc (Suc 0)))))))" by simp
  then show ?thesis by (simp only: ow_shift.simps) (simp add: rom_bus_def Let_def)
qed

interpretation roms: rom_search "rom_bus depth roms" "set roms" bus_taking for depth roms
proof (unfold_locales, goal_cases)
  case 1 show ?case by (simp add: rom_bus_def bus_pulse_def)
next
  case 2
  have "snd (wire_pulse (rom_bus depth roms) l) = Command_bits 0 0" for l by (simp add: rom_bus_def bus_pulse_def)
  then show ?case by (simp add: bus_search_command bus_taking_def)
next
  case 3 then show ?case by (auto simp: bus_taking_def rom_bus_def)
next
  case 4 then show ?case by (auto simp: bus_taking_def rom_bus_def)
next
  case 5 then show ?case by (auto simp: bus_taking_def rom_bus_def)
qed
end
