(* ===== verification/Life.thy ===== *)
theory Life
  imports Uart Neo_Aux Trng
begin

text \<open>
  Conway's game of life, \<^verbatim>\<open>sw/example/game_of_life/main.c\<close>: two universes of cells packed eight to
  a byte, of which each generation is computed from one into the other.  The abstraction of a
  universe is the set of its living cells, and a generation is Conway's rule on a torus.
\<close>

section \<open>Universes\<close>

definition NUM_CELLS_X :: int where "NUM_CELLS_X = 160"
definition NUM_CELLS_Y :: int where "NUM_CELLS_Y = 40"
definition GEN_DELAY :: u32 where "GEN_DELAY = 500"
definition CELL_DEAD :: u8 where "CELL_DEAD = 0x20"
definition CELL_ALIVE :: u8 where "CELL_ALIVE = 0x23"

lemmas life_config = NUM_CELLS_X_def NUM_CELLS_Y_def

text \<open>\<^verbatim>\<open>universe[u][x][y]\<close>, by its three indices.\<close>

type_synonym universe = "nat \<Rightarrow> int \<Rightarrow> int \<Rightarrow> u8"

definition uput :: "nat \<Rightarrow> int \<Rightarrow> int \<Rightarrow> u8 \<Rightarrow> universe \<Rightarrow> universe" where
  "uput u x y v U = U(u := (U u)(x := (U u x)(y := v)))"

definition clear_universe :: "nat \<Rightarrow> universe \<Rightarrow> universe" where
  "clear_universe u U = fold (\<lambda>x. fold (\<lambda>y. uput u x y 0) [0..NUM_CELLS_Y - 1]) [0..NUM_CELLS_X div 8 - 1] U"

definition cell_mask :: "int \<Rightarrow> u8" where
  "cell_mask x = push_bit (nat (7 - (x AND 7))) 1"

definition set_cell :: "nat \<Rightarrow> int \<Rightarrow> int \<Rightarrow> universe \<Rightarrow> universe" where
  "set_cell u x y U =
     (if x \<ge> NUM_CELLS_X \<or> y \<ge> NUM_CELLS_Y then U
      else uput u (drop_bit 3 x) y (U u (drop_bit 3 x) y OR cell_mask x) U)"

definition get_cell :: "nat \<Rightarrow> int \<Rightarrow> int \<Rightarrow> universe \<Rightarrow> int" where
  "get_cell u x y U =
     (let x = (if x < 0 then NUM_CELLS_X - 1 else x);
          x = (if x > NUM_CELLS_X - 1 then 0 else x);
          y = (if y < 0 then NUM_CELLS_Y - 1 else y);
          y = (if y > NUM_CELLS_Y - 1 then 0 else y);
          tmp = U u (drop_bit 3 x) y AND cell_mask x
      in if tmp = 0 then 0 else 1)"

definition get_neighborhood :: "nat \<Rightarrow> int \<Rightarrow> int \<Rightarrow> universe \<Rightarrow> int" where
  "get_neighborhood u x y U =
     get_cell u (x - 1) (y - 1) U + get_cell u x (y - 1) U + get_cell u (x + 1) (y - 1) U
     + get_cell u (x - 1) y U + get_cell u (x + 1) y U
     + get_cell u (x - 1) (y + 1) U + get_cell u x (y + 1) U + get_cell u (x + 1) (y + 1) U"

definition pop_count :: "nat \<Rightarrow> universe \<Rightarrow> int" where
  "pop_count u U = fold (\<lambda>x. fold (\<lambda>y cnt. cnt + get_cell u x y U) [0..NUM_CELLS_Y - 1]) [0..NUM_CELLS_X - 1] 0"

text \<open>The two nested loops of \<^verbatim>\<open>main\<close>, with the classic rule set.\<close>

definition life_rule :: "int \<Rightarrow> int \<Rightarrow> bool" where
  "life_rule cell n \<longleftrightarrow> (cell = 0 \<and> n = 3) \<or> (cell \<noteq> 0 \<and> (n = 2 \<or> n = 3))"

definition life_cell :: "nat \<Rightarrow> int \<Rightarrow> int \<Rightarrow> universe \<Rightarrow> universe" where
  "life_cell u x y U =
     (if life_rule (get_cell u x y U) (get_neighborhood u x y U) then set_cell ((u + 1) mod 2) x y U else U)"

definition life_step :: "nat \<Rightarrow> universe \<Rightarrow> universe" where
  "life_step u U =
     fold (\<lambda>x. fold (\<lambda>y. life_cell u x y) [0..NUM_CELLS_Y - 1]) [0..NUM_CELLS_X - 1] (clear_universe ((u + 1) mod 2) U)"

section \<open>The program\<close>

definition border :: "mach \<Rightarrow> mach option" where
  "border m = do {
     m \<leftarrow> neorv32_uart_putc NEORV32_UART0_BASE 0x2b m;
     m \<leftarrow> putcs NEORV32_UART0_BASE (replicate (nat NUM_CELLS_X) 0x2d) m;
     neorv32_uart_putc NEORV32_UART0_BASE 0x2b m
   }"

definition print_row :: "nat \<Rightarrow> universe \<Rightarrow> int \<Rightarrow> mach \<Rightarrow> mach option" where
  "print_row u U y m = do {
     m \<leftarrow> neorv32_uart_putc NEORV32_UART0_BASE 0x7c m;
     m \<leftarrow> putcs NEORV32_UART0_BASE (map (\<lambda>x. if get_cell u x y U \<noteq> 0 then CELL_ALIVE else CELL_DEAD) [0..NUM_CELLS_X - 1]) m;
     m \<leftarrow> neorv32_uart_putc NEORV32_UART0_BASE 0x7c m;
     m \<leftarrow> neorv32_uart_putc NEORV32_UART0_BASE 0x0d m;
     neorv32_uart_putc NEORV32_UART0_BASE 0x0a m
   }"

definition print_universe :: "nat \<Rightarrow> universe \<Rightarrow> mach \<Rightarrow> mach option" where
  "print_universe u U m = do {
     m \<leftarrow> border m;
     m \<leftarrow> neorv32_uart_putc NEORV32_UART0_BASE 0x0d m;
     m \<leftarrow> neorv32_uart_putc NEORV32_UART0_BASE 0x0a m;
     m \<leftarrow> fold (\<lambda>y m. Option.bind m (print_row u U y)) [0..NUM_CELLS_Y - 1] (Some m);
     border m
   }"

text \<open>One turn of the inner loop.  \<open>None\<close> as the next universe is the \<^verbatim>\<open>break\<close> of a restart.\<close>

definition life_turn :: "nat \<Rightarrow> u32 \<Rightarrow> universe \<Rightarrow> mach \<Rightarrow> ((nat \<times> u32 \<times> universe) option \<times> mach) option" where
  "life_turn u generation U m = do {
     let (received, m) = neorv32_uart_char_received NEORV32_UART0_BASE m;
     (restart, m) \<leftarrow> (if received \<noteq> 0 then do {
           let (_, m) = neorv32_uart_char_received_get NEORV32_UART0_BASE m;
           m \<leftarrow> neorv32_uart_printf NEORV32_UART0_BASE (10 # str ''Restart (y/n)?'') [] m;
           (c, m) \<leftarrow> neorv32_uart_getc NEORV32_UART0_BASE m;
           Some (c = 0x79, m)
         } else Some (False, m));
     if restart then Some (None, m)
     else do {
       m \<leftarrow> neorv32_uart_printf NEORV32_UART0_BASE ([10, 10] @ str ''Generation %u: %u/%u living cells'' @ [10])
              [AInt generation, AInt (of_int (pop_count u U)), AInt (of_int (NUM_CELLS_X * NUM_CELLS_Y))] m;
       m \<leftarrow> print_universe u U m;
       let U = life_step u U;
       let (clk, m) = neorv32_sysinfo_get_clk m;
       Some (Some ((u + 1) mod 2, generation + 1, U), neorv32_aux_delay_ms clk GEN_DELAY m)
     }
   }"

text \<open>The random start: from the generator of the hardware where there is one.\<close>

definition seed_cell :: "u32 \<Rightarrow> int \<Rightarrow> int \<Rightarrow> (u32 \<times> universe \<times> mach) option \<Rightarrow> (u32 \<times> universe \<times> mach) option" where
  "seed_cell trng_available x y s = do {
     (rnd, U, m) \<leftarrow> s;
     if trng_available \<noteq> 0 then do {
       m \<leftarrow> poll (\<lambda>v. v AND BIT (trng_ctrl TRNG_CTRL_AVAIL) = 0) TRNG_CTRL m;
       let (d, m) = neorv32_trng_data_get m;
       Some (rnd, uput 0 x y d U, m)
     } else do {
       let rnd = neorv32_aux_xorshift32 rnd;
       Some (rnd, uput 0 x y (ucast rnd) U, m)
     }
   }"

definition life_seed :: "u32 \<Rightarrow> u32 \<Rightarrow> universe \<Rightarrow> mach \<Rightarrow> (u32 \<times> universe \<times> mach) option" where
  "life_seed trng_available rnd U m =
     fold (\<lambda>x. fold (\<lambda>y. seed_cell trng_available x y) [0..NUM_CELLS_Y - 1]) [0..NUM_CELLS_X div 8 - 1] (Some (rnd, U, m))"

section \<open>The rule on sets of cells\<close>

definition in_world :: "int \<times> int \<Rightarrow> bool" where
  "in_world c \<longleftrightarrow> 0 \<le> fst c \<and> fst c < NUM_CELLS_X \<and> 0 \<le> snd c \<and> snd c < NUM_CELLS_Y"

definition alive :: "nat \<Rightarrow> universe \<Rightarrow> (int \<times> int) set" where
  "alive u U = {c. in_world c \<and> bit (U u (fst c div 8) (snd c)) (7 - nat (fst c mod 8))}"

definition torus :: "int \<times> int \<Rightarrow> int \<times> int" where
  "torus c = (fst c mod NUM_CELLS_X, snd c mod NUM_CELLS_Y)"

definition neighbours :: "int \<times> int \<Rightarrow> (int \<times> int) list" where
  "neighbours c = map torus [(fst c - 1, snd c - 1), (fst c, snd c - 1), (fst c + 1, snd c - 1), (fst c - 1, snd c),
     (fst c + 1, snd c), (fst c - 1, snd c + 1), (fst c, snd c + 1), (fst c + 1, snd c + 1)]"

definition conway :: "(int \<times> int) set \<Rightarrow> (int \<times> int) set" where
  "conway A = {c. in_world c \<and> (card (set (neighbours c) \<inter> A) = 3 \<or> c \<in> A \<and> card (set (neighbours c) \<inter> A) = 2)}"

section \<open>A generation\<close>

lemma and_7: "x AND 7 = x mod 8" for x :: int
  using take_bit_eq_mod [of 3 x] by (simp add: take_bit_eq_mask mask_eq_exp_minus_1)

lemma drop_3: "drop_bit 3 x = x div 8" for x :: int
  by (simp add: drop_bit_eq_div)

lemma bit_cell_mask: "bit (cell_mask x) n \<longleftrightarrow> n = 7 - nat (x mod 8)"
proof -
  have "0 \<le> x mod 8" "x mod 8 < 8" by simp_all
  then have e: "nat (7 - x mod 8) = 7 - nat (x mod 8)" by linarith
  define k where "k = 7 - nat (x mod 8)"
  have "k < 8" by (simp add: k_def)
  then show ?thesis unfolding cell_mask_def and_7 e k_def [symmetric] by (auto simp: bit_simps)
qed

lemma and_cell_mask: "b AND cell_mask x \<noteq> 0 \<longleftrightarrow> bit b (7 - nat (x mod 8))"
proof
  assume "b AND cell_mask x \<noteq> 0"
  moreover have "b AND cell_mask x = 0" if "\<not> bit b (7 - nat (x mod 8))"
    by (rule bit_word_eqI) (use that in \<open>auto simp: bit_and_iff bit_cell_mask\<close>)
  ultimately show "bit b (7 - nat (x mod 8))" by blast
next
  assume "bit b (7 - nat (x mod 8))"
  then have "bit (b AND cell_mask x) (7 - nat (x mod 8))" by (simp add: bit_and_iff bit_cell_mask)
  then show "b AND cell_mask x \<noteq> 0" by auto
qed

lemma get_cell_alive:
  assumes "- 1 \<le> x" "x \<le> NUM_CELLS_X" "- 1 \<le> y" "y \<le> NUM_CELLS_Y"
  shows "get_cell u x y U = (if torus (x, y) \<in> alive u U then 1 else 0)"
proof -
  have x: "(if (if x < 0 then NUM_CELLS_X - 1 else x) > NUM_CELLS_X - 1 then 0 else if x < 0 then NUM_CELLS_X - 1 else x) = x mod NUM_CELLS_X"
  proof -
    consider "x = - 1" | "0 \<le> x" "x < NUM_CELLS_X" | "x = NUM_CELLS_X" using assms by linarith
    then show ?thesis by cases (auto simp: life_config)
  qed
  have y: "(if (if y < 0 then NUM_CELLS_Y - 1 else y) > NUM_CELLS_Y - 1 then 0 else if y < 0 then NUM_CELLS_Y - 1 else y) = y mod NUM_CELLS_Y"
  proof -
    consider "y = - 1" | "0 \<le> y" "y < NUM_CELLS_Y" | "y = NUM_CELLS_Y" using assms by linarith
    then show ?thesis by cases (auto simp: life_config)
  qed
  have "in_world (torus (x, y))" by (simp add: in_world_def torus_def life_config)
  moreover have "get_cell u x y U = (if U u (drop_bit 3 (x mod NUM_CELLS_X)) (y mod NUM_CELLS_Y) AND cell_mask (x mod NUM_CELLS_X) \<noteq> 0 then 1 else 0)"
    unfolding get_cell_def Let_def x y by simp
  ultimately show ?thesis unfolding and_cell_mask drop_3 by (simp add: alive_def torus_def)
qed

text \<open>The eight neighbours are different cells.\<close>

lemma neighbours_distinct:
  assumes "in_world c" shows "distinct (neighbours c)"
proof -
  obtain x y where c: "c = (x, y)" by (cases c)
  have x: "0 \<le> x" "x < 160" "0 \<le> y" "y < 40" using assms by (auto simp: c in_world_def life_config)
  have x1: "(x - 1) mod 160 = (if x = 0 then 159 else x - 1)" "(x + 1) mod 160 = (if x = 159 then 0 else x + 1)" "x mod 160 = x"
    using x by auto
  have y1: "(y - 1) mod 40 = (if y = 0 then 39 else y - 1)" "(y + 1) mod 40 = (if y = 39 then 0 else y + 1)" "y mod 40 = y"
    using x by auto
  have mx: "(x - 1) mod 160 \<noteq> x mod 160" "(x + 1) mod 160 \<noteq> x mod 160" "(x - 1) mod 160 \<noteq> (x + 1) mod 160"
    unfolding x1 using x by auto
  have my: "(y - 1) mod 40 \<noteq> y mod 40" "(y + 1) mod 40 \<noteq> y mod 40" "(y - 1) mod 40 \<noteq> (y + 1) mod 40"
    unfolding y1 using x by auto
  have d: "distinct [(a, d), (b, d), (c, d), (a, e), (c, e), (a, f), (b, f), (c, f)]"
    if "a \<noteq> b" "c \<noteq> b" "a \<noteq> c" "d \<noteq> e" "f \<noteq> e" "d \<noteq> f" for a b c d e f :: int
    using that that [symmetric] by simp
  have "distinct (map torus [(x - 1, y - 1), (x, y - 1), (x + 1, y - 1), (x - 1, y), (x + 1, y), (x - 1, y + 1), (x, y + 1), (x + 1, y + 1)])"
    unfolding torus_def life_config fst_conv snd_conv list.map
    by (rule d [OF mx my])
  then show ?thesis unfolding neighbours_def c fst_conv snd_conv .
qed

lemma card_filter:
  assumes "distinct xs" shows "card (set xs \<inter> A) = List.length (filter (\<lambda>c. c \<in> A) xs)"
proof -
  have "set (filter (\<lambda>c. c \<in> A) xs) = set xs \<inter> A" by auto
  moreover have "card (set (filter (\<lambda>c. c \<in> A) xs)) = List.length (filter (\<lambda>c. c \<in> A) xs)"
    by (rule distinct_card) (rule distinct_filter [OF assms])
  ultimately show ?thesis by simp
qed

lemma neighborhood_alive:
  assumes "in_world (x, y)"
  shows "get_neighborhood u x y U = int (card (set (neighbours (x, y)) \<inter> alive u U))"
proof -
  have c: "0 \<le> x" "x < NUM_CELLS_X" "0 \<le> y" "y < NUM_CELLS_Y" using assms by (auto simp: in_world_def)
  have g: "get_cell u i j U = (if torus (i, j) \<in> alive u U then 1 else 0)" if "i \<in> {x - 1, x, x + 1}" "j \<in> {y - 1, y, y + 1}" for i j
    by (rule get_cell_alive) (use that c in auto)
  have s: "get_neighborhood u x y U = (\<Sum>c\<leftarrow>neighbours (x, y). if c \<in> alive u U then 1 else 0)"
    unfolding get_neighborhood_def neighbours_def by (simp add: g)
  have "(\<Sum>c\<leftarrow>xs. if c \<in> A then 1 else 0) = int (List.length (filter (\<lambda>c. c \<in> A) xs))" for xs and A :: "(int \<times> int) set"
    by (induction xs) auto
  then show ?thesis unfolding s card_filter [OF neighbours_distinct [OF assms]] .
qed

lemma life_rule_conway:
  assumes "in_world (x, y)"
  shows "life_rule (get_cell u x y U) (get_neighborhood u x y U) \<longleftrightarrow> (x, y) \<in> conway (alive u U)"
proof -
  have "torus (x, y) = (x, y)" using assms by (auto simp: in_world_def torus_def life_config)
  moreover have "- 1 \<le> x" "x \<le> NUM_CELLS_X" "- 1 \<le> y" "y \<le> NUM_CELLS_Y" using assms by (auto simp: in_world_def)
  ultimately have "get_cell u x y U = (if (x, y) \<in> alive u U then 1 else 0)" using get_cell_alive by simp
  then show ?thesis using assms unfolding life_rule_def neighborhood_alive [OF assms] by (auto simp: conway_def)
qed

lemma alive_set_cell:
  assumes "in_world (x, y)"
  shows "alive u (set_cell u x y U) = insert (x, y) (alive u U)" "u' \<noteq> u \<Longrightarrow> set_cell u x y U u' = U u'"
proof -
  have n: "\<not> (x \<ge> NUM_CELLS_X \<or> y \<ge> NUM_CELLS_Y)" using assms by (auto simp: in_world_def)
  have b: "x' div 8 = x div 8 \<and> 7 - nat (x' mod 8) = 7 - nat (x mod 8) \<longleftrightarrow> x' = x" for x'
  proof -
    have "x' mod 8 = x mod 8" if "7 - nat (x' mod 8) = 7 - nat (x mod 8)"
    proof -
      have "0 \<le> x' mod 8" "x' mod 8 < 8" "0 \<le> x mod 8" "x mod 8 < 8" by simp_all
      then show ?thesis using that by linarith
    qed
    then show ?thesis by (metis div_mult_mod_eq)
  qed
  have "c \<in> alive u (set_cell u x y U) \<longleftrightarrow> c \<in> insert (x, y) (alive u U)" for c
  proof (cases "fst c div 8 = x div 8 \<and> snd c = y")
    case True
    then have "bit (set_cell u x y U u (fst c div 8) (snd c)) k \<longleftrightarrow> bit (U u (fst c div 8) (snd c)) k \<or> k = 7 - nat (x mod 8)" for k
      using n by (simp add: set_cell_def uput_def drop_3 bit_or_iff bit_cell_mask)
    then show ?thesis using b [of "fst c"] True assms by (auto simp: alive_def prod_eq_iff)
  next
    case False
    then have "set_cell u x y U u (fst c div 8) (snd c) = U u (fst c div 8) (snd c)"
      using n by (auto simp: set_cell_def uput_def drop_3)
    then show ?thesis using False by (auto simp: alive_def)
  qed
  then show "alive u (set_cell u x y U) = insert (x, y) (alive u U)" by blast
  show "set_cell u x y U u' = U u'" if "u' \<noteq> u" using that by (simp add: set_cell_def uput_def)
qed

lemma clear_universe_cells:
  "clear_universe u U = (\<lambda>u' x y. if u' = u \<and> 0 \<le> x \<and> x < NUM_CELLS_X div 8 \<and> 0 \<le> y \<and> y < NUM_CELLS_Y then 0 else U u' x y)"
proof -
  have i: "fold (\<lambda>y. uput u x y 0) ys V = (\<lambda>u' x' y'. if u' = u \<and> x' = x \<and> y' \<in> set ys then 0 else V u' x' y')" for x ys V
    by (induction ys arbitrary: V) (auto simp: uput_def fun_eq_iff)
  have "fold (\<lambda>x. fold (\<lambda>y. uput u x y 0) ys) xs V
      = (\<lambda>u' x' y'. if u' = u \<and> x' \<in> set xs \<and> y' \<in> set ys then 0 else V u' x' y')" for xs ys V
    by (induction xs arbitrary: V) (auto simp: i fun_eq_iff)
  then show ?thesis unfolding clear_universe_def by (auto simp: fun_eq_iff)
qed

lemma alive_clear: "alive u (clear_universe u U) = {}"
  by (auto simp: alive_def clear_universe_cells in_world_def life_config)

lemma alive_cong: "V u = U u \<Longrightarrow> alive u V = alive u U"
  by (simp add: alive_def)

text \<open>What the loops have done after some rows and columns: they write the other universe only, and
read the one they do not write.\<close>

definition life_done :: "nat \<Rightarrow> universe \<Rightarrow> (int \<times> int) set \<Rightarrow> universe \<Rightarrow> bool" where
  "life_done u U D V \<longleftrightarrow> V u = U u \<and> alive ((u + 1) mod 2) V = D \<inter> conway (alive u U)"

lemma life_cell_done:
  assumes "life_done u U D V" "in_world (x, y)" "u < 2"
  shows "life_done u U (insert (x, y) D) (life_cell u x y V)"
proof -
  have n: "u \<noteq> (u + 1) mod 2" using assms(3) by (cases u) auto
  have r: "life_rule (get_cell u x y V) (get_neighborhood u x y V) \<longleftrightarrow> (x, y) \<in> conway (alive u U)"
    using life_rule_conway [OF assms(2), of u V] alive_cong [of V u U] assms(1) by (simp add: life_done_def)
  show ?thesis
    using assms(1) alive_set_cell(1) [OF assms(2), of "(u + 1) mod 2" V] alive_set_cell(2) [OF assms(2) n, of V]
    by (auto simp: life_done_def life_cell_def r)
qed

lemma life_column_done:
  assumes "life_done u U D V" "\<forall>y\<in>set ys. in_world (x, y)" "u < 2"
  shows "life_done u U (D \<union> {x} \<times> set ys) (fold (\<lambda>y. life_cell u x y) ys V)"
  using assms(1,2)
proof (induction ys arbitrary: D V)
  case (Cons y ys)
  have "life_done u U (insert (x, y) D) (life_cell u x y V)" using life_cell_done [OF Cons.prems(1) _ assms(3)] Cons.prems(2) by simp
  from Cons.IH [OF this] Cons.prems(2) show ?case by simp
qed simp

lemma life_rows_done:
  assumes "life_done u U D V" "\<forall>x\<in>set xs. \<forall>y\<in>set ys. in_world (x, y)" "u < 2"
  shows "life_done u U (D \<union> set xs \<times> set ys) (fold (\<lambda>x. fold (\<lambda>y. life_cell u x y) ys) xs V)"
  using assms(1,2)
proof (induction xs arbitrary: D V)
  case (Cons x xs)
  have "life_done u U (D \<union> {x} \<times> set ys) (fold (\<lambda>y. life_cell u x y) ys V)"
    using life_column_done [OF Cons.prems(1) _ assms(3)] Cons.prems(2) by simp
  moreover have "D \<union> {x} \<times> set ys \<union> set xs \<times> set ys = D \<union> set (x # xs) \<times> set ys" by auto
  ultimately show ?case using Cons.IH [of "D \<union> {x} \<times> set ys"] Cons.prems(2) by simp
qed simp

lemma life_step_conway:
  assumes "u < 2"
  shows "alive ((u + 1) mod 2) (life_step u U) = conway (alive u U)" "life_step u U u = U u"
proof -
  let ?V = "clear_universe ((u + 1) mod 2) U"
  have "u \<noteq> (u + 1) mod 2" using assms by (cases u) auto
  then have "?V u = U u" by (simp add: clear_universe_cells fun_eq_iff)
  then have "life_done u U {} ?V" using alive_clear by (simp add: life_done_def)
  from life_rows_done [OF this, of "[0..NUM_CELLS_X - 1]" "[0..NUM_CELLS_Y - 1]"] assms
  have d: "life_done u U (set [0..NUM_CELLS_X - 1] \<times> set [0..NUM_CELLS_Y - 1]) (life_step u U)"
    by (simp add: life_step_def in_world_def)
  have "conway (alive u U) \<subseteq> set [0..NUM_CELLS_X - 1] \<times> set [0..NUM_CELLS_Y - 1]"
    by (auto simp: conway_def in_world_def)
  then show "alive ((u + 1) mod 2) (life_step u U) = conway (alive u U)" "life_step u U u = U u"
    using d by (auto simp: life_done_def)
qed

lemma pop_count_alive: "pop_count u U = int (card (alive u U))"
proof -
  have f: "finite (alive u U)"
    by (rule finite_subset [of _ "{0..<NUM_CELLS_X} \<times> {0..<NUM_CELLS_Y}"]) (auto simp: alive_def in_world_def)
  have c: "fold (\<lambda>y n. n + g y) ys n = n + (\<Sum>y\<leftarrow>ys. g y)" for g :: "int \<Rightarrow> int" and ys n
    by (induction ys arbitrary: n) auto
  have "pop_count u U = (\<Sum>x\<leftarrow>[0..NUM_CELLS_X - 1]. \<Sum>y\<leftarrow>[0..NUM_CELLS_Y - 1]. get_cell u x y U)"
    unfolding pop_count_def c by simp
  also have "\<dots> = (\<Sum>x\<in>{0..NUM_CELLS_X - 1}. \<Sum>y\<in>{0..NUM_CELLS_Y - 1}. get_cell u x y U)"
    by (simp add: sum_list_distinct_conv_sum_set)
  also have "\<dots> = (\<Sum>c\<in>{0..NUM_CELLS_X - 1} \<times> {0..NUM_CELLS_Y - 1}. get_cell u (fst c) (snd c) U)"
    by (simp add: sum.cartesian_product split_beta)
  also have "\<dots> = (\<Sum>c\<in>{0..NUM_CELLS_X - 1} \<times> {0..NUM_CELLS_Y - 1}. if c \<in> alive u U then 1 else 0)"
  proof (rule sum.cong)
    fix c assume c: "c \<in> {0..NUM_CELLS_X - 1} \<times> {0..NUM_CELLS_Y - 1}"
    then have "torus c = c" by (auto simp: torus_def)
    then show "get_cell u (fst c) (snd c) U = (if c \<in> alive u U then 1 else 0)"
      using get_cell_alive [of "fst c" "snd c" u U] c by auto
  qed simp
  also have "\<dots> = int (card (({0..NUM_CELLS_X - 1} \<times> {0..NUM_CELLS_Y - 1}) \<inter> alive u U))"
    by (simp add: sum.If_cases)
  also have "({0..NUM_CELLS_X - 1} \<times> {0..NUM_CELLS_Y - 1}) \<inter> alive u U = alive u U"
    by (auto simp: alive_def in_world_def)
  finally show ?thesis .
qed

text \<open>The inner loop without its input and output.\<close>

definition life_generations :: "nat \<Rightarrow> nat \<times> universe \<Rightarrow> nat \<times> universe" where
  "life_generations k s = ((\<lambda>(u, U). ((u + 1) mod 2, life_step u U)) ^^ k) s"

lemma life_generations_alive:
  assumes "u < 2"
  shows "fst (life_generations k (u, U)) < 2
    \<and> alive (fst (life_generations k (u, U))) (snd (life_generations k (u, U))) = (conway ^^ k) (alive u U)"
proof (induction k)
  case 0
  then show ?case using assms by (simp add: life_generations_def)
next
  case (Suc k)
  obtain v V where s: "life_generations k (u, U) = (v, V)" by (cases "life_generations k (u, U)")
  then have "life_generations (Suc k) (u, U) = ((v + 1) mod 2, life_step v V)" by (simp add: life_generations_def)
  then show ?case using Suc life_step_conway(1) [of v V] s by simp
qed

end
