(* ===== verification/Primes.thy ===== *)
theory Primes
  imports Prelude
begin

text \<open>
  The dual-core prime counter, \<^verbatim>\<open>sw/example/demo_dual_core_primes/main.c\<close>: the trial division, the
  count over a range, and the hand-over of half of the range to the second core and of its result
  back through shared atomic variables.  Each access to a shared variable is one step, and the
  steps of the two cores interleave in any way.
\<close>

section \<open>Trial division\<close>

text \<open>In 32 bits, where \<^verbatim>\<open>i*i\<close> may wrap; \<open>None\<close> is a remainder by zero.\<close>

partial_function (option) is_prime_loop :: "u32 \<Rightarrow> u32 \<Rightarrow> u32 option" where
  "is_prime_loop n i =
     (if i * i \<le> n then
        if i = 0 then None else if n mod i = 0 then Some 0 else is_prime_loop n (i + 1)
      else Some 1)"

definition is_prime :: "u32 \<Rightarrow> u32 option" where
  "is_prime n = (if n < 2 then Some 0 else is_prime_loop n 2)"

partial_function (option) count_loop :: "u32 \<Rightarrow> u32 \<Rightarrow> u32 \<Rightarrow> u32 option" where
  "count_loop stop i num_primes =
     (if i < stop then do {
        p \<leftarrow> is_prime i;
        count_loop stop (i + 1) (if p \<noteq> 0 then num_primes + 1 else num_primes)
      } else Some num_primes)"

definition count_primes :: "u32 \<Rightarrow> u32 \<Rightarrow> u32 option" where
  "count_primes start stop = count_loop stop start 0"

section \<open>Prime numbers\<close>

definition prime_number :: "nat \<Rightarrow> bool" where
  "prime_number n \<longleftrightarrow> 2 \<le> n \<and> (\<forall>d. 2 \<le> d \<and> d < n \<longrightarrow> \<not> d dvd n)"

definition primes_in :: "nat \<Rightarrow> nat \<Rightarrow> nat set" where
  "primes_in a b = {p. prime_number p \<and> a \<le> p \<and> p < b}"

lemma no_small_divisor:
  assumes "2 \<le> n" "\<And>d. 2 \<le> d \<Longrightarrow> d < i \<Longrightarrow> \<not> d dvd n" "n < i * i"
  shows "prime_number n"
proof -
  have "\<not> d dvd n" if d: "2 \<le> d" "d < n" for d
  proof
    assume "d dvd n"
    then obtain e where e: "n = d * e" by blast
    have "e \<noteq> 0" using e assms(1) by (cases e) auto
    moreover have "e \<noteq> 1" using e d(2) by auto
    ultimately have "2 \<le> e" by linarith
    have "d < i \<or> e < i"
    proof (rule ccontr)
      assume "\<not> (d < i \<or> e < i)"
      then have "i * i \<le> d * e" by (intro mult_le_mono) auto
      then show False using e assms(3) by simp
    qed
    moreover have "d dvd n" "e dvd n" using e by simp_all
    ultimately show False using assms(2) d(1) \<open>2 \<le> e\<close> by blast
  qed
  then show ?thesis using assms(1) by (simp add: prime_number_def)
qed

lemma square_unat:
  assumes "unat i \<le> 65535" shows "unat (i * i :: u32) = unat i * unat i"
proof -
  have "unat i * unat i \<le> 65535 * 65535" using assms by (intro mult_le_mono)
  then have "unat i * unat i < 2 ^ LENGTH(32)" by simp
  then show ?thesis by (simp add: unat_word_ariths)
qed

lemma is_prime_loop_result:
  assumes "2 \<le> unat n" "unat n \<le> 65535 * 65535" "2 \<le> unat i" "unat i \<le> 65535"
    and "\<And>d. 2 \<le> d \<Longrightarrow> d < unat i \<Longrightarrow> \<not> d dvd unat n"
  shows "is_prime_loop n i = Some (if prime_number (unat n) then 1 else 0)"
  using assms(3-)
proof (induction "65535 - unat i" arbitrary: i rule: less_induct)
  case less
  note sq = square_unat [OF less.prems(2)]
  show ?case
  proof (cases "unat i * unat i \<le> unat n")
    case False
    then have "\<not> i * i \<le> n" by (simp add: word_le_nat_alt sq)
    moreover have "unat n < unat i * unat i" using False by linarith
    then have "prime_number (unat n)" using no_small_divisor [OF assms(1) less.prems(3)] by blast
    ultimately show ?thesis by (subst is_prime_loop.simps) simp
  next
    case True
    then have c: "i * i \<le> n" "i \<noteq> 0" using less.prems(1) by (auto simp: word_le_nat_alt sq)
    have i_n: "unat i < unat n"
    proof -
      have "unat i * 2 \<le> unat i * unat i" using less.prems(1) by (intro mult_le_mono2)
      then show ?thesis using True less.prems(1) by linarith
    qed
    show ?thesis
    proof (cases "unat i dvd unat n")
      case d: True
      then have "unat (n mod i) = unat (0 :: u32)" unfolding unat_mod by simp
      then have "n mod i = 0" using word_unat_eq_iff by blast
      moreover have "\<not> prime_number (unat n)" using d i_n less.prems(1) by (auto simp: prime_number_def)
      ultimately show ?thesis using c by (subst is_prime_loop.simps) simp
    next
      case d: False
      then have m: "n mod i \<noteq> 0" by (auto simp: word_unat_eq_iff unat_mod dvd_eq_mod_eq_0)
      have lt: "unat i < 65535"
      proof (rule ccontr)
        assume "\<not> unat i < 65535"
        then have "unat i = 65535" using less.prems(2) by simp
        then show False using True d assms(2) by simp
      qed
      then have s: "unat (i + 1) = unat i + 1" by (simp add: unat_word_ariths)
      have "is_prime_loop n (i + 1) = Some (if prime_number (unat n) then 1 else 0)"
      proof (rule less.hyps)
        show "65535 - unat (i + 1) < 65535 - unat i" "2 \<le> unat (i + 1)" "unat (i + 1) \<le> 65535"
          using lt s less.prems(1) by auto
        show "\<not> d' dvd unat n" if "2 \<le> d'" "d' < unat (i + 1)" for d'
          using that d less.prems(3) s by (cases "d' = unat i") auto
      qed
      then show ?thesis using c m by (subst is_prime_loop.simps) simp
    qed
  qed
qed

lemma is_prime_result:
  assumes "unat n \<le> 65535 * 65535"
  shows "is_prime n = Some (if prime_number (unat n) then 1 else 0)"
proof (cases "unat n < 2")
  case True
  then show ?thesis by (simp add: is_prime_def word_less_nat_alt prime_number_def)
next
  case False
  then show ?thesis using is_prime_loop_result [of n 2] assms by (simp add: is_prime_def word_less_nat_alt)
qed

lemma primes_in_step:
  "a < b \<Longrightarrow> primes_in a b = (if prime_number a then insert a (primes_in (Suc a) b) else primes_in (Suc a) b)"
  by (auto simp: primes_in_def Suc_le_eq le_less)

lemma finite_primes_in [simp]: "finite (primes_in a b)"
  by (rule finite_subset [of _ "{..<b}"]) (auto simp: primes_in_def)

lemma count_loop_result:
  assumes "unat stop \<le> 65535 * 65535 + 1"
  shows "count_loop stop i c = Some (c + of_nat (card (primes_in (unat i) (unat stop))))"
proof (induction "unat stop - unat i" arbitrary: i c)
  case 0
  then have "primes_in (unat i) (unat stop) = {}" "\<not> i < stop" by (auto simp: primes_in_def word_less_nat_alt)
  then show ?case by (subst count_loop.simps) simp
next
  case (Suc k)
  then have l: "unat i < unat stop" by linarith
  moreover have "unat stop < 2 ^ LENGTH(32)" by (rule unsigned_less)
  ultimately have "unat i + 1 < 2 ^ LENGTH(32)" by linarith
  then have s: "unat (i + 1) = Suc (unat i)" by (simp add: unat_word_ariths)
  have p: "is_prime i = Some (if prime_number (unat i) then 1 else 0)" using is_prime_result l assms by simp
  have k: "k = unat stop - unat (i + 1)" using Suc.hyps(2) s by simp
  have "unat i \<notin> primes_in (Suc (unat i)) (unat stop)" by (simp add: primes_in_def)
  then show ?case
    using l s p Suc.hyps(1) [OF k] primes_in_step [OF l]
    by (subst count_loop.simps) (simp add: word_less_nat_alt)
qed

lemma count_primes_result:
  "unat stop \<le> 65535 * 65535 + 1 \<Longrightarrow> count_primes start stop = Some (of_nat (card (primes_in (unat start) (unat stop))))"
  using count_loop_result [of stop start 0] by (simp add: count_primes_def)

lemma primes_in_split: "a \<le> b \<Longrightarrow> b \<le> c \<Longrightarrow> card (primes_in a c) = card (primes_in a b) + card (primes_in b c)"
proof -
  assume "a \<le> b" "b \<le> c"
  then have "primes_in a c = primes_in a b \<union> primes_in b c" "primes_in a b \<inter> primes_in b c = {}"
    by (auto simp: primes_in_def)
  then show ?thesis by (simp add: card_Un_disjoint)
qed

text \<open>Above that bound the square wraps.  Four further than this number, the largest prime of 32 bits,
no square modulo \<^verbatim>\<open>2^32\<close> reaches, and the loop runs on until the number divides itself.\<close>

lemma square_mod_16: "unat (i * i :: u32) mod 16 \<in> {0, 1, 4, 9}"
proof -
  have "unat (i * i) mod 16 = (unat i mod 16) * (unat i mod 16) mod 16"
    by (simp add: unat_word_ariths mod_mult_eq mod_mod_cancel)
  moreover have "x * x mod 16 \<in> {0, 1, 4, 9}" if "x < 16" for x :: nat
  proof -
    have "x \<in> set [0..<16]" using that by simp
    moreover have "list_all (\<lambda>x. x * x mod 16 \<in> {0, 1, 4, 9 :: nat}) [0..<16]" by code_simp
    ultimately show ?thesis by (simp add: list_all_iff)
  qed
  ultimately show ?thesis by simp
qed

lemma square_wraps: "i * i \<le> (4294967291 :: u32)"
proof (rule ccontr)
  assume "\<not> i * i \<le> 4294967291"
  then have "4294967291 < unat (i * i)" by (simp add: word_le_nat_alt)
  moreover have "unat (i * i) < 2 ^ LENGTH(32)" by (rule unsigned_less)
  ultimately have "unat (i * i) \<in> {4294967292, 4294967293, 4294967294, 4294967295}" by auto
  then show False using square_mod_16 [of i] by auto
qed

lemma is_prime_wraps: "is_prime 4294967291 = Some 0"
proof -
  have "is_prime_loop 4294967291 i = Some 0" if "2 \<le> unat i" "unat i \<le> 4294967291" for i
    using that
  proof (induction "4294967291 - unat i" arbitrary: i rule: less_induct)
    case less
    then have "i \<noteq> 0" by auto
    show ?case
    proof (cases "4294967291 mod i = 0")
      case True
      then show ?thesis using square_wraps [of i] \<open>i \<noteq> 0\<close> by (subst is_prime_loop.simps) simp
    next
      case False
      then have "i \<noteq> 4294967291" by auto
      then have n: "unat i \<noteq> 4294967291" by (simp add: word_unat_eq_iff)
      then have s: "unat (i + 1) = unat i + 1" using less.prems(2) by (simp add: unat_word_ariths)
      have "is_prime_loop 4294967291 (i + 1) = Some 0"
        using less.prems n by (intro less.hyps) (simp_all add: s)
      then show ?thesis using square_wraps [of i] \<open>i \<noteq> 0\<close> False by (subst is_prime_loop.simps) simp
    qed
  qed
  from this [of 2] show ?thesis by (simp add: is_prime_def word_less_nat_alt)
qed

section \<open>The two cores\<close>

text \<open>Core 0 passes the upper half to core 1, counts the lower half, waits for the flag and adds.
Core 1 waits for the flag, fetches the range, counts, stores its result and clears the flag.\<close>

datatype core0_pc = Store_begin | Store_end | Set_run | Count_low | Wait_clear | Add_result | Finished

datatype core1_pc = Wait_run | Fetch_begin | Fetch_end | Count_high | Store_count | Clear_run | Returned

record primes_sys =
  shared_arg0 :: u32
  shared_arg1 :: u32
  shared_run :: bool
  pc0 :: core0_pc
  result0 :: u32
  pc1 :: core1_pc
  range_begin :: u32
  range_end :: u32
  count1 :: u32

inductive primes_step :: "u32 \<Rightarrow> primes_sys \<Rightarrow> primes_sys \<Rightarrow> bool" for num_max where
  store_begin: "pc0 s = Store_begin \<Longrightarrow> primes_step num_max s (s\<lparr>shared_arg0 := num_max div 2, pc0 := Store_end\<rparr>)"
| store_end: "pc0 s = Store_end \<Longrightarrow> primes_step num_max s (s\<lparr>shared_arg1 := num_max, pc0 := Set_run\<rparr>)"
| set_run: "pc0 s = Set_run \<Longrightarrow> primes_step num_max s (s\<lparr>shared_run := True, pc0 := Count_low\<rparr>)"
| count_low: "pc0 s = Count_low \<Longrightarrow> count_primes 0 (num_max div 2) = Some r \<Longrightarrow>
    primes_step num_max s (s\<lparr>result0 := r, pc0 := Wait_clear\<rparr>)"
| spin_clear: "pc0 s = Wait_clear \<Longrightarrow> shared_run s \<Longrightarrow> primes_step num_max s s"
| clear_seen: "pc0 s = Wait_clear \<Longrightarrow> \<not> shared_run s \<Longrightarrow> primes_step num_max s (s\<lparr>pc0 := Add_result\<rparr>)"
| collect: "pc0 s = Add_result \<Longrightarrow> primes_step num_max s (s\<lparr>result0 := result0 s + shared_arg0 s, pc0 := Finished\<rparr>)"
| spin_run: "pc1 s = Wait_run \<Longrightarrow> \<not> shared_run s \<Longrightarrow> primes_step num_max s s"
| run_seen: "pc1 s = Wait_run \<Longrightarrow> shared_run s \<Longrightarrow> primes_step num_max s (s\<lparr>pc1 := Fetch_begin\<rparr>)"
| fetch_begin: "pc1 s = Fetch_begin \<Longrightarrow> primes_step num_max s (s\<lparr>range_begin := shared_arg0 s, pc1 := Fetch_end\<rparr>)"
| fetch_end: "pc1 s = Fetch_end \<Longrightarrow> primes_step num_max s (s\<lparr>range_end := shared_arg1 s, pc1 := Count_high\<rparr>)"
| count_high: "pc1 s = Count_high \<Longrightarrow> count_primes (range_begin s) (range_end s) = Some r \<Longrightarrow>
    primes_step num_max s (s\<lparr>count1 := r, pc1 := Store_count\<rparr>)"
| store_count: "pc1 s = Store_count \<Longrightarrow> primes_step num_max s (s\<lparr>shared_arg0 := count1 s, pc1 := Clear_run\<rparr>)"
| clear_run: "pc1 s = Clear_run \<Longrightarrow> primes_step num_max s (s\<lparr>shared_run := False, pc1 := Returned\<rparr>)"

text \<open>Before the parallel part: the flag is clear and both cores are about to start.\<close>

definition primes_start :: "primes_sys \<Rightarrow> bool" where
  "primes_start s \<longleftrightarrow> \<not> shared_run s \<and> pc0 s = Store_begin \<and> pc1 s = Wait_run"

inductive primes_reach :: "u32 \<Rightarrow> primes_sys \<Rightarrow> bool" for num_max where
  start: "primes_start s \<Longrightarrow> primes_reach num_max s"
| move: "primes_reach num_max s \<Longrightarrow> primes_step num_max s s' \<Longrightarrow> primes_reach num_max s'"

text \<open>How far each core is, by the part the other plays in it.\<close>

definition primes_inv :: "u32 \<Rightarrow> primes_sys \<Rightarrow> bool" where
  "primes_inv n s \<longleftrightarrow>
     (case pc0 s of
        Store_begin \<Rightarrow> pc1 s = Wait_run
      | Store_end \<Rightarrow> pc1 s = Wait_run \<and> shared_arg0 s = n div 2
      | Set_run \<Rightarrow> pc1 s = Wait_run \<and> shared_arg0 s = n div 2 \<and> shared_arg1 s = n
      | Count_low \<Rightarrow> True
      | Wait_clear \<Rightarrow> count_primes 0 (n div 2) = Some (result0 s)
      | Add_result \<Rightarrow> count_primes 0 (n div 2) = Some (result0 s) \<and> pc1 s = Returned
      | Finished \<Rightarrow> pc1 s = Returned \<and> (\<exists>a b. count_primes 0 (n div 2) = Some a \<and> count_primes (n div 2) n = Some b \<and> result0 s = a + b))
   \<and> (pc0 s \<in> {Store_begin, Store_end, Set_run} \<longrightarrow> \<not> shared_run s)
   \<and> (pc0 s \<in> {Count_low, Wait_clear, Add_result} \<longrightarrow>
       (shared_run s \<longleftrightarrow> pc1 s \<noteq> Returned)
       \<and> (case pc1 s of
           Wait_run \<Rightarrow> shared_arg0 s = n div 2 \<and> shared_arg1 s = n
         | Fetch_begin \<Rightarrow> shared_arg0 s = n div 2 \<and> shared_arg1 s = n
         | Fetch_end \<Rightarrow> range_begin s = n div 2 \<and> shared_arg1 s = n
         | Count_high \<Rightarrow> range_begin s = n div 2 \<and> range_end s = n
         | Store_count \<Rightarrow> count_primes (n div 2) n = Some (count1 s)
         | Clear_run \<Rightarrow> count_primes (n div 2) n = Some (shared_arg0 s)
         | Returned \<Rightarrow> count_primes (n div 2) n = Some (shared_arg0 s)))"

lemma primes_inv_step: "primes_step n s s' \<Longrightarrow> primes_inv n s \<Longrightarrow> primes_inv n s'"
  by (induction rule: primes_step.induct)
    (auto simp: primes_inv_def split: core0_pc.splits core1_pc.splits)

lemma primes_reach_inv: "primes_reach n s \<Longrightarrow> primes_inv n s"
proof (induction rule: primes_reach.induct)
  case (start s)
  then show ?case by (simp add: primes_start_def primes_inv_def)
next
  case (move s s')
  then show ?case using primes_inv_step by blast
qed

text \<open>The steps left until both cores are through; a step either takes one of them or spins.\<close>

primrec left0 :: "core0_pc \<Rightarrow> nat" where
  "left0 Store_begin = 6" | "left0 Store_end = 5" | "left0 Set_run = 4" | "left0 Count_low = 3"
| "left0 Wait_clear = 2" | "left0 Add_result = 1" | "left0 Finished = 0"

primrec left1 :: "core1_pc \<Rightarrow> nat" where
  "left1 Wait_run = 6" | "left1 Fetch_begin = 5" | "left1 Fetch_end = 4" | "left1 Count_high = 3"
| "left1 Store_count = 2" | "left1 Clear_run = 1" | "left1 Returned = 0"

lemma primes_step_left: "primes_step n s s' \<Longrightarrow> s' = s \<or> left0 (pc0 s') + left1 (pc1 s') < left0 (pc0 s) + left1 (pc1 s)"
  by (induction rule: primes_step.induct) auto

lemma primes_never_stuck:
  assumes "primes_reach n s" "pc0 s \<noteq> Finished" "unat n \<le> 65535 * 65535 + 1"
  shows "\<exists>s'. primes_step n s s' \<and> left0 (pc0 s') + left1 (pc1 s') < left0 (pc0 s) + left1 (pc1 s)"
proof -
  have i: "primes_inv n s" by (rule primes_reach_inv [OF assms(1)])
  have u: "unat (n div 2) \<le> 65535 * 65535 + 1" using assms(3) by (simp add: unat_div)
  show ?thesis
  proof (cases "pc0 s = Wait_clear \<and> shared_run s")
    case True
    then have c: "pc1 s \<noteq> Returned" "pc1 s = Count_high \<Longrightarrow> range_begin s = n div 2 \<and> range_end s = n"
      using i by (auto simp: primes_inv_def split: core1_pc.splits)
    show ?thesis
    proof (cases "pc1 s")
      case Wait_run then show ?thesis using primes_step.run_seen [of s n] True by force
    next
      case Fetch_begin then show ?thesis using primes_step.fetch_begin [of s n] by force
    next
      case Fetch_end then show ?thesis using primes_step.fetch_end [of s n] by force
    next
      case Count_high
      then show ?thesis using primes_step.count_high [of s _ n] count_primes_result [OF assms(3), of "n div 2"] c(2) by force
    next
      case Store_count then show ?thesis using primes_step.store_count [of s n] by force
    next
      case Clear_run then show ?thesis using primes_step.clear_run [of s n] by force
    qed (use c in simp)
  next
    case False
    show ?thesis
    proof (cases "pc0 s")
      case Store_begin then show ?thesis using primes_step.store_begin [of s n] by force
    next
      case Store_end then show ?thesis using primes_step.store_end [of s n] by force
    next
      case Set_run then show ?thesis using primes_step.set_run [of s n] by force
    next
      case Count_low then show ?thesis using primes_step.count_low [of s n] count_primes_result [OF u, of 0] by force
    next
      case Wait_clear then show ?thesis using primes_step.clear_seen [of s n] False by force
    next
      case Add_result then show ?thesis using primes_step.collect [of s n] by force
    qed (use assms(2) in simp)
  qed
qed

lemma primes_finished:
  assumes "primes_reach n s" "pc0 s = Finished" "unat n \<le> 65535 * 65535 + 1"
  shows "count_primes 0 n = Some (result0 s)" "unat (result0 s) = card (primes_in 0 (unat n))"
proof -
  have u: "unat (n div 2) \<le> 65535 * 65535 + 1" using assms(3) by (simp add: unat_div)
  obtain a b where r: "count_primes 0 (n div 2) = Some a" "count_primes (n div 2) n = Some b" "result0 s = a + b"
    using primes_reach_inv [OF assms(1)] assms(2) by (auto simp: primes_inv_def)
  have "card (primes_in 0 (unat n)) = card (primes_in 0 (unat (n div 2))) + card (primes_in (unat (n div 2)) (unat n))"
    by (rule primes_in_split) (simp_all add: unat_div)
  then have e: "result0 s = of_nat (card (primes_in 0 (unat n)))"
    using r count_primes_result [OF u, of 0] count_primes_result [OF assms(3), of "n div 2"] by simp
  then show "count_primes 0 n = Some (result0 s)" using count_primes_result [OF assms(3), of 0] by simp
  have "card (primes_in 0 (unat n)) \<le> card {..<unat n}" by (rule card_mono) (auto simp: primes_in_def)
  moreover have "unat n < 2 ^ LENGTH(32)" by (rule unsigned_less)
  ultimately have "card (primes_in 0 (unat n)) < 2 ^ LENGTH(32)" by simp
  then show "unat (result0 s) = card (primes_in 0 (unat n))" unfolding e by (simp add: unat_of_nat_small)
qed

end
