(* ===== verification/Cfu_Rtl.thy ===== *)
theory Cfu_Rtl
  imports Prelude
begin

text \<open>
  The custom functions unit of the CPU, \<^verbatim>\<open>rtl/core/neorv32_cpu_alu_cfu.vhd\<close>, clock by clock, with the part of
  the execution sequencer (\<^verbatim>\<open>neorv32_cpu_control.vhd\<close>) and of the ALU (\<^verbatim>\<open>neorv32_cpu_alu.vhd\<close>) that
  starts it, waits for it and gives up on it; and the custom instructions of
  \<^verbatim>\<open>sw/lib/include/neorv32_intrinsics.h\<close>.
\<close>

section \<open>Instruction words\<close>

definition RISCV_OPCODE_CUSTOM0 :: "7 word" where "RISCV_OPCODE_CUSTOM0 = 0x0b"
definition RISCV_OPCODE_CUSTOM1 :: "7 word" where "RISCV_OPCODE_CUSTOM1 = 0x2b"
definition RISCV_OPCODE_OP32 :: "7 word" where "RISCV_OPCODE_OP32 = 0x3b"
definition RISCV_OPCODE_OPIMM32 :: "7 word" where "RISCV_OPCODE_OPIMM32 = 0x1b"

text \<open>What \<^verbatim>\<open>.insn r\<close> and \<^verbatim>\<open>.insn i\<close> assemble; the compiler chooses the registers.\<close>

definition insn_r :: "7 word \<Rightarrow> 3 word \<Rightarrow> 7 word \<Rightarrow> 5 word \<Rightarrow> 5 word \<Rightarrow> 5 word \<Rightarrow> u32" where
  "insn_r opcode f3 f7 dst rs1 rs2 =
     push_bit 25 (ucast f7) OR push_bit 20 (ucast rs2) OR push_bit 15 (ucast rs1)
     OR push_bit 12 (ucast f3) OR push_bit 7 (ucast dst) OR ucast opcode"

definition insn_i :: "7 word \<Rightarrow> 3 word \<Rightarrow> 12 word \<Rightarrow> 5 word \<Rightarrow> 5 word \<Rightarrow> u32" where
  "insn_i opcode f3 imm12 dst rs1 =
     push_bit 20 (ucast imm12) OR push_bit 15 (ucast rs1) OR push_bit 12 (ucast f3) OR push_bit 7 (ucast dst) OR ucast opcode"

definition inst_opcode :: "u32 \<Rightarrow> 7 word" where "inst_opcode w = ucast w"
definition inst_funct3 :: "u32 \<Rightarrow> 3 word" where "inst_funct3 w = ucast (drop_bit 12 w)"
definition inst_imm12 :: "u32 \<Rightarrow> 12 word" where "inst_imm12 w = ucast (drop_bit 20 w)"

text \<open>The word the ALU hands on: bits 6 and 3 to 0 of the opcode are constrained to those of \<^verbatim>\<open>CUSTOM-0\<close>.\<close>

definition cfu_inst :: "u32 \<Rightarrow> u32" where
  "cfu_inst ir = (ir AND 0xffffffb0) OR 0x0b"

lemma insn_r_fields:
  "inst_opcode (insn_r opcode f3 f7 dst rs1 rs2) = opcode"
  "inst_funct3 (insn_r opcode f3 f7 dst rs1 rs2) = f3"
  by (rule bit_word_eqI; simp add: inst_opcode_def inst_funct3_def insn_r_def bit_simps; force dest: bit_imp_le_length)+

lemma insn_i_fields:
  "inst_opcode (insn_i opcode f3 imm12 dst rs1) = opcode"
  "inst_funct3 (insn_i opcode f3 imm12 dst rs1) = f3"
  "inst_imm12 (insn_i opcode f3 imm12 dst rs1) = imm12"
  by (rule bit_word_eqI; simp add: inst_opcode_def inst_funct3_def inst_imm12_def insn_i_def bit_simps;
      force dest: bit_imp_le_length)+

lemma cfu_inst_fields:
  "inst_opcode (cfu_inst ir) = (inst_opcode ir AND 0x30) OR 0x0b"
  "inst_funct3 (cfu_inst ir) = inst_funct3 ir"
  "inst_imm12 (cfu_inst ir) = inst_imm12 ir"
proof -
  have low: "inst_opcode (ir AND 0xffffffb0 OR 0x0b) = inst_opcode ir AND inst_opcode 0xffffffb0 OR inst_opcode 0x0b"
    unfolding inst_opcode_def by (rule bit_word_eqI) (simp add: bit_simps; blast)
  moreover have "inst_opcode 0xffffffb0 = 0x30" "inst_opcode 0x0b = 0x0b" by (simp_all add: inst_opcode_def)
  ultimately show "inst_opcode (cfu_inst ir) = (inst_opcode ir AND 0x30) OR 0x0b" by (simp add: cfu_inst_def)
  have mid: "drop_bit 12 (cfu_inst ir) = drop_bit 12 ir AND 0xfffff"
    by (simp add: cfu_inst_def drop_bit_and drop_bit_or)
  have "inst_funct3 (cfu_inst ir) = ucast (drop_bit 12 ir AND 0xfffff)" by (simp add: inst_funct3_def mid)
  also have "\<dots> = (ucast (drop_bit 12 ir) :: 3 word) AND ucast (0xfffff :: u32)"
    by (rule bit_word_eqI) (simp add: bit_simps; blast)
  also have "(ucast (0xfffff :: u32) :: 3 word) = - 1" by simp
  finally show "inst_funct3 (cfu_inst ir) = inst_funct3 ir" by (simp add: inst_funct3_def)
  have high: "drop_bit 20 (cfu_inst ir) = drop_bit 20 ir AND 0xfff"
    by (simp add: cfu_inst_def drop_bit_and drop_bit_or)
  have "inst_imm12 (cfu_inst ir) = ucast (drop_bit 20 ir AND 0xfff)" by (simp add: inst_imm12_def high)
  also have "\<dots> = (ucast (drop_bit 20 ir) :: 12 word) AND ucast (0xfff :: u32)"
    by (rule bit_word_eqI) (simp add: bit_simps; blast)
  also have "(ucast (0xfff :: u32) :: 12 word) = - 1" by simp
  finally show "inst_imm12 (cfu_inst ir) = inst_imm12 ir" by (simp add: inst_imm12_def)
qed

section \<open>The unit\<close>

record cfu =
  done0 :: bool
  done1 :: bool
  opa :: u32
  opb :: u32
  round_sum :: u32
  result :: u32
  key_mem :: "u32 list"

definition cfu_reset :: cfu where
  "cfu_reset = \<lparr>done0 = False, done1 = False, opa = 0, opb = 0, round_sum = 0, result = 0, key_mem = [0, 0, 0, 0]\<rparr>"

definition xtea_delta_c :: u32 where "xtea_delta_c = 0x9e3779b9"

definition is_r_type :: "u32 \<Rightarrow> bool" where "is_r_type inst \<longleftrightarrow> inst_opcode inst = RISCV_OPCODE_CUSTOM0"

definition key_index :: "u32 \<Rightarrow> nat" where "key_index inst = unat (inst_imm12 inst AND 3)"

text \<open>The combinational helpers \<^verbatim>\<open>tmp_b\<close> and \<^verbatim>\<open>tmp_r\<close>, on the registers before the clock edge.\<close>

definition tmp_b :: "3 word \<Rightarrow> cfu \<Rightarrow> u32" where
  "tmp_b f3 c = (if \<not> bit f3 0 then opa c else opb c)"

definition tmp_r :: "3 word \<Rightarrow> cfu \<Rightarrow> u32" where
  "tmp_r f3 c =
     (let a = (if \<not> bit f3 0 then opb c else opa c);
          x = push_bit 4 a; y = drop_bit 5 a;
          z = (if \<not> bit f3 0 then key_mem c ! unat (round_sum c AND 3)
               else key_mem c ! unat (drop_bit 11 (round_sum c) AND 3))
      in ((x XOR y) + a) XOR (round_sum c + z))"

text \<open>One rising edge.\<close>

definition cfu_clock :: "bool \<Rightarrow> u32 \<Rightarrow> u32 \<Rightarrow> u32 \<Rightarrow> cfu \<Rightarrow> cfu" where
  "cfu_clock start inst rs1 rs2 c =
     (let start = (start \<and> (inst_opcode inst = RISCV_OPCODE_CUSTOM0 \<or> inst_opcode inst = RISCV_OPCODE_CUSTOM1));
          f3 = inst_funct3 inst;
          compute = (start \<and> is_r_type inst);
          key_we = (start \<and> \<not> is_r_type inst \<and> bit f3 0)
      in \<lparr>done0 = compute,
          done1 = done0 c,
          opa = (if compute then rs1 else opa c),
          opb = (if compute then rs2 else opb c),
          round_sum =
            (if done0 c then
               (if bit f3 2 then opa c
                else if f3 AND 3 = 0 then round_sum c + xtea_delta_c
                else if f3 AND 3 = 3 then round_sum c - xtea_delta_c
                else round_sum c)
             else round_sum c),
          result = (if done0 c then (if \<not> bit f3 1 then tmp_b f3 c + tmp_r f3 c else tmp_b f3 c - tmp_r f3 c) else result c),
          key_mem = (if key_we then (key_mem c)[key_index inst := rs1] else key_mem c)\<rparr>)"

text \<open>The outputs \<^verbatim>\<open>result_o\<close> and \<^verbatim>\<open>valid_o\<close>.\<close>

definition cfu_out :: "u32 \<Rightarrow> cfu \<Rightarrow> u32 \<times> bool" where
  "cfu_out inst c =
     (if is_r_type inst then
        (if inst_funct3 inst \<in> {0, 1, 2, 3} then (result c, done1 c)
         else if inst_funct3 inst = 4 then (0, True)
         else (0, False))
      else (key_mem c ! key_index inst, True))"

section \<open>A custom instruction in the execution sequencer\<close>

text \<open>\<^verbatim>\<open>S_ALU_WAIT\<close>: the start trigger is set in its first cycle only.  The monitor counts the cycles in
this state, and at 512 the instruction is illegal, which is \<open>None\<close>.\<close>

definition alu_cp_tmo :: nat where "alu_cp_tmo = 2 ^ 9"

fun alu_wait :: "nat \<Rightarrow> bool \<Rightarrow> u32 \<Rightarrow> u32 \<Rightarrow> u32 \<Rightarrow> cfu \<Rightarrow> u32 option \<times> cfu" where
  "alu_wait 0 start inst rs1 rs2 c = (None, cfu_clock start inst rs1 rs2 c)"
| "alu_wait (Suc left) start inst rs1 rs2 c =
     (let (r, valid) = cfu_out inst c; c' = cfu_clock start inst rs1 rs2 c in
      if valid then (Some r, c') else alu_wait left False inst rs1 rs2 c')"

text \<open>A clock in which the sequencer starts nothing: the instruction word and the operands are those of
whatever is executed then.\<close>

definition cfu_idle :: "(u32 \<times> u32 \<times> u32) list \<Rightarrow> cfu \<Rightarrow> cfu" where
  "cfu_idle = fold (\<lambda>(ir, rs1, rs2). cfu_clock False (cfu_inst ir) rs1 rs2)"

text \<open>From \<^verbatim>\<open>S_EXECUTE\<close> over \<^verbatim>\<open>S_ALU_WAIT\<close> to \<^verbatim>\<open>S_DISPATCH\<close>, in which the instruction register still holds the
word.  In \<^verbatim>\<open>S_EXECUTE\<close> the operands are only being read.\<close>

definition cfu_execute :: "u32 \<Rightarrow> u32 \<Rightarrow> u32 \<Rightarrow> cfu \<Rightarrow> u32 option \<times> cfu" where
  "cfu_execute ir rs1 rs2 c =
     (let inst = cfu_inst ir;
          c = cfu_clock False inst rs1 rs2 c;
          (r, c) = alu_wait alu_cp_tmo True inst rs1 rs2 c;
          c = cfu_clock False inst rs1 rs2 c
      in (r, c))"

section \<open>What an instruction does\<close>

text \<open>Between two instructions no operation is under way.\<close>

definition cfu_ready :: "cfu \<Rightarrow> bool" where
  "cfu_ready c \<longleftrightarrow> \<not> done0 c \<and> length (key_mem c) = 4"

text \<open>What of the unit a program can see.\<close>

definition cfu_view :: "cfu \<Rightarrow> u32 \<times> u32 list" where
  "cfu_view c = (round_sum c, key_mem c)"

lemma cfu_clock_off:
  assumes "cfu_ready c"
  shows "cfu_ready (cfu_clock False inst rs1 rs2 c)" "cfu_view (cfu_clock False inst rs1 rs2 c) = cfu_view c"
    "\<not> done1 (cfu_clock False inst rs1 rs2 c)"
  using assms by (simp_all add: cfu_clock_def cfu_ready_def cfu_view_def Let_def)

lemma cfu_idle_view: "cfu_ready c \<Longrightarrow> cfu_ready (cfu_idle ws c) \<and> cfu_view (cfu_idle ws c) = cfu_view c"
  by (induction ws arbitrary: c) (auto simp: cfu_idle_def cfu_clock_off)

text \<open>Three cycles are within the limit.\<close>

lemma alu_wait_tmo: obtains n where "alu_cp_tmo = Suc (Suc (Suc n))"
proof
  show "alu_cp_tmo = Suc (Suc (Suc 509))" by (simp add: alu_cp_tmo_def)
qed

text \<open>The R-type instructions by their function, for any registers and any \<^verbatim>\<open>funct7\<close>.\<close>

definition r_word :: "3 word \<Rightarrow> u32 \<Rightarrow> bool" where
  "r_word f3 ir \<longleftrightarrow> inst_opcode ir = RISCV_OPCODE_CUSTOM0 \<and> inst_funct3 ir = f3"

lemma r_word_insn_r [simp]: "r_word f3 (insn_r RISCV_OPCODE_CUSTOM0 f3 f7 dst rs1 rs2)"
  by (simp add: r_word_def insn_r_fields)

lemma r_word_inst:
  assumes "r_word f3 ir"
  shows "inst_funct3 (cfu_inst ir) = f3" "inst_opcode (cfu_inst ir) = RISCV_OPCODE_CUSTOM0" "is_r_type (cfu_inst ir)"
  using assms by (simp_all add: r_word_def cfu_inst_fields is_r_type_def RISCV_OPCODE_CUSTOM0_def)

lemma execute_init:
  assumes "r_word 4 ir" "cfu_ready c"
  shows "fst (cfu_execute ir rs1 rs2 c) = Some 0 \<and> cfu_ready (snd (cfu_execute ir rs1 rs2 c))
    \<and> cfu_view (snd (cfu_execute ir rs1 rs2 c)) = (rs1, key_mem c)"
proof -
  obtain n where n: "alu_cp_tmo = Suc (Suc (Suc n))" by (rule alu_wait_tmo)
  show ?thesis using assms(2) r_word_inst [OF assms(1)]
    by (simp add: cfu_execute_def n cfu_out_def cfu_clock_def cfu_ready_def cfu_view_def Let_def)
qed

text \<open>The five clocks of a computing instruction.\<close>

lemma clock_still: "\<not> done0 c \<Longrightarrow> cfu_clock False inst rs1 rs2 c = c\<lparr>done1 := False\<rparr>"
  by (cases c) (simp add: cfu_clock_def Let_def)

lemma clock_start:
  assumes "\<not> done0 c" "is_r_type inst"
  shows "cfu_clock True inst rs1 rs2 c = c\<lparr>done0 := True, done1 := False, opa := rs1, opb := rs2\<rparr>"
  using assms by (cases c) (simp add: cfu_clock_def is_r_type_def Let_def)

definition cfu_computed :: "3 word \<Rightarrow> cfu \<Rightarrow> u32" where
  "cfu_computed f3 c = (if \<not> bit f3 1 then tmp_b f3 c + tmp_r f3 c else tmp_b f3 c - tmp_r f3 c)"

definition next_sum :: "3 word \<Rightarrow> u32 \<Rightarrow> u32" where
  "next_sum f3 s = (if f3 = 0 then s + xtea_delta_c else if f3 = 3 then s - xtea_delta_c else s)"

lemma clock_compute:
  assumes "done0 c" "inst_funct3 inst \<in> {0, 1, 2, 3}"
  shows "cfu_clock False inst rs1 rs2 c = c\<lparr>done0 := False, done1 := True,
    result := cfu_computed (inst_funct3 inst) c, round_sum := next_sum (inst_funct3 inst) (round_sum c)\<rparr>"
  using assms by (cases c) (auto simp: cfu_clock_def cfu_computed_def next_sum_def Let_def)

lemma execute_step:
  assumes "r_word f3 ir" "cfu_ready c" "f3 \<in> {0, 1, 2, 3}"
    and op_def: "op = c\<lparr>done0 := True, done1 := False, opa := rs1, opb := rs2\<rparr>"
  shows "cfu_execute ir rs1 rs2 c =
    (Some (cfu_computed f3 op), op\<lparr>done0 := False, result := cfu_computed f3 op, round_sum := next_sum f3 (round_sum c)\<rparr>)"
proof -
  obtain n where n: "alu_cp_tmo = Suc (Suc (Suc n))" by (rule alu_wait_tmo)
  have r: "\<not> done0 c" using assms(2) by (simp add: cfu_ready_def)
  show ?thesis
    using r r_word_inst [OF assms(1)] assms(3)
    by (simp add: cfu_execute_def n cfu_out_def clock_still clock_start clock_compute op_def Let_def split del: if_split)
qed

lemma execute_step_ready:
  assumes "r_word f3 ir" "cfu_ready c" "f3 \<in> {0, 1, 2, 3}"
  shows "cfu_ready (snd (cfu_execute ir rs1 rs2 c))"
    "cfu_view (snd (cfu_execute ir rs1 rs2 c)) = (next_sum f3 (round_sum c), key_mem c)"
  using assms(2) by (simp_all add: execute_step [OF assms refl] cfu_ready_def cfu_view_def)

text \<open>A function the unit does not have: the monitor ends it.\<close>

lemma execute_illegal:
  assumes "r_word f3 ir" "f3 \<in> {5, 6, 7}"
  shows "fst (cfu_execute ir rs1 rs2 c) = None"
proof -
  have "\<not> snd (cfu_out (cfu_inst ir) c)" for c
    using r_word_inst [OF assms(1)] assms(2) by (auto simp: cfu_out_def)
  then have "fst (alu_wait n start (cfu_inst ir) rs1 rs2 c) = None" for n start c
    by (induction n arbitrary: start c) (simp_all add: case_prod_beta Let_def)
  then show ?thesis by (simp add: cfu_execute_def case_prod_beta Let_def)
qed

text \<open>The I-type instructions read the key, and write it before, if \<^verbatim>\<open>funct3\<close> is odd.\<close>

definition i_word :: "3 word \<Rightarrow> 12 word \<Rightarrow> u32 \<Rightarrow> bool" where
  "i_word f3 imm ir \<longleftrightarrow> inst_opcode ir = RISCV_OPCODE_CUSTOM1 \<and> inst_funct3 ir = f3 \<and> inst_imm12 ir = imm"

lemma i_word_insn_i [simp]: "i_word f3 imm (insn_i RISCV_OPCODE_CUSTOM1 f3 imm dst rs1)"
  by (simp add: i_word_def insn_i_fields)

lemma i_word_inst:
  assumes "i_word f3 imm ir"
  shows "inst_funct3 (cfu_inst ir) = f3" "inst_opcode (cfu_inst ir) = RISCV_OPCODE_CUSTOM1" "\<not> is_r_type (cfu_inst ir)"
    "key_index (cfu_inst ir) = unat (imm AND 3)"
  using assms by (simp_all add: i_word_def cfu_inst_fields is_r_type_def key_index_def RISCV_OPCODE_CUSTOM0_def RISCV_OPCODE_CUSTOM1_def)

lemma execute_key:
  assumes "i_word f3 imm ir" "cfu_ready c"
  shows "\<exists>c'. cfu_execute ir rs1 rs2 c = (Some (key_mem c ! unat (imm AND 3)), c') \<and> cfu_ready c'
    \<and> cfu_view c' = (round_sum c, if bit f3 0 then (key_mem c)[unat (imm AND 3) := rs1] else key_mem c)"
proof -
  obtain n where n: "alu_cp_tmo = Suc (Suc (Suc n))" by (rule alu_wait_tmo)
  show ?thesis using assms(2) i_word_inst [OF assms(1)]
    by (simp add: cfu_execute_def n cfu_out_def cfu_clock_def cfu_ready_def cfu_view_def Let_def RISCV_OPCODE_CUSTOM1_def)
qed

end
