(* ===== verification/Xtea.thy ===== *)
theory Xtea
  imports Cfu_Rtl Neo_Aux
begin

text \<open>
  The XTEA program \<^verbatim>\<open>sw/example/demo_cfu/main.c\<close>: the cipher in C and on the custom functions unit, and the
  comparison of the two that the program makes.
\<close>

section \<open>The cipher in software\<close>

definition XTEA_ROUNDS :: u32 where "XTEA_ROUNDS = 20"
definition DATA_NUM :: nat where "DATA_NUM = 64"
definition xtea_delta :: u32 where "xtea_delta = 0x9e3779b9"
definition xtea_key :: "u32 list" where "xtea_key = [0x207230ba, 0x1ffba710, 0xc45271ef, 0xdd01768a]"

definition enc_round :: "u32 list \<Rightarrow> u32 \<times> u32 \<times> u32 \<Rightarrow> u32 \<times> u32 \<times> u32" where
  "enc_round k s = (case s of (v0, v1, sm) \<Rightarrow>
     let v0 = v0 + (((push_bit 4 v1 XOR drop_bit 5 v1) + v1) XOR (sm + k ! unat (sm AND 3)));
         sm = sm + xtea_delta;
         v1 = v1 + (((push_bit 4 v0 XOR drop_bit 5 v0) + v0) XOR (sm + k ! unat (drop_bit 11 sm AND 3)))
     in (v0, v1, sm))"

definition xtea_sw_encipher :: "u32 \<Rightarrow> u32 \<times> u32 \<Rightarrow> u32 list \<Rightarrow> u32 \<times> u32" where
  "xtea_sw_encipher num_cycles v k =
     (case (enc_round k ^^ unat num_cycles) (fst v, snd v, 0) of (v0, v1, _) \<Rightarrow> (v0, v1))"

definition dec_round :: "u32 list \<Rightarrow> u32 \<times> u32 \<times> u32 \<Rightarrow> u32 \<times> u32 \<times> u32" where
  "dec_round k s = (case s of (v0, v1, sm) \<Rightarrow>
     let v1 = v1 - (((push_bit 4 v0 XOR drop_bit 5 v0) + v0) XOR (sm + k ! unat (drop_bit 11 sm AND 3)));
         sm = sm - xtea_delta;
         v0 = v0 - (((push_bit 4 v1 XOR drop_bit 5 v1) + v1) XOR (sm + k ! unat (sm AND 3)))
     in (v0, v1, sm))"

definition xtea_sw_decipher :: "u32 \<Rightarrow> u32 \<times> u32 \<Rightarrow> u32 list \<Rightarrow> u32 \<times> u32" where
  "xtea_sw_decipher num_cycles v k =
     (case (dec_round k ^^ unat num_cycles) (fst v, snd v, xtea_delta * num_cycles) of (v0, v1, _) \<Rightarrow> (v0, v1))"

lemma dec_enc_round: "dec_round k (enc_round k s) = s"
  by (simp add: dec_round_def enc_round_def Let_def split: prod.splits)

lemma dec_enc_rounds: "(dec_round k ^^ n) ((enc_round k ^^ n) s) = s"
proof (induction n arbitrary: s)
  case (Suc n)
  have "(dec_round k ^^ Suc n) ((enc_round k ^^ Suc n) s) = (dec_round k ^^ n) (dec_round k (enc_round k ((enc_round k ^^ n) s)))"
    by (simp only: funpow_Suc_right [of n "dec_round k"] funpow.simps(2) [of n "enc_round k"] o_apply)
  then show ?case using Suc by (simp only: dec_enc_round)
qed simp

lemma enc_rounds_sum: "snd (snd ((enc_round k ^^ n) s)) = snd (snd s) + of_nat n * xtea_delta"
  by (induction n) (auto simp: enc_round_def Let_def algebra_simps split: prod.splits)

lemma xtea_decipher_encipher: "xtea_sw_decipher n (xtea_sw_encipher n v k) k = v"
proof -
  obtain v0 v1 sm where e: "(enc_round k ^^ unat n) (fst v, snd v, 0) = (v0, v1, sm)" by (cases "(enc_round k ^^ unat n) (fst v, snd v, 0)") auto
  then have "sm = xtea_delta * n" using enc_rounds_sum [of "unat n" k "(fst v, snd v, 0)"] by simp
  then show ?thesis using dec_enc_rounds [of "unat n" k "(fst v, snd v, 0)"] e
    by (simp add: xtea_sw_decipher_def xtea_sw_encipher_def)
qed

section \<open>The cipher on the unit\<close>

text \<open>The unit together with what surrounds the custom instructions: before the \<open>n\<close>-th of them the
CPU executes what \<open>others s n\<close> says, which starts nothing, and its word has the registers \<open>regs s n\<close>.\<close>

record cfu_hart =
  unit :: cfu
  issued :: nat
  others :: "nat \<Rightarrow> (u32 \<times> u32 \<times> u32) list"
  regs :: "nat \<Rightarrow> 5 word \<times> 5 word \<times> 5 word"

text \<open>\<open>None\<close>: the instruction traps.\<close>

definition issue :: "(5 word \<times> 5 word \<times> 5 word \<Rightarrow> u32) \<Rightarrow> u32 \<Rightarrow> u32 \<Rightarrow> cfu_hart \<Rightarrow> (u32 \<times> cfu_hart) option" where
  "issue word rs1 rs2 h =
     (let c = cfu_idle (others h (issued h)) (unit h);
          (r, c) = cfu_execute (word (regs h (issued h))) rs1 rs2 c
      in map_option (\<lambda>r. (r, h\<lparr>unit := c, issued := issued h + 1\<rparr>)) r)"

definition RISCV_INSTR_R_TYPE :: "7 word \<Rightarrow> 3 word \<Rightarrow> 7 word \<Rightarrow> u32 \<Rightarrow> u32 \<Rightarrow> cfu_hart \<Rightarrow> (u32 \<times> cfu_hart) option" where
  "RISCV_INSTR_R_TYPE opcode f3 f7 rs1 rs2 = issue (\<lambda>(d, a, b). insn_r opcode f3 f7 d a b) rs1 rs2"

text \<open>The second operand port of an I-type instruction has the register that its immediate names; what
is there does not matter and is taken to be 0.\<close>

definition RISCV_INSTR_I_TYPE :: "7 word \<Rightarrow> 3 word \<Rightarrow> u32 \<Rightarrow> 12 word \<Rightarrow> cfu_hart \<Rightarrow> (u32 \<times> cfu_hart) option" where
  "RISCV_INSTR_I_TYPE opcode f3 rs1 imm12 = issue (\<lambda>(d, a, _). insn_i opcode f3 imm12 d a) rs1 0"

definition xtea_key_write :: "12 word \<Rightarrow> u32 \<Rightarrow> cfu_hart \<Rightarrow> (u32 \<times> cfu_hart) option" where
  "xtea_key_write i k = RISCV_INSTR_I_TYPE RISCV_OPCODE_CUSTOM1 1 k i"
definition xtea_key_read :: "12 word \<Rightarrow> cfu_hart \<Rightarrow> (u32 \<times> cfu_hart) option" where
  "xtea_key_read i = RISCV_INSTR_I_TYPE RISCV_OPCODE_CUSTOM1 0 0 i"
definition xtea_hw_init :: "u32 \<Rightarrow> cfu_hart \<Rightarrow> (u32 \<times> cfu_hart) option" where
  "xtea_hw_init s = RISCV_INSTR_R_TYPE RISCV_OPCODE_CUSTOM0 4 0 s 0"
definition xtea_hw_enc_v0_step :: "u32 \<Rightarrow> u32 \<Rightarrow> cfu_hart \<Rightarrow> (u32 \<times> cfu_hart) option" where
  "xtea_hw_enc_v0_step v0 v1 = RISCV_INSTR_R_TYPE RISCV_OPCODE_CUSTOM0 0 0 v0 v1"
definition xtea_hw_enc_v1_step :: "u32 \<Rightarrow> u32 \<Rightarrow> cfu_hart \<Rightarrow> (u32 \<times> cfu_hart) option" where
  "xtea_hw_enc_v1_step v0 v1 = RISCV_INSTR_R_TYPE RISCV_OPCODE_CUSTOM0 1 0 v0 v1"
definition xtea_hw_dec_v0_step :: "u32 \<Rightarrow> u32 \<Rightarrow> cfu_hart \<Rightarrow> (u32 \<times> cfu_hart) option" where
  "xtea_hw_dec_v0_step v0 v1 = RISCV_INSTR_R_TYPE RISCV_OPCODE_CUSTOM0 2 0 v0 v1"
definition xtea_hw_dec_v1_step :: "u32 \<Rightarrow> u32 \<Rightarrow> cfu_hart \<Rightarrow> (u32 \<times> cfu_hart) option" where
  "xtea_hw_dec_v1_step v0 v1 = RISCV_INSTR_R_TYPE RISCV_OPCODE_CUSTOM0 3 0 v0 v1"
definition xtea_hw_illegal_inst :: "cfu_hart \<Rightarrow> (u32 \<times> cfu_hart) option" where
  "xtea_hw_illegal_inst = RISCV_INSTR_R_TYPE RISCV_OPCODE_CUSTOM0 7 0 0 0"

section \<open>The program\<close>

text \<open>The inner loops of \<^verbatim>\<open>main\<close>.\<close>

primrec hw_enc_rounds :: "nat \<Rightarrow> u32 \<times> u32 \<Rightarrow> cfu_hart \<Rightarrow> ((u32 \<times> u32) \<times> cfu_hart) option" where
  "hw_enc_rounds 0 v h = Some (v, h)"
| "hw_enc_rounds (Suc n) v h = do {
     (v0, h) \<leftarrow> xtea_hw_enc_v0_step (fst v) (snd v) h;
     (v1, h) \<leftarrow> xtea_hw_enc_v1_step v0 (snd v) h;
     hw_enc_rounds n (v0, v1) h
   }"

primrec hw_dec_rounds :: "nat \<Rightarrow> u32 \<times> u32 \<Rightarrow> cfu_hart \<Rightarrow> ((u32 \<times> u32) \<times> cfu_hart) option" where
  "hw_dec_rounds 0 v h = Some (v, h)"
| "hw_dec_rounds (Suc n) v h = do {
     (v1, h) \<leftarrow> xtea_hw_dec_v1_step (fst v) (snd v) h;
     (v0, h) \<leftarrow> xtea_hw_dec_v0_step (fst v) v1 h;
     hw_dec_rounds n (v0, v1) h
   }"

definition hw_encipher :: "u32 \<times> u32 \<Rightarrow> cfu_hart \<Rightarrow> ((u32 \<times> u32) \<times> cfu_hart) option" where
  "hw_encipher v h = do {
     (_, h) \<leftarrow> xtea_hw_init 0 h;
     hw_enc_rounds (unat XTEA_ROUNDS) v h
   }"

definition hw_decipher :: "u32 \<times> u32 \<Rightarrow> cfu_hart \<Rightarrow> ((u32 \<times> u32) \<times> cfu_hart) option" where
  "hw_decipher v h = do {
     (_, h) \<leftarrow> xtea_hw_init (XTEA_ROUNDS * xtea_delta) h;
     hw_dec_rounds (unat XTEA_ROUNDS) v h
   }"

text \<open>A loop over the \<^verbatim>\<open>DATA_NUM/2\<close> pairs of words of a buffer, which fills another.\<close>

fun over_pairs :: "(u32 \<times> u32 \<Rightarrow> 's \<Rightarrow> ((u32 \<times> u32) \<times> 's) option) \<Rightarrow> u32 list \<Rightarrow> 's \<Rightarrow> (u32 list \<times> 's) option" where
  "over_pairs f (a # b # xs) s = do {
     (v, s) \<leftarrow> f (a, b) s;
     (ys, s) \<leftarrow> over_pairs f xs s;
     Some (fst v # snd v # ys, s)
   }"
| "over_pairs f xs s = Some ([], s)"

definition input_data :: "u32 \<Rightarrow> u32 list" where
  "input_data seed = map (\<lambda>i. (neorv32_aux_xorshift32 ^^ Suc i) seed) [0..<DATA_NUM]"

definition write_key :: "cfu_hart \<Rightarrow> cfu_hart option" where
  "write_key h = do {
     (_, h) \<leftarrow> xtea_key_write 0 (xtea_key ! 0) h;
     (_, h) \<leftarrow> xtea_key_write 1 (xtea_key ! 1) h;
     (_, h) \<leftarrow> xtea_key_write 2 (xtea_key ! 2) h;
     (_, h) \<leftarrow> xtea_key_write 3 (xtea_key ! 3) h;
     Some h
   }"

definition cypher_data_sw :: "u32 list \<Rightarrow> u32 list option" where
  "cypher_data_sw xs = map_option fst (over_pairs (\<lambda>v s. Some (xtea_sw_encipher XTEA_ROUNDS v xtea_key, s)) xs ())"

definition plain_data_sw :: "u32 list \<Rightarrow> u32 list option" where
  "plain_data_sw xs = map_option fst (over_pairs (\<lambda>v s. Some (xtea_sw_decipher XTEA_ROUNDS v xtea_key, s)) xs ())"

text \<open>The first index at which two buffers differ.\<close>

definition first_diff :: "u32 list \<Rightarrow> u32 list \<Rightarrow> nat option" where
  "first_diff xs ys = find (\<lambda>i. xs ! i \<noteq> ys ! i) [0..<DATA_NUM]"

definition first_bad :: "u32 list \<Rightarrow> u32 list \<Rightarrow> u32 list \<Rightarrow> nat option" where
  "first_bad sw hwd input = find (\<lambda>i. sw ! i \<noteq> hwd ! i \<or> sw ! i \<noteq> input ! i) [0..<DATA_NUM]"

datatype demo_result = Encryption_failed nat | Decryption_failed nat | Demo_ok

text \<open>\<^verbatim>\<open>main\<close> from the key to the second comparison, without its printing and its timing.  The last
operation, an instruction the unit does not have, is \<^verbatim>\<open>xtea_hw_illegal_inst\<close>.\<close>

definition cfu_demo :: "u32 \<Rightarrow> cfu_hart \<Rightarrow> (demo_result \<times> cfu_hart) option" where
  "cfu_demo seed h = do {
     h \<leftarrow> write_key h;
     (k0, h) \<leftarrow> xtea_key_read 0 h;
     (k1, h) \<leftarrow> xtea_key_read 1 h;
     (k2, h) \<leftarrow> xtea_key_read 2 h;
     (k3, h) \<leftarrow> xtea_key_read 3 h;
     let input = input_data seed;
     enc_sw \<leftarrow> cypher_data_sw input;
     (enc_hw, h) \<leftarrow> over_pairs hw_encipher input h;
     (case first_diff enc_sw enc_hw of
        Some i \<Rightarrow> Some (Encryption_failed i, h)
      | None \<Rightarrow> do {
          dec_sw \<leftarrow> plain_data_sw enc_sw;
          (dec_hw, h) \<leftarrow> over_pairs hw_decipher enc_hw h;
          Some (case first_bad dec_sw dec_hw input of Some i \<Rightarrow> Decryption_failed i | None \<Rightarrow> Demo_ok, h)
        })
   }"

section \<open>The unit computes the cipher\<close>

definition hart_ready :: "cfu_hart \<Rightarrow> bool" where
  "hart_ready h \<longleftrightarrow> cfu_ready (unit h)"

lemma issue_result:
  assumes "hart_ready h" "\<And>c. cfu_ready c \<Longrightarrow> cfu_view c = cfu_view (unit h) \<Longrightarrow>
      \<exists>c'. cfu_execute (word (regs h (issued h))) rs1 rs2 c = (Some r, c') \<and> cfu_ready c' \<and> cfu_view c' = v"
  shows "\<exists>h'. issue word rs1 rs2 h = Some (r, h') \<and> hart_ready h' \<and> cfu_view (unit h') = v"
proof -
  have "cfu_ready (unit h)" using assms(1) by (simp add: hart_ready_def)
  then obtain c' where "cfu_execute (word (regs h (issued h))) rs1 rs2 (cfu_idle (others h (issued h)) (unit h)) = (Some r, c')"
    "cfu_ready c'" "cfu_view c' = v"
    using assms(2) cfu_idle_view by blast
  then show ?thesis by (simp add: issue_def hart_ready_def)
qed

lemma hw_init_result:
  assumes "hart_ready h"
  shows "\<exists>h'. xtea_hw_init s h = Some (0, h') \<and> hart_ready h' \<and> cfu_view (unit h') = (s, key_mem (unit h))"
  unfolding xtea_hw_init_def RISCV_INSTR_R_TYPE_def
proof (rule issue_result [OF assms], goal_cases)
  case (1 c)
  then show ?case
    using execute_init [OF r_word_insn_r, of c] by (simp add: cfu_view_def prod_eq_iff split: prod.splits)
qed

definition xtea_mix :: "u32 \<Rightarrow> u32 \<Rightarrow> u32 \<Rightarrow> u32" where
  "xtea_mix v sm z = ((push_bit 4 v XOR drop_bit 5 v) + v) XOR (sm + z)"

lemma hw_step_result:
  assumes "hart_ready h" "cfu_view (unit h) = (sm, k)" "f3 \<in> {0, 1, 2, 3}"
  shows "\<exists>h'. RISCV_INSTR_R_TYPE RISCV_OPCODE_CUSTOM0 f3 0 v0 v1 h =
      Some (if f3 = 0 then v0 + xtea_mix v1 sm (k ! unat (sm AND 3))
            else if f3 = 1 then v1 + xtea_mix v0 sm (k ! unat (drop_bit 11 sm AND 3))
            else if f3 = 2 then v0 - xtea_mix v1 sm (k ! unat (sm AND 3))
            else v1 - xtea_mix v0 sm (k ! unat (drop_bit 11 sm AND 3)), h')
    \<and> hart_ready h' \<and> cfu_view (unit h') = (next_sum f3 sm, k)"
  unfolding RISCV_INSTR_R_TYPE_def
proof (rule issue_result [OF assms(1)], goal_cases)
  case (1 c)
  then have v: "round_sum c = sm" "key_mem c = k" using assms(2) by (simp_all add: cfu_view_def)
  have w: "r_word f3 (case regs h (issued h) of (d, a, b) \<Rightarrow> insn_r RISCV_OPCODE_CUSTOM0 f3 0 d a b)"
    by (simp split: prod.splits)
  show ?case
    using execute_step [OF w 1(1) assms(3) refl, of v0 v1] execute_step_ready [OF w 1(1) assms(3), of v0 v1] v assms(3)
    by (auto simp: cfu_computed_def tmp_b_def tmp_r_def xtea_mix_def Let_def)
qed

lemma hw_enc_rounds_result:
  assumes "hart_ready h" "cfu_view (unit h) = (sm, k)"
  shows "\<exists>h'. hw_enc_rounds n (v0, v1) h = Some (case (enc_round k ^^ n) (v0, v1, sm) of (a, b, _) \<Rightarrow> (a, b), h')
    \<and> hart_ready h' \<and> cfu_view (unit h') = (snd (snd ((enc_round k ^^ n) (v0, v1, sm))), k)"
  using assms
proof (induction n arbitrary: v0 v1 h sm)
  case (Suc n)
  obtain h1 where h1: "xtea_hw_enc_v0_step v0 v1 h = Some (v0 + xtea_mix v1 sm (k ! unat (sm AND 3)), h1)"
    "hart_ready h1" "cfu_view (unit h1) = (sm + xtea_delta, k)"
    using hw_step_result [OF Suc.prems, of 0 v0 v1]
    by (auto simp: xtea_hw_enc_v0_step_def next_sum_def xtea_delta_c_def xtea_delta_def)
  let ?v0 = "v0 + xtea_mix v1 sm (k ! unat (sm AND 3))"
  obtain h2 where h2: "xtea_hw_enc_v1_step ?v0 v1 h1
      = Some (v1 + xtea_mix ?v0 (sm + xtea_delta) (k ! unat (drop_bit 11 (sm + xtea_delta) AND 3)), h2)"
    "hart_ready h2" "cfu_view (unit h2) = (sm + xtea_delta, k)"
    using hw_step_result [OF h1(2,3), of 1 ?v0 v1] by (auto simp: xtea_hw_enc_v1_step_def next_sum_def)
  have r: "enc_round k (v0, v1, sm)
      = (?v0, v1 + xtea_mix ?v0 (sm + xtea_delta) (k ! unat (drop_bit 11 (sm + xtea_delta) AND 3)), sm + xtea_delta)"
    by (simp add: enc_round_def xtea_mix_def Let_def)
  show ?case using Suc.IH [OF h2(2,3)] h1(1) h2(1) by (simp add: funpow_swap1 r)
qed simp

lemma hw_dec_rounds_result:
  assumes "hart_ready h" "cfu_view (unit h) = (sm, k)"
  shows "\<exists>h'. hw_dec_rounds n (v0, v1) h = Some (case (dec_round k ^^ n) (v0, v1, sm) of (a, b, _) \<Rightarrow> (a, b), h')
    \<and> hart_ready h' \<and> cfu_view (unit h') = (snd (snd ((dec_round k ^^ n) (v0, v1, sm))), k)"
  using assms
proof (induction n arbitrary: v0 v1 h sm)
  case (Suc n)
  obtain h1 where h1: "xtea_hw_dec_v1_step v0 v1 h = Some (v1 - xtea_mix v0 sm (k ! unat (drop_bit 11 sm AND 3)), h1)"
    "hart_ready h1" "cfu_view (unit h1) = (sm - xtea_delta, k)"
    using hw_step_result [OF Suc.prems, of 3 v0 v1]
    by (auto simp: xtea_hw_dec_v1_step_def next_sum_def xtea_delta_c_def xtea_delta_def)
  let ?v1 = "v1 - xtea_mix v0 sm (k ! unat (drop_bit 11 sm AND 3))"
  obtain h2 where h2: "xtea_hw_dec_v0_step v0 ?v1 h1
      = Some (v0 - xtea_mix ?v1 (sm - xtea_delta) (k ! unat ((sm - xtea_delta) AND 3)), h2)"
    "hart_ready h2" "cfu_view (unit h2) = (sm - xtea_delta, k)"
    using hw_step_result [OF h1(2,3), of 2 v0 ?v1] by (auto simp: xtea_hw_dec_v0_step_def next_sum_def)
  have r: "dec_round k (v0, v1, sm)
      = (v0 - xtea_mix ?v1 (sm - xtea_delta) (k ! unat ((sm - xtea_delta) AND 3)), ?v1, sm - xtea_delta)"
    by (simp add: dec_round_def xtea_mix_def Let_def)
  show ?case using Suc.IH [OF h2(2,3)] h1(1) h2(1) by (simp add: funpow_swap1 r)
qed simp

lemma hw_encipher_result:
  assumes "hart_ready h"
  shows "\<exists>h'. hw_encipher v h = Some (xtea_sw_encipher XTEA_ROUNDS v (key_mem (unit h)), h')
    \<and> hart_ready h' \<and> key_mem (unit h') = key_mem (unit h)"
proof -
  obtain h1 where h1: "xtea_hw_init 0 h = Some (0, h1)" "hart_ready h1" "cfu_view (unit h1) = (0, key_mem (unit h))"
    using hw_init_result [OF assms] by blast
  from hw_enc_rounds_result [OF h1(2,3), of "unat XTEA_ROUNDS" "fst v" "snd v"] show ?thesis
    using h1(1) by (auto simp: hw_encipher_def xtea_sw_encipher_def cfu_view_def)
qed

lemma hw_decipher_result:
  assumes "hart_ready h"
  shows "\<exists>h'. hw_decipher v h = Some (xtea_sw_decipher XTEA_ROUNDS v (key_mem (unit h)), h')
    \<and> hart_ready h' \<and> key_mem (unit h') = key_mem (unit h)"
proof -
  obtain h1 where h1: "xtea_hw_init (XTEA_ROUNDS * xtea_delta) h = Some (0, h1)" "hart_ready h1"
    "cfu_view (unit h1) = (XTEA_ROUNDS * xtea_delta, key_mem (unit h))"
    using hw_init_result [OF assms] by blast
  from hw_dec_rounds_result [OF h1(2,3), of "unat XTEA_ROUNDS" "fst v" "snd v"] show ?thesis
    using h1(1) by (auto simp: hw_decipher_def xtea_sw_decipher_def cfu_view_def mult.commute)
qed

section \<open>The program finds no difference\<close>

fun map_pairs :: "(u32 \<times> u32 \<Rightarrow> u32 \<times> u32) \<Rightarrow> u32 list \<Rightarrow> u32 list" where
  "map_pairs g (a # b # xs) = fst (g (a, b)) # snd (g (a, b)) # map_pairs g xs"
| "map_pairs g xs = []"

lemma map_pairs_inverse:
  assumes "\<And>v. g' (g v) = v" "even (length xs)"
  shows "map_pairs g' (map_pairs g xs) = xs"
  using assms(2)
proof (induction xs rule: induct_list012)
  case (3 a b xs)
  have "g' (fst (g (a, b)), snd (g (a, b))) = (a, b)" by (simp add: assms(1))
  then show ?case using 3 by simp
qed simp_all

lemma over_pairs_sw: "over_pairs (\<lambda>v s. Some (g v, s)) xs u = Some (map_pairs g xs, u)"
  by (induction xs rule: induct_list012) simp_all

lemma over_pairs_hw:
  assumes "hart_ready h" "key_mem (unit h) = k"
    and "\<And>v h. hart_ready h \<Longrightarrow> key_mem (unit h) = k \<Longrightarrow>
      \<exists>h'. f v h = Some (g v, h') \<and> hart_ready h' \<and> key_mem (unit h') = k"
  shows "\<exists>h'. over_pairs f xs h = Some (map_pairs g xs, h') \<and> hart_ready h' \<and> key_mem (unit h') = k"
  using assms(1,2)
proof (induction xs arbitrary: h rule: induct_list012)
  case (3 a b xs)
  obtain h1 where h1: "f (a, b) h = Some (g (a, b), h1)" "hart_ready h1" "key_mem (unit h1) = k"
    using assms(3) [OF 3(3,4)] by blast
  then show ?case using 3(1) [OF h1(2,3)] by auto
qed simp_all

lemma key_access_result:
  assumes "hart_ready h"
  shows "\<exists>h'. xtea_key_write i v h = Some (key_mem (unit h) ! unat (i AND 3), h')
      \<and> hart_ready h' \<and> key_mem (unit h') = (key_mem (unit h))[unat (i AND 3) := v]"
    "\<exists>h'. xtea_key_read i h = Some (key_mem (unit h) ! unat (i AND 3), h')
      \<and> hart_ready h' \<and> key_mem (unit h') = key_mem (unit h)"
proof -
  have *: "\<exists>h'. RISCV_INSTR_I_TYPE RISCV_OPCODE_CUSTOM1 f3 v i h = Some (key_mem (unit h) ! unat (i AND 3), h')
      \<and> hart_ready h' \<and> cfu_view (unit h')
        = (round_sum (unit h), if bit f3 0 then (key_mem (unit h))[unat (i AND 3) := v] else key_mem (unit h))" for f3 v
    unfolding RISCV_INSTR_I_TYPE_def
  proof (rule issue_result [OF assms], goal_cases)
    case (1 c)
    have "i_word f3 i (case regs h (issued h) of (d, a, _) \<Rightarrow> insn_i RISCV_OPCODE_CUSTOM1 f3 i d a)"
      by (simp split: prod.splits)
    from execute_key [OF this 1(1), of v 0] 1(2) show ?case by (cases "bit f3 0") (simp_all add: cfu_view_def)
  qed
  show "\<exists>h'. xtea_key_write i v h = Some (key_mem (unit h) ! unat (i AND 3), h')
      \<and> hart_ready h' \<and> key_mem (unit h') = (key_mem (unit h))[unat (i AND 3) := v]"
    using * [of 1 v] by (auto simp: xtea_key_write_def cfu_view_def)
  show "\<exists>h'. xtea_key_read i h = Some (key_mem (unit h) ! unat (i AND 3), h')
      \<and> hart_ready h' \<and> key_mem (unit h') = key_mem (unit h)"
    using * [of 0 0] by (auto simp: xtea_key_read_def cfu_view_def)
qed

lemma write_key_result:
  assumes "hart_ready h"
  shows "\<exists>h'. write_key h = Some h' \<and> hart_ready h' \<and> key_mem (unit h') = xtea_key"
proof -
  obtain h0 where h0: "xtea_key_write 0 (xtea_key ! 0) h = Some (key_mem (unit h) ! 0, h0)" "hart_ready h0"
    "key_mem (unit h0) = (key_mem (unit h))[0 := xtea_key ! 0]"
    using key_access_result(1) [OF assms, of 0 "xtea_key ! 0"] by auto
  obtain h1 where h1: "xtea_key_write 1 (xtea_key ! 1) h0 = Some (key_mem (unit h0) ! 1, h1)" "hart_ready h1"
    "key_mem (unit h1) = (key_mem (unit h0))[1 := xtea_key ! 1]"
    using key_access_result(1) [OF h0(2), of 1 "xtea_key ! 1"] by auto
  obtain h2 where h2: "xtea_key_write 2 (xtea_key ! 2) h1 = Some (key_mem (unit h1) ! 2, h2)" "hart_ready h2"
    "key_mem (unit h2) = (key_mem (unit h1))[2 := xtea_key ! 2]"
    using key_access_result(1) [OF h1(2), of 2 "xtea_key ! 2"] by auto
  obtain h3 where h3: "xtea_key_write 3 (xtea_key ! 3) h2 = Some (key_mem (unit h2) ! 3, h3)" "hart_ready h3"
    "key_mem (unit h3) = (key_mem (unit h2))[3 := xtea_key ! 3]"
    using key_access_result(1) [OF h2(2), of 3 "xtea_key ! 3"] by auto
  have "length (key_mem (unit h)) = 4" using assms by (simp add: hart_ready_def cfu_ready_def)
  then obtain a b c d where "key_mem (unit h) = [a, b, c, d]" by (auto simp: length_Suc_conv eval_nat_numeral)
  then have "key_mem (unit h3) = xtea_key" using h0(3) h1(3) h2(3) h3(3)
    by (simp add: xtea_key_def eval_nat_numeral)
  then show ?thesis using h0(1) h1(1) h2(1) h3(1,2) by (simp add: write_key_def)
qed

lemma data_sw:
  "cypher_data_sw xs = Some (map_pairs (\<lambda>v. xtea_sw_encipher XTEA_ROUNDS v xtea_key) xs)"
  "plain_data_sw xs = Some (map_pairs (\<lambda>v. xtea_sw_decipher XTEA_ROUNDS v xtea_key) xs)"
  by (simp_all only: cypher_data_sw_def plain_data_sw_def over_pairs_sw option.map fst_conv)

lemma compare_same: "first_diff xs xs = None" "first_bad xs xs xs = None"
  by (simp_all add: first_diff_def first_bad_def find_None_iff)

lemma cfu_demo_result:
  assumes "hart_ready h"
  shows "\<exists>h'. cfu_demo seed h = Some (Demo_ok, h') \<and> hart_ready h'"
proof -
  let ?enc = "\<lambda>v. xtea_sw_encipher XTEA_ROUNDS v xtea_key" and ?dec = "\<lambda>v. xtea_sw_decipher XTEA_ROUNDS v xtea_key"
  let ?in = "input_data seed"
  have l: "even (length ?in)" by (simp add: input_data_def DATA_NUM_def)
  have inv: "map_pairs ?dec (map_pairs ?enc ?in) = ?in" by (rule map_pairs_inverse [OF _ l]) (rule xtea_decipher_encipher)
  obtain h0 where h0: "write_key h = Some h0" "hart_ready h0" "key_mem (unit h0) = xtea_key"
    using write_key_result [OF assms] by blast
  obtain h1 where h1: "xtea_key_read 0 h0 = Some (xtea_key ! 0, h1)" "hart_ready h1" "key_mem (unit h1) = xtea_key"
    using key_access_result(2) [OF h0(2), of 0] h0(3) by auto
  obtain h2 where h2: "xtea_key_read 1 h1 = Some (xtea_key ! 1, h2)" "hart_ready h2" "key_mem (unit h2) = xtea_key"
    using key_access_result(2) [OF h1(2), of 1] h1(3) by auto
  obtain h3 where h3: "xtea_key_read 2 h2 = Some (xtea_key ! 2, h3)" "hart_ready h3" "key_mem (unit h3) = xtea_key"
    using key_access_result(2) [OF h2(2), of 2] h2(3) by auto
  obtain h4 where h4: "xtea_key_read 3 h3 = Some (xtea_key ! 3, h4)" "hart_ready h4" "key_mem (unit h4) = xtea_key"
    using key_access_result(2) [OF h3(2), of 3] h3(3) by auto
  obtain h5 where h5: "over_pairs hw_encipher ?in h4 = Some (map_pairs ?enc ?in, h5)" "hart_ready h5" "key_mem (unit h5) = xtea_key"
    using over_pairs_hw [OF h4(2,3), of hw_encipher ?enc] hw_encipher_result by metis
  obtain h6 where h6: "over_pairs hw_decipher (map_pairs ?enc ?in) h5 = Some (map_pairs ?dec (map_pairs ?enc ?in), h6)"
    "hart_ready h6"
    using over_pairs_hw [OF h5(2,3), of hw_decipher ?dec] hw_decipher_result by metis
  show ?thesis
    using h0(1) h1(1) h2(1) h3(1) h4(1) h5(1) h6 inv
    by (simp add: cfu_demo_def data_sw compare_same Let_def)
qed

lemma hw_illegal_inst_traps: "xtea_hw_illegal_inst h = None"
  unfolding xtea_hw_illegal_inst_def RISCV_INSTR_R_TYPE_def issue_def
  using execute_illegal [OF r_word_insn_r, of 7] by (simp add: Let_def case_prod_beta)

end
