(* ===== verification/Bus_Explorer.thy ===== *)
theory Bus_Explorer
  imports Rte Uart_Rtl Hart_Rtl
begin

text \<open>
  The interactive memory inspector \<^verbatim>\<open>sw/example/bus_explorer/main.c\<close>.  A load or store may raise an
  exception: it does if its address is not aligned or the bus answers with an error.  The runtime
  environment then passes it to the program's own handler before it resumes behind the access; a
  parameter says what a load that did so leaves in its destination.  \<open>None\<close> also stands for behaviour that C does not define.
\<close>

section \<open>Memory accesses that may trap\<close>

record bx =
  bus :: mach
  access_size :: u8
  exception :: bool

type_synonym bx_env = "event list \<Rightarrow> loc \<Rightarrow> u32"

definition bx_printf :: "u8 list \<Rightarrow> arg list \<Rightarrow> bx \<Rightarrow> bx option" where
  "bx_printf fmt args s = map_option (\<lambda>m. s\<lparr>bus := m\<rparr>) (neorv32_uart_printf UART0 fmt args (bus s))"

definition bx_putc :: "u8 \<Rightarrow> bx \<Rightarrow> bx option" where
  "bx_putc c s = map_option (\<lambda>m. s\<lparr>bus := m\<rparr>) (neorv32_uart_putc UART0 c (bus s))"

definition memory_trap_handler :: "bx \<Rightarrow> bx option" where
  "memory_trap_handler s = do {
     let s = s\<lparr>exception := True\<rparr>;
     let (cause, m) = neorv32_cpu_csr_read CSR_MCAUSE (bus s);
     let s = s\<lparr>bus := m\<rparr>;
     s \<leftarrow> bx_printf (str ''[MEMORY ACCESS EXCEPTION!] '') [] s;
     s \<leftarrow> (if cause = trap_code_of TRAP_CODE_L_MISALIGNED \<or> cause = trap_code_of TRAP_CODE_S_MISALIGNED
          then bx_printf (str ''Misaligned address '') [] s else Some s);
     s \<leftarrow> (if cause = trap_code_of TRAP_CODE_L_ACCESS \<or> cause = trap_code_of TRAP_CODE_S_ACCESS
          then bx_printf (str ''Bus access error at '') [] s else Some s);
     let (mtval, m) = neorv32_cpu_csr_read CSR_MTVAL (bus s);
     bx_printf (str ''0x%x'' @ [10]) [AInt mtval] (s\<lparr>bus := m\<rparr>)
   }"

definition bx_store :: "width \<Rightarrow> u32 \<Rightarrow> u32 \<Rightarrow> bx \<Rightarrow> bx option" where
  "bx_store w a v s =
     (if access_traps True w a (bus s) then memory_trap_handler s else Some (s\<lparr>bus := wr (Mem w a) v (bus s)\<rparr>))"

definition bx_load :: "bx_env \<Rightarrow> width \<Rightarrow> u32 \<Rightarrow> bx \<Rightarrow> (u32 \<times> bx) option" where
  "bx_load stale w a s =
     (if access_traps False w a (bus s) then map_option (\<lambda>s'. (stale (log (bus s)) (Mem w a), s')) (memory_trap_handler s)
      else (let (v, m) = rd (Mem w a) (bus s) in Some (v, s\<lparr>bus := m\<rparr>)))"

definition store_byte :: "u32 \<Rightarrow> u32 \<Rightarrow> bx \<Rightarrow> bx option" where
  "store_byte a v = bx_store W8 a (ucast (ucast v :: u8))"
definition store_half :: "u32 \<Rightarrow> u32 \<Rightarrow> bx \<Rightarrow> bx option" where
  "store_half a v = bx_store W16 a (ucast (ucast v :: u16))"
definition store_word :: "u32 \<Rightarrow> u32 \<Rightarrow> bx \<Rightarrow> bx option" where
  "store_word a v = bx_store W32 a v"

definition load_byte :: "bx_env \<Rightarrow> u32 \<Rightarrow> bx \<Rightarrow> (u32 \<times> bx) option" where
  "load_byte env a s = map_option (\<lambda>(v, s). (ucast (ucast v :: u8), s)) (bx_load env W8 a s)"
definition load_half :: "bx_env \<Rightarrow> u32 \<Rightarrow> bx \<Rightarrow> (u32 \<times> bx) option" where
  "load_half env a s = map_option (\<lambda>(v, s). (ucast (ucast v :: u16), s)) (bx_load env W16 a s)"
definition load_word :: "bx_env \<Rightarrow> u32 \<Rightarrow> bx \<Rightarrow> (u32 \<times> bx) option" where
  "load_word env a s = bx_load env W32 a s"

section \<open>The commands\<close>

definition bx_symbols :: "u8 list" where "bx_symbols = str ''0123456789abcdef''"

definition aux_print_hex_byte :: "u8 \<Rightarrow> bx \<Rightarrow> bx option" where
  "aux_print_hex_byte b s = do {
     s \<leftarrow> bx_putc (bx_symbols ! unat (drop_bit 4 b AND 0xf)) s;
     bx_putc (bx_symbols ! unat (b AND 0xf)) s
   }"

fun print_hex_bytes :: "u8 list \<Rightarrow> bx \<Rightarrow> bx option" where
  "print_hex_bytes [] s = Some s"
| "print_hex_bytes (b # bs) s = do { s \<leftarrow> aux_print_hex_byte b s; print_hex_bytes bs s }"

partial_function (option) setup_access :: "bx \<Rightarrow> bx option" where
  "setup_access s = do {
     s \<leftarrow> bx_printf (str ''selection: '') [] s;
     (tmp, m) \<leftarrow> neorv32_uart_getc UART0 (bus s);
     s \<leftarrow> bx_putc tmp (s\<lparr>bus := m\<rparr>);
     if tmp = 0x62 \<or> tmp = 0x68 \<or> tmp = 0x77 then bx_printf [10] [] (s\<lparr>access_size := tmp\<rparr>)
     else if tmp = 0x78 then bx_printf [10] [] s
     else do {
       s \<leftarrow> bx_printf (10 # str ''Invalid selection!'' @ [10]) [] s;
       setup_access s
     }
   }"

definition setup_access_menu :: "bx \<Rightarrow> bx option" where
  "setup_access_menu s = do {
     s \<leftarrow> bx_printf (str ''Select data size (press 'x' to abort):'' @ [10]
            @ str '' 'b' - byte, 8-bit, unsigned'' @ [10]
            @ str '' 'h' - half-word, 16-bit, unsigned'' @ [10]
            @ str '' 'w' - word, 32-bit, unsigned'' @ [10]) [] s;
     setup_access s
   }"

definition not_configured :: "bx \<Rightarrow> bx option" where
  "not_configured = bx_printf (str ''Configure data size using 'setup' first.'' @ [10]) []"

text \<open>One of the three tests: clear the word, store the parts at their width, load them and compare.\<close>

fun store_parts :: "(u32 \<Rightarrow> u32 \<Rightarrow> bx \<Rightarrow> bx option) \<Rightarrow> u32 \<Rightarrow> u32 \<Rightarrow> u32 list \<Rightarrow> bx \<Rightarrow> bx option" where
  "store_parts store address step [] s = Some s"
| "store_parts store address step (v # vs) s = do {
     s \<leftarrow> store address v s;
     store_parts store (address + step) step vs s
   }"

fun load_parts :: "(u32 \<Rightarrow> bx \<Rightarrow> (u32 \<times> bx) option) \<Rightarrow> u32 \<Rightarrow> u32 \<Rightarrow> nat \<Rightarrow> bx \<Rightarrow> (u32 list \<times> bx) option" where
  "load_parts load address step 0 s = Some ([], s)"
| "load_parts load address step (Suc n) s = do {
     (v, s) \<leftarrow> load address s;
     (vs, s) \<leftarrow> load_parts load (address + step) step n s;
     Some (v # vs, s)
   }"

fun print_mismatch :: "u32 \<Rightarrow> u32 \<Rightarrow> (u32 \<times> u32) list \<Rightarrow> bx \<Rightarrow> bx option" where
  "print_mismatch address step [] s = Some s"
| "print_mismatch address step ((res, ref) # vs) s = do {
     s \<leftarrow> bx_printf (str ''[0x%x] | 0x%x | 0x%x'' @ [10]) [AInt address, AInt res, AInt ref] s;
     print_mismatch (address + step) step vs s
   }"

text \<open>The result says whether the routine goes on to the next test.\<close>

definition test_width :: "u8 list \<Rightarrow> (u32 \<Rightarrow> u32 \<Rightarrow> bx \<Rightarrow> bx option) \<Rightarrow> (u32 \<Rightarrow> bx \<Rightarrow> (u32 \<times> bx) option)
    \<Rightarrow> u32 \<Rightarrow> u32 list \<Rightarrow> u32 \<Rightarrow> bx \<Rightarrow> (bool \<times> bx) option" where
  "test_width title store load step data_ref address s = do {
     s \<leftarrow> bx_printf title [] s;
     s \<leftarrow> store_word address 0 s;
     s \<leftarrow> store_parts store address step data_ref s;
     (data_res, s) \<leftarrow> load_parts load address step (List.length data_ref) s;
     if exception s then Some (False, s)
     else if data_ref \<noteq> data_res then do {
       s \<leftarrow> bx_printf (str ''FAILED'' @ [10]) [] s;
       s \<leftarrow> bx_printf (str ''Address      | Read data  | Expected'' @ [10]) [] s;
       s \<leftarrow> bx_printf (str ''-------------+------------+-----------'' @ [10]) [] s;
       s \<leftarrow> print_mismatch address step (zip data_res data_ref) s;
       Some (False, s)
     }
     else do { s \<leftarrow> bx_printf (str ''ok'' @ [10]) [] s; Some (True, s) }
   }"

definition test_memory :: "bx_env \<Rightarrow> u32 \<Rightarrow> bx \<Rightarrow> (bool \<times> bx) option" where
  "test_memory env address s = do {
     s \<leftarrow> bx_printf (str ''Testing memory access at address 0x%x.'' @ [10]) [AInt address] s;
     let s = s\<lparr>exception := False\<rparr>;
     (go, s) \<leftarrow> test_width (str ''8-bit accesses... '') store_byte (load_byte env) 1 [0x78, 0x56, 0x34, 0x12] address s;
     if \<not> go then Some (False, s)
     else do {
       (go, s) \<leftarrow> test_width (str ''16-bit accesses... '') store_half (load_half env) 2 [0x6677, 0x4455] address s;
       if \<not> go then Some (False, s)
       else test_width (str ''32-bit accesses... '') store_word (load_word env) 4 [0xabcd1234] address s
     }
   }"

primrec set_loop :: "nat \<Rightarrow> u32 \<Rightarrow> u32 \<Rightarrow> bx \<Rightarrow> bx option" where
  "set_loop 0 address v s = Some s"
| "set_loop (Suc n) address v s = do {
     s \<leftarrow> (if access_size s = 0x62 then store_byte address v s
          else if access_size s = 0x68 then store_half address v s
          else if access_size s = 0x77 then store_word address v s
          else Some s);
     let address = address + (if access_size s = 0x62 then 1 else if access_size s = 0x68 then 2
                              else if access_size s = 0x77 then 4 else 0);
     if exception s then Some s
     else do {
       s \<leftarrow> bx_printf (str ''[0x%x] <= 0x%x'' @ [10]) [AInt address, AInt v] s;
       set_loop n address v s
     }
   }"

definition set_memory :: "u32 \<Rightarrow> u32 \<Rightarrow> u32 \<Rightarrow> bx \<Rightarrow> bx option" where
  "set_memory address v num s =
     (if access_size s = 0 then not_configured s
      else set_loop (unat num) address v (s\<lparr>exception := False\<rparr>))"

definition read_memory :: "bx_env \<Rightarrow> u32 \<Rightarrow> bx \<Rightarrow> bx option" where
  "read_memory env address s =
     (if access_size s = 0 then not_configured s
      else do {
        s \<leftarrow> bx_printf (str ''[0x%x] => '') [AInt address] s;
        let s = s\<lparr>exception := False\<rparr>;
        (b, s) \<leftarrow> (if access_size s = 0x62 then load_byte env address s else Some (0, s));
        (h, s) \<leftarrow> (if access_size s = 0x68 then load_half env address s else Some (0, s));
        (w, s) \<leftarrow> (if access_size s = 0x77 then load_word env address s else Some (0, s));
        if \<not> exception s then do {
          s \<leftarrow> bx_printf (str ''0x'') [] s;
          s \<leftarrow> (if access_size s = 0x62 then print_hex_bytes [ucast b] s else Some s);
          s \<leftarrow> (if access_size s = 0x68 then print_hex_bytes [ucast (drop_bit 8 h), ucast h] s else Some s);
          s \<leftarrow> (if access_size s = 0x77
               then print_hex_bytes [ucast (drop_bit 24 w), ucast (drop_bit 16 w), ucast (drop_bit 8 w), ucast w] s
               else Some s);
          bx_printf [10] [] s
        }
        else Some s
      })"

definition write_memory :: "u32 \<Rightarrow> u32 \<Rightarrow> bx \<Rightarrow> bx option" where
  "write_memory address d s =
     (if access_size s = 0 then not_configured s
      else do {
        let s = s\<lparr>exception := False\<rparr>;
        s \<leftarrow> (if access_size s = 0x62 then do {
               s \<leftarrow> bx_printf (str ''[0x%x] <= 0x'') [AInt address] s;
               print_hex_bytes [ucast d] s } else Some s);
        s \<leftarrow> (if access_size s = 0x68 then do {
               s \<leftarrow> bx_printf (str ''[0x%x] <= 0x'') [AInt address] s;
               print_hex_bytes [ucast (drop_bit 8 d), ucast d] s } else Some s);
        s \<leftarrow> (if access_size s = 0x77 then do {
               s \<leftarrow> bx_printf (str ''[0x%x] <= 0x'') [AInt address] s;
               print_hex_bytes [ucast (drop_bit 24 d), ucast (drop_bit 16 d), ucast (drop_bit 8 d), ucast d] s } else Some s);
        s \<leftarrow> (if access_size s = 0x62 then store_byte address d s else Some s);
        s \<leftarrow> (if access_size s = 0x68 then store_half address d s else Some s);
        s \<leftarrow> (if access_size s = 0x77 then store_word address d s else Some s);
        if \<not> exception s then bx_printf [10] [] s else Some s
      })"

text \<open>Sixteen bytes; the first exception ends the dump.\<close>

primrec dump_line :: "bx_env \<Rightarrow> nat \<Rightarrow> u32 \<Rightarrow> bx \<Rightarrow> (u8 list \<times> bx) option" where
  "dump_line env 0 address s = Some ([], s)"
| "dump_line env (Suc n) address s = do {
     (v, s) \<leftarrow> load_byte env address s;
     if exception s then Some ([], s)
     else do {
       (line, s) \<leftarrow> dump_line env n (address + 1) s;
       Some (ucast v # line, s)
     }
   }"

fun dump_hex :: "u8 list \<Rightarrow> bx \<Rightarrow> bx option" where
  "dump_hex [] s = Some s"
| "dump_hex (b # bs) s = do { s \<leftarrow> bx_putc 0x20 s; s \<leftarrow> aux_print_hex_byte b s; dump_hex bs s }"

fun dump_ascii :: "u8 list \<Rightarrow> bx \<Rightarrow> bx option" where
  "dump_ascii [] s = Some s"
| "dump_ascii (b # bs) s = do { s \<leftarrow> bx_putc (if b < 32 \<or> b > 126 then 0x2e else b) s; dump_ascii bs s }"

partial_function (option) dump_loop :: "bx_env \<Rightarrow> u32 \<Rightarrow> bx \<Rightarrow> bx option" where
  "dump_loop env address s = do {
     s \<leftarrow> bx_printf (str ''0x%x |'') [AInt address] s;
     (line, s) \<leftarrow> dump_line env 16 address s;
     if exception s then Some s
     else do {
       s \<leftarrow> dump_hex line s;
       s \<leftarrow> bx_printf (str '' | '') [] s;
       s \<leftarrow> dump_ascii line s;
       s \<leftarrow> bx_printf [10] [] s;
       let (received, m) = neorv32_uart_char_received UART0 (bus s);
       let s = s\<lparr>bus := m\<rparr>;
       if received \<noteq> 0 then do {
         let (_, m) = neorv32_uart_char_received_get UART0 (bus s);
         s \<leftarrow> bx_printf (str ''Dumping paused. Press any key to resume or press 'q' to quit.'' @ [10]) [] (s\<lparr>bus := m\<rparr>);
         (c, m) \<leftarrow> neorv32_uart_getc UART0 (bus s);
         if c = 0x71 then Some (s\<lparr>bus := m\<rparr>) else dump_loop env (address + 16) (s\<lparr>bus := m\<rparr>)
       }
       else dump_loop env (address + 16) s
     }
   }"

definition hexdump :: "bx_env \<Rightarrow> u32 \<Rightarrow> bx \<Rightarrow> bx option" where
  "hexdump env address s = do {
     s \<leftarrow> bx_printf (str ''Press key to start dumping. Then, press any key to pause/resume'' @ [10]) [] s;
     s \<leftarrow> bx_printf (str ''dumping or press 'q' to quit dumping.'' @ [10]) [] s;
     (_, m) \<leftarrow> neorv32_uart_getc UART0 (bus s);
     dump_loop env (address AND 0xfffffff0) (s\<lparr>bus := m, exception := False\<rparr>)
   }"

section \<open>The command line\<close>

text \<open>\<^verbatim>\<open>strtok\<close> with a blank as delimiter: the words of the string.\<close>

fun strtok_words :: "u8 list \<Rightarrow> u8 list \<Rightarrow> u8 list list" where
  "strtok_words w [] = (if w = [] then [] else [w])"
| "strtok_words w (c # cs) =
     (if c = 0x20 then (if w = [] then strtok_words [] cs else w # strtok_words [] cs)
      else strtok_words (w @ [c]) cs)"

definition c_string :: "u8 list \<Rightarrow> u8 list" where
  "c_string = takeWhile (\<lambda>c. c \<noteq> 0)"

definition hex_arg :: "u8 list \<Rightarrow> u32 option" where
  "hex_arg w = map_option ucast (neorv32_aux_hexstr2uint64 (w @ [0]) 8)"

definition bx_help :: "u8 list" where
  "bx_help = str ''Available commands:'' @ [10, 10]
     @ str '' help                        - show this text'' @ [10]
     @ str '' setup                       - configure memory access width (byte,half,word)'' @ [10]
     @ str '' test [address]              - test memory interface at [address]'' @ [10]
     @ str '' set [address] [value] [num] - write [value] [num] times to memory starting at [address]'' @ [10]
     @ str '' read [address]              - read data from [address]'' @ [10]
     @ str '' write [address] [value]     - write [value] to [address]'' @ [10]
     @ str '' dump [address]              - hex dump bytes + ASCII starting at [address]'' @ [10]
     @ str '' sync                        - synchronize with main memory'' @ [10]
     @ str '' exit                        - return to bootloader (if available)'' @ [10, 10]
     @ str ''NOTE: [address], [num] and [value] are 32-bit hexadecimal numbers without prefix.'' @ [10]
     @ str ''      If less than 8 hex chars are entered the remaining MSBs are filled with zeros.'' @ [10, 10]
     @ str ''Examples:'' @ [10, 10]
     @ str '' write 80000020 feedcafe'' @ [10]
     @ str '' read 00000460'' @ [10]
     @ str '' set 80000100 deadc0de 100'' @ [10, 10]"

definition insufficient :: "string \<Rightarrow> bx \<Rightarrow> bx option" where
  "insufficient usage s = do {
     s \<leftarrow> bx_printf (str ''Insufficient arguments.'' @ [10]) [] s;
     bx_printf (str usage @ [10]) [] s
   }"

datatype bx_outcome = Bx_again bx | Bx_bootloader u32 mach | Bx_return int mach

definition bx_exit :: "bx \<Rightarrow> bx_outcome option" where
  "bx_exit s = do {
     let (soc, m) = soc_test SYSINFO_SOC_BOOTLOADER (bus s);
     if soc \<noteq> 0 then do {
       s \<leftarrow> bx_printf (str ''Returning t0 bootloader...'' @ [10]) [] (s\<lparr>bus := m\<rparr>);
       m \<leftarrow> poll (\<lambda>v. v AND BIT (uart_ctrl UART_CTRL_TX_BUSY) \<noteq> 0) (UART_CTRL UART0) (bus s);
       Some (Bx_bootloader NEORV32_BOOTROM_BASE (neorv32_cpu_csr_write CSR_MEPC NEORV32_BOOTROM_BASE m))
     }
     else map_option Bx_again (bx_printf (str ''Bootloader not available.'' @ [10]) [] (s\<lparr>bus := m\<rparr>))
   }"

text \<open>No word at all: \<^verbatim>\<open>strcmp\<close> gets a null pointer before it is tested, which is \<open>None\<close>.\<close>

definition bx_command :: "bx_env \<Rightarrow> u8 list list \<Rightarrow> bx \<Rightarrow> bx_outcome option" where
  "bx_command env ws s =
     (case ws of
        [] \<Rightarrow> None
      | command # args \<Rightarrow>
          if command = str ''help'' then map_option Bx_again (bx_printf bx_help [] s)
          else if command = str ''setup'' then map_option Bx_again (setup_access_menu s)
          else if command = str ''test'' then
            (case args of
               a0 # _ \<Rightarrow> do { a \<leftarrow> hex_arg a0; (_, s) \<leftarrow> test_memory env a s; Some (Bx_again s) }
             | _ \<Rightarrow> map_option Bx_again (insufficient ''test [address]'' s))
          else if command = str ''set'' then
            (case args of
               a0 # a1 # a2 # _ \<Rightarrow> do {
                 a \<leftarrow> hex_arg a0; v \<leftarrow> hex_arg a1; n \<leftarrow> hex_arg a2;
                 map_option Bx_again (set_memory a v n s) }
             | _ \<Rightarrow> map_option Bx_again (insufficient ''set [address] [value] [num]'' s))
          else if command = str ''read'' then
            (case args of
               a0 # _ \<Rightarrow> do { a \<leftarrow> hex_arg a0; map_option Bx_again (read_memory env a s) }
             | _ \<Rightarrow> map_option Bx_again (insufficient ''read [address]'' s))
          else if command = str ''write'' then
            (case args of
               a0 # a1 # _ \<Rightarrow> do { a \<leftarrow> hex_arg a0; v \<leftarrow> hex_arg a1; map_option Bx_again (write_memory a v s) }
             | _ \<Rightarrow> map_option Bx_again (insufficient ''write [address] [value]'' s))
          else if command = str ''dump'' then
            (case args of
               a0 # _ \<Rightarrow> do { a \<leftarrow> hex_arg a0; map_option Bx_again (hexdump env a s) }
             | _ \<Rightarrow> map_option Bx_again (insufficient ''dump [address]'' s))
          else if command = str ''sync'' then do {
            s \<leftarrow> bx_printf (str ''Synchronizing... '') [] s;
            let m = tick Fence (tick FenceI (tick Fence (bus s)));
            map_option Bx_again (bx_printf (str ''ok'' @ [10]) [] (s\<lparr>bus := m\<rparr>))
          }
          else if command = str ''exit'' then bx_exit s
          else map_option Bx_again (bx_printf (str ''Invalid command. Type 'help' to see all commands.'' @ [10]) [] s))"

text \<open>One turn of the main loop, with the buffer of 40 characters as it is.\<close>

definition bx_turn :: "bx_env \<Rightarrow> u8 list \<Rightarrow> bx \<Rightarrow> (u8 list \<times> bx_outcome) option" where
  "bx_turn env buffer s = do {
     s \<leftarrow> bx_printf (str ''BUS_EXPLORER:> '') [] s;
     (len, buffer, m) \<leftarrow> neorv32_uart_scan UART0 buffer 32 True (bus s);
     s \<leftarrow> bx_printf [10] [] (s\<lparr>bus := m\<rparr>);
     if len = 0 then Some (buffer, Bx_again s)
     else do {
       out \<leftarrow> bx_command env (strtok_words [] (c_string buffer)) s;
       Some (buffer, out)
     }
   }"

partial_function (option) bx_loop :: "bx_env \<Rightarrow> u8 list \<Rightarrow> bx \<Rightarrow> bx_outcome option" where
  "bx_loop env buffer s = do {
     (buffer, out) \<leftarrow> bx_turn env buffer s;
     case out of Bx_again s \<Rightarrow> bx_loop env buffer s | _ \<Rightarrow> Some out
   }"

definition bx_main :: "rte_image \<Rightarrow> u32 \<Rightarrow> bx_env \<Rightarrow> u8 list \<Rightarrow> mach \<Rightarrow> bx_outcome option" where
  "bx_main im handler env buffer m = do {
     let (avail, m) = neorv32_uart_available UART0 m;
     if avail = 0 then Some (Bx_return 1 m)
     else do {
       let m = neorv32_rte_setup im m;
       let (_, m) = neorv32_rte_handler_install im (trap_code_of TRAP_CODE_L_MISALIGNED) handler m;
       let (_, m) = neorv32_rte_handler_install im (trap_code_of TRAP_CODE_L_ACCESS) handler m;
       let (_, m) = neorv32_rte_handler_install im (trap_code_of TRAP_CODE_S_MISALIGNED) handler m;
       let (_, m) = neorv32_rte_handler_install im (trap_code_of TRAP_CODE_S_ACCESS) handler m;
       let m = neorv32_cpu_csr_write CSR_MIE 0 m;
       let m = neorv32_uart_setup UART0 19200 0 m;
       let s = \<lparr>bus = m, access_size = 0, exception = False\<rparr>;
       s \<leftarrow> bx_printf (10 # str ''<<< NEORV32 Bus Explorer >>>'' @ [10, 10]) [] s;
       s \<leftarrow> bx_printf (str ''This program allows to read/write/dump memory space by hand.'' @ [10]
              @ str ''Type 'help' to see the help menu.'' @ [10, 10]) [] s;
       bx_loop env buffer s
     }
   }"

lemma hex_arg_digits:
  "hex_arg w = map_option ucast (hexstr_loop (w @ [0]) (Suc (Suc (Suc (Suc (Suc (Suc (Suc (Suc 0)))))))) 0)"
proof -
  have "neorv32_aux_hexstr2uint64 (w @ [0]) 8 = hexstr_loop (w @ [0]) (unat (8 :: u32)) 0"
    by (simp add: neorv32_aux_hexstr2uint64_def)
  moreover have "unat (8 :: u32) = Suc (Suc (Suc (Suc (Suc (Suc (Suc (Suc 0)))))))" by simp
  ultimately show ?thesis by (simp only: hex_arg_def)
qed

section \<open>Printing and typing leave the memory alone\<close>

text \<open>The console, apart from the accesses to other memory: what is left as it was.\<close>

definition bx_still :: "bx \<Rightarrow> bx \<Rightarrow> bool" where
  "bx_still s s' \<longleftrightarrow> only_locs console_locs (bus s) (bus s') \<and> access_size s' = access_size s \<and> exception s' = exception s"

lemma bx_still_trans: "bx_still s s1 \<Longrightarrow> bx_still s1 s2 \<Longrightarrow> bx_still s s2"
  by (auto simp: bx_still_def intro: only_locs_trans)

lemma putcs_only: "putcs UART0 cs m = Some m' \<Longrightarrow> only_locs console_locs m m'"
  by (induction cs arbitrary: m) (auto split: Option.bind_splits dest!: putc_only intro: only_locs_trans)

lemma printf_only: "neorv32_uart_printf UART0 fmt args m = Some m' \<Longrightarrow> only_locs console_locs m m'"
  by (auto simp: neorv32_uart_printf_def vprintf_putcs putcs_only split: Option.bind_splits)

lemma bx_printf_still: "bx_printf fmt args s = Some s' \<Longrightarrow> bx_still s s'"
  by (auto simp: bx_printf_def bx_still_def dest: printf_only)

lemma bx_putc_still: "bx_putc c s = Some s' \<Longrightarrow> bx_still s s'"
  by (auto simp: bx_putc_def bx_still_def dest: putc_only)

lemma getc_only': "neorv32_uart_getc UART0 m = Some (c, m') \<Longrightarrow> only_locs console_locs m m'"
  by (auto simp: neorv32_uart_getc_def neorv32_uart_char_received_get_def rd_def console_locs_def Let_def
      intro!: only_locs_trans [OF only_locs_poll only_locs_tick] split: Option.bind_splits)

lemma scan_only: "scan_loop UART0 mx echo buf len m = Some (n, buf', m') \<Longrightarrow> only_locs console_locs m m'"
proof -
  have "U = UART0 \<longrightarrow> only_locs console_locs m (snd (snd r))" if "scan_loop U mx echo buf len m = Some r" for U mx echo buf len m r
    using that
  proof (rule scan_loop.raw_induct [where P = "\<lambda>U mx echo buf len m r. U = UART0 \<longrightarrow> only_locs console_locs m (snd (snd r))", rotated])
    fix f U mx echo buf len m r
    assume IH: "\<And>U mx echo buf len m r. f U mx echo buf len m = Some r \<Longrightarrow> U = UART0 \<longrightarrow> only_locs console_locs m (snd (snd r))"
      and eq: "do {
       (c, m) \<leftarrow> neorv32_uart_getc U m;
       if c = 8 then
         if len \<noteq> 0 then do {
           m \<leftarrow> (if echo then neorv32_uart_puts U [8, 0x20, 8] m else Some m);
           f U mx echo buf (len - 1) m
         } else f U mx echo buf len m
       else if c = 13 \<or> c = 10 then do {
         buf \<leftarrow> store_at len 0 buf;
         Some (len, buf, m)
       }
       else if 0x20 \<le> c \<and> c \<le> 0x7e \<and> int len < mx - 1 then do {
         m \<leftarrow> (if echo then neorv32_uart_putc U c m else Some m);
         buf \<leftarrow> store_at len c buf;
         f U mx echo buf (len + 1) m
       }
       else f U mx echo buf len m
     } = Some r"
    show "U = UART0 \<longrightarrow> only_locs console_locs m (snd (snd r))"
    proof
      assume U: "U = UART0"
      from eq obtain c m1 where g: "neorv32_uart_getc UART0 m = Some (c, m1)" by (auto simp: U split: Option.bind_splits)
      have t: "only_locs console_locs m m2" if "only_locs console_locs m1 m2" for m2
        using getc_only' [OF g] that by (rule only_locs_trans)
      have p: "only_locs console_locs m1 m2" if "(if echo then putcs UART0 cs m1 else Some m1) = Some m2" for m2 cs
        using that by (auto split: if_splits dest: putcs_only)
      have r: "only_locs console_locs m (snd (snd r))" if "f UART0 mx echo b l m2 = Some r" "only_locs console_locs m1 m2" for b l m2
        using IH [OF that(1)] t [OF that(2)] by (auto intro: only_locs_trans)
      show "only_locs console_locs m (snd (snd r))"
        using eq p [of "[8, 0x20, 8]"] p [of "[c]"] t [OF only_locs_refl] r
        by (auto simp: U g puts_putcs store_at_def split: if_splits Option.bind_splits)
    qed
  qed
  then show "scan_loop UART0 mx echo buf len m = Some (n, buf', m') \<Longrightarrow> only_locs console_locs m m'" by fastforce
qed

lemma fmt_out_plain: "(\<And>c. c \<in> set s \<Longrightarrow> c \<noteq> 0 \<and> c \<noteq> 0x25) \<Longrightarrow> fmt_out s args = Some (crlf s)"
proof (induction s)
  case (Cons c s)
  then show ?case by (cases s) simp_all
qed simp

section \<open>The write command\<close>

text \<open>The width and the value a write of the selected size stores.\<close>

definition bx_cell :: "u8 \<Rightarrow> u32 \<Rightarrow> (width \<times> u32) option" where
  "bx_cell sz d =
     (if sz = 0x62 then Some (W8, ucast (ucast d :: u8))
      else if sz = 0x68 then Some (W16, ucast (ucast d :: u16))
      else if sz = 0x77 then Some (W32, d) else None)"

text \<open>What a store of the program comes to, if the bus always answers it with \<open>err\<close>.\<close>

definition stores :: "u32 \<Rightarrow> width \<Rightarrow> u32 \<Rightarrow> bool" where
  "stores err w a \<longleftrightarrow> aligned w a \<and> err = 0"

locale bx_console = uart_line ok UART0 input pos for ok :: "mach \<Rightarrow> bool" and input :: "u8 list" and pos :: "mach \<Rightarrow> nat"
begin

lemma bx_printf_runs:
  assumes "ok (bus s)" "fmt_out fmt args = Some out"
  obtains s' where "bx_printf fmt args s = Some s'" "ok (bus s')" "bx_still s s'" "pos (bus s') = pos (bus s)"
proof -
  obtain m' where m': "putcs UART0 out (bus s) = Some m'" "ok m'" using putcs_returns [OF assms(1)] by blast
  then have p: "bx_printf fmt args s = Some (s\<lparr>bus := m'\<rparr>)"
    by (simp add: bx_printf_def neorv32_uart_printf_def vprintf_putcs assms(2))
  show ?thesis using that [OF p] m'(2) bx_printf_still [OF p] pos_putcs [OF assms(1) m'(1)] by simp
qed

lemma bx_hex_runs:
  assumes "ok (bus s)"
  shows "\<exists>s'. print_hex_bytes bs s = Some s' \<and> ok (bus s') \<and> bx_still s s'"
  using assms
proof (induction bs arbitrary: s)
  case Nil
  then show ?case by (simp add: bx_still_def)
next
  case (Cons b bs)
  have c: "\<exists>s'. bx_putc c s = Some s' \<and> ok (bus s') \<and> bx_still s s'" if o: "ok (bus s)" for c s
  proof -
    obtain m' where "neorv32_uart_putc UART0 c (bus s) = Some m'" "ok m'" using putc_returns [OF o] by blast
    then show ?thesis using putc_only by (auto simp: bx_putc_def bx_still_def)
  qed
  obtain s1 where s1: "bx_putc (bx_symbols ! unat (drop_bit 4 b AND 0xf)) s = Some s1" "ok (bus s1)" "bx_still s s1"
    using c [OF Cons.prems] by blast
  obtain s2 where s2: "bx_putc (bx_symbols ! unat (b AND 0xf)) s1 = Some s2" "ok (bus s2)" "bx_still s1 s2"
    using c [OF s1(2)] by blast
  show ?case using Cons.IH [OF s2(2)] s1 s2 by (auto simp: aux_print_hex_byte_def intro: bx_still_trans)
qed

lemma ok_wr: "ok m \<Longrightarrow> l \<notin> console_locs \<Longrightarrow> ok (wr l v m)"
  by (auto simp: wr_def console_locs_def intro: ok_tick)

lemma bx_printf_out:
  assumes "ok (bus s)" "fmt_out fmt args = Some out"
  obtains s' where "bx_printf fmt args s = Some s'" "ok (bus s')" "access_size s' = access_size s" "exception s' = exception s"
    "\<And>l. l \<notin> console_locs \<Longrightarrow> written l (bus s') = written l (bus s)"
proof -
  obtain s' where s': "bx_printf fmt args s = Some s'" "ok (bus s')" "bx_still s s'" by (rule bx_printf_runs [OF assms])
  show ?thesis by (rule that [OF s'(1,2)]) (use s'(3) in \<open>auto simp: bx_still_def dest: written_only_locs\<close>)
qed

lemma print_option_runs:
  assumes "ok (bus s)" "fmt_out fmt args = Some out"
  shows "\<exists>s'. (if c then bx_printf fmt args s else Some s) = Some s' \<and> ok (bus s') \<and> access_size s' = access_size s
    \<and> exception s' = exception s \<and> (\<forall>l. l \<notin> console_locs \<longrightarrow> written l (bus s') = written l (bus s))"
proof (cases c)
  case True
  show ?thesis by (rule bx_printf_out [OF assms]) (use True in auto)
qed (simp add: assms(1))

lemma trap_handler_runs:
  assumes "ok (bus s)"
  obtains s' where "memory_trap_handler s = Some s'" "ok (bus s')" "access_size s' = access_size s" "exception s'"
    "\<And>l. l \<notin> console_locs \<Longrightarrow> written l (bus s') = written l (bus s)"
proof -
  have ok_csr: "ok (bus (x\<lparr>bus := snd (neorv32_cpu_csr_read c (bus x))\<rparr>))" if "ok (bus x)" for c and x :: bx
    using that by (auto simp: neorv32_cpu_csr_read_def rd_def intro: ok_tick)
  have csr: "written l (snd (neorv32_cpu_csr_read c m)) = written l m" for l c m by (simp add: neorv32_cpu_csr_read_def rd_def)
  let ?e = "str ''[MEMORY ACCESS EXCEPTION!] ''" and ?s0 = "s\<lparr>exception := True, bus := snd (neorv32_cpu_csr_read CSR_MCAUSE (bus s))\<rparr>"
  let ?cause = "fst (neorv32_cpu_csr_read CSR_MCAUSE (bus s))"
  have plain: "fmt_out ?e [] = Some (crlf ?e)" "fmt_out (str ''Misaligned address '') [] = Some (crlf (str ''Misaligned address ''))"
    "fmt_out (str ''Bus access error at '') [] = Some (crlf (str ''Bus access error at ''))"
    by (rule fmt_out_plain; auto simp: str_def)+
  have "ok (bus ?s0)" using ok_csr [of "s\<lparr>exception := True\<rparr>" CSR_MCAUSE] assms by simp
  from bx_printf_out [OF this plain(1)] obtain s1 where s1: "bx_printf ?e [] ?s0 = Some s1" "ok (bus s1)"
    "access_size s1 = access_size s" "exception s1" "\<And>l. l \<notin> console_locs \<Longrightarrow> written l (bus s1) = written l (bus s)"
    by (auto simp: csr)
  obtain s2 where s2: "(if ?cause = trap_code_of TRAP_CODE_L_MISALIGNED \<or> ?cause = trap_code_of TRAP_CODE_S_MISALIGNED
      then bx_printf (str ''Misaligned address '') [] s1 else Some s1) = Some s2" "ok (bus s2)" "access_size s2 = access_size s"
    "exception s2" "\<And>l. l \<notin> console_locs \<Longrightarrow> written l (bus s2) = written l (bus s)"
    using print_option_runs [OF s1(2) plain(2)] s1(3-5) by metis
  obtain s3 where s3: "(if ?cause = trap_code_of TRAP_CODE_L_ACCESS \<or> ?cause = trap_code_of TRAP_CODE_S_ACCESS
      then bx_printf (str ''Bus access error at '') [] s2 else Some s2) = Some s3" "ok (bus s3)" "access_size s3 = access_size s"
    "exception s3" "\<And>l. l \<notin> console_locs \<Longrightarrow> written l (bus s3) = written l (bus s)"
    using print_option_runs [OF s2(2) plain(3)] s2(3-5) by metis
  let ?v = "fst (neorv32_cpu_csr_read CSR_MTVAL (bus s3))" and ?s3 = "s3\<lparr>bus := snd (neorv32_cpu_csr_read CSR_MTVAL (bus s3))\<rparr>"
  have "\<exists>out. fmt_out (str ''0x%x'' @ [10]) [AInt ?v] = Some out" by (simp add: str_def fmt_one_def to_lower_def)
  then obtain out where out: "fmt_out (str ''0x%x'' @ [10]) [AInt ?v] = Some out" by blast
  from bx_printf_out [OF ok_csr [OF s3(2)] out] obtain s4 where s4: "bx_printf (str ''0x%x'' @ [10]) [AInt ?v] ?s3 = Some s4"
    "ok (bus s4)" "access_size s4 = access_size s" "exception s4" "\<And>l. l \<notin> console_locs \<Longrightarrow> written l (bus s4) = written l (bus s)"
    using s3(3-5) by (auto simp: csr)
  have "memory_trap_handler s = Some s4"
    unfolding memory_trap_handler_def Let_def split_beta
    using s1(1) s2(1) s3(1) s4(1) by simp
  from that [OF this s4(2-5)] show ?thesis by blast
qed

lemma store_runs:
  assumes "ok (bus s)" "Mem w a \<notin> console_locs" "\<not> exception s" "\<And>h. hw (bus s) h (BusErr True w a) = err"
  obtains s' where "bx_store w a v s = Some s'" "ok (bus s')" "access_size s' = access_size s" "exception s' = (\<not> stores err w a)"
    "\<And>l. l \<notin> console_locs \<Longrightarrow> written l (bus s') = written l (bus s) @ (if l = Mem w a \<and> stores err w a then [v] else [])"
proof (cases "stores err w a")
  case True
  with that [of "s\<lparr>bus := wr (Mem w a) v (bus s)\<rparr>"] ok_wr [OF assms(1,2)] assms(3,4) show ?thesis
    by (simp add: bx_store_def access_traps_def rd_val_def stores_def wr_def)
next
  case False
  then have "access_traps True w a (bus s)" using assms(4) by (auto simp: access_traps_def rd_val_def stores_def)
  with trap_handler_runs [OF assms(1)] that False show ?thesis by (auto simp: bx_store_def)
qed

lemma write_memory_runs:
  assumes "ok (bus s)" "bx_cell (access_size s) d = Some (w, v)" "Mem w a \<notin> console_locs"
    and "\<And>h. hw (bus s) h (BusErr True w a) = err"
  shows "\<exists>s'. write_memory a d s = Some s' \<and> ok (bus s') \<and> access_size s' = access_size s \<and> exception s' = (\<not> stores err w a)
    \<and> (\<forall>l. l \<notin> console_locs \<longrightarrow> written l (bus s') = written l (bus s) @ (if l = Mem w a \<and> stores err w a then [v] else []))"
proof -
  let ?s = "s\<lparr>exception := False\<rparr>"
  let ?bs = "if access_size s = 0x62 then [ucast d] else if access_size s = 0x68 then [ucast (drop_bit 8 d), ucast d]
    else [ucast (drop_bit 24 d), ucast (drop_bit 16 d), ucast (drop_bit 8 d), ucast d :: u8]"
  have z: "access_size s = 0x62 \<or> access_size s = 0x68 \<or> access_size s = 0x77" using assms(2) by (auto simp: bx_cell_def split: if_splits)
  have "\<exists>out. fmt_out (str ''[0x%x] <= 0x'') [AInt a] = Some out" by (simp add: str_def fmt_one_def to_lower_def)
  then obtain out where out: "fmt_out (str ''[0x%x] <= 0x'') [AInt a] = Some out" by blast
  have o1: "ok (bus ?s)" using assms(1) by simp
  obtain s1 where s1: "bx_printf (str ''[0x%x] <= 0x'') [AInt a] ?s = Some s1" "ok (bus s1)" "bx_still ?s s1"
    by (rule bx_printf_runs [OF o1 out])
  obtain s2 where s2: "print_hex_bytes ?bs s1 = Some s2" "ok (bus s2)" "bx_still s1 s2" using bx_hex_runs [OF s1(2)] by blast
  have still: "bx_still ?s s2" using s1(3) s2(3) by (rule bx_still_trans)
  then have f: "access_size s1 = access_size s" "access_size s2 = access_size s" "\<not> exception s2" "hw (bus s2) = hw (bus s)"
    using s1(3) by (auto simp: bx_still_def only_locs_def)
  have before: "written l (bus s2) = written l (bus s)" if "l \<notin> console_locs" for l
    using written_only_locs [of console_locs _ _ l] that still by (auto simp: bx_still_def)
  obtain s3 where s3: "bx_store w a v s2 = Some s3" "ok (bus s3)" "access_size s3 = access_size s" "exception s3 = (\<not> stores err w a)"
    "\<And>l. l \<notin> console_locs \<Longrightarrow> written l (bus s3) = written l (bus s) @ (if l = Mem w a \<and> stores err w a then [v] else [])"
    using store_runs [OF s2(2) assms(3) f(3), of err v] assms(4) f(2,4) before by metis
  have "\<exists>s4. (if \<not> exception s3 then bx_printf [10] [] s3 else Some s3) = Some s4 \<and> ok (bus s4)
      \<and> access_size s4 = access_size s \<and> exception s4 = exception s3
      \<and> (\<forall>l. l \<notin> console_locs \<longrightarrow> written l (bus s4) = written l (bus s3))"
    using print_option_runs [OF s3(2), of "[10]" "[]"] s3(3) by simp
  then obtain s4 where s4: "(if \<not> exception s3 then bx_printf [10] [] s3 else Some s3) = Some s4" "ok (bus s4)"
    "access_size s4 = access_size s" "exception s4 = exception s3"
    "\<forall>l. l \<notin> console_locs \<longrightarrow> written l (bus s4) = written l (bus s3)" by blast
  have "write_memory a d s = Some s4"
    using z s1(1) s2(1) s3(1,3) s4(1) f assms(2)
    by (auto simp: write_memory_def bx_cell_def store_byte_def store_half_def store_word_def Let_def simp del: print_hex_bytes.simps)
  then show ?thesis using s4 s3(4,5) by auto
qed

text \<open>A line typed on the console, from the prompt to the store.\<close>

lemma bx_turn_write:
  assumes "ok (bus s)" "line_edit 32 [] (drop (pos (bus s)) input) = Some (line, echoed)"
    and "strtok_words [] line = [str ''write'', wa, wd]" "hex_arg wa = Some a" "hex_arg wd = Some d"
    and "\<And>c. c \<in> set line \<Longrightarrow> c \<noteq> 0" "List.length buffer = 40"
    and "bx_cell (access_size s) d = Some (w, v)" "Mem w a \<notin> console_locs" "\<And>h. hw (bus s) h (BusErr True w a) = err"
  shows "\<exists>buffer' s'. bx_turn env buffer s = Some (buffer', Bx_again s') \<and> List.length buffer' = 40 \<and> ok (bus s')
    \<and> access_size s' = access_size s \<and> exception s' = (\<not> stores err w a)
    \<and> (\<forall>l. l \<notin> console_locs \<longrightarrow> written l (bus s') = written l (bus s) @ (if l = Mem w a \<and> stores err w a then [v] else []))"
proof -
  have out: "fmt_out (str ''BUS_EXPLORER:> '') [] = Some (crlf (str ''BUS_EXPLORER:> ''))"
    by (rule fmt_out_plain) (auto simp: str_def)
  obtain s1 where s1: "bx_printf (str ''BUS_EXPLORER:> '') [] s = Some s1" "ok (bus s1)" "bx_still s s1" "pos (bus s1) = pos (bus s)"
    by (rule bx_printf_runs [OF assms(1) out])
  obtain buffer' m where scan: "neorv32_uart_scan UART0 buffer 32 True (bus s1) = Some (List.length line, buffer', m)" "ok m"
    "take (List.length line) buffer' = line" "buffer' ! List.length line = 0" "int (List.length line) < 32" "List.length buffer' = List.length buffer"
    using scan_loop_returns [OF s1(2), of 32 0 buffer line echoed True] assms(2,7) s1(4)
    by (auto simp: neorv32_uart_scan_def)
  let ?t = "s1\<lparr>bus := m\<rparr>"
  have still1: "bx_still s ?t"
    using s1(3) scan_only [of 32 True buffer 0 "bus s1" "List.length line" buffer' m] scan(1)
    by (auto simp: bx_still_def neorv32_uart_scan_def intro: only_locs_trans)
  have o: "ok (bus ?t)" using scan(2) by simp
  obtain s2 where s2: "bx_printf [10] [] ?t = Some s2" "ok (bus s2)" "bx_still ?t s2"
    using bx_printf_runs [OF o, of "[10]" "[]"] by auto
  have still2: "bx_still s s2" using still1 s2(3) by (rule bx_still_trans)
  have len: "List.length line < List.length buffer'" using scan(5,6) assms(7) by simp
  have "buffer' = line @ 0 # drop (Suc (List.length line)) buffer'"
    using id_take_nth_drop [OF len] scan(3,4) by simp
  then have str: "c_string buffer' = line"
    using assms(6) by (metis (mono_tags, lifting) c_string_def list.set_intros(1) takeWhile.simps(2) takeWhile_append2 append_Nil2)
  have ne: "List.length line \<noteq> 0" using assms(3) by auto
  have cell: "bx_cell (access_size s2) d = Some (w, v)" "\<And>h. hw (bus s2) h (BusErr True w a) = err"
    using assms(8,10) still2 by (auto simp: bx_still_def only_locs_def)
  obtain s3 where s3: "write_memory a d s2 = Some s3" "ok (bus s3)" "access_size s3 = access_size s2" "exception s3 = (\<not> stores err w a)"
    "\<forall>l. l \<notin> console_locs \<longrightarrow> written l (bus s3) = written l (bus s2) @ (if l = Mem w a \<and> stores err w a then [v] else [])"
    using write_memory_runs [OF s2(2) cell(1) assms(9) cell(2)] by blast
  have cmds: "str ''write'' \<noteq> str ''help''" "str ''write'' \<noteq> str ''setup''" "str ''write'' \<noteq> str ''test''" "str ''write'' \<noteq> str ''set''"
    "str ''write'' \<noteq> str ''read''" by (simp_all add: str_def)
  have "bx_turn env buffer s = Some (buffer', Bx_again s3)"
    using s1(1) scan(1) s2(1) s3(1) ne assms(3-5) by (simp add: bx_turn_def bx_command_def str cmds)
  moreover have "written l' (bus s2) = written l' (bus s)" if "l' \<notin> console_locs" for l'
    using still2 that by (auto simp: bx_still_def dest: written_only_locs)
  ultimately show ?thesis using s3 scan(6) assms(7) still2 by (auto simp: bx_still_def)
qed

end

section \<open>Filling memory\<close>

text \<open>The address is advanced before the line about the store is printed: filling one word at
\<^verbatim>\<open>0x80000000\<close> prints \<^verbatim>\<open>0x80000004\<close>.\<close>

lemma set_loop_prints_next:
  assumes "access_size s = 0x77" "\<not> exception s" "\<not> access_traps True W32 a (bus s)"
  shows "set_loop 1 a v s
    = bx_printf (str ''[0x%x] <= 0x%x'' @ [10]) [AInt (a + 4), AInt v] (s\<lparr>bus := wr (Mem W32 a) v (bus s)\<rparr>)"
  using assms by (simp add: store_word_def bx_store_def Let_def split: Option.bind_split)

lemma blank_line_undefined: "bx_command env (strtok_words [] [0x20]) s = None"
  by (simp add: bx_command_def)

section \<open>The memory test on memory\<close>

text \<open>The aligned word at \<open>a\<close> is memory, and the bus takes every access to it.\<close>

definition memory_at :: "(u32 \<Rightarrow> u8) \<Rightarrow> u32 \<Rightarrow> mach \<Rightarrow> bool" where
  "memory_at M a m \<longleftrightarrow> aligned W32 a \<and>
     (\<forall>h w b. bytes_of w b \<subseteq> bytes_of W32 a \<longrightarrow> hw m h (Mem w b) = mem_read w b (ram_log M h)
        \<and> (\<forall>wr. hw m h (BusErr wr w b) = 0))
     \<and> (\<forall>w b. Mem w b \<in> console_locs \<longrightarrow> bytes_of w b \<inter> bytes_of W32 a = {})"

lemma memory_at_hw: "memory_at M a m \<Longrightarrow> hw m' = hw m \<Longrightarrow> memory_at M a m'"
  by (simp add: memory_at_def)

lemma memory_at_apart:
  assumes "memory_at M a m" "bytes_of w b \<subseteq> bytes_of W32 a"
  shows "Mem w b \<notin> console_locs"
  using assms by (cases w) (fastforce simp: memory_at_def)+

lemma memory_at_rd:
  assumes "memory_at M a m" "bytes_of w b \<subseteq> bytes_of W32 a" "hw m' = hw m"
  shows "rd_val (Mem w b) m' = mem_read w b (ram_log M (log m'))" "access_traps x w b m' = (\<not> aligned w b)"
  using assms by (auto simp: memory_at_def rd_val_def access_traps_def)

lemma store_stores:
  "memory_at M a (bus s) \<Longrightarrow> bytes_of w b \<subseteq> bytes_of W32 a \<Longrightarrow> aligned w b \<Longrightarrow>
    bx_store w b v s = Some (s\<lparr>bus := wr (Mem w b) v (bus s)\<rparr>)"
  using memory_at_rd(2) by (auto simp: bx_store_def)

lemma load_loads:
  "memory_at M a (bus s) \<Longrightarrow> bytes_of w b \<subseteq> bytes_of W32 a \<Longrightarrow> aligned w b \<Longrightarrow>
    bx_load env w b s = Some (mem_read w b (ram_log M (log (bus s))), s\<lparr>bus := tick (Rd (Mem w b) (mem_read w b (ram_log M (log (bus s))))) (bus s)\<rparr>)"
  using memory_at_rd [of M a "bus s" w b] by (auto simp: bx_load_def rd_def)

lemma halves_aligned: "aligned W32 a \<Longrightarrow> aligned W16 a \<and> aligned W16 (a + 2)"
proof -
  assume "aligned W32 a"
  then have "(a AND 3) AND 1 = 0" by simp
  then have "a AND 1 = 0" by (simp add: and.assoc)
  then show ?thesis by (simp add: and_one_eq mod_2_eq_odd)
qed

lemma ucast_half_at [simp]: "(ucast (ucast (half_at r b) :: u16) :: u32) = half_at r b"
  by (rule bit_word_eqI) (auto simp: half_at_def join32_def bit_simps dest: bit_imp_le_length)

lemma load_parts_4:
  "load_parts ld b stp 4 s = load_parts ld b stp (Suc (Suc (Suc (Suc 0)))) s"
  "load_parts ld b stp 2 s = load_parts ld b stp (Suc (Suc 0)) s"
  by (simp_all only: eval_nat_numeral BitM.simps pred_numeral_simps)

context bx_console
begin

text \<open>What a test does to the machine between its two lines of output.\<close>

lemma ok_ram:
  assumes "memory_at M a m" "bytes_of w b \<subseteq> bytes_of W32 a" "ok m'"
  shows "ok (tick (Rd (Mem w b) v) m')" "ok (tick (Wr (Mem w b) v) m')"
  using memory_at_apart [OF assms(1,2)] assms(3) by (auto simp: console_locs_def intro: ok_tick)

lemmas part_simps = store_word_def store_half_def store_byte_def load_byte_def load_half_def load_word_def load_parts_4
  add.assoc byte32_def wr_def
  half_at_def word_at_def poke_def join32_def

lemma parts_byte:
  assumes "memory_at M a (bus s)" "ok (bus s)"
  shows "\<exists>m. do { s \<leftarrow> store_word a 0 s; s \<leftarrow> store_parts store_byte a 1 [0x78, 0x56, 0x34, 0x12] s;
      load_parts (load_byte env) a 1 4 s } = Some ([0x78, 0x56, 0x34, 0x12], s\<lparr>bus := m\<rparr>) \<and> ok m \<and> hw m = hw (bus s)"
proof -
  have h: "memory_at M a m" if "hw m = hw (bus s)" for m by (rule memory_at_hw [OF assms(1) that])
  have al: "aligned W32 a" "aligned W16 a" "aligned W16 (a + 2)" using assms(1) halves_aligned by (auto simp: memory_at_def)
  let ?m = "tick (Rd (Mem W8 (a + 3)) 0x12) (tick (Rd (Mem W8 (a + 2)) 0x34) (tick (Rd (Mem W8 (a + 1)) 0x56) (tick (Rd (Mem W8 a) 0x78)
    (tick (Wr (Mem W8 (a + 3)) 0x12) (tick (Wr (Mem W8 (a + 2)) 0x34) (tick (Wr (Mem W8 (a + 1)) 0x56) (tick (Wr (Mem W8 a) 0x78)
    (tick (Wr (Mem W32 a) 0) (bus s)))))))))"
  have "ok ?m" by (intro ok_ram [OF assms(1)] assms(2)) simp_all
  then show ?thesis
    by (intro exI [of _ ?m]) (simp add: part_simps store_stores [where M = M and a = a] load_loads [where M = M and a = a] h al Let_def del: aligned.simps(2,3))
qed

lemma parts_half:
  assumes "memory_at M a (bus s)" "ok (bus s)"
  shows "\<exists>m. do { s \<leftarrow> store_word a 0 s; s \<leftarrow> store_parts store_half a 2 [0x6677, 0x4455] s;
      load_parts (load_half env) a 2 2 s } = Some ([0x6677, 0x4455], s\<lparr>bus := m\<rparr>) \<and> ok m \<and> hw m = hw (bus s)"
proof -
  have h: "memory_at M a m" if "hw m = hw (bus s)" for m by (rule memory_at_hw [OF assms(1) that])
  have al: "aligned W32 a" "aligned W16 a" "aligned W16 (a + 2)" using assms(1) halves_aligned by (auto simp: memory_at_def)
  let ?m = "tick (Rd (Mem W16 (a + 2)) 0x4455) (tick (Rd (Mem W16 a) 0x6677)
    (tick (Wr (Mem W16 (a + 2)) 0x4455) (tick (Wr (Mem W16 a) 0x6677) (tick (Wr (Mem W32 a) 0) (bus s)))))"
  have "ok ?m" by (intro ok_ram [OF assms(1)] assms(2)) simp_all
  then show ?thesis
    by (intro exI [of _ ?m]) (simp add: part_simps store_stores [where M = M and a = a] load_loads [where M = M and a = a] h al Let_def del: aligned.simps(2,3))
qed

lemma parts_word:
  assumes "memory_at M a (bus s)" "ok (bus s)"
  shows "\<exists>m. do { s \<leftarrow> store_word a 0 s; s \<leftarrow> store_parts store_word a 4 [0xabcd1234] s;
      load_parts (load_word env) a 4 (Suc 0) s } = Some ([0xabcd1234], s\<lparr>bus := m\<rparr>) \<and> ok m \<and> hw m = hw (bus s)"
proof -
  have h: "memory_at M a m" if "hw m = hw (bus s)" for m by (rule memory_at_hw [OF assms(1) that])
  have al: "aligned W32 a" "aligned W16 a" "aligned W16 (a + 2)" using assms(1) halves_aligned by (auto simp: memory_at_def)
  let ?m = "tick (Rd (Mem W32 a) 0xabcd1234) (tick (Wr (Mem W32 a) 0xabcd1234) (tick (Wr (Mem W32 a) 0) (bus s)))"
  have "ok ?m" by (intro ok_ram [OF assms(1)] assms(2)) simp_all
  then show ?thesis
    by (intro exI [of _ ?m]) (simp add: part_simps store_stores [where M = M and a = a] load_loads [where M = M and a = a] h al Let_def del: aligned.simps(2,3))
qed

lemma printf_memory:
  assumes "ok (bus s)" "fmt_out fmt args = Some out" "memory_at M a (bus s)"
  obtains s' where "bx_printf fmt args s = Some s'" "ok (bus s')" "memory_at M a (bus s')" "exception s' = exception s"
proof -
  obtain s' where s': "bx_printf fmt args s = Some s'" "ok (bus s')" "bx_still s s'" by (rule bx_printf_runs [OF assms(1,2)])
  then have "hw (bus s') = hw (bus s)" by (auto simp: bx_still_def only_locs_def)
  from that [OF s'(1,2) memory_at_hw [OF assms(3) this]] s'(3) show ?thesis by (simp add: bx_still_def)
qed

lemma test_width_passes:
  assumes "memory_at M a (bus s)" "ok (bus s)" "\<not> exception s" "fmt_out title [] = Some out"
    and parts: "\<And>s. memory_at M a (bus s) \<Longrightarrow> ok (bus s) \<Longrightarrow>
      \<exists>m. do { s \<leftarrow> store_word a 0 s; s \<leftarrow> store_parts store a stp refs s; load_parts ld a stp (List.length refs) s }
        = Some (refs, s\<lparr>bus := m\<rparr>) \<and> ok m \<and> hw m = hw (bus s)"
  shows "\<exists>s'. test_width title store ld stp refs a s = Some (True, s') \<and> ok (bus s')
    \<and> memory_at M a (bus s') \<and> \<not> exception s'"
proof -
  obtain s1 where s1: "bx_printf title [] s = Some s1" "ok (bus s1)" "memory_at M a (bus s1)" "exception s1 = exception s"
    by (rule printf_memory [OF assms(2,4,1)])
  obtain m where m: "do { s \<leftarrow> store_word a 0 s1; s \<leftarrow> store_parts store a stp refs s; load_parts ld a stp (List.length refs) s }
      = Some (refs, s1\<lparr>bus := m\<rparr>)" "ok m" "hw m = hw (bus s1)" using parts [OF s1(3,2)] by blast
  let ?s2 = "s1\<lparr>bus := m\<rparr>"
  have out: "fmt_out (str ''ok'' @ [10]) [] = Some (crlf (str ''ok'' @ [10]))" by (rule fmt_out_plain) (auto simp: str_def)
  have o: "ok (bus ?s2)" "memory_at M a (bus ?s2)" using m(2) memory_at_hw [OF s1(3) m(3)] by simp_all
  obtain s3 where s3: "bx_printf (str ''ok'' @ [10]) [] ?s2 = Some s3" "ok (bus s3)" "memory_at M a (bus s3)" "exception s3 = exception ?s2"
    by (rule printf_memory [OF o(1) out o(2)])
  have "test_width title store ld stp refs a s = Some (True, s3)"
    using s1(1,4) m(1) s3(1) assms(3) by (auto simp: test_width_def split: Option.bind_splits)
  then show ?thesis using s3 s1(4) assms(3) by simp
qed

lemma test_memory_passes:
  assumes "memory_at M a (bus s)" "ok (bus s)"
  shows "\<exists>s'. test_memory env a s = Some (True, s') \<and> ok (bus s')"
proof -
  have "\<exists>out. fmt_out (str ''Testing memory access at address 0x%x.'' @ [10]) [AInt a] = Some out"
    by (simp add: str_def fmt_one_def to_lower_def)
  then obtain out where out: "fmt_out (str ''Testing memory access at address 0x%x.'' @ [10]) [AInt a] = Some out" by blast
  obtain s0 where s0: "bx_printf (str ''Testing memory access at address 0x%x.'' @ [10]) [AInt a] s = Some s0" "ok (bus s0)"
    "memory_at M a (bus s0)" by (rule printf_memory [OF assms(2) out assms(1)])
  let ?s = "s0\<lparr>exception := False\<rparr>"
  have o: "memory_at M a (bus ?s)" "ok (bus ?s)" "\<not> exception ?s" using s0(2,3) by simp_all
  have t: "fmt_out (str ''8-bit accesses... '') [] = Some (crlf (str ''8-bit accesses... ''))"
    "fmt_out (str ''16-bit accesses... '') [] = Some (crlf (str ''16-bit accesses... ''))"
    "fmt_out (str ''32-bit accesses... '') [] = Some (crlf (str ''32-bit accesses... ''))"
    by (rule fmt_out_plain; auto simp: str_def)+
  have len: "List.length [0x78, 0x56, 0x34, 0x12 :: u32] = 4" "List.length [0x6677, 0x4455 :: u32] = 2"
    "List.length [0xabcd1234 :: u32] = Suc 0" by simp_all
  have p: "\<exists>m. do { s \<leftarrow> store_word a 0 s; s \<leftarrow> store_parts store_byte a 1 [0x78, 0x56, 0x34, 0x12] s;
        load_parts (load_byte env) a 1 (List.length [0x78, 0x56, 0x34, 0x12 :: u32]) s }
      = Some ([0x78, 0x56, 0x34, 0x12], s\<lparr>bus := m\<rparr>) \<and> ok m \<and> hw m = hw (bus s)"
    "\<exists>m. do { s \<leftarrow> store_word a 0 s; s \<leftarrow> store_parts store_half a 2 [0x6677, 0x4455] s;
        load_parts (load_half env) a 2 (List.length [0x6677, 0x4455 :: u32]) s }
      = Some ([0x6677, 0x4455], s\<lparr>bus := m\<rparr>) \<and> ok m \<and> hw m = hw (bus s)"
    "\<exists>m. do { s \<leftarrow> store_word a 0 s; s \<leftarrow> store_parts store_word a 4 [0xabcd1234] s;
        load_parts (load_word env) a 4 (List.length [0xabcd1234 :: u32]) s }
      = Some ([0xabcd1234], s\<lparr>bus := m\<rparr>) \<and> ok m \<and> hw m = hw (bus s)"
    if "memory_at M a (bus s)" "ok (bus s)" for s
    unfolding len by (rule parts_byte [OF that] parts_half [OF that] parts_word [OF that])+
  obtain s1 where s1: "test_width (str ''8-bit accesses... '') store_byte (load_byte env) 1 [0x78, 0x56, 0x34, 0x12] a ?s = Some (True, s1)"
    "memory_at M a (bus s1)" "ok (bus s1)" "\<not> exception s1"
    using test_width_passes [OF o t(1) p(1)] by blast
  obtain s2 where s2: "test_width (str ''16-bit accesses... '') store_half (load_half env) 2 [0x6677, 0x4455] a s1 = Some (True, s2)"
    "memory_at M a (bus s2)" "ok (bus s2)" "\<not> exception s2"
    using test_width_passes [OF s1(2-4) t(2) p(2)] by blast
  obtain s3 where s3: "test_width (str ''32-bit accesses... '') store_word (load_word env) 4 [0xabcd1234] a s2 = Some (True, s3)"
    "ok (bus s3)" using test_width_passes [OF s2(2-4) t(3) p(3)] by blast
  show ?thesis using s0(1) s1(1) s2(1) s3 by (simp add: test_memory_def Let_def)
qed

end

interpretation bx_uart: bx_console "uart_ok p txd rxd rest UART0 input" input "uart_pos p txd rxd UART0 input"
  for p txd rxd rest input
  by unfold_locales

end
