(* ===== verification/Newlib.thy ===== *)
theory Newlib
  imports Uart Clint
begin

text \<open>
  The system calls of the C library, \<^verbatim>\<open>sw/lib/source/neorv32_newlib.c\<close>, in the build without semihosting:
  streams on the two UARTs, the heap, and the time.
\<close>

section \<open>State\<close>

datatype errno_t = EAGAIN | EINVAL | EMLINK | ECHILD | ENOENT | ENOSYS | ENOMEM

text \<open>\<open>curr_heap\<close> is zero before the first call; \<open>errno\<close> is the last error.\<close>

record newlib =
  cpu_of :: mach
  errno :: "errno_t option"
  curr_heap :: u32

text \<open>The symbols of the linker script.\<close>

record heap_layout =
  heap_begin :: u32
  heap_end :: u32
  heap_size :: u32

datatype st_mode = S_IFCHR

definition STDIN_FILENO :: int where "STDIN_FILENO = 0"
definition STDOUT_FILENO :: int where "STDOUT_FILENO = 1"
definition STDERR_FILENO :: int where "STDERR_FILENO = 2"

definition nl_fail :: "errno_t \<Rightarrow> newlib \<Rightarrow> int \<times> newlib" where
  "nl_fail e s = (- 1, s\<lparr>errno := Some e\<rparr>)"

section \<open>Files and processes there are not\<close>

definition nl_open :: "u8 list \<Rightarrow> int \<Rightarrow> newlib \<Rightarrow> int \<times> newlib" where "nl_open pathname flags s = (- 1, s)"
definition nl_close :: "int \<Rightarrow> newlib \<Rightarrow> int \<times> newlib" where "nl_close file s = (- 1, s)"
definition nl_fstat :: "int \<Rightarrow> newlib \<Rightarrow> (int \<times> st_mode) \<times> newlib" where "nl_fstat file s = ((0, S_IFCHR), s)"
definition nl_fork :: "newlib \<Rightarrow> int \<times> newlib" where "nl_fork = nl_fail EAGAIN"
definition nl_getpid :: "newlib \<Rightarrow> int \<times> newlib" where "nl_getpid s = (1, s)"
definition nl_isatty :: "int \<Rightarrow> newlib \<Rightarrow> int \<times> newlib" where "nl_isatty file s = (1, s)"
definition nl_kill :: "int \<Rightarrow> int \<Rightarrow> newlib \<Rightarrow> int \<times> newlib" where "nl_kill pid sig = nl_fail EINVAL"
definition nl_link :: "u8 list \<Rightarrow> u8 list \<Rightarrow> newlib \<Rightarrow> int \<times> newlib" where "nl_link old_name new_name = nl_fail EMLINK"
definition nl_lseek :: "int \<Rightarrow> int \<Rightarrow> int \<Rightarrow> newlib \<Rightarrow> int \<times> newlib" where "nl_lseek file p dir s = (0, s)"
definition nl_stat :: "u8 list \<Rightarrow> newlib \<Rightarrow> (int \<times> st_mode) \<times> newlib" where "nl_stat file s = ((0, S_IFCHR), s)"
definition nl_wait :: "int \<Rightarrow> newlib \<Rightarrow> int \<times> newlib" where "nl_wait status = nl_fail ECHILD"
definition nl_unlink :: "u8 list \<Rightarrow> newlib \<Rightarrow> int \<times> newlib" where "nl_unlink name = nl_fail ENOENT"

section \<open>Streams\<close>

text \<open>The characters stored through \<^verbatim>\<open>ptr\<close>, up to a line end; their number is the result.\<close>

primrec read_stream :: "u32 \<Rightarrow> nat \<Rightarrow> mach \<Rightarrow> (u8 list \<times> mach) option" where
  "read_stream UARTx 0 m = Some ([], m)"
| "read_stream UARTx (Suc len) m = do {
     (c, m) \<leftarrow> neorv32_uart_getc UARTx m;
     if c = 10 \<or> c = 13 then Some ([c], m)
     else do { (cs, m) \<leftarrow> read_stream UARTx len m; Some (c # cs, m) }
   }"

text \<open>\<open>None\<close> also for a negative length, with which \<^verbatim>\<open>while (len--)\<close> runs out of the buffer.\<close>

definition nl_read :: "int \<Rightarrow> int \<Rightarrow> newlib \<Rightarrow> ((int \<times> u8 list) \<times> newlib) option" where
  "nl_read file len s =
     (let (a0, m) = (if file = STDIN_FILENO then neorv32_uart_available NEORV32_UART0_BASE (cpu_of s) else (0, cpu_of s)) in
      if a0 \<noteq> 0 then
        if len < 0 then None
        else map_option (\<lambda>(cs, m). ((int (List.length cs), cs), s\<lparr>cpu_of := m\<rparr>)) (read_stream NEORV32_UART0_BASE (nat len) m)
      else
        (let (a1, m) = neorv32_uart_available NEORV32_UART1_BASE m in
         if a1 \<noteq> 0 then
           if len < 0 then None
           else map_option (\<lambda>(cs, m). ((int (List.length cs), cs), s\<lparr>cpu_of := m\<rparr>)) (read_stream NEORV32_UART1_BASE (nat len) m)
         else (let (r, s) = nl_fail ENOSYS (s\<lparr>cpu_of := m\<rparr>) in Some ((r, []), s))))"

definition nl_write :: "int \<Rightarrow> u8 list \<Rightarrow> newlib \<Rightarrow> (int \<times> newlib) option" where
  "nl_write file cs s =
     (if file = STDOUT_FILENO \<or> file = STDERR_FILENO then
        (let (a, m) = neorv32_uart_available NEORV32_UART0_BASE (cpu_of s) in
         if a \<noteq> 0 then map_option (\<lambda>m. (int (List.length cs), s\<lparr>cpu_of := m\<rparr>)) (putcs NEORV32_UART0_BASE cs m)
         else Some (nl_fail ENOSYS (s\<lparr>cpu_of := m\<rparr>)))
      else
        (let (a, m) = neorv32_uart_available NEORV32_UART1_BASE (cpu_of s) in
         if a \<noteq> 0 then map_option (\<lambda>m. (int (List.length cs), s\<lparr>cpu_of := m\<rparr>)) (putcs NEORV32_UART1_BASE cs m)
         else Some (nl_fail ENOSYS (s\<lparr>cpu_of := m\<rparr>))))"

section \<open>Heap\<close>

text \<open>\<open>None\<close> is \<^verbatim>\<open>(void*)-1\<close>.\<close>

definition nl_sbrk :: "heap_layout \<Rightarrow> int \<Rightarrow> newlib \<Rightarrow> u32 option \<times> newlib" where
  "nl_sbrk hl incr s =
     (let s = (if curr_heap s = 0 then s\<lparr>curr_heap := heap_begin hl\<rparr> else s) in
      if heap_begin hl = heap_end hl \<or> heap_size hl = 0 then (None, s\<lparr>errno := Some ENOMEM\<rparr>)
      else if heap_end hl \<le> curr_heap s + of_int incr then (None, s\<lparr>errno := Some ENOMEM\<rparr>)
      else (Some (curr_heap s), s\<lparr>curr_heap := curr_heap s + of_int incr\<rparr>))"

section \<open>Time\<close>

text \<open>Seconds in 64 bits, microseconds in 32; the microseconds are computed from the seconds.\<close>

definition nl_gettimeofday :: "newlib \<Rightarrow> ((int \<times> (u64 \<times> u32)) \<times> newlib) option" where
  "nl_gettimeofday s =
     (let (a, m) = neorv32_clint_available (cpu_of s) in
      if a \<noteq> 0 then do {
        (t, m) \<leftarrow> neorv32_clint_unixtime_get m;
        Some ((0, (t, ucast (t * 1000000))), s\<lparr>cpu_of := m\<rparr>)
      }
      else Some ((- 1, (0, 0)), s\<lparr>cpu_of := m, errno := Some ENOSYS\<rparr>))"

section \<open>Blocks of the heap\<close>

text \<open>A sequence of calls, and the blocks they hand out: start and length.\<close>

fun sbrk_blocks :: "heap_layout \<Rightarrow> int list \<Rightarrow> newlib \<Rightarrow> (nat \<times> nat) list" where
  "sbrk_blocks hl [] s = []"
| "sbrk_blocks hl (i # is) s =
     (case nl_sbrk hl i s of
        (None, s) \<Rightarrow> sbrk_blocks hl is s
      | (Some p, s) \<Rightarrow> (unat p, nat i) # sbrk_blocks hl is s)"

text \<open>Blocks in a range, in order and disjoint.\<close>

fun stacked :: "nat \<Rightarrow> nat \<Rightarrow> (nat \<times> nat) list \<Rightarrow> bool" where
  "stacked lo hi [] \<longleftrightarrow> lo < hi"
| "stacked lo hi ((p, n) # bs) \<longleftrightarrow> lo = p \<and> stacked (p + n) hi bs"

definition heap_at :: "heap_layout \<Rightarrow> newlib \<Rightarrow> u32" where
  "heap_at hl s = (if curr_heap s = 0 then heap_begin hl else curr_heap s)"

lemma sbrk_blocks_stacked:
  assumes "heap_size hl \<noteq> 0" "heap_begin hl \<le> heap_at hl s" "heap_at hl s < heap_end hl" "heap_begin hl \<noteq> 0"
    and "\<forall>i \<in> set is. 0 \<le> i \<and> i + int (unat (heap_end hl)) < 2 ^ 32"
  shows "stacked (unat (heap_at hl s)) (unat (heap_end hl)) (sbrk_blocks hl is s)"
  using assms(2,3,5)
proof (induction "is" arbitrary: s)
  case Nil
  then show ?case by (simp add: word_less_nat_alt)
next
  case (Cons i "is")
  let ?h = "heap_at hl s"
  have i: "0 \<le> i" "nat i + unat (heap_end hl) < 2 ^ 32"
  proof -
    show "0 \<le> i" using Cons.prems(3) by simp
    then have "int (nat i + unat (heap_end hl)) < int (2 ^ 32)" using Cons.prems(3) by simp
    then show "nat i + unat (heap_end hl) < 2 ^ 32" by (simp only: of_nat_less_iff)
  qed
  have ih: "unat ?h < unat (heap_end hl)" using Cons.prems(2) by (simp add: word_less_nat_alt)
  have sum: "unat (?h + of_int i) = unat ?h + nat i"
  proof -
    have "(of_int i :: u32) = of_nat (nat i)" using i(1) by simp
    moreover have "unat (of_nat (nat i) :: u32) = nat i" using i(2) by (intro unat_of_nat_small) simp
    ultimately show ?thesis using ih i(2) by (simp add: unat_word_ariths)
  qed
  let ?s0 = "if curr_heap s = 0 then s\<lparr>curr_heap := heap_begin hl\<rparr> else s"
  have c: "curr_heap ?s0 = ?h" by (simp add: heap_at_def)
  have ne: "heap_begin hl \<noteq> heap_end hl" using Cons.prems(1,2) by auto
  show ?case
  proof (cases "heap_end hl \<le> ?h + of_int i")
    case True
    then obtain s' where s': "nl_sbrk hl i s = (None, s')" "curr_heap s' = ?h"
      using assms(1) ne that [of "?s0\<lparr>errno := Some ENOMEM\<rparr>"] c by (simp add: nl_sbrk_def Let_def)
    then have "heap_at hl s' = ?h" by (simp add: heap_at_def)
    then show ?thesis using Cons.IH [of s'] Cons.prems s'(1) by simp
  next
    case False
    then have f: "nl_sbrk hl i s = (Some ?h, (if curr_heap s = 0 then s\<lparr>curr_heap := heap_begin hl\<rparr> else s)\<lparr>curr_heap := ?h + of_int i\<rparr>)"
      using assms(1) ne c by (simp add: nl_sbrk_def Let_def)
    let ?s = "(if curr_heap s = 0 then s\<lparr>curr_heap := heap_begin hl\<rparr> else s)\<lparr>curr_heap := ?h + of_int i\<rparr>"
    have le: "unat (heap_begin hl) \<le> unat ?h" using Cons.prems(1) by (simp add: word_le_nat_alt)
    have "unat (heap_begin hl) \<noteq> 0" using assms(4) by (simp add: unat_eq_0)
    then have "?h + of_int i \<noteq> 0" using sum le by (metis add_is_0 le_zero_eq unat_0)
    then have at: "heap_at hl ?s = ?h + of_int i" by (simp add: heap_at_def)
    moreover have "heap_begin hl \<le> ?h + of_int i" "?h + of_int i < heap_end hl"
      using le sum False by (simp_all add: word_le_nat_alt word_less_nat_alt)
    ultimately show ?thesis using Cons.IH [of ?s] Cons.prems(3) f sum by simp
  qed
qed

text \<open>Without the bound on the request the sum wraps: a request that reaches around to address zero is
granted, and as zero is also the mark of the first call, the next block is the first one again.\<close>

lemma sbrk_wraps:
  "sbrk_blocks \<lparr>heap_begin = 0x80001000, heap_end = 0x80002000, heap_size = 0x1000\<rparr> [0x10, 0x7fffeff0, 4] s0
    = [(0x80001000, 0x10), (0x80001010, 0x7fffeff0), (0x80001000, 4)]"
  if "curr_heap s0 = 0"
  using that by (simp add: nl_sbrk_def)

end
