(* ===== verification/Twi_Rtl.thy ===== *)
theory Twi_Rtl
  imports Twi Spi_Rtl
begin

text \<open>
  The two-wire controller the driver talks to, after \<^verbatim>\<open>rtl/core/neorv32_twi.vhd\<close>: control register, the
  queue of commands, the queue of received bytes with their acknowledge bits, and the bus engine.  The
  clock phases of an operation are abstracted to the period with which it ends: every \<open>Suc p\<close> events.
  The devices on the bus are a parameter: what they drive and whether they leave a byte unacknowledged
  are functions of all that has happened on the bus, and as the wire is an open-drain one, a bit is high
  when neither side pulls it low.  On a quiet controller each blocking operation of the driver puts
  exactly its condition or byte on the bus and returns what the bus showed.
\<close>

section \<open>State and steps\<close>

text \<open>What happens on the bus: a start or stop condition, a byte with the level of its acknowledge bit
(high is no acknowledge), and the release of a bus in use by switching the controller off.\<close>

datatype twi_ev = Tw_start | Tw_stop | Tw_byte u8 bool | Tw_off

record twi_slave =
  drives :: "twi_ev list \<Rightarrow> u8"
  nacks :: "twi_ev list \<Rightarrow> u8 \<Rightarrow> bool"

text \<open>A command word: data, acknowledge by the host, operation.\<close>

definition tw_cmd :: "u32 \<Rightarrow> u32" where "tw_cmd w = drop_bit (twi_dcmd TWI_DCMD_CMD_LO) w AND 3"
definition tw_mack :: "u32 \<Rightarrow> bool" where "tw_mack w \<longleftrightarrow> bit w (twi_dcmd TWI_DCMD_ACK)"
definition tw_data :: "u32 \<Rightarrow> u8" where "tw_data w = ucast w"

record twi_hw =
  t_ctrl :: u32
  t_tx :: "u32 list"
  t_eng :: "u32 option"
  t_rx :: "(bool \<times> u8) list"
  t_line :: "twi_ev list"

definition twi_init :: twi_hw where
  "twi_init = \<lparr>t_ctrl = 0, t_tx = [], t_eng = None, t_rx = [], t_line = []\<rparr>"

definition t_en :: "twi_hw \<Rightarrow> bool" where
  "t_en d \<longleftrightarrow> bit (t_ctrl d) (twi_ctrl TWI_CTRL_EN)"

definition twi_bus :: "nat \<Rightarrow> event \<Rightarrow> twi_hw \<Rightarrow> twi_hw" where
  "twi_bus fd e d =
     (case e of
        Wr l v \<Rightarrow>
          if l = TWI_CTRL then d\<lparr>t_ctrl := v AND 0x1ff\<rparr>
          else if l = TWI_DCMD \<and> List.length (t_tx d) < 2 ^ fd then d\<lparr>t_tx := t_tx d @ [v AND 0x7ff]\<rparr>
          else d
      | Rd l v \<Rightarrow> if l = TWI_DCMD then d\<lparr>t_rx := tl (t_rx d)\<rparr> else d
      | _ \<Rightarrow> d)"

text \<open>The end of an operation.\<close>

definition twi_complete :: "nat \<Rightarrow> 'a twi_slave_scheme \<Rightarrow> twi_hw \<Rightarrow> twi_hw" where
  "twi_complete fd sl d =
     (case t_eng d of
        None \<Rightarrow> d
      | Some w \<Rightarrow>
          if tw_cmd w = twi_cmd_code TWI_CMD_START then d\<lparr>t_eng := None, t_line := t_line d @ [Tw_start]\<rparr>
          else if tw_cmd w = twi_cmd_code TWI_CMD_STOP then d\<lparr>t_eng := None, t_line := t_line d @ [Tw_stop]\<rparr>
          else
            let b = tw_data w AND drives sl (t_line d); n = \<not> tw_mack w \<and> nacks sl (t_line d) b
            in d\<lparr>t_eng := None, t_line := t_line d @ [Tw_byte b n],
                 t_rx := (if List.length (t_rx d) < 2 ^ fd then t_rx d @ [(n, b)] else t_rx d)\<rparr>)"

text \<open>The idle engine takes the next command; one without operation is only removed.\<close>

fun twi_take :: "u32 list \<Rightarrow> twi_hw \<Rightarrow> twi_hw" where
  "twi_take [] d = d\<lparr>t_tx := []\<rparr>"
| "twi_take (w # q) d = (if tw_cmd w = twi_cmd_code TWI_CMD_NOP then twi_take q d else d\<lparr>t_tx := q, t_eng := Some w\<rparr>)"

text \<open>From a start condition on the host holds the clock line low between operations.\<close>

definition claimed :: "twi_ev list \<Rightarrow> bool" where
  "claimed H \<longleftrightarrow> H \<noteq> [] \<and> last H \<noteq> Tw_stop \<and> last H \<noteq> Tw_off"

definition twi_cycle :: "nat \<Rightarrow> nat \<Rightarrow> 'a twi_slave_scheme \<Rightarrow> nat \<Rightarrow> twi_hw \<Rightarrow> twi_hw" where
  "twi_cycle fd p sl n d =
     (if \<not> t_en d then
        d\<lparr>t_tx := [], t_rx := [], t_eng := None,
          t_line := (if t_eng d \<noteq> None \<or> claimed (t_line d) then t_line d @ [Tw_off] else t_line d)\<rparr>
      else
        let d = (if n mod Suc p = 0 then twi_complete fd sl d else d)
        in if t_eng d = None then twi_take (t_tx d) d else d)"

fun twi_state :: "nat \<Rightarrow> nat \<Rightarrow> 'a twi_slave_scheme \<Rightarrow> event list \<Rightarrow> twi_hw" where
  "twi_state fd p sl [] = twi_init"
| "twi_state fd p sl (e # h) = twi_cycle fd p sl (List.length h) (twi_bus fd e (twi_state fd p sl h))"

text \<open>The two bits that sense the wires are whatever they are.\<close>

definition twi_ctrl_read :: "nat \<Rightarrow> u32 \<Rightarrow> twi_hw \<Rightarrow> u32" where
  "twi_ctrl_read fd wires d =
     t_ctrl d
     OR push_bit (twi_ctrl TWI_CTRL_FIFO_LSB) (of_nat fd AND 0xf)
     OR (wires AND (BIT (twi_ctrl TWI_CTRL_SENSE_SCL) OR BIT (twi_ctrl TWI_CTRL_SENSE_SDA)))
     OR flag (2 ^ fd \<le> List.length (t_tx d)) (twi_ctrl TWI_CTRL_TX_FULL)
     OR flag (t_rx d \<noteq> []) (twi_ctrl TWI_CTRL_RX_AVAIL)
     OR flag (t_eng d \<noteq> None \<or> t_tx d \<noteq> []) (twi_ctrl TWI_CTRL_BUSY)"

definition twi_dcmd_read :: "bool \<times> u8 \<Rightarrow> u32" where
  "twi_dcmd_read r = flag (fst r) (twi_dcmd TWI_DCMD_ACK) OR ucast (snd r)"

text \<open>An empty queue reads as anything.\<close>

definition twi_wired :: "nat \<Rightarrow> nat \<Rightarrow> 'a twi_slave_scheme \<Rightarrow> mach \<Rightarrow> bool" where
  "twi_wired fd p sl m \<longleftrightarrow>
     (\<forall>h. (\<exists>wires. hw m h TWI_CTRL = twi_ctrl_read fd wires (twi_state fd p sl h))
        \<and> (\<forall>r q. t_rx (twi_state fd p sl h) = r # q \<longrightarrow> hw m h TWI_DCMD = twi_dcmd_read r))"

section \<open>A quiet controller\<close>

definition twi_locs :: "loc set" where
  "twi_locs = {TWI_CTRL, TWI_DCMD}"

abbreviation (input) twi_at :: "nat \<Rightarrow> nat \<Rightarrow> 'a twi_slave_scheme \<Rightarrow> mach \<Rightarrow> twi_hw" where
  "twi_at fd p sl m \<equiv> twi_state fd p sl (log m)"

definition twi_quiet :: "nat \<Rightarrow> nat \<Rightarrow> 'a twi_slave_scheme \<Rightarrow> mach \<Rightarrow> bool" where
  "twi_quiet fd p sl m \<longleftrightarrow> twi_wired fd p sl m
     \<and> (let d = twi_at fd p sl m in t_en d \<and> t_tx d = [] \<and> t_eng d = None \<and> t_rx d = [])"

definition twi_line :: "nat \<Rightarrow> nat \<Rightarrow> 'a twi_slave_scheme \<Rightarrow> mach \<Rightarrow> twi_ev list" where
  "twi_line fd p sl m = t_line (twi_at fd p sl m)"

lemma twi_wired_hw: "hw m' = hw m \<Longrightarrow> twi_wired fd p sl m' = twi_wired fd p sl m"
  by (simp add: twi_wired_def)

lemma twi_bus_foreign: "event_in L e \<Longrightarrow> L \<inter> twi_locs = {} \<Longrightarrow> twi_bus fd e d = d"
  by (cases e) (auto simp: twi_bus_def twi_locs_def)

lemma twi_cycle_quiet:
  "t_en d \<Longrightarrow> t_tx d = [] \<Longrightarrow> t_eng d = None \<Longrightarrow> twi_cycle fd p sl n d = d"
  by (simp add: twi_cycle_def twi_complete_def Let_def)

lemma twi_quiet_foreign:
  assumes "only_locs L m m'" "L \<inter> twi_locs = {}" "twi_quiet fd p sl m"
  shows "twi_quiet fd p sl m'" "twi_line fd p sl m' = twi_line fd p sl m"
proof -
  obtain k where k: "log m' = k @ log m" "\<forall>e \<in> set k. event_in L e" "hw m' = hw m"
    using assms(1) by (auto simp: only_locs_def)
  have "twi_state fd p sl (k @ log m) = twi_at fd p sl m"
    using k(2)
  proof (induction k)
    case (Cons e k)
    then show ?case using assms(3) twi_bus_foreign [OF _ assms(2), of e]
      by (simp add: twi_cycle_quiet twi_quiet_def Let_def)
  qed simp
  then show "twi_quiet fd p sl m'" "twi_line fd p sl m' = twi_line fd p sl m"
    using assms(3) by (simp_all add: twi_quiet_def twi_line_def twi_wired_hw [OF k(3)] k(1))
qed

lemma twi_quiet_fence: "twi_quiet fd p sl m \<Longrightarrow> twi_quiet fd p sl (tick Fence m)"
  "twi_quiet fd p sl m \<Longrightarrow> twi_line fd p sl (tick Fence m) = twi_line fd p sl m"
  by (simp_all add: twi_quiet_def twi_line_def twi_wired_def Let_def twi_bus_def twi_cycle_quiet)

section \<open>Status bits\<close>

lemma twi_state_ctrl: "t_ctrl (twi_state fd p sl h) AND 0x1ff = t_ctrl (twi_state fd p sl h)"
proof -
  have take: "t_ctrl (twi_take q d) = t_ctrl d" for q d
    by (induction q d rule: twi_take.induct) simp_all
  have complete: "t_ctrl (twi_complete fd sl d) = t_ctrl d" for d
    by (simp add: twi_complete_def Let_def split: option.split)
  have cycle: "t_ctrl (twi_cycle fd p sl n d) = t_ctrl d" for n d
    by (simp add: twi_cycle_def Let_def take complete)
  show ?thesis
  proof (induction h)
    case (Cons e h)
    then show ?case by (cases e) (auto simp: cycle twi_bus_def and.assoc)
  qed (simp add: twi_init_def)
qed

lemma twi_ctrl_read_flags:
  assumes "d = twi_state fd p sl h"
  shows "twi_full (twi_ctrl_read fd wires d) \<longleftrightarrow> 2 ^ fd \<le> List.length (t_tx d)"
    and "twi_busy (twi_ctrl_read fd wires d) \<longleftrightarrow> t_eng d \<noteq> None \<or> t_tx d \<noteq> []"
    and "bit (twi_ctrl_read fd wires d) 30 \<longleftrightarrow> t_rx d \<noteq> []"
proof -
  have c: "\<not> bit (t_ctrl d) n" if "9 \<le> n" for n
  proof -
    have "(0x1ff :: u32) = mask 9" by (simp add: mask_eq_exp_minus_1)
    then have "t_ctrl d = t_ctrl d AND mask 9" using twi_state_ctrl [of fd p sl h] by (simp add: assms)
    then show ?thesis using that by (metis bit_and_iff bit_mask_iff not_le)
  qed
  define x where "x = push_bit (twi_ctrl TWI_CTRL_FIFO_LSB) (of_nat fd AND 0xf :: u32)"
  have "(0xf :: u32) = mask 4" by (simp add: mask_eq_exp_minus_1)
  then have f: "bit (of_nat fd AND (0xf :: u32)) j \<Longrightarrow> j < 4" for j
    by (simp add: bit_and_iff bit_mask_iff)
  have x: "\<not> bit x 29" "\<not> bit x 30" "\<not> bit x 31"
    unfolding x_def bit_push_bit_iff using f [of 14] f [of 15] f [of 16] by auto
  note r = twi_ctrl_read_def [of fd wires d, folded x_def]
  show "twi_full (twi_ctrl_read fd wires d) \<longleftrightarrow> 2 ^ fd \<le> List.length (t_tx d)"
    using c [of 29] x by (simp add: twi_full_def r bit_or_iff bit_and_iff)
  show "bit (twi_ctrl_read fd wires d) 30 \<longleftrightarrow> t_rx d \<noteq> []"
    using c [of 30] x by (simp add: r bit_or_iff bit_and_iff)
  show "twi_busy (twi_ctrl_read fd wires d) \<longleftrightarrow> t_eng d \<noteq> None \<or> t_tx d \<noteq> []"
    using c [of 31] x by (simp add: twi_busy_def r bit_or_iff bit_and_iff)
qed

section \<open>One command\<close>

lemma twi_at_rd_ctrl:
  "twi_at fd p sl (snd (rd TWI_CTRL m)) = twi_cycle fd p sl (List.length (log m)) (twi_at fd p sl m)"
  by (simp add: rd_def twi_bus_def)

lemma twi_rds_shift:
  assumes "t_en (twi_at fd p sl m)" "t_eng (twi_at fd p sl m) = Some w"
    and "\<forall>i<n. (List.length (log m) + i) mod Suc p \<noteq> 0"
  shows "twi_at fd p sl (rds TWI_CTRL n m) = twi_at fd p sl m"
  using assms(3)
proof (induction n)
  case (Suc n)
  then have "twi_at fd p sl (rds TWI_CTRL n m) = twi_at fd p sl m" by simp
  moreover have "(List.length (log m) + n) mod Suc p \<noteq> 0" using Suc.prems by blast
  ultimately show ?case using assms(1,2)
    by (simp only: rds_snoc twi_at_rd_ctrl length_log_rds twi_cycle_def) simp
qed simp

text \<open>The engine works on a command, and the queue behind it is empty: the poll returns when it is done.\<close>

lemma twi_complete_done: "t_eng (twi_complete fd sl d) = None" "t_tx (twi_complete fd sl d) = t_tx d"
  "t_en (twi_complete fd sl d) = t_en d"
  by (simp_all add: twi_complete_def Let_def t_en_def split: option.split)

lemma twi_command_done:
  assumes "twi_wired fd p sl m"
    and "twi_at fd p sl m = d" "t_en d" "t_eng d = Some w" "t_tx d = []"
  shows "\<exists>n. poll twi_busy TWI_CTRL m = Some (rds TWI_CTRL (Suc (Suc n)) m)
    \<and> twi_at fd p sl (rds TWI_CTRL (Suc (Suc n)) m) = twi_complete fd sl d"
proof -
  let ?e = "twi_complete fd sl d"
  note e0 = twi_complete_done [of fd sl d]
  obtain n where n: "(List.length (log m) + n) mod Suc p = 0"
    "\<forall>i<n. (List.length (log m) + i) mod Suc p \<noteq> 0"
    using next_period [of "List.length (log m)" p] by (elim exE conjE)
  have busy: "twi_at fd p sl (rds TWI_CTRL i m) = d" if "i \<le> n" for i
    using twi_rds_shift [of fd p sl m w i] assms(2-4) n(2) that by simp
  have e: "twi_at fd p sl (rds TWI_CTRL (Suc n) m) = ?e"
    unfolding rds_snoc twi_at_rd_ctrl using busy [of n] n(1) assms(3,5) e0
    by (simp add: twi_cycle_def)
  have e2: "twi_at fd p sl (rds TWI_CTRL (Suc (Suc n)) m) = ?e"
    unfolding rds_snoc [of _ "Suc n"] twi_at_rd_ctrl e using assms(3,5) e0 by (simp add: twi_cycle_quiet)
  have val: "\<exists>x. rd_val TWI_CTRL (rds TWI_CTRL i m) = twi_ctrl_read fd x (twi_at fd p sl (rds TWI_CTRL i m))" for i
    using assms(1) by (simp add: twi_wired_def rd_val_def del: rds_Suc)
  have st: "twi_busy (rd_val TWI_CTRL (rds TWI_CTRL i m))
      \<longleftrightarrow> t_eng (twi_at fd p sl (rds TWI_CTRL i m)) \<noteq> None \<or> t_tx (twi_at fd p sl (rds TWI_CTRL i m)) \<noteq> []" for i
    using val [of i] twi_ctrl_read_flags(2) [OF refl] by metis
  have b: "twi_busy (rd_val TWI_CTRL (rds TWI_CTRL i m))" if "i \<le> n" for i
    unfolding st by (simp add: busy [OF that] assms(4) del: rds_Suc)
  have nb: "\<not> twi_busy (rd_val TWI_CTRL (rds TWI_CTRL (Suc n) m))"
    unfolding st by (simp add: e e0 assms(5) del: rds_Suc)
  from poll_ready [where busy = twi_busy and l = TWI_CTRL and n = "Suc n" and m = m, OF nb]
  obtain m' where m': "poll twi_busy TWI_CTRL m = Some m'" by blast
  from poll_Some_D [OF m'] obtain j where j: "m' = rds TWI_CTRL (Suc j) m"
    "\<not> twi_busy (rd_val TWI_CTRL (rds TWI_CTRL j m))"
    "\<forall>i<j. twi_busy (rd_val TWI_CTRL (rds TWI_CTRL i m))" by blast
  have "\<not> j \<le> n" using j(2) b [of j] by blast
  moreover have "\<not> Suc n < j" using j(3) nb by blast
  ultimately have "j = Suc n" by simp
  with m' j(1) e2 show ?thesis by blast
qed

text \<open>Writing a command to a quiet controller and waiting for it.\<close>

lemma twi_command:
  assumes "twi_quiet fd p sl m" "tw_cmd (w AND 0x7ff) \<noteq> 0"
  shows "poll twi_full TWI_CTRL m = Some (snd (rd TWI_CTRL m))"
    "\<exists>m'. poll twi_busy TWI_CTRL (wr TWI_DCMD w (snd (rd TWI_CTRL m))) = Some m'
      \<and> twi_at fd p sl m' = twi_complete fd sl ((twi_at fd p sl m)\<lparr>t_eng := Some (w AND 0x7ff)\<rparr>)
      \<and> twi_wired fd p sl m' \<and> only_locs twi_locs m m'"
proof -
  let ?d = "twi_at fd p sl m" and ?m0 = "snd (rd TWI_CTRL m)" and ?w = "w AND 0x7ff"
  let ?m1 = "wr TWI_DCMD w ?m0"
  have d: "t_en ?d" "t_tx ?d = []" "t_eng ?d = None" "t_rx ?d = []" "twi_wired fd p sl m"
    using assms(1) by (simp_all add: twi_quiet_def Let_def)
  obtain x where "rd_val TWI_CTRL m = twi_ctrl_read fd x ?d" using d(5) unfolding twi_wired_def rd_val_def by blast
  then have "\<not> twi_full (rd_val TWI_CTRL m)" using d(2) by (simp add: twi_ctrl_read_flags(1))
  then show "poll twi_full TWI_CTRL m = Some ?m0" by (subst poll.simps) (simp add: rd_def)
  have m0: "twi_at fd p sl ?m0 = ?d" using d(1-3) by (simp only: twi_at_rd_ctrl twi_cycle_quiet)
  have "twi_at fd p sl ?m1 = twi_cycle fd p sl (List.length (log ?m0)) (?d\<lparr>t_tx := [?w]\<rparr>)"
    using d(2) m0 by (simp add: wr_def twi_bus_def)
  also have "\<dots> = ?d\<lparr>t_eng := Some ?w\<rparr>"
    using d(1-3) assms(2) by (cases ?d) (simp add: twi_cycle_def twi_complete_def t_en_def)
  finally have m1: "twi_at fd p sl ?m1 = ?d\<lparr>t_eng := Some ?w\<rparr>" .
  have w1: "twi_wired fd p sl ?m1" using d(5) by (simp add: twi_wired_def)
  have "t_en (?d\<lparr>t_eng := Some ?w\<rparr>)" "t_eng (?d\<lparr>t_eng := Some ?w\<rparr>) = Some ?w" "t_tx (?d\<lparr>t_eng := Some ?w\<rparr>) = []"
    using d by (simp_all add: t_en_def)
  from twi_command_done [OF w1 m1 this] obtain n where
    n: "poll twi_busy TWI_CTRL ?m1 = Some (rds TWI_CTRL (Suc (Suc n)) ?m1)"
      "twi_at fd p sl (rds TWI_CTRL (Suc (Suc n)) ?m1) = twi_complete fd sl (?d\<lparr>t_eng := Some ?w\<rparr>)" by blast
  have "only_locs twi_locs m ?m0" by (rule only_locs_rd) (simp add: twi_locs_def)
  moreover have "only_locs twi_locs ?m0 ?m1" by (rule only_locs_wr) (simp add: twi_locs_def)
  moreover have "only_locs twi_locs ?m1 (rds TWI_CTRL (Suc (Suc n)) ?m1)"
    by (rule only_locs_rds) (simp add: twi_locs_def)
  ultimately have "only_locs twi_locs m (rds TWI_CTRL (Suc (Suc n)) ?m1)" using only_locs_trans by blast
  moreover have "twi_wired fd p sl (rds TWI_CTRL (Suc (Suc n)) ?m1)" using w1 by (simp add: twi_wired_def del: rds_Suc)
  ultimately show "\<exists>m'. poll twi_busy TWI_CTRL ?m1 = Some m'
      \<and> twi_at fd p sl m' = twi_complete fd sl (?d\<lparr>t_eng := Some ?w\<rparr>)
      \<and> twi_wired fd p sl m' \<and> only_locs twi_locs m m'" using n by blast
qed

section \<open>The blocking operations\<close>

text \<open>From one quiet state to the next with the given bus events.\<close>

definition twi_go :: "nat \<Rightarrow> nat \<Rightarrow> 'a twi_slave_scheme \<Rightarrow> mach \<Rightarrow> mach \<Rightarrow> twi_ev list \<Rightarrow> bool" where
  "twi_go fd p sl m m' evs \<longleftrightarrow> twi_quiet fd p sl m'
     \<and> twi_line fd p sl m' = twi_line fd p sl m @ evs \<and> only_locs twi_locs m m'"

lemma twi_go_trans:
  "twi_go fd p sl m m1 e1 \<Longrightarrow> twi_go fd p sl m1 m2 e2 \<Longrightarrow> twi_go fd p sl m m2 (e1 @ e2)"
  by (auto simp: twi_go_def intro: only_locs_trans)

lemma twi_go_quiet: "twi_go fd p sl m m' evs \<Longrightarrow> twi_quiet fd p sl m'"
  by (simp add: twi_go_def)

lemma twi_go_line: "twi_go fd p sl m m' evs \<Longrightarrow> twi_line fd p sl m' = twi_line fd p sl m @ evs"
  by (simp add: twi_go_def)

lemma tw_cmd_words:
  "tw_cmd (push_bit (twi_dcmd TWI_DCMD_CMD_LO) (twi_cmd_code TWI_CMD_START) AND 0x7ff) = 1"
  "tw_cmd (push_bit (twi_dcmd TWI_DCMD_CMD_LO) (twi_cmd_code TWI_CMD_STOP) AND 0x7ff) = 2"
  by (simp_all add: tw_cmd_def)

lemma go_start:
  assumes "twi_quiet fd p sl m"
  obtains m' where "neorv32_twi_generate_start m = Some m'" "twi_go fd p sl m m' [Tw_start]"
proof -
  let ?w = "push_bit (twi_dcmd TWI_DCMD_CMD_LO) (twi_cmd_code TWI_CMD_START)"
  have ne: "tw_cmd (?w AND 0x7ff) \<noteq> 0" by (simp only: tw_cmd_words)  simp
  from twi_command(2) [OF assms ne] obtain m' where m':
    "poll twi_busy TWI_CTRL (wr TWI_DCMD ?w (snd (rd TWI_CTRL m))) = Some m'"
    "twi_at fd p sl m' = twi_complete fd sl ((twi_at fd p sl m)\<lparr>t_eng := Some (?w AND 0x7ff)\<rparr>)"
    "twi_wired fd p sl m'" "only_locs twi_locs m m'" by blast
  have "twi_at fd p sl m' = (twi_at fd p sl m)\<lparr>t_eng := None, t_line := twi_line fd p sl m @ [Tw_start]\<rparr>"
    unfolding m'(2) twi_complete_def by (simp add: tw_cmd_words [simplified] twi_line_def)
  then have "twi_go fd p sl m m' [Tw_start]" using assms m'(3,4)
    by (simp add: twi_go_def twi_quiet_def twi_line_def Let_def t_en_def)
  moreover have "neorv32_twi_generate_start m = Some m'"
    unfolding neorv32_twi_generate_start_def neorv32_twi_generate_start_nonblocking_def twi_command(1) [OF assms ne]
    by (simp only: Option.bind_lunit m'(1))
  ultimately show ?thesis by (rule that [rotated])
qed

lemma go_stop:
  assumes "twi_quiet fd p sl m"
  obtains m' where "neorv32_twi_generate_stop m = Some m'" "twi_go fd p sl m m' [Tw_stop]"
proof -
  let ?w = "push_bit (twi_dcmd TWI_DCMD_CMD_LO) (twi_cmd_code TWI_CMD_STOP)"
  have ne: "tw_cmd (?w AND 0x7ff) \<noteq> 0" by (simp only: tw_cmd_words) simp
  from twi_command(2) [OF assms ne] obtain m' where m':
    "poll twi_busy TWI_CTRL (wr TWI_DCMD ?w (snd (rd TWI_CTRL m))) = Some m'"
    "twi_at fd p sl m' = twi_complete fd sl ((twi_at fd p sl m)\<lparr>t_eng := Some (?w AND 0x7ff)\<rparr>)"
    "twi_wired fd p sl m'" "only_locs twi_locs m m'" by blast
  have "twi_at fd p sl m' = (twi_at fd p sl m)\<lparr>t_eng := None, t_line := twi_line fd p sl m @ [Tw_stop]\<rparr>"
    unfolding m'(2) twi_complete_def by (simp add: tw_cmd_words [simplified] twi_line_def)
  then have "twi_go fd p sl m m' [Tw_stop]" using assms m'(3,4)
    by (simp add: twi_go_def twi_quiet_def twi_line_def Let_def t_en_def)
  moreover have "neorv32_twi_generate_stop m = Some m'"
    unfolding neorv32_twi_generate_stop_def neorv32_twi_generate_stop_nonblocking_def twi_command(1) [OF assms ne]
    by (simp only: Option.bind_lunit m'(1))
  ultimately show ?thesis by (rule that [rotated])
qed

text \<open>A byte: the level of each bit on the wire is low when either side pulls it low.\<close>

lemma tw_words:
  fixes mack :: u32 and b :: u8
  defines "w \<equiv> (ucast b OR push_bit (twi_dcmd TWI_DCMD_ACK) (mack AND 1)
      OR push_bit (twi_dcmd TWI_DCMD_CMD_LO) (twi_cmd_code TWI_CMD_RTX)) AND 0x7ff"
  shows "tw_cmd w = 3" "tw_mack w = odd mack" "tw_data w = b"
proof -
  have k: "(0x7ff :: u32) = mask 11" "(3 :: u32) = mask 2" by (simp_all add: mask_eq_exp_minus_1)
  have m: "bit (0x7ff :: u32) n \<longleftrightarrow> n < 11" "bit (3 :: u32) n \<longleftrightarrow> n < 2" for n
    by (simp_all only: k bit_mask_iff) auto
  have b: "\<not> bit b n" if "8 \<le> n" for n using bit_imp_le_length [of b n] that by auto
  have w: "bit w n \<longleftrightarrow> (if n < 8 then bit b n else if n = 8 then odd mack else n = 9 \<or> n = 10)" for n
  proof -
    have "bit (push_bit 9 (3 :: u32)) n \<longleftrightarrow> n = 9 \<or> n = 10" unfolding bit_push_bit_iff m by auto
    moreover have "bit (push_bit 8 (mack AND 1)) n \<longleftrightarrow> n = 8 \<and> odd mack"
      unfolding bit_push_bit_iff by (auto simp: bit_and_iff bit_1_iff bit_0)
    moreover have "bit (ucast b :: u32) n \<longleftrightarrow> bit b n" by (cases "n < 8") (simp_all add: bit_ucast_iff b)
    ultimately show ?thesis
      unfolding w_def bit_and_iff bit_or_iff m using b by auto
  qed
  show "tw_cmd w = 3"
  proof (rule bit_word_eqI)
    fix n
    show "bit (tw_cmd w) n = bit (3 :: u32) n"
      unfolding tw_cmd_def bit_and_iff bit_drop_bit_eq comp_def m w by auto
  qed
  show "tw_mack w = odd mack" by (simp add: tw_mack_def w)
  show "tw_data w = b" by (rule bit_word_eqI) (simp add: tw_data_def bit_ucast_iff w)
qed

definition on_wire :: "'a twi_slave_scheme \<Rightarrow> twi_ev list \<Rightarrow> u8 \<Rightarrow> u8" where
  "on_wire sl H b = b AND drives sl H"

definition ack_level :: "'a twi_slave_scheme \<Rightarrow> u32 \<Rightarrow> twi_ev list \<Rightarrow> u8 \<Rightarrow> bool" where
  "ack_level sl mack H b \<longleftrightarrow> even mack \<and> nacks sl H (on_wire sl H b)"

lemma twi_get_pushed:
  assumes "twi_wired fd p sl m" "twi_at fd p sl m = d" "t_en d" "t_tx d = []" "t_eng d = None" "t_rx d = [(n, b)]"
  shows "\<exists>m'. neorv32_twi_get data m = ((if n then 1 else 0, b), m') \<and> twi_at fd p sl m' = d\<lparr>t_rx := []\<rparr>
    \<and> twi_wired fd p sl m' \<and> only_locs twi_locs m m'"
proof -
  define m0 where "m0 = snd (rd TWI_CTRL m)"
  define m1 where "m1 = snd (rd TWI_DCMD m0)"
  have r: "rd TWI_CTRL m = (rd_val TWI_CTRL m, m0)" "rd TWI_DCMD m0 = (rd_val TWI_DCMD m0, m1)"
    by (simp_all add: rd_def m0_def m1_def)
  obtain x where "rd_val TWI_CTRL m = twi_ctrl_read fd x d"
    using assms(1,2) unfolding twi_wired_def rd_val_def by blast
  then have av: "bit (rd_val TWI_CTRL m) 30"
    using twi_ctrl_read_flags(3) [OF assms(2) [symmetric]] assms(6) by simp
  have s0: "twi_at fd p sl m0 = d"
    unfolding m0_def using assms(2-5) by (simp only: twi_at_rd_ctrl twi_cycle_quiet)
  have w0: "twi_wired fd p sl m0" using assms(1) by (simp add: twi_wired_def m0_def)
  then have v: "rd_val TWI_DCMD m0 = twi_dcmd_read (n, b)"
    using s0 assms(6) unfolding twi_wired_def rd_val_def by auto
  have u: "ucast (twi_dcmd_read (n, b)) = b"
    by (rule bit_word_eqI) (auto simp: twi_dcmd_read_def bit_simps)
  have nb: "\<not> bit b 8" using bit_imp_le_length [of b 8] by auto
  have a: "uint (drop_bit 8 (twi_dcmd_read (n, b)) AND 1) = (if n then 1 else 0)"
    using nb by (simp add: and_one_eq mod_2_eq_odd bit_0 [symmetric] bit_simps twi_dcmd_read_def)
  have "neorv32_twi_get data m = ((if n then 1 else 0, b), m1)"
    unfolding neorv32_twi_get_def reg_test_def r using av by (simp add: r v u a)
  moreover have "twi_at fd p sl m1 = d\<lparr>t_rx := []\<rparr>"
    using s0 assms(3-6) by (simp add: m1_def rd_def twi_bus_def twi_cycle_quiet t_en_def)
  moreover have "only_locs twi_locs m m0" "only_locs twi_locs m0 m1" "twi_wired fd p sl m1"
    using w0 by (simp_all add: m0_def m1_def twi_wired_def twi_locs_def only_locs_rd)
  ultimately show ?thesis using only_locs_trans by blast
qed

lemma go_byte:
  assumes "twi_quiet fd p sl m"
  obtains m' where "neorv32_twi_transfer b mack m
      = Some ((if ack_level sl mack (twi_line fd p sl m) b then 1 else 0, on_wire sl (twi_line fd p sl m) b), m')"
    "twi_go fd p sl m m' [Tw_byte (on_wire sl (twi_line fd p sl m) b) (ack_level sl mack (twi_line fd p sl m) b)]"
proof -
  let ?w = "ucast b OR push_bit (twi_dcmd TWI_DCMD_ACK) (mack AND 1)
      OR push_bit (twi_dcmd TWI_DCMD_CMD_LO) (twi_cmd_code TWI_CMD_RTX)"
  let ?d = "twi_at fd p sl m" and ?H = "twi_line fd p sl m"
  note c = tw_words [of b mack]
  have ne: "tw_cmd (?w AND 0x7ff) \<noteq> 0" unfolding c by simp
  from twi_command(2) [OF assms ne] obtain m1 where m1:
    "poll twi_busy TWI_CTRL (wr TWI_DCMD ?w (snd (rd TWI_CTRL m))) = Some m1"
    "twi_at fd p sl m1 = twi_complete fd sl (?d\<lparr>t_eng := Some (?w AND 0x7ff)\<rparr>)"
    "twi_wired fd p sl m1" "only_locs twi_locs m m1" by blast
  have d: "t_en ?d" "t_tx ?d = []" "t_eng ?d = None" "t_rx ?d = []"
    using assms by (simp_all add: twi_quiet_def Let_def)
  define e where "e = ?d\<lparr>t_line := ?H @ [Tw_byte (on_wire sl ?H b) (ack_level sl mack ?H b)],
      t_rx := [(ack_level sl mack ?H b, on_wire sl ?H b)]\<rparr>"
  have s1: "twi_at fd p sl m1 = e"
    unfolding m1(2) twi_complete_def using d c
    by (cases ?d) (simp add: e_def twi_line_def ack_level_def on_wire_def Let_def)
  have e: "t_en e" "t_tx e = []" "t_eng e = None" "t_rx e = [(ack_level sl mack ?H b, on_wire sl ?H b)]"
    using d by (simp_all add: e_def t_en_def)
  from twi_get_pushed [OF m1(3) s1 e, of b] obtain m' where m':
    "neorv32_twi_get b m1 = ((if ack_level sl mack ?H b then 1 else 0, on_wire sl ?H b), m')"
    "twi_at fd p sl m' = e\<lparr>t_rx := []\<rparr>" "twi_wired fd p sl m'" "only_locs twi_locs m1 m'" by blast
  have "neorv32_twi_transfer b mack m
      = Some ((if ack_level sl mack ?H b then 1 else 0, on_wire sl ?H b), m')"
    unfolding neorv32_twi_transfer_def twi_command(1) [OF assms ne] neorv32_twi_send_nonblocking_def
    by (simp only: Option.bind_lunit m1(1) m'(1))
  moreover have "twi_go fd p sl m m' [Tw_byte (on_wire sl ?H b) (ack_level sl mack ?H b)]"
    using m' m1(4) e only_locs_trans [OF m1(4) m'(4)]
    by (simp add: twi_go_def twi_quiet_def twi_line_def Let_def t_en_def e_def)
  ultimately show ?thesis by (rule that)
qed

end
