(* ===== verification/Twi_Flash.thy ===== *)
theory Twi_Flash
  imports Twi_Rtl Boot_Load
begin

text \<open>
  The bootloader's TWI flash driver, \<^verbatim>\<open>sw/bootloader/hal/source/twi_flash.c\<close>, with the settings of
  \<^verbatim>\<open>config.h\<close>: device \<^verbatim>\<open>0xA0\<close>, two address bytes.  The memory chip is not part of the sources:
  \<open>eeprom_chip\<close> states the transfers of serial EEPROMs that the driver relies on.
\<close>

section \<open>Configuration\<close>

definition TWI_FLASH_CLK_PRSC :: u32 where "TWI_FLASH_CLK_PRSC = 5"
definition TWI_FLASH_CLK_DIV :: u32 where "TWI_FLASH_CLK_DIV = 0"
definition TWI_FLASH_ID :: u8 where "TWI_FLASH_ID = 0xa0"
definition TWI_FLASH_BASE_ADDR :: u32 where "TWI_FLASH_BASE_ADDR = 0"

section \<open>Driver\<close>

text \<open>Start, device and address; the result is not zero if one of the bytes was not acknowledged.\<close>

definition twi_select :: "u32 \<Rightarrow> mach \<Rightarrow> (int \<times> mach) option" where
  "twi_select addr m =
     do {
       m \<leftarrow> neorv32_twi_generate_start m;
       ((rc, _), m) \<leftarrow> neorv32_twi_transfer (TWI_FLASH_ID OR 0) 0 m;
       if rc \<noteq> 0 then Some (1, m)
       else do {
         ((r1, _), m) \<leftarrow> neorv32_twi_transfer (byte32 addr 1) 0 m;
         ((r0, _), m) \<leftarrow> neorv32_twi_transfer (byte32 addr 0) 0 m;
         Some (r1 OR r0, m)
       }
     }"

text \<open>The wait for the end of a write: the device is called until it answers.\<close>

partial_function (option) twi_write_wait :: "mach \<Rightarrow> mach option" where
  "twi_write_wait m =
     do {
       m \<leftarrow> neorv32_twi_generate_start m;
       ((rc, _), m) \<leftarrow> neorv32_twi_transfer (TWI_FLASH_ID OR 0) 0 m;
       m \<leftarrow> neorv32_twi_generate_stop m;
       if rc = 0 then Some m else twi_write_wait m
     }"

definition twi_transfer_byte :: "bool \<Rightarrow> u8 \<Rightarrow> u32 \<Rightarrow> mach \<Rightarrow> ((int \<times> u8) \<times> mach) option" where
  "twi_transfer_byte write data addr m =
     do {
       (rc, m) \<leftarrow> twi_select addr m;
       if rc \<noteq> 0 then Some ((1, data), m)
       else if write then do {
         ((rc, data), m) \<leftarrow> neorv32_twi_transfer data 0 m;
         if rc \<noteq> 0 then Some ((1, data), m)
         else do {
           m \<leftarrow> neorv32_twi_generate_stop m;
           m \<leftarrow> twi_write_wait m;
           Some ((0, data), m)
         }
       }
       else do {
         m \<leftarrow> neorv32_twi_generate_start m;
         ((rc, _), m) \<leftarrow> neorv32_twi_transfer (TWI_FLASH_ID OR 1) 0 m;
         if rc \<noteq> 0 then Some ((1, data), m)
         else do {
           ((_, tmp), m) \<leftarrow> neorv32_twi_transfer 0xff 0 m;
           m \<leftarrow> neorv32_twi_generate_stop m;
           Some ((0, tmp), m)
         }
       }
     }"

definition twi_flash_setup :: "boot \<Rightarrow> (int \<times> boot) option" where
  "twi_flash_setup b =
     (let (a, m) = neorv32_twi_available (cpu b)
      in if a = 0 then Some (1, b\<lparr>cpu := m\<rparr>)
         else do {
           let b = b\<lparr>g_flash_addr := TWI_FLASH_BASE_ADDR\<rparr>;
           let m = neorv32_twi_setup TWI_FLASH_CLK_PRSC TWI_FLASH_CLK_DIV 0 m;
           m \<leftarrow> neorv32_twi_generate_start m;
           ((rc, _), m) \<leftarrow> neorv32_twi_transfer (TWI_FLASH_ID OR 0) 0 m;
           m \<leftarrow> neorv32_twi_generate_stop m;
           Some (if rc \<noteq> 0 then 1 else 0, b\<lparr>cpu := m\<rparr>)
         })"

definition twi_flash_erase :: "boot \<Rightarrow> (int \<times> boot) option" where
  "twi_flash_erase b = Some (0, b)"

text \<open>The loops of the stream functions go on after an error.\<close>

fun twi_get_bytes :: "nat \<Rightarrow> boot \<Rightarrow> ((int \<times> u8 list) \<times> boot) option" where
  "twi_get_bytes 0 b = Some ((0, []), b)"
| "twi_get_bytes (Suc n) b =
     do {
       ((r, d), m) \<leftarrow> twi_transfer_byte False 0 (g_flash_addr b) (cpu b);
       ((rs, ds), b) \<leftarrow> twi_get_bytes n (b\<lparr>cpu := m, g_flash_addr := g_flash_addr b + 1\<rparr>);
       Some ((r OR rs, d # ds), b)
     }"

definition twi_flash_stream_get :: "boot \<Rightarrow> ((int \<times> u32) \<times> boot) option" where
  "twi_flash_stream_get b =
     do {
       ((rc, ds), b) \<leftarrow> twi_get_bytes 4 b;
       Some ((rc, join32 (ds ! 0) (ds ! 1) (ds ! 2) (ds ! 3)), b)
     }"

fun twi_put_bytes :: "u8 list \<Rightarrow> boot \<Rightarrow> (int \<times> boot) option" where
  "twi_put_bytes [] b = Some (0, b)"
| "twi_put_bytes (d # ds) b =
     do {
       ((r, _), m) \<leftarrow> twi_transfer_byte True d (g_flash_addr b) (cpu b);
       (rs, b) \<leftarrow> twi_put_bytes ds (b\<lparr>cpu := m, g_flash_addr := g_flash_addr b + 1\<rparr>);
       Some (r OR rs, b)
     }"

definition twi_flash_stream_put :: "u32 \<Rightarrow> boot \<Rightarrow> (int \<times> boot) option" where
  "twi_flash_stream_put wdata b = twi_put_bytes (bytes32 wdata) b"

section \<open>The transfers of a serial EEPROM\<close>

text \<open>
  The chip is given by what it drives and acknowledges, its content and whether a write is going on
  in it, all functions of what has happened on the bus.
\<close>

record eeprom = twi_slave +
  ee_mem :: "twi_ev list \<Rightarrow> u32 \<Rightarrow> u8"
  ee_busy :: "twi_ev list \<Rightarrow> bool"

text \<open>The call of the device and the address, both acknowledged.\<close>

definition ee_called :: "u32 \<Rightarrow> twi_ev list" where
  "ee_called a = [Tw_start, Tw_byte 0xa0 False, Tw_byte (byte32 a 1) False, Tw_byte (byte32 a 0) False]"

text \<open>Listening: nothing is driven, the byte is acknowledged.\<close>

definition takes :: "eeprom \<Rightarrow> twi_ev list \<Rightarrow> u8 \<Rightarrow> bool" where
  "takes c H b \<longleftrightarrow> drives c H = 0xff \<and> \<not> nacks c H b"

text \<open>A call with its stop condition: the device does not answer while it writes, and that does not last.\<close>

definition ee_polls :: "eeprom \<Rightarrow> bool" where
  "ee_polls c \<longleftrightarrow> (\<forall>H. \<not> claimed H \<longrightarrow>
     drives c (H @ [Tw_start]) = 0xff \<and> (nacks c (H @ [Tw_start]) 0xa0 \<longleftrightarrow> ee_busy c H)
     \<and> ee_mem c (H @ [Tw_start, Tw_byte 0xa0 (ee_busy c H), Tw_stop]) = ee_mem c H
     \<and> (\<not> ee_busy c H \<longrightarrow> \<not> ee_busy c (H @ [Tw_start, Tw_byte 0xa0 False, Tw_stop]))
     \<and> (\<exists>n. \<not> ee_busy c (H @ concat (replicate n [Tw_start, Tw_byte 0xa0 True, Tw_stop]))))"

definition ee_addressed :: "eeprom \<Rightarrow> bool" where
  "ee_addressed c \<longleftrightarrow> (\<forall>H a. \<not> claimed H \<longrightarrow> \<not> ee_busy c H \<longrightarrow>
     takes c (H @ [Tw_start, Tw_byte 0xa0 False]) (byte32 a 1)
     \<and> takes c (H @ [Tw_start, Tw_byte 0xa0 False, Tw_byte (byte32 a 1) False]) (byte32 a 0))"

text \<open>Reading, with a repeated start: the byte at the address, which the host does not acknowledge.\<close>

definition ee_reads :: "eeprom \<Rightarrow> bool" where
  "ee_reads c \<longleftrightarrow> (\<forall>H a. \<not> claimed H \<longrightarrow> \<not> ee_busy c H \<longrightarrow> unat a < 2 ^ 16 \<longrightarrow>
     takes c (H @ ee_called a @ [Tw_start]) 0xa1
     \<and> drives c (H @ ee_called a @ [Tw_start, Tw_byte 0xa1 False]) = ee_mem c H a
     \<and> nacks c (H @ ee_called a @ [Tw_start, Tw_byte 0xa1 False]) (ee_mem c H a)
     \<and> ee_mem c (H @ ee_called a @ [Tw_start, Tw_byte 0xa1 False, Tw_byte (ee_mem c H a) True, Tw_stop]) = ee_mem c H
     \<and> \<not> ee_busy c (H @ ee_called a @ [Tw_start, Tw_byte 0xa1 False, Tw_byte (ee_mem c H a) True, Tw_stop]))"

text \<open>Writing: the stop condition starts it.\<close>

definition ee_writes :: "eeprom \<Rightarrow> bool" where
  "ee_writes c \<longleftrightarrow> (\<forall>H a d. \<not> claimed H \<longrightarrow> \<not> ee_busy c H \<longrightarrow> unat a < 2 ^ 16 \<longrightarrow>
     takes c (H @ ee_called a) d
     \<and> ee_mem c (H @ ee_called a @ [Tw_byte d False, Tw_stop]) = (ee_mem c H)(a := d))"

definition eeprom_chip :: "eeprom \<Rightarrow> bool" where
  "eeprom_chip c \<longleftrightarrow> ee_polls c \<and> ee_addressed c \<and> ee_reads c \<and> ee_writes c"

section \<open>Bytes\<close>

definition ee_idle :: "nat \<Rightarrow> nat \<Rightarrow> eeprom \<Rightarrow> mach \<Rightarrow> bool" where
  "ee_idle fd p c m \<longleftrightarrow> eeprom_chip c \<and> twi_quiet fd p c m
     \<and> \<not> claimed (twi_line fd p c m) \<and> \<not> ee_busy c (twi_line fd p c m)"

abbreviation (input) stored :: "nat \<Rightarrow> nat \<Rightarrow> eeprom \<Rightarrow> mach \<Rightarrow> u32 \<Rightarrow> u8" where
  "stored fd p c m \<equiv> ee_mem c (twi_line fd p c m)"

text \<open>A byte that the chip takes.\<close>

lemma go_taken:
  assumes "twi_quiet fd p c m" "takes c (twi_line fd p c m) b"
  obtains m' where "neorv32_twi_transfer b 0 m = Some ((0, b), m')" "twi_go fd p c m m' [Tw_byte b False]"
proof -
  have ones: "b AND (0xff :: u8) = b"
  proof -
    have "(0xff :: u8) = mask 8" by (simp add: mask_eq_exp_minus_1)
    then show ?thesis by (simp only: bit_eq_iff) (auto simp: bit_simps)
  qed
  then have "on_wire c (twi_line fd p c m) b = b" "\<not> ack_level c 0 (twi_line fd p c m) b"
    using assms(2) by (simp_all add: takes_def on_wire_def ack_level_def)
  with go_byte [OF assms(1), of b 0] that show ?thesis by auto
qed

lemma claimed_stop [simp]: "\<not> claimed (H @ [Tw_stop])" "\<not> claimed (H @ [x, Tw_stop])" "\<not> claimed (H @ [x, y, Tw_stop])"
  by (simp_all add: claimed_def)

text \<open>A call and its answer.\<close>

lemma go_call:
  assumes "eeprom_chip c" "twi_quiet fd p c m" "\<not> claimed (twi_line fd p c m)"
  obtains m1 m2 m3 x where "neorv32_twi_generate_start m = Some m1"
    "neorv32_twi_transfer 0xa0 0 m1 = Some ((if ee_busy c (twi_line fd p c m) then 1 else 0, x), m2)"
    "neorv32_twi_generate_stop m2 = Some m3"
    "twi_go fd p c m m3 [Tw_start, Tw_byte 0xa0 (ee_busy c (twi_line fd p c m)), Tw_stop]"
    "stored fd p c m3 = stored fd p c m" "\<not> claimed (twi_line fd p c m3)"
    "\<not> ee_busy c (twi_line fd p c m) \<Longrightarrow> ee_idle fd p c m3"
proof -
  let ?H = "twi_line fd p c m"
  obtain m1 where m1: "neorv32_twi_generate_start m = Some m1" "twi_go fd p c m m1 [Tw_start]"
    using go_start [OF assms(2)] .
  have l1: "twi_line fd p c m1 = ?H @ [Tw_start]" by (rule twi_go_line [OF m1(2)])
  have p: "drives c (?H @ [Tw_start]) = 0xff" "nacks c (?H @ [Tw_start]) 0xa0 = ee_busy c ?H"
    "ee_mem c (?H @ [Tw_start, Tw_byte 0xa0 (ee_busy c ?H), Tw_stop]) = ee_mem c ?H"
    "\<not> ee_busy c ?H \<Longrightarrow> \<not> ee_busy c (?H @ [Tw_start, Tw_byte 0xa0 False, Tw_stop])"
    using assms(1,3) by (auto simp: eeprom_chip_def ee_polls_def)
  have w: "on_wire c (?H @ [Tw_start]) 0xa0 = 0xa0" "ack_level c 0 (?H @ [Tw_start]) 0xa0 = ee_busy c ?H"
    using p(1,2) by (simp_all add: on_wire_def ack_level_def)
  obtain m2 where m2: "neorv32_twi_transfer 0xa0 0 m1 = Some ((if ee_busy c ?H then 1 else 0, 0xa0), m2)"
    "twi_go fd p c m1 m2 [Tw_byte 0xa0 (ee_busy c ?H)]"
    using go_byte [OF twi_go_quiet [OF m1(2)], of "0xa0" 0] unfolding l1 w by blast
  obtain m3 where m3: "neorv32_twi_generate_stop m2 = Some m3" "twi_go fd p c m2 m3 [Tw_stop]"
    using go_stop [OF twi_go_quiet [OF m2(2)]] .
  have go: "twi_go fd p c m m3 [Tw_start, Tw_byte 0xa0 (ee_busy c ?H), Tw_stop]"
    using twi_go_trans [OF m1(2) twi_go_trans [OF m2(2) m3(2)]] by simp
  note l = twi_go_line [OF go]
  show ?thesis
    by (rule that [OF m1(1) m2(1) m3(1) go]) (use p(3,4) assms(1) twi_go_quiet [OF go] in \<open>auto simp: l ee_idle_def\<close>)
qed

lemma ee_wait:
  assumes "eeprom_chip c" "twi_quiet fd p c m" "\<not> claimed (twi_line fd p c m)"
  obtains m' where "twi_write_wait m = Some m'" "ee_idle fd p c m'" "stored fd p c m' = stored fd p c m"
    "only_locs twi_locs m m'"
proof -
  let ?L = "twi_line fd p c" and ?S = "[Tw_start, Tw_byte 0xa0 True, Tw_stop]"
  obtain n where n: "\<not> ee_busy c (?L m @ concat (replicate n ?S))"
    using assms(1,3) by (auto simp: eeprom_chip_def ee_polls_def)
  have i: "TWI_FLASH_ID = 0xa0" by (simp add: TWI_FLASH_ID_def)
  have "\<exists>m'. twi_write_wait m = Some m' \<and> ee_idle fd p c m' \<and> stored fd p c m' = stored fd p c m
      \<and> only_locs twi_locs m m'"
    using assms(2,3) n
  proof (induction n arbitrary: m)
    case (0 m)
    from go_call [OF assms(1) 0(1,2)] obtain m1 m2 m3 x where m3: "neorv32_twi_generate_start m = Some m1"
      "neorv32_twi_transfer 0xa0 0 m1 = Some ((if ee_busy c (?L m) then 1 else 0, x), m2)"
      "neorv32_twi_generate_stop m2 = Some m3" "stored fd p c m3 = stored fd p c m"
      "twi_go fd p c m m3 [Tw_start, Tw_byte 0xa0 (ee_busy c (?L m)), Tw_stop]"
      "\<not> ee_busy c (?L m) \<Longrightarrow> ee_idle fd p c m3" by metis
    from 0(3) have nb: "\<not> ee_busy c (?L m)" by simp
    show ?case
      using m3 nb unfolding twi_go_def by (subst twi_write_wait.simps) (simp add: i)
  next
    case (Suc n m)
    from go_call [OF assms(1) Suc.prems(1,2)] obtain m1 m2 m3 x where m3: "neorv32_twi_generate_start m = Some m1"
      "neorv32_twi_transfer 0xa0 0 m1 = Some ((if ee_busy c (?L m) then 1 else 0, x), m2)"
      "neorv32_twi_generate_stop m2 = Some m3" "stored fd p c m3 = stored fd p c m"
      "twi_go fd p c m m3 [Tw_start, Tw_byte 0xa0 (ee_busy c (?L m)), Tw_stop]" "\<not> claimed (?L m3)"
      "\<not> ee_busy c (?L m) \<Longrightarrow> ee_idle fd p c m3" by metis
    show ?case
    proof (cases "ee_busy c (?L m)")
      case True
      have "\<not> ee_busy c (?L m3 @ concat (replicate n ?S))"
        using Suc.prems(3) True by (simp add: twi_go_line [OF m3(5)])
      from Suc.IH [OF twi_go_quiet [OF m3(5)] m3(6) this] obtain m' where
        m': "twi_write_wait m3 = Some m'" "ee_idle fd p c m'" "stored fd p c m' = stored fd p c m3"
        "only_locs twi_locs m3 m'" by blast
      have "twi_write_wait m = Some m'"
        using m3(1-3) m'(1) True by (subst twi_write_wait.simps) (simp add: i)
      with m' m3(4,5) show ?thesis by (auto simp: twi_go_def intro: only_locs_trans)
    next
      case False
      then show ?thesis using m3 unfolding twi_go_def by (subst twi_write_wait.simps) (simp add: i)
    qed
  qed
  then show ?thesis using that by blast
qed

text \<open>Device and address.\<close>

lemma ee_select:
  assumes "ee_idle fd p c m"
  obtains m' where "twi_select a m = Some (0, m')" "twi_go fd p c m m' (ee_called a)"
proof -
  let ?H = "twi_line fd p c m"
  have i: "twi_quiet fd p c m" "\<not> claimed ?H" "\<not> ee_busy c ?H" "ee_polls c" "ee_addressed c"
    using assms by (simp_all add: ee_idle_def eeprom_chip_def)
  obtain m1 where m1: "neorv32_twi_generate_start m = Some m1" "twi_go fd p c m m1 [Tw_start]"
    using go_start [OF i(1)] .
  have "takes c (twi_line fd p c m1) 0xa0"
    unfolding twi_go_line [OF m1(2)] using i by (simp add: takes_def ee_polls_def)
  from go_taken [OF twi_go_quiet [OF m1(2)] this] obtain m2 where
    m2: "neorv32_twi_transfer 0xa0 0 m1 = Some ((0, 0xa0), m2)" "twi_go fd p c m1 m2 [Tw_byte 0xa0 False]" .
  have go2: "twi_go fd p c m m2 [Tw_start, Tw_byte 0xa0 False]" using twi_go_trans [OF m1(2) m2(2)] by simp
  have "takes c (twi_line fd p c m2) (byte32 a 1)"
    unfolding twi_go_line [OF go2] using i by (simp add: ee_addressed_def)
  from go_taken [OF twi_go_quiet [OF m2(2)] this] obtain m3 where
    m3: "neorv32_twi_transfer (byte32 a 1) 0 m2 = Some ((0, byte32 a 1), m3)"
      "twi_go fd p c m2 m3 [Tw_byte (byte32 a 1) False]" .
  have go3: "twi_go fd p c m m3 [Tw_start, Tw_byte 0xa0 False, Tw_byte (byte32 a 1) False]"
    using twi_go_trans [OF go2 m3(2)] by simp
  have "takes c (twi_line fd p c m3) (byte32 a 0)"
    unfolding twi_go_line [OF go3] using i by (simp add: ee_addressed_def)
  from go_taken [OF twi_go_quiet [OF m3(2)] this] obtain m4 where
    m4: "neorv32_twi_transfer (byte32 a 0) 0 m3 = Some ((0, byte32 a 0), m4)"
      "twi_go fd p c m3 m4 [Tw_byte (byte32 a 0) False]" .
  show ?thesis
  proof (rule that)
    show "twi_select a m = Some (0, m4)"
      using m3(1) by (simp add: twi_select_def m1(1) m2(1) m4(1) TWI_FLASH_ID_def)
    show "twi_go fd p c m m4 (ee_called a)" using twi_go_trans [OF go3 m4(2)] by (simp add: ee_called_def)
  qed
qed

lemma ee_get_byte:
  assumes "ee_idle fd p c m" "unat a < 2 ^ 16"
  obtains m' where "twi_transfer_byte False d a m = Some ((0, stored fd p c m a), m')" "ee_idle fd p c m'"
    "stored fd p c m' = stored fd p c m" "only_locs twi_locs m m'"
proof -
  let ?H = "twi_line fd p c m" and ?L = "twi_line fd p c"
  have i: "\<not> claimed ?H" "\<not> ee_busy c ?H" "ee_reads c" "eeprom_chip c"
    using assms(1) by (simp_all add: ee_idle_def eeprom_chip_def)
  let ?S = "?H @ ee_called a @ [Tw_start]" and ?x = "ee_mem c ?H a"
  have r: "takes c ?S 0xa1" "drives c (?S @ [Tw_byte 0xa1 False]) = ?x" "nacks c (?S @ [Tw_byte 0xa1 False]) ?x"
    "ee_mem c (?S @ [Tw_byte 0xa1 False, Tw_byte ?x True, Tw_stop]) = ee_mem c ?H"
    "\<not> ee_busy c (?S @ [Tw_byte 0xa1 False, Tw_byte ?x True, Tw_stop])"
    using i assms(2) by (simp_all add: ee_reads_def)
  obtain m1 where m1: "twi_select a m = Some (0, m1)" "twi_go fd p c m m1 (ee_called a)"
    using ee_select [OF assms(1)] .
  obtain m2 where m2: "neorv32_twi_generate_start m1 = Some m2" "twi_go fd p c m1 m2 [Tw_start]"
    using go_start [OF twi_go_quiet [OF m1(2)]] .
  have go2: "twi_go fd p c m m2 (ee_called a @ [Tw_start])" using twi_go_trans [OF m1(2) m2(2)] .
  have "takes c (?L m2) 0xa1" unfolding twi_go_line [OF go2] by (rule r(1))
  from go_taken [OF twi_go_quiet [OF m2(2)] this] obtain m3 where
    m3: "neorv32_twi_transfer 0xa1 0 m2 = Some ((0, 0xa1), m3)" "twi_go fd p c m2 m3 [Tw_byte 0xa1 False]" .
  have go3: "twi_go fd p c m m3 (ee_called a @ [Tw_start, Tw_byte 0xa1 False])"
    using twi_go_trans [OF go2 m3(2)] by simp
  have l3: "?L m3 = ?S @ [Tw_byte 0xa1 False]" using twi_go_line [OF go3] by simp
  have "(0xff :: u8) AND ?x = ?x"
  proof -
    have "(0xff :: u8) = mask 8" by (simp add: mask_eq_exp_minus_1)
    then show ?thesis by (simp only: bit_eq_iff) (auto simp: bit_simps)
  qed
  then have w: "on_wire c (?L m3) 0xff = ?x" "ack_level c 0 (?L m3) 0xff"
    unfolding l3 using r(2,3) by (simp_all add: on_wire_def ack_level_def)
  obtain m4 where m4: "neorv32_twi_transfer 0xff 0 m3 = Some ((1, ?x), m4)" "twi_go fd p c m3 m4 [Tw_byte ?x True]"
    using go_byte [OF twi_go_quiet [OF m3(2)], of "0xff" 0] w by auto
  obtain m5 where m5: "neorv32_twi_generate_stop m4 = Some m5" "twi_go fd p c m4 m5 [Tw_stop]"
    using go_stop [OF twi_go_quiet [OF m4(2)]] .
  have go5: "twi_go fd p c m m5 (ee_called a @ [Tw_start, Tw_byte 0xa1 False, Tw_byte ?x True, Tw_stop])"
    using twi_go_trans [OF go3 twi_go_trans [OF m4(2) m5(2)]] by simp
  have l5: "?L m5 = ?S @ [Tw_byte 0xa1 False, Tw_byte ?x True, Tw_stop]" using twi_go_line [OF go5] by simp
  have id: "TWI_FLASH_ID OR 1 = 0xa1" by (simp add: TWI_FLASH_ID_def)
  show ?thesis
  proof (rule that)
    show "twi_transfer_byte False d a m = Some ((0, ?x), m5)"
      unfolding twi_transfer_byte_def id by (simp add: m1(1) m2(1) m3(1) m4(1) m5(1))
    show "ee_idle fd p c m5"
      using twi_go_quiet [OF go5] r(5) i(4) by (simp add: ee_idle_def l5 claimed_def)
    show "stored fd p c m5 = stored fd p c m" unfolding l5 by (rule r(4))
    show "only_locs twi_locs m m5" using go5 by (simp add: twi_go_def)
  qed
qed

lemma ee_put_byte:
  assumes "ee_idle fd p c m" "unat a < 2 ^ 16"
  obtains m' where "twi_transfer_byte True d a m = Some ((0, d), m')" "ee_idle fd p c m'"
    "stored fd p c m' = (stored fd p c m)(a := d)" "only_locs twi_locs m m'"
proof -
  let ?H = "twi_line fd p c m" and ?L = "twi_line fd p c"
  have i: "\<not> claimed ?H" "\<not> ee_busy c ?H" "ee_writes c" "eeprom_chip c"
    using assms(1) by (simp_all add: ee_idle_def eeprom_chip_def)
  have w: "takes c (?H @ ee_called a) d"
    "ee_mem c (?H @ ee_called a @ [Tw_byte d False, Tw_stop]) = (ee_mem c ?H)(a := d)"
    using i assms(2) by (simp_all add: ee_writes_def)
  obtain m1 where m1: "twi_select a m = Some (0, m1)" "twi_go fd p c m m1 (ee_called a)"
    using ee_select [OF assms(1)] .
  have "takes c (?L m1) d" unfolding twi_go_line [OF m1(2)] by (rule w(1))
  from go_taken [OF twi_go_quiet [OF m1(2)] this] obtain m2 where
    m2: "neorv32_twi_transfer d 0 m1 = Some ((0, d), m2)" "twi_go fd p c m1 m2 [Tw_byte d False]" .
  obtain m3 where m3: "neorv32_twi_generate_stop m2 = Some m3" "twi_go fd p c m2 m3 [Tw_stop]"
    using go_stop [OF twi_go_quiet [OF m2(2)]] .
  have go3: "twi_go fd p c m m3 (ee_called a @ [Tw_byte d False, Tw_stop])"
    using twi_go_trans [OF m1(2) twi_go_trans [OF m2(2) m3(2)]] by simp
  have l3: "?L m3 = ?H @ ee_called a @ [Tw_byte d False, Tw_stop]" by (rule twi_go_line [OF go3])
  have "\<not> claimed (?L m3)" by (simp add: l3 claimed_def)
  from ee_wait [OF i(4) twi_go_quiet [OF m3(2)] this] obtain m4 where
    m4: "twi_write_wait m3 = Some m4" "ee_idle fd p c m4" "stored fd p c m4 = stored fd p c m3"
      "only_locs twi_locs m3 m4" .
  show ?thesis
  proof (rule that [OF _ m4(2)])
    show "twi_transfer_byte True d a m = Some ((0, d), m4)"
      unfolding twi_transfer_byte_def by (simp add: m1(1) m2(1) m3(1) m4(1))
    show "stored fd p c m4 = (stored fd p c m)(a := d)" unfolding m4(3) l3 by (rule w(2))
    show "only_locs twi_locs m m4" using go3 m4(4) by (auto simp: twi_go_def intro: only_locs_trans)
  qed
qed

section \<open>Words\<close>

text \<open>The word in four bytes of the chip, and a word put there.\<close>

definition ee_cell :: "(u32 \<Rightarrow> u8) \<Rightarrow> u32 \<Rightarrow> u32" where
  "ee_cell f a = join32 (f a) (f (a + 1)) (f (a + 2)) (f (a + 3))"

definition ee_put :: "u32 \<Rightarrow> u32 \<Rightarrow> (u32 \<Rightarrow> u8) \<Rightarrow> u32 \<Rightarrow> u8" where
  "ee_put a w f = f(a := byte32 w 0, a + 1 := byte32 w 1, a + 2 := byte32 w 2, a + 3 := byte32 w 3)"

lemma ee_get_bytes:
  assumes "ee_idle fd p c (cpu b)" "unat (g_flash_addr b) + n \<le> 2 ^ 16"
  shows "\<exists>m'. twi_get_bytes n b = Some ((0, map (\<lambda>i. stored fd p c (cpu b) (g_flash_addr b + of_nat i)) [0..<n]),
      b\<lparr>cpu := m', g_flash_addr := g_flash_addr b + of_nat n\<rparr>)
    \<and> ee_idle fd p c m' \<and> stored fd p c m' = stored fd p c (cpu b) \<and> only_locs twi_locs (cpu b) m'"
  using assms
proof (induction n arbitrary: b)
  case (Suc n)
  have "unat (g_flash_addr b) < 2 ^ 16" using Suc.prems(2) by simp
  from ee_get_byte [OF Suc.prems(1) this, of 0] obtain m1 where
    m1: "twi_transfer_byte False 0 (g_flash_addr b) (cpu b) = Some ((0, stored fd p c (cpu b) (g_flash_addr b)), m1)"
      "ee_idle fd p c m1" "stored fd p c m1 = stored fd p c (cpu b)" "only_locs twi_locs (cpu b) m1" .
  let ?b = "b\<lparr>cpu := m1, g_flash_addr := g_flash_addr b + 1\<rparr>"
  have "unat (g_flash_addr ?b) + n \<le> 2 ^ 16"
    using Suc.prems(2) unatSuc [of "g_flash_addr b"] by (cases "1 + g_flash_addr b = 0") (simp_all add: add.commute)
  with Suc.IH [of ?b] m1(2) obtain m' where
    m': "twi_get_bytes n ?b = Some ((0, map (\<lambda>i. stored fd p c m1 (g_flash_addr b + 1 + of_nat i)) [0..<n]),
        ?b\<lparr>cpu := m', g_flash_addr := g_flash_addr b + 1 + of_nat n\<rparr>)"
      "ee_idle fd p c m'" "stored fd p c m' = stored fd p c m1" "only_locs twi_locs m1 m'" by auto
  have l: "map (\<lambda>i. f (a + of_nat i)) [0..<Suc n] = f a # map (\<lambda>i. f (a + 1 + of_nat i)) [0..<n]" for f :: "u32 \<Rightarrow> u8" and a
    by (simp only: map_upt_Suc) (simp add: add.assoc)
  have "twi_get_bytes (Suc n) b = Some ((0, map (\<lambda>i. stored fd p c (cpu b) (g_flash_addr b + of_nat i)) [0..<Suc n]),
      b\<lparr>cpu := m', g_flash_addr := g_flash_addr b + of_nat (Suc n)\<rparr>)"
    unfolding l using m1(1,3) m'(1) by (simp add: add.assoc)
  moreover have "stored fd p c m' = stored fd p c (cpu b)" using m'(3) m1(3) by simp
  ultimately show ?case using m'(2) only_locs_trans [OF m1(4) m'(4)] by blast
qed (auto intro!: exI [of _ "cpu _"] only_locs_refl)

lemma ee_get_word:
  assumes "ee_idle fd p c (cpu b)" "unat (g_flash_addr b) + 4 \<le> 2 ^ 16"
  shows "\<exists>m'. twi_flash_stream_get b = Some ((0, ee_cell (stored fd p c (cpu b)) (g_flash_addr b)),
      b\<lparr>cpu := m', g_flash_addr := g_flash_addr b + 4\<rparr>)
    \<and> ee_idle fd p c m' \<and> stored fd p c m' = stored fd p c (cpu b) \<and> only_locs twi_locs (cpu b) m'"
proof -
  from ee_get_bytes [OF assms] obtain m' where
    m': "twi_get_bytes 4 b = Some ((0, map (\<lambda>i. stored fd p c (cpu b) (g_flash_addr b + of_nat i)) [0..<4]),
        b\<lparr>cpu := m', g_flash_addr := g_flash_addr b + of_nat 4\<rparr>)"
      "ee_idle fd p c m'" "stored fd p c m' = stored fd p c (cpu b)" "only_locs twi_locs (cpu b) m'" by blast
  then show ?thesis unfolding twi_flash_stream_get_def ee_cell_def by (intro exI [of _ m']) simp
qed

lemma ee_put_bytes:
  assumes "ee_idle fd p c (cpu b)" "unat (g_flash_addr b) + List.length ds \<le> 2 ^ 16"
  shows "\<exists>m'. twi_put_bytes ds b = Some (0, b\<lparr>cpu := m', g_flash_addr := g_flash_addr b + of_nat (List.length ds)\<rparr>)
    \<and> ee_idle fd p c m' \<and> only_locs twi_locs (cpu b) m'
    \<and> stored fd p c m' = fold (\<lambda>i f. f(g_flash_addr b + of_nat i := ds ! i)) [0..<List.length ds] (stored fd p c (cpu b))"
  using assms
proof (induction ds arbitrary: b)
  case (Cons d ds)
  have "unat (g_flash_addr b) < 2 ^ 16" using Cons.prems(2) by simp
  from ee_put_byte [OF Cons.prems(1) this, of d] obtain m1 where
    m1: "twi_transfer_byte True d (g_flash_addr b) (cpu b) = Some ((0, d), m1)"
      "ee_idle fd p c m1" "stored fd p c m1 = (stored fd p c (cpu b))(g_flash_addr b := d)" "only_locs twi_locs (cpu b) m1" .
  let ?b = "b\<lparr>cpu := m1, g_flash_addr := g_flash_addr b + 1\<rparr>"
  have "unat (g_flash_addr ?b) + List.length ds \<le> 2 ^ 16"
    using Cons.prems(2) unatSuc [of "g_flash_addr b"] by (cases "1 + g_flash_addr b = 0") (simp_all add: add.commute)
  moreover have "ee_idle fd p c (cpu ?b)" using m1(2) by simp
  ultimately obtain m' where r:
    "twi_put_bytes ds ?b = Some (0, ?b\<lparr>cpu := m', g_flash_addr := g_flash_addr ?b + of_nat (List.length ds)\<rparr>)"
    "ee_idle fd p c m'" "only_locs twi_locs (cpu ?b) m'"
    "stored fd p c m' = fold (\<lambda>i f. f(g_flash_addr ?b + of_nat i := ds ! i)) [0..<List.length ds] (stored fd p c (cpu ?b))"
    using Cons.IH [of ?b] by blast
  have sel: "g_flash_addr ?b = g_flash_addr b + 1" "cpu ?b = m1" by simp_all
  note m' = r [unfolded sel]
  have l: "[0..<List.length (d # ds)] = 0 # map Suc [0..<List.length ds]" by (simp only: upt_conv_Cons map_Suc_upt list.size) simp
  have "stored fd p c m' = fold (\<lambda>i f. f(g_flash_addr b + of_nat i := (d # ds) ! i)) [0..<List.length (d # ds)] (stored fd p c (cpu b))"
    unfolding l m'(4) m1(3) by (simp add: fold_map o_def add.assoc)
  moreover have "twi_put_bytes (d # ds) b = Some (0, b\<lparr>cpu := m', g_flash_addr := g_flash_addr b + of_nat (List.length (d # ds))\<rparr>)"
    using m1(1) m'(1) by (simp add: add.assoc)
  ultimately show ?case using m'(2) only_locs_trans [OF m1(4) m'(3)] by blast
qed (auto intro!: exI [of _ "cpu _"] only_locs_refl)

lemma ee_put_word:
  assumes "ee_idle fd p c (cpu b)" "unat (g_flash_addr b) + 4 \<le> 2 ^ 16"
  shows "\<exists>m'. twi_flash_stream_put w b = Some (0, b\<lparr>cpu := m', g_flash_addr := g_flash_addr b + 4\<rparr>)
    \<and> ee_idle fd p c m' \<and> only_locs twi_locs (cpu b) m'
    \<and> stored fd p c m' = ee_put (g_flash_addr b) w (stored fd p c (cpu b))"
proof -
  have len: "List.length (bytes32 w) = 4" by simp
  from ee_put_bytes [OF assms(1), of "bytes32 w"] assms(2) obtain m' where
    m': "twi_put_bytes (bytes32 w) b = Some (0, b\<lparr>cpu := m', g_flash_addr := g_flash_addr b + of_nat 4\<rparr>)"
      "ee_idle fd p c m'" "only_locs twi_locs (cpu b) m'"
      "stored fd p c m' = fold (\<lambda>i f. f(g_flash_addr b + of_nat i := bytes32 w ! i)) [0..<4] (stored fd p c (cpu b))"
    unfolding len by blast
  have u: "[0..<4] = [0, 1, 2, 3 :: nat]" by (simp add: upt_rec)
  have "stored fd p c m' = ee_put (g_flash_addr b) w (stored fd p c (cpu b))"
    unfolding m'(4) u by (simp add: bytes32_eq ee_put_def)
  then show ?thesis using m' by (intro exI [of _ m']) (simp add: twi_flash_stream_put_def)
qed

section \<open>Setting the chip up\<close>

definition ee_ready :: "nat \<Rightarrow> nat \<Rightarrow> eeprom \<Rightarrow> mach \<Rightarrow> bool" where
  "ee_ready fd p c m \<longleftrightarrow> eeprom_chip c \<and> twi_wired fd p c m
     \<and> t_tx (twi_at fd p c m) = [] \<and> t_eng (twi_at fd p c m) = None
     \<and> \<not> claimed (twi_line fd p c m) \<and> \<not> ee_busy c (twi_line fd p c m)"

lemma ee_idle_ready: "ee_idle fd p c m \<Longrightarrow> ee_ready fd p c m"
  by (simp add: ee_idle_def ee_ready_def twi_quiet_def Let_def)

lemma soc_twi_distinct [simp]: "SYSINFO_SOC \<noteq> TWI_CTRL" "SYSINFO_SOC \<noteq> TWI_DCMD"
  "TWI_CTRL \<noteq> SYSINFO_SOC" "TWI_DCMD \<noteq> SYSINFO_SOC"
  by (simp_all add: twi_regs SYSINFO_SOC_def NEORV32_SYSINFO_BASE_def)

text \<open>The set-up switches the controller off and on again; an unused bus does not notice.\<close>

lemma twi_setup_quiet:
  assumes "ee_ready fd p c m"
  shows "twi_quiet fd p c (neorv32_twi_setup x y 0 m)"
    "twi_line fd p c (neorv32_twi_setup x y 0 m) = twi_line fd p c m"
    "only_locs twi_locs m (neorv32_twi_setup x y 0 m)"
proof -
  let ?d = "twi_at fd p c m"
  obtain w where w: "neorv32_twi_setup x y 0 m = wr TWI_CTRL w (wr TWI_CTRL 0 m)" "bit w 0"
    by (simp add: neorv32_twi_setup_def Let_def bit_or_iff)
  have s1: "twi_at fd p c (wr TWI_CTRL 0 m) = ?d\<lparr>t_ctrl := 0, t_tx := [], t_rx := [], t_eng := None\<rparr>"
    using assms by (cases ?d) (simp add: wr_def twi_bus_def twi_cycle_def t_en_def ee_ready_def twi_line_def)
  have "bit (w AND 0x1ff) 0" using w(2) by (simp add: bit_and_iff)
  then have s2: "twi_at fd p c (wr TWI_CTRL w (wr TWI_CTRL 0 m))
      = ?d\<lparr>t_ctrl := w AND 0x1ff, t_tx := [], t_rx := [], t_eng := None\<rparr>"
    using s1 by (simp add: wr_def twi_bus_def twi_cycle_quiet t_en_def)
  show "twi_quiet fd p c (neorv32_twi_setup x y 0 m)"
    "twi_line fd p c (neorv32_twi_setup x y 0 m) = twi_line fd p c m"
    using s2 \<open>bit (w AND 0x1ff) 0\<close> assms unfolding w(1)
    by (simp_all add: twi_quiet_def twi_line_def t_en_def ee_ready_def twi_wired_def)
  show "only_locs twi_locs m (neorv32_twi_setup x y 0 m)"
    unfolding w(1) by (rule only_locs_trans [OF only_locs_wr only_locs_wr]) (simp_all add: twi_locs_def)
qed

lemma ee_setup:
  assumes "ee_ready fd p c (cpu b)" "\<forall>h. bit (hw (cpu b) h SYSINFO_SOC) (sysinfo_soc SYSINFO_SOC_IO_TWI)"
  shows "\<exists>m'. twi_flash_setup b = Some (0, b\<lparr>cpu := m', g_flash_addr := TWI_FLASH_BASE_ADDR\<rparr>)
    \<and> ee_idle fd p c m' \<and> stored fd p c m' = stored fd p c (cpu b)
    \<and> only_locs (insert SYSINFO_SOC twi_locs) (cpu b) m'"
proof -
  let ?m0 = "snd (rd SYSINFO_SOC (cpu b))"
  let ?m1 = "neorv32_twi_setup TWI_FLASH_CLK_PRSC TWI_FLASH_CLK_DIV 0 ?m0"
  obtain a where av: "neorv32_twi_available (cpu b) = (a, ?m0)" "a \<noteq> 0"
    using assms(2) by (simp add: neorv32_twi_available_def soc_test_def rd_def rd_val_def)
  have s0: "twi_at fd p c ?m0 = (if t_en (twi_at fd p c (cpu b)) then twi_at fd p c (cpu b)
      else twi_at fd p c (cpu b)\<lparr>t_rx := []\<rparr>)"
    using assms(1) by (cases "twi_at fd p c (cpu b)")
      (simp add: rd_def twi_bus_def twi_cycle_quiet ee_ready_def twi_line_def twi_cycle_def twi_complete_def Let_def)
  have r0: "ee_ready fd p c ?m0" "twi_line fd p c ?m0 = twi_line fd p c (cpu b)"
    using assms(1) s0 by (simp_all add: ee_ready_def twi_line_def twi_wired_def)
  note q = twi_setup_quiet [OF r0(1), of TWI_FLASH_CLK_PRSC TWI_FLASH_CLK_DIV]
  have i1: "eeprom_chip c" "\<not> claimed (twi_line fd p c ?m1)" "\<not> ee_busy c (twi_line fd p c ?m1)"
    "stored fd p c ?m1 = stored fd p c (cpu b)"
    using r0 q(2) by (simp_all add: ee_ready_def)
  let ?H = "twi_line fd p c ?m1"
  from go_call [OF i1(1) q(1) i1(2)] obtain m2 m3 m4 y where r: "neorv32_twi_generate_start ?m1 = Some m2"
    "neorv32_twi_transfer 0xa0 0 m2 = Some ((if ee_busy c ?H then 1 else 0, y), m3)"
    "neorv32_twi_generate_stop m3 = Some m4" "twi_go fd p c ?m1 m4 [Tw_start, Tw_byte 0xa0 (ee_busy c ?H), Tw_stop]"
    "stored fd p c m4 = stored fd p c ?m1" "\<not> ee_busy c ?H \<Longrightarrow> ee_idle fd p c m4" by metis
  have m4: "neorv32_twi_generate_start ?m1 = Some m2" "neorv32_twi_transfer 0xa0 0 m2 = Some ((0, y), m3)"
    "neorv32_twi_generate_stop m3 = Some m4" "twi_go fd p c ?m1 m4 [Tw_start, Tw_byte 0xa0 False, Tw_stop]"
    "stored fd p c m4 = stored fd p c ?m1" "ee_idle fd p c m4" using r i1(3) by simp_all
  have "twi_flash_setup b = Some (0, b\<lparr>cpu := m4, g_flash_addr := TWI_FLASH_BASE_ADDR\<rparr>)"
    by (simp add: twi_flash_setup_def av m4(1-3) TWI_FLASH_ID_def)
  moreover have "only_locs (insert SYSINFO_SOC twi_locs) (cpu b) m4"
  proof -
    have "only_locs twi_locs ?m0 m4" using q(3) m4(4) by (auto simp: twi_go_def intro: only_locs_trans)
    then have "only_locs (insert SYSINFO_SOC twi_locs) ?m0 m4" by (rule only_locs_mono) blast
    moreover have "only_locs (insert SYSINFO_SOC twi_locs) (cpu b) ?m0" by (rule only_locs_rd) simp
    ultimately show ?thesis using only_locs_trans by blast
  qed
  ultimately show ?thesis using m4(5,6) i1(4) by auto
qed

lemma ee_foreign:
  assumes "only_locs L m m'" "L \<inter> twi_locs = {}" "ee_idle fd p c m"
  shows "ee_idle fd p c m'" "stored fd p c m' = stored fd p c m"
  using twi_quiet_foreign [OF assms(1,2), of fd p c] assms(3) by (simp_all add: ee_idle_def)

section \<open>No answer\<close>

text \<open>When the device does not answer the call, the transfer fails at once, with the bus still in use: the
abort does not generate a stop condition.\<close>

lemma no_answer_keeps_bus:
  assumes "twi_quiet fd p c m" "nacks c (twi_line fd p c m @ [Tw_start]) 0xa0" "drives c (twi_line fd p c m @ [Tw_start]) = 0xff"
  obtains m' where "twi_transfer_byte write d a m = Some ((1, d), m')"
    "twi_go fd p c m m' [Tw_start, Tw_byte 0xa0 True]" "claimed (twi_line fd p c m')"
proof -
  let ?H = "twi_line fd p c m"
  obtain m1 where m1: "neorv32_twi_generate_start m = Some m1" "twi_go fd p c m m1 [Tw_start]"
    using go_start [OF assms(1)] .
  have l1: "twi_line fd p c m1 = ?H @ [Tw_start]" by (rule twi_go_line [OF m1(2)])
  have w: "on_wire c (?H @ [Tw_start]) 0xa0 = 0xa0" "ack_level c 0 (?H @ [Tw_start]) 0xa0"
    using assms(2,3) by (simp_all add: on_wire_def ack_level_def)
  obtain m2 where m2: "neorv32_twi_transfer 0xa0 0 m1 = Some ((1, 0xa0), m2)"
    "twi_go fd p c m1 m2 [Tw_byte 0xa0 True]"
    using go_byte [OF twi_go_quiet [OF m1(2)], of "0xa0" 0] w unfolding l1 by auto
  have go: "twi_go fd p c m m2 [Tw_start, Tw_byte 0xa0 True]" using twi_go_trans [OF m1(2) m2(2)] by simp
  show ?thesis
  proof (rule that [OF _ go])
    show "twi_transfer_byte write d a m = Some ((1, d), m2)"
      by (simp add: twi_transfer_byte_def twi_select_def m1(1) m2(1) TWI_FLASH_ID_def)
    show "claimed (twi_line fd p c m2)" unfolding twi_go_line [OF go] by (simp add: claimed_def)
  qed
qed

end
