(* ===== verification/Twi_Medium.thy ===== *)
theory Twi_Medium
  imports Twi_Flash Boot_Medium
begin

text \<open>
  The TWI flash as a medium of \<open>Boot_Medium\<close>, and a serial EEPROM that keeps the contract \<open>eeprom_chip\<close>, as
  an executable machine over the events of the bus, to which the properties of the driver are applied.
\<close>

section \<open>The medium\<close>

definition ee_there :: "mach \<Rightarrow> bool" where
  "ee_there m \<longleftrightarrow> (\<forall>h. bit (hw m h SYSINFO_SOC) (sysinfo_soc SYSINFO_SOC_IO_TWI))"

lemma ee_there_only: "only_locs L m m' \<Longrightarrow> ee_there m \<Longrightarrow> ee_there m'"
  by (auto simp: ee_there_def only_locs_def)

text \<open>Image and header in 64 kB.\<close>

definition ee_fits :: "u32 \<Rightarrow> bool" where
  "ee_fits sz \<longleftrightarrow> unat sz \<le> 0xfff0"

definition ee_words :: "(u32 \<Rightarrow> u8) \<Rightarrow> nat \<Rightarrow> u32" where
  "ee_words f k = (if k < 0x4000 then ee_cell f (of_nat (4 * k)) else 0)"

lemma unat_ee_addr: "k < 0x4000 \<Longrightarrow> i < 4 \<Longrightarrow> unat (of_nat (4 * k) + of_nat i :: u32) = 4 * k + i"
proof -
  assume "k < 0x4000" "i < 4"
  then have "unat (of_nat (4 * k + i) :: u32) = 4 * k + i" by (intro unat_of_nat_small) simp
  then show ?thesis by (simp only: of_nat_add)
qed

lemma ee_words_put:
  assumes "k < 0x4000"
  shows "ee_words (ee_put (of_nat (4 * k)) w f) = (ee_words f)(k := w)"
proof
  fix j
  show "ee_words (ee_put (of_nat (4 * k)) w f) j = ((ee_words f)(k := w)) j"
  proof (cases "j < 0x4000")
    case True
    have ne: "(of_nat (4 * j) + of_nat i :: u32) = of_nat (4 * k) + of_nat l \<longleftrightarrow> j = k \<and> i = l" if "i < 4" "l < 4" for i l
    proof
      assume "(of_nat (4 * j) + of_nat i :: u32) = of_nat (4 * k) + of_nat l"
      then have "unat (of_nat (4 * j) + of_nat i :: u32) = unat (of_nat (4 * k) + of_nat l :: u32)" by simp
      with True assms that have "4 * j + i = 4 * k + l" by (simp only: unat_ee_addr)
      with that show "j = k \<and> i = l" by presburger
    qed simp
    have at: "ee_put (of_nat (4 * k)) w f (of_nat (4 * j) + of_nat i)
        = (if j = k then byte32 w i else f (of_nat (4 * j) + of_nat i))" if "i < 4" for i
    proof -
      have "ee_put (of_nat (4 * k)) w f = f(of_nat (4 * k) + of_nat 0 := byte32 w 0, of_nat (4 * k) + of_nat 1 := byte32 w 1,
          of_nat (4 * k) + of_nat 2 := byte32 w 2, of_nat (4 * k) + of_nat 3 := byte32 w 3)"
        by (simp add: ee_put_def)
      moreover have "i = 0 \<or> i = 1 \<or> i = 2 \<or> i = 3" using that by auto
      ultimately show ?thesis using ne [OF that, of 0] ne [OF that, of 1] ne [OF that, of 2] ne [OF that, of 3]
        by (simp only: fun_upd_apply) auto
    qed
    have c: "ee_cell g (of_nat (4 * j)) = join32 (g (of_nat (4 * j) + of_nat 0)) (g (of_nat (4 * j) + of_nat 1))
        (g (of_nat (4 * j) + of_nat 2)) (g (of_nat (4 * j) + of_nat 3))" for g :: "u32 \<Rightarrow> u8"
      by (simp add: ee_cell_def)
    show ?thesis using True assms join32_byte32 [of w] by (simp only: fun_upd_apply ee_words_def c at) simp
  qed (use assms in \<open>simp add: ee_words_def\<close>)
qed

lemma twi_console_apart: "console_locs \<inter> twi_locs = {}"
  by (simp add: console_locs_def twi_locs_def UART0_def UART_CTRL_def UART_DATA_def
      NEORV32_UART0_BASE_def twi_regs SYSINFO_SOC_def NEORV32_SYSINFO_BASE_def)

lemma twi_words: "word_locs twi_locs"
  by (auto simp: word_locs_def twi_locs_def twi_regs)

interpretation twi_medium: word_medium "\<lambda>m. ee_ready fd p c m \<and> ee_there m" "\<lambda>m. ee_idle fd p c m \<and> ee_there m"
    "\<lambda>m. ee_words (stored fd p c m)" "\<lambda>m k. k < 0x4000" TWI_FLASH_BASE_ADDR "0x4000" ee_fits
    twi_locs twi_flash_setup twi_flash_erase twi_flash_stream_get twi_flash_stream_put
proof
  fix b
  show "\<exists>m'. twi_flash_setup b = Some (0, b\<lparr>cpu := m', g_flash_addr := TWI_FLASH_BASE_ADDR\<rparr>)
      \<and> (ee_idle fd p c m' \<and> ee_there m') \<and> ee_words (stored fd p c m') = ee_words (stored fd p c (cpu b))
      \<and> only_locs (insert SYSINFO_SOC twi_locs) (cpu b) m'" if "ee_ready fd p c (cpu b) \<and> ee_there (cpu b)"
    using ee_setup [of fd p c b] that ee_there_only by (auto simp: ee_there_def)
  have cap: "words_of sz + 4 \<le> 0x4000" if "ee_fits sz" for sz
    using that by (auto simp: ee_fits_def words_of_def)
  then show "words_of sz + 4 \<le> 0x4000" if "ee_fits sz" for sz using that by blast
  show "\<exists>m'. twi_flash_erase b = Some (0, b\<lparr>cpu := m'\<rparr>) \<and> (ee_idle fd p c m' \<and> ee_there m')
      \<and> only_locs twi_locs (cpu b) m' \<and> (\<forall>k < words_of (g_exe_size b) + 4. k < 0x4000)"
    if "ee_idle fd p c (cpu b) \<and> ee_there (cpu b)" "ee_fits (g_exe_size b)"
    using that(1) cap [OF that(2)] by (intro exI [of _ "cpu b"]) (auto simp: twi_flash_erase_def)
  {
    fix k assume i: "ee_idle fd p c (cpu b) \<and> ee_there (cpu b)"
      "g_flash_addr b = TWI_FLASH_BASE_ADDR + of_nat (4 * k)" "k < 0x4000"
    have a: "g_flash_addr b = of_nat (4 * k)" using i(2) by (simp add: TWI_FLASH_BASE_ADDR_def)
    have nx: "g_flash_addr b + 4 = TWI_FLASH_BASE_ADDR + of_nat (4 * Suc k)" by (simp add: i(2))
    have le: "unat (g_flash_addr b) + 4 \<le> 2 ^ 16" unfolding a using unat_ee_addr [OF i(3), of 0] i(3) by simp
    show "\<exists>m'. twi_flash_stream_get b = Some ((0, ee_words (stored fd p c (cpu b)) k),
          b\<lparr>cpu := m', g_flash_addr := TWI_FLASH_BASE_ADDR + of_nat (4 * Suc k)\<rparr>)
        \<and> (ee_idle fd p c m' \<and> ee_there m') \<and> ee_words (stored fd p c m') = ee_words (stored fd p c (cpu b))
        \<and> only_locs twi_locs (cpu b) m'"
    proof -
      have "ee_words (stored fd p c (cpu b)) k = ee_cell (stored fd p c (cpu b)) (g_flash_addr b)"
        using i(3) by (simp only: ee_words_def a) simp
      with ee_get_word [of fd p c b] i(1) le ee_there_only show ?thesis unfolding nx [symmetric] by metis
    qed
    show "\<exists>m'. twi_flash_stream_put w b = Some (0, b\<lparr>cpu := m', g_flash_addr := TWI_FLASH_BASE_ADDR + of_nat (4 * Suc k)\<rparr>)
        \<and> (ee_idle fd p c m' \<and> ee_there m') \<and> ee_words (stored fd p c m') = (ee_words (stored fd p c (cpu b)))(k := w)
        \<and> (\<forall>j. j \<noteq> k \<longrightarrow> j < 0x4000 \<longrightarrow> j < 0x4000) \<and> only_locs twi_locs (cpu b) m'" for w
    proof -
      from ee_put_word [of fd p c b w] i(1) le obtain m' where m':
        "twi_flash_stream_put w b = Some (0, b\<lparr>cpu := m', g_flash_addr := g_flash_addr b + 4\<rparr>)" "ee_idle fd p c m'"
        "only_locs twi_locs (cpu b) m'" "stored fd p c m' = ee_put (g_flash_addr b) w (stored fd p c (cpu b))" by blast
      have "ee_words (stored fd p c m') = (ee_words (stored fd p c (cpu b)))(k := w)"
        unfolding m'(4) a by (rule ee_words_put [OF i(3)])
      with m'(1-3) i(1) ee_there_only show ?thesis unfolding nx [symmetric] by (intro exI [of _ m']) blast
    qed
  }
  {
    fix L m m' assume "ee_idle fd p c m \<and> ee_there m" "only_locs L m m'" "L \<inter> twi_locs = {}"
    with ee_foreign [of L m m' fd p c] ee_there_only show "(ee_idle fd p c m' \<and> ee_there m')
      \<and> ee_words (stored fd p c m') = ee_words (stored fd p c m) \<and> (\<lambda>k. k < 0x4000) = (\<lambda>k. k < (0x4000 :: nat))" by auto
  }
  show "(ee_idle fd p c (tick Fence m) \<and> ee_there (tick Fence m))
      \<and> ee_words (stored fd p c (tick Fence m)) = ee_words (stored fd p c m) \<and> (\<lambda>k. k < 0x4000) = (\<lambda>k. k < (0x4000 :: nat))"
    if "ee_idle fd p c m \<and> ee_there m" for m
    using that twi_quiet_fence [of fd p c m] by (auto simp: ee_idle_def ee_there_def)
qed (use ee_idle_ready twi_console_apart twi_words in \<open>auto simp: ee_fits_def\<close>)

section \<open>A chip\<close>

text \<open>Waiting for a start, called, written to (the bytes so far), read from.\<close>

datatype ee_mode = Ee_idle | Ee_call | Ee_write "u8 list" | Ee_read

record ref_ee =
  rm_mode :: ee_mode
  rm_ptr :: u32
  rm_mem :: "u32 \<Rightarrow> u8"
  rm_busy :: bool

definition ee_addr :: "u8 \<Rightarrow> u8 \<Rightarrow> u32" where
  "ee_addr hi lo = join32 lo hi 0 0"

text \<open>A write keeps the chip busy for one call.\<close>

definition ee_byte :: "u8 \<Rightarrow> bool \<Rightarrow> ref_ee \<Rightarrow> ref_ee" where
  "ee_byte b n r =
     (case rm_mode r of
        Ee_call \<Rightarrow> r\<lparr>rm_mode := (if n then Ee_idle else if b = 0xa0 then Ee_write [] else if b = 0xa1 then Ee_read else Ee_idle),
                     rm_busy := False\<rparr>
      | Ee_write bs \<Rightarrow> r\<lparr>rm_mode := Ee_write (bs @ [b]), rm_ptr := (if List.length bs = 1 then ee_addr (hd bs) b else rm_ptr r)\<rparr>
      | Ee_read \<Rightarrow> r\<lparr>rm_mode := (if n then Ee_idle else Ee_read), rm_ptr := rm_ptr r + 1\<rparr>
      | Ee_idle \<Rightarrow> r)"

definition ee_stop :: "ref_ee \<Rightarrow> ref_ee" where
  "ee_stop r =
     (case rm_mode r of
        Ee_write [hi, lo, d] \<Rightarrow> r\<lparr>rm_mode := Ee_idle, rm_mem := (rm_mem r)(ee_addr hi lo := d), rm_busy := True\<rparr>
      | _ \<Rightarrow> r\<lparr>rm_mode := Ee_idle\<rparr>)"

primrec ee_event :: "twi_ev \<Rightarrow> ref_ee \<Rightarrow> ref_ee" where
  "ee_event Tw_start r = r\<lparr>rm_mode := Ee_call\<rparr>"
| "ee_event Tw_stop r = ee_stop r"
| "ee_event (Tw_byte b n) r = ee_byte b n r"
| "ee_event Tw_off r = r\<lparr>rm_mode := Ee_idle\<rparr>"

definition ee_run :: "(u32 \<Rightarrow> u8) \<Rightarrow> twi_ev list \<Rightarrow> ref_ee" where
  "ee_run f H = fold ee_event H \<lparr>rm_mode = Ee_idle, rm_ptr = 0, rm_mem = f, rm_busy = False\<rparr>"

definition ee_nack :: "ref_ee \<Rightarrow> u8 \<Rightarrow> bool" where
  "ee_nack r b =
     (case rm_mode r of Ee_call \<Rightarrow> rm_busy r \<or> b \<noteq> 0xa0 \<and> b \<noteq> 0xa1 | Ee_write bs \<Rightarrow> False | _ \<Rightarrow> True)"

definition reference_eeprom :: "(u32 \<Rightarrow> u8) \<Rightarrow> eeprom" where
  "reference_eeprom f =
     \<lparr>drives = (\<lambda>H. let r = ee_run f H in if rm_mode r = Ee_read then rm_mem r (rm_ptr r) else 0xff),
      nacks = (\<lambda>H b. ee_nack (ee_run f H) b), ee_mem = (\<lambda>H. rm_mem (ee_run f H)), ee_busy = (\<lambda>H. rm_busy (ee_run f H))\<rparr>"

lemma ee_run_append: "ee_run f (H @ G) = fold ee_event G (ee_run f H)"
  by (simp add: ee_run_def)

lemma ee_addr_bytes: "unat a < 2 ^ 16 \<Longrightarrow> ee_addr (byte32 a 1) (byte32 a 0) = a"
proof -
  assume a: "unat a < 2 ^ 16"
  have "byte32 a i = 0" if "2 \<le> i" for i
  proof (rule bit_word_eqI)
    fix n assume "n < LENGTH(8)"
    have "unat a < 2 ^ (8 * i + n)" using a by (rule less_le_trans) (rule power_increasing, use that in simp_all)
    then have "\<not> bit (unat a) (8 * i + n)" by (simp add: bit_iff_odd)
    then have "\<not> bit a (8 * i + n)" by (simp add: bit_unsigned_iff)
    then show "bit (byte32 a i) n = bit (0 :: u8) n" by (simp add: byte32_def bit_simps)
  qed
  then show ?thesis using join32_byte32 [of a] by (simp add: ee_addr_def)
qed

lemma ee_called_run: "fold ee_event (ee_called a) r
    = r\<lparr>rm_mode := Ee_write [byte32 a 1, byte32 a 0], rm_ptr := ee_addr (byte32 a 1) (byte32 a 0), rm_busy := False\<rparr>"
  by (simp add: ee_called_def ee_byte_def)

lemma reference_eeprom_chip: "eeprom_chip (reference_eeprom f)"
proof -
  note s = reference_eeprom_def ee_run_append ee_byte_def ee_stop_def ee_nack_def takes_def Let_def
  have "ee_polls (reference_eeprom f)"
  proof -
    have "\<exists>n. \<not> rm_busy (fold ee_event (concat (replicate n [Tw_start, Tw_byte 0xa0 True, Tw_stop])) r)" for r
      by (rule exI [of _ "Suc 0"]) (simp add: ee_byte_def ee_stop_def)
    then show ?thesis by (simp add: ee_polls_def s)
  qed
  moreover have "ee_addressed (reference_eeprom f)" by (simp add: ee_addressed_def s)
  moreover have "ee_reads (reference_eeprom f)"
    by (simp add: ee_reads_def s ee_called_run ee_addr_bytes ee_addr_bytes [simplified])
  moreover have "ee_writes (reference_eeprom f)"
    by (simp add: ee_writes_def s ee_called_run ee_addr_bytes ee_addr_bytes [simplified])
  ultimately show ?thesis by (simp add: eeprom_chip_def)
qed

section \<open>A system with UART0 and the chip\<close>

definition ee_soc_rest :: "(u32 \<Rightarrow> u8) \<Rightarrow> (event list \<Rightarrow> loc \<Rightarrow> u32) \<Rightarrow> event list \<Rightarrow> loc \<Rightarrow> u32" where
  "ee_soc_rest f other h l =
     (let d = twi_state 2 3 (reference_eeprom f) h
      in if l = TWI_CTRL then twi_ctrl_read 2 0x18000000 d
         else if l = TWI_DCMD then (case t_rx d of [] \<Rightarrow> 0 | r # _ \<Rightarrow> twi_dcmd_read r)
         else if l = SYSINFO_SOC then - 1 else other h l)"

definition ee_soc :: "nat \<Rightarrow> (u32 \<Rightarrow> u8) \<Rightarrow> (event list \<Rightarrow> loc \<Rightarrow> u32) \<Rightarrow> u8 list \<Rightarrow> mach" where
  "ee_soc rxd f other input =
     \<lparr>hw = uart_rtl UART0 clear_line 2 rxd input (ee_soc_rest f other), log = [Wr (UART_CTRL UART0) 1]\<rparr>"

lemma ee_soc_console:
  "List.length input \<le> 2 ^ rxd \<Longrightarrow> console_ok clear_line 2 rxd (ee_soc_rest f other) input (ee_soc rxd f other input)"
  by (cases input) (simp_all add: console_ok_def uart_ok_def u_lossless_def ee_soc_def uart_bus_def
      uart_cycle_def uart_init_def u_en_def u_hwfc_def uart_rw_bits_def uart_tx_frame_def uart_rx_frame_def uart_tx_start_def
      UART_CTRL_def ee_soc_rest_def)

lemma ee_soc_pos: "uart_pos clear_line 2 rxd UART0 input (ee_soc rxd f other input) = 0"
  by (cases input) (simp_all add: uart_pos_def ee_soc_def uart_bus_def uart_cycle_def uart_init_def u_en_def
      uart_rw_bits_def uart_rx_frame_def uart_tx_start_def uart_tx_frame_def)

lemma soc_twi_uart [simp]: "TWI_CTRL \<noteq> UART_CTRL UART0" "TWI_CTRL \<noteq> UART_DATA UART0"
  "TWI_DCMD \<noteq> UART_CTRL UART0" "TWI_DCMD \<noteq> UART_DATA UART0"
  by (simp_all add: twi_regs UART0_def UART_CTRL_def UART_DATA_def NEORV32_UART0_BASE_def)

lemma ee_soc_ready: "ee_ready 2 3 (reference_eeprom f) (ee_soc rxd f other input)"
proof -
  have i: "twi_state 2 3 (reference_eeprom f) [Wr (UART_CTRL UART0) 1] = twi_init"
    by (simp add: twi_bus_def twi_cycle_def twi_init_def t_en_def claimed_def soc_twi_uart [symmetric] del: soc_twi_uart)
  have "twi_wired 2 3 (reference_eeprom f) (ee_soc rxd f other input)"
    by (auto simp: twi_wired_def ee_soc_def uart_rtl_def Let_def ee_soc_rest_def)
  with i show ?thesis
    by (simp add: ee_ready_def reference_eeprom_chip ee_soc_def twi_line_def twi_init_def claimed_def)
      (simp add: reference_eeprom_def ee_run_def)
qed

lemma ee_soc_there: "ee_there (ee_soc rxd f other input)"
  by (simp add: ee_there_def ee_soc_def uart_rtl_def Let_def ee_soc_rest_def)

lemma ee_soc_memory:
  assumes "aligned W32 a" "a < 0xf0000000"
  shows "holds_word (ee_soc rxd f (ram_of M) input) a (word_at M a)" "storable (ee_soc rxd f (ram_of M) input) a"
proof -
  let ?m = "ee_soc rxd f (ram_of M) input"
  have far: "a \<noteq> 0xfff50000" "a \<noteq> 0xfff50004" "a \<noteq> 0xfff90000" "a \<noteq> 0xfff90004" "a \<noteq> 0xfffe0008"
    using assms(2) by auto
  have hw: "hw ?m h (Mem W32 a) = mem_read W32 a (ram_log M h) \<and> hw ?m h (BusErr w W32 a) = 0" for h w
    using far by (simp add: ee_soc_def uart_rtl_def ee_soc_rest_def ram_of_def UART_CTRL_def UART_DATA_def UART0_def
        NEORV32_UART0_BASE_def SYSINFO_SOC_def NEORV32_SYSINFO_BASE_def twi_regs Let_def)
  have "bytes_of W32 0xfff50000 \<inter> bytes_of W32 a = {}" by (rule aligned_words_apart [OF _ assms(1)]) (use far(1) in simp_all)
  then have "\<forall>e\<in>set (log ?m). \<not> overwrites a e"
    by (simp add: ee_soc_def UART_CTRL_def UART0_def NEORV32_UART0_BASE_def del: bytes_of.simps)
  with hw show "holds_word ?m a (word_at M a)" by (intro ram_holds_word [OF assms(1)]) simp_all
  show "storable ?m a" using hw assms(1) by (simp add: storable_def del: aligned.simps)
qed

end
