(* ===== verification/Trng_Test.thy ===== *)
theory Trng_Test
  imports Trng Uart Neo_Aux Boot_Hal Rte Csr
begin

text \<open>
  The random number demo, \<^verbatim>\<open>sw/example/demo_trng/main.c\<close>: sampling, its two health tests, the histogram and
  the menu.  The random numbers are whatever the generator delivers: the tests are stated over the
  values that were read.  The locale \<open>sample_source\<close> lists what the loops need in order to end; the
  registers and the queue of \<^verbatim>\<open>rtl/core/neorv32_trng.vhd\<close> are an instance of it.
\<close>

section \<open>Samples and keys\<close>

definition no_sample :: "u32 \<Rightarrow> bool" where
  "no_sample v \<longleftrightarrow> v AND BIT (trng_ctrl TRNG_CTRL_AVAIL) = 0"

definition get_sample :: "mach \<Rightarrow> (u8 \<times> mach) option" where
  "get_sample m = do { m \<leftarrow> poll no_sample TRNG_CTRL m; Some (neorv32_trng_data_get m) }"

text \<open>Whether a key was pressed; its character is discarded.\<close>

definition key_pressed :: "mach \<Rightarrow> bool \<times> mach" where
  "key_pressed m =
     (let (v, m) = neorv32_uart_char_received UART0 m
      in if v \<noteq> 0 then (True, snd (neorv32_uart_char_received_get UART0 m)) else (False, m))"

definition tr_printf :: "u8 list \<Rightarrow> arg list \<Rightarrow> mach \<Rightarrow> mach option" where
  "tr_printf = neorv32_uart_printf UART0"

section \<open>Health tests\<close>

definition rep_cutoff :: int where "rep_cutoff = 10"

text \<open>The repetition count test: the value of the current run, its length.\<close>

partial_function (option) rep_loop :: "u8 \<Rightarrow> int \<Rightarrow> mach \<Rightarrow> (bool \<times> mach) option" where
  "rep_loop a b m =
     do {
       (x, m) \<leftarrow> get_sample m;
       let (a, b) = (if x = a then (a, b + 1) else (x, 1));
       if rep_cutoff \<le> b then Some (True, m)
       else
         (let (key, m) = key_pressed m in if key then Some (False, m) else rep_loop a b m)
     }"

definition rep_run :: "mach \<Rightarrow> (bool \<times> mach) option" where
  "rep_run m = do { (a, m) \<leftarrow> get_sample m; rep_loop a 1 m }"

definition print_verdict :: "bool \<Rightarrow> mach \<Rightarrow> mach option" where
  "print_verdict fail m =
     (if fail then tr_printf (str ''Test failed!'' @ [10]) [] m else tr_printf (str ''Test ok!'' @ [10]) [] m)"

definition repetition_count_test :: "mach \<Rightarrow> mach option" where
  "repetition_count_test m =
     do {
       m \<leftarrow> tr_printf ([10] @ str ''Running test... Press any key to stop.'' @ [10]) [] m;
       m \<leftarrow> tr_printf (str ''Cut-off value = %u'' @ [10]) [AInt (of_int rep_cutoff)] m;
       let m = neorv32_trng_fifo_clear m;
       (fail, m) \<leftarrow> rep_run m;
       print_verdict fail m
     }"

definition adp_cutoff :: int where "adp_cutoff = 13"
definition adp_window :: nat where "adp_window = 512"

text \<open>The adaptive proportion test: the rest of a window whose first value is \<open>a\<close>.\<close>

fun adp_count :: "nat \<Rightarrow> u8 \<Rightarrow> int \<Rightarrow> bool \<Rightarrow> mach \<Rightarrow> (bool \<times> mach) option" where
  "adp_count 0 a b fail m = Some (fail, m)"
| "adp_count (Suc i) a b fail m =
     do {
       (x, m) \<leftarrow> get_sample m;
       let b = (if a = x then b + 1 else b);
       adp_count i a b (fail \<or> adp_cutoff \<le> b) m
     }"

partial_function (option) adp_run :: "mach \<Rightarrow> (bool \<times> mach) option" where
  "adp_run m =
     do {
       (a, m) \<leftarrow> get_sample m;
       (fail, m) \<leftarrow> adp_count (adp_window - 1) a 1 False m;
       if fail then Some (True, m)
       else (let (key, m) = key_pressed m in if key then Some (False, m) else adp_run m)
     }"

definition adaptive_proportion_test :: "mach \<Rightarrow> mach option" where
  "adaptive_proportion_test m =
     do {
       m \<leftarrow> tr_printf ([10] @ str ''Running test... Press any key to stop.'' @ [10]) [] m;
       m \<leftarrow> tr_printf (str ''Cut-off value = %u, windows size = %u'' @ [10]) [AInt (of_int adp_cutoff), AInt (of_nat adp_window)] m;
       let m = neorv32_trng_fifo_clear m;
       (fail, m) \<leftarrow> adp_run m;
       print_verdict fail m
     }"

section \<open>Histogram\<close>

definition n_samples :: u32 where "n_samples = 4 * 1024 * 1024"

partial_function (option) hist_loop :: "u32 list \<Rightarrow> u32 \<Rightarrow> u64 \<Rightarrow> mach \<Rightarrow> ((u32 list \<times> u32 \<times> u64) \<times> mach) option" where
  "hist_loop hist cnt average m =
     do {
       (x, m) \<leftarrow> get_sample m;
       let hist = hist[unat x := hist ! unat x + 1];
       let cnt = cnt + 1;
       let average = average + ucast x;
       if n_samples \<le> cnt then Some ((hist, cnt, average), m)
       else
         (let (key, m) = key_pressed m in if key then Some ((hist, cnt, average), m) else hist_loop hist cnt average m)
     }"

record hist_stat =
  occ_avg_dev :: u32
  occ_max :: u32
  bin_max :: u32
  occ_min :: u32
  bin_min :: u32

definition hist_bin :: "u32 \<Rightarrow> u32 list \<Rightarrow> nat \<Rightarrow> hist_stat \<Rightarrow> hist_stat" where
  "hist_bin occ_avg hist i s =
     (let occ_tmp = hist ! i;
          dev = occ_avg - occ_tmp;
          dev = (if sint dev < 0 then - dev else dev);
          s = s\<lparr>occ_avg_dev := occ_avg_dev s + dev\<rparr>;
          s = (if occ_tmp < occ_min s then s\<lparr>occ_min := occ_tmp, bin_min := of_nat i\<rparr> else s)
      in (if occ_max s < occ_tmp then s\<lparr>occ_max := occ_tmp, bin_max := of_nat i\<rparr> else s))"

definition hist_analyze :: "u32 \<Rightarrow> u32 list \<Rightarrow> hist_stat" where
  "hist_analyze occ_avg hist =
     (let s = fold (hist_bin occ_avg hist) [0..<256] \<lparr>occ_avg_dev = 0, occ_max = 0, bin_max = 0, occ_min = - 1, bin_min = 0\<rparr>
      in s\<lparr>occ_avg_dev := occ_avg_dev s div 256\<rparr>)"

fun print_bins :: "u32 list \<Rightarrow> nat list \<Rightarrow> mach \<Rightarrow> mach option" where
  "print_bins hist [] m = Some m"
| "print_bins hist (i # is) m =
     do { m \<leftarrow> tr_printf (str ''%u: %u'' @ [10]) [AInt (of_nat i), AInt (hist ! i)] m; print_bins hist is m }"

definition print_stat :: "u32 \<Rightarrow> u64 \<Rightarrow> u32 \<Rightarrow> hist_stat \<Rightarrow> mach \<Rightarrow> mach option" where
  "print_stat cnt average occ_avg s m =
     do {
       m \<leftarrow> tr_printf (str ''[NOTE] integer numbers only'' @ [10]) [] m;
       m \<leftarrow> tr_printf (str ''Number of samples: %u'' @ [10]) [AInt cnt] m;
       m \<leftarrow> tr_printf (str ''Arithmetic mean:   %u (optimum would be 127)'' @ [10]) [AInt (ucast average)] m;
       m \<leftarrow> tr_printf ([10] @ str ''Histogram occurrence'' @ [10]) [] m;
       m \<leftarrow> tr_printf (str ''Average:      %u (optimum would be %u/256 = %u)'' @ [10])
         [AInt occ_avg, AInt n_samples, AInt (n_samples div 256)] m;
       m \<leftarrow> tr_printf (str ''Min:          %u = average - %u (deviation) at bin %u (optimum deviation would be 0)'' @ [10])
         [AInt (occ_min s), AInt (occ_avg - occ_min s), AInt (bin_min s)] m;
       m \<leftarrow> tr_printf (str ''Max:          %u = average + %u (deviation) at bin %u (optimum deviation would be 0)'' @ [10])
         [AInt (occ_max s), AInt (occ_max s - occ_avg), AInt (bin_max s)] m;
       tr_printf (str ''Average dev.: +/- %u (optimum would be 0)'' @ [10]) [AInt (occ_avg_dev s)] m
     }"

definition generate_histogram :: "mach \<Rightarrow> mach option" where
  "generate_histogram m =
     do {
       let m = neorv32_trng_fifo_clear m;
       m \<leftarrow> tr_printf (str ''Sampling... Press any key to stop.'' @ [10]) [] m;
       let m = neorv32_trng_fifo_clear m;
       ((hist, cnt, average), m) \<leftarrow> hist_loop (replicate 256 0) 0 0 m;
       let average = average div ucast cnt;
       let occ_avg = cnt div 256;
       let s = hist_analyze occ_avg hist;
       m \<leftarrow> tr_printf (str ''Histogram [random data value] : [# occurrences]'' @ [10]) [] m;
       m \<leftarrow> print_bins hist [0..<256] m;
       m \<leftarrow> tr_printf [10] [] m;
       print_stat cnt average occ_avg s m
     }"

section \<open>The other commands\<close>

partial_function (option) random_loop :: "u32 \<Rightarrow> mach \<Rightarrow> (u32 \<times> mach) option" where
  "random_loop num_samples m =
     do {
       (x, m) \<leftarrow> get_sample m;
       m \<leftarrow> tr_printf (str ''%u '') [AInt (ucast x)] m;
       let (key, m) = key_pressed m;
       if key then Some (num_samples + 1, m) else random_loop (num_samples + 1) m
     }"

definition print_random_data :: "mach \<Rightarrow> mach option" where
  "print_random_data m =
     do {
       let m = neorv32_trng_fifo_clear m;
       (num_samples, m) \<leftarrow> random_loop 0 m;
       tr_printf ([10] @ str ''Printed samples: %u'' @ [10]) [AInt num_samples] m
     }"

fun get_samples :: "nat \<Rightarrow> mach \<Rightarrow> (u8 list \<times> mach) option" where
  "get_samples 0 m = Some ([], m)"
| "get_samples (Suc n) m = do { (x, m) \<leftarrow> get_sample m; (xs, m) \<leftarrow> get_samples n m; Some (x # xs, m) }"

definition tr_hex_byte :: "u8 \<Rightarrow> mach \<Rightarrow> mach option" where
  "tr_hex_byte b m =
     (let symbols = str ''0123456789abcdef''
      in do {
        m \<leftarrow> neorv32_uart_putc UART0 (symbols ! unat (drop_bit 4 b AND 0xf)) m;
        neorv32_uart_putc UART0 (symbols ! unat (b AND 0xf)) m
      })"

fun line_hex :: "u8 list \<Rightarrow> mach \<Rightarrow> mach option" where
  "line_hex [] m = Some m"
| "line_hex (b # bs) m =
     do { m \<leftarrow> tr_hex_byte b m; m \<leftarrow> neorv32_uart_putc UART0 0x20 m; line_hex bs m }"

fun line_ascii :: "u8 list \<Rightarrow> mach \<Rightarrow> mach option" where
  "line_ascii [] m = Some m"
| "line_ascii (b # bs) m =
     do { m \<leftarrow> neorv32_uart_putc UART0 (if b < 32 \<or> b > 126 then 0x2e else b) m; line_ascii bs m }"

partial_function (option) hex_lines :: "mach \<Rightarrow> mach option" where
  "hex_lines m =
     do {
       (line, m) \<leftarrow> get_samples 16 m;
       m \<leftarrow> line_hex line m;
       m \<leftarrow> tr_printf (str ''| '') [] m;
       m \<leftarrow> line_ascii line m;
       m \<leftarrow> tr_printf [10] [] m;
       let (key, m) = key_pressed m;
       if key then Some m else hex_lines m
     }"

definition print_hex_data :: "mach \<Rightarrow> mach option" where
  "print_hex_data m = hex_lines (neorv32_trng_fifo_clear m)"

text \<open>Sixteen thousand samples; \<^verbatim>\<open>get\<close> only where one is available.\<close>

partial_function (option) rate_loop :: "u32 \<Rightarrow> mach \<Rightarrow> mach option" where
  "rate_loop i m =
     (if i < 16 * 1024 then
        (let (v, m) = neorv32_trng_data_avail m
         in if v \<noteq> 0 then rate_loop (i + 1) (snd (neorv32_trng_data_get m)) else rate_loop i m)
      else Some m)"

definition compute_rate :: "mach \<Rightarrow> mach option" where
  "compute_rate m =
     do {
       let (cycles, m) = neorv32_cpu_csr_read CSR_CYCLE m;
       m \<leftarrow> rate_loop 0 m;
       let (now, m) = neorv32_cpu_csr_read CSR_CYCLE m;
       let cycles_per_rnd = (now - cycles) div (16 * 1024);
       let (clk, m) = neorv32_sysinfo_get_clk m;
       let rnd_per_sec = divu clk cycles_per_rnd;
       m \<leftarrow> tr_printf (str ''Average random generation rate'' @ [10]) [] m;
       m \<leftarrow> tr_printf (str ''Cycles per random byte: ~%u'' @ [10]) [AInt cycles_per_rnd] m;
       tr_printf (str ''Throughput (kB/s):      ~%u'' @ [10]) [AInt (rnd_per_sec div 1024)] m
     }"

section \<open>Interrupt test\<close>

text \<open>The handler's result is the value it leaves in \<^verbatim>\<open>irq_ack\<close>.\<close>

definition trng_firq_handler :: "mach \<Rightarrow> int \<times> mach" where
  "trng_firq_handler m = (1, neorv32_trng_fifo_clear m)"

text \<open>\<open>taken\<close>: whether the interrupt ended the sleep and its handler ran.\<close>

definition trng_irq_test :: "(mach \<Rightarrow> bool) \<Rightarrow> mach \<Rightarrow> mach option" where
  "trng_irq_test taken m =
     (let irq_ack = 0;
          m = neorv32_trng_fifo_clear m;
          m = neorv32_cpu_csr_set CSR_MIE (BIT (csr_mie CSR_MIE_FIRQ15E)) m;
          m = neorv32_cpu_sleep m;
          (irq_ack, m) = (if taken m then trng_firq_handler m else (irq_ack, m));
          m = neorv32_cpu_csr_clr CSR_MIE (BIT (csr_mie CSR_MIE_FIRQ15E)) m
      in if irq_ack = 1 then tr_printf (str ''IRQ test successful!'' @ [10]) [] m
         else tr_printf (str ''IRQ test FAILED!'' @ [10]) [] m)"

section \<open>Start and menu\<close>

definition tr_delay_ms :: "u32 \<Rightarrow> mach \<Rightarrow> mach" where
  "tr_delay_ms time_ms m = (let (clk, m) = neorv32_sysinfo_get_clk m in neorv32_aux_delay_ms clk time_ms m)"

text \<open>\<^verbatim>\<open>for (i=0; i<neorv32_trng_get_num_ros(); i++)\<close>: the register is read in every turn, and holds at most 255.\<close>

partial_function (option) print_cells :: "int \<Rightarrow> mach \<Rightarrow> mach option" where
  "print_cells i m =
     (let (ros, m) = neorv32_trng_get_num_ros m
      in if i < sint ros then
           (let (inv, m) = neorv32_trng_get_num_inv m
            in do {
              m \<leftarrow> tr_printf (str '' Ring-oscillator [%i]: %i inverters'' @ [10]) [AInt (of_int i), AInt (inv + of_int (i * 2))] m;
              print_cells (i + 1) m
            })
         else Some m)"

datatype tr_start = Tr_return int mach | Tr_menu mach

definition trng_start :: "rte_image \<Rightarrow> u32 \<Rightarrow> mach \<Rightarrow> tr_start option" where
  "trng_start im handler m =
     do {
       let (uart, m) = neorv32_uart_available UART0 m;
       if uart = 0 then Some (Tr_return 1 m)
       else do {
         let m = neorv32_rte_setup im m;
         let (_, m) = neorv32_rte_handler_install im (trap_code_of TRAP_CODE_FIRQ_15) handler m;
         let m = neorv32_cpu_csr_set CSR_MSTATUS (BIT (csr_mstatus CSR_MSTATUS_MIE)) m;
         let m = neorv32_uart_setup UART0 19200 0 m;
         m \<leftarrow> tr_printf (10 # str ''<<< NEORV32 TRNG Demo >>>'' @ [10, 10]) [] m;
         let (trng, m) = neorv32_trng_available m;
         if trng = 0 then do {
           m \<leftarrow> tr_printf (str ''ERROR: no TRNG implemented!'' @ [10]) [] m;
           Some (Tr_return 1 m)
         }
         else do {
           m \<leftarrow> tr_printf (str ''TRNG configuration'' @ [10]) [] m;
           m \<leftarrow> print_cells 0 m;
           let (raw, m) = neorv32_trng_get_num_raw_bits m;
           m \<leftarrow> tr_printf (str '' Raw random bits per output byte: %i'' @ [10]) [AInt raw] m;
           let (depth, m) = neorv32_trng_get_fifo_depth m;
           m \<leftarrow> tr_printf (str '' Random data FIFO depth: %i'' @ [10]) [AInt depth] m;
           let (sim, m) = neorv32_trng_check_sim_mode m;
           m \<leftarrow> (if sim \<noteq> 0 then
                  tr_printf (10 # str ''WARNING! TRNG uses simulation-only mode implementing a pseudo-RNG (LFSR)'' @ [10]
                    @ str ''         instead of the physical entropy sources!'' @ [10]) [] m
                else Some m);
           m \<leftarrow> tr_printf (10 # str ''Starting TRNG...'' @ [10]) [] m;
           let m = neorv32_trng_enable m;
           let m = tr_delay_ms 100 m;
           let m = neorv32_trng_fifo_clear m;
           Some (Tr_menu m)
         }
       }
     }"

text \<open>One turn of the endless menu loop.\<close>

definition trng_menu :: "(mach \<Rightarrow> bool) \<Rightarrow> mach \<Rightarrow> mach option" where
  "trng_menu taken m =
     do {
       m \<leftarrow> tr_printf (10 # str ''Commands:'' @ [10]
         @ str '' n: Print 8-bit random numbers (abort by pressing any key)'' @ [10]
         @ str '' x: Print random numbers as HEX data (abort by pressing any key)'' @ [10]
         @ str '' h: Generate histogram and analyze data'' @ [10]
         @ str '' t: Compute average random generation rate'' @ [10]
         @ str '' i: Test TRNG interrupt'' @ [10]
         @ str '' 1: Run repetition count test (NIST SP 800-90B)'' @ [10]
         @ str '' 2: Run adaptive proportion test (NIST SP 800-90B)'' @ [10]) [] m;
       m \<leftarrow> tr_printf (str ''CMD:> '') [] m;
       (cmd, m) \<leftarrow> neorv32_uart_getc UART0 m;
       m \<leftarrow> neorv32_uart_putc UART0 cmd m;
       m \<leftarrow> tr_printf [10] [] m;
       if cmd = 0x6e then print_random_data m
       else if cmd = 0x78 then print_hex_data m
       else if cmd = 0x74 then compute_rate m
       else if cmd = 0x68 then generate_histogram m
       else if cmd = 0x69 then trng_irq_test taken m
       else if cmd = 0x31 then repetition_count_test m
       else if cmd = 0x32 then adaptive_proportion_test m
       else tr_printf (str ''Invalid command.'' @ [10]) [] m
     }"

section \<open>What was read\<close>

definition drawn :: "mach \<Rightarrow> u8 list" where
  "drawn m = map ucast (read_from TRNG_DATA m)"

lemma trng_regs_distinct [simp]: "TRNG_CTRL \<noteq> TRNG_DATA" "TRNG_DATA \<noteq> TRNG_CTRL"
  "UART_CTRL UART0 \<noteq> TRNG_DATA" "UART_DATA UART0 \<noteq> TRNG_DATA" "TRNG_DATA \<noteq> UART_CTRL UART0" "TRNG_DATA \<noteq> UART_DATA UART0"
  "UART_CTRL UART0 \<noteq> TRNG_CTRL" "UART_DATA UART0 \<noteq> TRNG_CTRL" "TRNG_CTRL \<noteq> UART_CTRL UART0" "TRNG_CTRL \<noteq> UART_DATA UART0"
  by (simp_all add: trng_regs UART_CTRL_def UART_DATA_def UART0_def NEORV32_UART0_BASE_def)

text \<open>A run of equal values somewhere in a list.\<close>

definition has_run :: "nat \<Rightarrow> 'a list \<Rightarrow> bool" where
  "has_run c xs \<longleftrightarrow> (\<exists>us v vs. xs = us @ replicate c v @ vs)"

text \<open>A list that ends with a run of exactly \<open>b\<close> values \<open>a\<close>.\<close>

definition ends_run :: "'a \<Rightarrow> nat \<Rightarrow> 'a list \<Rightarrow> bool" where
  "ends_run a b xs \<longleftrightarrow> 0 < b \<and> (\<exists>us. xs = us @ replicate b a \<and> (us = [] \<or> last us \<noteq> a))"

lemma ends_run_same: "ends_run a b xs \<Longrightarrow> ends_run a (Suc b) (xs @ [a])"
  by (auto simp: ends_run_def replicate_append_same)

lemma ends_run_new:
  assumes "ends_run a b xs" "x \<noteq> a"
  shows "ends_run x 1 (xs @ [x])"
proof -
  from assms(1) obtain us b' where "xs = us @ replicate (Suc b') a"
    unfolding ends_run_def by (metis gr0_implies_Suc)
  then have "last xs = a" by simp
  with assms(2) show ?thesis unfolding ends_run_def by auto
qed

lemma ends_run_le:
  assumes "ends_run a b xs" "xs = us @ replicate c v" "0 < c"
  shows "c \<le> b"
proof (rule ccontr)
  assume "\<not> c \<le> b"
  then obtain d where d: "c = Suc d + b" by (metis add.commute add_Suc less_imp_Suc_add not_le)
  from assms(1) obtain ws where ws: "xs = ws @ replicate b a" "0 < b" "ws = [] \<or> last ws \<noteq> a"
    by (auto simp: ends_run_def)
  have e: "(us @ replicate (Suc d) v) @ replicate b v = ws @ replicate b a"
    using ws(1) assms(2) d by (simp only: replicate_add append_assoc)
  have "us @ replicate (Suc d) v = ws \<and> replicate b v = replicate b a"
    by (rule append_eq_append_conv [THEN iffD1, OF _ e]) simp
  with ws(2,3) show False by (auto simp: replicate_eq_replicate split: if_splits)
qed

lemma has_run_snoc:
  assumes "ends_run a b (xs @ [x])" "0 < c"
  shows "has_run c (xs @ [x]) \<longleftrightarrow> has_run c xs \<or> c \<le> b"
proof
  assume "has_run c (xs @ [x])"
  then obtain us v vs where e: "xs @ [x] = us @ replicate c v @ vs" by (auto simp: has_run_def)
  show "has_run c xs \<or> c \<le> b"
  proof (cases vs rule: rev_cases)
    case Nil
    with ends_run_le [OF assms(1) _ assms(2), of us v] e show ?thesis by simp
  next
    case (snoc ws y)
    with e have "xs = us @ replicate c v @ ws" by (metis append.assoc butlast_snoc)
    then show ?thesis by (auto simp: has_run_def)
  qed
next
  assume "has_run c xs \<or> c \<le> b"
  then show "has_run c (xs @ [x])"
  proof
    assume "has_run c xs"
    then show ?thesis by (auto simp: has_run_def) (metis append.assoc)
  next
    assume "c \<le> b"
    then obtain d where "b = d + c" by (metis add.commute le_Suc_ex)
    with assms(1) obtain ws where "xs @ [x] = (ws @ replicate d a) @ replicate c a @ []"
      by (auto simp: ends_run_def replicate_add)
    then show ?thesis unfolding has_run_def by blast
  qed
qed

section \<open>What the loops need\<close>

text \<open>
  The generator has a sample after some polls; once \<open>limit\<close> values have been read since the start, a key
  waits.
\<close>

locale sample_source = ready_device ok TRNG_CTRL no_sample for ok :: "mach \<Rightarrow> bool" +
  fixes limit :: nat
  assumes ok_sample: "ok m \<Longrightarrow> ok (snd (rd TRNG_DATA m))"
    and ok_key: "ok m \<Longrightarrow> ok (snd (rd (UART_CTRL UART0) m))"
    and key_comes: "ok m \<Longrightarrow> limit \<le> List.length (read_from TRNG_DATA m) \<Longrightarrow>
      bit (rd_val (UART_CTRL UART0) m) (uart_ctrl UART_CTRL_RX_NEMPTY)"
begin

lemma sample:
  assumes "ok m"
  obtains x m' where "get_sample m = Some (x, m')" "ok m'" "drawn m' = drawn m @ [x]"
proof -
  from poll_returns [OF assms] obtain m1 n where m1: "poll no_sample TRNG_CTRL m = Some m1" "ok m1"
    "m1 = rds TRNG_CTRL (Suc n) m" by metis
  have d: "drawn m1 = drawn m" unfolding m1(3) drawn_def by (simp del: rds_Suc)
  show ?thesis
  proof (rule that)
    show "get_sample m = Some (ucast (rd_val TRNG_DATA m1), snd (rd TRNG_DATA m1))"
      by (simp add: get_sample_def m1(1) neorv32_trng_data_get_def rd_def)
    show "ok (snd (rd TRNG_DATA m1))" by (rule ok_sample [OF m1(2)])
    show "drawn (snd (rd TRNG_DATA m1)) = drawn m @ [ucast (rd_val TRNG_DATA m1)]"
      using d by (simp add: drawn_def)
  qed
qed

lemma key:
  assumes "ok m"
  obtains k m' where "key_pressed m = (k, m')" "drawn m' = drawn m" "\<not> k \<Longrightarrow> ok m'"
    "limit \<le> List.length (drawn m) \<Longrightarrow> k"
proof (cases "bit (rd_val (UART_CTRL UART0) m) (uart_ctrl UART_CTRL_RX_NEMPTY)")
  case True
  then have "key_pressed m = (True, snd (rd (UART_DATA UART0) (snd (rd (UART_CTRL UART0) m))))"
    by (simp add: key_pressed_def neorv32_uart_char_received_def neorv32_uart_char_received_get_def rd_def)
  then show ?thesis by (rule that) (simp_all add: drawn_def)
next
  case False
  then have k: "key_pressed m = (False, snd (rd (UART_CTRL UART0) m))"
    by (simp add: key_pressed_def neorv32_uart_char_received_def rd_def)
  show ?thesis
    by (rule that [OF k]) (use ok_key [OF assms] key_comes [OF assms] False in \<open>auto simp: drawn_def\<close>)
qed

text \<open>The repetition count test ends with the first run of ten, or with a key.\<close>

lemma rep_loop_result:
  assumes "ok m" "ends_run a b xs" "drawn m = pre @ xs" "\<not> has_run 10 xs"
  shows "\<exists>fail m' ys. rep_loop a (int b) m = Some (fail, m') \<and> drawn m' = pre @ xs @ ys
    \<and> (\<forall>us vs. ys = us @ vs \<longrightarrow> vs \<noteq> [] \<longrightarrow> \<not> has_run 10 (xs @ us))
    \<and> fail = has_run 10 (xs @ ys) \<and> List.length (drawn m') \<le> max limit (Suc (List.length (drawn m)))"
  using assms
proof (induction "limit - List.length (drawn m)" arbitrary: m a b xs rule: less_induct)
  case less
  from sample [OF less.prems(1)] obtain x m1 where m1: "get_sample m = Some (x, m1)" "ok m1" "drawn m1 = drawn m @ [x]" .
  define a' b' where "a' = (if x = a then a else x)" and "b' = (if x = a then Suc b else 1)"
  have run: "ends_run a' b' (xs @ [x])"
    using ends_run_same [OF less.prems(2)] ends_run_new [OF less.prems(2)] by (simp add: a'_def b'_def)
  have r: "has_run 10 (xs @ [x]) \<longleftrightarrow> 10 \<le> b'" using has_run_snoc [OF run, of 10] less.prems(4) by simp
  have d: "drawn m1 = pre @ xs @ [x]" using m1(3) less.prems(3) by simp
  have step: "rep_loop a (int b) m = (if rep_cutoff \<le> int b' then Some (True, m1)
      else let (key, m) = key_pressed m1 in if key then Some (False, m) else rep_loop a' (int b') m)"
    by (subst rep_loop.simps) (cases "x = a"; cases "key_pressed m1"; simp add: m1(1) a'_def b'_def add.commute Let_def)
  have one: "\<forall>us vs. [x] = us @ vs \<longrightarrow> vs \<noteq> [] \<longrightarrow> \<not> has_run 10 (xs @ us)"
    using less.prems(4) by (auto simp: Cons_eq_append_conv)
  show ?case
  proof (cases "10 \<le> b'")
    case True
    then have "rep_loop a (int b) m = Some (True, m1)" unfolding step by (simp add: rep_cutoff_def)
    then show ?thesis
      by (intro exI [of _ True] exI [of _ m1] exI [of _ "[x]"]) (use d r True one m1(3) in auto)
  next
    case False
    then have nf: "\<not> rep_cutoff \<le> int b'" by (simp add: rep_cutoff_def)
    from key [OF m1(2)] obtain k m2 where m2: "key_pressed m1 = (k, m2)" "drawn m2 = drawn m1" "\<not> k \<Longrightarrow> ok m2"
      "limit \<le> List.length (drawn m1) \<Longrightarrow> k" by metis
    show ?thesis
    proof (cases k)
      case True
      then have "rep_loop a (int b) m = Some (False, m2)" using nf m2(1) by (simp add: step)
      then show ?thesis
        by (intro exI [of _ False] exI [of _ m2] exI [of _ "[x]"]) (use d r False one m1(3) m2(2) in auto)
    next
      case no: False
      then have lt: "List.length (drawn m1) < limit" using m2(4) by (meson not_le)
      have "limit - List.length (drawn m2) < limit - List.length (drawn m)" using lt m1(3) m2(2) by simp
      from less.hyps [OF this m2(3) [OF no] run, of] d m2(2) r False obtain f m' ys where
        ih: "rep_loop a' (int b') m2 = Some (f, m')" "drawn m' = pre @ (xs @ [x]) @ ys"
          "\<forall>us vs. ys = us @ vs \<longrightarrow> vs \<noteq> [] \<longrightarrow> \<not> has_run 10 ((xs @ [x]) @ us)" "f = has_run 10 ((xs @ [x]) @ ys)"
          "List.length (drawn m') \<le> max limit (Suc (List.length (drawn m2)))" by auto
      have "rep_loop a (int b) m = Some (f, m')" using nf m2(1) no ih(1) by (simp add: step)
      moreover have "\<not> has_run 10 (xs @ us)" if "x # ys = us @ vs" "vs \<noteq> []" for us vs
      proof (cases us)
        case Nil then show ?thesis using less.prems(4) by simp
      next
        case (Cons u ws)
        then have "us = x # ws" "ys = ws @ vs" using that(1) by simp_all
        with ih(3) that(2) show ?thesis by auto
      qed
      moreover have "List.length (drawn m') \<le> max limit (Suc (List.length (drawn m)))"
        using ih(5) lt m1(3) m2(2) by auto
      ultimately show ?thesis
        by (intro exI [of _ f] exI [of _ m'] exI [of _ "x # ys"]) (use ih(2,4) in simp)
    qed
  qed
qed

lemma rep_run_result:
  assumes "ok m"
  shows "\<exists>fail m' xs. rep_run m = Some (fail, m') \<and> drawn m' = drawn m @ xs \<and> fail = has_run 10 xs
    \<and> (\<forall>us vs. xs = us @ vs \<longrightarrow> vs \<noteq> [] \<longrightarrow> \<not> has_run 10 us)
    \<and> List.length (drawn m') \<le> max limit (List.length (drawn m) + 2)"
proof -
  have small: "\<not> has_run 10 ys" if "List.length ys < 10" for ys :: "u8 list" using that by (auto simp: has_run_def)
  from sample [OF assms] obtain a m1 where m1: "get_sample m = Some (a, m1)" "ok m1" "drawn m1 = drawn m @ [a]" .
  have run: "ends_run a 1 [a]" by (auto simp: ends_run_def)
  from rep_loop_result [OF m1(2) run m1(3)] small [of "[a]"] obtain fail m' ys where
    r: "rep_loop a (int 1) m1 = Some (fail, m')" "drawn m' = drawn m @ [a] @ ys" "fail = has_run 10 ([a] @ ys)"
      "\<forall>us vs. ys = us @ vs \<longrightarrow> vs \<noteq> [] \<longrightarrow> \<not> has_run 10 ([a] @ us)"
      "List.length (drawn m') \<le> max limit (Suc (List.length (drawn m1)))" by auto
  have "\<not> has_run 10 us" if "a # ys = us @ vs" "vs \<noteq> []" for us vs
  proof (cases us)
    case Nil then show ?thesis using small [of "[]"] by simp
  next
    case (Cons u ws)
    then have "us = a # ws" "ys = ws @ vs" using that(1) by simp_all
    with r(4) that(2) show ?thesis by auto
  qed
  moreover have "rep_run m = Some (fail, m')" using r(1) by (simp add: rep_run_def m1(1))
  ultimately show ?thesis using r m1(3) by (intro exI [of _ fail] exI [of _ m'] exI [of _ "a # ys"]) simp
qed

text \<open>The adaptive proportion test draws whole windows.\<close>

lemma adp_count_result:
  assumes "ok m"
  shows "\<exists>m' xs. adp_count i a b fail m = Some (fail \<or> xs \<noteq> [] \<and> adp_cutoff \<le> b + int (count_list xs a), m')
    \<and> ok m' \<and> drawn m' = drawn m @ xs \<and> List.length xs = i"
  using assms
proof (induction i arbitrary: m b fail)
  case (Suc i)
  from sample [OF Suc.prems] obtain x m1 where m1: "get_sample m = Some (x, m1)" "ok m1" "drawn m1 = drawn m @ [x]" .
  let ?b = "if a = x then b + 1 else b"
  from Suc.IH [OF m1(2), of ?b "fail \<or> adp_cutoff \<le> ?b"] obtain m' xs where
    m': "adp_count i a ?b (fail \<or> adp_cutoff \<le> ?b) m1 = Some ((fail \<or> adp_cutoff \<le> ?b)
        \<or> xs \<noteq> [] \<and> adp_cutoff \<le> ?b + int (count_list xs a), m')"
      "ok m'" "drawn m' = drawn m1 @ xs" "List.length xs = i" by blast
  have e: "(fail \<or> adp_cutoff \<le> ?b) \<or> xs \<noteq> [] \<and> adp_cutoff \<le> ?b + int (count_list xs a)
      \<longleftrightarrow> fail \<or> x # xs \<noteq> [] \<and> adp_cutoff \<le> b + int (count_list (x # xs) a)"
    by (cases "xs = []") auto
  have "adp_count (Suc i) a b fail m = Some (fail \<or> x # xs \<noteq> [] \<and> adp_cutoff \<le> b + int (count_list (x # xs) a), m')"
    unfolding e [symmetric] using m'(1) by (simp add: m1(1) Let_def)
  then show ?case using m'(2-4) m1(3) by (intro exI [of _ m'] exI [of _ "x # xs"]) simp
qed simp

text \<open>A window fails when its first value occurs thirteen times in it.\<close>

definition bad_window :: "u8 list \<Rightarrow> bool" where
  "bad_window w \<longleftrightarrow> 13 \<le> count_list w (hd w)"

lemma adp_run_result:
  assumes "ok m"
  shows "\<exists>fail m' ws. adp_run m = Some (fail, m') \<and> ws \<noteq> [] \<and> drawn m' = drawn m @ concat ws
    \<and> (\<forall>w \<in> set ws. List.length w = 512) \<and> (\<forall>w \<in> set (butlast ws). \<not> bad_window w) \<and> fail = bad_window (last ws)
    \<and> List.length (drawn m') \<le> max limit (List.length (drawn m)) + 512"
  using assms
proof (induction "limit - List.length (drawn m)" arbitrary: m rule: less_induct)
  case less
  from sample [OF less.prems] obtain a m1 where m1: "get_sample m = Some (a, m1)" "ok m1" "drawn m1 = drawn m @ [a]" .
  from adp_count_result [OF m1(2), of 511 a 1 False] obtain m2 xs where
    m2: "adp_count 511 a 1 False m1 = Some (xs \<noteq> [] \<and> adp_cutoff \<le> 1 + int (count_list xs a), m2)"
      "ok m2" "drawn m2 = drawn m1 @ xs" "List.length xs = 511" by auto
  let ?w = "a # xs"
  have w: "(xs \<noteq> [] \<and> adp_cutoff \<le> 1 + int (count_list xs a)) = bad_window ?w" "List.length ?w = 512"
    using m2(4) by (auto simp: bad_window_def adp_cutoff_def)
  have d: "drawn m2 = drawn m @ ?w" using m1(3) m2(3) by simp
  have step: "adp_run m = (if bad_window ?w then Some (True, m2)
      else let (key, m) = key_pressed m2 in if key then Some (False, m) else adp_run m)"
    using m2(1) unfolding w by (subst adp_run.simps) (simp add: m1(1) adp_window_def)
  show ?case
  proof (cases "bad_window ?w")
    case True
    then show ?thesis by (intro exI [of _ True] exI [of _ m2] exI [of _ "[?w]"]) (use d w(2) in \<open>simp add: step\<close>)
  next
    case False
    from key [OF m2(2)] obtain k m3 where m3: "key_pressed m2 = (k, m3)" "drawn m3 = drawn m2" "\<not> k \<Longrightarrow> ok m3"
      "limit \<le> List.length (drawn m2) \<Longrightarrow> k" by metis
    show ?thesis
    proof (cases k)
      case True
      then show ?thesis
        by (intro exI [of _ False] exI [of _ m3] exI [of _ "[?w]"]) (use d w(2) False m3(1,2) in \<open>simp add: step\<close>)
    next
      case no: False
      then have lt: "List.length (drawn m2) < limit" using m3(4) by (meson not_le)
      have "limit - List.length (drawn m3) < limit - List.length (drawn m)" using lt d m3(2) by simp
      from less.hyps [OF this m3(3) [OF no]] obtain f m' ws where
        ih: "adp_run m3 = Some (f, m')" "ws \<noteq> []" "drawn m' = drawn m3 @ concat ws" "\<forall>w \<in> set ws. List.length w = 512"
          "\<forall>w \<in> set (butlast ws). \<not> bad_window w" "f = bad_window (last ws)"
          "List.length (drawn m') \<le> max limit (List.length (drawn m3)) + 512" by blast
      have "adp_run m = Some (f, m')" using False m3(1) no ih(1) by (simp add: step)
      then show ?thesis
        by (intro exI [of _ f] exI [of _ m'] exI [of _ "?w # ws"]) (use ih(2-7) d w(2) False m3(2) lt in auto)
    qed
  qed
qed

text \<open>The histogram counts what was drawn, at most four million values, exactly.\<close>

definition counts :: "u8 list \<Rightarrow> u32 list" where
  "counts xs = map (\<lambda>i. of_nat (count_list xs (of_nat i))) [0..<256]"

lemma counts_snoc: "(counts xs)[unat x := counts xs ! unat x + 1] = counts (xs @ [x])"
proof (rule nth_equalityI)
  fix i assume "i < List.length ((counts xs)[unat x := counts xs ! unat x + 1])"
  then have i: "i < 256" by (simp add: counts_def)
  have x: "unat x < 256" using unsigned_less [of x] by simp
  have "(of_nat i = x) \<longleftrightarrow> i = unat x"
    using i unat_of_nat_small [of i, where 'a = 8] by auto
  then show "(counts xs)[unat x := counts xs ! unat x + 1] ! i = counts (xs @ [x]) ! i"
    using i x by (auto simp: counts_def nth_list_update)
qed (simp add: counts_def)

lemma hist_loop_result:
  assumes "ok m" "drawn m = pre @ xs" "List.length xs < 4194304"
  shows "\<exists>m' ys. hist_loop (counts xs) (of_nat (List.length xs)) (of_nat (sum_list (map unat xs))) m
      = Some ((counts (xs @ ys), of_nat (List.length (xs @ ys)), of_nat (sum_list (map unat (xs @ ys)))), m')
    \<and> drawn m' = pre @ xs @ ys \<and> ys \<noteq> [] \<and> List.length (xs @ ys) \<le> 4194304
    \<and> List.length (drawn m') \<le> max limit (Suc (List.length (drawn m)))"
  using assms
proof (induction "limit - List.length (drawn m)" arbitrary: m xs rule: less_induct)
  case less
  from sample [OF less.prems(1)] obtain x m1 where m1: "get_sample m = Some (x, m1)" "ok m1" "drawn m1 = drawn m @ [x]" .
  have d: "drawn m1 = pre @ xs @ [x]" using m1(3) less.prems(2) by simp
  have avg: "of_nat (sum_list (map unat xs)) + ucast x = (of_nat (sum_list (map unat (xs @ [x]))) :: u64)"
    by simp
  have cnt: "of_nat (List.length xs) + 1 = (of_nat (List.length (xs @ [x])) :: u32)" by simp
  have le: "n_samples \<le> (of_nat (List.length (xs @ [x])) :: u32) \<longleftrightarrow> 4194304 \<le> List.length (xs @ [x])"
  proof -
    have "unat (of_nat (List.length (xs @ [x])) :: u32) = List.length (xs @ [x])"
      using less.prems(3) by (intro unat_of_nat_small) simp
    then show ?thesis by (simp only: word_le_nat_alt) (simp add: n_samples_def)
  qed
  let ?r = "(counts (xs @ [x]), of_nat (List.length (xs @ [x])) :: u32, of_nat (sum_list (map unat (xs @ [x]))) :: u64)"
  have step: "hist_loop (counts xs) (of_nat (List.length xs)) (of_nat (sum_list (map unat xs))) m
      = (if 4194304 \<le> List.length (xs @ [x]) then Some (?r, m1)
         else let (key, m) = key_pressed m1 in if key then Some (?r, m)
           else hist_loop (counts (xs @ [x])) (of_nat (List.length (xs @ [x]))) (of_nat (sum_list (map unat (xs @ [x])))) m)"
    by (subst hist_loop.simps) (simp only: m1(1) Option.bind_lunit prod.case Let_def counts_snoc avg cnt le)
  show ?case
  proof (cases "4194304 \<le> List.length (xs @ [x])")
    case True
    then show ?thesis unfolding step
      by (intro exI [of _ m1] exI [of _ "[x]"]) (use d m1(3) less.prems(3) in auto)
  next
    case False
    from key [OF m1(2)] obtain k m2 where m2: "key_pressed m1 = (k, m2)" "drawn m2 = drawn m1" "\<not> k \<Longrightarrow> ok m2"
      "limit \<le> List.length (drawn m1) \<Longrightarrow> k" by metis
    show ?thesis
    proof (cases k)
      case True
      with False m2(1) show ?thesis unfolding step
        by (intro exI [of _ m2] exI [of _ "[x]"]) (use d m1(3) m2(2) less.prems(3) in auto)
    next
      case no: False
      then have lt: "List.length (drawn m1) < limit" using m2(4) by (meson not_le)
      have "limit - List.length (drawn m2) < limit - List.length (drawn m)" using lt m1(3) m2(2) by simp
      from less.hyps [OF this m2(3) [OF no], of "xs @ [x]"] d m2(2) False obtain m' ys where
        ih: "hist_loop (counts (xs @ [x])) (of_nat (List.length (xs @ [x]))) (of_nat (sum_list (map unat (xs @ [x])))) m2
            = Some ((counts ((xs @ [x]) @ ys), of_nat (List.length ((xs @ [x]) @ ys)), of_nat (sum_list (map unat ((xs @ [x]) @ ys)))), m')"
          "drawn m' = pre @ (xs @ [x]) @ ys" "List.length ((xs @ [x]) @ ys) \<le> 4194304"
          "List.length (drawn m') \<le> max limit (Suc (List.length (drawn m2)))" by (metis (no_types, lifting) not_le)
      have "hist_loop (counts xs) (of_nat (List.length xs)) (of_nat (sum_list (map unat xs))) m
          = Some ((counts (xs @ x # ys), of_nat (List.length (xs @ x # ys)), of_nat (sum_list (map unat (xs @ x # ys)))), m')"
        unfolding step using False m2(1) no ih(1) by simp
      then show ?thesis using ih(2-4) lt m1(3) m2(2)
        by (intro exI [of _ m'] exI [of _ "x # ys"]) auto
    qed
  qed
qed

end

section \<open>The analysis\<close>

text \<open>Distance from the average, on numbers.\<close>

definition dist_nat :: "nat \<Rightarrow> nat \<Rightarrow> nat" where
  "dist_nat a b = (if a \<le> b then b - a else a - b)"

lemma hist_dev:
  assumes "a \<le> 4194304" "b \<le> 4194304"
  defines "dev \<equiv> (of_nat a - of_nat b :: u32)"
  shows "(if sint dev < 0 then - dev else dev) = of_nat (dist_nat a b)"
proof -
  have "dev = of_int (int a - int b)" by (simp add: dev_def)
  moreover have "sint (of_int (int a - int b) :: u32) = int a - int b"
    unfolding sint_sbintrunc' by (rule signed_take_bit_int_eq_self) (use assms(1,2) in simp_all)
  ultimately have s: "sint dev = int a - int b" by simp
  show ?thesis
  proof (cases "a < b")
    case True
    then have "- dev = of_nat (b - a)" by (simp add: dev_def of_nat_diff)
    with True s show ?thesis by (simp add: dist_nat_def)
  next
    case False
    then have "dev = of_nat (a - b)" by (simp add: dev_def of_nat_diff)
    with False s show ?thesis by (auto simp: dist_nat_def)
  qed
qed

text \<open>After the bins before \<open>n\<close>.\<close>

definition stat_upto :: "nat \<Rightarrow> nat list \<Rightarrow> nat \<Rightarrow> hist_stat \<Rightarrow> bool" where
  "stat_upto a hs n s \<longleftrightarrow> occ_avg_dev s = of_nat (\<Sum>i<n. dist_nat a (hs ! i))
     \<and> unat (occ_max s) = (MAX i \<in> {..<n}. hs ! i) \<and> hs ! unat (bin_max s) = unat (occ_max s)
     \<and> unat (occ_min s) = (MIN i \<in> {..<n}. hs ! i) \<and> hs ! unat (bin_min s) = unat (occ_min s)
     \<and> unat (bin_max s) < n \<and> unat (bin_min s) < n"

lemma Max_lessThan_Suc: "(MAX i \<in> {..<Suc n}. f i) = (if n = 0 then f 0 else max (f n) (MAX i \<in> {..<n}. f i :: nat))"
  by (cases n) (simp_all add: lessThan_Suc)

lemma Min_lessThan_Suc: "(MIN i \<in> {..<Suc n}. f i) = (if n = 0 then f 0 else min (f n) (MIN i \<in> {..<n}. f i :: nat))"
  by (cases n) (simp_all add: lessThan_Suc)

lemma hist_bin_nat:
  assumes "\<forall>i < 256. hs ! i \<le> 4194304" "List.length hs = 256" "a \<le> 4194304" "i < 256"
  shows "hist_bin (of_nat a) (map of_nat hs) i s =
    s\<lparr>occ_avg_dev := occ_avg_dev s + of_nat (dist_nat a (hs ! i)),
      occ_max := (if unat (occ_max s) < hs ! i then of_nat (hs ! i) else occ_max s),
      bin_max := (if unat (occ_max s) < hs ! i then of_nat i else bin_max s),
      occ_min := (if hs ! i < unat (occ_min s) then of_nat (hs ! i) else occ_min s),
      bin_min := (if hs ! i < unat (occ_min s) then of_nat i else bin_min s)\<rparr>"
proof -
  have h: "hs ! i \<le> 4194304" "map of_nat hs ! i = (of_nat (hs ! i) :: u32)" using assms by simp_all
  have u: "unat (of_nat (hs ! i) :: u32) = hs ! i" using h(1) by (intro unat_of_nat_small) simp
  have c: "(of_nat (hs ! i) < w) = (hs ! i < unat w)" "(w < of_nat (hs ! i)) = (unat w < hs ! i)" for w :: u32
    by (simp_all only: word_less_nat_alt u)
  show ?thesis unfolding hist_bin_def Let_def h(2) hist_dev [OF assms(3) h(1)] c by (cases s) simp
qed

lemma hist_bins:
  assumes "\<forall>i < 256. hs ! i \<le> 4194304" "List.length hs = 256" "a \<le> 4194304" "n < 256"
  shows "stat_upto a hs (Suc n) (fold (hist_bin (of_nat a) (map of_nat hs)) [0..<Suc n]
    \<lparr>occ_avg_dev = 0, occ_max = 0, bin_max = 0, occ_min = - 1, bin_min = 0\<rparr>)"
  using assms(4)
proof (induction n)
  case 0
  have "unat (of_nat (hs ! 0) :: u32) = hs ! 0"
    by (rule unat_of_nat_small) (use assms(1) [rule_format, of 0] in simp)
  moreover have "unat (- 1 :: u32) = 4294967295" by (simp add: unsigned_minus_1_eq_mask mask_eq_exp_minus_1)
  moreover have "hs ! 0 < 4294967295" using assms(1) [rule_format, of 0] by simp
  ultimately show ?case
    by (simp add: hist_bin_nat [OF assms(1-3)] stat_upto_def Max_lessThan_Suc Min_lessThan_Suc)
next
  case (Suc n)
  let ?s = "fold (hist_bin (of_nat a) (map of_nat hs)) [0..<Suc n]
    \<lparr>occ_avg_dev = 0, occ_max = 0, bin_max = 0, occ_min = - 1, bin_min = 0\<rparr>"
  let ?h = "hs ! Suc n"
  have ih: "stat_upto a hs (Suc n) ?s" using Suc by simp
  have u: "unat (of_nat ?h :: u32) = ?h" "unat (of_nat (Suc n) :: u32) = Suc n"
    by (rule unat_of_nat_small; use assms(1) [rule_format, OF Suc.prems] Suc.prems in simp)+
  have "fold (hist_bin (of_nat a) (map of_nat hs)) [0..<Suc (Suc n)] s0
      = hist_bin (of_nat a) (map of_nat hs) (Suc n) (fold (hist_bin (of_nat a) (map of_nat hs)) [0..<Suc n] s0)" for s0
    by (simp only: upt_Suc le0 if_True fold_append comp_def fold_simps)
  then show ?case
    using ih by (auto simp: hist_bin_nat [OF assms(1-3) Suc.prems] stat_upto_def u u(2) [simplified]
        Max_lessThan_Suc [of _ "Suc n"] Min_lessThan_Suc [of _ "Suc n"] max_def min_def simp del: upt_Suc of_nat_Suc)
qed

text \<open>A histogram of at most four million values: exact sums, extremes that are counts, at their bins.\<close>

lemma hist_analyze_nat:
  assumes "\<forall>i < 256. hs ! i \<le> 4194304" "List.length hs = 256" "a \<le> 4194304"
  defines "s \<equiv> hist_analyze (of_nat a) (map of_nat hs)"
  shows "occ_avg_dev s = of_nat (\<Sum>i<256. dist_nat a (hs ! i)) div 256"
    and "unat (occ_max s) = (MAX i \<in> {..<256}. hs ! i)" "hs ! unat (bin_max s) = unat (occ_max s)" "unat (bin_max s) < 256"
    and "unat (occ_min s) = (MIN i \<in> {..<256}. hs ! i)" "hs ! unat (bin_min s) = unat (occ_min s)" "unat (bin_min s) < 256"
proof -
  have e: "Suc 255 = 256" by simp
  show "occ_avg_dev s = of_nat (\<Sum>i<256. dist_nat a (hs ! i)) div 256"
    "unat (occ_max s) = (MAX i \<in> {..<256}. hs ! i)" "hs ! unat (bin_max s) = unat (occ_max s)" "unat (bin_max s) < 256"
    "unat (occ_min s) = (MIN i \<in> {..<256}. hs ! i)" "hs ! unat (bin_min s) = unat (occ_min s)" "unat (bin_min s) < 256"
    using hist_bins [OF assms(1-3), of 255, unfolded e] by (auto simp: s_def hist_analyze_def stat_upto_def Let_def simp del: upt_Suc)
qed

section \<open>The generator's registers and queue\<close>

text \<open>
  After \<^verbatim>\<open>rtl/core/neorv32_trng.vhd\<close>: \<open>gen n\<close> is the byte the neoTRNG core delivers in cycle \<open>n\<close>, if any.  A byte
  that meets a full queue is lost; a disabled generator keeps its queue empty; an empty queue reads as zero.
\<close>

record trng_conf =
  sim_mode :: bool
  log2_fifo :: nat
  log2_rbit :: nat
  num_ro :: nat
  num_inv :: nat

record trng_hw =
  rn_en :: bool
  rn_fifo :: "u8 list"

definition trng_access :: "event \<Rightarrow> trng_hw \<Rightarrow> trng_hw" where
  "trng_access e d = (case e of
     Wr l v \<Rightarrow>
       if l = TRNG_CTRL then
         \<lparr>rn_en = bit v (trng_ctrl TRNG_CTRL_EN),
          rn_fifo = (if \<not> bit v (trng_ctrl TRNG_CTRL_EN) \<or> bit v (trng_ctrl TRNG_CTRL_FIFO_CLR) then [] else rn_fifo d)\<rparr>
       else d
   | Rd l v \<Rightarrow> if l = TRNG_DATA then d\<lparr>rn_fifo := tl (rn_fifo d)\<rparr> else d
   | _ \<Rightarrow> d)"

definition trng_cycle :: "trng_conf \<Rightarrow> u8 option \<Rightarrow> trng_hw \<Rightarrow> trng_hw" where
  "trng_cycle C g d = (case g of
     None \<Rightarrow> d
   | Some x \<Rightarrow> if rn_en d \<and> List.length (rn_fifo d) < 2 ^ log2_fifo C then d\<lparr>rn_fifo := rn_fifo d @ [x]\<rparr> else d)"

fun trng_state :: "trng_conf \<Rightarrow> (nat \<Rightarrow> u8 option) \<Rightarrow> event list \<Rightarrow> trng_hw" where
  "trng_state C gen [] = \<lparr>rn_en = False, rn_fifo = []\<rparr>"
| "trng_state C gen (e # h) = trng_cycle C (gen (List.length h)) (trng_access e (trng_state C gen h))"

definition trng_ctrl_read :: "trng_conf \<Rightarrow> trng_hw \<Rightarrow> u32" where
  "trng_ctrl_read C d =
     flag (rn_en d) (trng_ctrl TRNG_CTRL_EN)
     OR flag (sim_mode C) (trng_ctrl TRNG_CTRL_SIM_MODE)
     OR flag (rn_fifo d \<noteq> []) (trng_ctrl TRNG_CTRL_AVAIL)
     OR push_bit (trng_ctrl TRNG_CTRL_FIFO_LSB) (of_nat (log2_fifo C) AND 0xf)
     OR push_bit (trng_ctrl TRNG_CTRL_NBIT_LSB) (of_nat (log2_rbit C) AND 0xf)
     OR push_bit (trng_ctrl TRNG_CTRL_NRO_LSB) (of_nat (num_ro C) AND 0xff)
     OR push_bit (trng_ctrl TRNG_CTRL_NINV_LSB) (of_nat (num_inv C) AND 0xfff)"

definition trng_rtl :: "trng_conf \<Rightarrow> (nat \<Rightarrow> u8 option) \<Rightarrow> (event list \<Rightarrow> loc \<Rightarrow> u32) \<Rightarrow> event list \<Rightarrow> loc \<Rightarrow> u32" where
  "trng_rtl C gen rest h l =
     (if l = TRNG_CTRL then trng_ctrl_read C (trng_state C gen h)
      else if l = TRNG_DATA then (case rn_fifo (trng_state C gen h) of [] \<Rightarrow> 0 | x # _ \<Rightarrow> ucast x)
      else rest h l)"

lemma low_mask_bits: "(0xf :: u32) = mask 4" "(0xff :: u32) = mask 8" "(0xfff :: u32) = mask 12"
  by (simp_all add: mask_eq_exp_minus_1)

lemma trng_ctrl_avail: "no_sample (trng_ctrl_read C d) \<longleftrightarrow> rn_fifo d = []"
  unfolding no_sample_def and_BIT_eq_0 trng_ctrl_read_def low_mask_bits
  by (auto simp: bit_simps flag_def)

text \<open>An enabled generator that never falls silent for good, with somebody at the keyboard.\<close>

definition trng_runs :: "trng_conf \<Rightarrow> (nat \<Rightarrow> u8 option) \<Rightarrow> (event list \<Rightarrow> loc \<Rightarrow> u32) \<Rightarrow> nat \<Rightarrow> mach \<Rightarrow> bool" where
  "trng_runs C gen rest limit m \<longleftrightarrow> hw m = trng_rtl C gen rest \<and> rn_en (trng_state C gen (log m))
     \<and> (\<forall>n. \<exists>k\<ge>n. gen k \<noteq> None)
     \<and> (\<forall>h. limit \<le> List.length (read_in TRNG_DATA h) \<longrightarrow> bit (rest h (UART_CTRL UART0)) (uart_ctrl UART_CTRL_RX_NEMPTY))"

lemma trng_cycle_en [simp]: "rn_en (trng_cycle C g d) = rn_en d"
  by (simp add: trng_cycle_def split: option.split)

lemma trng_runs_rd:
  assumes "trng_runs C gen rest limit m"
  shows "trng_runs C gen rest limit (snd (rd l m))"
  using assms by (simp add: trng_runs_def rd_def trng_access_def)

lemma trng_cycle_fills:
  "rn_en d \<Longrightarrow> rn_fifo d \<noteq> [] \<or> g \<noteq> None \<Longrightarrow> rn_fifo (trng_cycle C g d) \<noteq> []"
  by (cases "rn_fifo d") (auto simp: trng_cycle_def split: option.split)

lemma trng_fills:
  assumes "trng_runs C gen rest limit m"
  shows "\<exists>n. rn_fifo (trng_state C gen (log (rds TRNG_CTRL n m))) \<noteq> []"
proof -
  from assms obtain k where k: "List.length (log m) \<le> k" "gen k \<noteq> None"
    unfolding trng_runs_def by blast
  let ?n = "k - List.length (log m)"
  have r: "trng_runs C gen rest limit (rds TRNG_CTRL n m)" for n
    using assms by (induction n) (simp_all add: rds_snoc trng_runs_rd del: rds_Suc)
  have "rn_fifo (trng_state C gen (log (rds TRNG_CTRL (Suc ?n) m))) \<noteq> []"
    using r [of ?n] k
    by (simp add: rds_snoc trng_runs_def rd_def trng_access_def trng_cycle_fills del: rds_Suc)
  then show ?thesis by blast
qed

interpretation trng_rtl: sample_source "trng_runs C gen rest limit" limit for C gen rest limit
proof (unfold_locales, goal_cases)
  case (1 m) then show ?case by (rule trng_runs_rd)
next
  case (2 m)
  from trng_fills [OF 2] obtain n where n: "rn_fifo (trng_state C gen (log (rds TRNG_CTRL n m))) \<noteq> []" by blast
  have "hw (rds TRNG_CTRL n m) = trng_rtl C gen rest" using 2 by (simp add: trng_runs_def)
  with n show ?case by (intro exI [of _ n]) (simp add: rd_val_def trng_rtl_def trng_ctrl_avail)
next
  case (3 m) then show ?case by (rule trng_runs_rd)
next
  case (4 m) then show ?case by (rule trng_runs_rd)
next
  case (5 m) then show ?case by (simp add: trng_runs_def rd_val_def trng_rtl_def read_from_def)
qed

text \<open>The driver's configuration queries return the configuration.\<close>

lemma ctrl_bit:
  "bit (trng_ctrl_read C d) n \<longleftrightarrow> n < 32 \<and>
     (n = 0 \<and> rn_en d \<or> n = 2 \<and> sim_mode C \<or> n = 3 \<and> rn_fifo d \<noteq> []
      \<or> 4 \<le> n \<and> n < 8 \<and> bit (of_nat (log2_fifo C) :: u32) (n - 4) \<or> 8 \<le> n \<and> n < 12 \<and> bit (of_nat (log2_rbit C) :: u32) (n - 8)
      \<or> 12 \<le> n \<and> n < 20 \<and> bit (of_nat (num_ro C) :: u32) (n - 12) \<or> 20 \<le> n \<and> bit (of_nat (num_inv C) :: u32) (n - 20))"
proof -
  have f: "bit (flag b i) n \<longleftrightarrow> b \<and> n = i \<and> i < 32" for b i by (simp add: flag_def)
  have p: "bit (push_bit i (w AND mask k)) n \<longleftrightarrow> i \<le> n \<and> n < i + k \<and> bit w (n - i) \<and> n < 32" for i k and w :: u32
    by (auto simp: bit_simps)
  show ?thesis
    unfolding trng_ctrl_read_def low_mask_bits trng_ctrl.simps bit_or_iff f p by (cases "n < 32"; simp; argo?)
qed

lemma masked_nat: "n < 2 ^ k \<Longrightarrow> (of_nat n :: 'a::len word) AND mask k = of_nat n"
  by (simp flip: take_bit_eq_mask add: take_bit_of_nat take_bit_nat_eq_self)

lemma field_nat:
  assumes "n < 2 ^ k" "\<And>i. i < k \<Longrightarrow> lsb + i < 32 \<and> bit v (lsb + i) = bit (of_nat n :: u32) i"
  shows "drop_bit lsb v AND mask k = (of_nat n :: u32)"
proof -
  have "drop_bit lsb v AND mask k = of_nat n AND mask k"
    by (rule bit_word_eqI) (use assms(2) in \<open>auto simp: bit_simps\<close>)
  then show ?thesis by (simp only: masked_nat [OF assms(1)])
qed

lemma shl32_1: "n < 16 \<Longrightarrow> shl32 1 (of_nat n) = 2 ^ n"
proof -
  assume n: "n < 16"
  have "(of_nat n :: u32) AND 31 = of_nat n"
    using n masked_nat [of n 5, where 'a = 32] by (simp add: mask_eq_exp_minus_1)
  moreover have "unat (of_nat n :: u32) = n" by (rule unat_of_nat_small) (use n in simp)
  ultimately show ?thesis by (simp add: shl32_def push_bit_eq_mult)
qed

lemma trng_queries:
  assumes "hw m = trng_rtl C gen rest" "log2_fifo C < 16" "log2_rbit C < 16" "num_ro C < 256" "num_inv C < 4096"
  shows "fst (neorv32_trng_get_fifo_depth m) = 2 ^ log2_fifo C"
    and "fst (neorv32_trng_get_num_raw_bits m) = 2 ^ log2_rbit C"
    and "fst (neorv32_trng_get_num_ros m) = of_nat (num_ro C)"
    and "fst (neorv32_trng_get_num_inv m) = of_nat (num_inv C)"
proof -
  let ?v = "trng_ctrl_read C (trng_state C gen (log m))"
  define m' where "m' = snd (rd TRNG_CTRL m)"
  have v: "rd TRNG_CTRL m = (?v, m')"
    using assms(1) by (simp add: m'_def rd_def rd_val_def trng_rtl_def)
  have "drop_bit 4 ?v AND mask 4 = of_nat (log2_fifo C)" "drop_bit 8 ?v AND mask 4 = of_nat (log2_rbit C)"
    "drop_bit 12 ?v AND mask 8 = of_nat (num_ro C)" "drop_bit 20 ?v AND mask 12 = of_nat (num_inv C)"
    using assms(2-5) by (auto simp: ctrl_bit intro!: field_nat)
  note q = this [folded low_mask_bits]
  show "fst (neorv32_trng_get_fifo_depth m) = 2 ^ log2_fifo C"
    unfolding neorv32_trng_get_fifo_depth_def reg_pow2_def trng_ctrl.simps v prod.case Let_def fst_conv q
    by (rule shl32_1 [OF assms(2)])
  show "fst (neorv32_trng_get_num_raw_bits m) = 2 ^ log2_rbit C"
    unfolding neorv32_trng_get_num_raw_bits_def reg_pow2_def trng_ctrl.simps v prod.case Let_def fst_conv q
    by (rule shl32_1 [OF assms(3)])
  show "fst (neorv32_trng_get_num_ros m) = of_nat (num_ro C)"
    unfolding neorv32_trng_get_num_ros_def trng_ctrl.simps v prod.case Let_def fst_conv q ..
  show "fst (neorv32_trng_get_num_inv m) = of_nat (num_inv C)"
    unfolding neorv32_trng_get_num_inv_def trng_ctrl.simps v prod.case Let_def fst_conv q ..
qed

end
