(* ===== verification/Aux_Print.thy ===== *)
theory Aux_Print
  imports Cpu Rte_Handlers
begin

text \<open>
  The printing functions of \<^verbatim>\<open>sw/lib/source/neorv32_aux.c\<close>: the configuration of the processor, its version,
  its logo and its licence, on UART0.  What a function prints is a function of the registers it reads; the
  detection of memory protection and performance monitors writes CSRs on the way.  The arguments of a call
  are evaluated from left to right.
\<close>

section \<open>Text with and without a condition\<close>

definition say :: "u8 list \<Rightarrow> arg list \<Rightarrow> mach \<Rightarrow> mach option" where
  "say = neorv32_uart_printf UART0"

text \<open>\<^verbatim>\<open>if (REG & (1 << n)) { printf(a); } else { printf(b); }\<close>\<close>

definition say_if :: "loc \<Rightarrow> nat \<Rightarrow> u8 list \<Rightarrow> u8 list \<Rightarrow> mach \<Rightarrow> mach option" where
  "say_if r n a b m = (let (v, m) = reg_test r n m in if v \<noteq> 0 then say a [] m else say b [] m)"

text \<open>A sequence of \<^verbatim>\<open>if (tmp & (1 << n)) { printf(s); }\<close>\<close>

fun say_set :: "u32 \<Rightarrow> (nat \<times> string) list \<Rightarrow> mach \<Rightarrow> mach option" where
  "say_set tmp [] m = Some m"
| "say_set tmp ((n, s) # flags) m =
     do { m \<leftarrow> (if tmp AND BIT n \<noteq> 0 then say (str s) [] m else Some m); say_set tmp flags m }"

section \<open>Version, about, logo, licence\<close>

text \<open>The division by repeated subtraction: \<^verbatim>\<open>tmp\<close> and \<^verbatim>\<open>cnt\<close> are characters.\<close>

function bcd_split :: "u8 \<Rightarrow> u8 \<Rightarrow> u8 \<times> u8" where
  "bcd_split tmp cnt = (if 16 \<le> tmp then bcd_split (tmp - 16) (cnt + 1) else (tmp, cnt))"
  by pat_completeness auto
termination
  by (relation "measure (\<lambda>(tmp, _). unat tmp)") (auto simp: word_le_nat_alt unat_sub)

declare bcd_split.simps [simp del]

fun version_loop :: "u32 \<Rightarrow> nat list \<Rightarrow> mach \<Rightarrow> mach option" where
  "version_loop impid [] m = Some m"
| "version_loop impid (i # is) m =
     (let (tmp, cnt) = bcd_split (ucast (drop_bit (24 - 8 * i) impid)) 0
      in do {
        m \<leftarrow> (if cnt \<noteq> 0 then neorv32_uart_putc UART0 (0x30 + cnt) m else Some m);
        m \<leftarrow> neorv32_uart_putc UART0 (0x30 + tmp) m;
        m \<leftarrow> (if i < 3 then neorv32_uart_putc UART0 0x2e m else Some m);
        version_loop impid is m
      })"

definition neorv32_aux_print_hw_version :: "u32 \<Rightarrow> mach \<Rightarrow> mach option" where
  "neorv32_aux_print_hw_version impid m =
     (let (uart, m) = neorv32_uart_available UART0 m
      in if uart \<noteq> 0 then version_loop impid [0, 1, 2, 3] m else Some m)"

definition about_text :: "u8 list" where
  "about_text =
     str ''The NEORV32 RISC-V Processor, github.com/stnolting/neorv32'' @ [10]
     @ str ''Copyright (c) NEORV32 contributors.'' @ [10]
     @ str ''Copyright (c) 2020 - 2026, Stephan Nolting. All rights reserved.'' @ [10]
     @ str ''SPDX-License-Identifier: BSD-3-Clause'' @ [10]"

definition neorv32_aux_print_about :: "mach \<Rightarrow> mach option" where
  "neorv32_aux_print_about m =
     (let (uart, m) = neorv32_uart_available UART0 m
      in if uart \<noteq> 0 then neorv32_uart_puts UART0 about_text m else Some m)"

definition logo_c :: "u16 list list" where
  "logo_c =
    [[0x0000, 0x0000, 0x0000, 0x0000, 0x0000, 0x0300, 0xc630],
     [0x60c7, 0xfc7f, 0x87f8, 0xc0c7, 0xf87f, 0x8303, 0xfffc],
     [0xf0cc, 0x00c0, 0xcc0c, 0xc0cc, 0x0cc0, 0xc30f, 0x000f],
     [0xd8cc, 0x00c0, 0xcc0c, 0xc0c0, 0x0c01, 0x8303, 0x1f8c],
     [0xcccf, 0xf8c0, 0xcff8, 0xc0c0, 0xf806, 0x030f, 0x1f8f],
     [0xc6cc, 0x00c0, 0xcc18, 0x6180, 0x0c18, 0x0303, 0x1f8c],
     [0xc3cc, 0x00c0, 0xcc0c, 0x330c, 0x0c60, 0x030f, 0x000f],
     [0xc187, 0xfc7f, 0x8c06, 0x0c07, 0xf8ff, 0xc303, 0xfffc],
     [0x0000, 0x0000, 0x0000, 0x0000, 0x0000, 0x0300, 0xc630]]"

text \<open>The bits of a word from the most significant one on.\<close>

fun logo_bits :: "nat \<Rightarrow> u16 \<Rightarrow> mach \<Rightarrow> mach option" where
  "logo_bits 0 tmp m = Some m"
| "logo_bits (Suc z) tmp m =
     do {
       m \<leftarrow> neorv32_uart_putc UART0 (if sint tmp < 0 then 0x23 else 0x20) m;
       logo_bits z (push_bit 1 tmp) m
     }"

fun logo_row :: "u16 list \<Rightarrow> mach \<Rightarrow> mach option" where
  "logo_row [] m = Some m"
| "logo_row (w # ws) m = do { m \<leftarrow> logo_bits 16 w m; logo_row ws m }"

fun logo_rows :: "u16 list list \<Rightarrow> mach \<Rightarrow> mach option" where
  "logo_rows [] m = Some m"
| "logo_rows (r # rs) m =
     do { m \<leftarrow> neorv32_uart_puts UART0 [10] m; m \<leftarrow> logo_row r m; logo_rows rs m }"

definition neorv32_aux_print_logo :: "mach \<Rightarrow> mach option" where
  "neorv32_aux_print_logo m =
     (let (uart, m) = neorv32_uart_available UART0 m
      in if uart \<noteq> 0 then do { m \<leftarrow> logo_rows logo_c m; neorv32_uart_puts UART0 [10] m } else Some m)"

definition license_text :: "u8 list" where
  "license_text =
     [10]
     @ str ''BSD 3-Clause License'' @ [10, 10]
     @ str ''Copyright (c) NEORV32 contributors.'' @ [10]
     @ str ''Copyright (c) 2020 - 2026, Stephan Nolting. All rights reserved.'' @ [10, 10]
     @ str ''Redistribution and use in source and binary forms, with or without modification, are'' @ [10]
     @ str ''permitted provided that the following conditions are met:'' @ [10, 10]
     @ str ''1. Redistributions of source code must retain the above copyright notice, this list of'' @ [10]
     @ str ''   conditions and the following disclaimer.'' @ [10, 10]
     @ str ''2. Redistributions in binary form must reproduce the above copyright notice, this list of'' @ [10]
     @ str ''   conditions and the following disclaimer in the documentation and/or other materials'' @ [10]
     @ str ''   provided with the distribution.'' @ [10, 10]
     @ str ''3. Neither the name of the copyright holder nor the names of its contributors may be used to'' @ [10]
     @ str ''   endorse or promote products derived from this software without specific prior written'' @ [10]
     @ str ''   permission.'' @ [10, 10]
     @ str ''THIS SOFTWARE IS PROVIDED BY THE COPYRIGHT HOLDERS AND CONTRIBUTORS '' @ [34]
     @ str ''AS IS'' @ [34]
     @ str '' AND ANY EXPRESS'' @ [10]
     @ str ''OR IMPLIED WARRANTIES, INCLUDING, BUT NOT LIMITED TO, THE IMPLIED WARRANTIES OF'' @ [10]
     @ str ''MERCHANTABILITY AND FITNESS FOR A PARTICULAR PURPOSE ARE DISCLAIMED. IN NO EVENT SHALL THE'' @ [10]
     @ str ''COPYRIGHT HOLDER OR CONTRIBUTORS BE LIABLE FOR ANY DIRECT, INDIRECT, INCIDENTAL, SPECIAL,'' @ [10]
     @ str ''EXEMPLARY, OR CONSEQUENTIAL DAMAGES (INCLUDING, BUT NOT LIMITED TO, PROCUREMENT OF SUBSTITUTE'' @ [10]
     @ str ''GOODS OR SERVICES; LOSS OF USE, DATA, OR PROFITS; OR BUSINESS INTERRUPTION) HOWEVER CAUSED'' @ [10]
     @ str ''AND ON ANY THEORY OF LIABILITY, WHETHER IN CONTRACT, STRICT LIABILITY, OR TORT (INCLUDING'' @ [10]
     @ str ''NEGLIGENCE OR OTHERWISE) ARISING IN ANY WAY OUT OF THE USE OF THIS SOFTWARE, EVEN IF ADVISED'' @ [10]
     @ str ''OF THE POSSIBILITY OF SUCH DAMAGE.'' @ [10, 10]
     @ str ''SPDX-License-Identifier: BSD-3-Clause'' @ [10, 10]"

definition neorv32_aux_print_license :: "mach \<Rightarrow> mach option" where
  "neorv32_aux_print_license m =
     (let (uart, m) = neorv32_uart_available UART0 m
      in if uart \<noteq> 0 then neorv32_uart_puts UART0 license_text m else Some m)"

section \<open>The configuration\<close>

definition print_general :: "mach \<Rightarrow> mach option" where
  "print_general m =
     do {
       m \<leftarrow> say ([10, 10] @ str ''<< NEORV32 Processor Configuration >>'' @ [10, 10]) [] m;
       m \<leftarrow> say (str ''Is simulation:       '') [] m;
       m \<leftarrow> say_if SYSINFO_SOC (sysinfo_soc SYSINFO_SOC_SIM) (str ''yes'' @ [10]) (str ''no'' @ [10]) m;
       let (n, m) = neorv32_sysinfo_get_numcores m;
       m \<leftarrow> say (str ''CPU cores (harts):   %u'' @ [10]) [AInt n] m;
       let (clk, m) = neorv32_sysinfo_get_clk m;
       m \<leftarrow> say (str ''Clock speed:         %u Hz'' @ [10]) [AInt clk] m;
       m \<leftarrow> say (str ''On-chip debugger:    '') [] m;
       let (ocd, m) = reg_test SYSINFO_SOC (sysinfo_soc SYSINFO_SOC_OCD) m;
       if ocd \<noteq> 0 then do {
         m \<leftarrow> say (str ''enabled'') [] m;
         let (auth, m) = reg_test SYSINFO_SOC (sysinfo_soc SYSINFO_SOC_OCD_AUTH) m;
         m \<leftarrow> (if auth \<noteq> 0 then say (str '' + authentication'') [] m else Some m);
         (trig, m) \<leftarrow> neorv32_cpu_hwtrig_get_number m;
         say (str '', %u HW trigger(s)'' @ [10]) [AInt (of_int trig)] m
       }
       else say (str ''disabled'' @ [10]) [] m
     }"

definition print_ids :: "mach \<Rightarrow> mach option" where
  "print_ids m =
     do {
       let (hart, m) = neorv32_cpu_csr_read CSR_MHARTID m;
       let (vendor, m) = neorv32_cpu_csr_read CSR_MVENDORID m;
       let (arch, m) = neorv32_cpu_csr_read CSR_MARCHID m;
       let (imp, m) = neorv32_cpu_csr_read CSR_MIMPID m;
       m \<leftarrow> say (str ''Hart ID:             0x%x'' @ [10] @ str ''Vendor ID:           0x%x'' @ [10]
         @ str ''Architecture ID:     0x%x'' @ [10] @ str ''Implementation ID:   0x%x (v'')
         [AInt hart, AInt vendor, AInt arch, AInt imp] m;
       let (imp, m) = neorv32_cpu_csr_read CSR_MIMPID m;
       m \<leftarrow> neorv32_aux_print_hw_version imp m;
       say (str '')'' @ [10]) [] m
     }"

text \<open>The letters of the base extensions.\<close>

fun print_letters :: "u32 \<Rightarrow> nat list \<Rightarrow> mach \<Rightarrow> mach option" where
  "print_letters tmp [] m = Some m"
| "print_letters tmp (i # is) m =
     do {
       m \<leftarrow> (if tmp AND BIT i \<noteq> 0 then do {
                m \<leftarrow> neorv32_uart_putc UART0 (0x41 + of_nat i) m;
                neorv32_uart_putc UART0 0x20 m
              }
              else Some m);
       print_letters tmp is m
     }"

definition isa_flags :: "(nat \<times> string) list" where
  "isa_flags =
    [(csr_mxisa CSR_MXISA_ZAAMO, ''Zaamo ''),
     (csr_mxisa CSR_MXISA_ZALRSC, ''Zalrsc ''),
     (csr_mxisa CSR_MXISA_ZCA, ''Zca ''),
     (csr_mxisa CSR_MXISA_ZCB, ''Zcb ''),
     (csr_mxisa CSR_MXISA_ZBA, ''Zba ''),
     (csr_mxisa CSR_MXISA_ZBB, ''Zbb ''),
     (csr_mxisa CSR_MXISA_ZBKB, ''Zbkb ''),
     (csr_mxisa CSR_MXISA_ZBKC, ''Zbkc ''),
     (csr_mxisa CSR_MXISA_ZBKX, ''Zbkx ''),
     (csr_mxisa CSR_MXISA_ZBS, ''Zbs ''),
     (csr_mxisa CSR_MXISA_ZFINX, ''Zfinx ''),
     (csr_mxisa CSR_MXISA_ZIBI, ''Zibi ''),
     (csr_mxisa CSR_MXISA_ZICNTR, ''Zicntr ''),
     (csr_mxisa CSR_MXISA_ZICOND, ''Zicond ''),
     (csr_mxisa CSR_MXISA_ZICSR, ''Zicsr ''),
     (csr_mxisa CSR_MXISA_ZIFENCEI, ''Zifencei ''),
     (csr_mxisa CSR_MXISA_ZIHPM, ''Zihpm ''),
     (csr_mxisa CSR_MXISA_ZIMOP, ''Zimop ''),
     (csr_mxisa CSR_MXISA_ZKN, ''Zkn ''),
     (csr_mxisa CSR_MXISA_ZKND, ''Zknd ''),
     (csr_mxisa CSR_MXISA_ZKNE, ''Zkne ''),
     (csr_mxisa CSR_MXISA_ZKNH, ''Zknh ''),
     (csr_mxisa CSR_MXISA_ZKS, ''Zks ''),
     (csr_mxisa CSR_MXISA_ZKSED, ''Zksed ''),
     (csr_mxisa CSR_MXISA_ZKSH, ''Zksh ''),
     (csr_mxisa CSR_MXISA_ZKT, ''Zkt ''),
     (csr_mxisa CSR_MXISA_ZMMUL, ''Zmmul ''),
     (csr_mxisa CSR_MXISA_SDEXT, ''Sdext ''),
     (csr_mxisa CSR_MXISA_SDTRIG, ''Sdtrig ''),
     (csr_mxisa CSR_MXISA_SMCNTRPMF, ''Smcntrpmf ''),
     (csr_mxisa CSR_MXISA_SMPMP, ''Smpmp ''),
     (csr_mxisa CSR_MXISA_XCFU, ''Xcfu '')]"

definition print_isa :: "mach \<Rightarrow> mach option" where
  "print_isa m =
     do {
       m \<leftarrow> say (str ''Architecture:        '') [] m;
       let (tmp, m) = neorv32_cpu_csr_read CSR_MISA m;
       m \<leftarrow> (if drop_bit 30 tmp AND 3 = 1 then say (str ''rv32-little'') [] m else say (str ''unknown'') [] m);
       m \<leftarrow> say ([10] @ str ''ISA extensions:      '') [] m;
       let (tmp, m) = neorv32_cpu_csr_read CSR_MISA m;
       m \<leftarrow> print_letters tmp [0..<26] m;
       let (tmp, m) = neorv32_cpu_csr_read CSR_MXISA m;
       say_set tmp isa_flags m
     }"

text \<open>Whether entry 0 accepts a mode.\<close>

definition try_mode :: "pmp_mode \<Rightarrow> string \<Rightarrow> mach \<Rightarrow> mach option" where
  "try_mode mode name m =
     (let code = push_bit (pmpcfg PMPCFG_A_LSB) (of_nat (pmp_mode_code mode));
          m = neorv32_cpu_csr_write CSR_PMPCFG0 code m;
          (v, m) = neorv32_cpu_csr_read CSR_PMPCFG0 m
      in if v AND 0xff = code then say (str name) [] m else Some m)"

definition print_pmp :: "mach \<Rightarrow> mach option" where
  "print_pmp m =
     do {
       m \<leftarrow> say ([10] @ str ''Phys. Memory Prot.:  '') [] m;
       let (regions, m) = neorv32_cpu_pmp_get_num_regions m;
       if regions \<noteq> 0 then do {
         (gran, m) \<leftarrow> neorv32_cpu_pmp_get_granularity m;
         m \<leftarrow> say (str ''%u region(s), %u bytes granularity, modes ='') [AInt regions, AInt gran] m;
         m \<leftarrow> try_mode PMP_OFF '' OFF'' m;
         m \<leftarrow> try_mode PMP_TOR '' TOR'' m;
         m \<leftarrow> try_mode PMP_NA4 '' NA4'' m;
         m \<leftarrow> try_mode PMP_NAPOT '' NAPOT'' m;
         Some (neorv32_cpu_csr_write CSR_PMPCFG0 0 m)
       }
       else say (str ''none'') [] m
     }"

definition print_hpm :: "mach \<Rightarrow> mach option" where
  "print_hpm m =
     do {
       m \<leftarrow> say ([10] @ str ''HPM counters:        '') [] m;
       let (n, m) = neorv32_cpu_hpm_get_num_counters m;
       if n \<noteq> 0 then
         (let (width, m) = neorv32_cpu_hpm_get_size m
          in say (str ''%u counter(s), %u bit(s) wide'') [AInt n, AInt width] m)
       else say (str ''none'') [] m
     }"

definition print_boot :: "mach \<Rightarrow> mach option" where
  "print_boot m =
     do {
       m \<leftarrow> say ([10] @ str ''Boot configuration:  '') [] m;
       let (boot_config, m) = neorv32_sysinfo_get_bootmode m;
       if boot_config = 0 then say (str ''boot via bootloader (0)'' @ [10]) [] m
       else if boot_config = 1 then say (str ''boot from custom address (1)'' @ [10]) [] m
       else if boot_config = 2 then say (str ''boot from pre-initialized IMEM (2)'' @ [10]) [] m
       else say (str ''unknown (%u)'' @ [10]) [AInt boot_config] m
     }"

definition print_memories :: "mach \<Rightarrow> mach option" where
  "print_memories m =
     do {
       m \<leftarrow> say (str ''Internal IMEM:       '') [] m;
       let (imem, m) = reg_test SYSINFO_SOC (sysinfo_soc SYSINFO_SOC_IMEM) m;
       m \<leftarrow> (if imem \<noteq> 0 then
                (let (n, m) = neorv32_sysinfo_get_imemsize m in say (str ''%u bytes'' @ [10]) [AInt n] m)
              else say (str ''none'' @ [10]) [] m);
       m \<leftarrow> say (str ''Internal DMEM:       '') [] m;
       let (dmem, m) = reg_test SYSINFO_SOC (sysinfo_soc SYSINFO_SOC_DMEM) m;
       if dmem \<noteq> 0 then
         (let (n, m) = neorv32_sysinfo_get_dmemsize m in say (str ''%u bytes'' @ [10]) [AInt n] m)
       else say (str ''none'' @ [10]) [] m
     }"

text \<open>One cache: its flag, the fields of its block size and number of blocks, its burst flag.\<close>

definition print_cache ::
  "string \<Rightarrow> sysinfo_soc_bit \<Rightarrow> sysinfo_cache_bit \<Rightarrow> sysinfo_cache_bit \<Rightarrow> sysinfo_cache_bit \<Rightarrow> mach \<Rightarrow> mach option" where
  "print_cache name soc bsize blocks bursts m =
     do {
       m \<leftarrow> say (str name) [] m;
       let (there, m) = reg_test SYSINFO_SOC (sysinfo_soc soc) m;
       if there \<noteq> 0 then do {
         let (block_size, m) = reg_pow2 SYSINFO_CACHE (sysinfo_cache bsize) m;
         let (num_blocks, m) = reg_pow2 SYSINFO_CACHE (sysinfo_cache blocks) m;
         m \<leftarrow> say (str ''%u bytes (%ux%u)'') [AInt (num_blocks * block_size), AInt num_blocks, AInt block_size] m;
         say_if SYSINFO_CACHE (sysinfo_cache bursts) (str '', bursts enabled'' @ [10]) (str '', no bursts'' @ [10]) m
       }
       else say (str ''none'') [] m
     }"

definition print_caches :: "mach \<Rightarrow> mach option" where
  "print_caches m =
     do {
       m \<leftarrow> print_cache ''CPU I-cache:         '' SYSINFO_SOC_ICACHE SYSINFO_CACHE_INST_BLOCK_SIZE_0
              SYSINFO_CACHE_INST_NUM_BLOCKS_0 SYSINFO_CACHE_INST_BURSTS_EN m;
       print_cache ''CPU D-cache:         '' SYSINFO_SOC_DCACHE SYSINFO_CACHE_DATA_BLOCK_SIZE_0
         SYSINFO_CACHE_DATA_NUM_BLOCKS_0 SYSINFO_CACHE_DATA_BURSTS_EN m
     }"

definition print_buses :: "mach \<Rightarrow> mach option" where
  "print_buses m =
     do {
       m \<leftarrow> say (str ''Ext. bus interface:  '') [] m;
       m \<leftarrow> say_if SYSINFO_SOC (sysinfo_soc SYSINFO_SOC_XBUS) (str ''enabled'') (str ''none'') m;
       let (v, m) = rd SYSINFO_CACHE m;
       m \<leftarrow> (if v AND (BIT (sysinfo_cache SYSINFO_CACHE_INST_BURSTS_EN) OR BIT (sysinfo_cache SYSINFO_CACHE_DATA_BURSTS_EN)) \<noteq> 0
              then say (str '', bursts enabled'' @ [10]) [] m else say [10] [] m);
       let (tmo, m) = neorv32_sysinfo_get_extbustimeout m;
       m \<leftarrow> say (str ''Bus timeout (int):   %u cycles'' @ [10]) [AInt tmo] m;
       let (tmo, m) = neorv32_sysinfo_get_extbustimeout m;
       say (str ''Bus timeout (ext):   %u cycles'' @ [10]) [AInt tmo] m
     }"

definition io_flags_low :: "(nat \<times> string) list" where
  "io_flags_low =
    [(sysinfo_soc SYSINFO_SOC_IO_CFS, ''CFS ''),
     (sysinfo_soc SYSINFO_SOC_IO_CLINT, ''CLINT ''),
     (sysinfo_soc SYSINFO_SOC_IO_DMA, ''DMA ''),
     (sysinfo_soc SYSINFO_SOC_IO_GPIO, ''GPIO ''),
     (sysinfo_soc SYSINFO_SOC_IO_GPTMR, ''GPTMR ''),
     (sysinfo_soc SYSINFO_SOC_IO_NEOLED, ''NEOLED ''),
     (sysinfo_soc SYSINFO_SOC_IO_ONEWIRE, ''ONEWIRE ''),
     (sysinfo_soc SYSINFO_SOC_IO_PWM, ''PWM ''),
     (sysinfo_soc SYSINFO_SOC_IO_SDI, ''SDI ''),
     (sysinfo_soc SYSINFO_SOC_IO_SLINK, ''SLINK ''),
     (sysinfo_soc SYSINFO_SOC_IO_SPI, ''SPI '')]"

definition io_flags_high :: "(nat \<times> string) list" where
  "io_flags_high =
    [(sysinfo_soc SYSINFO_SOC_IO_TRACER, ''TRACER ''),
     (sysinfo_soc SYSINFO_SOC_IO_TRNG, ''TRNG ''),
     (sysinfo_soc SYSINFO_SOC_IO_TWD, ''TWD ''),
     (sysinfo_soc SYSINFO_SOC_IO_TWI, ''TWI ''),
     (sysinfo_soc SYSINFO_SOC_IO_UART0, ''UART0 ''),
     (sysinfo_soc SYSINFO_SOC_IO_UART1, ''UART1 ''),
     (sysinfo_soc SYSINFO_SOC_IO_WDT, ''WDT '')]"

definition print_peripherals :: "mach \<Rightarrow> mach option" where
  "print_peripherals m =
     do {
       m \<leftarrow> say (str ''Peripherals:         '') [] m;
       let (tmp, m) = rd SYSINFO_SOC m;
       m \<leftarrow> say_set tmp io_flags_low m;
       m \<leftarrow> say (str ''SYSINFO '') [] m;
       m \<leftarrow> say_set tmp io_flags_high m;
       say [10, 10] [] m
     }"

definition neorv32_aux_print_hw_config :: "mach \<Rightarrow> mach option" where
  "neorv32_aux_print_hw_config m =
     (let (uart, m) = neorv32_uart_available UART0 m
      in if uart = 0 then Some m
         else do {
           m \<leftarrow> print_general m;
           m \<leftarrow> print_ids m;
           m \<leftarrow> print_isa m;
           m \<leftarrow> print_pmp m;
           m \<leftarrow> print_hpm m;
           m \<leftarrow> print_boot m;
           m \<leftarrow> print_memories m;
           m \<leftarrow> print_caches m;
           m \<leftarrow> print_buses m;
           print_peripherals m
         })"

section \<open>Facts\<close>

text \<open>The version: every byte of the word in decimal digits, for a binary-coded decimal word.\<close>

lemma bcd_split_div: "bcd_split tmp cnt = (tmp mod 16, cnt + tmp div 16)"
proof (induction tmp cnt rule: bcd_split.induct)
  case (1 tmp cnt)
  show ?case
  proof (cases "16 \<le> tmp")
    case True
    let ?t = "tmp - 16"
    have u: "unat tmp = unat ?t + 16" using True by (simp add: word_le_nat_alt unat_sub)
    have "unat ?t < 240" using u unsigned_less [of tmp, where 'a = nat] by simp
    then have "unat ?t div 16 + 1 < 256" by simp
    then have "unat (?t div 16 + 1) = unat ?t div 16 + 1"
      unfolding unat_word_ariths(1) by (simp add: unat_div_distrib)
    then have "unat (tmp div 16) = unat (?t div 16 + 1)" by (simp add: unat_div_distrib u)
    moreover have "unat (tmp mod 16) = unat (?t mod 16)" by (simp add: unat_mod_distrib u)
    ultimately have "tmp mod 16 = ?t mod 16" "tmp div 16 = ?t div 16 + 1" by (simp_all only: word_unat_eq_iff)
    with 1 True show ?thesis by (subst bcd_split.simps) simp
  next
    case False
    then have "tmp mod 16 = tmp" "tmp div 16 = 0"
      by (simp_all add: word_unat_eq_iff unat_mod_distrib unat_div_distrib word_le_nat_alt)
    with False show ?thesis by (subst bcd_split.simps) simp
  qed
qed

definition bcd_text :: "u8 \<Rightarrow> u8 list" where
  "bcd_text b = (if b div 16 \<noteq> 0 then [0x30 + b div 16] else []) @ [0x30 + b mod 16]"

definition version_text :: "u32 \<Rightarrow> u8 list" where
  "version_text v = bcd_text (ucast (drop_bit 24 v)) @ [0x2e] @ bcd_text (ucast (drop_bit 16 v)) @ [0x2e]
     @ bcd_text (ucast (drop_bit 8 v)) @ [0x2e] @ bcd_text (ucast v)"

lemma version_byte:
  "version_loop v (i # is) m = do {
     m \<leftarrow> putcs UART0 (bcd_text (ucast (drop_bit (24 - 8 * i) v)) @ (if i < 3 then [0x2e] else [])) m;
     version_loop v is m }"
  by (simp add: bcd_split_div bcd_text_def putcs_append Let_def)

lemma version_printed:
  "fst (neorv32_uart_available UART0 m) \<noteq> 0 \<Longrightarrow>
   neorv32_aux_print_hw_version v m = putcs UART0 (version_text v) (snd (neorv32_uart_available UART0 m))"
  by (simp add: neorv32_aux_print_hw_version_def split_beta version_byte version_text_def putcs_append del: version_loop.simps(2))

text \<open>The logo: a character for every bit.\<close>

definition logo_word :: "u16 \<Rightarrow> u8 list" where
  "logo_word w = map (\<lambda>z. if bit w (15 - z) then 0x23 else 0x20) [0..<16]"

lemma logo_bits_putcs:
  "logo_bits n w m = putcs UART0 (map (\<lambda>z. if z < 16 \<and> bit w (15 - z) then 0x23 else 0x20) [0..<n]) m"
proof (induction n arbitrary: w m)
  case (Suc n)
  have s: "sint w < 0 \<longleftrightarrow> bit w 15" using bit_last_iff [of w] by simp
  have p: "bit (push_bit 1 w) k \<longleftrightarrow> 1 \<le> k \<and> k < 16 \<and> bit w (k - 1)" for k
    by (auto simp only: bit_push_bit_iff) (auto dest: bit_imp_le_length)
  have "map (\<lambda>z. if z < 16 \<and> bit w (15 - z) then 0x23 else 0x20) [0..<Suc n]
      = (if bit w 15 then 0x23 else (0x20 :: u8)) # map (\<lambda>z. if z < 16 \<and> bit (push_bit 1 w) (15 - z) then 0x23 else 0x20) [0..<n]"
    unfolding p by (subst upt_conv_Cons) (auto simp: map_Suc_upt [symmetric] simp del: upt_Suc)
  with Suc s show ?case by (simp del: upt_Suc cong: Option.bind_cong)
qed simp

lemma logo_word_putcs: "logo_bits 16 w m = putcs UART0 (logo_word w) m"
proof -
  have "map (\<lambda>z. if z < 16 \<and> bit w (15 - z) then 0x23 else 0x20) [0..<16] = logo_word w"
    unfolding logo_word_def by (rule map_cong) simp_all
  then show ?thesis by (simp only: logo_bits_putcs)
qed

lemma logo_row_putcs: "logo_row r m = putcs UART0 (concat (map logo_word r)) m"
  by (induction r arbitrary: m) (simp_all add: logo_word_putcs putcs_append cong: Option.bind_cong)

lemma logo_rows_putcs: "logo_rows rs m = putcs UART0 (concat (map (\<lambda>r. [13, 10] @ concat (map logo_word r)) rs)) m"
  by (induction rs arbitrary: m) (simp_all add: logo_row_putcs putcs_append cong: Option.bind_cong)

section \<open>The report is printed to its end\<close>

text \<open>The number of directives of a format that only prints integers.\<close>

fun ints :: "u8 list \<Rightarrow> nat option" where
  "ints [] = Some 0"
| "ints [c] = (if c = 0x25 then None else Some 0)"
| "ints (c # d # f) =
     (if c = 0 then Some 0
      else if c = 0x25 then (if d = 0x75 \<or> d = 0x78 \<or> d = 0x69 then map_option Suc (ints f) else None)
      else ints (d # f))"

lemma fmt_out_ints:
  "ints f = Some (List.length ns) \<Longrightarrow> \<exists>out. fmt_out f (map AInt ns) = Some out"
proof (induction f arbitrary: ns rule: ints.induct)
  case prems: (3 c d f)
  consider "c = 0" | "c = 0x25" | "c \<noteq> 0" "c \<noteq> 0x25" by blast
  then show ?case
  proof cases
    case 2
    with prems(3) have d: "d = 0x75 \<or> d = 0x78 \<or> d = 0x69" by (auto split: if_splits)
    with 2 prems(3) obtain n ms where n: "ns = n # ms" "ints f = Some (List.length ms)" by (cases ns) auto
    from prems(1) [OF _ 2 d n(2)] 2 obtain out where "fmt_out f (map AInt ms) = Some out" by auto
    with 2 d n show ?thesis by (auto simp: fmt_one_def to_lower_def)
  next
    case 3
    with prems(3) prems(2) [of ns] show ?thesis by auto
  qed simp
qed auto

context rte_terminal begin

text \<open>A step that returns, and leaves the console usable.\<close>

definition runs :: "mach option \<Rightarrow> bool" where
  "runs r \<longleftrightarrow> (\<exists>m'. r = Some m' \<and> ok m')"

lemma runs_Some: "ok m \<Longrightarrow> runs (Some m)"
  by (simp add: runs_def)

lemma runs_bind: "runs r \<Longrightarrow> (\<And>m. ok m \<Longrightarrow> runs (f m)) \<Longrightarrow> runs (r \<bind> f)"
  by (auto simp: runs_def)

lemma runs_let: "ok (snd p) \<Longrightarrow> (\<And>v m. ok m \<Longrightarrow> runs (f v m)) \<Longrightarrow> runs (let (v, m) = p in f v m)"
  by (cases p) simp

lemma runs_get:
  "(\<exists>v m. r = Some (v, m) \<and> ok m) \<Longrightarrow> (\<And>v m. ok m \<Longrightarrow> runs (f v m)) \<Longrightarrow> runs (r \<bind> (\<lambda>(v, m). f v m))"
  by auto

lemma runs_if: "(b \<Longrightarrow> runs x) \<Longrightarrow> (\<not> b \<Longrightarrow> runs y) \<Longrightarrow> runs (if b then x else y)"
  by simp

lemma runs_putcs: "ok m \<Longrightarrow> wired \<Longrightarrow> runs (putcs UART0 cs m)"
  using putcs_ok [of m cs] by (auto simp: runs_def)

lemma runs_say:
  assumes "ok m" "wired" "ints f = Some (List.length ns)"
  shows "runs (say f (map AInt ns) m)"
proof -
  from fmt_out_ints [OF assms(3)] obtain out where "fmt_out f (map AInt ns) = Some out" by blast
  then show ?thesis
    using runs_putcs [OF assms(1,2)] by (simp add: say_def neorv32_uart_printf_def vprintf_putcs)
qed

lemma runs_putc: "ok m \<Longrightarrow> wired \<Longrightarrow> runs (neorv32_uart_putc UART0 c m)"
  using ok_putc [of m c] by (auto simp: runs_def)

lemma runs_say_text: "ok m \<Longrightarrow> wired \<Longrightarrow> ints f = Some 0 \<Longrightarrow> runs (say f [] m)"
  using runs_say [of m f "[]"] by simp

lemma runs_say_1: "ok m \<Longrightarrow> wired \<Longrightarrow> ints f = Some 1 \<Longrightarrow> runs (say f [AInt a] m)"
  using runs_say [of m f "[a]"] by simp

lemma runs_say_2: "ok m \<Longrightarrow> wired \<Longrightarrow> ints f = Some 2 \<Longrightarrow> runs (say f [AInt a, AInt b] m)"
  using runs_say [of m f "[a, b]"] by simp

lemma runs_say_3: "ok m \<Longrightarrow> wired \<Longrightarrow> ints f = Some 3 \<Longrightarrow> runs (say f [AInt a, AInt b, AInt c] m)"
  using runs_say [of m f "[a, b, c]"] by (simp add: eval_nat_numeral)

lemma runs_say_4: "ok m \<Longrightarrow> wired \<Longrightarrow> ints f = Some 4 \<Longrightarrow> runs (say f [AInt a, AInt b, AInt c, AInt d] m)"
  using runs_say [of m f "[a, b, c, d]"] by (simp add: eval_nat_numeral)

lemmas runs = runs_bind runs_get runs_let runs_if runs_Some runs_say_text runs_say_1 runs_say_2 runs_say_3 runs_say_4 runs_putc

lemma ok_reg: "ok m \<Longrightarrow> ok (snd (reg_test r n m))" "ok m \<Longrightarrow> ok (snd (reg_pow2 r n m))"
  by (simp_all add: ok_rd reg_pow2_def split_beta Let_def)

lemma ok_csr: "ok m \<Longrightarrow> ok (snd (neorv32_cpu_csr_read c m))" "ok m \<Longrightarrow> ok (neorv32_cpu_csr_write c v m)"
  "ok m \<Longrightarrow> ok (neorv32_cpu_csr_set c v m)"
  by (auto simp: neorv32_cpu_csr_read_def neorv32_cpu_csr_write_def neorv32_cpu_csr_set_def wr_def UART_CTRL_def
      intro!: ok_rd ok_step)

lemma ok_sysinfo: "ok m \<Longrightarrow> ok (snd (neorv32_sysinfo_get_numcores m))" "ok m \<Longrightarrow> ok (snd (neorv32_sysinfo_get_clk m))"
  "ok m \<Longrightarrow> ok (snd (neorv32_sysinfo_get_imemsize m))" "ok m \<Longrightarrow> ok (snd (neorv32_sysinfo_get_dmemsize m))"
  "ok m \<Longrightarrow> ok (snd (neorv32_sysinfo_get_bootmode m))" "ok m \<Longrightarrow> ok (snd (neorv32_sysinfo_get_extbustimeout m))"
  by (simp_all add: neorv32_sysinfo_get_numcores_def neorv32_sysinfo_get_clk_def neorv32_sysinfo_get_imemsize_def
      neorv32_sysinfo_get_dmemsize_def neorv32_sysinfo_get_bootmode_def neorv32_sysinfo_get_extbustimeout_def
      ok_rd split_beta Let_def)

lemma ok_mxisa: "ok m \<Longrightarrow> ok (snd (mxisa_test b m))"
  by (simp add: ok_rd)

lemma ok_write_all: "ok m \<Longrightarrow> ok (csr_write_all cs v m)"
  by (induction cs arbitrary: m) (simp_all add: ok_csr)

lemma ok_sum: "ok m \<Longrightarrow> ok (snd (csr_sum cs v m))"
  by (induction cs arbitrary: v m) (simp_all add: ok_csr split_beta Let_def)

lemma ok_pmp_hpm: "ok m \<Longrightarrow> ok (snd (neorv32_cpu_pmp_get_num_regions m))"
  "ok m \<Longrightarrow> ok (snd (neorv32_cpu_hpm_get_num_counters m))" "ok m \<Longrightarrow> ok (snd (neorv32_cpu_hpm_get_size m))"
  by (auto simp: neorv32_cpu_pmp_get_num_regions_def neorv32_cpu_hpm_get_num_counters_def neorv32_cpu_hpm_get_size_def
      split_beta Let_def intro!: ok_csr ok_mxisa ok_write_all ok_sum simp del: mxisa_test_simps)

lemma granularity_returns:
  assumes "ok m"
  shows "\<exists>v m'. neorv32_cpu_pmp_get_granularity m = Some (v, m') \<and> ok m'"
proof -
  have t: "\<exists>i. trailing_one 2 tmp = Some i" if "tmp \<noteq> 0" for tmp
  proof -
    from that obtain n where "bit tmp n" by (auto simp: bit_eq_iff)
    then have "bit tmp (LEAST k. bit tmp k)" "\<forall>j < (LEAST k. bit tmp k). \<not> bit tmp j"
      by (auto intro: LeastI dest: not_less_Least)
    from trailing_one_returns [OF this] show ?thesis by blast
  qed
  obtain b m1 where m1: "mxisa_test CSR_MXISA_SMPMP m = (b, m1)" "ok m1"
    using ok_mxisa [OF assms, of CSR_MXISA_SMPMP] by (cases "mxisa_test CSR_MXISA_SMPMP m") simp
  let ?m2 = "neorv32_cpu_csr_write CSR_PMPADDR0 (- 1) (neorv32_cpu_csr_write CSR_PMPCFG0 0 m1)"
  obtain tmp m3 where m3: "neorv32_cpu_csr_read CSR_PMPADDR0 ?m2 = (tmp, m3)" "ok m3"
    using ok_csr(1) [of ?m2 CSR_PMPADDR0] m1(2) by (cases "neorv32_cpu_csr_read CSR_PMPADDR0 ?m2") (simp add: ok_csr)
  show ?thesis
    using t [of tmp] m1 m3 by (auto simp: neorv32_cpu_pmp_get_granularity_def)
qed

lemma say_set_runs: "ok m \<Longrightarrow> wired \<Longrightarrow> \<forall>(n, s) \<in> set flags. ints (str s) = Some 0 \<Longrightarrow> runs (say_set tmp flags m)"
  by (induction flags arbitrary: m) (auto intro!: runs)

lemma letters_run: "ok m \<Longrightarrow> wired \<Longrightarrow> runs (print_letters tmp is m)"
  by (induction "is" arbitrary: m) (auto intro!: runs)

lemma say_if_runs: "ok m \<Longrightarrow> wired \<Longrightarrow> ints a = Some 0 \<Longrightarrow> ints b = Some 0 \<Longrightarrow> runs (say_if r n a b m)"
  unfolding say_if_def by (intro runs ok_reg)

lemma version_runs: "ok m \<Longrightarrow> wired \<Longrightarrow> runs (neorv32_aux_print_hw_version v m)"
  by (simp add: version_printed available runs_putcs ok_available)

lemma general_runs:
  assumes "ok m" "wired" "\<And>m. ok m \<Longrightarrow> \<exists>v m'. neorv32_cpu_hwtrig_get_number m = Some (v, m') \<and> ok m'"
  shows "runs (print_general m)"
  unfolding print_general_def
  by (intro runs say_if_runs ok_reg ok_sysinfo assms) (simp_all add: str_def assms(2))

lemma ids_run: "ok m \<Longrightarrow> wired \<Longrightarrow> runs (print_ids m)"
  unfolding print_ids_def by (intro runs ok_csr version_runs) (simp_all add: str_def)

lemma isa_runs: "ok m \<Longrightarrow> wired \<Longrightarrow> runs (print_isa m)"
  unfolding print_isa_def by (intro runs ok_csr letters_run say_set_runs) (simp_all add: str_def isa_flags_def)

lemma mode_runs: "ok m \<Longrightarrow> wired \<Longrightarrow> ints (str name) = Some 0 \<Longrightarrow> runs (try_mode mode name m)"
  unfolding try_mode_def by (simp only: Let_def) (auto simp: split_beta intro!: runs ok_csr)

lemma pmp_runs: "ok m \<Longrightarrow> wired \<Longrightarrow> runs (print_pmp m)"
  unfolding print_pmp_def by (intro runs ok_csr ok_pmp_hpm granularity_returns mode_runs) (simp_all add: str_def)

lemma hpm_runs: "ok m \<Longrightarrow> wired \<Longrightarrow> runs (print_hpm m)"
  unfolding print_hpm_def by (intro runs ok_pmp_hpm) (simp_all add: str_def)

lemma boot_runs: "ok m \<Longrightarrow> wired \<Longrightarrow> runs (print_boot m)"
  unfolding print_boot_def by (intro runs ok_sysinfo) (simp_all add: str_def)

lemma memories_run: "ok m \<Longrightarrow> wired \<Longrightarrow> runs (print_memories m)"
  unfolding print_memories_def by (intro runs ok_reg ok_sysinfo) (simp_all add: str_def)

lemma cache_runs: "ok m \<Longrightarrow> wired \<Longrightarrow> ints (str name) = Some 0 \<Longrightarrow> runs (print_cache name soc s b u m)"
  unfolding print_cache_def by (intro runs ok_reg say_if_runs) (simp_all add: str_def)

lemma caches_run: "ok m \<Longrightarrow> wired \<Longrightarrow> runs (print_caches m)"
  unfolding print_caches_def by (intro runs cache_runs) (simp_all add: str_def)

lemma buses_run: "ok m \<Longrightarrow> wired \<Longrightarrow> runs (print_buses m)"
  unfolding print_buses_def by (intro runs ok_rd ok_sysinfo say_if_runs) (simp_all add: str_def)

lemma peripherals_run: "ok m \<Longrightarrow> wired \<Longrightarrow> runs (print_peripherals m)"
  unfolding print_peripherals_def
  by (intro runs ok_rd say_set_runs) (simp_all add: str_def io_flags_low_def io_flags_high_def)

lemma hw_config_runs:
  assumes "ok m" "\<And>m. ok m \<Longrightarrow> \<exists>v m'. neorv32_cpu_hwtrig_get_number m = Some (v, m') \<and> ok m'"
  shows "runs (neorv32_aux_print_hw_config m)"
proof (cases wired)
  case True
  have "runs (let (uart, m) = neorv32_uart_available UART0 m in if uart = 0 then Some m
      else do { m \<leftarrow> print_general m; m \<leftarrow> print_ids m; m \<leftarrow> print_isa m; m \<leftarrow> print_pmp m; m \<leftarrow> print_hpm m;
        m \<leftarrow> print_boot m; m \<leftarrow> print_memories m; m \<leftarrow> print_caches m; m \<leftarrow> print_buses m; print_peripherals m })"
    by (intro runs general_runs ids_run isa_runs pmp_runs hpm_runs boot_runs memories_run caches_run buses_run
        peripherals_run ok_available assms True)
  then show ?thesis by (simp only: neorv32_aux_print_hw_config_def)
next
  case False
  then show ?thesis
    using available [OF assms(1)] ok_available [OF assms(1)]
    by (cases "neorv32_uart_available UART0 m") (simp add: neorv32_aux_print_hw_config_def runs_def)
qed

end

section \<open>Without triggers\<close>

text \<open>The count of triggers ends at once on a CPU without the trigger extension, and the report is printed.\<close>

lemma hwtrig_none:
  "\<not> bit (rd_val (Csr CSR_MXISA) m) (csr_mxisa CSR_MXISA_SDTRIG) \<Longrightarrow>
   neorv32_cpu_hwtrig_get_number m = Some (0, snd (rd (Csr CSR_MXISA) m))"
  by (simp add: neorv32_cpu_hwtrig_get_number_def mxisa_test_def neorv32_cpu_csr_read_def rd_def)

lemma hw_config_printed:
  assumes "console_ok p txd rxd rest input m"
    and "\<And>h. \<not> bit (rest h (Csr CSR_MXISA)) (csr_mxisa CSR_MXISA_SDTRIG)"
  shows "\<exists>m'. neorv32_aux_print_hw_config m = Some m' \<and> console_ok p txd rxd rest input m'"
proof -
  have "\<exists>v m'. neorv32_cpu_hwtrig_get_number m = Some (v, m') \<and> console_ok p txd rxd rest input m'"
    if "console_ok p txd rxd rest input m" for m
  proof -
    have "rd_val (Csr CSR_MXISA) m = rest (log m) (Csr CSR_MXISA)"
      using that by (simp add: console_ok_def uart_ok_def rd_val_def uart_rtl_def UART_CTRL_def UART_DATA_def Let_def)
    with hwtrig_none assms(2) rte_wired.ok_rd [OF that] show ?thesis by metis
  qed
  from rte_wired.hw_config_runs [OF assms(1) this] show ?thesis by (simp only: rte_wired.runs_def)
qed

end
