(* ===== verification/Spec2Isabelle.thy ===== *)
theory Spec2Isabelle
  imports Neo_Date Uart_Rtl Gpio Clint Slink Sdi Trng Tracer Dma Wdt Neoled Twd Gptmr Pwm
    Pmp_Rtl Twi Flash_Roundtrip Ref_Chip Boot_Main
    Rte_Returns Spinlock Smp Onewire_Search Life Primes Xtea Bus_Explorer Newlib Twi_Medium Trng_Test Aux_Print
begin

text \<open>
  \<^bold>\<open>The firmware library of the NEORV32 processor\<close>

  The repository holds a RISC-V system on chip in VHDL (\<^verbatim>\<open>rtl/core\<close>) and the C code that runs on
  it: a driver library (\<^verbatim>\<open>sw/lib\<close>), a bootloader (\<^verbatim>\<open>sw/bootloader\<close>), an image generator for the
  host (\<^verbatim>\<open>sw/image_gen\<close>) and example programs.  This development models the C code function by
  function and, where what a driver promises depends on it, the registers of the hardware behind it.

  \<^bold>\<open>How the program is modelled\<close>

  The CPU (\<^verbatim>\<open>Machine\<close>) has a log of everything it did that another party can see: loads, stores, CSR
  accesses, fences, sleeps.  \<^verbatim>\<open>volatile\<close> registers are read by \<open>rd\<close> and written by \<open>wr\<close>; what a
  read returns is \<open>hw m (log m) l\<close>, a function of the whole log, so that the hardware is any device at
  all.  Where a statement needs a particular device, it says that \<open>hw m\<close> answers as the register
  model of its VHDL does (\<^verbatim>\<open>Uart_Rtl\<close>, \<^verbatim>\<open>Spi_Rtl\<close>, \<^verbatim>\<open>Onewire_Rtl\<close>, \<^verbatim>\<open>Pmp_Rtl\<close>, \<^verbatim>\<open>Hart_Rtl\<close>, and the
  hardware sections of \<^verbatim>\<open>Gpio\<close>, \<^verbatim>\<open>Clint\<close>, \<^verbatim>\<open>Wdt\<close>, \<^verbatim>\<open>Twd\<close>, \<^verbatim>\<open>Pwm\<close>, \<^verbatim>\<open>Trng_Test\<close>); time that passes between two
  accesses is a function \<open>gap\<close> over which the statement is general.  A load or store at an address that comes
  from outside (the words of an executable in \<^verbatim>\<open>Boot_App\<close>, the addresses typed in \<^verbatim>\<open>Bus_Explorer\<close>) first asks
  \<open>access_traps\<close>: it traps if it is not aligned or if the bus, a part of \<open>hw\<close>, answers with an error.  C integers keep their width
  (\<^verbatim>\<open>Prelude\<close>: \<open>u8\<close> to \<open>u64\<close>, shifts as the CPU does them), \<^verbatim>\<open>char\<close> is \<open>u8\<close>, a C string
  is a list without its terminator, a result by pointer is a component of a tuple.  A function that may
  not return has type \<open>option\<close>, with \<open>None\<close> for the loop that never ends
  (\<^theory_text>\<open>partial_function (option)\<close>); statements about such functions say that the result is
  \<open>Some\<close>.  The default build is modelled: RV32I, with or without compressed instructions where that
  matters, no A extension (read-modify-write macros are a load and a store), UART0 as console.

  \<^bold>\<open>Theories\<close>

  \<^item> \<^verbatim>\<open>Prelude\<close>, \<^verbatim>\<open>Machine\<close>: words and bytes, shifts, the machine, polling loops (\<open>poll\<close>) and the
    locale \<open>ready_device\<close> for devices that answer after a bounded number of polls.
  \<^item> \<^verbatim>\<open>Sysinfo\<close>, \<^verbatim>\<open>Csr\<close>: \<^verbatim>\<open>neorv32.h\<close>, \<^verbatim>\<open>neorv32_sysinfo.h\<close> and \<^verbatim>\<open>neorv32_csr.h\<close>, addresses, bit
    numbers and CSR numbers.
  \<^item> \<^verbatim>\<open>Neo_Aux\<close>, \<^verbatim>\<open>Neo_Date\<close>: \<^verbatim>\<open>neorv32_aux.c\<close>, number conversion, the xorshift generator, delays,
    date and Unix time; \<^verbatim>\<open>Aux_Print\<close>: the functions of that file that print the configuration of the processor.
  \<^item> \<^verbatim>\<open>Uart\<close>, \<^verbatim>\<open>Uart_Rtl\<close>: \<^verbatim>\<open>neorv32_uart.c\<close> with \<^verbatim>\<open>printf\<close> and \<^verbatim>\<open>scan\<close>, and the registers and FIFOs of
    the unit with the flow control of its transmitter; the prescaler search against the bootloader's copy of it.
  \<^item> \<^verbatim>\<open>Gpio\<close>, \<^verbatim>\<open>Clint\<close> (with \<^verbatim>\<open>Counter64\<close> for counters read in two halves), \<^verbatim>\<open>Slink\<close>, \<^verbatim>\<open>Sdi\<close>, \<^verbatim>\<open>Trng\<close>,
    \<^verbatim>\<open>Tracer\<close>, \<^verbatim>\<open>Dma\<close>, \<^verbatim>\<open>Wdt\<close>, \<^verbatim>\<open>Neoled\<close>, \<^verbatim>\<open>Twd\<close>, \<^verbatim>\<open>Gptmr\<close>, \<^verbatim>\<open>Pwm\<close>, \<^verbatim>\<open>Spi\<close>, \<^verbatim>\<open>Twi\<close>, \<^verbatim>\<open>Onewire\<close>: one
    driver each, \<^verbatim>\<open>sw/lib/source/neorv32_*.c\<close> and the register numbers of its header.
  \<^item> \<^verbatim>\<open>Cpu\<close>, \<^verbatim>\<open>Pmp_Rtl\<close>: \<^verbatim>\<open>neorv32_cpu.c\<close> (counters, memory protection, performance monitors) and the
    CSRs of \<^verbatim>\<open>neorv32_cpu_pmp.vhd\<close>.
  \<^item> \<^verbatim>\<open>Boot_Hal\<close>, \<^verbatim>\<open>Boot_App\<close>, \<^verbatim>\<open>Boot_Load\<close>, \<^verbatim>\<open>Boot_Store\<close>, \<^verbatim>\<open>Boot_Main\<close>: the bootloader, from its console over
    loading, checking, storing and starting an executable to its menu; \<^verbatim>\<open>Spi_Flash\<close>, \<^verbatim>\<open>Spi_Rtl\<close>,
    \<^verbatim>\<open>Flash_Load\<close>, \<^verbatim>\<open>Flash_Store\<close>, \<^verbatim>\<open>Flash_Roundtrip\<close>: its flash driver on the SPI unit and a chip that
    keeps a stated contract, with \<^verbatim>\<open>Ref_Chip\<close> as a chip that keeps it; \<^verbatim>\<open>Twi_Rtl\<close>, \<^verbatim>\<open>Twi_Flash\<close>, \<^verbatim>\<open>Twi_Medium\<close>:
    the same for its two-wire flash; \<^verbatim>\<open>Boot_Medium\<close>: storing and loading again, once for both.
  \<^item> \<^verbatim>\<open>Onewire_Rtl\<close>, \<^verbatim>\<open>Onewire_Search\<close>: the 1-wire controller on a wire with devices, and the device search of
    the 1-wire demo (\<^verbatim>\<open>demo_onewire/onewire_aux.h\<close>).
  \<^item> \<^verbatim>\<open>Image_Gen\<close>: \<^verbatim>\<open>image_gen.c\<close>, from the sections of an ELF file to the six output formats.
  \<^item> \<^verbatim>\<open>Hart_Rtl\<close>, \<^verbatim>\<open>Rte\<close>, \<^verbatim>\<open>Rte_Trap\<close>, \<^verbatim>\<open>Rte_Table\<close>, \<^verbatim>\<open>Rte_Handlers\<close>, \<^verbatim>\<open>Rte_Returns\<close>: the trap registers
    of a hart, \<^verbatim>\<open>neorv32_rte.c\<close> with the assembly of its first-level handler, its vector table and
    handlers installed in it.
  \<^item> \<^verbatim>\<open>Spinlock\<close>, \<^verbatim>\<open>Smp\<close>: the spinlocks of the dual-core demos on the reservation station and the
    atomic-operation controller of \<^verbatim>\<open>neorv32_bus.vhd\<close>, and \<^verbatim>\<open>neorv32_smp.c\<close> with the start-up code that
    the second core runs meanwhile.
  \<^item> \<^verbatim>\<open>Life\<close>, \<^verbatim>\<open>Primes\<close>: two programs, \<^verbatim>\<open>game_of_life\<close>, whose packed universes refine Conway's rule on sets
    of cells, and \<^verbatim>\<open>demo_dual_core_primes\<close>, two cores that divide a count between them.
  \<^item> \<^verbatim>\<open>Cfu_Rtl\<close>, \<^verbatim>\<open>Xtea\<close>: the custom functions unit of the CPU clock by clock
    (\<^verbatim>\<open>neorv32_cpu_alu_cfu.vhd\<close>), and \<^verbatim>\<open>demo_cfu\<close>, a cipher in C and on the unit.
  \<^item> \<^verbatim>\<open>Bus_Explorer\<close>: the interactive memory inspector \<^verbatim>\<open>bus_explorer\<close>, from a line typed on the console
    to the accesses it makes.
  \<^item> \<^verbatim>\<open>Trng_Test\<close>: the random number demo \<^verbatim>\<open>demo_trng\<close> with its health tests and histogram, and the registers and
    queue of the generator (\<^verbatim>\<open>neorv32_trng.vhd\<close>).
  \<^item> \<^verbatim>\<open>Newlib\<close>: \<^verbatim>\<open>neorv32_newlib.c\<close>, the system calls of the C library: streams, heap and time.

  \<^bold>\<open>Interfaces\<close>

  Locales state what one part relies on in another and are interpreted on the model of that part:
  \<open>ready_device\<close> (polling drivers), \<open>free_counter\<close> (64-bit counters in two words), \<open>uart_device\<close> and
  \<open>uart_line\<close> (a transmitter, and one whose line shows what was sent), \<open>boot_console\<close>, \<open>boot_source\<close>,
  \<open>finite_source\<close> and \<open>boot_sink\<close> (the streams of the bootloader), \<open>word_medium\<close> (a memory that is both), \<open>trap_handler\<close>, \<open>c_handler\<close>,
  \<open>rte_terminal\<close> and \<open>device_handler\<close> (what the runtime environment relies on in an installed handler),
  \<open>sample_source\<close> (a random number generator that keeps delivering, and a key in the end), \<open>rom_search\<close> (what the search relies on in the devices of a 1-wire bus),
  \<open>exclusive_lock\<close> (what a lock promises its callers).

  \<^bold>\<open>What is shown\<close>

  Calendar and number conversions are inverse to each other and count correctly; baud rate, clock and
  timing searches end and find the best setting that fits, or the statement says where they do not; a
  formatted line reaches the serial line of the unit character by character; 64-bit time is read and
  written consistently while it runs; the locks of the watchdog and of the
  protection unit hold until the next system reset, which an attempt on the watchdog's raises;
  an image written by the generator and sent over the console, or stored to flash, is what the
  bootloader starts; a trap is transparent to the program it interrupts, and one without a handler is reported; the spinlocks exclude, and
  where one of them does not, a run shows it; the second core starts where it is told to, two cores count what one does, and a cipher
  in hardware is the one in software.
  Properties of kind error record where the code does not do what it means to.

  \<^bold>\<open>Bounds and fuel\<close>

  No definition has fuel.  Loops that end are structural or have a measure; polling loops are partial
  functions, shown to end under a bound on the answer time of the device; \<open>gap\<close> and the polls a device
  needs are arbitrary in the statements and small numbers in their witnesses.

  \<^bold>\<open>Not modelled\<close>

  Semihosting (\<^verbatim>\<open>neorv32_semihosting.c\<close>), which forwards to a debugger outside the repository, and the
  build of \<^verbatim>\<open>neorv32_newlib.c\<close> with it; the optional SD card of the bootloader, which its default
  configuration leaves out, and the vendored file system \<^verbatim>\<open>petit_fatfs\<close>; the benchmark \<^verbatim>\<open>coremark\<close>,
  which is third-party code; the self-test and benchmark programs \<^verbatim>\<open>processor_check\<close>,
  \<^verbatim>\<open>performance_tests\<close> and \<^verbatim>\<open>floating_point_test\<close>, which exercise the CPU and print; the remaining
  demos, which call the drivers modelled here and print; the bit timing of the serial units and
  everything else of the VHDL.
\<close>

section \<open>Dates\<close>

text \<open>C1: The Unix time the firmware computes for any date of the Gregorian calendar from
1970 to 2105 is the number of seconds from 1970-01-01, counted over the actual lengths of the
years and months in between.\<close>

theorem date2unixtime_counts_seconds:
  assumes "valid_date d"
  shows "unat (neorv32_aux_date2unixtime d) = civil_seconds d"
  using assms by (rule date2unixtime_valid)

lemma date2unixtime_counts_seconds_witness:
  "unat (neorv32_aux_date2unixtime \<lparr>year = 2024, month = 2, day = 29, weekday = 4, hours = 23,
     minutes = 59, seconds = 58\<rparr>) =
   civil_seconds \<lparr>year = 2024, month = 2, day = 29, weekday = 4, hours = 23,
     minutes = 59, seconds = 58\<rparr>"
  by (rule date2unixtime_counts_seconds)
    (simp add: valid_date_def date_civil_def valid_civil_def month_len_def leap_def)

text \<open>C2: Converting a valid date to Unix time and back gives the date again, with the weekday
set to the one the calendar has for that day (1 is Monday).\<close>

theorem unixtime2date_inverts:
  assumes "valid_date d"
  shows "neorv32_aux_unixtime2date (neorv32_aux_date2unixtime d) =
    d\<lparr>weekday := of_nat (civil_weekday d)\<rparr>"
  using assms by (rule date_roundtrip)

lemma unixtime2date_inverts_witness:
  "neorv32_aux_unixtime2date (neorv32_aux_date2unixtime \<lparr>year = 2000, month = 2, day = 29,
     weekday = 1, hours = 12, minutes = 0, seconds = 7\<rparr>) =
   \<lparr>year = 2000, month = 2, day = 29, weekday = 1, hours = 12, minutes = 0, seconds = 7\<rparr>
     \<lparr>weekday := of_nat (civil_weekday \<lparr>year = 2000, month = 2, day = 29, weekday = 1, hours = 12,
       minutes = 0, seconds = 7\<rparr>)\<rparr>"
  by (rule unixtime2date_inverts)
    (simp add: valid_date_def date_civil_def valid_civil_def month_len_def leap_def)

section \<open>Numbers and strings\<close>

text \<open>C3: For every base from 2 to 16 \<^verbatim>\<open>itoa\<close> stores the digits of the number in that
base, most significant first and without leading zeros, and at most 32 of them, so that with
the terminator they fit the 33 bytes the callers provide; no access leaves the scratch array.\<close>

theorem itoa_positional:
  assumes "2 \<le> base" "base \<le> 16"
  shows "\<exists>ds. neorv32_aux_itoa num base = Some (digit_chars ds) \<and> List.length ds \<le> 32
    \<and> dig_value (unat base) ds = unat num \<and> (\<forall>d \<in> set ds. d < unat base)
    \<and> (num \<noteq> 0 \<longrightarrow> hd ds \<noteq> 0)"
proof -
  have "2 \<le> unat base" using assms(1) by (simp add: word_le_nat_alt)
  then show ?thesis
    using itoa_dig [OF assms] dig_value_dig dig_less hd_dig [of "unat base" "unat num"]
    by (intro exI [of _ "dig (unat base) (unat num)"]) (simp add: unat_gt_0)
qed

lemma itoa_positional_witness:
  "\<exists>ds. neorv32_aux_itoa 0xdeadbeef 7 = Some (digit_chars ds) \<and> List.length ds \<le> 32
    \<and> dig_value (unat (7 :: u32)) ds = unat (0xdeadbeef :: u32)
    \<and> (\<forall>d \<in> set ds. d < unat (7 :: u32)) \<and> ((0xdeadbeef :: u32) \<noteq> 0 \<longrightarrow> hd ds \<noteq> 0)"
  by (rule itoa_positional) simp_all

text \<open>C4: Reading back the hexadecimal string \<^verbatim>\<open>itoa\<close> prints gives the number, whatever
follows its terminator in the buffer.\<close>

theorem hexstr_reads_itoa:
  assumes "8 \<le> len"
  shows "\<exists>s. neorv32_aux_itoa n 16 = Some s
    \<and> neorv32_aux_hexstr2uint64 (s @ 0 # rest) len = Some (ucast n)"
  using assms by (rule hexstr_itoa)

lemma hexstr_reads_itoa_witness:
  "\<exists>s. neorv32_aux_itoa 0xcafe 16 = Some s
    \<and> neorv32_aux_hexstr2uint64 (s @ 0 # [0x31, 0x32]) 8 = Some (ucast (0xcafe :: u32))"
  by (rule hexstr_reads_itoa) simp

section \<open>UART\<close>

text \<open>C5: The prescaler search of the UART setup ends for every divisor with a value that fits
the 10-bit divisor register; it is the divisor shifted right by what the selected prescaler
divides by, and every smaller prescaler would have given a value too large.\<close>

theorem baud_prescaler_minimal:
  "baud_prsc d 0 = (r, s) \<Longrightarrow> r = drop_bit (baud_shift (unat s)) d \<and> r < 0x3ff
    \<and> (\<forall>q < unat s. 0x3ff \<le> drop_bit (baud_shift q) d)"
  using baud_prsc_spec by blast

lemma baud_prescaler_minimal_witness:
  "(325 :: u32) = drop_bit 9 166666 \<and> (325 :: u32) < 0x3ff \<and> (0x3ff :: u32) \<le> drop_bit 6 166666"
proof -
  have "baud_prsc 166666 0 = (325, 5)" by (simp add: baud_prsc.simps)
  from baud_prescaler_minimal [OF this] show ?thesis by (auto dest: spec [of _ 4])
qed

text \<open>C6: Unless twice the baud rate is zero, the bootloader's build of the setup, which divides by
repeated subtraction, ends and has exactly the effect of the other build.\<close>

theorem uart_setup_bootloader_equiv:
  assumes "2 * baudrate \<noteq> 0"
  shows "neorv32_uart_setup_bootloader U baudrate irq m = Some (neorv32_uart_setup U baudrate irq m)"
  using assms by (rule setup_bootloader_eq)

lemma uart_setup_bootloader_equiv_witness:
  "neorv32_uart_setup_bootloader NEORV32_UART0_BASE 19200 0 \<lparr>hw = \<lambda>_ _. 100000000, log = []\<rparr>
   = Some (neorv32_uart_setup NEORV32_UART0_BASE 19200 0 \<lparr>hw = \<lambda>_ _. 100000000, log = []\<rparr>)"
  by (rule uart_setup_bootloader_equiv) simp

text \<open>C7: On an enabled UART (which loses no received character) \<^verbatim>\<open>printf\<close> returns for every format it
defines, and the unit has been handed exactly the specified characters, each once and in
order: no character is lost to a full FIFO, whatever its depth and however slow the line.\<close>

theorem printf_reaches_line:
  assumes "uart_ok p txd rxd rest U input m" "fmt_out format args = Some out"
  shows "\<exists>m'. neorv32_uart_printf U format args m = Some m' \<and> uart_ok p txd rxd rest U input m'
    \<and> uart_out (uart_state U p txd rxd input (log m')) =
      uart_out (uart_state U p txd rxd input (log m)) @ out"
proof -
  from uart_tx_hw.putcs_returns [OF assms(1), of out] obtain m' where "putcs U out m = Some m'" by blast
  with putcs_out [OF assms(1)] assms(2) show ?thesis
    by (simp add: neorv32_uart_printf_def vprintf_putcs)
qed

text \<open>The unit after its setup has been written, before anything was received.\<close>

definition uart_fresh :: "u8 list \<Rightarrow> mach" where
  "uart_fresh input = \<lparr>hw = uart_rtl NEORV32_UART0_BASE clear_line 2 2 input (\<lambda>_ _. 0),
     log = [Wr (UART_CTRL NEORV32_UART0_BASE) 5]\<rparr>"

lemma uart_fresh_ok: "uart_ok clear_line 2 2 (\<lambda>_ _. 0) NEORV32_UART0_BASE input (uart_fresh input)"
  by (cases input) (auto simp: uart_ok_def u_lossless_def uart_fresh_def uart_bus_def uart_cycle_def uart_init_def u_en_def
      u_hwfc_def uart_rw_bits_def uart_tx_frame_def uart_rx_frame_def uart_tx_start_def UART_CTRL_def)

lemma printf_reaches_line_witness:
  "\<exists>m'. neorv32_uart_printf NEORV32_UART0_BASE (str ''n=%i\<newline>'') [AInt (- 5)] (uart_fresh []) = Some m'
    \<and> uart_ok clear_line 2 2 (\<lambda>_ _. 0) NEORV32_UART0_BASE [] m'
    \<and> uart_out (uart_state NEORV32_UART0_BASE clear_line 2 2 [] (log m')) =
      uart_out (uart_state NEORV32_UART0_BASE clear_line 2 2 [] (log (uart_fresh [])))
      @ [0x6e, 0x3d, 0x2d, 0x35, 13, 10]"
  by (rule printf_reaches_line [OF uart_fresh_ok])
    (simp add: str_def fmt_one_def to_lower_def decimal_def digit_chars_def dig.simps digits_def)

text \<open>C8: On an enabled UART that loses no received character, for every input stream on the line that contains
a line end, the line reader returns; it stays inside its buffer, leaves the edited line (printable characters up to the room there
is, backspace removing the last one) terminated in it and returns its length.\<close>

theorem scan_edits_line:
  assumes "uart_ok p txd rxd rest U input m"
    and "line_edit max_size [] (drop (uart_pos p txd rxd U input m) input) = Some (s, out)"
    and "0 < max_size" "max_size \<le> int (List.length buf)"
  shows "\<exists>buf' m'. neorv32_uart_scan U buf max_size echo m = Some (List.length s, buf', m')
    \<and> take (List.length s) buf' = s \<and> buf' ! List.length s = 0
    \<and> int (List.length s) < max_size \<and> List.length buf' = List.length buf
    \<and> written (UART_DATA U) m' = written (UART_DATA U) m @ map ucast (if echo then out else [])"
  using uart_rx_hw.scan_loop_returns [OF assms(1), of max_size 0 buf s out] assms
  by (fastforce simp: neorv32_uart_scan_def)

lemma scan_edits_line_witness:
  "\<exists>buf' m'. neorv32_uart_scan NEORV32_UART0_BASE [7, 7, 7, 7] 4 True
      (uart_fresh [0x61, 0x62, 8, 0x63, 0x64, 0x65, 13]) = Some (List.length [0x61, 0x63, 0x64 :: u8], buf', m')
    \<and> take (List.length [0x61, 0x63, 0x64 :: u8]) buf' = [0x61, 0x63, 0x64]
    \<and> buf' ! List.length [0x61, 0x63, 0x64 :: u8] = 0
    \<and> int (List.length [0x61, 0x63, 0x64 :: u8]) < 4 \<and> List.length buf' = List.length [7 :: u8, 7, 7, 7]
    \<and> written (UART_DATA NEORV32_UART0_BASE) m'
      = written (UART_DATA NEORV32_UART0_BASE) (uart_fresh [0x61, 0x62, 8, 0x63, 0x64, 0x65, 13])
        @ map ucast (if True then [0x61, 0x62, 8, 0x20, 8, 0x63, 0x64 :: u8] else [])"
  by (rule scan_edits_line [OF uart_fresh_ok])
    (simp_all add: uart_pos_def uart_fresh_def uart_bus_def uart_cycle_def uart_init_def u_en_def
      uart_rw_bits_def uart_rx_frame_def uart_tx_start_def uart_tx_frame_def ed_step_def)

section \<open>Machine timer\<close>

text \<open>C9: Reading the machine time through two 32-bit words always returns, and the value returned
is one the 64-bit timer really had between the call and the return, also when the low word wraps
while it is read.\<close>

theorem clint_time_get_linearizes:
  assumes "hw m = mtime_rtl gap init rest" "mtime_inv init" "\<forall>i. gap i \<le> 2 ^ 29 - 2"
  shows "\<exists>k m'. neorv32_clint_time_get m
      = Some (mtime_val (mtime_state gap init (log m)) + of_nat k, m')
    \<and> 0 < k \<and> k < elapsed gap (List.length (log m)) (List.length (log m'))"
  using assms by (rule time_get_value)

theorem clint_time_get_linearizes_witness:
  "\<exists>k m'. neorv32_clint_time_get
        \<lparr>hw = mtime_rtl (\<lambda>_. 3) \<lparr>t_lo = - 2, t_hi = 7, t_carry = False\<rparr> (\<lambda>_ _. 0), log = []\<rparr>
      = Some (0x7fffffffe + of_nat k, m') \<and> 0 < k \<and> k < elapsed (\<lambda>_. 3) 0 (List.length (log m'))"
  using clint_time_get_linearizes [of
      "\<lparr>hw = mtime_rtl (\<lambda>_. 3) \<lparr>t_lo = - 2, t_hi = 7, t_carry = False\<rparr> (\<lambda>_ _. 0), log = []\<rparr>"
      "\<lambda>_. 3" "\<lparr>t_lo = - 2, t_hi = 7, t_carry = False\<rparr>" "\<lambda>_ _. 0"]
  by (simp add: mtime_inv_def mtime_val_def join64_of_nat unsigned_minus_1_eq_mask)

text \<open>C10: Setting the machine time leaves the timer at the requested value plus the cycles since
the last of the three writes: no carry of the running low word reaches the new high word.\<close>

theorem clint_time_set_exact:
  assumes "\<forall>i. gap i \<le> 2 ^ 29"
  shows "mtime_val (mtime_state gap init (log (neorv32_clint_time_set t m)))
    = t + of_nat (Suc (gap (List.length (log m) + 2)))"
  using assms by (rule time_set_value)

theorem clint_time_set_exact_witness:
  "mtime_val (mtime_state (\<lambda>_. 4) \<lparr>t_lo = - 1, t_hi = 7, t_carry = False\<rparr>
      (log (neorv32_clint_time_set 0x123456789 \<lparr>hw = \<lambda>_ _. 0, log = []\<rparr>))) = 0x12345678e"
  by (subst clint_time_set_exact) simp_all

text \<open>C11: While the timer comparator of a hart is being replaced, the value it holds after each of
the accesses is never below both the old and the new one, so no spurious timer interrupt can
fire; and at the end it holds the new value.\<close>

theorem clint_mtimecmp_set_no_spurious:
  assumes "log (neorv32_clint_mtimecmp_set t m) = k @ h" "h = k' @ log m"
  shows "min (mtimecmp (rd_val (Csr CSR_MHARTID) m) v0 (log m)) t
      \<le> mtimecmp (rd_val (Csr CSR_MHARTID) m) v0 h
    \<and> mtimecmp (rd_val (Csr CSR_MHARTID) m) v0 (log (neorv32_clint_mtimecmp_set t m)) = t"
  using mtimecmp_set_bound [OF refl assms] by (simp add: mtimecmp_set_value)

theorem clint_mtimecmp_set_no_spurious_witness:
  "min (mtimecmp 0 0x1ffffffff []) 0x200000005
      \<le> mtimecmp 0 0x1ffffffff [Wr (CLINT_MTIMECMP_LO 0) (- 1), Rd (Csr CSR_MHARTID) 0]"
proof -
  let ?m = "\<lparr>hw = \<lambda>_ _. 0, log = []\<rparr>"
  have l: "log (neorv32_clint_mtimecmp_set 0x200000005 ?m) =
    [Wr (CLINT_MTIMECMP_LO 0) 5, Wr (CLINT_MTIMECMP_HI 0) 2]
    @ [Wr (CLINT_MTIMECMP_LO 0) (- 1), Rd (Csr CSR_MHARTID) 0]"
    by (subst mtimecmp_set_log [of 0]) (simp_all add: rd_val_def lo32_def hi32_def)
  from clint_mtimecmp_set_no_spurious [OF l, of "[Wr (CLINT_MTIMECMP_LO 0) (- 1), Rd (Csr CSR_MHARTID) 0]"]
  show ?thesis by (simp add: rd_val_def)
qed

section \<open>DMA, watchdog, two-wire device, LED and PWM\<close>

text \<open>C12: A watchdog that \<^verbatim>\<open>neorv32_wdt_setup\<close> has enabled with the lock bit keeps its
configuration until the next system reset: as long as it is fed before the timeout (fewer ticks
of the clock divider than the timeout since it was last fed) and nothing else is written to it,
it stays enabled and locked with its timeout and raises no reset.  The first other write, to the
control register or with a wrong password, by \<^verbatim>\<open>neorv32_wdt_disable\<close> for instance,
resets the system with the cause illegal access (3), provided three more clocks pass before the
next access, and leaves the watchdog disabled and unlocked.  Before the setup the watchdog is
disabled and no reset is under way.\<close>

theorem wdt_locked_until_reset:
  assumes "wdt_off (wdt_state T (log m))" "bit lock 0"
    and "log m' = k @ log (neorv32_wdt_setup timeout lock m)" "\<forall>e\<in>set k. \<not> wdt_offends e"
    and "\<forall>i \<le> List.length k. wdt_ticks T (drop i k @ log (neorv32_wdt_setup timeout lock m))
      < unat (ucast timeout :: 24 word)"
  shows "(let d = wdt_state T (log m')
      in w_en d \<and> w_lock d \<and> w_timeout d = ucast timeout \<and> w_rstn d
        \<and> \<not> w_rst_timeout d \<and> \<not> w_rst_access d)
    \<and> (\<forall>e. wdt_offends e \<and> 3 \<le> List.length (snd (T (List.length (log m')))) \<longrightarrow>
        wdt_was_reset 3 (wdt_state T (e # log m')))
    \<and> ((\<forall>n. 3 \<le> List.length (snd (T n)))
        \<and> wdt_ticks T (Rd WDT_CTRL (rd_val WDT_CTRL m') # log m') < unat (ucast timeout :: 24 word) \<longrightarrow>
        wdt_was_reset 3 (wdt_state T (log (snd (neorv32_wdt_disable m')))))"
proof -
  let ?t = "ucast timeout :: 24 word"
  have "wdt_ticks T (log (neorv32_wdt_setup timeout lock m)) < unat ?t"
    using assms(5) [THEN spec, of "List.length k"] by simp
  note wdt_held_run [OF wdt_setup_held [OF assms(1,2) this] assms(4,5), folded assms(3)]
  moreover from assms(5) [THEN spec, of 0] have "wdt_ticks T (log m') < unat ?t" by (simp add: assms(3))
  ultimately show ?thesis
    using wdt_held_offence [of ?t T "log m'"] wdt_disable_resets [of ?t T m'] by (simp add: wdt_held_def Let_def)
qed

text \<open>A tick of the divider in the clocks after each access.\<close>

abbreviation (input) wdt_demo :: mach where
  "wdt_demo \<equiv> \<lparr>hw = wdt_rtl (\<lambda>_. (False, [False, True, False, False])) (\<lambda>_ _. 0), log = []\<rparr>"

theorem wdt_locked_until_reset_witness:
  "let T = (\<lambda>_. (False, [False, True, False, False]));
       m' = neorv32_wdt_feed WDT_PASSWORD (neorv32_wdt_setup 1000 1 wdt_demo)
   in w_lock (wdt_state T (log m')) \<and> wdt_was_reset 3 (wdt_state T (log (neorv32_wdt_feed 0 m')))
     \<and> wdt_was_reset 3 (wdt_state T (log (snd (neorv32_wdt_disable m'))))"
proof -
  let ?T = "\<lambda>_ :: nat. (False, [False, True, False, False])"
  let ?m = "neorv32_wdt_feed WDT_PASSWORD (neorv32_wdt_setup 1000 1 wdt_demo)"
  let ?k = "[Wr WDT_RESET WDT_PASSWORD]"
  have k: "log ?m = ?k @ log (neorv32_wdt_setup 1000 1 wdt_demo)" by (simp add: neorv32_wdt_feed_def wr_def)
  have o: "wdt_off (wdt_state ?T (log wdt_demo))" by (simp add: wdt_off_init)
  have b: "bit (1 :: u32) 0" by simp
  have t: "\<forall>i \<le> List.length ?k. wdt_ticks ?T (drop i ?k @ log (neorv32_wdt_setup 1000 1 wdt_demo))
      < unat (ucast (1000 :: u32) :: 24 word)"
    by (simp add: neorv32_wdt_setup_def wr_def Let_def le_Suc_eq)
  have s: "\<forall>e\<in>set ?k. \<not> wdt_offends e" by (simp add: wdt_offends_def)
  have r: "wdt_ticks ?T (Rd WDT_CTRL (rd_val WDT_CTRL ?m) # log ?m) < unat (ucast (1000 :: u32) :: 24 word)"
    by (simp add: neorv32_wdt_feed_def neorv32_wdt_setup_def wr_def Let_def)
  have f: "wdt_offends (Wr WDT_RESET 0)" by (auto simp: wdt_offends_def WDT_PASSWORD_def)
  have l: "log (neorv32_wdt_feed 0 ?m) = Wr WDT_RESET 0 # log ?m" by (simp add: neorv32_wdt_feed_def wr_def)
  note w = wdt_locked_until_reset [OF o b k s t]
  from w have 1: "w_lock (wdt_state ?T (log ?m))" by (simp only: Let_def)
  from w f have 2: "wdt_was_reset 3 (wdt_state ?T (Wr WDT_RESET 0 # log ?m))" by (simp del: wdt_state.simps)
  from w r have 3: "wdt_was_reset 3 (wdt_state ?T (log (snd (neorv32_wdt_disable ?m))))"
    by (simp del: wdt_state.simps wdt_ticks.simps)
  show ?thesis unfolding Let_def l by (intro conjI 1 2 3)
qed

text \<open>C13: \<^verbatim>\<open>neorv32_wdt_force_hwreset\<close> on a disabled watchdog does not reset the
system by its wrong password, since the unlocked unit ignores that: it leaves the watchdog enabled
with the timeout zero and the system running for as long as the clock divider has ticked at most
once, and the system is reset three clocks after the second tick, with the timeout as cause
(2), as \<^verbatim>\<open>neorv32_wdt_get_cause\<close> then reports.\<close>

theorem wdt_force_hwreset_by_timeout:
  assumes "wdt_off (wdt_state T (log m))" "hw m = wdt_rtl T rest"
    and "T (List.length (log m)) = (False, replicate a False)" "T (Suc (List.length (log m))) = (False, ts)"
    and "m' = neorv32_wdt_force_hwreset m"
  shows "(ts = replicate b False \<or> 0 < c \<and> ts = replicate b False @ True # replicate c False \<longrightarrow>
      (let d = wdt_state T (log m')
       in w_en d \<and> \<not> w_lock d \<and> w_timeout d = 0 \<and> w_rstn d \<and> \<not> w_rst_timeout d \<and> \<not> w_rst_access d))
    \<and> (ts = replicate b False @ True # replicate c False @ True # replicate e False \<and> 0 < c \<and> 3 \<le> e \<longrightarrow>
      wdt_was_reset 2 (wdt_state T (log m')) \<and> fst (neorv32_wdt_get_cause m') = 2)"
proof -
  from wdt_force_zero [OF assms(1,3,4)] obtain d
    where d: "wdt_zero False d" "wdt_state T (log m') = wdt_idle ts d" unfolding assms(5) by blast
  note z = wdt_zero_wait [OF d(1), of b]
  have n: "wdt_zero x d' \<Longrightarrow> w_en d' \<and> \<not> w_lock d' \<and> w_timeout d' = 0 \<and> w_rstn d'
    \<and> \<not> w_rst_timeout d' \<and> \<not> w_rst_access d'" for x d' by (simp add: wdt_zero_def)
  have "hw m' = wdt_rtl T rest" using assms(2) by (simp add: assms(5) neorv32_wdt_force_hwreset_def Let_def)
  then have g: "fst (neorv32_wdt_get_cause m') = 2" if "wdt_was_reset 2 (wdt_state T (log m'))"
    using that by (simp add: wdt_get_cause wdt_was_reset_def)
  have "\<exists>x. wdt_zero x (wdt_idle ts d)"
    if "ts = replicate b False \<or> 0 < c \<and> ts = replicate b False @ True # replicate c False"
    using that z wdt_zero_armed [OF z, of c] by (metis wdt_idle_append)
  moreover have "wdt_was_reset 2 (wdt_idle ts d)"
    if "ts = replicate b False @ True # replicate c False @ True # replicate e False" "0 < c" "3 \<le> e"
    using wdt_zero_reset [OF wdt_zero_armed [OF z that(2)] that(3)] unfolding that(1)
    by (metis append_Cons wdt_idle_append)
  ultimately show ?thesis using n g unfolding d(2) Let_def by metis
qed

theorem wdt_force_hwreset_by_timeout_witness:
  "let T = (\<lambda>n. (False, if n = 1 then replicate 2 False @ True # replicate 4095 False @ True # replicate 3 False
       else replicate 5 False));
       m = \<lparr>hw = wdt_rtl T (\<lambda>_ _. 0), log = []\<rparr>
   in fst (neorv32_wdt_get_cause (neorv32_wdt_force_hwreset m)) = 2"
proof -
  let ?T = "\<lambda>n :: nat. (False, if n = 1 then replicate 2 False @ True # replicate 4095 False @ True # replicate 3 False
       else replicate 5 False)"
  let ?m = "\<lparr>hw = wdt_rtl ?T (\<lambda>_ _. 0), log = []\<rparr>"
  have o: "wdt_off (wdt_state ?T (log ?m))" by (simp add: wdt_off_init)
  have a: "?T (List.length (log ?m)) = (False, replicate 5 False)"
    "?T (Suc (List.length (log ?m))) = (False, replicate 2 False @ True # replicate 4095 False @ True # replicate 3 False)"
    by (simp_all only: mach.simps list.size) simp_all
  have h: "hw ?m = wdt_rtl ?T (\<lambda>_ _. 0)" by simp
  from wdt_force_hwreset_by_timeout [OF o h a refl, of 2 4095 3] show ?thesis
    by (simp only: Let_def) simp
qed

text \<open>C14: The search for a WS2812 timing ends, and a prescaler it selects below the last gives a
usable timing: the bit period fits its five bits and the two high times are at least one tick,
all three being the nanosecond figures in ticks of the divided clock.\<close>

theorem neoled_timing_usable:
  assumes "ws2812_search t_clock 0 (0, 0, 0) = (sel, tot, t0, t1)" "sel \<noteq> 7"
  shows "sel < 7 \<and> 0 < t_clock * (CLK_PRSC_FACTOR_LUT ! sel) \<and> tot < 32 \<and> 0 < t0 \<and> 0 < t1
    \<and> tot = 2400 div (t_clock * (CLK_PRSC_FACTOR_LUT ! sel))
    \<and> t0 = 800 div (t_clock * (CLK_PRSC_FACTOR_LUT ! sel))
    \<and> t1 = 1600 div (t_clock * (CLK_PRSC_FACTOR_LUT ! sel))"
proof -
  have "sel < 7" using ws2812_search_le [of 0 t_clock "(0, 0, 0)"] assms by simp
  with ws2812_search_sound [OF assms(1)] show ?thesis by (auto simp: Let_def word_greater_zero_iff)
qed

theorem neoled_timing_usable_witness:
  "ws2812_search 20 0 (0, 0, 0) = (1, 30, 10, 20)
    \<and> (30 :: u32) = 2400 div (20 * (CLK_PRSC_FACTOR_LUT ! 1)) \<and> (10 :: u32) = 800 div (20 * (CLK_PRSC_FACTOR_LUT ! 1))"
proof -
  have s: "ws2812_search 20 0 (0, 0, 0) = (1, 30, 10, 20)"
    by (simp add: ws2812_search.simps [of 20 0] ws2812_search.simps [of 20 "Suc 0"]
        CLK_PRSC_FACTOR_LUT_def divu_def Let_def)
  with neoled_timing_usable [OF s] show ?thesis by simp
qed


section \<open>1-wire\<close>

text \<open>C15: The presence bit of the controller is one when a device answers the reset, and so the scan of the 1-wire demo finds no device on any bus: the driver returns that bit where its
documentation promises zero, and the search gives up.\<close>

theorem onewire_scan_finds_nothing:
  assumes "rom_search C D taking" "ow_wire C gap init rest l m"
  shows "\<exists>g' m'. scan_codes g m = Some ([], g', m')"
  by (rule rom_search.scan_finds_none [OF assms])

text \<open>Two devices of one family on a controller that completes a command before every other access.\<close>

definition two_roms :: "u8 list list" where
  "two_roms = [[0x28, 0x12, 0, 0, 0, 0, 0, 43], [0x28, 0x11, 0, 0, 0, 0, 0, 114]]"

definition ow_fresh :: "rom_phase ow_hw" where
  "ow_fresh = \<lparr>ow_line = Quiet, ow_pres = False, ow_en = True, ow_tx = [], ow_rx = []\<rparr>"

definition ow_demo :: mach where
  "ow_demo = \<lparr>hw = ow_rtl (rom_bus 1 two_roms) (\<lambda>n. n mod 2) ow_fresh (\<lambda>_ _. 0), log = []\<rparr>"

definition ow_cold :: ow_search where
  "ow_cold = \<lparr>ROM_NO = replicate 8 0, LastDiscrepancy = 0, LastFamilyDiscrepancy = 0, LastDeviceFlag = False, crc8 = 0\<rparr>"

lemma ow_demo_wire: "ow_wire (rom_bus 1 two_roms) (\<lambda>n. n mod 2) ow_fresh (\<lambda>_ _. 0) Quiet ow_demo"
proof -
  have "\<exists>k\<ge>n. 0 < k mod 2" for n :: nat by (rule exI [of _ "2 * n + 1"]) simp
  then show ?thesis unfolding ow_wire_def
    by (intro exI [of _ False]) (simp add: ow_on_def ow_demo_def ow_fresh_def rom_bus_def)
qed

lemma onewire_scan_finds_nothing_witness: "\<exists>g' m'. scan_codes ow_cold ow_demo = Some ([], g', m')"
  by (rule onewire_scan_finds_nothing [OF roms.rom_search_axioms ow_demo_wire])

section \<open>Physical memory protection\<close>

text \<open>C16: On the protection unit, configuring a region fails with -2 exactly where the region is
locked and then changes nothing; otherwise the region, and no other, has the legal part of the
configuration afterwards, and its address register what the unit accepts.\<close>

theorem pmp_configure_region_effect:
  assumes "hw m = pmp_rtl conf rest" "regions conf \<le> 16" "i < regions conf"
    and "bit (rd_val (Csr CSR_MXISA) m) (csr_mxisa CSR_MXISA_SMPMP)"
  shows "\<exists>r m'. neorv32_cpu_pmp_configure_region (int i) addr config m = (r, m')
    \<and> r = (if cfg_locked (p_cfg (pmp_state conf (log m)) i) then - 2 else 0)
    \<and> pmp_state conf (log m') = (if r = - 2 then pmp_state conf (log m)
        else (pmpaddr_write conf i addr (pmp_state conf (log m)))
          \<lparr>p_cfg := (p_cfg (pmp_state conf (log m)))(i := pmp_legal conf config)\<rparr>)"
proof -
  obtain r m' where "neorv32_cpu_pmp_configure_region (int i) addr config m = (r, m')" by fastforce
  with configure_region_state [OF assms this] show ?thesis by auto
qed

text \<open>A unit with four regions after reset, in a system with every extension.\<close>

definition pmp_small :: pmp_conf where
  "pmp_small = \<lparr>regions = 4, pmp_lsb = 4, tor_en = True, nap_en = True\<rparr>"

definition pmp_fresh :: mach where
  "pmp_fresh = \<lparr>hw = pmp_rtl pmp_small (\<lambda>_ _. - 1), log = []\<rparr>"

lemma pmp_fresh_xisa: "bit (rd_val (Csr CSR_MXISA) pmp_fresh) (csr_mxisa CSR_MXISA_SMPMP)"
  using pmp_csr_range(2) by (simp add: pmp_fresh_def rd_val_def pmp_rtl_def)

lemma pmp_configure_region_effect_witness:
  "\<exists>r m'. neorv32_cpu_pmp_configure_region (int 1) 0x1000 0x9f pmp_fresh = (r, m')
    \<and> r = (if cfg_locked (p_cfg (pmp_state pmp_small (log pmp_fresh)) 1) then - 2 else 0)
    \<and> pmp_state pmp_small (log m') = (if r = - 2 then pmp_state pmp_small (log pmp_fresh)
        else (pmpaddr_write pmp_small 1 0x1000 (pmp_state pmp_small (log pmp_fresh)))
          \<lparr>p_cfg := (p_cfg (pmp_state pmp_small (log pmp_fresh)))(1 := pmp_legal pmp_small 0x9f)\<rparr>)"
  by (rule pmp_configure_region_effect [OF _ _ _ pmp_fresh_xisa])
    (simp_all add: pmp_fresh_def pmp_small_def)

text \<open>C17: Configuring a region below a locked top-of-range region reports success although the
unit ignores the address: the region is active with its old address.\<close>

theorem pmp_address_silently_ignored:
  assumes "hw m = pmp_rtl conf rest" "regions conf \<le> 16" "i + 1 < regions conf"
    and "bit (rd_val (Csr CSR_MXISA) m) (csr_mxisa CSR_MXISA_SMPMP)"
    and "\<not> cfg_locked (p_cfg (pmp_state conf (log m)) i)" "locked_tor (pmp_state conf (log m)) (i + 1)"
  shows "\<exists>m'. neorv32_cpu_pmp_configure_region (int i) addr config m = (0, m')
    \<and> p_addr (pmp_state conf (log m')) i = p_addr (pmp_state conf (log m)) i
    \<and> p_cfg (pmp_state conf (log m')) i = pmp_legal conf config"
proof -
  obtain r m' where r: "neorv32_cpu_pmp_configure_region (int i) addr config m = (r, m')" by fastforce
  have i: "i < regions conf" using assms(3) by simp
  show ?thesis
    using configure_region_state [OF assms(1,2) i assms(4) r] assms(3,5,6) r
    by (auto simp: pmpaddr_write_def)
qed

text \<open>The same unit after region 1 has been locked as a top-of-range region.\<close>

definition pmp_locked :: mach where
  "pmp_locked = wr (Csr CSR_PMPCFG0) 0x8f00 pmp_fresh"

lemma pmp_address_silently_ignored_witness:
  "\<exists>m'. neorv32_cpu_pmp_configure_region (int 0) 0x1000 0x1f pmp_locked = (0, m')
    \<and> p_addr (pmp_state pmp_small (log m')) 0 = p_addr (pmp_state pmp_small (log pmp_locked)) 0
    \<and> p_cfg (pmp_state pmp_small (log m')) 0 = pmp_legal pmp_small 0x1f"
proof (rule pmp_address_silently_ignored)
  show "hw pmp_locked = pmp_rtl pmp_small (\<lambda>_ _. - 1)" by (simp add: pmp_locked_def pmp_fresh_def wr_def)
  show "bit (rd_val (Csr CSR_MXISA) pmp_locked) (csr_mxisa CSR_MXISA_SMPMP)"
    using pmp_csr_range(2) by (simp add: pmp_locked_def wr_def pmp_fresh_def rd_val_def pmp_rtl_def)
  show "\<not> cfg_locked (p_cfg (pmp_state pmp_small (log pmp_locked)) 0)"
    "locked_tor (pmp_state pmp_small (log pmp_locked)) (0 + 1)"
    by (simp_all add: pmp_locked_def pmp_fresh_def wr_def pmp_bus_def pmp_csr_word pmpcfg_write_def pmp_small_def
        pmp_reset_def cfg_locked_def locked_tor_def cfg_mode_def pmp_legal_def byte32_def)
qed (simp_all add: pmp_small_def)

text \<open>C18: A locked region keeps its configuration and its address whatever the software does
afterwards: no sequence of accesses of any kind changes them before a reset.\<close>

theorem pmp_locked_region_immutable:
  assumes "cfg_locked (p_cfg (pmp_state conf h) i)"
  shows "p_cfg (pmp_state conf (k @ h)) i = p_cfg (pmp_state conf h) i
    \<and> p_addr (pmp_state conf (k @ h)) i = p_addr (pmp_state conf h) i"
  using assms by (rule locked_run)

lemma pmp_locked_region_immutable_witness:
  "p_cfg (pmp_state pmp_small ([Wr (Csr CSR_PMPCFG0) 0] @ log pmp_locked)) 1 = p_cfg (pmp_state pmp_small (log pmp_locked)) 1
    \<and> p_addr (pmp_state pmp_small ([Wr (Csr CSR_PMPCFG0) 0] @ log pmp_locked)) 1 = p_addr (pmp_state pmp_small (log pmp_locked)) 1"
  by (rule pmp_locked_region_immutable)
    (simp add: pmp_locked_def pmp_fresh_def wr_def pmp_bus_def pmp_csr_word pmpcfg_write_def pmp_small_def
      pmp_reset_def cfg_locked_def cfg_mode_def pmp_legal_def byte32_def)

text \<open>C19: On a unit with top-of-range mode, a granularity of 16 bytes or more (and less than \<open>2^28\<close> bytes) and
no locked region, the granularity probe returns four times the granularity of the unit, because the address register of
a region that is off reads back with two bits too many cleared.\<close>

theorem pmp_granularity_fourfold:
  assumes "hw m = pmp_rtl conf rest" "0 < regions conf" "4 \<le> pmp_lsb conf" "pmp_lsb conf < 28" "tor_en conf"
    and "bit (rd_val (Csr CSR_MXISA) m) (csr_mxisa CSR_MXISA_SMPMP)"
    and "\<And>i. \<not> cfg_locked (p_cfg (pmp_state conf (log m)) i)"
  shows "\<exists>m'. neorv32_cpu_pmp_get_granularity m = Some (4 * BIT (pmp_lsb conf), m')"
proof -
  have "2 \<le> pmp_lsb conf" using assms(3) by simp
  from granularity_probe [OF assms(1,2) this assms(4,6,7)]
  obtain m' where "neorv32_cpu_pmp_get_granularity m = Some (BIT (granularity_seen conf), m')" by blast
  moreover have "granularity_seen conf = 2 + pmp_lsb conf" using assms(3,5) by (simp add: granularity_seen_def)
  ultimately show ?thesis by (simp add: BIT_def push_bit_eq_mult power_add mult.commute)
qed

lemma pmp_granularity_fourfold_witness:
  "\<exists>m'. neorv32_cpu_pmp_get_granularity pmp_fresh = Some (4 * BIT (pmp_lsb pmp_small), m')"
  by (rule pmp_granularity_fourfold [OF _ _ _ _ _ pmp_fresh_xisa])
    (simp_all add: pmp_fresh_def pmp_small_def pmp_reset_def cfg_locked_def)

text \<open>C20: Whatever the software writes to the protection CSRs, every region keeps a legal
configuration: no reserved bit, only a mode the unit was built with (the naturally aligned
four-byte mode only at the finest granularity), and an address of 30 bits.\<close>

theorem pmp_registers_legal:
  "\<not> bit (p_cfg (pmp_state conf h) i) 5 \<and> \<not> bit (p_cfg (pmp_state conf h) i) 6
    \<and> cfg_mode (p_cfg (pmp_state conf h) i) \<in> {0} \<union> (if tor_en conf then {1} else {})
        \<union> (if nap_en conf \<and> pmp_lsb conf \<le> 2 then {2} else {}) \<union> (if nap_en conf then {3} else {})
    \<and> unat (p_addr (pmp_state conf h) i) < 2 ^ 30"
  using pmp_wf_legal [OF pmp_wf_state] by blast
section \<open>Bootloader\<close>

text \<open>C21: Uploading over UART0, when the line carries a complete image (the four words of a header and as many
words as its size asks for) of at most \<open>2^32 - 4\<close> bytes, the receiver loses no character (hardware flow control
with a line that keeps clearing the transmitter, or room in the queue for the whole input), and every word of the
program goes to a word-aligned address that takes stores and is no register of the console: then
\<^verbatim>\<open>system_app_load\<close> returns; it reports success exactly for an image with the signature and a matching
checksum, leaves an executable of that base and size only then, and, if the signature is right, stores the words of the
program, each once and in order, and nothing else outside the console.  (A store that does not succeed raises an exception,
and the handler of the bootloader does not return from that.)\<close>

theorem uart_upload_loads:
  assumes "console_ok p txd rxd rest input (cpu b)"
    and "words_le (drop (uart_pos p txd rxd UART0 input (cpu b)) input) = [sig, base, sz, chk] @ ws @ surplus"
    and "List.length ws = words_of sz" "unat sz \<le> 2 ^ 32 - 4"
    and "\<forall>j < words_of sz. Mem W32 (base + of_nat (4 * j)) \<notin> console_locs
      \<and> storable (cpu b) (base + of_nat (4 * j))"
  shows "\<exists>r b'. system_app_load uart_setup uart_stream_get b = Some (r, b')
    \<and> (r = 0 \<longleftrightarrow> valid_image sig chk ws)
    \<and> g_exe_base b' = base \<and> g_exe_size b' = (if r = 0 then sz else 0)
    \<and> (sig = BIN_SIGNATURE \<longrightarrow> (\<forall>l. l \<notin> console_locs \<longrightarrow>
        written l (cpu b') = written l (cpu b) @ placed l base ws))"
proof -
  let ?n = "uart_pos p txd rxd UART0 input (cpu b)" and ?b = "b\<lparr>g_exe_size := 0\<rparr>"
  have su: "uart_setup ?b = Some (0, ?b)" by (simp add: uart_setup_def)
  have ok: "upload_ok p txd rxd rest input ?n ?b" using assms(1) by (simp add: upload_ok_def)
  have "upload_pos p txd rxd input ?n ?b = 0" "g_exe_size ?b = 0" by (simp_all add: upload_pos_def)
  moreover have "\<forall>j < words_of sz. Mem W32 (base + of_nat (4 * j)) \<notin> console_locs
      \<and> storable (cpu ?b) (base + of_nat (4 * j))" using assms(5) by simp
  ultimately have "\<exists>r b'. system_app_load uart_setup uart_stream_get b = Some (r, b')
    \<and> (r = 0 \<longleftrightarrow> valid_image sig chk ws)
    \<and> g_exe_base b' = base \<and> g_exe_size b' = (if r = 0 then sz else 0)
    \<and> (r = 0 \<longrightarrow> upload_ok p txd rxd rest input ?n b' \<and> upload_pos p txd rxd input ?n b' = 4 + words_of sz)
    \<and> (sig = BIN_SIGNATURE \<longrightarrow> (\<forall>l. l \<notin> console_locs \<longrightarrow>
        written l (cpu b') = written l (cpu ?b) @ placed l base ws))"
    by (intro upload.app_load [where dev_init = uart_setup and b = b, OF su ok _ _ assms(2-4)]) simp_all
  then obtain r b' where "system_app_load uart_setup uart_stream_get b = Some (r, b')"
    "r = 0 \<longleftrightarrow> valid_image sig chk ws" "g_exe_base b' = base" "g_exe_size b' = (if r = 0 then sz else 0)"
    "sig = BIN_SIGNATURE \<longrightarrow> (\<forall>l. l \<notin> console_locs \<longrightarrow>
      written l (cpu b') = written l (cpu b) @ placed l base ws)" by auto
  then show ?thesis by (intro exI conjI)
qed

text \<open>A system with an upload of one word, \<^verbatim>\<open>0xdeadbeef\<close> to address \<^verbatim>\<open>0x100\<close>, waiting on the line.\<close>

definition upload_bytes :: "u8 list" where
  "upload_bytes = bytes32 BIN_SIGNATURE @ bytes32 0x100 @ bytes32 4 @ bytes32 (NOT 0xdeadbeef) @ bytes32 0xdeadbeef"

lemma uart_upload_loads_witness:
  "\<exists>r b'. system_app_load uart_setup uart_stream_get (boot_init (soc_start 5 (\<lambda>_. 0xff) (ram_of (\<lambda>_. 0)) upload_bytes)) = Some (r, b')
    \<and> (r = 0 \<longleftrightarrow> valid_image BIN_SIGNATURE (NOT 0xdeadbeef) [0xdeadbeef])
    \<and> g_exe_base b' = 0x100 \<and> g_exe_size b' = (if r = 0 then 4 else 0)
    \<and> (BIN_SIGNATURE = BIN_SIGNATURE \<longrightarrow> (\<forall>l. l \<notin> console_locs \<longrightarrow>
        written l (cpu b') = written l (cpu (boot_init (soc_start 5 (\<lambda>_. 0xff) (ram_of (\<lambda>_. 0)) upload_bytes)))
          @ placed l 0x100 [0xdeadbeef]))"
proof (rule uart_upload_loads)
  show "console_ok clear_line 2 5 (soc_rest (\<lambda>_. 0xff) (ram_of (\<lambda>_. 0))) upload_bytes
      (cpu (boot_init (soc_start 5 (\<lambda>_. 0xff) (ram_of (\<lambda>_. 0)) upload_bytes)))"
    unfolding boot_init_def boot.simps by (rule soc_start_console) (simp add: upload_bytes_def)
  have "words_le upload_bytes = [BIN_SIGNATURE, 0x100, 4, NOT 0xdeadbeef] @ [0xdeadbeef] @ []"
    unfolding upload_bytes_def words_le_bytes32
    using words_le_bytes32 [of "0xdeadbeef" "[]"] by simp
  then show "words_le (drop (uart_pos clear_line 2 5 UART0 upload_bytes
      (cpu (boot_init (soc_start 5 (\<lambda>_. 0xff) (ram_of (\<lambda>_. 0)) upload_bytes)))) upload_bytes)
      = [BIN_SIGNATURE, 0x100, 4, NOT 0xdeadbeef] @ [0xdeadbeef] @ []"
    by (simp add: boot_init_def soc_start_pos)
  have "storable (cpu (boot_init (soc_start 5 (\<lambda>_. 0xff) (ram_of (\<lambda>_. 0)) upload_bytes))) 0x100"
    unfolding boot_init_def boot.simps by (rule soc_start_memory) simp_all
  then show "\<forall>j < words_of 4. Mem W32 (0x100 + of_nat (4 * j)) \<notin> console_locs
      \<and> storable (cpu (boot_init (soc_start 5 (\<lambda>_. 0xff) (ram_of (\<lambda>_. 0)) upload_bytes))) (0x100 + of_nat (4 * j))"
    by (simp add: words_of_def console_locs_def UART_CTRL_def UART_DATA_def UART0_def NEORV32_UART0_BASE_def
      SYSINFO_SOC_def NEORV32_SYSINFO_BASE_def)
qed (simp_all add: words_of_def console_locs_def UART_CTRL_def UART_DATA_def UART0_def NEORV32_UART0_BASE_def
    SYSINFO_SOC_def NEORV32_SYSINFO_BASE_def)

text \<open>C22: Storing to SPI flash and loading back, for every size the erased sectors cover and an executable in
word-aligned memory, off the registers of the devices, that reads each word as it was as long as nothing is stored
over it, and that takes stores: the user confirms, \<^verbatim>\<open>system_app_store\<close> reports success, and
\<^verbatim>\<open>system_app_load\<close> from the same flash then succeeds with the same base and size and writes the words
that were in memory to where they were.\<close>

theorem spi_flash_roundtrip:
  assumes "flash_ready fd p c (cpu b)" "console_ok q txd rxd rest input (cpu b)"
    and "\<forall>h. bit (hw (cpu b) h SYSINFO_SOC) (sysinfo_soc SYSINFO_SOC_IO_SPI)"
    and "uart_pos q txd rxd UART0 input (cpu b) < List.length input"
    and "input ! uart_pos q txd rxd UART0 input (cpu b) = 0x79"
    and "g_exe_size b \<noteq> 0" "unat (g_exe_size b) \<le> 0xbffff0" "erase_covers (g_exe_size b)"
    and "List.length ws = words_of (g_exe_size b)"
    and "\<forall>j < words_of (g_exe_size b). holds_word (cpu b) (g_exe_base b + of_nat (4 * j)) (ws ! j)
      \<and> Mem W32 (g_exe_base b + of_nat (4 * j)) \<notin> console_locs \<union> spi_locs"
    and "\<forall>j < words_of (g_exe_size b). storable (cpu b) (g_exe_base b + of_nat (4 * j))"
  shows "\<exists>b1 b2. system_app_store spi_flash_setup spi_flash_erase spi_flash_stream_put b = Some (0, b1)
    \<and> system_app_load spi_flash_setup spi_flash_stream_get b1 = Some (0, b2)
    \<and> g_exe_base b2 = g_exe_base b \<and> g_exe_size b2 = g_exe_size b
    \<and> (\<forall>l. l \<notin> insert SYSINFO_SOC (console_locs \<union> spi_locs) \<longrightarrow>
        written l (cpu b2) = written l (cpu b1) @ placed l (g_exe_base b) ws)"
  using assms by (intro spi_medium.store_load [where fd = fd and p = p and c = c])
    (simp_all add: spi_there_def flash_fits_def)

text \<open>A system with an executable of one word at address \<^verbatim>\<open>0x100\<close>, a blank-free flash and a user who
confirms.\<close>

definition store_start :: boot where
  "store_start = \<lparr>cpu = soc_start 2 (\<lambda>_. 0) (ram_of (poke 0x100 0xdeadbeef (\<lambda>_. 0))) [0x79], g_exe_base = 0x100, g_exe_size = 4, g_flash_addr = 0\<rparr>"

lemma spi_flash_roundtrip_witness:
  "\<exists>b1 b2. system_app_store spi_flash_setup spi_flash_erase spi_flash_stream_put store_start = Some (0, b1)
    \<and> system_app_load spi_flash_setup spi_flash_stream_get b1 = Some (0, b2)
    \<and> g_exe_base b2 = g_exe_base store_start \<and> g_exe_size b2 = g_exe_size store_start
    \<and> (\<forall>l. l \<notin> insert SYSINFO_SOC (console_locs \<union> spi_locs) \<longrightarrow>
        written l (cpu b2) = written l (cpu b1) @ placed l (g_exe_base store_start) [0xdeadbeef])"
proof (rule spi_flash_roundtrip)
  let ?m = "soc_start 2 (\<lambda>_. 0) (ram_of (poke 0x100 0xdeadbeef (\<lambda>_. 0))) [0x79]"
  show "flash_ready 2 3 (reference_chip (\<lambda>_. 0)) (cpu store_start)" by (simp add: store_start_def soc_start_ready)
  show "console_ok clear_line 2 2 (soc_rest (\<lambda>_. 0) (ram_of (poke 0x100 0xdeadbeef (\<lambda>_. 0)))) [0x79] (cpu store_start)"
    by (simp add: store_start_def soc_start_console)
  show "uart_pos clear_line 2 2 UART0 [0x79] (cpu store_start) < List.length [0x79 :: u8]"
    "[0x79 :: u8] ! uart_pos clear_line 2 2 UART0 [0x79] (cpu store_start) = 0x79"
    by (simp_all add: store_start_def soc_start_pos)
  show "\<forall>h. bit (hw (cpu store_start) h SYSINFO_SOC) (sysinfo_soc SYSINFO_SOC_IO_SPI)"
    by (simp add: store_start_def soc_start_soc)
  have "aligned W32 0x100" "(0x100 :: u32) < 0xf0000000" by simp_all
  note mem = soc_start_memory [OF this, of 2 "\<lambda>_. 0" "poke 0x100 0xdeadbeef (\<lambda>_. 0)" "[0x79]"]
  from mem show "\<forall>j < words_of (g_exe_size store_start). holds_word (cpu store_start) (g_exe_base store_start + of_nat (4 * j))
        ([0xdeadbeef] ! j) \<and> Mem W32 (g_exe_base store_start + of_nat (4 * j)) \<notin> console_locs \<union> spi_locs"
    "\<forall>j < words_of (g_exe_size store_start). storable (cpu store_start) (g_exe_base store_start + of_nat (4 * j))"
    by (simp_all add: store_start_def words_of_def word_at_poke console_locs_def spi_locs_def UART_CTRL_def UART_DATA_def
        UART0_def NEORV32_UART0_BASE_def SYSINFO_SOC_def NEORV32_SYSINFO_BASE_def spi_regs)
qed (simp_all add: store_start_def soc_start_pos words_of_def erase_covers_def BIN_OFFSET_DATA_def console_locs_def
    spi_locs_def UART_CTRL_def UART_DATA_def UART0_def NEORV32_UART0_BASE_def SYSINFO_SOC_def NEORV32_SYSINFO_BASE_def spi_regs)

text \<open>C23: The same, on the same conditions on the memory, for the TWI flash and a serial EEPROM, which needs no
erase and takes up to 64 kB, header included: every byte of the image goes over the two-wire bus as a write of its own, is waited for, and is
read back as it was.\<close>

theorem twi_flash_roundtrip:
  assumes "ee_ready fd p c (cpu b)" "console_ok q txd rxd rest input (cpu b)"
    and "\<forall>h. bit (hw (cpu b) h SYSINFO_SOC) (sysinfo_soc SYSINFO_SOC_IO_TWI)"
    and "uart_pos q txd rxd UART0 input (cpu b) < List.length input"
    and "input ! uart_pos q txd rxd UART0 input (cpu b) = 0x79"
    and "g_exe_size b \<noteq> 0" "unat (g_exe_size b) \<le> 0xfff0" "List.length ws = words_of (g_exe_size b)"
    and "\<forall>j < words_of (g_exe_size b). holds_word (cpu b) (g_exe_base b + of_nat (4 * j)) (ws ! j)
      \<and> Mem W32 (g_exe_base b + of_nat (4 * j)) \<notin> console_locs \<union> twi_locs"
    and "\<forall>j < words_of (g_exe_size b). storable (cpu b) (g_exe_base b + of_nat (4 * j))"
  shows "\<exists>b1 b2. system_app_store twi_flash_setup twi_flash_erase twi_flash_stream_put b = Some (0, b1)
    \<and> system_app_load twi_flash_setup twi_flash_stream_get b1 = Some (0, b2)
    \<and> g_exe_base b2 = g_exe_base b \<and> g_exe_size b2 = g_exe_size b
    \<and> (\<forall>l. l \<notin> insert SYSINFO_SOC (console_locs \<union> twi_locs) \<longrightarrow>
        written l (cpu b2) = written l (cpu b1) @ placed l (g_exe_base b) ws)"
  using assms by (intro twi_medium.store_load [where fd = fd and p = p and c = c]) (simp_all add: ee_there_def ee_fits_def)

lemma twi_flash_roundtrip_witness:
  "\<exists>b1 b2. system_app_store twi_flash_setup twi_flash_erase twi_flash_stream_put
        \<lparr>cpu = ee_soc 2 (\<lambda>_. 0) (ram_of (poke 0x100 0xdeadbeef (\<lambda>_. 0))) [0x79], g_exe_base = 0x100, g_exe_size = 4, g_flash_addr = 0\<rparr> = Some (0, b1)
    \<and> system_app_load twi_flash_setup twi_flash_stream_get b1 = Some (0, b2)
    \<and> g_exe_base b2 = 0x100 \<and> g_exe_size b2 = 4
    \<and> (\<forall>l. l \<notin> insert SYSINFO_SOC (console_locs \<union> twi_locs) \<longrightarrow>
        written l (cpu b2) = written l (cpu b1) @ placed l 0x100 [0xdeadbeef])"
proof -
  let ?m = "ee_soc 2 (\<lambda>_. 0) (ram_of (poke 0x100 0xdeadbeef (\<lambda>_. 0))) [0x79]"
  let ?b = "\<lparr>cpu = ?m, g_exe_base = 0x100, g_exe_size = 4, g_flash_addr = 0\<rparr>"
  have r: "ee_ready 2 3 (reference_eeprom (\<lambda>_. 0)) (cpu ?b)" by (simp add: ee_soc_ready)
  have con: "console_ok clear_line 2 2 (ee_soc_rest (\<lambda>_. 0) (ram_of (poke 0x100 0xdeadbeef (\<lambda>_. 0)))) [0x79] (cpu ?b)" by (simp add: ee_soc_console)
  have soc: "\<forall>h. bit (hw (cpu ?b) h SYSINFO_SOC) (sysinfo_soc SYSINFO_SOC_IO_TWI)"
    using ee_soc_there by (simp add: ee_there_def)
  have "aligned W32 0x100" "(0x100 :: u32) < 0xf0000000" by simp_all
  note ram = ee_soc_memory [OF this, of 2 "\<lambda>_. 0" "poke 0x100 0xdeadbeef (\<lambda>_. 0)" "[0x79]"]
  have mem: "\<forall>j < words_of (g_exe_size ?b). holds_word (cpu ?b) (g_exe_base ?b + of_nat (4 * j)) ([0xdeadbeef] ! j)
      \<and> Mem W32 (g_exe_base ?b + of_nat (4 * j)) \<notin> console_locs \<union> twi_locs"
    "\<forall>j < words_of (g_exe_size ?b). storable (cpu ?b) (g_exe_base ?b + of_nat (4 * j))"
    using ram by (simp_all add: words_of_def word_at_poke console_locs_def twi_locs_def UART_CTRL_def UART_DATA_def UART0_def NEORV32_UART0_BASE_def
        SYSINFO_SOC_def NEORV32_SYSINFO_BASE_def twi_regs)
  have sz: "g_exe_size ?b \<noteq> 0" "unat (g_exe_size ?b) \<le> 0xfff0" "List.length [0xdeadbeef :: u32] = words_of (g_exe_size ?b)"
    by (simp_all add: words_of_def)
  have pos: "uart_pos clear_line 2 2 UART0 [0x79] (cpu ?b) < List.length [0x79 :: u8]" "[0x79] ! uart_pos clear_line 2 2 UART0 [0x79] (cpu ?b) = 0x79"
    by (simp_all add: ee_soc_pos)
  from twi_flash_roundtrip [OF r con soc pos sz mem] show ?thesis by simp
qed

text \<open>C24: The erase reports success but computes its sectors from the size of the program without
the header: for a size within 16 bytes below a sector boundary it leaves a word that the image
needs as it was, so that programming it can only clear bits of the old content.\<close>

theorem spi_flash_erase_too_short:
  assumes "flash_idle fd p c (cpu b)" "unat (g_exe_size b) < 0xbf0000" "\<not> erase_covers (g_exe_size b)"
  shows "\<exists>b' k. spi_flash_erase b = Some (0, b') \<and> k < words_of (g_exe_size b) + 4
    \<and> flash_cell (mem c (spi_line fd p (answer c) (cpu b'))) k = flash_cell (mem c (spi_line fd p (answer c) (cpu b))) k"
proof -
  let ?d = "unat (g_exe_size b) div 0x10000"
  have "unat (g_exe_size b) < 0xc00000" using assms(2) by simp
  from flash_erase [OF assms(1) this] obtain m' where m':
    "spi_flash_erase b = Some (0, b\<lparr>cpu := m', g_flash_addr := SPI_FLASH_BASE_ADDR\<rparr>)"
    "mem c (spi_line fd p (answer c) m') = wiped (?d + 1) SPI_FLASH_BASE_ADDR (mem c (spi_line fd p (answer c) (cpu b)))"
    by blast
  have d: "?d < 0xbf" using assms(2) by (simp add: less_mult_imp_div_less)
  then have cell: "flash_cell (mem c (spi_line fd p (answer c) m')) (0x4000 * (?d + 1))
      = flash_cell (mem c (spi_line fd p (answer c) (cpu b))) (0x4000 * (?d + 1))"
    unfolding m'(2) by (intro unerased_cell) simp_all
  have "0x10000 * (a + 1) < x + 16" if "r > 0xfff0" "a * 0x10000 + r = x" for a r x :: nat
    using that by simp
  from this [OF _ div_mult_mod_eq [of "unat (g_exe_size b)" "0x10000"]] assms(3)
  have "(0x4000 * (?d + 1) + 1) * 4 \<le> unat (g_exe_size b) + 19" by (simp add: erase_covers_def BIN_OFFSET_DATA_def)
  then have "0x4000 * (?d + 1) + 1 \<le> (unat (g_exe_size b) + 19) div 4"
    by (simp only: less_eq_div_iff_mult_less_eq zero_less_numeral)
  then have "0x4000 * (?d + 1) < words_of (g_exe_size b) + 4" by (simp add: words_of_def)
  with m'(1) cell show ?thesis
    by (intro exI [of _ "b\<lparr>cpu := m', g_flash_addr := SPI_FLASH_BASE_ADDR\<rparr>"] exI [of _ "0x4000 * (?d + 1)"]) simp
qed

lemma spi_flash_erase_too_short_witness:
  "\<exists>b' k. spi_flash_erase (boot_init (neorv32_spi_setup 3 0 0 0 (soc_start 2 (\<lambda>_. 0) (ram_of (\<lambda>_. 0)) []))\<lparr>g_exe_size := 0xfff8\<rparr>) = Some (0, b')
    \<and> k < words_of (g_exe_size (boot_init (neorv32_spi_setup 3 0 0 0 (soc_start 2 (\<lambda>_. 0) (ram_of (\<lambda>_. 0)) []))\<lparr>g_exe_size := 0xfff8\<rparr>)) + 4
    \<and> flash_cell (mem (reference_chip (\<lambda>_. 0)) (spi_line 2 3 (answer (reference_chip (\<lambda>_. 0))) (cpu b'))) k
      = flash_cell (mem (reference_chip (\<lambda>_. 0)) (spi_line 2 3 (answer (reference_chip (\<lambda>_. 0)))
          (cpu (boot_init (neorv32_spi_setup 3 0 0 0 (soc_start 2 (\<lambda>_. 0) (ram_of (\<lambda>_. 0)) []))\<lparr>g_exe_size := 0xfff8\<rparr>)))) k"
proof (rule spi_flash_erase_too_short)
  let ?m = "soc_start 2 (\<lambda>_. 0) (ram_of (\<lambda>_. 0)) []" and ?c = "reference_chip (\<lambda>_. 0)"
  note r = soc_start_ready [of "\<lambda>_. 0" 2 "ram_of (\<lambda>_. 0)" "[]"]
  from spi_setup_quiet [OF r, of 3 0] r have "flash_idle 2 3 ?c (neorv32_spi_setup 3 0 0 0 ?m)"
    by (simp add: flash_idle_def flash_ready_def)
  then show "flash_idle 2 3 ?c (cpu (boot_init (neorv32_spi_setup 3 0 0 0 ?m)\<lparr>g_exe_size := 0xfff8\<rparr>))"
    by (simp add: boot_init_def)
qed (simp_all add: boot_init_def erase_covers_def BIN_OFFSET_DATA_def)

section \<open>From the image generator to the running program\<close>

text \<open>C25: On a line whose receiver loses no character, a user who types the upload command, sends the file that
the image generator wrote for a program of whole words, to be loaded where word-aligned stores succeed and off the
registers of the console, and types the execute command gets the program: the console loop ends
in a jump to the entry point of the ELF file, with the trap return address set to it, the last
character sent, and the words of the program at the entry point, each stored once; nothing else
was written outside the registers that booting uses.\<close>

theorem console_runs_generated_image:
  assumes "console_ok p txd rxd rest input (cpu b)"
    and "drop (uart_pos p txd rxd UART0 input (cpu b)) input
      = 0x75 # bytes (gen_exe entry raw \<lparr>bytes = [], fpos = 0\<rparr>) @ 0x65 # surplus"
    and "raw \<noteq> []" "4 dvd List.length raw" "List.length raw \<le> 2 ^ 32 - 4"
    and "\<forall>j < List.length raw div 4. Mem W32 (entry + of_nat (4 * j)) \<notin> console_locs
      \<and> storable (cpu b) (entry + of_nat (4 * j))"
  shows "\<exists>b'. console_loop b = Some (Jump entry b')
    \<and> written (Csr CSR_MEPC) (cpu b') = written (Csr CSR_MEPC) (cpu b) @ [entry]
    \<and> u_tx (uart_state UART0 p txd rxd input (log (cpu b'))) = []
    \<and> (\<forall>l. l \<notin> boot_locs \<longrightarrow> written l (cpu b') = written l (cpu b) @ placed l entry (words_le raw))"
proof -
  let ?f = "bytes (gen_exe entry raw \<lparr>bytes = [], fpos = 0\<rparr>)" and ?sz = "of_nat (List.length raw) :: u32"
  have sz: "unat ?sz = List.length raw" using assms(5) by (intro unat_of_nat_small) simp
  then have words: "words_of ?sz = List.length raw div 4" using assms(4) by (auto simp: words_of_def)
  have len: "List.length ?f = 4 * (4 + words_of ?sz)"
  proof -
    have "List.length (concat (map bytes32 ws)) = 4 * List.length ws" for ws by (induction ws) simp_all
    then show ?thesis unfolding gen_exe_bytes by (simp add: words)
  qed
  have l1: "List.length (words_le raw) = words_of ?sz" "unat ?sz \<le> 2 ^ 32 - 4"
    "NOT (sum_list (words_le raw)) + sum_list (words_le raw) + 1 = 0"
    using assms(5) by (simp_all add: words sz not_eq_complement)
  have d1: "\<forall>j < words_of ?sz. Mem W32 (entry + of_nat (4 * j)) \<notin> console_locs
      \<and> storable (cpu b) (entry + of_nat (4 * j))" using assms(6) by (simp add: words)
  have w: "words_le (?f @ 0x65 # surplus) = [BIN_SIGNATURE, entry, ?sz, NOT (sum_list (words_le raw))]
      @ words_le raw @ words_le (0x65 # surplus)" using gen_exe_words by simp
  from upload_turn [OF assms(1,2) w len l1 d1] obtain b2 where b2: "console_loop b = console_loop b2"
    "console_ok p txd rxd rest input (cpu b2)" "drop (uart_pos p txd rxd UART0 input (cpu b2)) input = 0x65 # surplus"
    "g_exe_base b2 = entry" "g_exe_size b2 = ?sz"
    "\<forall>l. l \<notin> console_locs \<longrightarrow> written l (cpu b2) = written l (cpu b) @ placed l entry (words_le raw)" by blast
  have "g_exe_size b2 \<noteq> 0" unfolding b2(5) using sz assms(3) by (metis length_0_conv unat_0)
  from execute_turn [OF b2(2,3) this] obtain m4 where m4: "console_loop b = Some (Jump entry (b2\<lparr>cpu := m4\<rparr>))"
    "u_tx (uart_state UART0 p txd rxd input (log m4)) = []" "written (Csr CSR_MEPC) m4 = written (Csr CSR_MEPC) (cpu b2) @ [entry]"
    "\<forall>l. l \<notin> boot_locs \<longrightarrow> written l m4 = written l (cpu b2)" by (auto simp: b2(1,4))
  have "placed (Csr CSR_MEPC) a ws = []" for a ws by (induction ws arbitrary: a) simp_all
  with m4 b2(6) boot_locs_foreign(1) show ?thesis
    by (intro exI [of _ "b2\<lparr>cpu := m4\<rparr>"]) (auto simp: boot_locs_def)
qed

text \<open>The system of the upload example with the commands around the file.\<close>

definition session_bytes :: "u8 list" where
  "session_bytes = 0x75 # bytes (gen_exe 0x100 (bytes32 0xdeadbeef) \<lparr>bytes = [], fpos = 0\<rparr>) @ [0x65]"

lemma console_runs_generated_image_witness:
  "\<exists>b'. console_loop (boot_init (soc_start 5 (\<lambda>_. 0xff) (ram_of (\<lambda>_. 0)) session_bytes)) = Some (Jump 0x100 b')
    \<and> written (Csr CSR_MEPC) (cpu b')
      = written (Csr CSR_MEPC) (cpu (boot_init (soc_start 5 (\<lambda>_. 0xff) (ram_of (\<lambda>_. 0)) session_bytes))) @ [0x100]
    \<and> u_tx (uart_state UART0 clear_line 2 5 session_bytes (log (cpu b'))) = []
    \<and> (\<forall>l. l \<notin> boot_locs \<longrightarrow> written l (cpu b')
      = written l (cpu (boot_init (soc_start 5 (\<lambda>_. 0xff) (ram_of (\<lambda>_. 0)) session_bytes)))
        @ placed l 0x100 (words_le (bytes32 0xdeadbeef)))"
proof (rule console_runs_generated_image)
  have "words_le (bytes32 0xdeadbeef) = [0xdeadbeef]" using words_le_bytes32 [of "0xdeadbeef" "[]"] by simp
  then have "List.length session_bytes \<le> 2 ^ 5" by (simp add: session_bytes_def gen_exe_bytes)
  from soc_start_console [OF this] show "console_ok clear_line 2 5 (soc_rest (\<lambda>_. 0xff) (ram_of (\<lambda>_. 0))) session_bytes
      (cpu (boot_init (soc_start 5 (\<lambda>_. 0xff) (ram_of (\<lambda>_. 0)) session_bytes)))" by (simp add: boot_init_def)
  show "drop (uart_pos clear_line 2 5 UART0 session_bytes (cpu (boot_init (soc_start 5 (\<lambda>_. 0xff) (ram_of (\<lambda>_. 0)) session_bytes))))
      session_bytes = 0x75 # bytes (gen_exe 0x100 (bytes32 0xdeadbeef) \<lparr>bytes = [], fpos = 0\<rparr>) @ 0x65 # []"
    unfolding boot_init_def boot.simps soc_start_pos by (simp add: session_bytes_def)
  show "bytes32 0xdeadbeef \<noteq> []" by (simp add: bytes32_eq)
  have "storable (cpu (boot_init (soc_start 5 (\<lambda>_. 0xff) (ram_of (\<lambda>_. 0)) session_bytes))) 0x100"
    unfolding boot_init_def boot.simps by (rule soc_start_memory) simp_all
  then show "\<forall>j < List.length (bytes32 0xdeadbeef) div 4. Mem W32 (0x100 + of_nat (4 * j)) \<notin> console_locs
      \<and> storable (cpu (boot_init (soc_start 5 (\<lambda>_. 0xff) (ram_of (\<lambda>_. 0)) session_bytes))) (0x100 + of_nat (4 * j))"
    by (simp add: console_locs_def UART_CTRL_def UART_DATA_def UART0_def NEORV32_UART0_BASE_def
      SYSINFO_SOC_def NEORV32_SYSINFO_BASE_def)
qed (simp_all add: console_locs_def UART_CTRL_def UART_DATA_def UART0_def NEORV32_UART0_BASE_def
    SYSINFO_SOC_def NEORV32_SYSINFO_BASE_def)

text \<open>C26: For a program that is not a whole number of words the generator only warns, and writes
a header with the full size but leaves the last bytes out.  The bootloader, whose receiver loses
no character, then waits for a word that is not in the file: loading to addresses off the registers of the console, it
does not return.  (Where a store of the program raises an exception, it does not return either.)\<close>

theorem partial_word_image_hangs_upload:
  assumes "console_ok p txd rxd rest input (cpu b)"
    and "drop (uart_pos p txd rxd UART0 input (cpu b)) input = bytes (gen_exe entry raw \<lparr>bytes = [], fpos = 0\<rparr>)"
    and "\<not> 4 dvd List.length raw" "List.length raw < 2 ^ 32"
    and "\<forall>j < List.length raw div 4 + 1. Mem W32 (entry + of_nat (4 * j)) \<notin> console_locs"
  shows "system_app_load uart_setup uart_stream_get b = None"
proof -
  let ?n = "uart_pos p txd rxd UART0 input (cpu b)" and ?b = "b\<lparr>g_exe_size := 0\<rparr>"
  let ?sz = "of_nat (List.length raw) :: u32"
  have su: "uart_setup ?b = Some (0, ?b)" by (simp add: uart_setup_def)
  have ok: "upload_ok p txd rxd rest input ?n ?b" using assms(1) by (simp add: upload_ok_def)
  have pos: "upload_pos p txd rxd input ?n ?b = 0" by (simp add: upload_pos_def)
  have "unat ?sz = List.length raw" using assms(4) by (intro unat_of_nat_small) simp
  then have words: "words_of ?sz = List.length raw div 4 + 1" using assms(3) unfolding words_of_def by presburger
  have im: "words_le (drop ?n input) = [BIN_SIGNATURE, entry, ?sz, NOT (sum_list (words_le raw))] @ words_le raw"
    using gen_exe_words [of entry raw "[]"] by (simp add: assms(2))
  have "List.length (words_le raw) < words_of ?sz" by (simp add: words)
  moreover have "\<forall>j < words_of ?sz. Mem W32 (entry + of_nat (4 * j)) \<notin> console_locs" using assms(5) unfolding words .
  ultimately show ?thesis by (rule upload_end.app_load_waits [where dev_init = uart_setup and b = b, OF su ok pos im])
qed

lemma partial_word_image_hangs_upload_witness:
  "system_app_load uart_setup uart_stream_get
     (boot_init (soc_start 5 (\<lambda>_. 0xff) (ram_of (\<lambda>_. 0)) (bytes (gen_exe 0x100 [1, 2, 3] \<lparr>bytes = [], fpos = 0\<rparr>)))) = None"
proof (rule partial_word_image_hangs_upload)
  let ?f = "bytes (gen_exe 0x100 [1, 2, 3] \<lparr>bytes = [], fpos = 0\<rparr>)"
  have "List.length ?f \<le> 2 ^ 5" by (simp add: gen_exe_bytes)
  from soc_start_console [OF this] show "console_ok clear_line 2 5 (soc_rest (\<lambda>_. 0xff) (ram_of (\<lambda>_. 0))) ?f
      (cpu (boot_init (soc_start 5 (\<lambda>_. 0xff) (ram_of (\<lambda>_. 0)) ?f)))" by (simp add: boot_init_def)
  show "drop (uart_pos clear_line 2 5 UART0 ?f (cpu (boot_init (soc_start 5 (\<lambda>_. 0xff) (ram_of (\<lambda>_. 0)) ?f)))) ?f = ?f"
    unfolding boot_init_def boot.simps soc_start_pos by simp
  show "\<not> 4 dvd List.length [1, 2, 3 :: u8]" unfolding dvd_def by simp presburger
qed (simp_all add: console_locs_def UART_CTRL_def UART_DATA_def UART0_def NEORV32_UART0_BASE_def
    SYSINFO_SOC_def NEORV32_SYSINFO_BASE_def)

section \<open>Runtime environment\<close>

text \<open>C27: After the set-up on core 0 and any sequence of installations and removals of handlers,
the vector table in memory is the map that the sequence describes: every entry that no later
operation touched is the panic handler, an installed handler is at the entry of its trap code and
nowhere else, and an invalid code changes nothing.  Interrupts are off, the trap vector is the
first-level handler, and no memory outside the table has changed.\<close>

theorem rte_table_refines:
  assumes "hart_at c R m s" "\<forall>h. hw m h (Csr CSR_MHARTID) = 0"
  shows "\<exists>s'. hart_at c R (fold (rte_run im) ops (neorv32_rte_setup im m)) s'
    \<and> (\<forall>code. valid_code code \<longrightarrow>
        word_at (ram s') (vector_at im code) = fold (table_run (rte_panic_at im)) ops (\<lambda>_. rte_panic_at im) code)
    \<and> (\<forall>b. b \<notin> table_of im \<longrightarrow> ram s' b = ram s b)
    \<and> mtvec s' = rte_core_at im AND NOT 3 \<and> mie_en s' = 0 \<and> \<not> mstatus_mie s'"
proof -
  from rte_setup_at [OF assms(1), of im] assms(2) obtain s1 where s1: "hart_at c R (neorv32_rte_setup im m) s1"
    "holds_table im (\<lambda>_. rte_panic_at im) (ram s) (ram s1)" "mtvec s1 = rte_core_at im AND NOT 3" "mie_en s1 = 0"
    "\<not> mstatus_mie s1" by auto
  have "hart_at c R (neorv32_rte_setup im m) (s1\<lparr>ram := ram s1\<rparr>)" using s1(1) by simp
  from rte_runs_refine [OF this s1(2), of ops] s1(3-5) show ?thesis
    by (auto simp: holds_table_def)
qed

lemma rte_table_refines_witness:
  fixes s defines "s \<equiv> \<lparr>ram = \<lambda>_. 0xff, prv_m = True, mstatus_mie = True, mstatus_mpie = False, mstatus_mpp = True,
      mstatus_mprv = False, mstatus_tw = False, mie_en = 8, mtvec = 0, mscratch = 0, mepc = 0, mcause = 0, mtval = 0, mtinst = 0\<rparr>"
  shows "\<exists>s'. hart_at True soc_memory (fold (rte_run low_image) [Install 0x80000007 0x3000, Install 0x40 0x4000]
      (neorv32_rte_setup low_image (hart_soc True soc_memory s))) s'
    \<and> word_at (ram s') (vector_at low_image 0x80000007) = 0x3000 \<and> word_at (ram s') (vector_at low_image 4) = 0x2000
    \<and> mie_en s' = 0"
proof -
  have "\<forall>h. hw (hart_soc True soc_memory s) h (Csr CSR_MHARTID) = 0"
    by (simp add: hart_soc_def uart_rtl_def Let_def hart_soc_rest_def hart_rtl_def trap_csrs_def csr_defs UART_CTRL_def
        UART_DATA_def SYSINFO_SOC_def)
  from rte_table_refines [OF hart_soc_at [OF low_console] this, of low_image "[Install 0x80000007 0x3000, Install 0x40 0x4000]"]
  obtain s' where "hart_at True soc_memory (fold (rte_run low_image) [Install 0x80000007 0x3000, Install 0x40 0x4000]
      (neorv32_rte_setup low_image (hart_soc True soc_memory s))) s'" "mie_en s' = 0"
    and t: "\<forall>code. valid_code code \<longrightarrow> word_at (ram s') (vector_at low_image code)
      = fold (table_run (rte_panic_at low_image)) [Install 0x80000007 0x3000, Install 0x40 0x4000] (\<lambda>_. rte_panic_at low_image) code"
    by blast
  moreover have "word_at (ram s') (vector_at low_image 0x80000007) = 0x3000" "word_at (ram s') (vector_at low_image 4) = 0x2000"
    using t [rule_format, of "0x80000007"] t [rule_format, of 4] by (simp_all add: valid_code_def low_image_def)
  ultimately show ?thesis by blast
qed

text \<open>C28: A trap is transparent.  For a handler that returns and only talks to devices, taking
the trap, running the first-level handler with it and returning restores every register,
the privilege level, the interrupt enables and all memory outside the frame below the stack pointer; the program
goes on where it was interrupted, or after the instruction that raised the exception, compressed
or not.\<close>

theorem rte_handler_transparent:
  assumes "trap_taken c R im cause pc mar ir ci s0 h"
    and "word_at (ram s0) (vector_at im cause) AND NOT 1 = addr"
    and "apart R L" "\<And>m m'. ok m \<Longrightarrow> only_hart R m m' \<Longrightarrow> ok m'"
    and "\<And>m. ok m \<Longrightarrow> \<exists>m'. f m = Some m' \<and> ok m' \<and> only_locs L m m'" "ok (hmach h)"
  shows "\<exists>h' s'. rte_core im c (c_handlers clobber (code(addr := f))) h = Some (next_pc cause pc ci, h')
    \<and> (\<forall>i. 1 \<le> i \<and> i < 32 \<longrightarrow> gpr h' i = gpr h i) \<and> hart_at c R (hmach h') s' \<and> ok (hmach h')
    \<and> (\<forall>b. b \<notin> frame_of (gpr h 2 - 128) \<longrightarrow> ram s' b = ram s0 b) \<and> mie_en s' = mie_en s0
    \<and> mstatus_mie (trap_exit s') = mstatus_mie s0 \<and> prv_m (trap_exit s') = prv_m s0"
  using device_handler.transparent [OF device_handler.intro, OF assms(4,3,5,1,2,6)] .

text \<open>A hart with the stack pointer at \<^verbatim>\<open>0x8000\<close>, in the system with a console.\<close>

definition reset_hart :: hart_hw where
  "reset_hart = \<lparr>ram = poke (vector_at low_image 0x80000003) 0x3000 (poke (vector_at low_image 0x80000012) 0x2000
      (poke (vector_at low_image 4) 0x4000 (poke 0x601 0x77001122 (\<lambda>_. 0)))),
    prv_m = True, mstatus_mie = True, mstatus_mpie = False, mstatus_mpp = True, mstatus_mprv = False, mstatus_tw = False,
    mie_en = 0x00040008, mtvec = 0x1000, mscratch = 0, mepc = 0, mcause = 0, mtval = 0, mtinst = 0\<rparr>"

definition running :: "hart_hw \<Rightarrow> hart" where
  "running s = \<lparr>hmach = hart_soc True soc_memory s, gpr = (\<lambda>i. of_nat i)(2 := 0x8000, 11 := 0x600)\<rparr>"

lemma reset_vectors:
  "word_at (ram reset_hart) (vector_at low_image 0x80000003) = 0x3000"
  "word_at (ram reset_hart) (vector_at low_image 0x80000012) = 0x2000"
  "word_at (ram reset_hart) (vector_at low_image 4) = 0x4000"
  "word_at (ram reset_hart) 0x601 = 0x77001122"
proof -
  have v: "valid_code 0x80000003" "valid_code 0x80000012" "valid_code 4" by (simp_all add: valid_code_def)
  note d = vectors_disjoint [of _ _ low_image]
  have far: "bytes_of W32 (vector_at low_image code) \<inter> bytes_of W32 0x601 = {}" if "code \<in> {0x80000003, 0x80000012, 4}" for code
    using that by (auto simp: vector_at_def low_image_def)
  show "word_at (ram reset_hart) (vector_at low_image 0x80000003) = 0x3000"
    "word_at (ram reset_hart) (vector_at low_image 0x80000012) = 0x2000"
    "word_at (ram reset_hart) (vector_at low_image 4) = 0x4000"
    "word_at (ram reset_hart) 0x601 = 0x77001122"
    using d [OF v(1,2)] d [OF v(1,3)] d [OF v(2,3)] far
    by (simp_all add: reset_hart_def word_at_poke_other del: bytes_of.simps)
qed

lemma running_taken:
  assumes "valid_code cause" "if ci then True else ir AND 3 = 3"
  shows "trap_taken True soc_memory low_image cause 0x500 0x601 ir ci reset_hart
    (running (trap_enter True cause 0x500 0x601 ir ci reset_hart))"
  using assms by (intro low_trap) (simp_all add: pc_mask_def running_def)

lemma rte_handler_transparent_witness:
  "\<exists>h' s'. rte_core low_image True (c_handlers (\<lambda>g. g) ((\<lambda>_. Some)(0x3000 := msi_irq_handler)))
      (running (trap_enter True 0x80000003 0x500 0x601 0x13 False reset_hart)) = Some (next_pc 0x80000003 0x500 False, h')
    \<and> (\<forall>i. 1 \<le> i \<and> i < 32 \<longrightarrow> gpr h' i
        = gpr (running (trap_enter True 0x80000003 0x500 0x601 0x13 False reset_hart)) i)
    \<and> hart_at True soc_memory (hmach h') s'
    \<and> msi_ok clear_line 2 5 (hart_soc_rest True soc_memory (trap_enter True 0x80000003 0x500 0x601 0x13 False reset_hart)) [] (hmach h')
    \<and> (\<forall>b. b \<notin> frame_of (gpr (running (trap_enter True 0x80000003 0x500 0x601 0x13 False reset_hart)) 2 - 128)
        \<longrightarrow> ram s' b = ram reset_hart b) \<and> mie_en s' = mie_en reset_hart
    \<and> mstatus_mie (trap_exit s') = mstatus_mie reset_hart \<and> prv_m (trap_exit s') = prv_m reset_hart"
proof (rule rte_handler_transparent [OF running_taken])
  show "word_at (ram reset_hart) (vector_at low_image 0x80000003) AND NOT 1 = 0x3000"
    unfolding reset_vectors by simp
  show "apart soc_memory msi_locs" by (rule msi_apart)
  show "msi_ok clear_line 2 5 (hart_soc_rest True soc_memory (trap_enter True 0x80000003 0x500 0x601 0x13 False reset_hart)) []
      (hmach (running (trap_enter True 0x80000003 0x500 0x601 0x13 False reset_hart)))"
    by (simp add: msi_ok_def running_def hart_soc_console)
      (simp add: hart_soc_rest_def hart_rtl_def trap_csrs_def csr_defs SYSINFO_SOC_def)
qed (use msi.d_undisturbed msi.returns in \<open>auto simp: valid_code_def\<close>)



text \<open>C30: With the emulation handler installed, an unaligned load word works: when the program goes on,
the destination register holds the four bytes at the base register plus the immediate, every
other register and the memory above the stack pointer are untouched.  The handler takes the
twelve bits of the immediate as unsigned, so for a negative offset this is the word 4096 bytes
above the one meant.\<close>

theorem rte_unaligned_load_emulated:
  assumes "trap_taken c R im (trap_code_of TRAP_CODE_L_MISALIGNED) pc mar ir ci s0 h"
    and "word_at (ram s0) (vector_at im (trap_code_of TRAP_CODE_L_MISALIGNED)) AND NOT 1 = addr"
    and "i = (if ci \<and> c then ir AND NOT 2 else ir)" "is_lw i"
    and "bytes_of W32 (reg h (lw_rs1 i) + lw_imm i) \<subseteq> R"
    and "bytes_of W32 (reg h (lw_rs1 i) + lw_imm i) \<inter> frame_of (gpr h 2 - 128) = {}"
  shows "\<exists>h' s'. rte_core im c (c_handlers clobber (code(addr := trap_handler_emulate_unaligned_lw))) h
      = Some (pc + (if ci then 2 else 4), h')
    \<and> (\<forall>k. 1 \<le> k \<and> k < 32 \<longrightarrow> gpr h' k
        = (if k = lw_rd i then word_at (ram s0) (reg h (lw_rs1 i) + lw_imm i) else gpr h k))
    \<and> hart_at c R (hmach h') s' \<and> (\<forall>b. b \<notin> frame_of (gpr h 2 - 128) \<longrightarrow> ram s' b = ram s0 b)
    \<and> mie_en s' = mie_en s0 \<and> mstatus_mie (trap_exit s') = mstatus_mie s0 \<and> prv_m (trap_exit s') = prv_m s0"
  using emulation_returns [OF assms] by (simp add: next_pc_def)

lemma rte_unaligned_load_emulated_witness:
  "\<exists>h'. rte_core low_image True (c_handlers (\<lambda>g. g) ((\<lambda>_. Some)(0x4000 := trap_handler_emulate_unaligned_lw)))
      (running (trap_enter True 4 0x500 0x601 0x0015a503 False reset_hart)) = Some (0x504, h') \<and> gpr h' 10 = 0x77001122"
proof -
  let ?s = "trap_enter True 4 0x500 0x601 0x0015a503 False reset_hart"
  have t: "trap_taken True soc_memory low_image (trap_code_of TRAP_CODE_L_MISALIGNED) 0x500 0x601 0x0015a503 False reset_hart (running ?s)"
    using running_taken [of 4 False "0x0015a503"] by (simp add: valid_code_def)
  have v: "word_at (ram reset_hart) (vector_at low_image (trap_code_of TRAP_CODE_L_MISALIGNED)) AND NOT 1 = 0x4000"
    using reset_vectors(3) by simp
  have i: "is_lw 0x0015a503" "lw_rs1 0x0015a503 = 11" "lw_rd 0x0015a503 = 10" "lw_imm 0x0015a503 = 1"
    by (simp_all add: is_lw_def lw_rs1_def lw_rd_def lw_imm_def)
  have a: "reg (running ?s) (lw_rs1 0x0015a503) + lw_imm 0x0015a503 = 0x601" unfolding i by (simp add: reg_def running_def)
  have b: "bytes_of W32 (reg (running ?s) (lw_rs1 0x0015a503) + lw_imm 0x0015a503) \<subseteq> soc_memory"
    unfolding a by (simp add: soc_memory_def)
  have "unat x < 0x700" if "x \<in> bytes_of W32 0x601" for x using that by auto
  moreover have "0x7f80 \<le> unat x" if "x \<in> frame_of 0x7f80" for x
    using range_below(1) [of "0x7f80" 128 "0x10000" x] that by (auto simp: frame_of_def)
  ultimately have d: "bytes_of W32 (reg (running ?s) (lw_rs1 0x0015a503) + lw_imm 0x0015a503)
      \<inter> frame_of (gpr (running ?s) 2 - 128) = {}" unfolding a by (fastforce simp: running_def)
  have e: "0x0015a503 = (if False \<and> True then 0x0015a503 AND NOT 2 else (0x0015a503 :: u32))" by simp
  from rte_unaligned_load_emulated [OF t v e i(1) b d, of "\<lambda>g. g" "\<lambda>_. Some"] obtain h' where
    "rte_core low_image True (c_handlers (\<lambda>g. g) ((\<lambda>_. Some)(0x4000 := trap_handler_emulate_unaligned_lw))) (running ?s)
      = Some (0x500 + (if False then 2 else 4), h')"
    and g: "\<forall>k. 1 \<le> k \<and> k < 32 \<longrightarrow> gpr h' k = (if k = lw_rd 0x0015a503 then word_at (ram reset_hart)
      (reg (running ?s) (lw_rs1 0x0015a503) + lw_imm 0x0015a503) else gpr (running ?s) k)" by blast
  then have "rte_core low_image True (c_handlers (\<lambda>g. g) ((\<lambda>_. Some)(0x4000 := trap_handler_emulate_unaligned_lw))) (running ?s)
      = Some (0x504, h')" by simp
  moreover have "gpr h' 10 = 0x77001122" using g [rule_format, of 10] by (simp only: a i(3) reset_vectors(4)) simp
  ultimately show ?thesis by blast
qed
section \<open>Two cores\<close>

text \<open>C31: However many harts use the lock of the dual-core runtime demo, and however their accesses
interleave, no two are between \<^verbatim>\<open>spin_lock\<close> and \<^verbatim>\<open>spin_unlock\<close> together, and the lock is set
only while some hart holds it, so it is never lost.\<close>

theorem swap_lock_excludes:
  assumes "spin_reach swap_lock n t s"
  shows "(\<forall>i j. at_pc s i = Inside \<and> at_pc s j = Inside \<longrightarrow> i = j)
    \<and> (spin_locked s \<noteq> 0 \<longleftrightarrow> (\<exists>i. at_pc s i = Inside \<or> at_pc s i = Unlock_swap))"
  using swap.excludes [OF assms] swap.reach_inv [OF assms] by (auto simp: swap_inv_def owns_def)

lemma swap_lock_excludes_witness:
  "\<exists>s :: spin. at_pc s 5 = Inside \<and> spin_locked s \<noteq> 0 \<and> at_pc s 3 \<noteq> Inside"
proof -
  obtain s where s: "spin_run swap_lock 6 [Call_lock 3, Call_lock 5, Do 5, Do 3] (spin_start (\<lambda>_. 1)) = Some s"
    "at_pc s 5 = Inside"
    by (simp add: spin_start_def swap_lock_def map_add_def bus_do_def)
  from spin_run_reach [OF spin_reach.start s(1)] have "spin_reach swap_lock 6 (\<lambda>_. 1) s" .
  from swap_lock_excludes [OF this] s(2) show ?thesis by fastforce
qed

text \<open>C32: In the dual-core demo both cores take the lock once, and they are never in their sections
together, although the reservation of the hardware belongs to no hart and no address.\<close>

theorem reservation_lock_one_turn:
  assumes "spin_reach reservation_lock 2 one_turn s"
  shows "\<not> (at_pc s 0 = Inside \<and> at_pc s 1 = Inside)"
  using one_shot.excludes [OF assms, of 0 1] by auto

lemma reservation_lock_one_turn_witness: "\<exists>s :: spin. at_pc s 1 = Inside \<and> at_pc s 0 \<noteq> Inside \<and> turns s 0 = 0"
proof -
  obtain s where s: "spin_run reservation_lock 2 [Call_lock 0, Do 0, Call_lock 1, Do 1, Do 1, Do 0] (spin_start one_turn) = Some s"
    "at_pc s 1 = Inside" "turns s 0 = 0"
    by (simp add: spin_start_def one_turn_def reservation_lock_def map_add_def bus_do_def)
  from reservation_lock_one_turn [OF spin_run_reach [OF spin_reach.start s(1)]] s(2,3) show ?thesis by blast
qed

text \<open>C33: When one of the two cores takes that lock a second time, both can be in their sections:
the release of one core renews the reservation of the other, whose store-conditional then
succeeds on a word read before.\<close>

theorem reservation_lock_second_turn:
  "\<exists>s. spin_reach reservation_lock 2 two_turns s \<and> at_pc s 0 = Inside \<and> at_pc s 1 = Inside"
proof -
  obtain s where s: "spin_run reservation_lock 2 lost_reservation (spin_start two_turns) = Some s"
    "at_pc s 0 = Inside" "at_pc s 1 = Inside" using lost_reservation_run by blast
  from spin_run_reach [OF spin_reach.start s(1)] s(2,3) show ?thesis by blast
qed

text \<open>C34: Launching the second core: while core 1 waits in \<^verbatim>\<open>crt0\<close>, and however the steps of the
cores interleave, the launch answers 0 or -2, and after a 0 core 1 has jumped, or is about to, to
the entry point with the aligned end of its stack as stack pointer.  If core 1 makes a step between
any two accesses of core 0 and the clock is fast enough for eleven polls, the answer is 0.\<close>

theorem smp_launch_starts_core1:
  assumes "hw m = smp_hw y gap init soc" "idle y (smp_at y gap init m)" "\<not> mswi1 (smp_at y gap init m)"
    and "entry_point \<noteq> crt0_entry y" "soc (Csr CSR_MHARTID) = 0"
    and "2 \<le> drop_bit (sysinfo_misc SYSINFO_MISC_HART_LSB) (soc SYSINFO_MISC) AND 0x0f"
    and "bit (soc SYSINFO_SOC) (sysinfo_soc SYSINFO_SOC_IO_CLINT)"
  shows "\<exists>r m'. neorv32_smp_launch y entry_point stk len m = (r, m') \<and> r \<in> {0, -2}
    \<and> (r = 0 \<longrightarrow> c1_pc (smp_at y gap init m') \<in> {Enter_main, Running} \<and> c1_x12 (smp_at y gap init m') = entry_point
        \<and> c1_x2 (smp_at y gap init m') = (stk + (len - 1)) AND 0xfffffff0)
    \<and> ((\<forall>n. 0 < gap n) \<and> 11 * 1024 \<le> unat (soc SYSINFO_CLK) \<longrightarrow> r = 0)"
proof -
  obtain r m' where r: "neorv32_smp_launch y entry_point stk len m = (r, m')" by fastforce
  note l = launch_outcome [OF assms r]
  have "10 < unat (drop_bit 10 (soc SYSINFO_CLK))" if "11 * 1024 \<le> unat (soc SYSINFO_CLK)"
    using that unfolding unat_drop_bit_eq by (simp add: drop_bit_eq_div)
  then show ?thesis using l r unfolding stack_top_def by blast
qed

text \<open>Core 1 asleep in the start-up code of the bootloader at the reset of core 0.\<close>

definition asleep :: core1 where
  "asleep = \<lparr>c1_pc = Sleep, c1_x2 = 0, c1_x12 = 0, c1_wakes = True, c1_msie = True, c1_mie = True,
     mswi1 = False, cmp_lo1 = 0, cmp_hi1 = 0\<rparr>"

definition dual_core :: "loc \<Rightarrow> u32" where
  "dual_core l = (if l = Csr CSR_MHARTID then 0 else if l = SYSINFO_CLK then 100000000 else - 1)"

lemma smp_launch_starts_core1_witness:
  "\<exists>m'. neorv32_smp_launch \<lparr>crt0_entry = 0x0, crt0_ram_last = 0x80001fff\<rparr> 0x400 0x80000100 2048
      \<lparr>hw = smp_hw \<lparr>crt0_entry = 0x0, crt0_ram_last = 0x80001fff\<rparr> (\<lambda>_. 1) asleep dual_core, log = []\<rparr> = (0, m')
    \<and> c1_x2 (smp_at \<lparr>crt0_entry = 0x0, crt0_ram_last = 0x80001fff\<rparr> (\<lambda>_. 1) asleep m') = 0x800008f0
    \<and> c1_x12 (smp_at \<lparr>crt0_entry = 0x0, crt0_ram_last = 0x80001fff\<rparr> (\<lambda>_. 1) asleep m') = 0x400"
proof -
  let ?y = "\<lparr>crt0_entry = 0x0, crt0_ram_last = 0x80001fff\<rparr>"
  let ?m = "\<lparr>hw = smp_hw ?y (\<lambda>_. 1) asleep dual_core, log = []\<rparr>"
  have s: "smp_at ?y (\<lambda>_. 1) asleep ?m = asleep" by (simp add: smp_at_def crt0_step_def asleep_def)
  have i: "idle ?y (smp_at ?y (\<lambda>_. 1) asleep ?m)" "\<not> mswi1 (smp_at ?y (\<lambda>_. 1) asleep ?m)"
    unfolding s by (simp_all add: asleep_def idle_def)
  have c: "(0x400 :: u32) \<noteq> crt0_entry ?y" "dual_core (Csr CSR_MHARTID) = 0"
    "2 \<le> drop_bit (sysinfo_misc SYSINFO_MISC_HART_LSB) (dual_core SYSINFO_MISC) AND 0x0f"
    "bit (dual_core SYSINFO_SOC) (sysinfo_soc SYSINFO_SOC_IO_CLINT)" "11 * 1024 \<le> unat (dual_core SYSINFO_CLK)"
    by (simp_all add: dual_core_def SYSINFO_CLK_def SYSINFO_MISC_def SYSINFO_SOC_def NEORV32_SYSINFO_BASE_def mask_eq_exp_minus_1)
  show ?thesis
    using smp_launch_starts_core1 [OF _ i c(1-4), of "0x80000100" 2048] c(5) by fastforce
qed

section \<open>Programs\<close>

text \<open>C35: The generations the game of life computes, eight cells to a byte and alternating between its
two universes, are those of Conway's rule on the torus, and the number of living cells it prints is
the number there are.\<close>

theorem life_generations_conway:
  assumes "u < 2"
  shows "alive (fst (life_generations k (u, U))) (snd (life_generations k (u, U))) = (conway ^^ k) (alive u U)
    \<and> pop_count (fst (life_generations k (u, U))) (snd (life_generations k (u, U))) = int (card ((conway ^^ k) (alive u U)))"
  using life_generations_alive [OF assms, of k U] pop_count_alive by simp

lemma life_generations_conway_witness:
  "alive (fst (life_generations 2 (0, \<lambda>_ _ _. 0))) (snd (life_generations 2 (0, \<lambda>_ _ _. 0))) = {}"
proof -
  have e: "alive 0 (\<lambda>_ _ _. 0) = {}" "conway {} = {}" by (simp_all add: alive_def conway_def)
  then have "(conway ^^ 2) {} = {}" by (simp add: numeral_2_eq_2)
  then show ?thesis using life_generations_conway [of 0 2 "\<lambda>_ _ _. 0"] e(1) by simp
qed

text \<open>C36: However the two cores interleave, the dual-core prime counter ends with the number of primes
below its limit, which is what one core counts alone; and until it has ended, some core can make a
step that brings it nearer to the end.\<close>

theorem dual_core_primes_equiv:
  assumes "primes_reach n s" "unat n \<le> 65535 * 65535 + 1"
  shows "(pc0 s = Finished \<longrightarrow> count_primes 0 n = Some (result0 s) \<and> unat (result0 s) = card {p. prime_number p \<and> p < unat n})
    \<and> (pc0 s \<noteq> Finished \<longrightarrow> (\<exists>s'. primes_step n s s'
          \<and> left0 (pc0 s') + left1 (pc1 s') < left0 (pc0 s) + left1 (pc1 s)))"
  using primes_finished [OF assms(1) _ assms(2)] primes_never_stuck [OF assms(1) _ assms(2)] by (simp add: primes_in_def)

definition primes_booted :: primes_sys where
  "primes_booted = \<lparr>shared_arg0 = 0, shared_arg1 = 0, shared_run = False, pc0 = Store_begin, result0 = 0,
     pc1 = Wait_run, range_begin = 0, range_end = 0, count1 = 0\<rparr>"

lemma dual_core_primes_equiv_witness: "\<exists>s'. primes_step 100 primes_booted s' \<and> left0 (pc0 s') + left1 (pc1 s') < 12"
proof -
  have "primes_reach 100 primes_booted" by (rule primes_reach.start) (simp add: primes_start_def primes_booted_def)
  from dual_core_primes_equiv [OF this] show ?thesis by (simp add: primes_booted_def)
qed

text \<open>C37: The cipher that the CPU runs on its custom functions unit, one instruction a half round, whatever
the CPU executes between the instructions and in whatever registers, is the cipher in software, and
decryption inverts encryption; so the program finds no difference, and its last instruction, which the
unit does not have, traps.\<close>

theorem xtea_unit_equiv:
  assumes "hart_ready h"
  shows "(\<exists>h'. hw_encipher v h = Some (xtea_sw_encipher XTEA_ROUNDS v (key_mem (unit h)), h'))
    \<and> (\<exists>h'. hw_decipher (xtea_sw_encipher XTEA_ROUNDS v (key_mem (unit h))) h = Some (v, h'))
    \<and> (\<exists>h'. cfu_demo seed h = Some (Demo_ok, h') \<and> xtea_hw_illegal_inst h' = None)"
  using hw_encipher_result [OF assms, of v]
    hw_decipher_result [OF assms, of "xtea_sw_encipher XTEA_ROUNDS v (key_mem (unit h))"]
    cfu_demo_result [OF assms, of seed] hw_illegal_inst_traps
  by (auto simp: xtea_decipher_encipher)

lemma xtea_unit_equiv_witness:
  "\<exists>h'. cfu_demo 314159265
     \<lparr>unit = cfu_reset, issued = 0, others = \<lambda>n. replicate n (insn_r 0x33 0 0 1 2 3, 5, 7), regs = \<lambda>_. (10, 11, 12)\<rparr> = Some (Demo_ok, h')"
  using xtea_unit_equiv [of "\<lparr>unit = cfu_reset, issued = 0, others = \<lambda>n. replicate n (insn_r 0x33 0 0 1 2 3, 5, 7), regs = \<lambda>_. (10, 11, 12)\<rparr>"
      "(0, 0)" 314159265]
  by (auto simp: hart_ready_def cfu_ready_def cfu_reset_def)

text \<open>C38: A write command typed at the memory inspector, edited and echoed on a serial line that loses nothing,
for an address that is no register of the console and whose stores the bus either always takes or always answers with an
error: if the address is aligned for the width that is set up and the bus takes the store, exactly the value that the
command names is stored, once, at that width and address; otherwise nothing is stored and the exception is noted.
Nothing else but the console is touched, and the inspector asks again.\<close>

theorem bus_explorer_writes:
  assumes "uart_ok p txd rxd rest UART0 input (bus s)"
    and "line_edit 32 [] (drop (uart_pos p txd rxd UART0 input (bus s)) input) = Some (line, echoed)"
    and "strtok_words [] line = [str ''write'', wa, wd]" "hex_arg wa = Some a" "hex_arg wd = Some d" "0 \<notin> set line"
    and "List.length buffer = 40" "bx_cell (access_size s) d = Some (w, v)" "Mem w a \<notin> console_locs"
    and "\<forall>h. hw (bus s) h (BusErr True w a) = err"
  shows "\<exists>buffer' s'. bx_turn env buffer s = Some (buffer', Bx_again s')
    \<and> exception s' = (\<not> (aligned w a \<and> err = 0))
    \<and> (\<forall>l. l \<notin> console_locs \<longrightarrow>
        written l (bus s') = written l (bus s) @ (if l = Mem w a \<and> aligned w a \<and> err = 0 then [v] else []))"
  using bx_uart.bx_turn_write [OF assms(1-5) _ assms(7-9), of err env] assms(6,10) unfolding stores_def by metis

text \<open>A half-word at an even address is stored; at an odd one it is not.\<close>

definition typed_write :: "u8 \<Rightarrow> u8 list" where
  "typed_write c = str ''write 80'' @ [c] @ str '' fe'' @ [8, 0x64, 13]"

definition explorer_of :: "u8 list \<Rightarrow> bx" where
  "explorer_of input = \<lparr>bus = uart_fresh input, access_size = 0x68, exception = False\<rparr>"

lemma bus_explorer_writes_witness:
  "(\<exists>buffer' s'. bx_turn (\<lambda>_ _. 0) (replicate 40 7) (explorer_of (typed_write 0x65)) = Some (buffer', Bx_again s')
      \<and> \<not> exception s' \<and> written (Mem W16 0x80e) (bus s') = [0xfd])
    \<and> (\<exists>buffer' s'. bx_turn (\<lambda>_ _. 0) (replicate 40 7) (explorer_of (typed_write 0x66)) = Some (buffer', Bx_again s')
      \<and> exception s' \<and> written (Mem W16 0x80f) (bus s') = [])"
proof -
  have turn: "\<exists>buffer' s'. bx_turn (\<lambda>_ _. 0) (replicate 40 7) (explorer_of (typed_write c)) = Some (buffer', Bx_again s')
      \<and> exception s' = (\<not> (aligned W16 a \<and> (0 :: u32) = 0))
      \<and> (\<forall>l. l \<notin> console_locs \<longrightarrow> written l (bus s')
        = written l (bus (explorer_of (typed_write c))) @ (if l = Mem W16 a \<and> aligned W16 a \<and> (0 :: u32) = 0 then [0xfd] else []))"
    if c: "c = 0x65 \<and> a = 0x80e \<or> c = 0x66 \<and> a = 0x80f" for c a
  proof (rule bus_explorer_writes)
    show "uart_ok clear_line 2 2 (\<lambda>_ _. 0) UART0 (typed_write c) (bus (explorer_of (typed_write c)))"
      using uart_fresh_ok [of "typed_write c"] by (simp add: UART0_def explorer_of_def)
    have "uart_pos clear_line 2 2 UART0 (typed_write c) (bus (explorer_of (typed_write c))) = 0"
      by (simp add: explorer_of_def UART0_def uart_pos_def uart_fresh_def uart_bus_def uart_cycle_def uart_init_def u_en_def
        uart_rw_bits_def uart_rx_frame_def uart_tx_start_def uart_tx_frame_def typed_write_def str_def)
    then show "line_edit 32 [] (drop (uart_pos clear_line 2 2 UART0 (typed_write c) (bus (explorer_of (typed_write c)))) (typed_write c))
        = Some (str ''write 80'' @ [c] @ str '' fd'', str ''write 80'' @ [c] @ str '' fe'' @ [8, 0x20, 8, 0x64])"
      using c by (auto simp: typed_write_def ed_step_def str_def)
    show "strtok_words [] (str ''write 80'' @ [c] @ str '' fd'') = [str ''write'', str ''80'' @ [c], str ''fd'']"
      using c by (auto simp: str_def)
    show "hex_arg (str ''80'' @ [c]) = Some a" using c by (auto simp: hex_arg_digits str_def hex_digit_def)
    show "hex_arg (str ''fd'') = Some 0xfd" by (simp add: hex_arg_digits str_def hex_digit_def)
    show "0 \<notin> set (str ''write 80'' @ [c] @ str '' fd'')" using c by (auto simp: str_def)
    show "bx_cell (access_size (explorer_of (typed_write c))) 0xfd = Some (W16, 0xfd)" by (simp add: bx_cell_def explorer_of_def)
    show "\<forall>h. hw (bus (explorer_of (typed_write c))) h (BusErr True W16 a) = 0"
      by (simp add: explorer_of_def uart_fresh_def uart_rtl_def UART_CTRL_def UART_DATA_def Let_def)
  qed (use c in \<open>auto simp: console_locs_def UART_CTRL_def UART_DATA_def SYSINFO_SOC_def\<close>)
  have no: "written l (bus (explorer_of (typed_write c))) = []" if "l \<notin> console_locs" for l c
    using that by (auto simp: explorer_of_def uart_fresh_def written_def console_locs_def UART0_def NEORV32_UART0_BASE_def)
  have l: "Mem W16 0x80e \<notin> console_locs" "Mem W16 0x80f \<notin> console_locs"
    by (simp_all add: console_locs_def UART_CTRL_def UART_DATA_def SYSINFO_SOC_def)
  from turn [of "0x65" "0x80e"] turn [of "0x66" "0x80f"] l no [OF l(1)] no [OF l(2)] show ?thesis by auto
qed

text \<open>C39: The repetition count test of the random number demo, on the generator's registers and queue: as long
as the generator keeps delivering and somebody presses a key in the end, the test returns; it reports a failure
exactly if ten equal bytes in a row were read, and it stops at the first such run.\<close>

theorem repetition_test_verdict:
  assumes "trng_runs C gen rest limit m"
  shows "\<exists>fail m' xs. rep_run m = Some (fail, m') \<and> drawn m' = drawn m @ xs \<and> fail = has_run 10 xs
    \<and> (\<forall>us vs. xs = us @ vs \<longrightarrow> vs \<noteq> [] \<longrightarrow> \<not> has_run 10 us)"
  using trng_rtl.rep_run_result [OF assms] by blast

definition key_after :: "nat \<Rightarrow> event list \<Rightarrow> loc \<Rightarrow> u32" where
  "key_after n h l = (if l = UART_CTRL UART0 \<and> n \<le> List.length (read_in TRNG_DATA h) then BIT (uart_ctrl UART_CTRL_RX_NEMPTY) else 0)"

definition stuck_trng :: mach where
  "stuck_trng = \<lparr>hw = trng_rtl \<lparr>sim_mode = False, log2_fifo = 5, log2_rbit = 6, num_ro = 3, num_inv = 5\<rparr> (\<lambda>_. Some 7)
     (key_after 100), log = [Wr TRNG_CTRL 1]\<rparr>"

lemma repetition_test_verdict_witness:
  "\<exists>fail m' xs. rep_run stuck_trng = Some (fail, m') \<and> drawn m' = xs \<and> fail = has_run 10 xs
    \<and> (\<forall>us vs. xs = us @ vs \<longrightarrow> vs \<noteq> [] \<longrightarrow> \<not> has_run 10 us)"
proof -
  have "trng_runs \<lparr>sim_mode = False, log2_fifo = 5, log2_rbit = 6, num_ro = 3, num_inv = 5\<rparr> (\<lambda>_. Some 7)
      (key_after 100) 100 stuck_trng"
    by (auto simp: trng_runs_def stuck_trng_def trng_access_def key_after_def)
  from repetition_test_verdict [OF this] show ?thesis by (simp add: drawn_def read_from_def stuck_trng_def)
qed

text \<open>C40: The heap: as long as no request is negative (which gives memory back) or reaches beyond the address
space, in whatever order and number the requests come, the blocks that are granted lie one behind the other in the
heap, from its current end on, and none of them overlaps another.\<close>

theorem heap_blocks_stacked:
  assumes "heap_size hl \<noteq> 0" "heap_begin hl \<noteq> 0" "heap_begin hl \<le> heap_at hl s" "heap_at hl s < heap_end hl"
    and "\<forall>i \<in> set is. 0 \<le> i \<and> i + int (unat (heap_end hl)) < 2 ^ 32"
  shows "stacked (unat (heap_at hl s)) (unat (heap_end hl)) (sbrk_blocks hl is s)"
  by (rule sbrk_blocks_stacked [OF assms(1,3,4,2,5)])

lemma heap_blocks_stacked_witness:
  "(let hl = \<lparr>heap_begin = 0x80001000, heap_end = 0x80001100, heap_size = 0x100\<rparr>;
       s = \<lparr>cpu_of = \<lparr>hw = \<lambda>_ _. 0, log = []\<rparr>, errno = None, curr_heap = 0\<rparr>
   in sbrk_blocks hl [0x80, 0x90, 0x10] s = [(0x80001000, 0x80), (0x80001080, 0x10)]
     \<and> stacked 0x80001000 0x80001100 (sbrk_blocks hl [0x80, 0x90, 0x10] s))"
  using heap_blocks_stacked [of "\<lparr>heap_begin = 0x80001000, heap_end = 0x80001100, heap_size = 0x100\<rparr>"
      "\<lparr>cpu_of = \<lparr>hw = \<lambda>_ _. 0, log = []\<rparr>, errno = None, curr_heap = 0\<rparr>" "[0x80, 0x90, 0x10]"]
  by (simp add: heap_at_def nl_sbrk_def)

end
